(* ===== verification/Prelude.thy ===== *)
theory Prelude
  imports Main "HOL-Library.Char_ord" "HOL-Library.List_Lexorder"
begin

text \<open>
  The shared base of the development: the collections its proofs use, the way Go values are
  represented, and generic facts on lists that several components need.

  Representation of Go values:
  \<^item> a Go \<open>string\<close> (and a \<open>[]byte\<close>) is a list of bytes, the type \<open>string\<close> of HOL whose
    characters are exactly the 256 byte values; \<open>len\<close> is \<open>length\<close>;
  \<^item> a \<open>rune\<close> is a code point, a natural number;
  \<^item> a nil-able pointer is an \<open>option\<close>; a Go map is a partial function, or an association list
    where the code ranges over it;
  \<^item> a function that returns \<open>(T, error)\<close> returns a sum, \<open>Inl\<close> the error and \<open>Inr\<close> the value;
    a run-time panic is \<open>None\<close> of an option.
\<close>

named_theorems go_simps "equations of the model of the Go standard library"
named_theorems frame_simps "fields that an operation leaves alone"
named_theorems keeps "operations that keep an invariant"

type_synonym rune = nat

abbreviation byte :: "char \<Rightarrow> nat" where
  "byte c \<equiv> of_char c"

subsection \<open>Runs at the front of a list\<close>

text \<open>
  Many loops of the code measure the run of equal elements at the front of a list. The length
  of the run and what follows it are the two facts their proofs need.
\<close>

definition run_length :: "'a \<Rightarrow> 'a list \<Rightarrow> nat" where
  "run_length x xs = length (takeWhile (\<lambda>y. y = x) xs)"

lemma run_length_Nil [simp]: "run_length x [] = 0"
  by (simp add: run_length_def)

lemma run_length_Cons [simp]:
  "run_length x (y # ys) = (if y = x then Suc (run_length x ys) else 0)"
  by (simp add: run_length_def)

lemma drop_run_length: "drop (run_length x xs) xs = dropWhile (\<lambda>y. y = x) xs"
  by (simp add: run_length_def dropWhile_eq_drop)

lemma run_length_le: "run_length x xs \<le> length xs"
  by (induction xs) auto

lemma run_length_replicate_append [simp]:
  "run_length x (replicate n x @ ys) = n + run_length x ys"
  by (induction n) auto

subsection \<open>Lists\<close>

lemma list_all_concat [simp]: "list_all P (concat xss) = list_all (list_all P) xss"
  by (induction xss) auto

lemma distinct_filter_single:
  assumes "distinct xs" and "\<And>x. x \<in> set xs \<Longrightarrow> P x \<Longrightarrow> x = a"
  shows "length (filter P xs) \<le> 1"
proof -
  have "length (filter P xs) = card (set (filter P xs))"
    by (rule distinct_card [OF distinct_filter [OF assms(1)], symmetric])
  also have "\<dots> \<le> card {a}"
    using assms(2) by (intro card_mono) auto
  finally show ?thesis by simp
qed

end
