(* ===== verification/Go_Strings.thy ===== *)
theory Go_Strings
  imports Prelude
begin

text \<open>
  The part of Go's standard library that the modelled code calls: UTF-8 (\<open>unicode/utf8\<close> and the
  conversion \<open>[]rune(s)\<close>), \<open>strconv.Itoa\<close>, and the functions of \<open>strings\<close>. Every definition
  computes, on bytes, what the library documents.
\<close>

section \<open>UTF-8\<close>

definition rune_error :: rune where
  "rune_error = 0xFFFD"

definition byte_in :: "nat \<Rightarrow> nat \<Rightarrow> char \<Rightarrow> bool" where
  "byte_in lo hi b \<longleftrightarrow> lo \<le> byte b \<and> byte b \<le> hi"

text \<open>\<open>valid_rune\<close> is \<open>utf8.ValidRune\<close>: a code point that is not a surrogate.\<close>

definition valid_rune :: "rune \<Rightarrow> bool" where
  "valid_rune r \<longleftrightarrow> r < 0xD800 \<or> 0xDFFF < r \<and> r \<le> 0x10FFFF"

text \<open>
  \<open>utf8.AppendRune(nil, r)\<close>: the encoding of \<open>r\<close>; an invalid rune is encoded as U+FFFD.
\<close>

definition encode_rune :: "rune \<Rightarrow> string" where
  "encode_rune r0 =
     (let r = (if valid_rune r0 then r0 else rune_error) in
      if r \<le> 0x7F then [char_of r]
      else if r \<le> 0x7FF then [char_of (0xC0 + r div 64), char_of (0x80 + r mod 64)]
      else if r \<le> 0xFFFF then
        [char_of (0xE0 + r div 4096), char_of (0x80 + r div 64 mod 64), char_of (0x80 + r mod 64)]
      else
        [char_of (0xF0 + r div 262144), char_of (0x80 + r div 4096 mod 64),
         char_of (0x80 + r div 64 mod 64), char_of (0x80 + r mod 64)])"

text \<open>
  \<open>utf8.DecodeRune\<close>: the first rune and its width. The bounds on the second byte exclude
  overlong forms, surrogates and code points past U+10FFFF; anything else is U+FFFD of width 1.
\<close>

definition second_lo :: "nat \<Rightarrow> nat" where
  "second_lo x = (if x = 0xE0 then 0xA0 else if x = 0xF0 then 0x90 else 0x80)"

definition second_hi :: "nat \<Rightarrow> nat" where
  "second_hi x = (if x = 0xED then 0x9F else if x = 0xF4 then 0x8F else 0xBF)"

fun decode_rune :: "string \<Rightarrow> rune \<times> nat" where
  "decode_rune [] = (rune_error, 0)"
| "decode_rune (b0 # bs) =
     (let x = byte b0 in
      if x < 0x80 then (x, 1)
      else if 0xC2 \<le> x \<and> x \<le> 0xDF then
        (case bs of
           b1 # _ \<Rightarrow> if byte_in 0x80 0xBF b1 then ((x - 0xC0) * 64 + (byte b1 - 0x80), 2)
                     else (rune_error, 1)
         | _ \<Rightarrow> (rune_error, 1))
      else if 0xE0 \<le> x \<and> x \<le> 0xEF then
        (case bs of
           b1 # b2 # _ \<Rightarrow>
             if byte_in (second_lo x) (second_hi x) b1 \<and> byte_in 0x80 0xBF b2
             then ((x - 0xE0) * 4096 + (byte b1 - 0x80) * 64 + (byte b2 - 0x80), 3)
             else (rune_error, 1)
         | _ \<Rightarrow> (rune_error, 1))
      else if 0xF0 \<le> x \<and> x \<le> 0xF4 then
        (case bs of
           b1 # b2 # b3 # _ \<Rightarrow>
             if byte_in (second_lo x) (second_hi x) b1 \<and> byte_in 0x80 0xBF b2 \<and> byte_in 0x80 0xBF b3
             then ((x - 0xF0) * 262144 + (byte b1 - 0x80) * 4096 + (byte b2 - 0x80) * 64
                     + (byte b3 - 0x80), 4)
             else (rune_error, 1)
         | _ \<Rightarrow> (rune_error, 1))
      else (rune_error, 1))"

text \<open>The conversion \<open>[]rune(s)\<close>.\<close>

function runes :: "string \<Rightarrow> rune list" where
  "runes [] = []"
| "runes (b # bs) =
     (let (r, w) = decode_rune (b # bs) in r # runes (drop (w - 1) bs))"
  by pat_completeness auto
termination
  by (relation "measure length") auto

definition utf8 :: "rune list \<Rightarrow> string" where
  "utf8 rs = concat (map encode_rune rs)"

lemma utf8_simps [simp]:
  "utf8 [] = []" "utf8 (r # rs) = encode_rune r @ utf8 rs" "utf8 (rs @ rs') = utf8 rs @ utf8 rs'"
  by (simp_all add: utf8_def)

lemma encode_ascii [simp]: "r < 128 \<Longrightarrow> encode_rune r = [char_of r]"
  by (simp add: encode_rune_def valid_rune_def)

lemma encode_byte [simp]: "byte c < 128 \<Longrightarrow> encode_rune (byte c) = [c]"
  by simp

lemma encode_2:
  "128 \<le> r \<Longrightarrow> r < 2048 \<Longrightarrow>
   encode_rune r = [char_of (0xC0 + r div 64), char_of (0x80 + r mod 64)]"
  by (simp add: encode_rune_def valid_rune_def)

lemma encode_3:
  "2048 \<le> r \<Longrightarrow> r < 65536 \<Longrightarrow> valid_rune r \<Longrightarrow>
   encode_rune r =
     [char_of (0xE0 + r div 4096), char_of (0x80 + r div 64 mod 64), char_of (0x80 + r mod 64)]"
  by (simp add: encode_rune_def)

lemma encode_4:
  "65536 \<le> r \<Longrightarrow> valid_rune r \<Longrightarrow>
   encode_rune r =
     [char_of (0xF0 + r div 262144), char_of (0x80 + r div 4096 mod 64),
      char_of (0x80 + r div 64 mod 64), char_of (0x80 + r mod 64)]"
  by (simp add: encode_rune_def)

lemma split_64: "(r::nat) div 64 * 64 + r mod 64 = r"
  by simp

lemma split_4096: "(r::nat) div 4096 * 4096 + r div 64 mod 64 * 64 + r mod 64 = r"
proof -
  have "r div 64 div 64 * 64 + r div 64 mod 64 = r div 64" by (rule div_mult_mod_eq)
  then have "(r div 4096 * 64 + r div 64 mod 64) * 64 + r mod 64 = r"
    by (simp add: div_mult2_eq [symmetric])
  then show ?thesis by (simp add: algebra_simps)
qed

lemma split_262144:
  "(r::nat) div 262144 * 262144 + r div 4096 mod 64 * 4096 + r div 64 mod 64 * 64 + r mod 64 = r"
proof -
  have "r div 4096 div 64 * 64 + r div 4096 mod 64 = r div 4096" by (rule div_mult_mod_eq)
  then have "(r div 262144 * 64 + r div 4096 mod 64) * 4096 + r div 64 mod 64 * 64 + r mod 64 = r"
    using split_4096 [of r] by (simp add: div_mult2_eq [symmetric])
  then show ?thesis by (simp add: algebra_simps)
qed

lemma decode_encode:
  assumes "valid_rune r"
  shows "decode_rune (encode_rune r @ s) = (r, length (encode_rune r))"
proof -
  consider "r < 128" | "128 \<le> r" "r < 2048" | "2048 \<le> r" "r < 65536" | "65536 \<le> r" by linarith
  then show ?thesis
  proof cases
    case 1
    then show ?thesis by simp
  next
    case 2
    define h where "h = r div 64"
    define l where "l = r mod 64"
    have r: "r = h * 64 + l" "l < 64" "h < 32" "2 \<le> h"
      using 2 split_64 [of r] by (auto simp: h_def l_def)
    have "encode_rune r = [char_of (0xC0 + h), char_of (0x80 + l)]"
      using 2 by (simp add: encode_2 h_def l_def)
    then show ?thesis
      using r by (simp add: Let_def byte_in_def)
  next
    case 3
    define h where "h = r div 4096"
    define m where "m = r div 64 mod 64"
    define l where "l = r mod 64"
    have r: "r = h * 4096 + m * 64 + l" "m < 64" "l < 64" "h < 16"
      using 3 split_4096 [of r] by (auto simp: h_def m_def l_def)
    have lo: "h = 0 \<Longrightarrow> 32 \<le> m" using 3 r by simp
    have hi: "h = 13 \<Longrightarrow> m < 32"
      using assms r by (auto simp: valid_rune_def)
    have "encode_rune r = [char_of (0xE0 + h), char_of (0x80 + m), char_of (0x80 + l)]"
      using 3 assms by (simp add: encode_3 h_def m_def l_def)
    then show ?thesis
      using r lo hi by (auto simp: Let_def byte_in_def second_lo_def second_hi_def)
  next
    case 4
    define g where "g = r div 262144"
    define h where "h = r div 4096 mod 64"
    define m where "m = r div 64 mod 64"
    define l where "l = r mod 64"
    have r: "r = g * 262144 + h * 4096 + m * 64 + l" "h < 64" "m < 64" "l < 64"
      using split_262144 [of r] by (auto simp: g_def h_def m_def l_def)
    have g: "g \<le> 4" using assms r 4 by (auto simp: valid_rune_def)
    have lo: "g = 0 \<Longrightarrow> 16 \<le> h" using 4 r by simp
    have hi: "g = 4 \<Longrightarrow> h < 16"
      using assms r 4 by (auto simp: valid_rune_def)
    have "encode_rune r =
        [char_of (0xF0 + g), char_of (0x80 + h), char_of (0x80 + m), char_of (0x80 + l)]"
      using 4 assms by (simp add: encode_4 g_def h_def m_def l_def)
    then show ?thesis
      using r g lo hi by (auto simp: Let_def byte_in_def second_lo_def second_hi_def)
  qed
qed

lemma encode_nonempty [simp]: "encode_rune r \<noteq> []"
  by (simp add: encode_rune_def Let_def)

lemma runes_encode_append:
  assumes "valid_rune r"
  shows "runes (encode_rune r @ s) = r # runes s"
proof -
  obtain b bs where e: "encode_rune r = b # bs" by (cases "encode_rune r") auto
  then show ?thesis using decode_encode [OF assms, of s] by simp
qed

text \<open>Decoding what was encoded gives the runes back: the conversions of Go are inverse here.\<close>

lemma runes_utf8: "list_all valid_rune rs \<Longrightarrow> runes (utf8 rs) = rs"
  by (induction rs) (auto simp: runes_encode_append)

lemma runes_ascii: "list_all (\<lambda>c. byte c < 128) s \<Longrightarrow> runes s = map byte s"
  by (induction s) (auto simp: Let_def)

lemma utf8_ascii: "list_all (\<lambda>c. byte c < 128) s \<Longrightarrow> utf8 (map byte s) = s"
  by (induction s) auto

section \<open>Decimal numbers\<close>

definition digit_char :: "nat \<Rightarrow> char" where
  "digit_char d = char_of (48 + d)"

definition is_digit :: "char \<Rightarrow> bool" where
  "is_digit c \<longleftrightarrow> 48 \<le> byte c \<and> byte c \<le> 57"

definition digit_val :: "char \<Rightarrow> nat" where
  "digit_val c = byte c - 48"

fun itoa_nat :: "nat \<Rightarrow> string" where
  "itoa_nat n = (if n < 10 then [digit_char n] else itoa_nat (n div 10) @ [digit_char (n mod 10)])"

declare itoa_nat.simps [simp del]

text \<open>\<open>strconv.Itoa\<close>, \<open>strconv.AppendInt(.., 10)\<close> and the verb \<open>%d\<close>.\<close>

definition itoa :: "int \<Rightarrow> string" where
  "itoa i = (if i < 0 then ''-'' @ itoa_nat (nat (- i)) else itoa_nat (nat i))"

text \<open>The value of a string of digits, used to state that a rendering can be read back.\<close>

definition num_val :: "string \<Rightarrow> nat" where
  "num_val s = foldl (\<lambda>n c. 10 * n + digit_val c) 0 s"

lemma digit_char_eval [simp]:
  "digit_char 0 = CHR ''0''" "digit_char (Suc 0) = CHR ''1''" "digit_char 2 = CHR ''2''"
  "digit_char 3 = CHR ''3''" "digit_char 4 = CHR ''4''" "digit_char 5 = CHR ''5''"
  "digit_char 6 = CHR ''6''" "digit_char 7 = CHR ''7''" "digit_char 8 = CHR ''8''"
  "digit_char 9 = CHR ''9''"
  by code_simp+

lemma byte_digit_char [simp]: "d < 10 \<Longrightarrow> byte (digit_char d) = 48 + d"
  by (simp add: digit_char_def)

lemma is_digit_digit_char [simp]: "d < 10 \<Longrightarrow> is_digit (digit_char d)"
  by (simp add: is_digit_def)

lemma digit_val_digit_char [simp]: "d < 10 \<Longrightarrow> digit_val (digit_char d) = d"
  by (simp add: digit_val_def)

lemma itoa_nat_small: "n < 10 \<Longrightarrow> itoa_nat n = [digit_char n]"
  by (subst itoa_nat.simps) simp

lemma itoa_nat_step: "10 \<le> n \<Longrightarrow> itoa_nat n = itoa_nat (n div 10) @ [digit_char (n mod 10)]"
  by (subst itoa_nat.simps) simp

lemma num_val_snoc [simp]: "num_val (s @ [c]) = 10 * num_val s + digit_val c"
  by (simp add: num_val_def)

lemma num_val_itoa_nat [simp]: "num_val (itoa_nat n) = n"
proof (induction n rule: itoa_nat.induct)
  case (1 n)
  show ?case
  proof (cases "n < 10")
    case True
    then show ?thesis by (simp add: itoa_nat_small num_val_def)
  next
    case False
    then show ?thesis using "1.IH" by (simp add: itoa_nat_step)
  qed
qed

lemma itoa_nat_digits: "list_all is_digit (itoa_nat n)"
proof (induction n rule: itoa_nat.induct)
  case (1 n)
  then show ?case by (cases "n < 10") (simp_all add: itoa_nat_small itoa_nat_step)
qed

lemma itoa_nat_nonempty [simp]: "itoa_nat n \<noteq> []"
  by (cases "n < 10") (simp_all add: itoa_nat_small itoa_nat_step)

lemma length_itoa_nat:
  "n < 10 \<Longrightarrow> length (itoa_nat n) = 1"
  "10 \<le> n \<Longrightarrow> n < 100 \<Longrightarrow> length (itoa_nat n) = 2"
  "100 \<le> n \<Longrightarrow> n < 1000 \<Longrightarrow> length (itoa_nat n) = 3"
  "1000 \<le> n \<Longrightarrow> n < 10000 \<Longrightarrow> length (itoa_nat n) = 4"
  by (simp_all add: itoa_nat_small itoa_nat_step)

lemma length_itoa_nat_ge2: "10 \<le> n \<Longrightarrow> 2 \<le> length (itoa_nat n)"
proof -
  assume "10 \<le> n"
  moreover have "1 \<le> length (itoa_nat (n div 10))"
    by (cases "itoa_nat (n div 10)") auto
  ultimately show ?thesis by (simp add: itoa_nat_step)
qed

lemma itoa_inj: "itoa i = itoa j \<Longrightarrow> i = j"
proof -
  have minus: "CHR ''-'' \<notin> set (itoa_nat n)" for n
  proof -
    have "list_all (\<lambda>c. c \<noteq> CHR ''-'') (itoa_nat n)"
      using itoa_nat_digits [of n] by (rule list.pred_mono_strong) (auto simp: is_digit_def)
    then show ?thesis by (auto simp: list_all_iff)
  qed
  have eq: "n = m" if "itoa_nat n = itoa_nat m" for n m
    using that by (metis num_val_itoa_nat)
  have ne: "itoa_nat n \<noteq> CHR ''-'' # s" for n s
    using minus [of n] by auto
  assume "itoa i = itoa j"
  then show ?thesis
    using eq ne ne [symmetric] by (fastforce simp: itoa_def split: if_splits dest!: eq)
qed

section \<open>The package strings\<close>

definition has_prefix :: "string \<Rightarrow> string \<Rightarrow> bool" where
  "has_prefix s p \<longleftrightarrow> take (length p) s = p"

definition has_suffix :: "string \<Rightarrow> string \<Rightarrow> bool" where
  "has_suffix s p \<longleftrightarrow> has_prefix (rev s) (rev p)"

definition trim_suffix :: "string \<Rightarrow> string \<Rightarrow> string" where
  "trim_suffix s p = (if has_suffix s p then take (length s - length p) s else s)"

fun contains :: "string \<Rightarrow> string \<Rightarrow> bool" where
  "contains [] sub = (sub = [])"
| "contains (x # xs) sub = (has_prefix (x # xs) sub \<or> contains xs sub)"

text \<open>\<open>strings.ContainsAny\<close> for a set of ASCII characters.\<close>

definition contains_any :: "string \<Rightarrow> string \<Rightarrow> bool" where
  "contains_any s chars \<longleftrightarrow> list_ex (\<lambda>c. c \<in> set chars) s"

text \<open>\<open>strings.ReplaceAll\<close> for an old string of one byte.\<close>

definition replace_char :: "char \<Rightarrow> string \<Rightarrow> string \<Rightarrow> string" where
  "replace_char c new s = concat (map (\<lambda>x. if x = c then new else [x]) s)"

fun join :: "string \<Rightarrow> string list \<Rightarrow> string" where
  "join sep [] = []"
| "join sep [x] = x"
| "join sep (x # y # ys) = x @ sep @ join sep (y # ys)"

text \<open>\<open>strings.Split\<close> for a separator of one byte.\<close>

fun split_char :: "char \<Rightarrow> string \<Rightarrow> string list" where
  "split_char c [] = [[]]"
| "split_char c (x # xs) =
     (if x = c then [] # split_char c xs
      else (case split_char c xs of [] \<Rightarrow> [[x]] | y # ys \<Rightarrow> (x # y) # ys))"

text \<open>\<open>strings.SplitN\<close> for a separator of one byte and a positive bound.\<close>

fun split_n_char :: "nat \<Rightarrow> char \<Rightarrow> string \<Rightarrow> string list" where
  "split_n_char 0 c s = []"
| "split_n_char (Suc 0) c s = [s]"
| "split_n_char (Suc (Suc n)) c s =
     (if c \<in> set s
      then takeWhile (\<lambda>x. x \<noteq> c) s # split_n_char (Suc n) c (tl (dropWhile (\<lambda>x. x \<noteq> c) s))
      else [s])"

lemma has_prefix_iff: "has_prefix s p \<longleftrightarrow> (\<exists>t. s = p @ t)"
  unfolding has_prefix_def by (metis append_eq_conv_conj)

lemma has_prefix_append [simp]: "has_prefix (p @ t) p"
  by (simp add: has_prefix_def)

lemma has_prefix_Nil [simp]: "has_prefix s []"
  by (simp add: has_prefix_def)

lemma has_prefix_Cons [simp]:
  "has_prefix [] (p # ps) = False"
  "has_prefix (x # xs) (p # ps) = (x = p \<and> has_prefix xs ps)"
  by (auto simp: has_prefix_def)

lemma has_suffix_iff: "has_suffix s p \<longleftrightarrow> (\<exists>t. s = t @ p)"
  unfolding has_suffix_def has_prefix_iff by (metis rev_append rev_rev_ident)

lemma trim_suffix_append [simp]: "trim_suffix (s @ p) p = s"
  by (auto simp: trim_suffix_def has_suffix_iff)

lemma contains_iff: "contains s sub \<longleftrightarrow> (\<exists>a b. s = a @ sub @ b)"
proof (induction s)
  case Nil
  then show ?case by auto
next
  case (Cons x xs)
  have "(\<exists>a b. x # xs = a @ sub @ b) \<longleftrightarrow> (\<exists>b. x # xs = sub @ b) \<or> (\<exists>a b. xs = a @ sub @ b)"
    by (auto simp: Cons_eq_append_conv)
  then show ?case using Cons by (simp add: has_prefix_iff)
qed

lemma replace_char_simps [simp]:
  "replace_char c new [] = []"
  "replace_char c new (x # xs) = (if x = c then new else [x]) @ replace_char c new xs"
  "replace_char c new (s @ t) = replace_char c new s @ replace_char c new t"
  by (simp_all add: replace_char_def)

lemma split_char_nonempty [simp]: "split_char c s \<noteq> []"
  by (induction s) (auto split: list.splits)

lemma join_split_char: "join [c] (split_char c s) = s"
proof (induction s)
  case Nil
  then show ?case by simp
next
  case (Cons x xs)
  obtain y ys where "split_char c xs = y # ys"
    by (cases "split_char c xs") auto
  with Cons show ?case by (cases ys) auto
qed

lemma split_char_append:
  "c \<notin> set a \<Longrightarrow> split_char c (a @ c # b) = a # split_char c b"
  by (induction a) auto

lemma split_char_no_sep: "c \<notin> set a \<Longrightarrow> split_char c a = [a]"
  by (induction a) auto

lemma set_split_char: "p \<in> set (split_char c s) \<Longrightarrow> c \<notin> set p"
  by (induction s arbitrary: p) (auto split: list.splits if_splits)

lemma split_join:
  "\<lbrakk>ps \<noteq> []; \<forall>p \<in> set ps. c \<notin> set p\<rbrakk> \<Longrightarrow> split_char c (join [c] ps) = ps"
  by (induction "[c]" ps rule: join.induct) (simp_all add: split_char_append split_char_no_sep)

subsection \<open>White space\<close>

text \<open>
  \<open>unicode.IsSpace\<close> by the encodings of its members; \<open>strings.TrimSpace\<close> strips them at both
  ends. Decoding the first or the last rune of a byte string gives such a rune exactly when its
  encoding is a prefix or a suffix.
\<close>

definition space_runes :: "rune list" where
  "space_runes = [9, 10, 11, 12, 13, 32, 0x85, 0xA0, 0x1680, 0x2000, 0x2001, 0x2002, 0x2003,
     0x2004, 0x2005, 0x2006, 0x2007, 0x2008, 0x2009, 0x200A, 0x2028, 0x2029, 0x202F, 0x205F, 0x3000]"

definition strip_front :: "string list \<Rightarrow> string \<Rightarrow> string option" where
  "strip_front ps s = map_option (\<lambda>p. drop (length p) s) (find (\<lambda>p. p \<noteq> [] \<and> has_prefix s p) ps)"

lemma strip_front_shorter: "strip_front ps s = Some t \<Longrightarrow> length t < length s"
  by (auto simp: strip_front_def find_Some_iff has_prefix_iff)

function trim_front :: "string list \<Rightarrow> string \<Rightarrow> string" where
  "trim_front ps s = (case strip_front ps s of None \<Rightarrow> s | Some t \<Rightarrow> trim_front ps t)"
  by pat_completeness auto
termination
  by (relation "measure (\<lambda>(ps, s). length s)") (auto dest: strip_front_shorter)

declare trim_front.simps [simp del]

definition trim_space :: "string \<Rightarrow> string" where
  "trim_space s =
     rev (trim_front (map (rev \<circ> encode_rune) space_runes)
            (rev (trim_front (map encode_rune space_runes) s)))"

definition is_ascii_space :: "char \<Rightarrow> bool" where
  "is_ascii_space c \<longleftrightarrow> byte c \<in> {9, 10, 11, 12, 13, 32}"

lemma trim_front_stuck: "strip_front ps s = None \<Longrightarrow> trim_front ps s = s"
  by (subst trim_front.simps) simp

lemma trim_front_Nil [simp]: "trim_front ps [] = []"
  by (rule trim_front_stuck) (auto simp: strip_front_def find_None_iff has_prefix_iff)

lemma trim_space_Nil [simp]: "trim_space [] = []"
  by (simp add: trim_space_def)

lemma trim_front_suffix: "\<exists>p. s = p @ trim_front ps s"
proof (induction ps s rule: trim_front.induct)
  case (1 ps s)
  show ?case
  proof (cases "strip_front ps s")
    case None
    then show ?thesis by (simp add: trim_front_stuck)
  next
    case (Some t)
    then obtain p where "t = p @ trim_front ps t" using "1.IH" by blast
    moreover obtain q where "s = q @ t"
      using Some by (auto simp: strip_front_def find_Some_iff has_prefix_iff)
    moreover have "trim_front ps s = trim_front ps t"
      using Some by (subst trim_front.simps) simp
    ultimately show ?thesis by (metis append.assoc)
  qed
qed

lemma trim_front_done: "strip_front ps (trim_front ps s) = None"
proof (induction ps s rule: trim_front.induct)
  case (1 ps s)
  then show ?case
    by (cases "strip_front ps s") (simp_all add: trim_front_stuck trim_front.simps [of ps s])
qed

text \<open>The first byte of a white-space rune is ASCII white space or is at least 128.\<close>

lemma space_first_bytes:
  "list_all (\<lambda>p. case p of [] \<Rightarrow> False | c # _ \<Rightarrow> is_ascii_space c \<or> 128 \<le> byte c)
     (map encode_rune space_runes)"
  by (simp add: space_runes_def encode_rune_def valid_rune_def is_ascii_space_def)

lemma space_last_bytes:
  "list_all (\<lambda>p. case p of [] \<Rightarrow> False | c # _ \<Rightarrow> is_ascii_space c \<or> 128 \<le> byte c)
     (map (rev \<circ> encode_rune) space_runes)"
  by (simp add: space_runes_def encode_rune_def valid_rune_def is_ascii_space_def)

lemma strip_front_visible:
  assumes "list_all (\<lambda>p. case p of [] \<Rightarrow> False | c # _ \<Rightarrow> is_ascii_space c \<or> 128 \<le> byte c) ps"
    and "\<not> is_ascii_space c" and "byte c < 128"
  shows "strip_front ps (c # s) = None"
proof -
  have "\<not> (p \<noteq> [] \<and> has_prefix (c # s) p)" if "p \<in> set ps" for p
    using assms that by (cases p) (auto simp: list_all_iff)
  then show ?thesis by (auto simp: strip_front_def find_None_iff)
qed

text \<open>A string whose ends are visible ASCII is not changed by \<open>TrimSpace\<close>.\<close>

lemma trim_space_visible:
  assumes "s \<noteq> []" and "\<not> is_ascii_space (hd s)" "byte (hd s) < 128"
    and "\<not> is_ascii_space (last s)" "byte (last s) < 128"
  shows "trim_space s = s"
proof -
  obtain c t where s: "s = c # t" using assms(1) by (cases s) auto
  have 1: "trim_front (map encode_rune space_runes) s = s"
    using s assms(2,3) by (intro trim_front_stuck) (simp add: strip_front_visible [OF space_first_bytes])
  obtain d u where r: "rev s = d # u" using assms(1) by (cases "rev s") auto
  then have "d = last s" by (metis last_rev list.sel(1) rev_rev_ident hd_rev)
  then have "strip_front (map (rev \<circ> encode_rune) space_runes) (d # u) = None"
    using assms(4,5) by (intro strip_front_visible [OF space_last_bytes]) auto
  then have "trim_front (map (rev \<circ> encode_rune) space_runes) (rev s) = rev s"
    unfolding r by (rule trim_front_stuck)
  with 1 show ?thesis by (simp add: trim_space_def)
qed

subsection \<open>The order of numerals\<close>

lemma num_val_Cons: "num_val (c # s) = digit_val c * 10 ^ length s + num_val s"
proof (induction s rule: rev_induct)
  case Nil show ?case by (simp add: num_val_def)
next
  case (snoc x s)
  have "num_val (c # s @ [x]) = 10 * num_val (c # s) + digit_val x"
    using num_val_snoc [of "c # s" x] by simp
  then show ?case using snoc by (simp add: algebra_simps)
qed

lemma digit_val_le: "is_digit c \<Longrightarrow> digit_val c \<le> 9"
  by (auto simp: is_digit_def digit_val_def)

lemma digit_val_less_iff: "is_digit c \<Longrightarrow> is_digit d \<Longrightarrow> c < d \<longleftrightarrow> digit_val c < digit_val d"
  by (auto simp: is_digit_def digit_val_def less_char_def)

lemma digit_val_eq_iff: "is_digit c \<Longrightarrow> is_digit d \<Longrightarrow> c = d \<longleftrightarrow> digit_val c = digit_val d"
proof -
  assume "is_digit c" "is_digit d"
  then have "48 \<le> byte c" "48 \<le> byte d" by (simp_all add: is_digit_def)
  then have "byte c = byte d" if "digit_val c = digit_val d"
    using that eq_diff_iff [of 48 "byte c" "byte d"] unfolding digit_val_def by blast
  then show ?thesis by auto
qed

lemma num_val_bound: "list_all is_digit s \<Longrightarrow> num_val s < 10 ^ length s"
proof (induction s)
  case (Cons c s)
  have "digit_val c * 10 ^ length s \<le> 9 * 10 ^ length s"
    using Cons.prems by (intro mult_le_mono1) (simp add: digit_val_le)
  moreover have "num_val s < 10 ^ length s" using Cons by simp
  ultimately show ?case unfolding num_val_Cons length_Cons power_Suc by linarith
qed (simp add: num_val_def)

text \<open>On digit strings of one length the byte order of strings is the order of the numbers.\<close>

lemma digits_less_iff:
  "length s = length t \<Longrightarrow> list_all is_digit s \<Longrightarrow> list_all is_digit t \<Longrightarrow> s < t \<longleftrightarrow> num_val s < num_val t"
proof (induction s t rule: list_induct2)
  case (Cons c s d t)
  let ?k = "10 ^ length s :: nat"
  have b: "num_val s < ?k" "num_val t < ?k"
    using num_val_bound [of s] num_val_bound [of t] Cons.prems Cons.hyps by simp_all
  have c: "c < d \<longleftrightarrow> digit_val c < digit_val d" "c = d \<longleftrightarrow> digit_val c = digit_val d"
    using Cons.prems by (simp_all add: digit_val_less_iff digit_val_eq_iff)
  consider "digit_val c < digit_val d" | "digit_val c = digit_val d" | "digit_val d < digit_val c" by linarith
  then show ?case
  proof cases
    case 1
    then have "(digit_val c + 1) * ?k \<le> digit_val d * ?k" by (intro mult_le_mono1) simp
    then show ?thesis using 1 b c Cons.hyps by (simp add: num_val_Cons)
  next
    case 2
    then show ?thesis using c Cons by (simp add: num_val_Cons)
  next
    case 3
    then have "(digit_val d + 1) * ?k \<le> digit_val c * ?k" by (intro mult_le_mono1) simp
    then show ?thesis using 3 b c Cons.hyps by (simp add: num_val_Cons)
  qed
qed simp

lemma append_less_iff:
  "length a = length b \<Longrightarrow> a @ (x :: string) < b @ y \<longleftrightarrow> a < b \<or> a = b \<and> x < y"
  by (induction a b rule: list_induct2) auto

subsection \<open>Case folding\<close>

text \<open>
  \<open>strings.EqualFold(s, t)\<close> for a \<open>t\<close> of ASCII letters: simple folding adds to the two cases of a
  letter only U+017F (for s) and U+212A (for k).
\<close>

definition fold_rune :: "rune \<Rightarrow> rune" where
  "fold_rune r =
     (if 65 \<le> r \<and> r \<le> 90 then r + 32 else if r = 0x17F then 115 else if r = 0x212A then 107 else r)"

definition equal_fold_ascii :: "string \<Rightarrow> string \<Rightarrow> bool" where
  "equal_fold_ascii s t \<longleftrightarrow> map fold_rune (runes s) = map fold_rune (map byte t)"

text \<open>\<open>strings.ToLower\<close> and \<open>strings.ToUpper\<close> on ASCII bytes.\<close>

definition lower_char :: "char \<Rightarrow> char" where
  "lower_char c = (if 65 \<le> byte c \<and> byte c \<le> 90 then char_of (byte c + 32) else c)"

definition upper_char :: "char \<Rightarrow> char" where
  "upper_char c = (if 97 \<le> byte c \<and> byte c \<le> 122 then char_of (byte c - 32) else c)"

text \<open>
  \<open>strings.ToUpper\<close>, whose results are only compared with ASCII names: besides the ASCII letters only
  U+0131 and U+017F have an ASCII upper case.
\<close>

definition upper_rune :: "rune \<Rightarrow> rune" where
  "upper_rune r =
     (if 97 \<le> r \<and> r \<le> 122 then r - 32 else if r = 0x131 then 73 else if r = 0x17F then 83 else r)"

definition to_upper :: "string \<Rightarrow> string" where
  "to_upper s = utf8 (map upper_rune (runes s))"

text \<open>\<open>strings.ToLower\<close> in the same way: U+0130 and U+212A have an ASCII lower case.\<close>

definition lower_rune :: "rune \<Rightarrow> rune" where
  "lower_rune r =
     (if 65 \<le> r \<and> r \<le> 90 then r + 32 else if r = 0x130 then 105 else if r = 0x212A then 107 else r)"

definition to_lower :: "string \<Rightarrow> string" where
  "to_lower s = utf8 (map lower_rune (runes s))"

section \<open>Quoted text\<close>

text \<open>
  \<open>strconv.Quote\<close>, which \<open>%q\<close> prints. Which runes beyond ASCII are printable is a table of \<open>unicode\<close>; here all
  are taken to be.
\<close>

definition hex_char :: "nat \<Rightarrow> char" where
  "hex_char d = (if d < 10 then digit_char d else char_of (87 + d))"

definition quote_rune :: "rune \<Rightarrow> string" where
  "quote_rune r =
     (if r = 34 then [CHR 0x5C, CHR 0x22]
      else if r = 92 then [CHR 0x5C, CHR 0x5C]
      else if 32 \<le> r \<and> r \<noteq> 127 then encode_rune r
      else if 7 \<le> r \<and> r \<le> 13 then [CHR 0x5C, ''abtnvfr'' ! (r - 7)]
      else [CHR 0x5C, CHR ''x'', hex_char (r div 16), hex_char (r mod 16)])"

function quote_runes :: "string \<Rightarrow> string" where
  "quote_runes [] = []"
| "quote_runes (b # bs) =
     (let (r, w) = decode_rune (b # bs) in
      (if w = 1 \<and> r = rune_error then [CHR 0x5C, CHR ''x'', hex_char (byte b div 16), hex_char (byte b mod 16)]
       else quote_rune r) @ quote_runes (drop (w - 1) bs))"
  by pat_completeness auto
termination
  by (relation "measure length") auto

definition quoted :: "string \<Rightarrow> string" where
  "quoted s = CHR 0x22 # quote_runes s @ [CHR 0x22]"

end
