(* ===== verification/Go_Url.thy ===== *)
theory Go_Url
  imports Go_Strings
begin

text \<open>
  The escaping functions of \<open>net/url\<close> that the code calls: \<open>PathEscape\<close>, \<open>QueryEscape\<close> and the
  escaping of \<open>UserPassword(..).String()\<close>, with the inverse the standard library gives them.
\<close>

datatype url_mode = PathSegment | UserPassword | QueryComponent

definition is_alnum :: "char \<Rightarrow> bool" where
  "is_alnum c \<longleftrightarrow>
     97 \<le> byte c \<and> byte c \<le> 122 \<or> 65 \<le> byte c \<and> byte c \<le> 90 \<or> 48 \<le> byte c \<and> byte c \<le> 57"

text \<open>\<open>shouldEscape\<close> of \<open>net/url\<close>, for the three modes.\<close>

fun should_escape :: "url_mode \<Rightarrow> char \<Rightarrow> bool" where
  "should_escape m c =
     (if is_alnum c then False
      else if c \<in> set ''-_.~'' then False
      else if c \<in> set ''$&+,/:;=?@'' then
        (case m of
           PathSegment \<Rightarrow> c \<in> set ''/;,?''
         | UserPassword \<Rightarrow> c \<in> set ''@/?:''
         | QueryComponent \<Rightarrow> True)
      else True)"

declare should_escape.simps [simp del]

definition upper_hex :: "nat \<Rightarrow> char" where
  "upper_hex n = (if n < 10 then char_of (48 + n) else char_of (55 + n))"

definition unhex :: "char \<Rightarrow> nat option" where
  "unhex c =
     (if 48 \<le> byte c \<and> byte c \<le> 57 then Some (byte c - 48)
      else if 97 \<le> byte c \<and> byte c \<le> 102 then Some (byte c - 87)
      else if 65 \<le> byte c \<and> byte c \<le> 70 then Some (byte c - 55)
      else None)"

definition escape_char :: "url_mode \<Rightarrow> char \<Rightarrow> string" where
  "escape_char m c =
     (if c = CHR '' '' \<and> m = QueryComponent then ''+''
      else if should_escape m c then [CHR ''%'', upper_hex (byte c div 16), upper_hex (byte c mod 16)]
      else [c])"

definition url_escape :: "url_mode \<Rightarrow> string \<Rightarrow> string" where
  "url_escape m s = concat (map (escape_char m) s)"

definition PathEscape :: "string \<Rightarrow> string" where
  "PathEscape = url_escape PathSegment"

definition QueryEscape :: "string \<Rightarrow> string" where
  "QueryEscape = url_escape QueryComponent"

text \<open>\<open>PathUnescape\<close> and \<open>QueryUnescape\<close>: \<open>None\<close> is the error of a malformed escape.\<close>

fun url_unescape :: "url_mode \<Rightarrow> string \<Rightarrow> string option" where
  "url_unescape m [] = Some []"
| "url_unescape m (c # s) =
     (if c = CHR ''%'' then
        (case s of
           a # b # t \<Rightarrow>
             (case (unhex a, unhex b) of
                (Some x, Some y) \<Rightarrow> map_option (Cons (char_of (16 * x + y))) (url_unescape m t)
              | _ \<Rightarrow> None)
         | _ \<Rightarrow> None)
      else if c = CHR ''+'' \<and> m = QueryComponent then map_option (Cons (CHR '' '')) (url_unescape m s)
      else map_option (Cons c) (url_unescape m s))"

lemma unhex_upper_hex [simp]: "n < 16 \<Longrightarrow> unhex (upper_hex n) = Some n"
  by (auto simp: unhex_def upper_hex_def)

lemma char_of_nibbles: "char_of (16 * (byte c div 16) + byte c mod 16) = c"
  by simp

lemma should_escape_percent [simp]: "should_escape m (CHR ''%'')"
  by (simp add: should_escape.simps is_alnum_def)

lemma should_escape_plus [simp]: "should_escape QueryComponent (CHR ''+'')"
  by (simp add: should_escape.simps is_alnum_def)

lemma url_unescape_escape_char:
  "url_unescape m (escape_char m c @ s) = map_option (Cons c) (url_unescape m s)"
proof (cases "c = CHR '' '' \<and> m = QueryComponent")
  case True
  then show ?thesis by (simp add: escape_char_def)
next
  case False
  show ?thesis
  proof (cases "should_escape m c")
    case True
    have "byte c div 16 < 16" using nat_of_char_less_256 [of c] by linarith
    with True False char_of_nibbles [of c] show ?thesis by (simp add: escape_char_def)
  next
    case unescaped: False
    then have "c \<noteq> CHR ''%''" "c = CHR ''+'' \<Longrightarrow> m \<noteq> QueryComponent" by auto
    with unescaped False show ?thesis by (auto simp: escape_char_def)
  qed
qed

lemma url_escape_simps [simp]:
  "url_escape m [] = []"
  "url_escape m (c # s) = escape_char m c @ url_escape m s"
  by (simp_all add: url_escape_def)

text \<open>Unescaping inverts escaping, in every mode and for every byte string.\<close>

lemma url_unescape_escape [go_simps]: "url_unescape m (url_escape m s) = Some s"
  by (induction s) (auto simp: url_unescape_escape_char)

text \<open>No delimiter of the mode survives escaping.\<close>

lemma upper_hex_alnum: "n < 16 \<Longrightarrow> is_alnum (upper_hex n)"
  by (auto simp: is_alnum_def upper_hex_def)

lemma escape_char_safe:
  assumes "x \<in> set (escape_char m c)"
  shows "x = CHR ''%'' \<or> x = CHR ''+'' \<or> \<not> should_escape m x"
proof -
  have "byte c div 16 < 16" "byte c mod 16 < 16" using nat_of_char_less_256 [of c] by linarith+
  then have "\<not> should_escape m (upper_hex (byte c div 16))" "\<not> should_escape m (upper_hex (byte c mod 16))"
    by (simp_all add: upper_hex_alnum should_escape.simps)
  with assms show ?thesis by (auto simp: escape_char_def split: if_splits)
qed

lemma url_escape_safe:
  "x \<in> set (url_escape m s) \<Longrightarrow> x = CHR ''%'' \<or> x = CHR ''+'' \<or> \<not> should_escape m x"
  by (auto simp: url_escape_def dest: escape_char_safe)

end
