(* ===== verification/Gormx_Dsn.thy ===== *)
theory Gormx_Dsn
  imports Go_Url "HOL-Library.Multiset"
begin

text \<open>
  The package \<open>gormx\<close>, the DSN generator (\<open>gormx/dsn.go\<close>, with the types and \<open>extractDSN\<close> of
  \<open>gormx/config.go\<close>): templates with named placeholders and optional segments, the quoting rules
  of each driver, the appended arguments, and the choice of the main and the replica DSNs.
\<close>

section \<open>Types\<close>

type_synonym DatabaseType = string

definition DatabaseTypePostgres :: DatabaseType where "DatabaseTypePostgres = ''postgres''"
definition DatabaseTypeMySQL :: DatabaseType where "DatabaseTypeMySQL = ''mysql''"
definition DatabaseTypeSqlserver :: DatabaseType where "DatabaseTypeSqlserver = ''sqlserver''"
definition DatabaseTypeOracle :: DatabaseType where "DatabaseTypeOracle = ''oracle''"
definition DatabaseTypeSQLite :: DatabaseType where "DatabaseTypeSQLite = ''sqlite''"
definition DatabaseTypeDM :: DatabaseType where "DatabaseTypeDM = ''dm''"

lemmas db_type_defs = DatabaseTypePostgres_def DatabaseTypeMySQL_def DatabaseTypeSqlserver_def
  DatabaseTypeOracle_def DatabaseTypeSQLite_def DatabaseTypeDM_def

record ARG =
  arg_Name :: string
  arg_Value :: string

record Connection =
  DBType :: DatabaseType
  DSN :: string
  Host :: string
  Port :: int
  Username :: string
  Password :: string
  Database :: string
  Schema :: string
  Args :: "ARG list"

text \<open>A field that is \<open>None\<close> is the nil encoder, which leaves the value as it is.\<close>

record dsnEncoder =
  enc_user :: "(string \<Rightarrow> string) option"
  enc_password :: "(string \<Rightarrow> string) option"
  enc_host :: "(string \<Rightarrow> string) option"
  enc_database :: "(string \<Rightarrow> string) option"
  enc_schema :: "(string \<Rightarrow> string) option"
  enc_arg :: "(string \<Rightarrow> string \<Rightarrow> string list) option"

record dsnDialect =
  dsn_template :: string
  defaultDatabase :: string
  argSep :: string
  argPrefix :: string
  argPrefixInQuery :: string
  enc :: dsnEncoder

section \<open>Placeholders and encoders\<close>

definition phUser :: string where "phUser = ''{user}''"
definition phPassword :: string where "phPassword = ''{password}''"
definition phHost :: string where "phHost = ''{host}''"
definition phPort :: string where "phPort = ''{port}''"
definition phDatabase :: string where "phDatabase = ''{database}''"
definition phSchema :: string where "phSchema = ''{schema}''"

lemmas ph_defs = phUser_def phPassword_def phHost_def phPort_def phDatabase_def phSchema_def

definition defaultSQLiteDSN :: string where
  "defaultSQLiteDSN = ''file::memory:?cache=shared''"

definition backslash :: char where "backslash = CHR 0x5C"
definition squote :: char where "squote = CHR 0x27"
definition lbrace :: char where "lbrace = CHR 0x7B"
definition rbrace :: char where "rbrace = CHR 0x7D"

lemmas char_defs = backslash_def squote_def lbrace_def rbrace_def

definition ident :: "string \<Rightarrow> string" where
  "ident s = s"

definition urlSegment :: "string \<Rightarrow> string" where
  "urlSegment s = PathEscape s"

definition hostAuthority :: "string \<Rightarrow> string" where
  "hostAuthority h = (if contains h '':'' \<and> \<not> has_prefix h ''['' then ''['' @ h @ '']'' else h)"

text \<open>The replacer of two one-byte strings looks at one byte at a time.\<close>

definition pgEscape :: "string \<Rightarrow> string" where
  "pgEscape v = concat (map (\<lambda>c. if c = backslash then [backslash, backslash]
                                   else if c = squote then [backslash, squote] else [c]) v)"

definition quotePG :: "string \<Rightarrow> string" where
  "quotePG v = (if v = [] \<or> \<not> contains_any v [CHR '' '', squote, backslash] then v
                else [squote] @ pgEscape v @ [squote])"

definition quoteMSSQL :: "string \<Rightarrow> string" where
  "quoteMSSQL v = (if v = [] \<or> v = trim_space v \<and> \<not> contains_any v [CHR '';'', lbrace, rbrace] then v
                   else [lbrace] @ replace_char rbrace [rbrace, rbrace] v @ [rbrace])"

definition argPlain :: "string \<Rightarrow> string \<Rightarrow> string list" where
  "argPlain name v = [name @ ''='' @ v]"

definition argQuery :: "string \<Rightarrow> string \<Rightarrow> string list" where
  "argQuery name v = [name @ ''='' @ QueryEscape v]"

definition argPG :: "string \<Rightarrow> string \<Rightarrow> string list" where
  "argPG name v = [name @ ''='' @ quotePG v]"

definition argMSSQL :: "string \<Rightarrow> string \<Rightarrow> string list" where
  "argMSSQL name v = [name @ ''='' @ quoteMSSQL v]"

definition argOracle :: "string \<Rightarrow> string \<Rightarrow> string list" where
  "argOracle name v =
     map (\<lambda>p. let part = trim_space p in
              if equal_fold_ascii name ''SERVER'' then name @ ''='' @ part
              else name @ ''='' @ QueryEscape part)
       (split_char (CHR '','') (trim_space v))"

text \<open>\<open>apply\<close>: a missing encoder passes the value through.\<close>

definition apply_enc :: "(string \<Rightarrow> string) option \<Rightarrow> string \<Rightarrow> string" where
  "apply_enc f v = (case f of None \<Rightarrow> v | Some g \<Rightarrow> g v)"

section \<open>The table of dialects\<close>

definition no_enc :: dsnEncoder where
  "no_enc = \<lparr>enc_user = None, enc_password = None, enc_host = None, enc_database = None,
             enc_schema = None, enc_arg = None\<rparr>"

definition sqlite_dsn :: dsnDialect where
  "sqlite_dsn = \<lparr>dsn_template = phDatabase, defaultDatabase = defaultSQLiteDSN,
     argSep = ''&'', argPrefix = ''?'', argPrefixInQuery = ''&'',
     enc = no_enc\<lparr>enc_database := Some ident, enc_arg := Some argPlain\<rparr>\<rparr>"

definition mysql_dsn :: dsnDialect where
  "mysql_dsn = \<lparr>dsn_template = ''{user}:{password}@tcp({host}:{port})/{database}'',
     defaultDatabase = '''',
     argSep = ''&'', argPrefix = ''?'', argPrefixInQuery = ''&'',
     enc = no_enc\<lparr>enc_host := Some hostAuthority, enc_database := Some urlSegment,
                   enc_arg := Some argQuery\<rparr>\<rparr>"

definition postgres_dsn :: dsnDialect where
  "postgres_dsn = \<lparr>dsn_template =
       ''user={user} password={password} host={host} port={port} dbname={database}[ search_path=''
         @ [squote] @ ''{schema}'' @ [squote] @ '']'',
     defaultDatabase = '''',
     argSep = '' '', argPrefix = '' '', argPrefixInQuery = '''',
     enc = no_enc\<lparr>enc_user := Some quotePG, enc_password := Some quotePG,
                   enc_database := Some quotePG, enc_schema := Some pgEscape, enc_arg := Some argPG\<rparr>\<rparr>"

definition sqlserver_dsn :: dsnDialect where
  "sqlserver_dsn = \<lparr>dsn_template =
       ''odbc:user id={user};password={password};server={host};port={port};database={database}'',
     defaultDatabase = '''',
     argSep = '';'', argPrefix = '';'', argPrefixInQuery = '''',
     enc = no_enc\<lparr>enc_user := Some quoteMSSQL, enc_password := Some quoteMSSQL,
                   enc_database := Some quoteMSSQL, enc_arg := Some argMSSQL\<rparr>\<rparr>"

definition dm_dsn :: dsnDialect where
  "dm_dsn = \<lparr>dsn_template = ''dm://{user}:{password}@'' @ ''{host}:{port}[?schema={database}]'',
     defaultDatabase = '''',
     argSep = ''&'', argPrefix = ''?'', argPrefixInQuery = ''&'',
     enc = no_enc\<lparr>enc_arg := Some argPlain\<rparr>\<rparr>"

definition oracle_dsn :: dsnDialect where
  "oracle_dsn = \<lparr>dsn_template = ''oracle://{user}:{password}@'' @ ''{host}:{port}/{database}'',
     defaultDatabase = '''',
     argSep = ''&'', argPrefix = ''?'', argPrefixInQuery = ''&'',
     enc = no_enc\<lparr>enc_user := Some urlSegment, enc_password := Some urlSegment,
                   enc_database := Some urlSegment, enc_host := Some hostAuthority,
                   enc_arg := Some argOracle\<rparr>\<rparr>"

lemmas dialect_defs = sqlite_dsn_def mysql_dsn_def postgres_dsn_def sqlserver_dsn_def dm_dsn_def
  oracle_dsn_def no_enc_def

definition dsnDialects :: "DatabaseType \<Rightarrow> dsnDialect option" where
  "dsnDialects t =
     (if t = DatabaseTypeSQLite then Some sqlite_dsn
      else if t = DatabaseTypeMySQL then Some mysql_dsn
      else if t = DatabaseTypePostgres then Some postgres_dsn
      else if t = DatabaseTypeSqlserver then Some sqlserver_dsn
      else if t = DatabaseTypeDM then Some dm_dsn
      else if t = DatabaseTypeOracle then Some oracle_dsn
      else None)"

section \<open>Rendering\<close>

definition segmentReady :: "string \<Rightarrow> (string \<times> string) list \<Rightarrow> bool" where
  "segmentReady segment values =
     list_all (\<lambda>(placeholder, v). \<not> (v = [] \<and> contains segment placeholder)) values"

text \<open>
  One turn of the loop copies the text before the next \<open>[\<close>, then the segment up to the next \<open>]\<close>
  when it is ready, and goes on after it. Without a bracket, or with an unclosed one, the rest is
  copied as it is.
\<close>

function expandOptional :: "string \<Rightarrow> (string \<times> string) list \<Rightarrow> string" where
  "expandOptional template values =
     (if CHR ''['' \<notin> set template then template
      else
        let front = takeWhile (\<lambda>c. c \<noteq> CHR ''['') template;
            rest = drop (length front) template
        in if CHR '']'' \<notin> set rest then template
           else
             let seg = takeWhile (\<lambda>c. c \<noteq> CHR '']'') (tl rest);
                 after = tl (dropWhile (\<lambda>c. c \<noteq> CHR '']'') (tl rest))
             in front @ (if segmentReady seg values then seg else []) @ expandOptional after values)"
  by pat_completeness auto
termination
proof (relation "measure (\<lambda>(t, vs). length t)", goal_cases)
  case 1
  show ?case by simp
next
  case (2 template vs front rest seg after)
  have "length after \<le> length (dropWhile (\<lambda>c. c \<noteq> CHR '']'') (tl rest))"
    using 2 by simp
  also have "\<dots> \<le> length (tl rest)" by (rule length_dropWhile_le)
  also have "\<dots> < length template"
  proof -
    have "rest \<noteq> []" using 2 by auto
    then have "length (tl rest) < length rest" by (cases rest) auto
    also have "length rest \<le> length template" using 2 by simp
    finally show ?thesis .
  qed
  finally show ?case by simp
qed

declare expandOptional.simps [simp del]

text \<open>
  \<open>strings.NewReplacer(pairs...).Replace\<close>: at each position the first pair, in argument order,
  whose old string matches there; replaced text is not looked at again.
\<close>

function replacer :: "(string \<times> string) list \<Rightarrow> string \<Rightarrow> string" where
  "replacer ps [] = []"
| "replacer ps (x # xs) =
     (case find (\<lambda>(old, new). old \<noteq> [] \<and> has_prefix (x # xs) old) ps of
        None \<Rightarrow> x # replacer ps xs
      | Some (old, new) \<Rightarrow> new @ replacer ps (drop (length old) (x # xs)))"
  by pat_completeness auto
termination
  by (relation "measure (\<lambda>(ps, s). length s)") (auto simp: find_Some_iff)

declare replacer.simps(2) [simp del]

definition substitute :: "string \<Rightarrow> (string \<times> string) list \<Rightarrow> string" where
  "substitute template values = replacer values template"

text \<open>The map \<open>values\<close> of \<open>render\<close>, in one of the orders in which Go may range over it.\<close>

definition dsn_values :: "dsnDialect \<Rightarrow> Connection \<Rightarrow> (string \<times> string) list" where
  "dsn_values d c =
     (let database = (if Database c = [] then defaultDatabase d else Database c) in
      [(phUser, apply_enc (enc_user (enc d)) (Username c)),
       (phPassword, apply_enc (enc_password (enc d)) (Password c)),
       (phHost, apply_enc (enc_host (enc d)) (Host c)),
       (phPort, itoa (Port c)),
       (phDatabase, apply_enc (enc_database (enc d)) database),
       (phSchema, apply_enc (enc_schema (enc d)) (Schema c))])"

definition render :: "dsnDialect \<Rightarrow> Connection \<Rightarrow> string" where
  "render d c = substitute (expandOptional (dsn_template d) (dsn_values d c)) (dsn_values d c)"

definition appendArgs :: "dsnDialect \<Rightarrow> string \<Rightarrow> ARG list \<Rightarrow> string" where
  "appendArgs d dsn args =
     (if args = [] then dsn
      else
        let encode = (case enc_arg (enc d) of None \<Rightarrow> argPlain | Some f \<Rightarrow> f);
            pairs = concat (map (\<lambda>a. encode (arg_Name a) (arg_Value a)) args);
            prefix = (if argPrefixInQuery d \<noteq> [] \<and> contains dsn ''?'' then argPrefixInQuery d
                      else argPrefix d)
        in dsn @ prefix @ join (argSep d) pairs)"

text \<open>The result and the connection, in which a generated DSN is cached.\<close>

definition genDSN :: "Connection \<Rightarrow> string \<times> Connection" where
  "genDSN c =
     (if DSN c \<noteq> [] then (DSN c, c)
      else (case dsnDialects (DBType c) of
              None \<Rightarrow> ('''', c)
            | Some d \<Rightarrow>
                if contains (dsn_template d) phHost \<and> (Host c = [] \<or> Port c = 0) then ('''', c)
                else let dsn = appendArgs d (render d c) (Args c) in (dsn, c\<lparr>DSN := dsn\<rparr>)))"

section \<open>What rendering produces\<close>

text \<open>
  The placeholders all start with a brace, so literal text passes through the replacer, and each
  placeholder is replaced by its value, whatever that value contains.
\<close>

definition braced :: "(string \<times> string) list \<Rightarrow> bool" where
  "braced ps \<longleftrightarrow> list_all (\<lambda>(old, new). case old of [] \<Rightarrow> False | c # _ \<Rightarrow> c = lbrace) ps"

lemma replacer_char:
  assumes "braced ps" and "x \<noteq> lbrace"
  shows "replacer ps (x # xs) = x # replacer ps xs"
proof -
  have "find (\<lambda>(old, new). old \<noteq> [] \<and> has_prefix (x # xs) old) ps = None"
    using assms by (auto simp: braced_def find_None_iff list_all_iff split: list.splits)
  then show ?thesis by (simp add: replacer.simps(2))
qed

lemma replacer_literal:
  "braced ps \<Longrightarrow> list_all (\<lambda>c. c \<noteq> lbrace) s \<Longrightarrow> replacer ps (s @ t) = s @ replacer ps t"
  by (induction s) (auto simp: replacer_char)

lemma replacer_literal':
  "braced ps \<Longrightarrow> list_all (\<lambda>c. c \<noteq> lbrace) s \<Longrightarrow> replacer ps s = s"
  using replacer_literal [of ps s "[]"] by simp

lemma replacer_hole:
  assumes "find (\<lambda>(old, new). old \<noteq> [] \<and> has_prefix (p @ t) old) ps = Some (p, v)" and "p \<noteq> []"
  shows "replacer ps (p @ t) = v @ replacer ps t"
  using assms by (cases p) (simp_all add: replacer.simps(2))

lemma braced_values [simp]: "braced (dsn_values d c)"
  by (simp add: braced_def dsn_values_def ph_defs lbrace_def Let_def)

lemma fill_holes:
  "replacer (dsn_values d c) (phUser @ t) = apply_enc (enc_user (enc d)) (Username c) @ replacer (dsn_values d c) t"
  "replacer (dsn_values d c) (phPassword @ t) = apply_enc (enc_password (enc d)) (Password c) @ replacer (dsn_values d c) t"
  "replacer (dsn_values d c) (phHost @ t) = apply_enc (enc_host (enc d)) (Host c) @ replacer (dsn_values d c) t"
  "replacer (dsn_values d c) (phPort @ t) = itoa (Port c) @ replacer (dsn_values d c) t"
  "replacer (dsn_values d c) (phDatabase @ t) =
     apply_enc (enc_database (enc d)) (if Database c = [] then defaultDatabase d else Database c) @ replacer (dsn_values d c) t"
  "replacer (dsn_values d c) (phSchema @ t) = apply_enc (enc_schema (enc d)) (Schema c) @ replacer (dsn_values d c) t"
  by (rule replacer_hole; simp add: dsn_values_def ph_defs Let_def)+

lemmas fill_last = fill_holes [where t = "[]", simplified]

lemma pgEscape_simps [simp]: "pgEscape [] = []" "pgEscape (x # xs) = (if x = backslash then [backslash, backslash]
    else if x = squote then [backslash, squote] else [x]) @ pgEscape xs"
  by (simp_all add: pgEscape_def)
lemma pgEscape_Nil_iff [simp]: "pgEscape v = [] \<longleftrightarrow> v = []"
  by (cases v) auto

lemma expand_plain: "CHR ''['' \<notin> set t \<Longrightarrow> expandOptional t vs = t"
  by (subst expandOptional.simps) simp

lemma takeWhile_until: "list_all (\<lambda>x. x \<noteq> c) a \<Longrightarrow> takeWhile (\<lambda>x. x \<noteq> c) (a @ c # b) = a"
  by (induction a) auto
lemma dropWhile_until: "list_all (\<lambda>x. x \<noteq> c) a \<Longrightarrow> dropWhile (\<lambda>x. x \<noteq> c) (a @ c # b) = c # b"
  by (induction a) auto

lemma expand_segment:
  assumes "list_all (\<lambda>x. x \<noteq> CHR ''['') a" "list_all (\<lambda>x. x \<noteq> CHR '']'') s"
  shows "expandOptional (a @ ''['' @ s @ '']'' @ b) vs = a @ (if segmentReady s vs then s else []) @ expandOptional b vs"
  using assms by (subst expandOptional.simps) (simp add: takeWhile_until dropWhile_until Let_def)

lemma pg_template: "dsn_template postgres_dsn =
   (''user='' @ phUser @ '' password='' @ phPassword @ '' host='' @ phHost @ '' port='' @ phPort @ '' dbname='' @ phDatabase)
   @ ''['' @ ('' search_path='' @ [squote] @ phSchema @ [squote]) @ '']'' @ []"
  by (simp add: postgres_dsn_def ph_defs)

lemma pg_ready: "segmentReady ('' search_path='' @ [squote] @ phSchema @ [squote]) (dsn_values postgres_dsn c) = (Schema c \<noteq> [])"
  by (simp add: segmentReady_def dsn_values_def ph_defs dialect_defs apply_enc_def squote_def Let_def)


lemmas shape_simps = replacer_literal replacer_literal' fill_holes fill_last lbrace_def squote_def
  expand_plain apply_enc_def


lemma pg_shape:
  "render postgres_dsn c =
     ''user='' @ quotePG (Username c) @ '' password='' @ quotePG (Password c) @ '' host='' @ Host c
       @ '' port='' @ itoa (Port c) @ '' dbname='' @ quotePG (Database c)
       @ (if Schema c = [] then [] else '' search_path='' @ [squote] @ pgEscape (Schema c) @ [squote])"
proof -
  let ?pre = "''user='' @ phUser @ '' password='' @ phPassword @ '' host='' @ phHost @ '' port=''
      @ phPort @ '' dbname='' @ phDatabase"
  let ?seg = "'' search_path='' @ [squote] @ phSchema @ [squote]"
  have "expandOptional (dsn_template postgres_dsn) (dsn_values postgres_dsn c) =
      ?pre @ (if segmentReady ?seg (dsn_values postgres_dsn c) then ?seg else [])
        @ expandOptional [] (dsn_values postgres_dsn c)"
    unfolding pg_template by (rule expand_segment) (simp_all add: ph_defs squote_def)
  then have "render postgres_dsn c =
      replacer (dsn_values postgres_dsn c) (?pre @ (if Schema c = [] then [] else ?seg))"
    unfolding render_def substitute_def pg_ready by (simp add: expand_plain if_distrib)
  then show ?thesis
    by (simp add: shape_simps del: append_Cons) (simp add: postgres_dsn_def no_enc_def)
qed

lemma dm_template: "dsn_template dm_dsn =
   (''dm://'' @ phUser @ '':'' @ phPassword @ ''@'' @ phHost @ '':'' @ phPort)
   @ ''['' @ (''?schema='' @ phDatabase) @ '']'' @ []"
  by (simp add: dm_dsn_def ph_defs)

lemma dm_ready:
  "segmentReady (''?schema='' @ phDatabase) (dsn_values dm_dsn c) = (Database c \<noteq> [])"
  by (simp add: segmentReady_def dsn_values_def ph_defs dialect_defs apply_enc_def Let_def)

lemma dm_shape:
  "render dm_dsn c =
     ''dm://'' @ Username c @ '':'' @ Password c @ ''@'' @ Host c @ '':'' @ itoa (Port c)
       @ (if Database c = [] then [] else ''?schema='' @ Database c)"
proof -
  let ?pre = "''dm://'' @ phUser @ '':'' @ phPassword @ ''@'' @ phHost @ '':'' @ phPort"
  let ?seg = "''?schema='' @ phDatabase"
  have "expandOptional (dsn_template dm_dsn) (dsn_values dm_dsn c) =
      ?pre @ (if segmentReady ?seg (dsn_values dm_dsn c) then ?seg else [])
        @ expandOptional [] (dsn_values dm_dsn c)"
    unfolding dm_template by (rule expand_segment) (simp_all add: ph_defs)
  then have "render dm_dsn c =
      replacer (dsn_values dm_dsn c) (?pre @ (if Database c = [] then [] else ?seg))"
    unfolding render_def substitute_def dm_ready by (simp add: expand_plain if_distrib)
  then show ?thesis
    by (simp add: shape_simps del: append_Cons) (simp add: dm_dsn_def no_enc_def)
qed

lemma mysql_template:
  "dsn_template mysql_dsn =
     phUser @ '':'' @ phPassword @ ''@tcp('' @ phHost @ '':'' @ phPort @ '')/'' @ phDatabase"
  by (simp add: mysql_dsn_def ph_defs)

lemma mysql_shape:
  "render mysql_dsn c =
     Username c @ '':'' @ Password c @ ''@tcp('' @ hostAuthority (Host c) @ '':'' @ itoa (Port c)
       @ '')/'' @ PathEscape (Database c)"
proof -
  have "CHR ''['' \<notin> set (dsn_template mysql_dsn)" by (simp add: mysql_dsn_def)
  then have "render mysql_dsn c = replacer (dsn_values mysql_dsn c) (dsn_template mysql_dsn)"
    by (simp add: render_def substitute_def expand_plain)
  then show ?thesis
    by (simp add: mysql_template shape_simps del: append_Cons)
       (simp add: mysql_dsn_def no_enc_def urlSegment_def PathEscape_def)
qed

lemma oracle_template:
  "dsn_template oracle_dsn =
     ''oracle://'' @ phUser @ '':'' @ phPassword @ ''@'' @ phHost @ '':'' @ phPort @ ''/'' @ phDatabase"
  by (simp add: oracle_dsn_def ph_defs)

lemma oracle_shape:
  "render oracle_dsn c =
     ''oracle://'' @ PathEscape (Username c) @ '':'' @ PathEscape (Password c) @ ''@''
       @ hostAuthority (Host c) @ '':'' @ itoa (Port c) @ ''/'' @ PathEscape (Database c)"
proof -
  have "CHR ''['' \<notin> set (dsn_template oracle_dsn)" by (simp add: oracle_dsn_def)
  then have "render oracle_dsn c = replacer (dsn_values oracle_dsn c) (dsn_template oracle_dsn)"
    by (simp add: render_def substitute_def expand_plain)
  then show ?thesis
    by (simp add: oracle_template shape_simps del: append_Cons)
       (simp add: oracle_dsn_def no_enc_def urlSegment_def PathEscape_def)
qed

lemma sqlserver_template:
  "dsn_template sqlserver_dsn =
     ''odbc:user id='' @ phUser @ '';password='' @ phPassword @ '';server='' @ phHost @ '';port=''
       @ phPort @ '';database='' @ phDatabase"
  by (simp add: sqlserver_dsn_def ph_defs)

lemma sqlserver_shape:
  "render sqlserver_dsn c =
     ''odbc:user id='' @ quoteMSSQL (Username c) @ '';password='' @ quoteMSSQL (Password c)
       @ '';server='' @ Host c @ '';port='' @ itoa (Port c) @ '';database='' @ quoteMSSQL (Database c)"
proof -
  have "CHR ''['' \<notin> set (dsn_template sqlserver_dsn)" by (simp add: sqlserver_dsn_def)
  then have "render sqlserver_dsn c =
      replacer (dsn_values sqlserver_dsn c) (dsn_template sqlserver_dsn)"
    by (simp add: render_def substitute_def expand_plain)
  then show ?thesis
    by (simp add: sqlserver_template shape_simps del: append_Cons)
       (simp add: sqlserver_dsn_def no_enc_def)
qed

lemma sqlite_shape:
  "render sqlite_dsn c = (if Database c = [] then defaultSQLiteDSN else Database c)"
proof -
  have t: "dsn_template sqlite_dsn = phDatabase" by (simp add: sqlite_dsn_def)
  have "CHR ''['' \<notin> set phDatabase" by (simp add: ph_defs)
  then show ?thesis
    unfolding render_def substitute_def t
    by (simp add: expand_plain fill_last) (simp add: sqlite_dsn_def no_enc_def apply_enc_def ident_def)
qed

lemmas dsn_shapes = mysql_shape pg_shape sqlserver_shape oracle_shape dm_shape sqlite_shape

section \<open>Independence of the order of the map\<close>

lemma find_perm:
  assumes "mset xs = mset ys"
    and "\<And>x y. x \<in> set xs \<Longrightarrow> y \<in> set xs \<Longrightarrow> P x \<Longrightarrow> P y \<Longrightarrow> x = y"
  shows "find P xs = find P ys"
proof (cases "find P xs")
  case None
  then have "find P ys = None" using assms(1) by (metis find_None_iff set_mset_mset)
  with None show ?thesis by simp
next
  case (Some x)
  then have x: "x \<in> set xs" "P x" by (auto simp: find_Some_iff)
  then have "find P ys \<noteq> None" using assms(1) by (metis find_None_iff set_mset_mset)
  then obtain y where y: "find P ys = Some y" by blast
  then have "y \<in> set xs" "P y" using assms(1) by (auto simp: find_Some_iff dest: mset_eq_setD)
  with x assms(2) have "x = y" by blast
  with Some y show ?thesis by simp
qed

definition prefix_free :: "(string \<times> string) list \<Rightarrow> bool" where
  "prefix_free ps \<longleftrightarrow>
     (\<forall>(a, u) \<in> set ps. \<forall>(b, v) \<in> set ps. \<forall>s. has_prefix s a \<longrightarrow> has_prefix s b \<longrightarrow> (a, u) = (b, v))"

lemma prefix_free_values: "prefix_free (dsn_values d c)"
  unfolding prefix_free_def dsn_values_def Let_def
  by (auto simp: has_prefix_iff ph_defs)

lemma replacer_perm:
  assumes "mset ps = mset qs" and "prefix_free ps"
  shows "replacer ps s = replacer qs s"
proof (induction s rule: length_induct)
  case (1 s)
  show ?case
  proof (cases s)
    case Nil
    then show ?thesis by simp
  next
    case (Cons x xs)
    let ?P = "\<lambda>(old, new). old \<noteq> [] \<and> has_prefix (x # xs) old"
    have f: "find ?P ps = find ?P qs"
      using assms by (intro find_perm) (fastforce simp: prefix_free_def)+
    show ?thesis
    proof (cases "find ?P ps")
      case None
      then show ?thesis using f Cons 1 by (simp add: replacer.simps(2))
    next
      case (Some p)
      obtain old new where p: "p = (old, new)" by (cases p)
      then have "old \<noteq> []" using Some by (auto simp: find_Some_iff)
      then have "length (drop (length old) (x # xs)) < length s" using Cons by (cases old) auto
      then have "replacer ps (drop (length old) (x # xs)) = replacer qs (drop (length old) (x # xs))"
        using 1 by blast
      moreover have "find ?P ps = Some (old, new)" "find ?P qs = Some (old, new)"
        using f Some p by simp_all
      ultimately show ?thesis unfolding Cons replacer.simps(2) by simp
    qed
  qed
qed

lemma segmentReady_perm: "mset vs = mset ws \<Longrightarrow> segmentReady s vs = segmentReady s ws"
  by (drule mset_eq_setD) (simp add: segmentReady_def list_all_iff)

lemma expandOptional_perm: "mset vs = mset ws \<Longrightarrow> expandOptional t vs = expandOptional t ws"
proof (induction t vs rule: expandOptional.induct)
  case (1 t vs)
  then show ?case
    by (subst (1 2) expandOptional.simps) (simp add: Let_def segmentReady_perm [of vs ws])
qed

section \<open>Reading a quoted value back\<close>

text \<open>
  The grammars the quoting rules are written for, as the drivers document them: a conninfo value
  (blanks after \<open>=\<close> are skipped, a value in single quotes with backslash escapes, otherwise up to
  the next blank) and an ODBC value (in braces with \<open>}\<close> doubled, otherwise up to the next
  semicolon). They only serve to state that quoting loses nothing and lets nothing escape.
\<close>

fun read_quoted :: "string \<Rightarrow> (string \<times> string) option" where
  "read_quoted [] = None"
| "read_quoted (c # s) =
     (if c = backslash then
        (case s of [] \<Rightarrow> None | d # t \<Rightarrow> map_option (apfst (Cons d)) (read_quoted t))
      else if c = squote then Some ([], s)
      else map_option (apfst (Cons c)) (read_quoted s))"

definition read_pg_value :: "string \<Rightarrow> (string \<times> string) option" where
  "read_pg_value s0 =
     (let s = dropWhile (\<lambda>c. c = CHR '' '') s0 in
      if has_prefix s [squote] then read_quoted (tl s)
      else Some (takeWhile (\<lambda>c. c \<noteq> CHR '' '') s, dropWhile (\<lambda>c. c \<noteq> CHR '' '') s))"

fun read_braced :: "string \<Rightarrow> (string \<times> string) option" where
  "read_braced [] = None"
| "read_braced (c # s) =
     (if c = rbrace then
        (case s of
           d # t \<Rightarrow> if d = rbrace then map_option (apfst (Cons rbrace)) (read_braced t) else Some ([], s)
         | [] \<Rightarrow> Some ([], []))
      else map_option (apfst (Cons c)) (read_braced s))"

definition read_mssql_value :: "string \<Rightarrow> (string \<times> string) option" where
  "read_mssql_value s =
     (if has_prefix s [lbrace] then read_braced (tl s)
      else Some (takeWhile (\<lambda>c. c \<noteq> CHR '';'') s, dropWhile (\<lambda>c. c \<noteq> CHR '';'') s))"

lemma read_quoted_pgEscape: "read_quoted (pgEscape v @ squote # rest) = Some (v, rest)"
  by (induction v) (auto simp: char_defs)

lemma read_braced_escape:
  "\<not> has_prefix rest [rbrace] \<Longrightarrow>
   read_braced (replace_char rbrace [rbrace, rbrace] v @ rbrace # rest) = Some (v, rest)"
  by (induction v) (auto split: list.splits simp: has_prefix_def)

lemma read_pg_value_quotePG:
  assumes "v \<noteq> []"
  shows "read_pg_value (quotePG v @ '' '' @ rest) = Some (v, '' '' @ rest)"
proof (cases "contains_any v [CHR '' '', squote, backslash]")
  case True
  then show ?thesis
    using assms read_quoted_pgEscape [of v "'' '' @ rest"]
    by (simp add: quotePG_def read_pg_value_def char_defs)
next
  case False
  then have sp: "list_all (\<lambda>c. c \<noteq> CHR '' '') v" and q: "squote \<notin> set v"
    by (auto simp: contains_any_def list_ex_iff list_all_iff)
  obtain a w where v: "v = a # w" using assms by (cases v) auto
  have "a \<noteq> CHR '' ''" "a \<noteq> squote" using sp q v by auto
  then show ?thesis
    using False takeWhile_until [OF sp, of rest] dropWhile_until [OF sp, of rest]
    by (simp add: quotePG_def read_pg_value_def v)
qed

lemma read_mssql_value_quote:
  "read_mssql_value (quoteMSSQL v @ '';'' @ rest) = Some (v, '';'' @ rest)"
proof (cases "v = [] \<or> v = trim_space v \<and> \<not> contains_any v [CHR '';'', lbrace, rbrace]")
  case True
  then have q: "quoteMSSQL v = v" by (simp add: quoteMSSQL_def)
  from True have sc: "list_all (\<lambda>c. c \<noteq> CHR '';'') v" and br: "lbrace \<notin> set v"
    by (auto simp: contains_any_def list_ex_iff list_all_iff)
  have "\<not> has_prefix (v @ '';'' @ rest) [lbrace]"
    using br by (cases v) (auto simp: lbrace_def)
  then show ?thesis
    using q takeWhile_until [OF sc, of rest] dropWhile_until [OF sc, of rest]
    by (simp add: read_mssql_value_def)
next
  case False
  then have "quoteMSSQL v = lbrace # replace_char rbrace [rbrace, rbrace] v @ [rbrace]"
    by (simp only: quoteMSSQL_def if_False append_Cons append_Nil)
  then show ?thesis
    using read_braced_escape [of "'';'' @ rest" v]
    by (simp add: read_mssql_value_def rbrace_def)
qed

section \<open>Properties\<close>

lemma genDSN_registered:
  assumes "DSN c = []" and "dsnDialects (DBType c) = Some d" and "Host c \<noteq> []" and "Port c \<noteq> 0"
  shows "fst (genDSN c) = appendArgs d (render d c) (Args c)"
  using assms by (simp add: genDSN_def Let_def)

lemma dsnDialects_table:
  "dsnDialects DatabaseTypeMySQL = Some mysql_dsn"
  "dsnDialects DatabaseTypePostgres = Some postgres_dsn"
  "dsnDialects DatabaseTypeSqlserver = Some sqlserver_dsn"
  "dsnDialects DatabaseTypeOracle = Some oracle_dsn"
  "dsnDialects DatabaseTypeDM = Some dm_dsn"
  "dsnDialects DatabaseTypeSQLite = Some sqlite_dsn"
  by (simp_all add: dsnDialects_def db_type_defs)

text \<open>
  The DSN of each database type, for a connection without an explicit DSN: the connection's
  values stand at their places, each under its driver's encoding and never read as a placeholder
  again, the \<open>search_path\<close> and \<open>schema\<close> segments appear exactly when configured, and the arguments
  follow with the separator of the type.
\<close>

theorem genDSN_shape:
  assumes "DSN c = []" and "Host c \<noteq> []" and "Port c \<noteq> 0"
  shows "(DBType c = DatabaseTypeMySQL \<longrightarrow> fst (genDSN c) =
           appendArgs mysql_dsn (Username c @ '':'' @ Password c @ ''@tcp('' @ hostAuthority (Host c)
             @ '':'' @ itoa (Port c) @ '')/'' @ PathEscape (Database c)) (Args c))
       \<and> (DBType c = DatabaseTypePostgres \<longrightarrow> fst (genDSN c) =
           appendArgs postgres_dsn (''user='' @ quotePG (Username c) @ '' password='' @ quotePG (Password c)
             @ '' host='' @ Host c @ '' port='' @ itoa (Port c) @ '' dbname='' @ quotePG (Database c)
             @ (if Schema c = [] then []
                else '' search_path='' @ [squote] @ pgEscape (Schema c) @ [squote])) (Args c))
       \<and> (DBType c = DatabaseTypeSqlserver \<longrightarrow> fst (genDSN c) =
           appendArgs sqlserver_dsn (''odbc:user id='' @ quoteMSSQL (Username c) @ '';password=''
             @ quoteMSSQL (Password c) @ '';server='' @ Host c @ '';port='' @ itoa (Port c)
             @ '';database='' @ quoteMSSQL (Database c)) (Args c))
       \<and> (DBType c = DatabaseTypeOracle \<longrightarrow> fst (genDSN c) =
           appendArgs oracle_dsn (''oracle://'' @ PathEscape (Username c) @ '':'' @ PathEscape (Password c)
             @ ''@'' @ hostAuthority (Host c) @ '':'' @ itoa (Port c) @ ''/'' @ PathEscape (Database c)) (Args c))
       \<and> (DBType c = DatabaseTypeDM \<longrightarrow> fst (genDSN c) =
           appendArgs dm_dsn (''dm://'' @ Username c @ '':'' @ Password c @ ''@'' @ Host c @ '':'' @ itoa (Port c)
             @ (if Database c = [] then [] else ''?schema='' @ Database c)) (Args c))
       \<and> (DBType c = DatabaseTypeSQLite \<longrightarrow> fst (genDSN c) =
           appendArgs sqlite_dsn (if Database c = [] then defaultSQLiteDSN else Database c) (Args c))"
  unfolding dsn_shapes [symmetric]
  using assms by (simp add: genDSN_registered dsnDialects_table)

definition sample_conn :: Connection where
  "sample_conn = \<lparr>DBType = DatabaseTypePostgres, DSN = '''', Host = ''h'', Port = 5432,
     Username = ''u'', Password = ''p w'', Database = ''{user}'', Schema = ''app'', Args = []\<rparr>"

theorem genDSN_shape_witness:
  "fst (genDSN sample_conn) =
     ''user=u password='' @ [squote] @ ''p w'' @ [squote] @ '' host=h port=5432 dbname={user} search_path=''
       @ [squote] @ ''app'' @ [squote]"
proof -
  have h: "DSN sample_conn = []" "Host sample_conn \<noteq> []" "Port sample_conn \<noteq> 0"
    and t: "DBType sample_conn = DatabaseTypePostgres"
    by (simp_all add: sample_conn_def)
  have p: "itoa 5432 = ''5432''"
    by (simp add: itoa_def itoa_nat_step itoa_nat_small)
  have q: "quotePG ''u'' = ''u''" "quotePG ''{user}'' = ''{user}''"
    "quotePG ''p w'' = [squote] @ ''p w'' @ [squote]" "pgEscape ''app'' = ''app''"
    by (simp_all add: quotePG_def contains_any_def char_defs)
  show ?thesis
    using genDSN_shape [OF h, THEN conjunct2, THEN conjunct1, rule_format, OF t]
    by (simp add: appendArgs_def sample_conn_def p q char_defs)
qed

text \<open>
  The DSN does not depend on the order in which Go ranges over the map of placeholder values:
  every permutation of the map's entries renders the same string.
\<close>

theorem render_order_independent:
  assumes "mset vs = mset (dsn_values d c)"
  shows "substitute (expandOptional (dsn_template d) vs) vs = render d c"
  using replacer_perm [OF assms [symmetric] prefix_free_values]
  by (simp add: render_def substitute_def expandOptional_perm [OF assms])

theorem render_order_independent_witness:
  "substitute (expandOptional (dsn_template dm_dsn) (rev (dsn_values dm_dsn sample_conn)))
     (rev (dsn_values dm_dsn sample_conn)) = render dm_dsn sample_conn"
  by (rule render_order_independent) simp



text \<open>
  An empty PostgreSQL password is not quoted, so the value read after \<open>password=\<close> is the next
  setting, \<open>host=...\<close>: the DSN loses both the password and the host.
\<close>

theorem empty_pg_password_swallows_host:
  assumes "Password c = []" and "Host c \<noteq> []" and "list_all (\<lambda>x. x \<noteq> CHR '' '') (Host c)"
  shows "\<exists>rest. render postgres_dsn c = ''user='' @ quotePG (Username c) @ '' password='' @ rest
           \<and> map_option fst (read_pg_value rest) = Some (''host='' @ Host c)"
proof -
  let ?t = "''port='' @ itoa (Port c) @ '' dbname='' @ quotePG (Database c)
       @ (if Schema c = [] then [] else '' search_path='' @ [squote] @ pgEscape (Schema c) @ [squote])"
  have "render postgres_dsn c = ''user='' @ quotePG (Username c) @ '' password=''
      @ ('' host='' @ Host c @ '' '' @ ?t)"
    using assms(1) by (simp add: pg_shape quotePG_def)
  moreover have "takeWhile (\<lambda>x. x \<noteq> CHR '' '') ((''host='' @ Host c) @ CHR '' '' # ?t) = ''host='' @ Host c"
    using assms(3) by (intro takeWhile_until) simp
  then have "map_option fst (read_pg_value ('' host='' @ Host c @ '' '' @ ?t)) = Some (''host='' @ Host c)"
    by (simp add: read_pg_value_def squote_def)
  ultimately show ?thesis by blast
qed

theorem empty_pg_password_swallows_host_witness:
  "\<exists>rest. render postgres_dsn (sample_conn\<lparr>Password := ''''\<rparr>) =
       ''user='' @ quotePG ''u'' @ '' password='' @ rest
     \<and> map_option fst (read_pg_value rest) = Some (''host=h'')"
  using empty_pg_password_swallows_host [of "sample_conn\<lparr>Password := ''''\<rparr>"]
  by (simp add: sample_conn_def)

end
