(* ===== verification/Gormx_Db.thy ===== *)
theory Gormx_Db
  imports Gormx_Dsn
begin

text \<open>
  The package \<open>gormx\<close>, the configuration (\<open>gormx/config.go\<close>) and the registry of opened databases
  (\<open>gormx/db.go\<close>). GORM itself is a parameter: \<open>open_db\<close> opens a dialector and takes its pool,
  \<open>use_resolver\<close> registers the read/write resolver, \<open>close_db\<close> closes the pool. The registry
  \<open>dbMap\<close> is a partial map from names to databases.
\<close>

section \<open>Configuration\<close>

record Config =
  MaxOpenConn :: int
  MaxIdleConn :: int
  ConnMaxLifeTime :: int
  ConnMaxIdleTime :: int
  DBName :: string
  LogMode :: string
  conn :: Connection
  Masters :: "Connection list"
  Replicas :: "Connection list"

datatype LogLevel = Silent | Error | Warn | Info

definition GetLogMode :: "Config \<Rightarrow> LogLevel" where
  "GetLogMode c =
     (if LogMode c = ''info'' then Info
      else if LogMode c = ''warn'' then Warn
      else if LogMode c = ''error'' then Error
      else if LogMode c = ''silent'' then Silent
      else Info)"

text \<open>What a master or a replica takes over from the main connection.\<close>

definition inherit_conn :: "Connection \<Rightarrow> Connection \<Rightarrow> Connection" where
  "inherit_conn c m =
     (let m1 = (if DBType m = [] then m\<lparr>DBType := DBType c\<rparr> else m);
          m2 = (if Args m1 = [] then m1\<lparr>Args := Args c\<rparr> else m1)
      in if Schema m2 = [] then m2\<lparr>Schema := Schema c\<rparr> else m2)"

definition node_DSNs :: "Connection \<Rightarrow> Connection list \<Rightarrow> string list" where
  "node_DSNs c nodes =
     concat (map (\<lambda>m. let (d, m') = genDSN (inherit_conn c m) in if d \<noteq> [] then [DSN m'] else []) nodes)"

definition extractDSN :: "Config \<Rightarrow> (string \<times> string list \<times> string list) \<times> Config" where
  "extractDSN cfg =
     (let (dsn, c') = genDSN (conn cfg);
          cfg' = cfg\<lparr>conn := c'\<rparr>
      in if Masters cfg = [] \<and> Replicas cfg = [] then ((dsn, [], []), cfg')
         else
           let ms = node_DSNs c' (Masters cfg);
               rs = node_DSNs c' (Replicas cfg);
               dsn1 = (if dsn = [] \<and> ms \<noteq> [] then hd ms else dsn);
               dsn2 = (if dsn1 = [] \<and> rs \<noteq> [] then hd rs else dsn1)
           in ((dsn2, ms, rs), cfg'))"

section \<open>The registry\<close>

datatype db_error =
    NoDBConfig | NoDBDSN | UnsupportedDBType string | OpenFailed string | ResolverFailed string
  | NoDBName | NoDBInstance | ErrDBNameIsEmpty | CloseFailed string | PingFailed string

type_synonym 'db dbMap = "string \<rightharpoonup> 'db"

text \<open>\<open>getDialector\<close> knows the six types; the opened dialector itself is GORM's.\<close>

definition getDialector :: "DatabaseType \<Rightarrow> string \<Rightarrow> (DatabaseType \<times> string) option" where
  "getDialector t dsn =
     (if t = DatabaseTypeMySQL then Some (t, dsn)
      else if t = DatabaseTypePostgres then Some (t, dsn)
      else if t = DatabaseTypeSqlserver then Some (t, dsn)
      else if t = DatabaseTypeOracle then Some (t, dsn)
      else if t = DatabaseTypeSQLite then Some (t, dsn)
      else if t = DatabaseTypeDM then Some (t, dsn)
      else None)"

definition defaultConfig :: "Config \<Rightarrow> Config" where
  "defaultConfig c =
     c\<lparr>MaxOpenConn := (if MaxOpenConn c = 0 then 100 else MaxOpenConn c),
       MaxIdleConn := (if MaxIdleConn c = 0 then 10 else MaxIdleConn c),
       ConnMaxLifeTime := (if ConnMaxLifeTime c = 0 then 1000 * 60 * 60 * 3 else ConnMaxLifeTime c),
       ConnMaxIdleTime := (if ConnMaxIdleTime c = 0 then 1000 * 60 * 45 else ConnMaxIdleTime c)\<rparr>"

definition StoreDB :: "string \<Rightarrow> 'db option \<Rightarrow> 'db dbMap \<Rightarrow> db_error option \<times> 'db dbMap" where
  "StoreDB name db m =
     (case db of
        None \<Rightarrow> (Some NoDBInstance, m)
      | Some d \<Rightarrow>
          if name = [] then (Some NoDBName, m)
          else (None, case m name of None \<Rightarrow> m(name \<mapsto> d) | Some _ \<Rightarrow> m))"

definition InitConfig ::
  "(DatabaseType \<times> string \<Rightarrow> string + 'db) \<Rightarrow> ('db \<Rightarrow> string list \<Rightarrow> string list \<Rightarrow> string option) \<Rightarrow>
   Config option \<Rightarrow> 'db dbMap \<Rightarrow> (db_error + 'db) \<times> Config option \<times> 'db dbMap" where
  "InitConfig open_db use_resolver config m =
     (case config of
        None \<Rightarrow> (Inl NoDBConfig, None, m)
      | Some c \<Rightarrow>
          let ((dsn, ms, rs), c1) = extractDSN c in
          if dsn = [] then (Inl NoDBDSN, Some c1, m)
          else
            let c2 = (if DBName c1 = [] then c1\<lparr>DBName := dsn\<rparr> else c1) in
            case m (DBName c2) of
              Some db \<Rightarrow> (Inr db, Some c2, m)
            | None \<Rightarrow>
                case getDialector (DBType (conn c2)) dsn of
                  None \<Rightarrow> (Inl (UnsupportedDBType (DBType (conn c2))), Some c2, m)
                | Some dialector \<Rightarrow>
                    case open_db dialector of
                      Inl e \<Rightarrow> (Inl (OpenFailed e), Some c2, m)
                    | Inr db \<Rightarrow>
                        let c3 = defaultConfig c2 in
                        case (if ms \<noteq> [] \<or> rs \<noteq> [] then use_resolver db ms rs else None) of
                          Some e \<Rightarrow> (Inl (ResolverFailed e), Some c3, m)
                        | None \<Rightarrow> (Inr db, Some c3, m(DBName c3 \<mapsto> db)))"

definition GetDB :: "string \<Rightarrow> 'db dbMap \<Rightarrow> db_error + 'db" where
  "GetDB name m = (case m name of None \<Rightarrow> Inl NoDBInstance | Some db \<Rightarrow> Inr db)"

definition Close :: "('db \<Rightarrow> string option) \<Rightarrow> string \<Rightarrow> 'db dbMap \<Rightarrow> db_error option \<times> 'db dbMap" where
  "Close close_db name m =
     (if name = [] then (Some ErrDBNameIsEmpty, m)
      else (case m name of
              None \<Rightarrow> (None, m)
            | Some db \<Rightarrow> (map_option CloseFailed (close_db db), m(name := None))))"

text \<open>The accessors for the default databases; a panic is \<open>None\<close>. In mock mode both use the mock.\<close>

definition GetDBWithPanic :: "string \<Rightarrow> 'db dbMap \<Rightarrow> 'db option" where
  "GetDBWithPanic name m = m name"

definition DefaultDBNameMaster :: string where "DefaultDBNameMaster = ''__default_master__''"
definition DefaultDBNameSlave :: string where "DefaultDBNameSlave = ''__default_slave__''"
definition DBNameMock :: string where "DBNameMock = ''__mock__''"

definition DefaultMaster :: "bool \<Rightarrow> 'db dbMap \<Rightarrow> 'db option" where
  "DefaultMaster mockMode m =
     (if mockMode then GetDBWithPanic DBNameMock m else GetDBWithPanic DefaultDBNameMaster m)"

definition DefaultSlave :: "bool \<Rightarrow> 'db dbMap \<Rightarrow> 'db option" where
  "DefaultSlave mockMode m =
     (if mockMode then GetDBWithPanic DBNameMock m else GetDBWithPanic DefaultDBNameSlave m)"

definition Ping :: "('db \<Rightarrow> string option) \<Rightarrow> string \<Rightarrow> 'db dbMap \<Rightarrow> db_error option" where
  "Ping ping_db dbName m =
     (case GetDB dbName m of Inl e \<Rightarrow> Some e | Inr db \<Rightarrow> map_option PingFailed (ping_db db))"

section \<open>Facts\<close>

lemma genDSN_cached: "genDSN c = (d, c') \<Longrightarrow> d \<noteq> [] \<Longrightarrow> DSN c' = d"
  by (auto simp: genDSN_def Let_def split: if_splits option.splits)

text \<open>A generated DSN is kept: generating it again gives the same string and changes nothing.\<close>

lemma genDSN_again: "genDSN c = (d, c') \<Longrightarrow> d \<noteq> [] \<Longrightarrow> genDSN c' = (d, c')"
  by (auto simp: genDSN_def Let_def split: if_splits option.splits)

lemma genDSN_DBType [frame_simps]: "DBType (snd (genDSN c)) = DBType c"
  by (auto simp: genDSN_def Let_def split: option.splits)

lemma node_DSNs_eq:
  "node_DSNs c ns = filter (\<lambda>d. d \<noteq> []) (map (\<lambda>m. fst (genDSN (inherit_conn c m))) ns)"
proof -
  have "(let (d, m') = genDSN x in if d \<noteq> [] then [DSN m'] else []) =
      (if fst (genDSN x) \<noteq> [] then [fst (genDSN x)] else [])" for x
    using genDSN_cached [of x] by (cases "genDSN x") auto
  then show ?thesis by (induction ns) (simp_all add: node_DSNs_def)
qed

lemma node_DSNs_nonempty: "d \<in> set (node_DSNs c ns) \<Longrightarrow> d \<noteq> []"
  by (simp add: node_DSNs_eq)

lemma node_DSNs_hd: "node_DSNs c ns \<noteq> [] \<Longrightarrow> hd (node_DSNs c ns) \<noteq> []"
  by (rule node_DSNs_nonempty) (rule hd_in_set)

lemma node_DSNs_length: "length (node_DSNs c ns) \<le> length ns"
  by (simp add: node_DSNs_eq length_filter_le [THEN order_trans])

lemma InitConfig_failed: "fst (InitConfig op us cfg m) = Inl e \<Longrightarrow> snd (snd (InitConfig op us cfg m)) = m"
  by (auto simp: InitConfig_def Let_def split: option.splits prod.splits sum.splits if_splits)

lemma InitConfig_ok:
  assumes "InitConfig op us cfg m = (Inr db, cfg', m')"
  shows "\<exists>c. cfg' = Some c \<and> DBName c \<noteq> [] \<and> m' (DBName c) = Some db
           \<and> (\<forall>n. n \<noteq> DBName c \<longrightarrow> m' n = m n)"
  using assms
  by (auto simp: InitConfig_def Let_def defaultConfig_def split: option.splits prod.splits sum.splits if_splits)

lemma InitConfig_loaded:
  assumes "DBName c \<noteq> []" and "m (DBName c) = Some db" and "fst (fst (extractDSN c)) \<noteq> []"
  shows "fst (InitConfig op us (Some c) m) = Inr db \<and> snd (snd (InitConfig op us (Some c) m)) = m"
proof -
  obtain dsn ms rs c1 where e: "extractDSN c = ((dsn, ms, rs), c1)" by (metis surj_pair)
  then have "DBName c1 = DBName c"
    by (auto simp: extractDSN_def Let_def split: prod.splits if_splits)
  then show ?thesis using assms e by (simp add: InitConfig_def)
qed

section \<open>Properties\<close>

text \<open>
  The DSNs \<open>extractDSN\<close> hands to GORM: every master and replica DSN is non-empty, there are at
  most as many as configured nodes, the main connection's own DSN wins, and the main DSN is empty
  only if no node has one either.
\<close>

theorem extractDSN_spec:
  assumes "extractDSN cfg = ((dsn, ms, rs), cfg')"
  shows "[] \<notin> set ms \<and> [] \<notin> set rs
     \<and> length ms \<le> length (Masters cfg) \<and> length rs \<le> length (Replicas cfg)
     \<and> (fst (genDSN (conn cfg)) \<noteq> [] \<longrightarrow> dsn = fst (genDSN (conn cfg)))
     \<and> (dsn = [] \<longrightarrow> ms = [] \<and> rs = [])
     \<and> (fst (genDSN (conn cfg)) = [] \<longrightarrow> dsn \<noteq> [] \<longrightarrow> dsn = hd (ms @ rs))"
proof (cases "Masters cfg = [] \<and> Replicas cfg = []")
  case True
  then show ?thesis using assms by (auto simp: extractDSN_def split: prod.splits)
next
  case False
  obtain d c' where g: "genDSN (conn cfg) = (d, c')" by (cases "genDSN (conn cfg)")
  have ms: "ms = node_DSNs c' (Masters cfg)" and rs: "rs = node_DSNs c' (Replicas cfg)"
    and dsn: "dsn = (if d \<noteq> [] then d else if ms \<noteq> [] then hd ms else if rs \<noteq> [] then hd rs else [])"
    using assms False g by (auto simp: extractDSN_def Let_def node_DSNs_hd)
  have "ms \<noteq> [] \<Longrightarrow> hd ms \<noteq> []" "rs \<noteq> [] \<Longrightarrow> hd rs \<noteq> []"
    unfolding ms rs by (simp_all add: node_DSNs_hd)
  moreover have "[] \<notin> set ms" "[] \<notin> set rs" "length ms \<le> length (Masters cfg)"
    "length rs \<le> length (Replicas cfg)"
    unfolding ms rs using node_DSNs_nonempty node_DSNs_length by blast+
  ultimately show ?thesis using dsn by (simp add: g)
qed

definition split_cfg :: Config where
  "split_cfg = \<lparr>MaxOpenConn = 0, MaxIdleConn = 0, ConnMaxLifeTime = 0, ConnMaxIdleTime = 0,
     DBName = ''app'', LogMode = '''',
     conn = sample_conn\<lparr>DBType := DatabaseTypeSQLite, Host := '''', DSN := ''main''\<rparr>,
     Masters = [sample_conn\<lparr>DSN := ''m1''\<rparr>], Replicas = [sample_conn\<lparr>DSN := ''r1''\<rparr>]\<rparr>"

lemma extractDSN_split_cfg: "extractDSN split_cfg = ((''main'', [''m1''], [''r1'']), split_cfg)"
  by (simp add: extractDSN_def split_cfg_def genDSN_def node_DSNs_def inherit_conn_def
      sample_conn_def db_type_defs)

theorem extractDSN_spec_witness: "[] \<notin> set [''m1''] \<and> (''main'' :: string) = fst (genDSN (conn split_cfg))"
  using extractDSN_spec [OF extractDSN_split_cfg] by (simp add: split_cfg_def genDSN_def)

text \<open>
  The registry of databases: a failed \<open>InitConfig\<close> leaves it unchanged, a successful one binds
  exactly the configuration's name to the returned database, and a name that is already bound
  returns the bound database without opening anything.
\<close>

theorem InitConfig_registry:
  assumes "InitConfig op us cfg m = (r, cfg', m')"
  shows "(\<forall>e. r = Inl e \<longrightarrow> m' = m)
     \<and> (\<forall>db. r = Inr db \<longrightarrow> (\<exists>c. cfg' = Some c \<and> GetDB (DBName c) m' = Inr db
            \<and> (\<forall>n. n \<noteq> DBName c \<longrightarrow> m' n = m n)))
     \<and> (\<forall>c db. cfg = Some c \<longrightarrow> DBName c \<noteq> [] \<longrightarrow> fst (fst (extractDSN c)) \<noteq> [] \<longrightarrow>
          m (DBName c) = Some db \<longrightarrow> r = Inr db \<and> m' = m)"
proof (intro conjI allI impI)
  fix e assume "r = Inl e"
  then show "m' = m" using assms InitConfig_failed [of op us cfg m e] by simp
next
  fix db assume "r = Inr db"
  then have "InitConfig op us cfg m = (Inr db, cfg', m')" using assms by simp
  then obtain c where "cfg' = Some c" "m' (DBName c) = Some db" "\<forall>n. n \<noteq> DBName c \<longrightarrow> m' n = m n"
    using InitConfig_ok [of op us cfg m db cfg' m'] by blast
  then show "\<exists>c. cfg' = Some c \<and> GetDB (DBName c) m' = Inr db \<and> (\<forall>n. n \<noteq> DBName c \<longrightarrow> m' n = m n)"
    by (auto simp: GetDB_def)
next
  fix c db
  assume "cfg = Some c" "DBName c \<noteq> []" "fst (fst (extractDSN c)) \<noteq> []" "m (DBName c) = Some db"
  then show "r = Inr db" and "m' = m" using assms InitConfig_loaded [of c m db op us] by auto
qed

theorem InitConfig_registry_witness:
  "\<exists>c. fst (snd (InitConfig (\<lambda>(t, d). Inr d) (\<lambda>_ _ _. None) (Some split_cfg) Map.empty)) = Some c
     \<and> GetDB (DBName c) (snd (snd (InitConfig (\<lambda>(t, d). Inr d) (\<lambda>_ _ _. None) (Some split_cfg) Map.empty)))
         = Inr ''main''"
proof -
  have i: "InitConfig (\<lambda>(t, d). Inr d) (\<lambda>_ _ _. None) (Some split_cfg) Map.empty =
      (Inr ''main'', Some (defaultConfig split_cfg), [''app'' \<mapsto> ''main''])"
    by (simp add: InitConfig_def extractDSN_split_cfg getDialector_def db_type_defs)
       (simp add: split_cfg_def defaultConfig_def db_type_defs)
  from InitConfig_registry [OF i, THEN conjunct2, THEN conjunct1, rule_format, OF refl]
  show ?thesis unfolding i by auto
qed

end
