(* ===== verification/Migrate_Files.thy ===== *)
theory Migrate_Files
  imports Gormx_Db "HOL-Library.Product_Lexorder"
begin

text \<open>
  The package \<open>gormx/migrate\<close>, first part (\<open>migrate.go\<close>): configuration, discovery of migration
  files, their version numbers and the order in which they run. The file system is a parameter,
  a record of the two calls the code makes: listing a directory and reading a file. A path is the
  pair of directory and name that \<open>filepath.Join\<close> receives.
\<close>

section \<open>Configuration and files\<close>

definition BaselinePrefix :: string where "BaselinePrefix = ''00000000_000''"
definition baselineName :: string where "baselineName = BaselinePrefix @ ''_baseline.sql''"
definition versionPrefix :: string where "versionPrefix = ''-- @version ''"
definition versionPrefix2 :: string where "versionPrefix2 = ''--@version ''"
definition DefaultLockKey :: string where "DefaultLockKey = ''potato:schema-migrations''"

text \<open>Durations are integers, in nanoseconds.\<close>

definition DefaultLockTimeout :: int where "DefaultLockTimeout = 60 * 1000000000"

datatype MigrationType = MigrationTypeDDL | MigrationTypeSeed

record MigrateConfig =
  mc_DBType :: DatabaseType
  mc_DDLDir :: string
  mc_SeedDir :: string
  mc_LockKey :: string
  mc_LockTimeout :: int

definition withDefaults :: "MigrateConfig \<Rightarrow> MigrateConfig" where
  "withDefaults c =
     (let c1 = (if mc_LockKey c = [] then c\<lparr>mc_LockKey := DefaultLockKey\<rparr> else c)
      in if mc_LockTimeout c1 \<le> 0 then c1\<lparr>mc_LockTimeout := DefaultLockTimeout\<rparr> else c1)"

type_synonym path = "string \<times> string"

record migFile =
  mf_name :: string
  mf_path :: path
  mf_version :: string
  mf_kind :: MigrationType
  mf_baseline :: bool

record files =
  ReadDir :: "string \<Rightarrow> (string \<times> bool) list option"   \<comment> \<open>the entries: a name, and whether it is a directory\<close>
  ReadFile :: "path \<Rightarrow> string option"

section \<open>Version numbers\<close>

definition cutVersion :: "string \<Rightarrow> string \<Rightarrow> string option" where
  "cutVersion line p = (if has_prefix line p then Some (drop (length p) line) else None)"

text \<open>
  \<open>isDigits\<close> ranges over the runes of its argument; a byte outside ASCII decodes to a rune above
  \<open>'9'\<close>, so testing the bytes is the same.
\<close>

definition isDigits :: "string \<Rightarrow> bool" where
  "isDigits v \<longleftrightarrow> v \<noteq> [] \<and> list_all (\<lambda>r. 48 \<le> r \<and> r \<le> 57) (runes v)"

definition extractNameVersion :: "string \<Rightarrow> string" where
  "extractNameVersion name =
     (if \<not> has_suffix name ''.sql'' then []
      else
        let parts = split_n_char 3 (CHR ''_'') (trim_suffix name ''.sql'') in
        if length parts = 3 \<and> length (parts ! 0) = 8 \<and> length (parts ! 1) = 3
           \<and> parts ! 2 \<noteq> [] \<and> isDigits (parts ! 0) \<and> isDigits (parts ! 1)
        then parts ! 0 @ ''_'' @ parts ! 1
        else [])"

definition isMigrationVersion :: "string \<Rightarrow> bool" where
  "isMigrationVersion v \<longleftrightarrow>
     (let parts = split_char (CHR ''_'') v in
      length parts = 2 \<and> length (parts ! 0) = 8 \<and> length (parts ! 1) = 3
      \<and> isDigits (parts ! 0) \<and> isDigits (parts ! 1))"

text \<open>
  \<open>bufio.Scanner\<close> with its default buffer: lines end at a newline, a trailing carriage return is
  dropped, nothing follows the last newline, and a line of 65536 bytes or more ends the scan.
\<close>

definition drop_cr :: "string \<Rightarrow> string" where
  "drop_cr l = (if l \<noteq> [] \<and> last l = CHR 0x0D then butlast l else l)"

definition scan_lines :: "string \<Rightarrow> string list" where
  "scan_lines content =
     (let ls = split_char (CHR 0x0A) content;
          ls' = (if last ls = [] then butlast ls else ls)
      in map drop_cr (takeWhile (\<lambda>l. int (length l) < 65536) ls'))"

fun header_version :: "string list \<Rightarrow> string" where
  "header_version [] = []"
| "header_version (l # ls) =
     (let line = trim_space l in
      case cutVersion line versionPrefix of
        Some v \<Rightarrow> trim_space v
      | None \<Rightarrow>
          (case cutVersion line versionPrefix2 of
             Some v \<Rightarrow> trim_space v
           | None \<Rightarrow> if line \<noteq> [] \<and> \<not> has_prefix line ''--'' then [] else header_version ls))"

definition parseHeaderVersion :: "files \<Rightarrow> path \<Rightarrow> string" where
  "parseHeaderVersion fs p =
     (case ReadFile fs p of None \<Rightarrow> [] | Some content \<Rightarrow> header_version (scan_lines content))"

definition resolveVersion :: "files \<Rightarrow> path \<Rightarrow> string \<Rightarrow> string" where
  "resolveVersion fs p name =
     (let filenameVersion = extractNameVersion name in
      if filenameVersion = [] then []
      else
        let version = parseHeaderVersion fs p in
        if isMigrationVersion version then version
        else if has_prefix name BaselinePrefix then []
        else filenameVersion)"

section \<open>Loading a directory\<close>

definition listSQLFiles :: "files \<Rightarrow> string \<Rightarrow> string list" where
  "listSQLFiles fs dir =
     (case ReadDir fs dir of
        None \<Rightarrow> []
      | Some entries \<Rightarrow> sort (map fst (filter (\<lambda>(n, isDir). \<not> isDir \<and> has_suffix n ''.sql'') entries)))"

definition load_file :: "files \<Rightarrow> string \<Rightarrow> MigrationType \<Rightarrow> string \<Rightarrow> migFile list" where
  "load_file fs dir kind name =
     (if kind = MigrationTypeDDL \<and> has_prefix name BaselinePrefix \<and> name \<noteq> baselineName then []
      else
        let ver = resolveVersion fs (dir, name) name in
        if ver = [] then []
        else [\<lparr>mf_name = name, mf_path = (dir, name), mf_version = ver, mf_kind = kind,
               mf_baseline = has_prefix name BaselinePrefix\<rparr>])"

definition loadMigrationFiles :: "files \<Rightarrow> string \<Rightarrow> MigrationType \<Rightarrow> migFile list" where
  "loadMigrationFiles fs dir kind =
     sort_key (\<lambda>f. (mf_version f, mf_name f)) (concat (map (load_file fs dir kind) (listSQLFiles fs dir)))"


section \<open>Facts on versions\<close>

lemma decode_rune_ascii: "fst (decode_rune (b # bs)) < 128 \<Longrightarrow> byte b < 128"
  by (auto simp: Let_def rune_error_def byte_in_def second_lo_def split: list.splits if_splits)

lemma runes_digits: "list_all (\<lambda>r. 48 \<le> r \<and> r \<le> 57) (runes s) \<longleftrightarrow> list_all is_digit s"
proof
  show "list_all is_digit s" if "list_all (\<lambda>r. 48 \<le> r \<and> r \<le> 57) (runes s)"
    using that
  proof (induction s rule: runes.induct)
    case (2 b bs)
    obtain r n where d: "decode_rune (b # bs) = (r, n)" by fastforce
    then have "r \<le> 57" using 2 by simp
    then have b: "byte b < 128" using decode_rune_ascii [of b bs] d by simp
    then show ?case using 2 by (simp add: is_digit_def)
  qed simp
  show "list_all (\<lambda>r. 48 \<le> r \<and> r \<le> 57) (runes s)" if "list_all is_digit s"
  proof -
    have "list_all (\<lambda>c. byte c < 128) s" by (rule list.pred_mono_strong [OF that]) (simp add: is_digit_def)
    then show ?thesis using that by (simp add: runes_ascii list_all_iff is_digit_def)
  qed
qed

lemma isDigits_iff: "isDigits v \<longleftrightarrow> v \<noteq> [] \<and> list_all is_digit v"
  by (simp add: isDigits_def runes_digits)

text \<open>A version is eight digits, an underscore and three digits.\<close>

lemma no_underscore: "list_all is_digit d \<Longrightarrow> CHR ''_'' \<notin> set d"
  by (auto simp: list_all_iff is_digit_def)

lemma isMigrationVersion_iff:
  "isMigrationVersion v \<longleftrightarrow>
     (\<exists>d n. v = d @ ''_'' @ n \<and> length d = 8 \<and> length n = 3 \<and> list_all is_digit d \<and> list_all is_digit n)"
  (is "?L \<longleftrightarrow> ?R")
proof
  assume ?L
  then obtain d n where s: "split_char (CHR ''_'') v = [d, n]"
    by (auto simp: isMigrationVersion_def Let_def numeral_2_eq_2 length_Suc_conv)
  then have "v = d @ ''_'' @ n" using join_split_char [of "CHR ''_''" v] by simp
  then show ?R using \<open>?L\<close> s by (auto simp: isMigrationVersion_def isDigits_iff)
next
  assume ?R
  then obtain d n where v: "v = d @ ''_'' @ n" "length d = 8" "length n = 3"
    "list_all is_digit d" "list_all is_digit n" by blast
  then have "split_char (CHR ''_'') v = [d, n]"
    using split_char_append [OF no_underscore [of d], of n] split_char_no_sep [OF no_underscore [of n]]
    by simp
  then show ?L using v by (auto simp: isMigrationVersion_def isDigits_iff)
qed

lemma split_n_3:
  "split_n_char 3 c s = ps \<Longrightarrow> length ps = 3 \<Longrightarrow> \<exists>a b r. ps = [a, b, r] \<and> s = a @ c # b @ c # r"
proof -
  assume ps: "split_n_char 3 c s = ps" "length ps = 3"
  have cut: "x = takeWhile (\<lambda>y. y \<noteq> c) x @ c # tl (dropWhile (\<lambda>y. y \<noteq> c) x)" if "c \<in> set x" for x
    using that by (induction x) auto
  let ?t = "tl (dropWhile (\<lambda>y. y \<noteq> c) s)"
  have "c \<in> set s" "c \<in> set ?t"
    using ps by (auto simp: numeral_3_eq_3 split: if_splits)
  then have "ps = [takeWhile (\<lambda>y. y \<noteq> c) s, takeWhile (\<lambda>y. y \<noteq> c) ?t, tl (dropWhile (\<lambda>y. y \<noteq> c) ?t)]"
    using ps by (simp add: numeral_3_eq_3)
  then show ?thesis using cut [OF \<open>c \<in> set s\<close>] cut [OF \<open>c \<in> set ?t\<close>] by auto
qed

lemma split_n_3_append:
  "c \<notin> set a \<Longrightarrow> c \<notin> set b \<Longrightarrow> split_n_char 3 c (a @ c # b @ c # r) = [a, b, r]"
proof -
  assume "c \<notin> set a" "c \<notin> set b"
  then have "list_all (\<lambda>x. x \<noteq> c) a" "list_all (\<lambda>x. x \<noteq> c) b" by (auto simp: list_all_iff)
  then show ?thesis by (simp add: numeral_3_eq_3 takeWhile_until dropWhile_until)
qed

lemma extractNameVersion_iff:
  "v \<noteq> [] \<and> extractNameVersion name = v \<longleftrightarrow>
     isMigrationVersion v \<and> (\<exists>r. r \<noteq> [] \<and> name = v @ ''_'' @ r @ ''.sql'')"
  (is "?L \<longleftrightarrow> ?R")
proof
  assume l: ?L
  then obtain base where n: "name = base @ ''.sql''"
    by (auto simp: extractNameVersion_def has_suffix_iff split: if_splits)
  let ?ps = "split_n_char 3 (CHR ''_'') base"
  have len: "length ?ps = 3" and v: "v = ?ps ! 0 @ ''_'' @ ?ps ! 1" and ne: "?ps ! 2 \<noteq> []"
    and ok: "length (?ps ! 0) = 8" "length (?ps ! 1) = 3" "isDigits (?ps ! 0)" "isDigits (?ps ! 1)"
    using l n by (auto simp: extractNameVersion_def has_suffix_iff Let_def split: if_splits)
  obtain a b r where ps: "?ps = [a, b, r]" and base: "base = a @ CHR ''_'' # b @ CHR ''_'' # r"
    using split_n_3 [OF refl len] by blast
  have "isMigrationVersion v" using v ok ps by (auto simp: isMigrationVersion_iff isDigits_iff)
  then show ?R using v ne ps base n by auto
next
  assume ?R
  then obtain d n r where v: "v = d @ ''_'' @ n" "length d = 8" "length n = 3"
    "list_all is_digit d" "list_all is_digit n" and name: "name = (v @ ''_'' @ r) @ ''.sql''" "r \<noteq> []"
    by (auto simp: isMigrationVersion_iff)
  have "split_n_char 3 (CHR ''_'') (v @ ''_'' @ r) = [d, n, r]"
    using split_n_3_append [OF no_underscore no_underscore, of d n r] v by simp
  moreover have "has_suffix name ''.sql''" unfolding has_suffix_iff using name by blast
  moreover have "trim_suffix name ''.sql'' = v @ ''_'' @ r" unfolding name by (rule trim_suffix_append)
  ultimately show ?L using v name by (auto simp: extractNameVersion_def isDigits_iff Let_def)
qed

lemma resolveVersion_wf:
  "resolveVersion fs p name = [] \<or> isMigrationVersion (resolveVersion fs p name)"
  using extractNameVersion_iff [of "extractNameVersion name" name]
  by (auto simp: resolveVersion_def Let_def)

section \<open>The order of versions\<close>

text \<open>The number a version stands for: the date and then the counter.\<close>

definition version_num :: "string \<Rightarrow> nat" where
  "version_num v = num_val (take 8 v) * 1000 + num_val (drop 9 v)"


section \<open>Facts on loading\<close>

lemma load_file_cases:
  "f \<in> set (load_file fs dir kind name) \<longleftrightarrow>
     (kind = MigrationTypeDDL \<longrightarrow> has_prefix name BaselinePrefix \<longrightarrow> name = baselineName)
     \<and> resolveVersion fs (dir, name) name \<noteq> []
     \<and> f = \<lparr>mf_name = name, mf_path = (dir, name), mf_version = resolveVersion fs (dir, name) name,
             mf_kind = kind, mf_baseline = has_prefix name BaselinePrefix\<rparr>"
  by (auto simp: load_file_def Let_def)

lemma loaded_name: "m \<in> mf_name ` set (concat (map (load_file fs dir kind) ns)) \<Longrightarrow> m \<in> set ns"
  unfolding set_concat set_map by (auto simp only: load_file_cases image_iff migFile.simps UN_iff)

lemma distinct_load_names:
  "distinct ns \<Longrightarrow> distinct (map mf_name (concat (map (load_file fs dir kind) ns)))"
proof (induction ns)
  case (Cons n ns)
  let ?r = "map mf_name (concat (map (load_file fs dir kind) ns))"
  have "n \<notin> set ?r" using Cons.prems loaded_name [of n fs dir kind ns] by (simp only: set_map) auto
  moreover have "distinct ?r" using Cons by simp
  moreover have "map mf_name (load_file fs dir kind n) \<in> {[], [n]}" by (auto simp: load_file_def Let_def)
  ultimately show ?case unfolding list.map concat.simps map_append by (elim insertE emptyE) simp_all
qed simp

lemma set_loadMigrationFiles:
  "set (loadMigrationFiles fs dir kind) = (\<Union>n \<in> set (listSQLFiles fs dir). set (load_file fs dir kind n))"
  by (simp add: loadMigrationFiles_def)

lemma distinct_listSQLFiles:
  "ReadDir fs dir = Some es \<Longrightarrow> distinct (map fst es) \<Longrightarrow> distinct (listSQLFiles fs dir)"
  by (simp add: listSQLFiles_def distinct_map_filter)

lemma loaded_names_distinct:
  assumes "ReadDir fs dir = Some es" "distinct (map fst es)"
  shows "distinct (map mf_name (loadMigrationFiles fs dir kind))"
proof -
  let ?c = "concat (map (load_file fs dir kind) (listSQLFiles fs dir))"
  have "distinct (map mf_name ?c)"
    using distinct_load_names distinct_listSQLFiles [OF assms] by blast
  then show ?thesis unfolding loadMigrationFiles_def by (simp add: distinct_map)
qed

lemma loaded_sorted:
  assumes "ReadDir fs dir = Some es" "distinct (map fst es)"
  shows "sorted_wrt (\<lambda>f g. (mf_version f, mf_name f) < (mf_version g, mf_name g)) (loadMigrationFiles fs dir kind)"
proof -
  let ?key = "\<lambda>f. (mf_version f, mf_name f)"
  let ?fl = "loadMigrationFiles fs dir kind"
  have "distinct (map mf_name ?fl)" by (rule loaded_names_distinct [OF assms])
  then have "distinct (map ?key ?fl)" by (auto simp: distinct_map intro: inj_onI dest: inj_onD)
  moreover have "sorted (map ?key ?fl)" unfolding loadMigrationFiles_def by (rule sorted_sort_key)
  ultimately have "sorted_wrt (<) (map ?key ?fl)" by (simp only: strict_sorted_iff)
  then show ?thesis by (simp add: sorted_wrt_map)
qed

section \<open>Properties\<close>

text \<open>
  The version of a file: whatever \<open>resolveVersion\<close> accepts is eight digits, an underscore and
  three digits; it is the header's declaration when that is well formed, and otherwise the name's
  own prefix, which a baseline may not fall back to.
\<close>

theorem resolveVersion_spec:
  assumes "resolveVersion fs p name = v" and "v \<noteq> []"
  shows "isMigrationVersion v
     \<and> (\<exists>w r. isMigrationVersion w \<and> r \<noteq> [] \<and> name = w @ ''_'' @ r @ ''.sql''
          \<and> v = (if isMigrationVersion (parseHeaderVersion fs p) then parseHeaderVersion fs p else w))
     \<and> (has_prefix name BaselinePrefix \<longrightarrow> v = parseHeaderVersion fs p)"
proof -
  let ?w = "extractNameVersion name"
  have w: "?w \<noteq> []" using assms by (auto simp: resolveVersion_def Let_def split: if_splits)
  then obtain r where "isMigrationVersion ?w" "r \<noteq> []" "name = ?w @ ''_'' @ r @ ''.sql''"
    using extractNameVersion_iff [of ?w name] by blast
  moreover have "v = (if isMigrationVersion (parseHeaderVersion fs p) then parseHeaderVersion fs p else ?w)"
    "has_prefix name BaselinePrefix \<longrightarrow> v = parseHeaderVersion fs p"
    using assms w by (auto simp: resolveVersion_def Let_def split: if_splits)
  moreover have "isMigrationVersion v" using assms resolveVersion_wf [of fs p name] by simp
  ultimately show ?thesis by (intro conjI exI [of _ ?w] exI [of _ r])
qed

definition sample_files :: files where
  "sample_files = \<lparr>ReadDir = (\<lambda>_. Some [(''20240701_002_b.sql'', False), (''old'', True),
        (''00000000_000_baseline.sql'', False), (''00000000_000_init.sql'', False),
        (''20240701_001_a.sql'', False)]),
     ReadFile = (\<lambda>(d, n). if n = baselineName
        then Some (''-- schema'' @ [CHR 0x0A] @ ''-- @version 20240101_000'' @ [CHR 0x0A] @ ''SELECT 1'')
        else Some (''-- @version 2024'' @ [CHR 0x0A] @ ''SELECT 1''))\<rparr>"

lemmas header_eval = parseHeaderVersion_def sample_files_def scan_lines_def drop_cr_def cutVersion_def
  versionPrefix_def versionPrefix2_def trim_space_visible is_ascii_space_def has_prefix_def

lemmas version_eval = isMigrationVersion_def isDigits_iff is_digit_def

lemma sample_header:
  "parseHeaderVersion sample_files (d, n) = (if n = baselineName then ''20240101_000'' else ''2024'')"
  by (simp add: header_eval)

lemma sample_names:
  "extractNameVersion baselineName = ''00000000_000''" "extractNameVersion ''20240701_001_a.sql'' = ''20240701_001''"
  "extractNameVersion ''20240701_002_b.sql'' = ''20240701_002''"
  by (simp_all add: extractNameVersion_def baselineName_def BaselinePrefix_def has_suffix_def has_prefix_def
      trim_suffix_def numeral_3_eq_3 isDigits_iff is_digit_def)

lemma sample_resolve:
  "resolveVersion sample_files (d, baselineName) baselineName = ''20240101_000''"
  "resolveVersion sample_files (d, ''20240701_001_a.sql'') ''20240701_001_a.sql'' = ''20240701_001''"
  "resolveVersion sample_files (d, ''20240701_002_b.sql'') ''20240701_002_b.sql'' = ''20240701_002''"
  unfolding resolveVersion_def sample_header sample_names
  by (simp_all add: version_eval baselineName_def BaselinePrefix_def)

theorem resolveVersion_spec_witness:
  "isMigrationVersion ''20240101_000'' \<and> parseHeaderVersion sample_files (''d'', baselineName) = ''20240101_000''"
  using resolveVersion_spec [OF sample_resolve(1)] by (simp add: baselineName_def)

text \<open>
  Comparing two version strings byte by byte, which is how the code sorts migrations and decides
  which are new, is comparing their dates and, on one date, their counters as numbers.
\<close>

theorem version_order:
  assumes "isMigrationVersion v" and "isMigrationVersion w"
  shows "(v < w \<longleftrightarrow> version_num v < version_num w) \<and> (v = w \<longleftrightarrow> version_num v = version_num w)"
proof -
  obtain d n where v: "v = d @ CHR ''_'' # n" "length d = 8" "length n = 3" "list_all is_digit d" "list_all is_digit n"
    using assms(1) by (auto simp: isMigrationVersion_iff)
  obtain e m where w: "w = e @ CHR ''_'' # m" "length e = 8" "length m = 3" "list_all is_digit e" "list_all is_digit m"
    using assms(2) by (auto simp: isMigrationVersion_iff)
  have less: "d < e \<longleftrightarrow> num_val d < num_val e" "n < m \<longleftrightarrow> num_val n < num_val m"
    "e < d \<longleftrightarrow> num_val e < num_val d" "m < n \<longleftrightarrow> num_val m < num_val n"
    using v w by (simp_all add: digits_less_iff)
  then have eq: "d = e \<longleftrightarrow> num_val d = num_val e" "n = m \<longleftrightarrow> num_val n = num_val m"
    by (metis less_irrefl_nat neq_iff)+
  have b: "num_val n < 1000" "num_val m < 1000"
    using num_val_bound [of n] num_val_bound [of m] v w by simp_all
  have vn: "version_num v = num_val d * 1000 + num_val n" "version_num w = num_val e * 1000 + num_val m"
    using v w by (simp_all add: version_num_def)
  have "v < w \<longleftrightarrow> d < e \<or> d = e \<and> n < m" using v w by (simp add: append_less_iff)
  moreover have "v = w \<longleftrightarrow> d = e \<and> n = m" using v w by simp
  ultimately show ?thesis unfolding vn less eq using b by auto
qed

theorem version_order_witness:
  "(''20240701_002'' :: string) < ''20240701_010'' \<longleftrightarrow> (20240701002 :: nat) < 20240701010"
proof -
  have w: "isMigrationVersion ''20240701_002''" "isMigrationVersion ''20240701_010''" by (simp_all add: version_eval)
  have n: "version_num ''20240701_002'' = 20240701002" "version_num ''20240701_010'' = 20240701010" by (simp_all add: version_num_def num_val_def digit_val_def)
  show ?thesis using version_order [OF w] unfolding n by blast
qed


lemma sample_list:
  "listSQLFiles sample_files d = [baselineName, ''00000000_000_init.sql'', ''20240701_001_a.sql'', ''20240701_002_b.sql'']"
  by (simp add: listSQLFiles_def sample_files_def has_suffix_def has_prefix_def baselineName_def BaselinePrefix_def
      less_char_def less_eq_char_def)

lemma sample_load:
  "map mf_name (loadMigrationFiles sample_files d MigrationTypeDDL)
     = [baselineName, ''20240701_001_a.sql'', ''20240701_002_b.sql'']"
proof -
  have "load_file sample_files d MigrationTypeDDL ''00000000_000_init.sql'' = []"
    by (simp add: load_file_def BaselinePrefix_def baselineName_def)
  moreover have "load_file sample_files d MigrationTypeDDL baselineName =
      [\<lparr>mf_name = baselineName, mf_path = (d, baselineName), mf_version = ''20240101_000'',
        mf_kind = MigrationTypeDDL, mf_baseline = True\<rparr>]"
    by (simp add: load_file_def sample_resolve) (simp add: baselineName_def)
  ultimately show ?thesis
    unfolding loadMigrationFiles_def sample_list list.map
    by (simp add: load_file_def sample_resolve BaselinePrefix_def less_char_def less_eq_char_def)
qed


end
