(* ===== verification/Migrate_Dialect.thy ===== *)
theory Migrate_Dialect
  imports Migrate_Files
begin

text \<open>
  The package \<open>gormx/migrate\<close>, second part (\<open>dialect.go\<close>): the six dialects, their statements for
  the tracking table and the lock table, the errors they let pass as "the object exists already",
  and the optional abilities of creating a database and a schema.
\<close>

section \<open>Statements\<close>

definition nl :: string where "nl = [CHR 0x0A]"
definition tab :: string where "tab = [CHR 0x09]"
definition dquote :: char where "dquote = CHR 0x22"

text \<open>The lines of a statement, each indented by the given number of tabs.\<close>

definition sql_text :: "(nat \<times> string) list \<Rightarrow> string" where
  "sql_text ls = join nl (map (\<lambda>(n, l). concat (replicate n tab) @ l) ls)"

definition genericMigrationsTableSQL :: string where
  "genericMigrationsTableSQL = sql_text
     [(0, ''CREATE TABLE IF NOT EXISTS schema_migrations (''),
      (1, ''version VARCHAR(255) NOT NULL,''),
      (1, ''type VARCHAR(16) NOT NULL DEFAULT '' @ [squote] @ ''ddl'' @ [squote] @ '' CHECK (type IN ('' @ [squote] @ ''ddl'' @ [squote] @ '', '' @ [squote] @ ''seed'' @ [squote] @ '')),''),
      (1, ''applied_at TIMESTAMP DEFAULT CURRENT_TIMESTAMP,''),
      (1, ''PRIMARY KEY (version, type)''),
      (0, '')'')]"

definition genericLockTableSQL :: string where
  "genericLockTableSQL = sql_text
     [(0, ''CREATE TABLE IF NOT EXISTS schema_migrations_lock (''),
      (1, ''lock_key VARCHAR(255) PRIMARY KEY,''),
      (1, ''locked_by VARCHAR(255) NOT NULL,''),
      (1, ''locked_at TIMESTAMP NOT NULL''),
      (0, '')'')]"

definition mysqlMigrationsTableSQL :: string where
  "mysqlMigrationsTableSQL = sql_text
     [(0, ''CREATE TABLE IF NOT EXISTS schema_migrations (''),
      (1, ''version VARCHAR(255) NOT NULL,''),
      (1, ''type VARCHAR(16) NOT NULL DEFAULT '' @ [squote] @ ''ddl'' @ [squote] @ '' CHECK (type IN ('' @ [squote] @ ''ddl'' @ [squote] @ '', '' @ [squote] @ ''seed'' @ [squote] @ '')),''),
      (1, ''applied_at TIMESTAMP NULL DEFAULT CURRENT_TIMESTAMP,''),
      (1, ''PRIMARY KEY (version, type)''),
      (0, '') ENGINE=InnoDB DEFAULT CHARSET=utf8mb4'')]"

definition mysqlLockTableSQL :: string where
  "mysqlLockTableSQL = sql_text
     [(0, ''CREATE TABLE IF NOT EXISTS schema_migrations_lock (''),
      (1, ''lock_key VARCHAR(255) PRIMARY KEY,''),
      (1, ''locked_by VARCHAR(255) NOT NULL,''),
      (1, ''locked_at TIMESTAMP NOT NULL''),
      (0, '') ENGINE=InnoDB DEFAULT CHARSET=utf8mb4'')]"

definition sqlserverMigrationsTableSQL :: string where
  "sqlserverMigrationsTableSQL = sql_text
     [(0, ''IF NOT EXISTS (SELECT 1 FROM sys.tables WHERE name = '' @ [squote] @ ''schema_migrations'' @ [squote] @ '')''),
      (0, ''CREATE TABLE schema_migrations (''),
      (1, ''version NVARCHAR(255) NOT NULL,''),
      (1, ''type NVARCHAR(16) NOT NULL DEFAULT '' @ [squote] @ ''ddl'' @ [squote] @ '' CHECK (type IN ('' @ [squote] @ ''ddl'' @ [squote] @ '', '' @ [squote] @ ''seed'' @ [squote] @ '')),''),
      (1, ''applied_at DATETIME2 NOT NULL DEFAULT CURRENT_TIMESTAMP,''),
      (1, ''PRIMARY KEY (version, type)''),
      (0, '')'')]"

definition sqlserverLockTableSQL :: string where
  "sqlserverLockTableSQL = sql_text
     [(0, ''IF NOT EXISTS (SELECT 1 FROM sys.tables WHERE name = '' @ [squote] @ ''schema_migrations_lock'' @ [squote] @ '')''),
      (0, ''CREATE TABLE schema_migrations_lock (''),
      (1, ''lock_key NVARCHAR(255) PRIMARY KEY,''),
      (1, ''locked_by NVARCHAR(255) NOT NULL,''),
      (1, ''locked_at DATETIME2 NOT NULL''),
      (0, '')'')]"

definition oracle_block :: "(nat \<times> string) list \<Rightarrow> string" where
  "oracle_block ls = sql_text
     ([(0, ''BEGIN'')] @ ls @
      [(0, ''EXCEPTION''), (1, ''WHEN OTHERS THEN''), (2, ''IF SQLCODE != -955 THEN''), (3, ''RAISE;''),
       (2, ''END IF;''), (0, ''END;'')])"

definition oracleMigrationsTableSQL :: string where
  "oracleMigrationsTableSQL = oracle_block
     [(1, ''EXECUTE IMMEDIATE '' @ [squote] @ ''CREATE TABLE schema_migrations (''),
      (2, ''version VARCHAR2(255) NOT NULL,''),
      (2, ''type VARCHAR2(16) DEFAULT '' @ [squote, squote] @ ''ddl'' @ [squote, squote] @ '' NOT NULL CHECK (type IN ('' @ [squote, squote] @ ''ddl'' @ [squote, squote] @ '', '' @ [squote, squote] @ ''seed'' @ [squote, squote] @ '')),''),
      (2, ''applied_at TIMESTAMP DEFAULT CURRENT_TIMESTAMP,''),
      (2, ''PRIMARY KEY (version, type)''),
      (1, '')'' @ [squote] @ '';'')]"

definition oracleLockTableSQL :: string where
  "oracleLockTableSQL = oracle_block
     [(1, ''EXECUTE IMMEDIATE '' @ [squote] @ ''CREATE TABLE schema_migrations_lock (''),
      (2, ''lock_key VARCHAR2(255) PRIMARY KEY,''),
      (2, ''locked_by VARCHAR2(255) NOT NULL,''),
      (2, ''locked_at TIMESTAMP NOT NULL''),
      (1, '')'' @ [squote] @ '';'')]"

section \<open>Dialects\<close>

text \<open>The three kinds of session lock, and the lock kept in a table.\<close>

datatype lockDialect = postgresLockDialect | mysqlLockDialect | sqlserverLockDialect

datatype locker = AdvisoryLocker lockDialect | TableLocker string

record dbCreator =
  AdminDatabase :: string
  DBExistsQuery :: string
  CreateDatabaseSQL :: "string \<Rightarrow> string"

record dialect =
  Locker :: locker
  IsIdempotentSkippable :: "string \<Rightarrow> bool"
  MigrationsTableSQL :: string
  LockTableSQL :: string
  dbCreator_of :: "dbCreator option"
  schemaCreator_of :: "(string \<Rightarrow> string) option"

text \<open>
  An error is its message; the nil error, for which every dialect answers no, is not a value here,
  since the code only asks about an error it has.
\<close>

definition mentions :: "string \<Rightarrow> string list \<Rightarrow> bool" where
  "mentions msg codes \<longleftrightarrow> list_ex (contains msg) codes"

definition postgres_skippable :: "string \<Rightarrow> bool" where
  "postgres_skippable msg \<longleftrightarrow> mentions msg [''42P07'', ''42701'', ''42710'']"

definition mysql_skippable :: "string \<Rightarrow> bool" where
  "mysql_skippable msg \<longleftrightarrow> mentions msg [''1050'', ''1060'', ''1061'']"

definition sqlserver_skippable :: "string \<Rightarrow> bool" where
  "sqlserver_skippable msg \<longleftrightarrow> mentions msg [''2714'', ''1801'', ''21002'']"

definition oracle_skippable :: "string \<Rightarrow> bool" where
  "oracle_skippable msg \<longleftrightarrow> mentions msg [''ORA-00955'', ''ORA-01430'']"

text \<open>The third keyword of the DM dialect is the three Chinese characters U+5DF2 U+5B58 U+5728.\<close>

definition dm_skippable :: "string \<Rightarrow> bool" where
  "dm_skippable msg \<longleftrightarrow> mentions msg [''-2005'', ''already exists'', utf8 [0x5DF2, 0x5B58, 0x5728]]"

definition sqlite_skippable :: "string \<Rightarrow> bool" where
  "sqlite_skippable msg \<longleftrightarrow> mentions msg [''already exists'', ''duplicate column name'']"

definition postgresCreateSchemaSQL :: "string \<Rightarrow> string" where
  "postgresCreateSchemaSQL schemaName =
     (let s = trim_space schemaName in
      if s = [] then []
      else ''CREATE SCHEMA IF NOT EXISTS '' @ [dquote] @ replace_char dquote [dquote, dquote] s @ [dquote])"

definition postgresDialect :: dialect where
  "postgresDialect = \<lparr>Locker = AdvisoryLocker postgresLockDialect,
     IsIdempotentSkippable = postgres_skippable,
     MigrationsTableSQL = genericMigrationsTableSQL, LockTableSQL = genericLockTableSQL,
     dbCreator_of = Some \<lparr>AdminDatabase = ''postgres'',
       DBExistsQuery = ''SELECT 1 FROM pg_database WHERE datname = ?'',
       CreateDatabaseSQL = (\<lambda>db. ''CREATE DATABASE '' @ [dquote] @ db @ [dquote])\<rparr>,
     schemaCreator_of = Some postgresCreateSchemaSQL\<rparr>"

definition mysqlDialect :: dialect where
  "mysqlDialect = \<lparr>Locker = AdvisoryLocker mysqlLockDialect,
     IsIdempotentSkippable = mysql_skippable,
     MigrationsTableSQL = mysqlMigrationsTableSQL, LockTableSQL = mysqlLockTableSQL,
     dbCreator_of = Some \<lparr>AdminDatabase = '''',
       DBExistsQuery = ''SELECT 1 FROM information_schema.SCHEMATA WHERE SCHEMA_NAME = ?'',
       CreateDatabaseSQL = (\<lambda>db. ''CREATE DATABASE IF NOT EXISTS '' @ [CHR 0x60] @ db @ [CHR 0x60]
         @ '' DEFAULT CHARACTER SET utf8mb4'')\<rparr>,
     schemaCreator_of = None\<rparr>"

definition sqlserverDialect :: dialect where
  "sqlserverDialect = \<lparr>Locker = AdvisoryLocker sqlserverLockDialect,
     IsIdempotentSkippable = sqlserver_skippable,
     MigrationsTableSQL = sqlserverMigrationsTableSQL, LockTableSQL = sqlserverLockTableSQL,
     dbCreator_of = Some \<lparr>AdminDatabase = ''master'',
       DBExistsQuery = ''SELECT 1 FROM sys.databases WHERE name = ?'',
       CreateDatabaseSQL = (\<lambda>db. ''CREATE DATABASE ['' @ db @ '']'')\<rparr>,
     schemaCreator_of = None\<rparr>"

definition oracleDialect :: dialect where
  "oracleDialect = \<lparr>Locker = TableLocker oracleLockTableSQL,
     IsIdempotentSkippable = oracle_skippable,
     MigrationsTableSQL = oracleMigrationsTableSQL, LockTableSQL = oracleLockTableSQL,
     dbCreator_of = None, schemaCreator_of = None\<rparr>"

definition dmDialect :: dialect where
  "dmDialect = \<lparr>Locker = TableLocker genericLockTableSQL,
     IsIdempotentSkippable = dm_skippable,
     MigrationsTableSQL = genericMigrationsTableSQL, LockTableSQL = genericLockTableSQL,
     dbCreator_of = None, schemaCreator_of = None\<rparr>"

definition sqliteDialect :: dialect where
  "sqliteDialect = \<lparr>Locker = TableLocker genericLockTableSQL,
     IsIdempotentSkippable = sqlite_skippable,
     MigrationsTableSQL = genericMigrationsTableSQL, LockTableSQL = genericLockTableSQL,
     dbCreator_of = None, schemaCreator_of = None\<rparr>"

definition dialectRegistry :: "DatabaseType \<Rightarrow> dialect option" where
  "dialectRegistry =
     [DatabaseTypePostgres \<mapsto> postgresDialect, DatabaseTypeMySQL \<mapsto> mysqlDialect,
      DatabaseTypeSqlserver \<mapsto> sqlserverDialect, DatabaseTypeOracle \<mapsto> oracleDialect,
      DatabaseTypeDM \<mapsto> dmDialect, DatabaseTypeSQLite \<mapsto> sqliteDialect]"

definition lookupDialect :: "DatabaseType \<Rightarrow> dialect option" where
  "lookupDialect t = dialectRegistry t"

definition lookupDBCreator :: "DatabaseType \<Rightarrow> dbCreator option" where
  "lookupDBCreator t = (case lookupDialect t of None \<Rightarrow> None | Some d \<Rightarrow> dbCreator_of d)"

definition lookupSchemaCreator :: "DatabaseType \<Rightarrow> (string \<Rightarrow> string) option" where
  "lookupSchemaCreator t = (case lookupDialect t of None \<Rightarrow> None | Some d \<Rightarrow> schemaCreator_of d)"


section \<open>Facts\<close>

lemmas dialect_defs = postgresDialect_def mysqlDialect_def sqlserverDialect_def oracleDialect_def
  dmDialect_def sqliteDialect_def

lemma dialectRegistry_table:
  "dialectRegistry t =
     (if t = DatabaseTypePostgres then Some postgresDialect
      else if t = DatabaseTypeMySQL then Some mysqlDialect
      else if t = DatabaseTypeSqlserver then Some sqlserverDialect
      else if t = DatabaseTypeOracle then Some oracleDialect
      else if t = DatabaseTypeDM then Some dmDialect
      else if t = DatabaseTypeSQLite then Some sqliteDialect else None)"
  by (simp add: dialectRegistry_def db_type_defs)

text \<open>The lookups by type; a type without the ability answers as an unregistered one does.\<close>

lemma lookups:
  "lookupDBCreator t \<noteq> None \<longleftrightarrow> t = DatabaseTypePostgres \<or> t = DatabaseTypeMySQL \<or> t = DatabaseTypeSqlserver"
  "lookupSchemaCreator t \<noteq> None \<longleftrightarrow> t = DatabaseTypePostgres"
  by (auto simp: lookupDBCreator_def lookupSchemaCreator_def lookupDialect_def dialectRegistry_table
      dialect_defs db_type_defs)

text \<open>
  SQL reads a delimited identifier up to a delimiter that is not doubled. The first argument is
  the delimiter, the second the text after the opening one; the answer is the name and the rest.
\<close>

fun read_delimited :: "char \<Rightarrow> string \<Rightarrow> (string \<times> string) option" where
  "read_delimited q [] = None"
| "read_delimited q (c # s) =
     (if c \<noteq> q then map_option (\<lambda>(v, t). (c # v, t)) (read_delimited q s)
      else case s of
             [] \<Rightarrow> Some ([], [])
           | d # r \<Rightarrow> if d = q then map_option (\<lambda>(v, t). (q # v, t)) (read_delimited q r) else Some ([], s))"

lemma read_delimited_doubled:
  "t = [] \<or> hd t \<noteq> q \<Longrightarrow> read_delimited q (replace_char q [q, q] v @ q # t) = Some (v, t)"
  by (induction v) (auto split: list.splits)

lemma read_delimited_shortens: "read_delimited q s = Some (v, t) \<Longrightarrow> length v + length t < length s"
  by (induction q s arbitrary: v t rule: read_delimited.induct) (auto split: if_splits list.splits, fastforce+)

text \<open>A name that holds its own delimiter does not survive being wrapped without doubling.\<close>

lemma read_delimited_raw: "q \<in> set v \<Longrightarrow> read_delimited q (v @ [q]) \<noteq> Some (v, [])"
proof (induction v rule: length_induct)
  case (1 v)
  then obtain c w where v: "v = c # w" by (cases v) auto
  show ?case
  proof (cases "c = q")
    case False
    then have "read_delimited q (w @ [q]) \<noteq> Some (w, [])" using 1 v by auto
    then show ?thesis using False v by auto
  next
    case True
    show ?thesis
    proof (cases w)
      case Nil
      then show ?thesis using True v by simp
    next
      case (Cons d u)
      then show ?thesis using True v read_delimited_shortens [of q "u @ [q]" w "[]"] by auto
    qed
  qed
qed

section \<open>Properties\<close>

text \<open>
  Names in the statements of PostgreSQL: the schema statement quotes its name so that the server
  reads back exactly the trimmed name and nothing follows it, and is empty for a blank name; the
  statement that creates the database wraps its name without doubling quotes, so a name with a
  double quote is not read back.
\<close>

theorem identifier_quoting:
  "(trim_space s \<noteq> [] \<longrightarrow>
      (\<exists>r. postgresCreateSchemaSQL s = ''CREATE SCHEMA IF NOT EXISTS '' @ dquote # r
         \<and> read_delimited dquote r = Some (trim_space s, [])))
   \<and> (trim_space s = [] \<longrightarrow> postgresCreateSchemaSQL s = [])
   \<and> (\<exists>c r. lookupDBCreator DatabaseTypePostgres = Some c
         \<and> CreateDatabaseSQL c s = ''CREATE DATABASE '' @ dquote # r
         \<and> (read_delimited dquote r = Some (s, []) \<longleftrightarrow> dquote \<notin> set s))"
proof -
  have raw: "read_delimited dquote (s @ [dquote]) = Some (s, [])" if "dquote \<notin> set s"
  proof -
    have "replace_char dquote [dquote, dquote] s = s" using that by (induction s) auto
    then show ?thesis using read_delimited_doubled [of "[]" dquote s] by simp
  qed
  have c: "lookupDBCreator DatabaseTypePostgres = dbCreator_of postgresDialect"
    by (simp add: lookupDBCreator_def lookupDialect_def dialectRegistry_table)
  have "read_delimited dquote (s @ [dquote]) = Some (s, []) \<longleftrightarrow> dquote \<notin> set s"
    using raw read_delimited_raw by blast
  then show ?thesis
    unfolding c using read_delimited_doubled [of "[]" dquote "trim_space s"]
    by (simp add: postgresCreateSchemaSQL_def Let_def postgresDialect_def)
qed

theorem identifier_quoting_witness:
  "\<exists>r. postgresCreateSchemaSQL (''a'' @ [dquote] @ ''b'') = ''CREATE SCHEMA IF NOT EXISTS '' @ dquote # r
     \<and> read_delimited dquote r = Some (''a'' @ [dquote] @ ''b'', [])"
proof -
  have t: "trim_space (''a'' @ [dquote] @ ''b'') = ''a'' @ [dquote] @ ''b''"
    by (rule trim_space_visible) (simp_all add: is_ascii_space_def dquote_def)
  show ?thesis using identifier_quoting [of "''a'' @ [dquote] @ ''b''", THEN conjunct1, rule_format] unfolding t by blast
qed

end
