(* ===== verification/Migrate_Ensure.thy ===== *)
theory Migrate_Ensure
  imports Migrate_Dialect
begin

text \<open>
  The package \<open>gormx/migrate\<close>, third part: \<open>EnsureDatabase\<close>, which creates a missing database, and
  a schema where the dialect has them, through temporary entries of the registry of databases. The
  server is a parameter: what opening, executing and counting do to it.
\<close>

section \<open>The server\<close>

record ('db, 's) server =
  sv_open :: "DatabaseType \<times> string \<Rightarrow> string + 'db"
  sv_resolver :: "'db \<Rightarrow> string list \<Rightarrow> string list \<Rightarrow> string option"
  sv_close :: "'db \<Rightarrow> string option"
  sv_exec :: "'db \<Rightarrow> string \<Rightarrow> 's \<Rightarrow> string option \<times> 's"
  sv_count :: "'db \<Rightarrow> string \<Rightarrow> string \<Rightarrow> 's \<Rightarrow> string + int"

datatype ensure_error =
    ErrAutoCreateUnsupported | ConnectFailed db_error | CreateFailed string
  | ConnectTargetFailed db_error | CreateSchemaFailed string

section \<open>Operations\<close>

definition dbExists :: "('db, 's) server \<Rightarrow> 'db \<Rightarrow> dbCreator \<Rightarrow> string \<Rightarrow> 's \<Rightarrow> bool" where
  "dbExists sv db creator dbName s =
     (let q = DBExistsQuery creator in
      if q = [] then False
      else case sv_count sv db q dbName s of Inl _ \<Rightarrow> False | Inr n \<Rightarrow> n > 0)"

definition admin_config :: "string \<Rightarrow> Connection \<Rightarrow> string \<Rightarrow> Config" where
  "admin_config name c database =
     \<lparr>MaxOpenConn = 0, MaxIdleConn = 0, ConnMaxLifeTime = 0, ConnMaxIdleTime = 0,
      DBName = name, LogMode = ''error'',
      conn = c\<lparr>Database := database, DSN := ''''\<rparr>, Masters = [], Replicas = []\<rparr>"

definition ensureDatabaseSchema ::
  "('db, 's) server \<Rightarrow> Connection \<Rightarrow> string \<Rightarrow> string \<Rightarrow> 'db dbMap \<times> 's \<Rightarrow>
   ensure_error option \<times> 'db dbMap \<times> 's" where
  "ensureDatabaseSchema sv c database schemaSQL = (\<lambda>(m, s).
     (case InitConfig (sv_open sv) (sv_resolver sv) (Some (admin_config ''__ensure_schema__'' c database)) m of
        (Inl e, _, m1) \<Rightarrow> (Some (ConnectTargetFailed e), m1, s)
      | (Inr db, _, m1) \<Rightarrow>
          let (err, s1) = sv_exec sv db schemaSQL s;
              m2 = snd (Close (sv_close sv) ''__ensure_schema__'' m1)
          in (map_option CreateSchemaFailed err, m2, s1)))"

definition EnsureDatabase ::
  "('db, 's) server \<Rightarrow> Connection \<Rightarrow> string \<Rightarrow> 'db dbMap \<times> 's \<Rightarrow>
   (bool \<times> ensure_error option) \<times> 'db dbMap \<times> 's" where
  "EnsureDatabase sv c database = (\<lambda>(m, s).
     (if DBType c = DatabaseTypeSQLite then ((False, None), m, s)
      else
        case lookupDBCreator (DBType c) of
          None \<Rightarrow> ((False, Some ErrAutoCreateUnsupported), m, s)
        | Some creator \<Rightarrow>
            (case InitConfig (sv_open sv) (sv_resolver sv)
                    (Some (admin_config ''__ensure_db__'' c (AdminDatabase creator))) m of
               (Inl e, _, m1) \<Rightarrow> ((False, Some (ConnectFailed e)), m1, s)
             | (Inr adminDB, _, m1) \<Rightarrow>
                 let closed = (\<lambda>m'. snd (Close (sv_close sv) ''__ensure_db__'' m')) in
                 (case (if dbExists sv adminDB creator database s then (False, None, s)
                        else (case sv_exec sv adminDB (CreateDatabaseSQL creator database) s of
                                (Some e, s1) \<Rightarrow> (False, Some e, s1)
                              | (None, s1) \<Rightarrow> (True, None, s1))) of
                    (created, Some e, s1) \<Rightarrow> ((False, Some (CreateFailed e)), closed m1, s1)
                  | (created, None, s1) \<Rightarrow>
                      (case lookupSchemaCreator (DBType c) of
                         None \<Rightarrow> ((created, None), closed m1, s1)
                       | Some schema \<Rightarrow>
                           let schemaSQL = schema (Schema c) in
                           if schemaSQL = [] then ((created, None), closed m1, s1)
                           else
                             let (err, m2, s2) = ensureDatabaseSchema sv c database schemaSQL (m1, s1)
                             in ((created, err), closed m2, s2))))))"

section \<open>Facts\<close>

text \<open>A temporary entry comes and goes.\<close>

lemma InitConfig_named:
  assumes "InitConfig op us (Some c) m = (r, c', m')" and "DBName c \<noteq> []" and "m (DBName c) = None"
  shows "m' = m \<or> (\<exists>db. r = Inr db \<and> m' = m(DBName c \<mapsto> db))"
  using assms
  by (auto simp: InitConfig_def extractDSN_def Let_def defaultConfig_def
      split: option.splits prod.splits sum.splits if_splits)

lemma Close_named: "name \<noteq> [] \<Longrightarrow> m name = None \<Longrightarrow> snd (Close cl name (m(name \<mapsto> db))) = m"
  by (simp add: Close_def fun_upd_idem)

lemma Close_absent: "m name = None \<Longrightarrow> snd (Close cl name m) = m"
  by (simp add: Close_def)

lemma Close_frame: "n \<noteq> name \<Longrightarrow> snd (Close cl name m) n = m n"
  by (auto simp: Close_def split: option.splits)

lemma ensureDatabaseSchema_registry:
  assumes "m ''__ensure_schema__'' = None"
  shows "fst (snd (ensureDatabaseSchema sv c database q (m, s))) = m"
proof -
  obtain r c' m1 where i: "InitConfig (sv_open sv) (sv_resolver sv)
      (Some (admin_config ''__ensure_schema__'' c database)) m = (r, c', m1)"
    by (metis surj_pair)
  have n: "DBName (admin_config ''__ensure_schema__'' c database) = ''__ensure_schema__''"
    by (simp add: admin_config_def)
  have "m1 = m \<or> (\<exists>db. r = Inr db \<and> m1 = m(''__ensure_schema__'' \<mapsto> db))"
    using InitConfig_named [OF i] n assms by simp
  moreover have "fst (InitConfig op us cfg m) = Inl e \<Longrightarrow> snd (snd (InitConfig op us cfg m)) = m" for op us cfg e
    by (rule InitConfig_failed)
  ultimately show ?thesis
    using i assms
    by (auto simp: ensureDatabaseSchema_def Close_named Close_absent split: sum.splits prod.splits)
qed


lemma ensureDatabaseSchema_frame:
  assumes "n \<noteq> ''__ensure_schema__''"
  shows "fst (snd (ensureDatabaseSchema sv c database q (m, s))) n = m n"
proof -
  obtain r c' m1 where i: "InitConfig (sv_open sv) (sv_resolver sv)
      (Some (admin_config ''__ensure_schema__'' c database)) m = (r, c', m1)"
    by (metis surj_pair)
  have "m1 n = m n"
    using i assms
    by (auto simp: InitConfig_def admin_config_def extractDSN_def Let_def defaultConfig_def
        split: option.splits prod.splits sum.splits if_splits)
  then show ?thesis
    using i assms by (auto simp: ensureDatabaseSchema_def Close_frame split: sum.splits prod.splits)
qed

text \<open>The types for which nothing is opened.\<close>

lemma EnsureDatabase_refused:
  assumes "DBType c = DatabaseTypeSQLite \<or> lookupDBCreator (DBType c) = None"
  shows "EnsureDatabase sv c database (m, s) =
      (if DBType c = DatabaseTypeSQLite then ((False, None), m, s)
       else ((False, Some ErrAutoCreateUnsupported), m, s))"
proof (cases "DBType c = DatabaseTypeSQLite")
  case True then show ?thesis unfolding EnsureDatabase_def by (simp only: case_prod_conv simp_thms if_True)
next
  case False then show ?thesis using assms unfolding EnsureDatabase_def by (simp only: case_prod_conv simp_thms if_False option.case)
qed

section \<open>Properties\<close>

text \<open>
  C39. \<open>EnsureDatabase\<close> leaves the registry of databases as it was when its two temporary names are
  free; it does nothing for SQLite and refuses the types that cannot create a database without
  touching the server; it reports a creation only when the database was missing and the creating
  statement succeeded.
\<close>

theorem EnsureDatabase_spec:
  assumes "EnsureDatabase sv c database (m, s) = ((created, err), m', s')"
    and "m ''__ensure_db__'' = None" and "m ''__ensure_schema__'' = None"
  shows "m' = m
     \<and> (DBType c = DatabaseTypeSQLite \<longrightarrow> \<not> created \<and> err = None \<and> s' = s)
     \<and> (DBType c = DatabaseTypeOracle \<or> DBType c = DatabaseTypeDM \<longrightarrow>
          \<not> created \<and> err = Some ErrAutoCreateUnsupported \<and> s' = s)
     \<and> (created \<longrightarrow> (\<exists>creator db. lookupDBCreator (DBType c) = Some creator
          \<and> \<not> dbExists sv db creator database s
          \<and> fst (sv_exec sv db (CreateDatabaseSQL creator database) s) = None))"
proof (cases "DBType c = DatabaseTypeSQLite \<or> lookupDBCreator (DBType c) = None")
  case True
  have ne: "DatabaseTypeOracle \<noteq> DatabaseTypeSQLite" "DatabaseTypeDM \<noteq> DatabaseTypeSQLite"
    by (simp_all add: db_type_defs)
  have r: "((created, err), m', s') =
      (if DBType c = DatabaseTypeSQLite then ((False, None), m, s)
       else ((False, Some ErrAutoCreateUnsupported), m, s))"
    using EnsureDatabase_refused [OF True, of sv database m s] unfolding assms(1) .
  show ?thesis
  proof (cases "DBType c = DatabaseTypeSQLite")
    case True then show ?thesis using r ne by simp
  next
    case False then show ?thesis using r by simp
  qed
next
  case False
  then obtain creator where lc: "lookupDBCreator (DBType c) = Some creator" by blast
  then have nt: "DBType c \<noteq> DatabaseTypeOracle" "DBType c \<noteq> DatabaseTypeDM"
    using lookups(1) [of "DBType c"] by (auto simp: db_type_defs)
  let ?cfg = "admin_config ''__ensure_db__'' c (AdminDatabase creator)"
  obtain r c' m1 where i: "InitConfig (sv_open sv) (sv_resolver sv) (Some ?cfg) m = (r, c', m1)"
    by (metis surj_pair)
  have n: "DBName ?cfg = ''__ensure_db__''" by (simp add: admin_config_def)
  show ?thesis
  proof (cases r)
    case (Inl e)
    then have "m1 = m" using InitConfig_failed [of "sv_open sv" "sv_resolver sv" "Some ?cfg" m e] i by simp
    then show ?thesis using assms False nt lc i Inl by (simp add: EnsureDatabase_def)
  next
    case (Inr db)
    have m1: "m1 = m \<or> m1 = m(''__ensure_db__'' \<mapsto> db)"
      using InitConfig_named [OF i] n assms(2) Inr by auto
    have closed: "snd (Close (sv_close sv) ''__ensure_db__'' m1) = m"
      using m1 assms(2) Close_absent [of m] Close_named [of "''__ensure_db__''" m] by auto
    have sch: "fst (snd (ensureDatabaseSchema sv c database q (m1, t))) = m1" for q t
      using m1 assms(3) by (intro ensureDatabaseSchema_registry) auto
    define step where "step = (if dbExists sv db creator database s then (False, None, s)
        else (case sv_exec sv db (CreateDatabaseSQL creator database) s of
                (Some e, s1) \<Rightarrow> (False, Some e, s1) | (None, s1) \<Rightarrow> (True, None, s1)))"
    obtain cr e s1 where st: "step = (cr, e, s1)" by (metis surj_pair)
    have cr: "cr \<longrightarrow> \<not> dbExists sv db creator database s \<and> fst (sv_exec sv db (CreateDatabaseSQL creator database) s) = None"
      using st by (auto simp: step_def split: if_splits option.splits prod.splits)
    have "fst (snd (EnsureDatabase sv c database (m, s))) = m
        \<and> (fst (fst (EnsureDatabase sv c database (m, s))) \<longrightarrow> cr)"
    proof (cases e)
      case (Some x)
      then show ?thesis
        using False lc i Inr st closed by (simp add: EnsureDatabase_def step_def [symmetric])
    next
      case None
      show ?thesis
      proof (cases "lookupSchemaCreator (DBType c)")
        case None
        then show ?thesis
          using \<open>e = None\<close> False lc i Inr st closed by (simp add: EnsureDatabase_def step_def [symmetric])
      next
        case (Some f)
        obtain x m2 s2 where q: "ensureDatabaseSchema sv c database (f (Schema c)) (m1, s1) = (x, m2, s2)"
          by (metis surj_pair)
        then have "m2 = m1" using sch [of "f (Schema c)" s1] by simp
        then show ?thesis
          using Some q \<open>e = None\<close> False lc i Inr st closed
          by (simp add: EnsureDatabase_def step_def [symmetric] Let_def)
      qed
    qed
    then have "m' = m \<and> (created \<longrightarrow> cr)" unfolding assms(1) by simp
    then show ?thesis using cr False nt lc by blast
  qed
qed

definition sample_server :: "(string, string list) server" where
  "sample_server = \<lparr>sv_open = (\<lambda>(t, d). Inr t), sv_resolver = (\<lambda>_ _ _. None), sv_close = (\<lambda>_. None),
     sv_exec = (\<lambda>db q s. (None, s @ [q])), sv_count = (\<lambda>db q n s. Inr 0)\<rparr>"

definition mysql_conn :: Connection where
  "mysql_conn = sample_conn\<lparr>DBType := DatabaseTypeMySQL, Host := ''db'', Port := 3306, Args := []\<rparr>"

lemma mysql_admin_dsn: "fst (genDSN (mysql_conn\<lparr>Database := [], DSN := []\<rparr>)) \<noteq> []"
proof -
  let ?c = "mysql_conn\<lparr>Database := [], DSN := []\<rparr>"
  have "fst (genDSN ?c) = appendArgs mysql_dsn (render mysql_dsn ?c) (Args ?c)"
    by (rule genDSN_registered) (simp_all add: mysql_conn_def dsnDialects_table)
  then show ?thesis by (simp add: mysql_shape appendArgs_def mysql_conn_def)
qed

lemma mysql_lookups:
  "lookupDBCreator DatabaseTypeMySQL = dbCreator_of mysqlDialect"
  "lookupSchemaCreator DatabaseTypeMySQL = None"
  by (simp_all add: lookupDBCreator_def lookupSchemaCreator_def lookupDialect_def dialectRegistry_table
      mysqlDialect_def db_type_defs)

lemma sample_ensure:
  "EnsureDatabase sample_server mysql_conn ''app'' (Map.empty, []) =
     ((True, None), Map.empty, [''CREATE DATABASE IF NOT EXISTS '' @ [CHR 0x60] @ ''app'' @ [CHR 0x60]
         @ '' DEFAULT CHARACTER SET utf8mb4''])"
proof -
  let ?c = "mysql_conn\<lparr>Database := [], DSN := []\<rparr>"
  have e: "extractDSN (admin_config ''__ensure_db__'' mysql_conn []) =
      ((fst (genDSN ?c), [], []), (admin_config ''__ensure_db__'' mysql_conn [])\<lparr>conn := snd (genDSN ?c)\<rparr>)"
    by (simp add: extractDSN_def admin_config_def split: prod.splits)
  have t: "DBType (snd (genDSN ?c)) = DatabaseTypeMySQL"
    by (simp add: genDSN_DBType) (simp add: mysql_conn_def)
  have "InitConfig (sv_open sample_server) (sv_resolver sample_server)
      (Some (admin_config ''__ensure_db__'' mysql_conn [])) Map.empty =
      (Inr DatabaseTypeMySQL, Some (defaultConfig ((admin_config ''__ensure_db__'' mysql_conn [])\<lparr>conn := snd (genDSN ?c)\<rparr>)),
       [''__ensure_db__'' \<mapsto> DatabaseTypeMySQL])"
    using mysql_admin_dsn t
    by (simp add: InitConfig_def e getDialector_def sample_server_def)
       (simp add: admin_config_def defaultConfig_def)
  moreover have "DBType mysql_conn = DatabaseTypeMySQL" by (simp add: mysql_conn_def)
  moreover have "DatabaseTypeMySQL \<noteq> DatabaseTypeSQLite" by (simp add: db_type_defs)
  ultimately show ?thesis
    by (simp add: EnsureDatabase_def mysql_lookups mysqlDialect_def dbExists_def Close_def)
       (simp add: sample_server_def mysql_lookups)
qed

theorem EnsureDatabase_spec_witness:
  "\<exists>creator db. lookupDBCreator (DBType mysql_conn) = Some creator
      \<and> \<not> dbExists sample_server db creator ''app'' []
      \<and> fst (sv_exec sample_server db (CreateDatabaseSQL creator ''app'') []) = None"
  using EnsureDatabase_spec [OF sample_ensure] by simp

end
