(* ===== verification/Migrate_Lock.thy ===== *)
theory Migrate_Lock
  imports Migrate_Dialect "HOL-Library.Word"
begin

unbundle bit_operations_syntax

text \<open>
  The package \<open>gormx/migrate\<close>, fourth part (\<open>lock.go\<close>): the locks that let one instance migrate at
  a time. The advisory lock is the database's own, reached through one connection; the table lock
  is a row whose primary key only one instance can insert, refreshed while it is held and removed
  by others when it is stale. Time is in nanoseconds.
\<close>

section \<open>The key of an advisory lock\<close>

text \<open>\<open>hash/fnv\<close>, the 64-bit FNV-1a hash, and the conversion of its value to \<open>int64\<close>.\<close>

definition fnv_step :: "64 word \<Rightarrow> char \<Rightarrow> 64 word" where
  "fnv_step h c = (h XOR word_of_nat (byte c)) * 1099511628211"

definition fnv64a :: "string \<Rightarrow> 64 word" where
  "fnv64a s = foldl fnv_step 14695981039346656037 s"

definition lockKeyInt64 :: "string \<Rightarrow> int" where
  "lockKeyInt64 key = sint (fnv64a key)"

section \<open>The advisory lock\<close>

definition LockSQL :: "lockDialect \<Rightarrow> string" where
  "LockSQL d = (case d of
     postgresLockDialect \<Rightarrow> ''SELECT pg_advisory_lock($1)''
   | mysqlLockDialect \<Rightarrow> ''SELECT GET_LOCK(?, 55)''
   | sqlserverLockDialect \<Rightarrow> ''DECLARE @r int; EXEC @r = sp_getapplock @Resource = @p1, @LockMode = '' @ [squote] @
       ''Exclusive'' @ [squote] @ '', @LockOwner = '' @ [squote] @ ''Session'' @ [squote] @
       '', @LockTimeout = 55000; SELECT @r'')"

definition UnlockSQL :: "lockDialect \<Rightarrow> string" where
  "UnlockSQL d = (case d of
     postgresLockDialect \<Rightarrow> ''SELECT pg_advisory_unlock($1)''
   | mysqlLockDialect \<Rightarrow> ''SELECT RELEASE_LOCK(?)''
   | sqlserverLockDialect \<Rightarrow> ''EXEC sp_releaseapplock @Resource = @p1, @LockOwner = '' @ [squote] @
       ''Session'' @ [squote])"

text \<open>\<open>lockResultChecker\<close>: the dialects that answer with a number; PostgreSQL does not.\<close>

definition LockAcquired :: "lockDialect \<Rightarrow> (int \<Rightarrow> bool) option" where
  "LockAcquired d = (case d of
     postgresLockDialect \<Rightarrow> None
   | mysqlLockDialect \<Rightarrow> Some (\<lambda>r. r = 1)
   | sqlserverLockDialect \<Rightarrow> Some (\<lambda>r. r \<ge> 0))"

text \<open>
  The loop of \<open>Lock\<close> over the server's answers: each is an error or a nullable number, and comes
  with whether the context had ended by then. \<open>Waiting\<close> means the answers ran out while the loop
  goes on. The number counts the statements that were sent.
\<close>

datatype lock_outcome = Acquired nat | LockFailed nat | Waiting nat

fun lock_loop :: "(int \<Rightarrow> bool) \<Rightarrow> nat \<Rightarrow> ((string + int option) \<times> bool) list \<Rightarrow> lock_outcome" where
  "lock_loop acquired n [] = Waiting n"
| "lock_loop acquired n ((ans, ctx_done) # rest) =
     (case ans of
        Inl e \<Rightarrow> LockFailed (Suc n)
      | Inr r \<Rightarrow>
          if (case r of None \<Rightarrow> False | Some v \<Rightarrow> acquired v) then Acquired (Suc n)
          else
            let timedOut = (case r of None \<Rightarrow> False | Some v \<Rightarrow> v = 0 \<or> v = -1) in
            if \<not> timedOut \<or> ctx_done then LockFailed (Suc n)
            else lock_loop acquired (Suc n) rest)"

definition advisory_Lock :: "lockDialect \<Rightarrow> ((string + int option) \<times> bool) list \<Rightarrow> lock_outcome" where
  "advisory_Lock d answers =
     (case LockAcquired d of
        Some checker \<Rightarrow> lock_loop checker 0 answers
      | None \<Rightarrow> (case answers of
                   [] \<Rightarrow> Waiting 0
                 | (Inl e, _) # _ \<Rightarrow> LockFailed 1
                 | (Inr _, _) # _ \<Rightarrow> Acquired 1))"

text \<open>
  The server's side, as its documentation has it: a key is held by one session at most, a try
  succeeds when the key is free or already this session's, and a release by another session
  changes nothing. \<open>Unlock\<close> sends the release and closes the connection, which would release it
  too; without a connection it does nothing.
\<close>

type_synonym 'p advisory_server = "int \<Rightarrow> 'p option"

definition advisory_try :: "int \<Rightarrow> 'p \<Rightarrow> 'p advisory_server \<Rightarrow> bool \<times> 'p advisory_server" where
  "advisory_try key p s =
     (case s key of
        None \<Rightarrow> (True, s(key \<mapsto> p))
      | Some q \<Rightarrow> (p = q, s))"

definition advisory_Unlock :: "int \<Rightarrow> 'p option \<Rightarrow> 'p advisory_server \<Rightarrow> 'p advisory_server" where
  "advisory_Unlock key con s =
     (case con of None \<Rightarrow> s | Some p \<Rightarrow> if s key = Some p then s(key := None) else s)"

section \<open>The table lock\<close>

text \<open>The table \<open>schema_migrations_lock\<close>: from a key to who locked it and when.\<close>

type_synonym 'p lock_table = "string \<rightharpoonup> ('p \<times> int)"

definition staleLockThreshold :: int where "staleLockThreshold = 5 * 60 * 1000000000"
definition tableLockRetryInterval :: int where "tableLockRetryInterval = 2 * 1000000000"

definition lock_insert :: "string \<Rightarrow> 'p \<Rightarrow> int \<Rightarrow> 'p lock_table \<Rightarrow> bool \<times> 'p lock_table" where
  "lock_insert key p now t =
     (case t key of None \<Rightarrow> (True, t(key \<mapsto> (p, now))) | Some _ \<Rightarrow> (False, t))"

definition lock_query :: "string \<Rightarrow> 'p lock_table \<Rightarrow> int option" where
  "lock_query key t = map_option snd (t key)"

definition is_stale :: "int \<Rightarrow> int option \<Rightarrow> bool" where
  "is_stale clock lockedAt = (case lockedAt of None \<Rightarrow> False | Some a \<Rightarrow> clock - a > staleLockThreshold)"

definition lock_evict :: "string \<Rightarrow> int \<Rightarrow> 'p lock_table \<Rightarrow> 'p lock_table" where
  "lock_evict key lockedAt t =
     (case t key of Some (q, a) \<Rightarrow> if a = lockedAt then t(key := None) else t | None \<Rightarrow> t)"

definition lock_renew :: "string \<Rightarrow> 'p \<Rightarrow> int \<Rightarrow> 'p lock_table \<Rightarrow> 'p lock_table" where
  "lock_renew key p now t =
     (case t key of Some (q, a) \<Rightarrow> if q = p then t(key \<mapsto> (p, now)) else t | None \<Rightarrow> t)"

definition table_Unlock :: "string \<Rightarrow> 'p \<Rightarrow> 'p lock_table \<Rightarrow> 'p lock_table" where
  "table_Unlock key p t =
     (case t key of Some (q, a) \<Rightarrow> if q = p then t(key := None) else t | None \<Rightarrow> t)"

text \<open>
  One round of \<open>Lock\<close> that nothing interrupts: it takes the lock, evicts a stale one (and the loop
  goes round at once), or waits.
\<close>

datatype lock_round = Took | Evicted | MustWait

definition table_Lock_round :: "string \<Rightarrow> 'p \<Rightarrow> int \<Rightarrow> 'p lock_table \<Rightarrow> lock_round \<times> 'p lock_table" where
  "table_Lock_round key p now t =
     (case lock_insert key p now t of
        (True, t') \<Rightarrow> (Took, t')
      | (False, t') \<Rightarrow>
          let lockedAt = lock_query key t' in
          if is_stale now lockedAt then (Evicted, lock_evict key (the lockedAt) t')
          else (MustWait, t'))"

text \<open>\<open>Lock\<close> over the times at which its rounds run; the context ends with the list.\<close>

fun table_Lock :: "string \<Rightarrow> 'p \<Rightarrow> int list \<Rightarrow> 'p lock_table \<Rightarrow> bool \<times> 'p lock_table" where
  "table_Lock key p [] t = (False, t)"
| "table_Lock key p (now # later) t =
     (case table_Lock_round key p now t of
        (Took, t') \<Rightarrow> (True, t')
      | (_, t') \<Rightarrow> table_Lock key p later t')"

section \<open>Instances that contend for the table lock\<close>

text \<open>
  The statements of several instances interleave. An instance reads the clock and inserts; refused,
  it queries the row, judges its age by the clock of that moment, and either sleeps or evicts the
  row it saw. A holder renews, releases, leaves without releasing (the release failed) or crashes.
\<close>

datatype phase = Idle | Ready int | Refused | Saw "int option" | Evicting int | Holding | Crashed

record 'p lock_state =
  clock :: int
  ltable :: "'p lock_table"
  phases :: "'p \<Rightarrow> phase"

inductive lock_step :: "string \<Rightarrow> 'p lock_state \<Rightarrow> 'p lock_state \<Rightarrow> bool" for key where
  Tick: "0 \<le> d \<Longrightarrow> lock_step key s (s\<lparr>clock := clock s + d\<rparr>)"
| ReadClock: "phases s p = Idle \<Longrightarrow> lock_step key s (s\<lparr>phases := (phases s)(p := Ready (clock s))\<rparr>)"
| Insert: "phases s p = Ready now \<Longrightarrow> lock_insert key p now (ltable s) = (True, t) \<Longrightarrow>
    lock_step key s (s\<lparr>ltable := t, phases := (phases s)(p := Holding)\<rparr>)"
| Refuse: "phases s p = Ready now \<Longrightarrow> lock_insert key p now (ltable s) = (False, t) \<Longrightarrow>
    lock_step key s (s\<lparr>phases := (phases s)(p := Refused)\<rparr>)"
| Query: "phases s p = Refused \<Longrightarrow>
    lock_step key s (s\<lparr>phases := (phases s)(p := Saw (lock_query key (ltable s)))\<rparr>)"
| JudgeStale: "phases s p = Saw (Some a) \<Longrightarrow> is_stale (clock s) (Some a) \<Longrightarrow>
    lock_step key s (s\<lparr>phases := (phases s)(p := Evicting a)\<rparr>)"
| JudgeFresh: "phases s p = Saw l \<Longrightarrow> \<not> is_stale (clock s) l \<Longrightarrow>
    lock_step key s (s\<lparr>phases := (phases s)(p := Idle)\<rparr>)"
| Evict: "phases s p = Evicting a \<Longrightarrow>
    lock_step key s (s\<lparr>ltable := lock_evict key a (ltable s), phases := (phases s)(p := Idle)\<rparr>)"
| Renew: "phases s p \<noteq> Crashed \<Longrightarrow> now \<le> clock s \<Longrightarrow>
    lock_step key s (s\<lparr>ltable := lock_renew key p now (ltable s)\<rparr>)"
| Release: "phases s p = Holding \<Longrightarrow>
    lock_step key s (s\<lparr>ltable := table_Unlock key p (ltable s), phases := (phases s)(p := Idle)\<rparr>)"
| Abandon: "phases s p = Holding \<Longrightarrow> lock_step key s (s\<lparr>phases := (phases s)(p := Idle)\<rparr>)"
| Crash: "lock_step key s (s\<lparr>phases := (phases s)(p := Crashed)\<rparr>)"

inductive_cases lock_stepE: "lock_step key s s'"

text \<open>Runs from a state in which nobody is at work, whatever row an earlier run has left.\<close>

inductive lock_run :: "string \<Rightarrow> 'p lock_state \<Rightarrow> bool" for key where
  Start: "(\<forall>p. phases s p = Idle) \<Longrightarrow> lock_run key s"
| Step: "lock_run key s \<Longrightarrow> lock_step key s s' \<Longrightarrow> lock_run key s'"

text \<open>
  What the holder's renewals are for: its row is never older than the threshold. A run is timely if
  this holds all along.
\<close>

definition timely :: "string \<Rightarrow> 'p lock_state \<Rightarrow> bool" where
  "timely key s \<longleftrightarrow> (\<forall>p a. phases s p = Holding \<longrightarrow> ltable s key = Some (p, a) \<longrightarrow> clock s - a \<le> staleLockThreshold)"

inductive timely_run :: "string \<Rightarrow> 'p lock_state \<Rightarrow> bool" for key where
  Start: "(\<forall>p. phases s p = Idle) \<Longrightarrow> timely_run key s"
| Step: "timely_run key s \<Longrightarrow> lock_step key s s' \<Longrightarrow> timely key s' \<Longrightarrow> timely_run key s'"

section \<open>Facts on the table lock\<close>

definition lock_inv :: "string \<Rightarrow> 'p lock_state \<Rightarrow> bool" where
  "lock_inv key s \<longleftrightarrow>
     (\<forall>p. phases s p = Holding \<longrightarrow> (\<exists>a. ltable s key = Some (p, a)))
     \<and> (\<forall>p a. phases s p = Evicting a \<longrightarrow> clock s - a > staleLockThreshold)"

lemma timely_run_timely: "timely_run key s \<Longrightarrow> timely key s"
  by (erule timely_run.cases) (auto simp: timely_def)

lemma lock_step_inv:
  assumes "lock_step key s s'" and "lock_inv key s" and "timely key s"
  shows "lock_inv key s'"
  using assms
proof (cases rule: lock_step.cases)
  case (Tick d)
  have "staleLockThreshold < clock s + d - a" if "phases s p = Evicting a" for p a
    using that assms(2) Tick by (metis add.commute add_diff_eq add_increasing less_le_trans lock_inv_def order_refl)
  then show ?thesis using Tick assms(2) by (simp add: lock_inv_def)
next
  case (Insert p now t)
  then have "ltable s key = None" "t = (ltable s)(key \<mapsto> (p, now))"
    by (auto simp: lock_insert_def split: option.splits)
  then show ?thesis using Insert assms(2) by (auto simp: lock_inv_def)
next
  case (Evict p a)
  have "ltable s key \<noteq> Some (q, a)" if "phases s q = Holding" for q
    using that Evict assms(2,3) unfolding lock_inv_def timely_def by (metis not_le)
  then show ?thesis using Evict assms(2)
    by (auto simp: lock_inv_def lock_evict_def split: option.splits)
next
  case (Release p)
  then show ?thesis using assms(2)
    by (auto simp: lock_inv_def table_Unlock_def split: option.splits)
qed (auto simp: lock_inv_def lock_renew_def is_stale_def split: option.splits)

lemma timely_run_inv: "timely_run key s \<Longrightarrow> lock_inv key s"
proof (induction rule: timely_run.induct)
  case (Start s) then show ?case by (simp add: lock_inv_def)
next
  case (Step s s') then show ?case using lock_step_inv timely_run_timely by blast
qed


section \<open>The contract of a lock\<close>

text \<open>
  What the runner of migrations needs of a lock, whichever kind it is: \<open>try\<close> is granted only
  when nobody else holds it, \<open>release\<close> frees one's own lock and no other.
\<close>

locale migration_lock =
  fixes try_lock :: "'p \<Rightarrow> 's \<Rightarrow> bool \<times> 's"
    and release :: "'p \<Rightarrow> 's \<Rightarrow> 's"
    and holder :: "'s \<Rightarrow> 'p option"
  assumes granted: "try_lock p s = (True, s') \<Longrightarrow> holder s' = Some p \<and> (holder s = None \<or> holder s = Some p)"
    and refused: "try_lock p s = (False, s') \<Longrightarrow> s' = s \<and> holder s \<noteq> None"
    and release_own: "holder s = Some p \<Longrightarrow> holder (release p s) = None"
    and release_other: "holder s \<noteq> Some p \<Longrightarrow> release p s = s"
begin

lemma free_granted:
  assumes "holder s = None"
  shows "\<exists>s'. try_lock p s = (True, s') \<and> holder s' = Some p"
proof -
  obtain b s' where t: "try_lock p s = (b, s')" by (cases "try_lock p s")
  then have b using refused [of p s s'] assms by (cases b) auto
  then show ?thesis using t granted [of p s s'] by simp
qed

lemma try_release: "holder s = None \<Longrightarrow> holder (release p (snd (try_lock p s))) = None"
  using free_granted [of s p] release_own [of _ p] by auto

lemma other_waits:
  assumes "holder s = Some q" and "q \<noteq> p"
  shows "try_lock p s = (False, s)"
proof -
  obtain b s' where t: "try_lock p s = (b, s')" by (cases "try_lock p s")
  then have "\<not> b" using granted [of p s s'] assms by (cases b) auto
  then show ?thesis using t refused [of p s s'] by simp
qed

end

text \<open>The two locks of the code keep the contract.\<close>

interpretation advisory: migration_lock "advisory_try key" "\<lambda>p. advisory_Unlock key (Some p)" "\<lambda>s. s key"
  for key
  by unfold_locales (auto simp: advisory_try_def advisory_Unlock_def split: option.splits if_splits)

interpretation ltab: migration_lock "\<lambda>p. lock_insert key p now" "table_Unlock key" "\<lambda>t. map_option fst (t key)"
  for key now
  by unfold_locales (auto simp: lock_insert_def table_Unlock_def split: option.splits if_splits)

section \<open>Facts on keys and loops\<close>

text \<open>The prime is odd, so a step of the hash loses nothing.\<close>

lemma xor_right_cancel: "(a :: 64 word) XOR x = b XOR x \<longleftrightarrow> a = b"
  by (auto simp: bit_eq_iff bit_xor_iff)
lemma fnv_prime_inverse: "(1099511628211 :: 64 word) * 14886173955864302971 = 1"
  unfolding word_uint_eq_iff uint_word_ariths by simp
lemma fnv_mult_cancel: "(a :: 64 word) * 1099511628211 = b * 1099511628211 \<longleftrightarrow> a = b"
proof
  assume "a * 1099511628211 = b * 1099511628211"
  then have "a * (1099511628211 * 14886173955864302971) = b * (1099511628211 * 14886173955864302971)"
    unfolding mult.assoc [symmetric] by (rule arg_cong [where f = "\<lambda>x. x * 14886173955864302971"])
  then show "a = b" unfolding fnv_prime_inverse by simp
qed simp
lemma fnv_step_inj: "fnv_step a c = fnv_step b c \<longleftrightarrow> a = b"
  unfolding fnv_step_def fnv_mult_cancel xor_right_cancel ..

lemma fnv_fold_inj: "foldl fnv_step a s = foldl fnv_step b s \<longleftrightarrow> a = b"
  by (induction s arbitrary: a b) (simp_all add: fnv_step_inj)


lemma fnv_step_char_inj: "fnv_step h c = fnv_step h d \<longleftrightarrow> c = d"
proof -
  have "h XOR word_of_nat (byte c) = h XOR word_of_nat (byte d) \<longleftrightarrow>
      word_of_nat (byte c) = (word_of_nat (byte d) :: 64 word)"
    by (metis xor.commute xor_right_cancel)
  also have "\<dots> \<longleftrightarrow> byte c = byte d"
  proof -
    have "unat (word_of_nat (byte x) :: 64 word) = byte x" for x
    proof -
      have "byte x < 18446744073709551616" using nat_of_char_less_256 [of x] by linarith
      then show ?thesis by (simp add: unat_of_nat)
    qed
    then show ?thesis by (metis (full_types))
  qed
  finally show ?thesis by (simp add: fnv_step_def fnv_mult_cancel)
qed

text \<open>An answer that makes the loop of the advisory lock ask again.\<close>

definition asks_again :: "(int \<Rightarrow> bool) \<Rightarrow> (string + int option) \<times> bool \<Rightarrow> bool" where
  "asks_again acq x \<longleftrightarrow> x = (Inr (Some 0), False) \<and> \<not> acq 0 \<or> x = (Inr (Some (-1)), False) \<and> \<not> acq (-1)"

lemma lock_loop_cons:
  "lock_loop acq n (x # as) =
     (if asks_again acq x then lock_loop acq (Suc n) as
      else case fst x of Inr (Some r) \<Rightarrow> if acq r then Acquired (Suc n) else LockFailed (Suc n) | _ \<Rightarrow> LockFailed (Suc n))"
  by (cases x; cases "fst x") (auto simp: asks_again_def split: option.splits)

lemma lock_loop_again: "list_all (asks_again acq) pre \<Longrightarrow> lock_loop acq n (pre @ t) = lock_loop acq (n + length pre) t"
  by (induction pre arbitrary: n) (simp_all add: lock_loop_cons del: lock_loop.simps(2))

lemma lock_loop_acquired:
  "lock_loop acq n as = Acquired m \<longleftrightarrow>
     (\<exists>pre r c rest. as = pre @ (Inr (Some r), c) # rest \<and> acq r \<and> m = n + Suc (length pre)
        \<and> list_all (asks_again acq) pre)"
  (is "_ \<longleftrightarrow> ?R n as")
proof
  show "?R n as" if "lock_loop acq n as = Acquired m"
    using that
  proof (induction as arbitrary: n)
    case (Cons x rest)
    show ?case
    proof (cases "asks_again acq x")
      case True
      then have "lock_loop acq (Suc n) rest = Acquired m" using Cons.prems by (simp add: lock_loop_cons del: lock_loop.simps)
      from Cons.IH [OF this] obtain pre r c rest' where
        "rest = pre @ (Inr (Some r), c) # rest'" "acq r" "m = Suc n + Suc (length pre)" "list_all (asks_again acq) pre"
        by blast
      then show ?thesis using True
        by (intro exI [of _ "x # pre"] exI [of _ r] exI [of _ c] exI [of _ rest']) simp
    next
      case False
      then obtain r where "fst x = Inr (Some r)" "acq r" "m = Suc n"
        using Cons.prems by (auto simp: lock_loop_cons simp del: lock_loop.simps split: sum.splits option.splits if_splits)
      then show ?thesis
        by (intro exI [of _ "[]"] exI [of _ r] exI [of _ "snd x"] exI [of _ rest]) (simp add: prod_eq_iff)
    qed
  qed simp
  show "lock_loop acq n as = Acquired m" if r: "?R n as"
  proof -
    from r obtain pre r c rest where as: "as = pre @ (Inr (Some r), c) # rest" "acq r"
      "m = n + Suc (length pre)" "list_all (asks_again acq) pre" by blast
    have "\<not> asks_again acq (Inr (Some r), c)" using as(2) by (auto simp: asks_again_def)
    then show ?thesis using as by (simp add: lock_loop_again lock_loop_cons del: lock_loop.simps)
  qed
qed

lemma lock_loop_waiting:
  "lock_loop acq n as = Waiting m \<longleftrightarrow> m = n + length as \<and> list_all (asks_again acq) as"
proof (induction as arbitrary: n)
  case (Cons x as)
  show ?case
    unfolding lock_loop_cons using Cons
    by (cases "asks_again acq x") (auto split: sum.splits option.splits)
qed auto

lemma table_Lock_fresh:
  assumes "t key = Some (q, a)" and "\<forall>now \<in> set ts. now - a \<le> staleLockThreshold"
  shows "table_Lock key p (ts @ us) t = table_Lock key p us t"
  using assms(2)
  by (induction ts)
     (simp_all add: table_Lock_round_def lock_insert_def lock_query_def is_stale_def assms(1))

lemma table_Lock_stale:
  assumes "t key = Some (q, a)" and "now - a > staleLockThreshold"
  shows "table_Lock key p (now # now' # us) t = (True, t(key \<mapsto> (p, now')))"
  using assms
  by (simp add: table_Lock_round_def lock_insert_def lock_query_def is_stale_def lock_evict_def)

section \<open>Properties\<close>

text \<open>
  The number under which a key is locked is a 64-bit signed integer, and keys that differ in one
  byte never share it: the hash is injective in every single byte.
\<close>

theorem lockKey_one_byte:
  "(lockKeyInt64 (a @ c # b) = lockKeyInt64 (a @ d # b) \<longleftrightarrow> c = d)
   \<and> - (2 ^ 63) \<le> lockKeyInt64 k \<and> lockKeyInt64 k < 2 ^ 63"
proof -
  have "fnv64a (a @ x # b) = foldl fnv_step (fnv_step (fnv64a a) x) b" for x
    by (simp add: fnv64a_def)
  then have "fnv64a (a @ c # b) = fnv64a (a @ d # b) \<longleftrightarrow> c = d"
    by (simp only: fnv_fold_inj fnv_step_char_inj)
  then have "lockKeyInt64 (a @ c # b) = lockKeyInt64 (a @ d # b) \<longleftrightarrow> c = d"
    unfolding lockKeyInt64_def by (auto intro: signed_word_eqI)
  moreover have "- (2 ^ 63) \<le> lockKeyInt64 k" "lockKeyInt64 k < 2 ^ 63"
    unfolding lockKeyInt64_def using sint_range_size [of "fnv64a k"] by (simp_all add: word_size)
  ultimately show ?thesis by blast
qed

text \<open>
  C2. Mutual exclusion of the table lock: however the statements of any number of instances
  interleave, crash or are delayed, as long as holders renew before their row goes stale at most one
  instance holds the lock, and the row is its own.
\<close>

theorem table_lock_exclusion:
  assumes "timely_run key s" and "phases s p = Holding" and "phases s q = Holding"
  shows "p = q \<and> (\<exists>a. ltable s key = Some (p, a))"
proof -
  have "\<exists>a. ltable s key = Some (p, a)" "\<exists>a. ltable s key = Some (q, a)"
    using timely_run_inv [OF assms(1)] assms(2,3) unfolding lock_inv_def by blast+
  then show ?thesis by auto
qed

definition lock_init :: "nat lock_state" where
  "lock_init = \<lparr>clock = 0, ltable = Map.empty, phases = (\<lambda>_. Idle)\<rparr>"

definition lock_held :: "nat lock_state" where
  "lock_held = \<lparr>clock = 0, ltable = [''k'' \<mapsto> (1, 0)], phases = (\<lambda>_. Idle)(1 := Holding)\<rparr>"

lemma lock_init_ready: "lock_step ''k'' lock_init (lock_init\<lparr>phases := (\<lambda>_. Idle)(1 := Ready 0)\<rparr>)"
  using ReadClock [of lock_init 1 "''k''"] by (simp add: lock_init_def)

lemma lock_ready_held: "lock_step ''k'' (lock_init\<lparr>phases := (\<lambda>_. Idle)(1 := Ready 0)\<rparr>) lock_held"
  using Insert [of "lock_init\<lparr>phases := (\<lambda>_. Idle)(1 := Ready 0)\<rparr>" 1 0 "''k''" "[''k'' \<mapsto> (1, 0)]"]
  by (simp add: lock_init_def lock_held_def lock_insert_def)

lemma lock_held_timely: "timely_run ''k'' lock_held"
proof -
  have "timely_run ''k'' lock_init" by (rule timely_run.Start) (simp add: lock_init_def)
  then have "timely_run ''k'' (lock_init\<lparr>phases := (\<lambda>_. Idle)(1 := Ready 0)\<rparr>)"
    using lock_init_ready by (rule timely_run.Step) (simp add: timely_def lock_init_def)
  then show ?thesis
    using lock_ready_held by (rule timely_run.Step) (auto simp: timely_def lock_held_def staleLockThreshold_def)
qed

theorem table_lock_exclusion_witness: "(1 :: nat) = 1 \<and> (\<exists>a. ltable lock_held ''k'' = Some (1, a))"
  using table_lock_exclusion [OF lock_held_timely, of 1 1] by (simp add: lock_held_def)

text \<open>
  The renewals are necessary: a holder that is late by a minute past the threshold, because it
  stalls or its database does, loses the lock to another instance and both migrate.
\<close>

theorem table_lock_late_renewal:
  "\<exists>s :: nat lock_state. lock_run key s \<and> phases s 1 = Holding \<and> phases s 2 = Holding"
proof -
  define s0 :: "nat lock_state" where "s0 = \<lparr>clock = 0, ltable = Map.empty, phases = (\<lambda>_. Idle)\<rparr>"
  define late :: int where "late = staleLockThreshold + 60 * 1000000000"
  define st where "st = (\<lambda>c t f1 f2. \<lparr>clock = c, ltable = t, phases = (\<lambda>_. Idle)(1 := f1, 2 := f2)\<rparr> :: nat lock_state)"
  let ?t1 = "[key \<mapsto> (1, 0 :: int)]" and ?t2 = "[key \<mapsto> (2, late)]"
  note eval = st_def lock_insert_def lock_query_def is_stale_def lock_evict_def late_def staleLockThreshold_def
  have idle: "lock_run key (st 0 Map.empty Idle Idle)"
    by (rule lock_run.Start) (simp add: st_def)
  have 1: "lock_run key (st 0 Map.empty (Ready 0) Idle)"
    using lock_run.Step [OF idle ReadClock [of _ 1]] by (simp add: st_def fun_upd_twist)
  have 2: "lock_run key (st 0 ?t1 Holding Idle)"
    using lock_run.Step [OF 1 Insert [of _ 1 0 key ?t1]] by (simp add: eval fun_upd_twist)
  have 3: "lock_run key (st 0 ?t1 Holding (Ready 0))"
    using lock_run.Step [OF 2 ReadClock [of _ 2]] by (simp add: st_def)
  have 4: "lock_run key (st 0 ?t1 Holding Refused)"
    using lock_run.Step [OF 3 Refuse [of _ 2 0 key ?t1]] by (simp add: eval)
  have 5: "lock_run key (st late ?t1 Holding Refused)"
    using lock_run.Step [OF 4 Tick [of late]] by (simp add: eval)
  have 6: "lock_run key (st late ?t1 Holding (Saw (Some 0)))"
    using lock_run.Step [OF 5 Query [of _ 2]] by (simp add: eval)
  have 7: "lock_run key (st late ?t1 Holding (Evicting 0))"
    using lock_run.Step [OF 6 JudgeStale [of _ 2 0]] by (simp add: eval)
  have 8: "lock_run key (st late Map.empty Holding Idle)"
    using lock_run.Step [OF 7 Evict [of _ 2 0]] by (simp add: eval)
  have 9: "lock_run key (st late Map.empty Holding (Ready late))"
    using lock_run.Step [OF 8 ReadClock [of _ 2]] by (simp add: st_def)
  have "lock_run key (st late ?t2 Holding Holding)"
    using lock_run.Step [OF 9 Insert [of _ 2 late key ?t2]] by (simp add: eval)
  then show ?thesis by (intro exI [of _ "st late ?t2 Holding Holding"]) (simp add: st_def)
qed


text \<open>
  The loop of the advisory lock for the dialects that answer with a number: it succeeds exactly at
  the first accepted answer if all earlier ones were time-outs and the context was alive, it keeps
  asking exactly while that is so, and a null, another number, an error or an ended context makes
  it fail at once.
\<close>

theorem advisory_Lock_spec:
  assumes "LockAcquired d = Some acq"
  shows "(advisory_Lock d as = Acquired m \<longleftrightarrow>
            (\<exists>pre r c rest. as = pre @ (Inr (Some r), c) # rest \<and> acq r \<and> m = Suc (length pre)
               \<and> list_all (asks_again acq) pre))
     \<and> (advisory_Lock d as = Waiting m \<longleftrightarrow> m = length as \<and> list_all (asks_again acq) as)
     \<and> \<not> acq (-1)"
  using assms lock_loop_acquired [of acq 0 as m] lock_loop_waiting [of acq 0 as m]
  by (auto simp: advisory_Lock_def LockAcquired_def split: lockDialect.splits)

theorem advisory_Lock_spec_witness:
  "advisory_Lock mysqlLockDialect [(Inr (Some 0), False), (Inr (Some 1), False)] = Acquired 2"
proof -
  have a: "LockAcquired mysqlLockDialect = Some (\<lambda>r. r = 1)" by (simp add: LockAcquired_def)
  show ?thesis
    unfolding advisory_Lock_spec [OF a, THEN conjunct1]
    by (rule exI [of _ "[(Inr (Some 0), False)]"], rule exI [of _ 1], rule exI [of _ False], rule exI [of _ "[]"])
       (simp add: asks_again_def)
qed

text \<open>
  \<open>tableLocker.Lock\<close> without interference: against a row that is never older than the threshold
  it gives up when its context ends and leaves the table alone; at the first round that finds the
  row stale it evicts it and takes the lock in the next round; on a free key it takes the lock at once.
\<close>

theorem table_Lock_spec:
  assumes "t key = Some (q, a)" and "\<forall>now \<in> set ts. now - a \<le> staleLockThreshold"
  shows "table_Lock key p ts t = (False, t)
     \<and> (now - a > staleLockThreshold \<longrightarrow>
          table_Lock key p (ts @ now # now' # us) t = (True, t(key \<mapsto> (p, now'))))
     \<and> table_Lock key p (now # us) (t(key := None)) = (True, t(key \<mapsto> (p, now)))"
proof -
  have f: "table_Lock key p (ts @ vs) t = table_Lock key p vs t" for vs
    using assms by (rule table_Lock_fresh [where t = t and key = key])
  show ?thesis
    using f [of "[]"] f [of "now # now' # us"] table_Lock_stale [of t key q a now p now' us] assms(1)
    by (auto simp: table_Lock_round_def lock_insert_def)
qed

theorem table_Lock_spec_witness:
  "table_Lock ''k'' (2 :: nat) [0, 2000000000, 300000000001, 300000000002] [''k'' \<mapsto> (1, 0)]
     = (True, [''k'' \<mapsto> (2, 300000000002)])"
  using table_Lock_spec [of "[''k'' \<mapsto> (1 :: nat, 0)]" "''k''" 1 0 "[0, 2000000000]" 2 300000000001
      300000000002 "[]"]
  by (simp add: staleLockThreshold_def)

text \<open>
  The handover, for both kinds of lock: while one instance holds the key an attempt of another is
  refused and changes nothing, the release of an instance that does not hold it changes nothing, and
  once the holder has released, the other's attempt is granted.
\<close>

theorem lock_handover:
  assumes "p \<noteq> q"
  shows "(s key = Some q \<longrightarrow> advisory_try key p s = (False, s) \<and> advisory_Unlock key (Some p) s = s
            \<and> fst (advisory_try key p (advisory_Unlock key (Some q) s)))
     \<and> (t k = Some (q, a) \<longrightarrow> lock_insert k p now t = (False, t) \<and> table_Unlock k p t = t
            \<and> fst (lock_insert k p now (table_Unlock k q t)))"
proof (intro conjI impI)
  assume s: "s key = Some q"
  show "advisory_try key p s = (False, s)" using advisory.other_waits [of s key q p] s assms by simp
  show "advisory_Unlock key (Some p) s = s" using advisory.release_other [of s key p] s assms by simp
  show "fst (advisory_try key p (advisory_Unlock key (Some q) s))"
    using advisory.free_granted [of "advisory_Unlock key (Some q) s" key p] advisory.release_own [of s key q] s
    by auto
next
  assume t: "t k = Some (q, a)"
  show "lock_insert k p now t = (False, t)" using ltab.other_waits [of t k q p now] t assms by simp
  show "table_Unlock k p t = t" using ltab.release_other [of t k p] t assms by simp
  show "fst (lock_insert k p now (table_Unlock k q t))"
    using ltab.free_granted [where s = "table_Unlock k q t" and key = k and p = p and now = now] ltab.release_own [of t k q] t by auto
qed

theorem lock_handover_witness:
  "advisory_try 7 (1 :: nat) [7 \<mapsto> 2] = (False, [7 \<mapsto> 2])
   \<and> lock_insert ''k'' (1 :: nat) 9 [''k'' \<mapsto> (2, 5)] = (False, [''k'' \<mapsto> (2, 5)])"
  using lock_handover [of "1 :: nat" 2 "[7 \<mapsto> 2]" 7 "[''k'' \<mapsto> (2, 5)]" "''k''" 5 9] by simp

end
