(* ===== verification/Migrate_Run.thy ===== *)
theory Migrate_Run
  imports Migrate_Ensure Migrate_Lock "HOL-Library.Sublist"
begin

text \<open>
  The package \<open>gormx/migrate\<close>, fifth part: running the migrations (\<open>migrate.go\<close>). The state is the
  table \<open>schema_migrations\<close> and the rest of the database; what a script does to the rest, what a
  rollback restores of it (databases that commit DDL on their own restore less) and which statement
  fails when are parameters. A script is assumed not to touch \<open>schema_migrations\<close> itself.
\<close>

section \<open>The database\<close>

record 'u mdb =
  rows :: "(string \<times> MigrationType) list"
  udata :: 'u

datatype stmt = CreateTracking | SelectLatest | SelectApplied | BeginTx | InsertVersion | CommitTx

record 'u sql =
  sql_exec :: "string \<Rightarrow> 'u \<Rightarrow> string option \<times> 'u"
  sql_rollback :: "'u \<Rightarrow> 'u \<Rightarrow> 'u"       \<comment> \<open>the data when the transaction began, and now\<close>
  sql_savepoint :: "'u \<Rightarrow> 'u \<Rightarrow> 'u"      \<comment> \<open>the same for the rollback to the savepoint\<close>
  sql_fault :: "stmt \<Rightarrow> 'u mdb \<Rightarrow> string option"

datatype migrate_error =
    ReadFileFailed | BeginFailed string | ExecFailed string | RecordFailed string | CommitFailed string
  | MultipleBaselines | LatestFailed string | MissingBaseline | BaselineFailed migrate_error
  | StatusFailed string string | FileFailed string migrate_error
  | AcquireFailed | TrackingFailed string

section \<open>Queries\<close>

text \<open>\<open>COALESCE(MAX(version), '')\<close> over the rows of a type; the empty string is the least string.\<close>

definition row_versions :: "MigrationType \<Rightarrow> (string \<times> MigrationType) list \<Rightarrow> string list" where
  "row_versions kind rs = map fst (filter (\<lambda>(v, k). k = kind) rs)"

definition max_version :: "MigrationType \<Rightarrow> (string \<times> MigrationType) list \<Rightarrow> string" where
  "max_version kind rs = foldr max (row_versions kind rs) []"

definition latestVersion :: "'u sql \<Rightarrow> 'u mdb \<Rightarrow> MigrationType \<Rightarrow> string + string" where
  "latestVersion q s kind =
     (case sql_fault q SelectLatest s of Some e \<Rightarrow> Inl e | None \<Rightarrow> Inr (max_version kind (rows s)))"

definition isApplied :: "'u sql \<Rightarrow> 'u mdb \<Rightarrow> string \<Rightarrow> MigrationType \<Rightarrow> string + bool" where
  "isApplied q s version kind =
     (case sql_fault q SelectApplied s of
        Some e \<Rightarrow> Inl e
      | None \<Rightarrow> Inr (length (filter (\<lambda>r. r = (version, kind)) (rows s)) > 0))"

section \<open>One file\<close>

text \<open>
  The transaction of \<open>execFile\<close>: the script, the insertion of the version (refused when the primary
  key exists) and the commit. Any error rolls the transaction back.
\<close>

definition record_version :: "'u sql \<Rightarrow> migFile \<Rightarrow> 'u mdb \<Rightarrow> 'u \<Rightarrow> migrate_error option \<times> 'u mdb" where
  "record_version q mf s u =
     (let undone = s\<lparr>udata := sql_rollback q (udata s) u\<rparr>;
          row = (mf_version mf, mf_kind mf) in
      case (if row \<in> set (rows s) then Some ''duplicate key'' else sql_fault q InsertVersion (s\<lparr>udata := u\<rparr>)) of
        Some e \<Rightarrow> (Some (RecordFailed e), undone)
      | None \<Rightarrow>
          (case sql_fault q CommitTx (s\<lparr>udata := u\<rparr>) of
             Some e \<Rightarrow> (Some (CommitFailed e), undone)
           | None \<Rightarrow> (None, s\<lparr>udata := u, rows := rows s @ [row]\<rparr>)))"

definition execFile ::
  "'u sql \<Rightarrow> dialect option \<Rightarrow> files \<Rightarrow> migFile \<Rightarrow> 'u mdb \<Rightarrow> migrate_error option \<times> 'u mdb" where
  "execFile q d fs mf s =
     (case ReadFile fs (mf_path mf) of
        None \<Rightarrow> (Some ReadFileFailed, s)
      | Some content \<Rightarrow>
          (case sql_fault q BeginTx s of
             Some e \<Rightarrow> (Some (BeginFailed e), s)
           | None \<Rightarrow>
               (case sql_exec q content (udata s) of
                  (Some e, u) \<Rightarrow>
                    if mf_kind mf = MigrationTypeSeed \<or> d = None \<or> \<not> IsIdempotentSkippable (the d) e
                    then (Some (ExecFailed e), s\<lparr>udata := sql_rollback q (udata s) u\<rparr>)
                    else record_version q mf s (sql_savepoint q (udata s) u)
                | (None, u) \<Rightarrow> record_version q mf s u)))"

section \<open>The files of one kind\<close>

fun run_rest ::
  "'u sql \<Rightarrow> dialect option \<Rightarrow> files \<Rightarrow> MigrationType \<Rightarrow> migFile list \<Rightarrow> string \<Rightarrow> 'u mdb \<Rightarrow>
   migrate_error option \<times> 'u mdb" where
  "run_rest q d fs kind [] latest s = (None, s)"
| "run_rest q d fs kind (mf # mfs) latest s =
     (if mf_kind mf \<noteq> kind \<or> mf_baseline mf \<or> mf_version mf \<le> latest then run_rest q d fs kind mfs latest s
      else
        case isApplied q s (mf_version mf) (mf_kind mf) of
          Inl e \<Rightarrow> (Some (StatusFailed (mf_name mf) e), s)
        | Inr True \<Rightarrow> run_rest q d fs kind mfs latest s
        | Inr False \<Rightarrow>
            (case execFile q d fs mf s of
               (Some e, s') \<Rightarrow> (Some (FileFailed (mf_name mf) e), s')
             | (None, s') \<Rightarrow> run_rest q d fs kind mfs (mf_version mf) s'))"

definition runMigrationFiles ::
  "'u sql \<Rightarrow> dialect option \<Rightarrow> files \<Rightarrow> migFile list \<Rightarrow> 'u mdb \<Rightarrow> migrate_error option \<times> 'u mdb" where
  "runMigrationFiles q d fs mfs s =
     (if mfs = [] then (None, s)
      else
        let kind = mf_kind (hd mfs); baselines = filter mf_baseline mfs in
        if length baselines > 1 then (Some MultipleBaselines, s)
        else
          case latestVersion q s kind of
            Inl e \<Rightarrow> (Some (LatestFailed e), s)
          | Inr latest \<Rightarrow>
              if latest \<noteq> [] then run_rest q d fs kind mfs latest s
              else
                (case baselines of
                   [] \<Rightarrow> (Some MissingBaseline, s)
                 | b # _ \<Rightarrow>
                     (case execFile q d fs b s of
                        (Some e, s') \<Rightarrow> (Some (BaselineFailed e), s')
                      | (None, s') \<Rightarrow> run_rest q d fs kind mfs (mf_version b) s')))"

section \<open>The whole run\<close>

text \<open>
  \<open>acquireMigrationLock\<close>: a type without a dialect takes no lock. The lock is given by its two
  operations; the answer says whether the run may go on.
\<close>

definition acquireMigrationLock :: "('l \<Rightarrow> bool \<times> 'l) \<Rightarrow> dialect option \<Rightarrow> 'l \<Rightarrow> bool \<times> 'l" where
  "acquireMigrationLock try_lock d l = (case d of None \<Rightarrow> (True, l) | Some _ \<Rightarrow> try_lock l)"

definition releaseMigrationLock :: "('l \<Rightarrow> 'l) \<Rightarrow> dialect option \<Rightarrow> 'l \<Rightarrow> 'l" where
  "releaseMigrationLock release d l = (case d of None \<Rightarrow> l | Some _ \<Rightarrow> release l)"

text \<open>What happens between locking and unlocking.\<close>

definition run_locked ::
  "'u sql \<Rightarrow> dialect option \<Rightarrow> files \<Rightarrow> MigrateConfig \<Rightarrow> 'u mdb \<Rightarrow> migrate_error option \<times> 'u mdb" where
  "run_locked q d fs cfg s =
     (case sql_fault q CreateTracking s of
        Some e \<Rightarrow> (Some (TrackingFailed e), s)
      | None \<Rightarrow>
          let ddlFiles = loadMigrationFiles fs (mc_DDLDir cfg) MigrationTypeDDL;
              seedFiles = (if mc_SeedDir cfg \<noteq> [] then loadMigrationFiles fs (mc_SeedDir cfg) MigrationTypeSeed else [])
          in if ddlFiles = [] \<and> seedFiles = [] then (None, s)
             else
               case runMigrationFiles q d fs ddlFiles s of
                 (Some e, s1) \<Rightarrow> (Some e, s1)
               | (None, s1) \<Rightarrow> (None, snd (runMigrationFiles q d fs seedFiles s1)))"

definition Run ::
  "('l \<Rightarrow> bool \<times> 'l) \<Rightarrow> ('l \<Rightarrow> 'l) \<Rightarrow> 'u sql \<Rightarrow> files \<Rightarrow> MigrateConfig \<Rightarrow> 'l \<Rightarrow> 'u mdb \<Rightarrow>
   migrate_error option \<times> 'l \<times> 'u mdb" where
  "Run try_lock release q fs cfg0 l s =
     (let cfg = withDefaults cfg0; d = lookupDialect (mc_DBType cfg) in
      case acquireMigrationLock try_lock d l of
        (False, l') \<Rightarrow> (Some AcquireFailed, l', s)
      | (True, l') \<Rightarrow>
          let (err, s') = run_locked q d fs cfg s
          in (err, releaseMigrationLock release d l', s'))"


section \<open>Facts\<close>

lemma max_version_upper: "(v, kind) \<in> set rs \<Longrightarrow> v \<le> max_version kind rs"
proof -
  have "v \<in> set vs \<Longrightarrow> v \<le> foldr max vs []" for vs
    by (induction vs) (auto simp: le_max_iff_disj)
  then show "(v, kind) \<in> set rs \<Longrightarrow> v \<le> max_version kind rs"
    by (force simp: max_version_def row_versions_def)
qed

lemma Nil_least: "([] :: string) \<le> v"
  by (cases v) auto

lemma foldr_max_snoc: "foldr max (vs @ [v]) [] = max (foldr max vs []) (v :: string)"
  by (induction vs) (simp_all add: max.assoc max.absorb1 max.absorb2 Nil_least)

lemma max_version_snoc: "max_version kind (rs @ [(v, k)]) = (if k = kind then max (max_version kind rs) v else max_version kind rs)"
  by (simp add: max_version_def row_versions_def foldr_max_snoc del: foldr_append)

lemma isApplied_iff: "isApplied q s v k = Inr b \<Longrightarrow> b \<longleftrightarrow> (v, k) \<in> set (rows s)"
  by (auto simp: isApplied_def filter_empty_conv split: option.splits)

text \<open>What the transaction of one file leaves behind.\<close>

lemma record_version_ok:
  assumes "record_version q mf s u = (None, s')"
  shows "s' = s\<lparr>udata := u, rows := rows s @ [(mf_version mf, mf_kind mf)]\<rparr> \<and> (mf_version mf, mf_kind mf) \<notin> set (rows s)"
  using assms by (auto simp: record_version_def Let_def split: if_splits option.splits)

lemma record_version_error:
  assumes "record_version q mf s u = (Some e, s')"
  shows "s' = s\<lparr>udata := sql_rollback q (udata s) u\<rparr>"
  using assms by (auto simp: record_version_def Let_def split: if_splits option.splits)

lemma execFile_ok:
  assumes "execFile q d fs mf s = (None, s')"
  shows "rows s' = rows s @ [(mf_version mf, mf_kind mf)] \<and> (mf_version mf, mf_kind mf) \<notin> set (rows s)"
  using assms by (auto simp: execFile_def dest!: record_version_ok split: option.splits prod.splits if_splits)

lemma execFile_error:
  assumes "execFile q d fs mf s = (Some e, s')"
  shows "rows s' = rows s \<and> (\<exists>u. udata s' = udata s \<or> udata s' = sql_rollback q (udata s) u)"
  using assms
  by (auto simp: execFile_def dest!: record_version_error split: option.splits prod.splits if_splits)

text \<open>The newest version after running some files, given what it was before.\<close>

definition newest :: "string \<Rightarrow> migFile list \<Rightarrow> string" where
  "newest latest new = (if new = [] then latest else mf_version (last new))"

lemma newest_Nil [simp]: "newest latest [] = latest"
  by (simp add: newest_def)

lemma newest_Cons [simp]: "newest latest (f # new) = newest (mf_version f) new"
  by (simp add: newest_def)

lemma newest_upper: "\<forall>f \<in> set new. latest < mf_version f \<Longrightarrow> latest \<le> newest latest new"
  by (auto simp: newest_def less_imp_le)

lemma run_rest_rows:
  assumes "run_rest q d fs kind mfs latest s = (r, s')" and "max_version kind (rows s) \<le> latest"
  shows "\<exists>new. rows s' = rows s @ map (\<lambda>f. (mf_version f, kind)) new \<and> subseq new mfs
           \<and> (\<forall>f \<in> set new. mf_kind f = kind \<and> \<not> mf_baseline f \<and> latest < mf_version f)
           \<and> sorted_wrt (<) (map mf_version new)
           \<and> (r = None \<longrightarrow> (\<forall>f \<in> set mfs. mf_kind f = kind \<longrightarrow> \<not> mf_baseline f \<longrightarrow>
                mf_version f \<le> newest latest new))"
  using assms
proof (induction mfs arbitrary: latest s)
  case Nil
  then show ?case by (intro exI [of _ "[]"]) simp
next
  case (Cons mf mfs)
  show ?case
  proof (cases "mf_kind mf \<noteq> kind \<or> mf_baseline mf \<or> mf_version mf \<le> latest")
    case True
    then have "run_rest q d fs kind mfs latest s = (r, s')" using Cons.prems(1) by simp
    from Cons.IH [OF this Cons.prems(2)] obtain new where n: "rows s' = rows s @ map (\<lambda>f. (mf_version f, kind)) new"
      "subseq new mfs" "\<forall>f \<in> set new. mf_kind f = kind \<and> \<not> mf_baseline f \<and> latest < mf_version f"
      "sorted_wrt (<) (map mf_version new)"
      "r = None \<longrightarrow> (\<forall>f \<in> set mfs. mf_kind f = kind \<longrightarrow> \<not> mf_baseline f \<longrightarrow>
         mf_version f \<le> newest latest new)" by blast
    have "latest \<le> newest latest new" using n(3) by (intro newest_upper) blast
    then show ?thesis using n True by (intro exI [of _ new]) auto
  next
    case False
    then have k: "mf_kind mf = kind" "\<not> mf_baseline mf" "latest < mf_version mf" by auto
    have "(mf_version mf, kind) \<notin> set (rows s)"
      using max_version_upper [of "mf_version mf" kind "rows s"] k Cons.prems(2) by auto
    then consider (fault) e where "r = Some e" "s' = s" | (fail) e e' where "r = Some e" "execFile q d fs mf s = (Some e', s')"
      | (ok) s1 where "execFile q d fs mf s = (None, s1)" "run_rest q d fs kind mfs (mf_version mf) s1 = (r, s')"
      using Cons.prems(1) False isApplied_iff [of q s "mf_version mf" kind]
      by (auto split: sum.splits bool.splits option.splits prod.splits)
    then show ?thesis
    proof cases
      case fault then show ?thesis by (intro exI [of _ "[]"]) simp
    next
      case fail then show ?thesis using execFile_error [OF fail(2)] by (intro exI [of _ "[]"]) simp
    next
      case ok
      have r1: "rows s1 = rows s @ [(mf_version mf, kind)]" using execFile_ok [OF ok(1)] k by simp
      then have "max_version kind (rows s1) \<le> mf_version mf"
        using Cons.prems(2) k(3) by (simp add: max_version_snoc)
      from Cons.IH [OF ok(2) this] obtain new where n: "rows s' = rows s1 @ map (\<lambda>f. (mf_version f, kind)) new"
        "subseq new mfs" "\<forall>f \<in> set new. mf_kind f = kind \<and> \<not> mf_baseline f \<and> mf_version mf < mf_version f"
        "sorted_wrt (<) (map mf_version new)"
        "r = None \<longrightarrow> (\<forall>f \<in> set mfs. mf_kind f = kind \<longrightarrow> \<not> mf_baseline f \<longrightarrow>
           mf_version f \<le> newest (mf_version mf) new)" by blast
      have "mf_version mf \<le> newest (mf_version mf) new" using n(3) by (intro newest_upper) blast
      then show ?thesis using n r1 k by (intro exI [of _ "mf # new"]) auto
    qed
  qed
qed

text \<open>The files a run starts from: one kind, proper versions.\<close>

definition migration_files :: "MigrationType \<Rightarrow> migFile list \<Rightarrow> bool" where
  "migration_files kind mfs \<longleftrightarrow> (\<forall>f \<in> set mfs. mf_kind f = kind \<and> mf_version f \<noteq> [])"

lemma runMigrationFiles_cases:
  assumes "runMigrationFiles q d fs mfs s = (r, s')" and "migration_files kind mfs"
  obtains (same) "s' = s" "r = None \<longrightarrow> mfs = []"
  | (upgrade) "max_version kind (rows s) \<noteq> []" "run_rest q d fs kind mfs (max_version kind (rows s)) s = (r, s')"
  | (no_baseline) b e e' where "max_version kind (rows s) = []" "filter mf_baseline mfs = [b]" "r = Some e"
      "execFile q d fs b s = (Some e', s')"
  | (fresh) b s1 where "max_version kind (rows s) = []" "filter mf_baseline mfs = [b]"
      "execFile q d fs b s = (None, s1)" "run_rest q d fs kind mfs (mf_version b) s1 = (r, s')"
proof (cases mfs)
  case Nil
  then show ?thesis using assms same by (simp add: runMigrationFiles_def)
next
  case (Cons f rest)
  then have k: "mf_kind (hd mfs) = kind" using assms(2) by (simp add: migration_files_def)
  let ?b = "filter mf_baseline mfs"
  note run = assms(1) [unfolded runMigrationFiles_def k Let_def]
  consider (many) "length ?b > 1" | (none) "?b = []" | (one) b where "?b = [b]"
    by (cases ?b rule: remdups_adj.cases) auto
  then show ?thesis
  proof cases
    case many
    then show ?thesis using run Cons by (intro same) auto
  next
    case none
    then show ?thesis using run Cons same upgrade
      by (auto simp: latestVersion_def split: option.splits if_splits)
  next
    case one
    then have b: "?b = [b]" .
    show ?thesis
    proof (cases "sql_fault q SelectLatest s")
      case (Some e)
      then show ?thesis using run Cons b by (intro same) (auto simp: latestVersion_def)
    next
      case None
      show ?thesis
      proof (cases "max_version kind (rows s) = []")
        case False
        then show ?thesis using run Cons b None upgrade by (simp add: latestVersion_def)
      next
        case True
        obtain e s1 where x: "execFile q d fs b s = (e, s1)" by (cases "execFile q d fs b s")
        have run': "(r, s') = (case e of None \<Rightarrow> run_rest q d fs kind mfs (mf_version b) s1
            | Some x \<Rightarrow> (Some (BaselineFailed x), s1))"
          using run Cons b None True x by (simp add: latestVersion_def split: option.splits)
        show ?thesis
        proof (cases e)
          case None then show ?thesis using fresh [OF True b] x run' by simp
        next
          case (Some y) then show ?thesis using no_baseline [OF True b] x run' by simp
        qed
      qed
    qed
  qed
qed

lemma run_rest_latest:
  assumes "run_rest q d fs kind mfs latest s = (None, s')" and "max_version kind (rows s) = latest"
    and "f \<in> set mfs" "mf_kind f = kind" "\<not> mf_baseline f"
  shows "mf_version f \<le> max_version kind (rows s')"
proof -
  have "max_version kind (rows s) \<le> latest" using assms(2) by simp
  from run_rest_rows [OF assms(1) this] obtain new where n: "rows s' = rows s @ map (\<lambda>f. (mf_version f, kind)) new"
    "\<forall>f \<in> set mfs. mf_kind f = kind \<longrightarrow> \<not> mf_baseline f \<longrightarrow>
       mf_version f \<le> newest latest new"
    by blast
  have "newest latest new \<le> max_version kind (rows s')"
  proof (cases "new = []")
    case True
    then show ?thesis using n(1) assms(2) by simp
  next
    case False
    then have "(mf_version (last new), kind) \<in> set (rows s')" using n(1) by auto
    then show ?thesis using False max_version_upper by (simp add: newest_def)
  qed
  moreover have "mf_version f \<le> newest latest new" using n(2) assms(3-5) by blast
  ultimately show ?thesis by (rule order_trans [rotated])
qed

lemma run_rest_covered:
  assumes "\<forall>f \<in> set mfs. mf_kind f = kind \<longrightarrow> \<not> mf_baseline f \<longrightarrow> mf_version f \<le> latest"
  shows "run_rest q d fs kind mfs latest s = (None, s)"
  using assms by (induction mfs) auto

lemma subseq_subset: "subseq xs ys \<Longrightarrow> set xs \<subseteq> set ys"
  by (induction rule: list_emb.induct) auto


lemma max_version_lub: "(\<And>v. (v, kind) \<in> set rs \<Longrightarrow> v \<le> b) \<Longrightarrow> max_version kind rs \<le> b"
proof -
  have "(\<forall>v \<in> set vs. v \<le> b) \<Longrightarrow> foldr max vs [] \<le> b" for vs
    by (induction vs) (simp_all add: Nil_least)
  then show "(\<And>v. (v, kind) \<in> set rs \<Longrightarrow> v \<le> b) \<Longrightarrow> max_version kind rs \<le> b"
    by (force simp: max_version_def row_versions_def)
qed

lemma max_version_mono: "set rs \<subseteq> set rs' \<Longrightarrow> max_version kind rs \<le> max_version kind rs'"
  by (rule max_version_lub) (blast intro: max_version_upper)

lemma le_Nil_iff: "(v :: string) \<le> [] \<longleftrightarrow> v = []"
  using Nil_least [of v] by auto

lemma run_rest_grows: "run_rest q d fs kind mfs latest s = (r, s') \<Longrightarrow> set (rows s) \<subseteq> set (rows s')"
proof (induction mfs arbitrary: latest s)
  case (Cons mf mfs)
  have ok: "set (rows s) \<subseteq> set (rows s1)" if "execFile q d fs mf s = (e, s1)" for e s1
    using that execFile_ok [of q d fs mf s s1] execFile_error [of q d fs mf s _ s1] by (cases e) auto
  show ?case
    using Cons ok by (auto split: if_splits sum.splits bool.splits option.splits prod.splits)
qed simp

section \<open>What a healthy database does\<close>

text \<open>
  The specification of a run: given the newest version, the files to execute are picked in order,
  each newer than the one before.
\<close>

fun pending :: "string \<Rightarrow> migFile list \<Rightarrow> migFile list" where
  "pending latest [] = []"
| "pending latest (f # mfs) =
     (if mf_baseline f \<or> mf_version f \<le> latest then pending latest mfs else f # pending (mf_version f) mfs)"

definition run_plan :: "MigrationType \<Rightarrow> (string \<times> MigrationType) list \<Rightarrow> migFile list \<Rightarrow> migFile list" where
  "run_plan kind rs mfs =
     (let latest = max_version kind rs in
      if latest \<noteq> [] then pending latest mfs
      else (case filter mf_baseline mfs of [] \<Rightarrow> [] | b # _ \<Rightarrow> b # pending (mf_version b) mfs))"

definition run_file :: "'u sql \<Rightarrow> files \<Rightarrow> 'u \<Rightarrow> migFile \<Rightarrow> 'u" where
  "run_file q fs u f = snd (sql_exec q (the (ReadFile fs (mf_path f))) u)"

text \<open>Every statement succeeds and every file can be read.\<close>

definition healthy :: "'u sql \<Rightarrow> files \<Rightarrow> migFile list \<Rightarrow> bool" where
  "healthy q fs mfs \<longleftrightarrow>
     (\<forall>st s. sql_fault q st s = None) \<and> (\<forall>c u. fst (sql_exec q c u) = None)
     \<and> (\<forall>f \<in> set mfs. ReadFile fs (mf_path f) \<noteq> None)"

lemma healthy_exec:
  assumes "healthy q fs mfs" and "f \<in> set mfs" and "(mf_version f, mf_kind f) \<notin> set (rows s)"
  shows "execFile q d fs f s =
     (None, s\<lparr>udata := run_file q fs (udata s) f, rows := rows s @ [(mf_version f, mf_kind f)]\<rparr>)"
proof -
  obtain c where c: "ReadFile fs (mf_path f) = Some c" using assms(1,2) unfolding healthy_def by auto
  obtain u where u: "sql_exec q c (udata s) = (None, u)"
    using assms(1) unfolding healthy_def by (metis prod.collapse)
  show ?thesis
    using assms(1,3) c u by (simp add: execFile_def record_version_def healthy_def run_file_def)
qed

lemma run_rest_pending:
  assumes "healthy q fs mfs" and "\<forall>f \<in> set mfs. mf_kind f = kind" and "max_version kind (rows s) \<le> latest"
  shows "run_rest q d fs kind mfs latest s =
    (None, s\<lparr>udata := foldl (run_file q fs) (udata s) (pending latest mfs),
             rows := rows s @ map (\<lambda>f. (mf_version f, kind)) (pending latest mfs)\<rparr>)"
  using assms
proof (induction mfs arbitrary: latest s)
  case (Cons f mfs)
  have h: "healthy q fs mfs" using Cons.prems(1) by (simp add: healthy_def)
  show ?case
  proof (cases "mf_baseline f \<or> mf_version f \<le> latest")
    case True
    then show ?thesis using Cons.IH [OF h _ Cons.prems(3)] Cons.prems(2) by simp
  next
    case False
    let ?s1 = "s\<lparr>udata := run_file q fs (udata s) f, rows := rows s @ [(mf_version f, kind)]\<rparr>"
    have new: "(mf_version f, kind) \<notin> set (rows s)"
      using False Cons.prems(3) max_version_upper [of "mf_version f" kind "rows s"] by auto
    have m: "max_version kind (rows ?s1) \<le> mf_version f"
      using False Cons.prems(3) by (auto simp: max_version_snoc)
    have i: "isApplied q s (mf_version f) kind = Inr False"
      using Cons.prems(1) new by (simp add: isApplied_def healthy_def filter_empty_conv)
    have "execFile q d fs f s = (None, ?s1)"
      using healthy_exec [OF Cons.prems(1), of f s d] new Cons.prems(2) by simp
    then show ?thesis using False i Cons.IH [OF h _ m] Cons.prems(2) by simp
  qed
qed simp

lemma runMigrationFiles_top:
  assumes "runMigrationFiles q d fs mfs s = (None, s')" and "migration_files kind mfs" and "mfs \<noteq> []"
  shows "max_version kind (rows s') \<noteq> []
      \<and> (\<forall>f \<in> set mfs. \<not> mf_baseline f \<longrightarrow> mf_version f \<le> max_version kind (rows s'))"
  using assms(1,2)
proof (cases rule: runMigrationFiles_cases)
  case same then show ?thesis using assms(3) by simp
next
  case upgrade
  have k: "\<forall>f \<in> set mfs. mf_kind f = kind" using assms(2) by (simp add: migration_files_def)
  have "max_version kind (rows s) \<le> max_version kind (rows s')"
    by (rule max_version_mono) (rule run_rest_grows [OF upgrade(2)])
  then have "max_version kind (rows s') \<noteq> []" using upgrade(1) le_Nil_iff by metis
  then show ?thesis using run_rest_latest [OF upgrade(2) refl] k by blast
next
  case (fresh b s1)
  have "b \<in> set (filter mf_baseline mfs)" unfolding fresh(2) by simp
  then have b: "mf_kind b = kind" "mf_version b \<noteq> []" using assms(2) by (auto simp: migration_files_def)
  have k: "\<forall>f \<in> set mfs. mf_kind f = kind" using assms(2) by (simp add: migration_files_def)
  have r1: "rows s1 = rows s @ [(mf_version b, kind)]" using execFile_ok [OF fresh(3)] b by simp
  then have m: "max_version kind (rows s1) = mf_version b"
    using fresh(1) by (simp add: max_version_snoc max.absorb2 Nil_least)
  have "mf_version b \<le> max_version kind (rows s')"
    unfolding m [symmetric] by (rule max_version_mono) (rule run_rest_grows [OF fresh(4)])
  then have "max_version kind (rows s') \<noteq> []" using b le_Nil_iff by metis
  then show ?thesis using run_rest_latest [OF fresh(4) m] k by blast
qed simp

text \<open>Rows of another kind are out of reach.\<close>

lemma row_versions_snoc [simp]: "row_versions k (rs @ [(v, k')]) = row_versions k rs @ (if k' = k then [v] else [])"
  by (simp add: row_versions_def)

lemma execFile_frame:
  "execFile q d fs mf s = (r, s') \<Longrightarrow> k \<noteq> mf_kind mf \<Longrightarrow> row_versions k (rows s') = row_versions k (rows s)"
  using execFile_ok [of q d fs mf s s'] execFile_error [of q d fs mf s _ s'] by (cases r) auto

lemma run_rest_frame:
  "run_rest q d fs kind mfs latest s = (r, s') \<Longrightarrow> k \<noteq> kind \<Longrightarrow> row_versions k (rows s') = row_versions k (rows s)"
proof (induction mfs arbitrary: latest s)
  case (Cons mf mfs)
  then show ?case
    by (auto dest: execFile_frame split: if_splits sum.splits bool.splits option.splits prod.splits)
qed simp

lemma runMigrationFiles_frame:
  assumes "runMigrationFiles q d fs mfs s = (r, s')" and "migration_files kind mfs" and "k \<noteq> kind"
  shows "row_versions k (rows s') = row_versions k (rows s)"
  using assms(1,2)
proof (cases rule: runMigrationFiles_cases)
  case upgrade
  then show ?thesis using run_rest_frame assms(3) by blast
next
  case (no_baseline b e e')
  have "b \<in> set (filter mf_baseline mfs)" unfolding no_baseline(2) by simp
  then have "mf_kind b = kind" using assms(2) by (auto simp: migration_files_def)
  then show ?thesis using execFile_frame [OF no_baseline(4)] assms(3) by simp
next
  case (fresh b s1)
  have "b \<in> set (filter mf_baseline mfs)" unfolding fresh(2) by simp
  then have "mf_kind b = kind" using assms(2) by (auto simp: migration_files_def)
  then show ?thesis using execFile_frame [OF fresh(3)] run_rest_frame [OF fresh(4)] assms(3) by simp
qed simp

lemma loaded_migration_files: "migration_files kind (loadMigrationFiles fs dir kind)"
  by (auto simp: migration_files_def set_loadMigrationFiles load_file_cases)

section \<open>An example\<close>

definition log_sql :: "string list sql" where
  "log_sql = \<lparr>sql_exec = (\<lambda>c u. (None, u @ [c])), sql_rollback = (\<lambda>u0 u. u0), sql_savepoint = (\<lambda>u0 u. u0),
              sql_fault = (\<lambda>_ _. None)\<rparr>"

definition demo_file :: "string \<Rightarrow> string \<Rightarrow> bool \<Rightarrow> migFile" where
  "demo_file name v b = \<lparr>mf_name = name, mf_path = (''d'', name), mf_version = v,
     mf_kind = MigrationTypeDDL, mf_baseline = b\<rparr>"

definition demo_mfs :: "migFile list" where
  "demo_mfs = [demo_file ''00000000_000_baseline.sql'' ''20240101_000'' True,
               demo_file ''20240701_001_a.sql'' ''20240701_001'' False,
               demo_file ''20240701_002_b.sql'' ''20240701_002'' False]"

definition demo_files :: files where
  "demo_files = \<lparr>ReadDir = (\<lambda>_. None), ReadFile = (\<lambda>(d, n). Some n)\<rparr>"

definition empty_mdb :: "string list mdb" where
  "empty_mdb = \<lparr>rows = [], udata = []\<rparr>"

definition demo_done :: "string list mdb" where
  "demo_done = \<lparr>rows = [(''20240101_000'', MigrationTypeDDL), (''20240701_001'', MigrationTypeDDL), (''20240701_002'', MigrationTypeDDL)],
     udata = [''00000000_000_baseline.sql'', ''20240701_001_a.sql'', ''20240701_002_b.sql'']\<rparr>"

lemma demo_run: "runMigrationFiles log_sql None demo_files demo_mfs empty_mdb = (None, demo_done)"
  by (simp add: runMigrationFiles_def demo_mfs_def demo_file_def empty_mdb_def demo_done_def latestVersion_def
      log_sql_def demo_files_def max_version_def row_versions_def execFile_def record_version_def isApplied_def
      less_char_def less_eq_char_def)

lemma demo_mfs_files: "migration_files MigrationTypeDDL demo_mfs"
  by (simp add: migration_files_def demo_mfs_def demo_file_def)

section \<open>Properties\<close>


text \<open>
  C1. What a run of one kind of files records, whether it succeeds or fails half way: versions of
  files it was given, each newer than every version recorded before and each newer than the one
  recorded before it, so nothing is recorded twice; on a fresh database the baseline comes first; and
  after a success no file is newer than the newest recorded version.
\<close>

theorem runMigrationFiles_records:
  assumes "runMigrationFiles q d fs mfs s = (r, s')" and "migration_files kind mfs"
  shows "(\<exists>new. rows s' = rows s @ map (\<lambda>f. (mf_version f, kind)) new \<and> set new \<subseteq> set mfs
            \<and> sorted_wrt (<) (map mf_version new)
            \<and> (\<forall>f \<in> set new. max_version kind (rows s) < mf_version f)
            \<and> (max_version kind (rows s) = [] \<longrightarrow> new \<noteq> [] \<longrightarrow> mf_baseline (hd new)))
     \<and> (r = None \<longrightarrow> (\<forall>f \<in> set mfs. \<not> mf_baseline f \<longrightarrow> mf_version f \<le> max_version kind (rows s')))"
  using assms
proof (cases rule: runMigrationFiles_cases)
  case same
  then show ?thesis by (auto intro!: exI [of _ "[]"])
next
  case upgrade
  have k: "\<forall>f \<in> set mfs. mf_kind f = kind" using assms(2) by (simp add: migration_files_def)
  from run_rest_rows [OF upgrade(2) order_refl] obtain new where
    "rows s' = rows s @ map (\<lambda>f. (mf_version f, kind)) new" "subseq new mfs"
    "\<forall>f \<in> set new. mf_kind f = kind \<and> \<not> mf_baseline f \<and> max_version kind (rows s) < mf_version f"
    "sorted_wrt (<) (map mf_version new)" by blast
  moreover from \<open>subseq new mfs\<close> have "set new \<subseteq> set mfs" by (rule subseq_subset)
  ultimately show ?thesis
    using upgrade k run_rest_latest [OF _ refl] by blast
next
  case no_baseline
  then show ?thesis using execFile_error [OF no_baseline(4)] by (auto intro!: exI [of _ "[]"])
next
  case (fresh b s1)
  have b: "b \<in> set mfs" "mf_baseline b" using fresh(2) by (metis filter_eq_Cons_iff list.set_intros(1) in_set_conv_decomp)+
  have k: "\<forall>f \<in> set mfs. mf_kind f = kind" "mf_version b \<noteq> []" using assms(2) b by (auto simp: migration_files_def)
  have r1: "rows s1 = rows s @ [(mf_version b, kind)]" using execFile_ok [OF fresh(3)] k b by simp
  then have m: "max_version kind (rows s1) = mf_version b"
    using fresh(1) by (simp add: max_version_snoc max.absorb2 Nil_least)
  from run_rest_rows [OF fresh(4)] m obtain new where n:
    "rows s' = rows s1 @ map (\<lambda>f. (mf_version f, kind)) new" "subseq new mfs"
    "\<forall>f \<in> set new. mf_kind f = kind \<and> \<not> mf_baseline f \<and> mf_version b < mf_version f"
    "sorted_wrt (<) (map mf_version new)" by auto
  have "[] < mf_version b" using k(2) Nil_least [of "mf_version b"] by (simp add: less_le)
  then have "rows s' = rows s @ map (\<lambda>f. (mf_version f, kind)) (b # new)"
    "set (b # new) \<subseteq> set mfs" "sorted_wrt (<) (map mf_version (b # new))"
    "\<forall>f \<in> set (b # new). max_version kind (rows s) < mf_version f" "mf_baseline (hd (b # new))"
    using n r1 b fresh(1) subseq_subset [OF n(2)] by (auto intro: less_trans)
  then show ?thesis
    using fresh(4) k m run_rest_latest [OF _ m] by blast
qed

theorem runMigrationFiles_records_witness:
  "\<exists>new. rows demo_done = map (\<lambda>f. (mf_version f, MigrationTypeDDL)) new \<and> set new \<subseteq> set demo_mfs
     \<and> sorted_wrt (<) (map mf_version new) \<and> mf_baseline (hd new)"
proof -
  have e: "max_version MigrationTypeDDL (rows empty_mdb) = []" "rows empty_mdb = []" "rows demo_done \<noteq> []"
    by (simp_all add: empty_mdb_def demo_done_def max_version_def row_versions_def)
  from runMigrationFiles_records [OF demo_run demo_mfs_files] e show ?thesis by auto
qed

text \<open>
  C21. A run that succeeded is idempotent: run again over the same files it executes nothing and
  changes nothing.
\<close>

theorem runMigrationFiles_idempotent:
  assumes "runMigrationFiles q d fs mfs s = (None, s')" and "migration_files kind mfs"
    and "sql_fault q SelectLatest s' = None"
  shows "runMigrationFiles q d fs mfs s' = (None, s')"
proof (cases "mfs = []")
  case False
  have k: "mf_kind (hd mfs) = kind" "\<forall>f \<in> set mfs. mf_kind f = kind"
    using assms(2) False by (auto simp: migration_files_def)
  have few: "\<not> length (filter mf_baseline mfs) > 1"
    using assms(1) False by (auto simp: runMigrationFiles_def)
  note top = runMigrationFiles_top [OF assms(1,2) False]
  have "run_rest q d fs kind mfs (max_version kind (rows s')) s' = (None, s')"
    using top by (intro run_rest_covered) blast
  then show ?thesis
    using False few top assms(3) by (simp add: runMigrationFiles_def k latestVersion_def)
qed (simp add: runMigrationFiles_def)

theorem runMigrationFiles_idempotent_witness:
  "runMigrationFiles log_sql None demo_files demo_mfs demo_done = (None, demo_done)"
  by (rule runMigrationFiles_idempotent [OF demo_run demo_mfs_files]) (simp add: log_sql_def)

text \<open>
  C6. On a healthy database a run is its plan: the data afterwards is the scripts of the planned
  files applied in order, the table gains exactly their versions, and the run succeeds.
\<close>

theorem runMigrationFiles_refines_plan:
  assumes "healthy q fs mfs" and "migration_files kind mfs" and "length (filter mf_baseline mfs) = 1"
  shows "runMigrationFiles q d fs mfs s =
    (None, s\<lparr>udata := foldl (run_file q fs) (udata s) (run_plan kind (rows s) mfs),
             rows := rows s @ map (\<lambda>f. (mf_version f, kind)) (run_plan kind (rows s) mfs)\<rparr>)"
proof -
  from assms(3) obtain b where b: "filter mf_baseline mfs = [b]" by (auto simp: length_Suc_conv)
  then have "b \<in> set (filter mf_baseline mfs)" by simp
  then have bm: "b \<in> set mfs" by simp
  then have ne: "mfs \<noteq> []" by auto
  have k: "mf_kind (hd mfs) = kind" "\<forall>f \<in> set mfs. mf_kind f = kind"
    using assms(2) ne by (auto simp: migration_files_def)
  have lv: "latestVersion q s kind = Inr (max_version kind (rows s))"
    using assms(1) by (simp add: latestVersion_def healthy_def)
  show ?thesis
  proof (cases "max_version kind (rows s) = []")
    case False
    then show ?thesis
      using ne b lv run_rest_pending [OF assms(1) k(2) order_refl]
      by (simp add: runMigrationFiles_def k(1) run_plan_def)
  next
    case True
    let ?s1 = "s\<lparr>udata := run_file q fs (udata s) b, rows := rows s @ [(mf_version b, kind)]\<rparr>"
    have "mf_version b \<noteq> []" using assms(2) bm by (simp add: migration_files_def)
    then have "(mf_version b, kind) \<notin> set (rows s)"
      using True max_version_upper [of "mf_version b" kind "rows s"] le_Nil_iff by metis
    then have e: "execFile q d fs b s = (None, ?s1)" using healthy_exec [OF assms(1) bm] k(2) bm by simp
    have "max_version kind (rows ?s1) \<le> mf_version b" using True by (simp add: max_version_snoc Nil_least)
    from run_rest_pending [OF assms(1) k(2) this] show ?thesis
      using ne b lv e True by (simp add: runMigrationFiles_def k(1) run_plan_def)
  qed
qed

theorem runMigrationFiles_refines_plan_witness:
  "runMigrationFiles log_sql None demo_files demo_mfs empty_mdb =
     (None, empty_mdb\<lparr>udata := foldl (run_file log_sql demo_files) (udata empty_mdb)
                        (run_plan MigrationTypeDDL (rows empty_mdb) demo_mfs),
        rows := rows empty_mdb @ map (\<lambda>f. (mf_version f, MigrationTypeDDL))
                        (run_plan MigrationTypeDDL (rows empty_mdb) demo_mfs)\<rparr>)"
proof (rule runMigrationFiles_refines_plan)
  show "healthy log_sql demo_files demo_mfs"
    by (simp add: healthy_def log_sql_def demo_files_def split: prod.splits)
  show "length (filter mf_baseline demo_mfs) = 1" by (simp add: demo_mfs_def demo_file_def)
qed (rule demo_mfs_files)

text \<open>
  C22. A file is one transaction. A failure records nothing and, where the database rolls DDL back,
  leaves the data as it was; a success records the version once. An error that the dialect takes for
  "exists already" is passed over for DDL: the version is recorded and the data is what the savepoint
  restores; for seeds and without a dialect it fails like any other.
\<close>

theorem execFile_spec:
  assumes "execFile q d fs mf s = (r, s')"
  shows "(r \<noteq> None \<longrightarrow> rows s' = rows s \<and> ((\<forall>a b. sql_rollback q a b = a) \<longrightarrow> s' = s))
     \<and> (r = None \<longrightarrow> rows s' = rows s @ [(mf_version mf, mf_kind mf)] \<and> (mf_version mf, mf_kind mf) \<notin> set (rows s)
          \<and> (\<exists>c e u. ReadFile fs (mf_path mf) = Some c \<and> sql_exec q c (udata s) = (e, u)
               \<and> (e = None \<and> udata s' = u
                  \<or> (\<exists>x dl. e = Some x \<and> d = Some dl \<and> mf_kind mf = MigrationTypeDDL
                        \<and> IsIdempotentSkippable dl x \<and> udata s' = sql_savepoint q (udata s) u))))"
proof (intro conjI impI)
  assume "r \<noteq> None"
  then obtain e where "execFile q d fs mf s = (Some e, s')" using assms by auto
  from execFile_error [OF this] show "rows s' = rows s" by blast
  from execFile_error [OF \<open>execFile q d fs mf s = (Some e, s')\<close>]
  show "s' = s" if "\<forall>a b. sql_rollback q a b = a" using that by (auto simp: mdb.equality)
next
  assume "r = None"
  then have ok: "execFile q d fs mf s = (None, s')" using assms by simp
  from execFile_ok [OF this] show "rows s' = rows s @ [(mf_version mf, mf_kind mf)]"
    and "(mf_version mf, mf_kind mf) \<notin> set (rows s)" by blast+
  obtain c where c: "ReadFile fs (mf_path mf) = Some c" using ok by (auto simp: execFile_def split: option.splits)
  obtain e u where e: "sql_exec q c (udata s) = (e, u)" by (cases "sql_exec q c (udata s)")
  have "e = None \<and> udata s' = u \<or> (\<exists>x dl. e = Some x \<and> d = Some dl \<and> mf_kind mf = MigrationTypeDDL
      \<and> IsIdempotentSkippable dl x \<and> udata s' = sql_savepoint q (udata s) u)"
    using ok c e by (cases "mf_kind mf") (auto simp: execFile_def dest!: record_version_ok split: option.splits if_splits)
  then show "\<exists>c e u. ReadFile fs (mf_path mf) = Some c \<and> sql_exec q c (udata s) = (e, u)
      \<and> (e = None \<and> udata s' = u \<or> (\<exists>x dl. e = Some x \<and> d = Some dl \<and> mf_kind mf = MigrationTypeDDL
            \<and> IsIdempotentSkippable dl x \<and> udata s' = sql_savepoint q (udata s) u))"
    using c e by blast
qed

lemma demo_exec_fails:
  "execFile (log_sql\<lparr>sql_exec := (\<lambda>c u. (Some ''syntax'', u @ [c]))\<rparr>) (Some postgresDialect) demo_files
     (hd demo_mfs) empty_mdb = (Some (ExecFailed ''syntax''), empty_mdb)"
  by (simp add: execFile_def demo_mfs_def demo_file_def demo_files_def log_sql_def empty_mdb_def
      postgresDialect_def postgres_skippable_def mentions_def)

theorem execFile_spec_witness: "rows empty_mdb = rows empty_mdb \<and> Some (ExecFailed ''syntax'') \<noteq> None"
  using execFile_spec [OF demo_exec_fails] by simp

section \<open>The run under its lock\<close>

context migration_lock begin

lemma Run_held:
  assumes "holder l = Some p'" and "p' \<noteq> p" and "lookupDialect (mc_DBType cfg) \<noteq> None"
  shows "Run (try_lock p) (release p) q fs cfg l s = (Some AcquireFailed, l, s)"
proof -
  have "mc_DBType (withDefaults cfg) = mc_DBType cfg" by (simp add: withDefaults_def Let_def)
  then show ?thesis
    using assms other_waits [of l p' p] by (auto simp: Run_def acquireMigrationLock_def)
qed

lemma Run_free:
  assumes "holder l = None" and "lookupDialect (mc_DBType cfg) = Some d"
  shows "\<exists>l'. Run (try_lock p) (release p) q fs cfg l s =
      (fst (run_locked q (Some d) fs (withDefaults cfg) s), l', snd (run_locked q (Some d) fs (withDefaults cfg) s))
      \<and> holder l' = None"
proof -
  obtain l1 where l1: "try_lock p l = (True, l1)" "holder l1 = Some p" using free_granted [OF assms(1)] by blast
  have "mc_DBType (withDefaults cfg) = mc_DBType cfg" by (simp add: withDefaults_def Let_def)
  then show ?thesis
    using assms(2) l1 release_own [OF l1(2)]
    by (simp add: Run_def acquireMigrationLock_def releaseMigrationLock_def split: prod.splits)
qed

end




lemma demo_locked: "run_locked (log_sql\<lparr>sql_fault := (\<lambda>_ _. Some ''down'')\<rparr>) None demo_files
    \<lparr>mc_DBType = ''x'', mc_DDLDir = '''', mc_SeedDir = '''', mc_LockKey = '''', mc_LockTimeout = 0\<rparr> empty_mdb
    = (Some (TrackingFailed ''down''), empty_mdb)"
  by (simp add: run_locked_def)


end
