(* ===== verification/Jodatime.thy ===== *)
theory Jodatime
  imports Go_Strings
begin

text \<open>
  The package \<open>jodatime\<close>: \<open>Format\<close> (\<open>format.go\<close>) prints a time after a Joda pattern and
  \<open>GetLayout\<close> (\<open>parse.go\<close>) turns a pattern into a layout of the standard library, which then
  parses. What the code asks a \<open>time.Time\<close> is a record of the answers; the calendar behind them
  and parsing itself are the standard library's. A run-time panic is \<open>None\<close>.
\<close>

section \<open>Times\<close>

record date =
  Year :: int
  Month :: nat          \<comment> \<open>1 to 12\<close>
  Day :: nat
  YearDay :: nat
  ISOWeek :: nat
  Weekday :: nat        \<comment> \<open>0 for Sunday to 6\<close>
  Hour :: nat
  Minute :: nat
  Second :: nat
  Nanosecond :: nat
  zone_name :: string
  zone_offset :: int    \<comment> \<open>seconds east of UTC\<close>

definition month_name :: "nat \<Rightarrow> string" where
  "month_name m =
     [''January'', ''February'', ''March'', ''April'', ''May'', ''June'', ''July'', ''August'',
      ''September'', ''October'', ''November'', ''December''] ! (m - 1)"

definition weekday_name :: "nat \<Rightarrow> string" where
  "weekday_name w =
     [''Sunday'', ''Monday'', ''Tuesday'', ''Wednesday'', ''Thursday'', ''Friday'', ''Saturday''] ! w"

definition timeZone :: "string \<Rightarrow> string option" where
  "timeZone =
     map_of [(''GMT'', ''Europe/London''), (''BST'', ''Europe/London''), (''BSDT'', ''Europe/London''),
       (''CET'', ''Europe/Paris''), (''UTC'', ''''), (''PST'', ''America/Los_Angeles''),
       (''PDT'', ''America/Los_Angeles''), (''LA'', ''America/Los_Angeles''), (''LAX'', ''America/Los_Angeles''),
       (''MST'', ''America/Denver''), (''MDT'', ''America/Denver''), (''CST'', ''America/Chicago''),
       (''CDT'', ''America/Chicago''), (''Chicago'', ''America/Chicago''), (''EST'', ''America/New_York''),
       (''EDT'', ''America/New_York''), (''NYC'', ''America/New_York''), (''NY'', ''America/New_York''),
       (''AEST'', ''Australia/Sydney''), (''AEDT'', ''Australia/Sydney''), (''AWST'', ''Australia/Perth''),
       (''AWDT'', ''Australia/Perth''), (''ACST'', ''Australia/Adelaide''), (''ACDT'', ''Australia/Adelaide'')]"

section \<open>The fields of \<open>Format\<close>\<close>

text \<open>
  One definition per case of the switch; the number is the length of the run of equal letters, and
  a length the case does not list prints nothing. \<open>pad2\<close> is the leading zero the cases share.
\<close>

definition pad2 :: "nat \<Rightarrow> string" where
  "pad2 v = (if v < 10 then ''0'' else '''') @ itoa_nat v"

text \<open>Go's remainder takes the sign of the dividend.\<close>

definition go_rem :: "int \<Rightarrow> int \<Rightarrow> int" where
  "go_rem a b = sgn a * (\<bar>a\<bar> mod \<bar>b\<bar>)"

definition year_field :: "date \<Rightarrow> nat \<Rightarrow> string" where
  "year_field d j =
     (if j = 1 \<or> j = 3 \<or> j = 4 then itoa (Year d)
      else if j = 2 then
        let year = go_rem (Year d) 100 in (if year < 10 then ''0'' else '''') @ itoa year
      else '''')"

definition plain_field :: "nat \<Rightarrow> nat \<Rightarrow> string" where
  "plain_field v j = (if j = 1 then itoa_nat v else if j = 2 then pad2 v else '''')"

definition yearday_field :: "date \<Rightarrow> nat \<Rightarrow> string" where
  "yearday_field d j = plain_field (YearDay d) j"

definition week_field :: "date \<Rightarrow> nat \<Rightarrow> string" where
  "week_field d j = plain_field (ISOWeek d) j"

definition month_field :: "date \<Rightarrow> nat \<Rightarrow> string" where
  "month_field d j =
     (if j = 1 then itoa_nat (Month d)
      else if j = 2 then pad2 (Month d)
      else if j = 3 then take 3 (month_name (Month d))
      else if j = 4 then month_name (Month d)
      else '''')"

definition day_field :: "date \<Rightarrow> nat \<Rightarrow> string" where
  "day_field d j = plain_field (Day d) j"

definition weekday_field :: "date \<Rightarrow> nat \<Rightarrow> string" where
  "weekday_field d j =
     (if j = 1 then itoa_nat (Weekday d) else if j = 2 then ''0'' @ itoa_nat (Weekday d) else '''')"

definition weekday_text_field :: "date \<Rightarrow> nat \<Rightarrow> string" where
  "weekday_text_field d j =
     (if j = 1 \<or> j = 2 \<or> j = 3 then take 3 (weekday_name (Weekday d))
      else if j = 4 then weekday_name (Weekday d) else '''')"

definition clock_12 :: "nat \<Rightarrow> nat" where
  "clock_12 v = (if v > 12 then v - 12 else if v = 0 then 12 else v)"

definition clockhour_half_field :: "date \<Rightarrow> nat \<Rightarrow> string" where
  "clockhour_half_field d j = plain_field (clock_12 (Hour d)) j"

definition hour_field :: "date \<Rightarrow> nat \<Rightarrow> string" where
  "hour_field d j = plain_field (Hour d) j"

definition half_field :: "date \<Rightarrow> string" where
  "half_field d = (if Hour d \<ge> 12 then ''PM'' else ''AM'')"

definition minute_field :: "date \<Rightarrow> nat \<Rightarrow> string" where
  "minute_field d j = plain_field (Minute d) j"

definition second_field :: "date \<Rightarrow> nat \<Rightarrow> string" where
  "second_field d j = plain_field (Second d) j"

definition fraction_field :: "date \<Rightarrow> nat \<Rightarrow> string" where
  "fraction_field d j =
     (let v = Nanosecond d div 1000000 in
      if j = 1 then itoa_nat (v div 100)
      else if j = 2 then pad2 (v div 10)
      else if j = 3 then (if v < 10 then ''00'' else if v < 100 then ''0'' else '''') @ itoa_nat v
      else '''')"

definition zone_field :: "date \<Rightarrow> nat \<Rightarrow> string" where
  "zone_field d j =
     (let zs = zone_name d; z = zone_offset d;
          sign = (if z < 0 then ''-'' else ''+'');
          a = nat \<bar>z\<bar>; v = a div 3600; m = a mod 3600 div 60
      in if j = 1 then sign @ pad2 v @ pad2 m
         else if j = 2 then sign @ pad2 v @ '':'' @ pad2 m
         else if j = 3 then (case timeZone zs of Some tz \<Rightarrow> tz | None \<Rightarrow> zs)
         else '''')"

text \<open>The century slices the first two bytes of the year, which panics on a shorter one.\<close>

definition century_field :: "date \<Rightarrow> string option" where
  "century_field d = (let y = itoa (Year d) in if length y < 2 then None else Some (take 2 y))"

definition hour_half_field :: "date \<Rightarrow> nat \<Rightarrow> string" where
  "hour_half_field d j = plain_field (if Hour d \<ge> 12 then Hour d - 12 else Hour d) j"

definition clockhour_field :: "date \<Rightarrow> nat \<Rightarrow> string" where
  "clockhour_field d j =
     (let v = Hour d in
      if j = 1 then itoa_nat (if v = 0 then 24 else v)
      else if j = 2 then (if v = 0 then itoa_nat 24 else pad2 v)
      else '''')"

section \<open>The loop of \<open>Format\<close>\<close>

definition apostrophe :: rune where "apostrophe = 39"

text \<open>The letters whose runs count.\<close>

definition run_field :: "date \<Rightarrow> rune \<Rightarrow> (nat \<Rightarrow> string) option" where
  "run_field d r =
     (if r = byte (CHR ''Y'') \<or> r = byte (CHR ''y'') \<or> r = byte (CHR ''x'') then Some (year_field d)
      else if r = byte (CHR ''D'') then Some (yearday_field d)
      else if r = byte (CHR ''w'') then Some (week_field d)
      else if r = byte (CHR ''M'') then Some (month_field d)
      else if r = byte (CHR ''d'') then Some (day_field d)
      else if r = byte (CHR ''e'') then Some (weekday_field d)
      else if r = byte (CHR ''E'') then Some (weekday_text_field d)
      else if r = byte (CHR ''h'') then Some (clockhour_half_field d)
      else if r = byte (CHR ''H'') then Some (hour_field d)
      else if r = byte (CHR ''m'') then Some (minute_field d)
      else if r = byte (CHR ''s'') then Some (second_field d)
      else if r = byte (CHR ''S'') then Some (fraction_field d)
      else if r = byte (CHR ''Z'') then Some (zone_field d)
      else if r = byte (CHR ''K'') then Some (hour_half_field d)
      else if r = byte (CHR ''k'') then Some (clockhour_field d)
      else None)"

text \<open>Everything else but the apostrophe: one letter, one field, and other runes as they are.\<close>

definition single_field :: "date \<Rightarrow> rune \<Rightarrow> string option" where
  "single_field d r =
     (if r = byte (CHR ''a'') then Some (half_field d)
      else if r = byte (CHR ''z'') then Some (zone_name d)
      else if r = byte (CHR ''G'') then Some ''AD''
      else if r = byte (CHR ''C'') then century_field d
      else Some (encode_rune r))"

definition prepend :: "string \<Rightarrow> string option \<Rightarrow> string option" where
  "prepend s o' = map_option (\<lambda>t. s @ t) o'"

function format_runes :: "date \<Rightarrow> rune list \<Rightarrow> string option" where
  "format_runes d [] = Some []"
| "format_runes d (r # rs) =
     (if r = apostrophe then
        (if rs \<noteq> [] \<and> hd rs = apostrophe then prepend [CHR 0x27] (format_runes d (tl rs))
         else prepend (utf8 (takeWhile (\<lambda>x. x \<noteq> apostrophe) rs))
                (format_runes d (tl (dropWhile (\<lambda>x. x \<noteq> apostrophe) rs))))
      else
        case run_field d r of
          Some f \<Rightarrow> prepend (f (Suc (run_length r rs))) (format_runes d (drop (run_length r rs) rs))
        | None \<Rightarrow>
            (case single_field d r of
               None \<Rightarrow> None
             | Some s \<Rightarrow> prepend s (format_runes d rs)))"
  by pat_completeness auto
termination
proof (relation "measure (\<lambda>(d, rs). length rs)", goal_cases)
  case (3 d r rs)
  then show ?case using length_dropWhile_le [of "\<lambda>x. x \<noteq> apostrophe" rs] by simp
qed auto

declare format_runes.simps(2) [simp del]

definition Format :: "string \<Rightarrow> date \<Rightarrow> string option" where
  "Format format d = format_runes d (runes format)"

section \<open>\<open>GetLayout\<close>\<close>

definition layout_run :: "rune \<Rightarrow> (nat \<Rightarrow> string) option" where
  "layout_run r =
     (if r = byte (CHR ''h'') then Some (\<lambda>j. if j = 1 then ''3'' else ''03'')
      else if r = byte (CHR ''H'') then Some (\<lambda>j. ''15'')
      else if r = byte (CHR ''m'') then Some (\<lambda>j. if j = 1 then ''4'' else ''04'')
      else if r = byte (CHR ''s'') then Some (\<lambda>j. if j = 1 then ''5'' else ''05'')
      else if r = byte (CHR ''d'') then Some (\<lambda>j. if j = 1 then ''2'' else ''02'')
      else if r = byte (CHR ''E'') then Some (\<lambda>j. if j = 1 \<or> j = 2 \<or> j = 3 then ''Mon'' else ''Monday'')
      else if r = byte (CHR ''M'') then
        Some (\<lambda>j. if j = 1 then ''1'' else if j = 2 then ''01'' else if j = 3 then ''Jan''
                  else if j = 4 then ''January'' else '''')
      else if r = byte (CHR ''Y'') \<or> r = byte (CHR ''y'') \<or> r = byte (CHR ''x'') then
        Some (\<lambda>j. if j = 2 then ''06'' else ''2006'')
      else if r = byte (CHR ''S'') then Some (\<lambda>j. replicate j (CHR ''9''))
      else if r = byte (CHR ''Z'') then Some (\<lambda>j. if j = 1 then ''-0700'' else if j = 2 then ''-07:00'' else '''')
      else None)"

function layout_runes :: "rune list \<Rightarrow> string" where
  "layout_runes [] = []"
| "layout_runes (r # rs) =
     (if r = apostrophe then
        (if rs \<noteq> [] \<and> hd rs = apostrophe then CHR 0x27 # layout_runes (tl rs)
         else utf8 (takeWhile (\<lambda>x. x \<noteq> apostrophe) rs)
                @ layout_runes (tl (dropWhile (\<lambda>x. x \<noteq> apostrophe) rs)))
      else
        case layout_run r of
          Some f \<Rightarrow> f (Suc (run_length r rs)) @ layout_runes (drop (run_length r rs) rs)
        | None \<Rightarrow> (if r = byte (CHR ''a'') then ''PM'' else encode_rune r) @ layout_runes rs)"
  by pat_completeness auto
termination
proof (relation "measure length", goal_cases)
  case (3 r rs)
  then show ?case using length_dropWhile_le [of "\<lambda>x. x \<noteq> apostrophe" rs] by simp
qed auto

declare layout_runes.simps(2) [simp del]

definition GetLayout :: "string \<Rightarrow> string" where
  "GetLayout format = layout_runes (runes format)"

text \<open>The parsers hand the layout to the standard library, a parameter here.\<close>

definition Parse :: "(string \<Rightarrow> string \<Rightarrow> string + 't) \<Rightarrow> string \<Rightarrow> string \<Rightarrow> string + 't" where
  "Parse time_Parse format v = time_Parse (GetLayout format) v"

definition ParseInLocation ::
  "(string \<Rightarrow> string + 'loc) \<Rightarrow> (string \<Rightarrow> string \<Rightarrow> 'loc \<Rightarrow> string + 't) \<Rightarrow> string \<Rightarrow> string \<Rightarrow> string \<Rightarrow> string + 't" where
  "ParseInLocation load parse format v timezone =
     (case load timezone of Inl e \<Rightarrow> Inl e | Inr location \<Rightarrow> parse (GetLayout format) v location)"

definition ParseInLocationDirect ::
  "(string \<Rightarrow> string \<Rightarrow> 'loc \<Rightarrow> string + 't) \<Rightarrow> string \<Rightarrow> string \<Rightarrow> 'loc \<Rightarrow> string + 't" where
  "ParseInLocationDirect parse format v timezone = parse (GetLayout format) v timezone"


section \<open>Facts\<close>

lemma prepend_simps [simp]: "prepend s (Some t) = Some (s @ t)" "prepend s None = None"
  "prepend s x = Some u \<longleftrightarrow> (\<exists>t. x = Some t \<and> u = s @ t)" "prepend s x = None \<longleftrightarrow> x = None"
  by (auto simp: prepend_def)

lemma prepend_prepend [simp]: "prepend s (prepend t x) = prepend (s @ t) x"
  by (cases x) simp_all

text \<open>Letters the switch of \<open>Format\<close> knows.\<close>

definition joda_letter :: "rune \<Rightarrow> bool" where
  "joda_letter r \<longleftrightarrow> r \<in> byte ` set ''YyxDwMdeEhHmsSZKkazGC''"

lemma run_field_None: "\<not> joda_letter r \<Longrightarrow> run_field d r = None"
  by (simp add: joda_letter_def run_field_def)

lemma single_field_literal: "\<not> joda_letter r \<Longrightarrow> single_field d r = Some (encode_rune r)"
  by (simp add: joda_letter_def single_field_def)

lemma format_literal:
  assumes "list_all (\<lambda>r. \<not> joda_letter r \<and> r \<noteq> apostrophe) rs"
  shows "format_runes d (rs @ ts) = prepend (utf8 rs) (format_runes d ts)"
  using assms
  by (induction rs) (simp_all add: format_runes.simps(2) run_field_None single_field_literal prepend_def option.map_comp comp_def option.map_ident)

text \<open>Quoted text is copied, a doubled apostrophe outside of it is one apostrophe.\<close>

lemma takeWhile_quoted: "apostrophe \<notin> set rs \<Longrightarrow> takeWhile (\<lambda>x. x \<noteq> apostrophe) (rs @ apostrophe # ts) = rs"
  by (induction rs) auto

lemma dropWhile_quoted: "apostrophe \<notin> set rs \<Longrightarrow> dropWhile (\<lambda>x. x \<noteq> apostrophe) (rs @ apostrophe # ts) = apostrophe # ts"
  by (induction rs) auto

lemma format_quoted:
  assumes "rs \<noteq> []" and "apostrophe \<notin> set rs"
  shows "format_runes d (apostrophe # rs @ apostrophe # ts) = prepend (utf8 rs) (format_runes d ts)"
proof -
  have "hd (rs @ apostrophe # ts) \<noteq> apostrophe" using assms by (cases rs) auto
  then show ?thesis
    by (simp add: format_runes.simps(2) takeWhile_quoted [OF assms(2)] dropWhile_quoted [OF assms(2)])
qed

lemma format_double: "format_runes d (apostrophe # apostrophe # ts) = prepend [CHR 0x27] (format_runes d ts)"
  by (simp add: format_runes.simps(2))

lemma layout_quoted:
  assumes "rs \<noteq> []" and "apostrophe \<notin> set rs"
  shows "layout_runes (apostrophe # rs @ apostrophe # ts) = utf8 rs @ layout_runes ts"
proof -
  have "hd (rs @ apostrophe # ts) \<noteq> apostrophe" using assms by (cases rs) auto
  then show ?thesis
    by (simp add: layout_runes.simps(2) takeWhile_quoted [OF assms(2)] dropWhile_quoted [OF assms(2)])
qed

lemma layout_double: "layout_runes (apostrophe # apostrophe # ts) = CHR 0x27 # layout_runes ts"
  by (simp add: layout_runes.simps(2))

text \<open>A run of one letter followed by something else.\<close>

lemma format_run:
  assumes "run_field d r = Some f" and "r \<noteq> apostrophe" and "0 < n" and "ts = [] \<or> hd ts \<noteq> r"
  shows "format_runes d (replicate n r @ ts) = prepend (f n) (format_runes d ts)"
proof -
  obtain k where n: "n = Suc k" using assms(3) by (cases n) auto
  have "run_length r ts = 0" using assms(4) by (cases ts) auto
  then have "run_length r (replicate k r @ ts) = k" "drop k (replicate k r @ ts) = ts" by simp_all
  then show ?thesis using assms(1,2) n by (simp add: format_runes.simps(2))
qed


lemma length_itoa_short: "length (itoa y) < 2 \<longleftrightarrow> 0 \<le> y \<and> y \<le> 9"
proof -
  consider "y < 0" | "0 \<le> y" "y \<le> 9" | "10 \<le> y" by linarith
  then show ?thesis
  proof cases
    case 1 then show ?thesis by (cases "itoa_nat (nat (- y))") (auto simp: itoa_def)
  next
    case 2 then show ?thesis using length_itoa_nat(1) [of "nat y"] by (simp add: itoa_def)
  next
    case 3
    then have "10 \<le> nat y" by simp
    from length_itoa_nat_ge2 [OF this] have "2 \<le> length (itoa y)" using 3 by (simp add: itoa_def)
    then show ?thesis using 3 by linarith
  qed
qed

lemma single_field_panic:
  "single_field d r = None \<Longrightarrow> r = byte (CHR ''C'') \<and> 0 \<le> Year d \<and> Year d \<le> 9"
  by (auto simp: single_field_def century_field_def Let_def length_itoa_short split: if_splits)

lemma in_set_after: "x \<in> set (tl (dropWhile P rs)) \<Longrightarrow> x \<in> set rs"
proof -
  assume "x \<in> set (tl (dropWhile P rs))"
  then have "x \<in> set (dropWhile P rs)" by (cases "dropWhile P rs") auto
  then show ?thesis using set_dropWhileD by fast
qed

lemma format_panic:
  "format_runes d rs = None \<Longrightarrow> byte (CHR ''C'') \<in> set rs \<and> 0 \<le> Year d \<and> Year d \<le> 9"
proof (induction d rs rule: format_runes.induct)
  case (2 d r rs)
  show ?case
  proof (cases "r = apostrophe")
    case True
    show ?thesis
    proof (cases "rs \<noteq> [] \<and> hd rs = apostrophe")
      case t: True
      then have "format_runes d (tl rs) = None" using 2(5) True by (simp add: format_runes.simps(2))
      then show ?thesis using 2(1) [OF True t] list.set_sel(2) [of rs] t by auto
    next
      case False
      then have "format_runes d (tl (dropWhile (\<lambda>x. x \<noteq> apostrophe) rs)) = None"
        using 2(5) True by (simp only: format_runes.simps(2) if_True if_False prepend_simps simp_thms)
      then show ?thesis using 2(2) [OF True False] in_set_after by (metis list.set_intros(2))
    qed
  next
    case False
    show ?thesis
    proof (cases "run_field d r")
      case (Some f)
      then have "format_runes d (drop (run_length r rs) rs) = None"
        using 2(5) False by (simp add: format_runes.simps(2))
      then show ?thesis using 2(4) [OF False Some] in_set_dropD by (metis list.set_intros(2))
    next
      case None
      show ?thesis
      proof (cases "single_field d r")
        case n: None
        then show ?thesis using single_field_panic by auto
      next
        case (Some s)
        then have "format_runes d rs = None" using 2(5) False None by (simp add: format_runes.simps(2))
        then show ?thesis using 2(3) [OF False None Some] by auto
      qed
    qed
  qed
qed simp

text \<open>Text of any kind as a pattern: every rune quoted on its own, an apostrophe doubled.\<close>

definition joda_quote :: "rune list \<Rightarrow> rune list" where
  "joda_quote rs = concat (map (\<lambda>r. if r = apostrophe then [apostrophe, apostrophe] else [apostrophe, r, apostrophe]) rs)"

lemma encode_apostrophe: "encode_rune apostrophe = [CHR 0x27]"
proof -
  have "char_of (39 :: nat) = CHR 0x27" by code_simp
  then show ?thesis by (simp add: apostrophe_def)
qed

lemma format_joda_quote: "format_runes d (joda_quote rs @ ts) = prepend (utf8 rs) (format_runes d ts)"
proof (induction rs)
  case Nil show ?case by (cases "format_runes d ts") (simp_all add: joda_quote_def)
next
  case (Cons r rs)
  have q: "joda_quote (r # rs) @ ts = (if r = apostrophe then [apostrophe, apostrophe] else [apostrophe, r, apostrophe]) @ (joda_quote rs @ ts)"
    by (simp add: joda_quote_def)
  show ?case
    using format_quoted [of "[r]" d "joda_quote rs @ ts"] format_double [of d "joda_quote rs @ ts"] Cons encode_apostrophe
    unfolding q by simp
qed

lemma layout_joda_quote: "layout_runes (joda_quote rs @ ts) = utf8 rs @ layout_runes ts"
proof (induction rs)
  case Nil show ?case by (simp add: joda_quote_def)
next
  case (Cons r rs)
  have q: "joda_quote (r # rs) @ ts = (if r = apostrophe then [apostrophe, apostrophe] else [apostrophe, r, apostrophe]) @ (joda_quote rs @ ts)"
    by (simp add: joda_quote_def)
  show ?case
    using layout_quoted [of "[r]" "joda_quote rs @ ts"] layout_double [of "joda_quote rs @ ts"] Cons encode_apostrophe
    unfolding q by simp
qed

lemma joda_quote_valid: "list_all valid_rune rs \<Longrightarrow> list_all valid_rune (joda_quote rs)"
  by (induction rs) (auto simp: joda_quote_def valid_rune_def apostrophe_def)

section \<open>Properties\<close>

text \<open>
  \<open>Format\<close> panics on no pattern and no time, but for the century letter \<open>C\<close> in the years 0 to 9;
  what that letter prints is the century exactly for the years with four digits among those from 0 on,
  and for three-digit years it prints the first two digits.
\<close>

theorem Format_total:
  "(Format format d = None \<longrightarrow> byte (CHR ''C'') \<in> set (runes format) \<and> 0 \<le> Year d \<and> Year d \<le> 9)
   \<and> (Format ''C'' d = None \<longleftrightarrow> 0 \<le> Year d \<and> Year d \<le> 9)
   \<and> (1000 \<le> Year d \<and> Year d \<le> 9999 \<longrightarrow> Format ''C'' d = Some (itoa (Year d div 100)))
   \<and> (100 \<le> Year d \<and> Year d \<le> 999 \<longrightarrow> Format ''C'' d = Some (itoa (Year d div 10)))"
proof -
  have C: "Format ''C'' d = century_field d"
    by (simp add: Format_def format_runes.simps(2) apostrophe_def run_field_def single_field_def
        split: option.splits)
  have step: "itoa_nat n = itoa_nat (n div 10) @ [digit_char (n mod 10)]" if "10 \<le> n" for n
    using that by (rule itoa_nat_step)
  have two: "length (itoa_nat n) = 2" if "10 \<le> n" "n \<le> 99" for n
    using that length_itoa_nat(2) [of n] by simp
  have h3: "century_field d = Some (itoa (Year d div 10))" if y: "100 \<le> Year d" "Year d \<le> 999"
  proof -
    have n: "10 \<le> nat (Year d) div 10" "nat (Year d) div 10 \<le> 99" "10 \<le> nat (Year d)" using y by auto
    have "nat (Year d) div 10 = nat (Year d div 10)" using y by (simp add: nat_div_distrib)
    then show ?thesis using y two [OF n(1,2)] step [OF n(3)] by (simp add: century_field_def itoa_def Let_def)
  qed
  have h4: "century_field d = Some (itoa (Year d div 100))" if y: "1000 \<le> Year d" "Year d \<le> 9999"
  proof -
    let ?n = "nat (Year d)"
    have n: "10 \<le> ?n div 10 div 10" "?n div 10 div 10 \<le> 99" "10 \<le> ?n div 10" "10 \<le> ?n" using y by auto
    have "?n div 10 div 10 = nat (Year d div 100)" using y by (simp add: nat_div_distrib div_mult2_eq [symmetric])
    then show ?thesis
      using y two [OF n(1,2)] step [OF n(4)] step [OF n(3)] by (simp add: century_field_def itoa_def Let_def)
  qed
  have p: "byte (CHR ''C'') \<in> set (runes format) \<and> 0 \<le> Year d \<and> Year d \<le> 9" if "Format format d = None"
    using that format_panic unfolding Format_def by blast
  show ?thesis
    using p h3 h4 unfolding C
    by (auto simp: century_field_def Let_def length_itoa_short)
qed

definition noon :: date where
  "noon = \<lparr>Year = 987, Month = 6, Day = 5, YearDay = 156, ISOWeek = 23, Weekday = 2, Hour = 12, Minute = 30,
     Second = 0, Nanosecond = 0, zone_name = ''IST'', zone_offset = 19800\<rparr>"

theorem Format_total_witness: "Format ''C'' noon = Some ''98''"
proof -
  have "Format ''C'' noon = Some (itoa (Year noon div 10))"
    using Format_total [of "[]" noon] by (simp add: noon_def)
  then show ?thesis by (simp add: noon_def itoa_def itoa_nat_step itoa_nat_small)
qed

text \<open>
  Every text has a pattern: with its runes quoted, both \<open>Format\<close> and \<open>GetLayout\<close> give back exactly
  the text, apostrophes and letters of the pattern language included.
\<close>

theorem quoted_text_is_literal:
  assumes "list_all valid_rune rs"
  shows "Format (utf8 (joda_quote rs)) d = Some (utf8 rs) \<and> GetLayout (utf8 (joda_quote rs)) = utf8 rs"
  using format_joda_quote [of d rs "[]"] layout_joda_quote [of rs "[]"] runes_utf8 [OF joda_quote_valid [OF assms]]
  by (simp add: Format_def GetLayout_def)

theorem quoted_text_is_literal_witness:
  "Format (utf8 (joda_quote [39, 121, 0x1F600])) noon = Some (utf8 [39, 121, 0x1F600])"
  using quoted_text_is_literal [of "[39, 121, 0x1F600]" noon] by (simp add: valid_rune_def)


text \<open>What a calendar guarantees of the fields, in the years with four digits.\<close>

definition proper_date :: "date \<Rightarrow> bool" where
  "proper_date d \<longleftrightarrow> 1000 \<le> Year d \<and> Year d \<le> 9999 \<and> Month d < 100 \<and> Day d < 100
     \<and> Hour d < 24 \<and> Minute d < 60 \<and> Second d < 60"

definition date_key :: "date \<Rightarrow> nat" where
  "date_key d = ((((nat (Year d) * 100 + Month d) * 100 + Day d) * 100 + Hour d) * 100 + Minute d) * 100 + Second d"

lemma pad2_facts:
  assumes "v < 100"
  shows "length (pad2 v) = 2 \<and> list_all is_digit (pad2 v) \<and> num_val (pad2 v) = v"
proof (cases "v < 10")
  case True
  then show ?thesis by (simp add: pad2_def itoa_nat_small num_val_def) (simp add: is_digit_def digit_val_def)
next
  case False
  then show ?thesis using assms by (simp add: pad2_def length_itoa_nat(2) itoa_nat_digits)
qed

lemma year_facts:
  assumes "1000 \<le> y" "y \<le> 9999"
  shows "length (itoa y) = 4 \<and> list_all is_digit (itoa y) \<and> num_val (itoa y) = nat y"
proof -
  have "10 \<le> nat y" "10 \<le> nat y div 10" "10 \<le> nat y div 10 div 10" "nat y div 10 div 10 < 100"
    using assms by auto
  then have "length (itoa_nat (nat y)) = 4"
    using itoa_nat_step [of "nat y"] itoa_nat_step [of "nat y div 10"] length_itoa_nat(2) [of "nat y div 10 div 10"]
    by simp
  then show ?thesis using assms by (simp add: itoa_def itoa_nat_digits)
qed

lemma digits_order:
  assumes "length s = length t" "list_all is_digit s" "list_all is_digit t"
  shows "(s < t \<longleftrightarrow> num_val s < num_val t) \<and> (s = t \<longleftrightarrow> num_val s = num_val t)"
  using digits_less_iff [OF assms] digits_less_iff [OF assms(1) [symmetric] assms(3,2)]
  by (metis less_irrefl linorder_neqE_nat linorder_less_linear)

lemma radix_order:
  assumes "a < 100" "b < (100 :: nat)"
  shows "(x * 100 + a < y * 100 + b \<longleftrightarrow> x < y \<or> x = y \<and> a < b) \<and> (x * 100 + a = y * 100 + b \<longleftrightarrow> x = y \<and> a = b)"
  using assms by (cases x y rule: linorder_cases) auto

text \<open>One more field at the end of two strings of equal length.\<close>

lemma field_order:
  assumes "length s = length t" and "(s < t \<longleftrightarrow> m < n) \<and> (s = t \<longleftrightarrow> m = n)" and "a < 100" "b < 100"
  shows "(s @ c # pad2 a < t @ c # pad2 b \<longleftrightarrow> m * 100 + a < n * 100 + b)
    \<and> (s @ c # pad2 a = t @ c # pad2 b \<longleftrightarrow> m * 100 + a = n * 100 + b)"
proof -
  have p: "(pad2 a < pad2 b \<longleftrightarrow> a < b) \<and> (pad2 a = pad2 b \<longleftrightarrow> a = b)"
    using digits_order [of "pad2 a" "pad2 b"] pad2_facts [OF assms(3)] pad2_facts [OF assms(4)] by simp
  have "s @ c # pad2 a = t @ c # pad2 b \<longleftrightarrow> s = t \<and> pad2 a = pad2 b" using assms(1) by simp
  then show ?thesis
    using assms(2) p radix_order [OF assms(3,4), of m n] by (simp add: append_less_iff [OF assms(1)])
qed

definition timestamp_pattern :: string where
  "timestamp_pattern = ''yyyy-MM-dd HH:mm:ss''"

lemma separators: "char_of (45 :: nat) = CHR ''-''" "char_of (32 :: nat) = CHR '' ''" "char_of (58 :: nat) = CHR '':''"
  by code_simp+

lemma format_timestamp:
  "Format timestamp_pattern d =
     Some (((((itoa (Year d) @ CHR ''-'' # pad2 (Month d)) @ CHR ''-'' # pad2 (Day d)) @ CHR '' '' # pad2 (Hour d))
        @ CHR '':'' # pad2 (Minute d)) @ CHR '':'' # pad2 (Second d))"
proof -
  have r: "runes timestamp_pattern = map byte timestamp_pattern"
    by (rule runes_ascii) (simp add: timestamp_pattern_def)
  show ?thesis
    unfolding Format_def r timestamp_pattern_def
    by (simp add: format_runes.simps(2) apostrophe_def run_field_def single_field_def year_field_def month_field_def
        day_field_def hour_field_def minute_field_def second_field_def plain_field_def)
       (simp add: separators)
qed

text \<open>
  Time stamps sort as times: printed with \<open>yyyy-MM-dd HH:mm:ss\<close>, times of the years 1000 to 9999 give
  strings of 19 bytes whose byte order is the order of the times, and distinct times distinct strings.
\<close>

theorem timestamp_order:
  assumes "proper_date d" and "proper_date e"
  shows "\<exists>s t. Format timestamp_pattern d = Some s \<and> Format timestamp_pattern e = Some t
     \<and> length s = 19 \<and> (s < t \<longleftrightarrow> date_key d < date_key e) \<and> (s = t \<longleftrightarrow> date_key d = date_key e)"
proof -
  have b: "Month x < 100 \<and> Day x < 100 \<and> Hour x < 100 \<and> Minute x < 100 \<and> Second x < 100" if "proper_date x" for x
    using that by (simp add: proper_date_def)
  have y: "length (itoa (Year x)) = 4 \<and> list_all is_digit (itoa (Year x)) \<and> num_val (itoa (Year x)) = nat (Year x)"
    if "proper_date x" for x using that by (intro year_facts) (simp_all add: proper_date_def)
  have p: "length (pad2 v) = 2" if "v < 100" for v using pad2_facts [OF that] by blast
  note bd = b [OF assms(1)] b [OF assms(2)] y [OF assms(1)] y [OF assms(2)]
  have 0: "(itoa (Year d) < itoa (Year e) \<longleftrightarrow> nat (Year d) < nat (Year e)) \<and> (itoa (Year d) = itoa (Year e) \<longleftrightarrow> nat (Year d) = nat (Year e))"
    using digits_order [of "itoa (Year d)" "itoa (Year e)"] bd by simp
  have 1: "(itoa (Year d) @ CHR ''-'' # pad2 (Month d) < itoa (Year e) @ CHR ''-'' # pad2 (Month e)
      \<longleftrightarrow> nat (Year d) * 100 + Month d < nat (Year e) * 100 + Month e)
    \<and> (itoa (Year d) @ CHR ''-'' # pad2 (Month d) = itoa (Year e) @ CHR ''-'' # pad2 (Month e)
      \<longleftrightarrow> nat (Year d) * 100 + Month d = nat (Year e) * 100 + Month e)"
    using bd by (intro field_order [OF _ 0]) simp_all
  note 2 = field_order [OF _ 1, of "Day d" "Day e" "CHR ''-''"]
  note 3 = field_order [OF _ 2, of "Hour d" "Hour e" "CHR '' ''"]
  note 4 = field_order [OF _ 3, of "Minute d" "Minute e" "CHR '':''"]
  note 5 = field_order [OF _ 4, of "Second d" "Second e" "CHR '':''"]
  let ?S = "\<lambda>x. ((((itoa (Year x) @ CHR ''-'' # pad2 (Month x)) @ CHR ''-'' # pad2 (Day x)) @ CHR '' '' # pad2 (Hour x))
        @ CHR '':'' # pad2 (Minute x)) @ CHR '':'' # pad2 (Second x)"
  have "(?S d < ?S e \<longleftrightarrow> date_key d < date_key e) \<and> (?S d = ?S e \<longleftrightarrow> date_key d = date_key e)"
    unfolding date_key_def by (rule 5; use bd in \<open>simp add: p\<close>)
  moreover have "length (?S d) = 19" using bd by (simp add: p)
  ultimately show ?thesis unfolding format_timestamp by blast
qed

theorem timestamp_order_witness:
  "\<exists>s t. Format timestamp_pattern (noon\<lparr>Year := 1987\<rparr>) = Some s
     \<and> Format timestamp_pattern (noon\<lparr>Year := 1987, Second := 1\<rparr>) = Some t \<and> s < t"
proof -
  have v: "proper_date (noon\<lparr>Year := 1987\<rparr>)" "proper_date (noon\<lparr>Year := 1987, Second := 1\<rparr>)"
    by (simp_all add: proper_date_def noon_def)
  have "date_key (noon\<lparr>Year := 1987\<rparr>) < date_key (noon\<lparr>Year := 1987, Second := 1\<rparr>)"
    by (simp add: date_key_def noon_def)
  then show ?thesis using timestamp_order [OF v] by blast
qed

text \<open>Reading back a zone and a clock.\<close>

definition read_zone :: "string \<Rightarrow> int" where
  "read_zone s =
     (let m = int (num_val (take 2 (drop 1 s))) * 3600 + int (num_val (drop 4 s)) * 60
      in if hd s = CHR ''-'' then - m else m)"

text \<open>
  What is printed can be read back: the offset of the zone (\<open>ZZ\<close>) up to its seconds, towards zero,
  for offsets below 100 hours, and the hour of the day from each of the clocks, the two of 12 hours
  together with the half of the day.
\<close>

theorem clocks_and_zones_readable:
  assumes "Hour d < 24" and "\<bar>zone_offset d\<bar> < 360000"
  shows "read_zone (zone_field d 2) = sgn (zone_offset d) * (\<bar>zone_offset d\<bar> - \<bar>zone_offset d\<bar> mod 60)
     \<and> (let h = num_val (clockhour_half_field d 2) in 1 \<le> h \<and> h \<le> 12
          \<and> Hour d = h mod 12 + (if half_field d = ''PM'' then 12 else 0))
     \<and> (let K = num_val (hour_half_field d 2) in K \<le> 11
          \<and> Hour d = K + (if half_field d = ''PM'' then 12 else 0))
     \<and> (let k = num_val (clockhour_field d 2) in 1 \<le> k \<and> k \<le> 24 \<and> Hour d = k mod 24)
     \<and> num_val (hour_field d 2) = Hour d"
proof -
  have p: "num_val (pad2 v) = v" if "v < 100" for v using pad2_facts [OF that] by blast
  have l: "length (pad2 v) = 2" if "v < 100" for v using pad2_facts [OF that] by blast
  define a where "a = nat \<bar>zone_offset d\<bar>"
  have "a < 100 * 3600" using assms(2) by (simp add: a_def)
  then have b1: "a div 3600 < 100" by (rule less_mult_imp_div_less)
  have "a mod 3600 < 100 * 60" by (rule less_trans [OF mod_less_divisor]) simp_all
  then have b2: "a mod 3600 div 60 < 100" by (rule less_mult_imp_div_less)
  note b = b1 b2
  have m: "int (a div 3600) * 3600 + int (a mod 3600 div 60) * 60 = \<bar>zone_offset d\<bar> - \<bar>zone_offset d\<bar> mod 60"
  proof -
    have "a div 3600 * 3600 + a mod 3600 div 60 * 60 + a mod 60 = a"
    proof -
      have "a mod 3600 mod 60 = a mod 60" by (rule mod_mod_cancel) simp
      then show ?thesis using div_mult_mod_eq [of a 3600] div_mult_mod_eq [of "a mod 3600" 60] by linarith
    qed
    then have "int (a div 3600 * 3600 + a mod 3600 div 60 * 60 + a mod 60) = int a" by (rule arg_cong)
    then have "int (a div 3600) * 3600 + int (a mod 3600 div 60) * 60 + int (a mod 60) = int a"
      unfolding of_nat_add of_nat_mult of_nat_numeral .
    moreover have "int a = \<bar>zone_offset d\<bar>" by (simp add: a_def)
    moreover have "int (a mod 60) = \<bar>zone_offset d\<bar> mod 60" by (simp add: a_def zmod_int)
    ultimately show ?thesis by linarith
  qed
  have "read_zone (zone_field d 2) = (if zone_offset d < 0 then - (\<bar>zone_offset d\<bar> - \<bar>zone_offset d\<bar> mod 60)
      else \<bar>zone_offset d\<bar> - \<bar>zone_offset d\<bar> mod 60)"
    unfolding m [symmetric] by (simp add: read_zone_def zone_field_def Let_def a_def [symmetric] p [OF b(1)] p [OF b(2)] l [OF b(1)])
  then have z: "read_zone (zone_field d 2) = sgn (zone_offset d) * (\<bar>zone_offset d\<bar> - \<bar>zone_offset d\<bar> mod 60)"
    by (simp add: sgn_if)
  have h: "clock_12 (Hour d) \<le> 12" "1 \<le> clock_12 (Hour d)" using assms(1) by (auto simp: clock_12_def)
  have half: "half_field d = ''PM'' \<longleftrightarrow> 12 \<le> Hour d" by (simp add: half_field_def)
  have "num_val (clockhour_half_field d 2) = clock_12 (Hour d)"
    using h by (simp add: clockhour_half_field_def plain_field_def p)
  moreover have "Hour d = clock_12 (Hour d) mod 12 + (if 12 \<le> Hour d then 12 else 0)"
    using assms(1) by (auto simp: clock_12_def)
  moreover have "num_val (hour_half_field d 2) = (if 12 \<le> Hour d then Hour d - 12 else Hour d)"
    using assms(1) by (simp add: hour_half_field_def plain_field_def p)
  moreover have "num_val (clockhour_field d 2) = (if Hour d = 0 then 24 else Hour d)"
    using assms(1) by (simp add: clockhour_field_def p num_val_itoa_nat del: itoa_nat.simps)
  moreover have "num_val (hour_field d 2) = Hour d"
    using assms(1) by (simp add: hour_field_def plain_field_def p)
  moreover have "Hour d - 12 \<le> 11" using assms(1) by simp
  ultimately show ?thesis unfolding half Let_def using z h assms(1) by simp
qed

theorem clocks_and_zones_readable_witness: "read_zone (zone_field noon 2) = 19800"
  using clocks_and_zones_readable [of noon] by (simp add: noon_def)

end
