(* ===== verification/Goredis_Queue.thy ===== *)
theory Goredis_Queue
  imports Go_Strings "HOL-Library.Product_Lexorder" "HOL-Library.Multiset"
begin

text \<open>
  The package \<open>goredis\<close>: the configuration and the life of an operator (\<open>redis.go\<close>) and the delay queue
  (\<open>queue.go\<close>). The Redis server is modelled by its documented effect of the commands the queue
  uses, on sorted sets, lists and one set; a command fails when the caller says so. Scores are
  milliseconds, integers below 2^53 and so exact as floating-point numbers.
\<close>

section \<open>Configuration\<close>

datatype RedisMode = NoMode | SingleMode | ClusterMode | SentinelMode

record RedisConfig =
  rc_ClientName :: string
  rc_mode :: RedisMode
  rc_Addrs :: "string list"
  rc_Username :: string
  rc_Password :: string
  rc_DB :: int
  rc_MinIdleConns :: int
  rc_MaxIdleConns :: int
  rc_MaxActiveConns :: int
  rc_Retries :: int
  rc_MasterName :: string
  rc_SentinelUsername :: string
  rc_SentinelPassword :: string

text \<open>Go's division truncates.\<close>

definition go_half :: "int \<Rightarrow> int" where
  "go_half x = (if x < 0 then - (- x div 2) else x div 2)"

definition redis_Validate :: "RedisConfig \<Rightarrow> RedisConfig" where
  "redis_Validate c =
     (let c1 = (if rc_MinIdleConns c = 0 then
                  (if rc_MaxIdleConns c = 0 then c\<lparr>rc_MinIdleConns := 5\<rparr>
                   else c\<lparr>rc_MinIdleConns := go_half (rc_MaxIdleConns c) + 1\<rparr>)
                else c);
          c2 = (if rc_MaxIdleConns c1 = 0 then c1\<lparr>rc_MaxIdleConns := 2 * rc_MinIdleConns c1\<rparr> else c1);
          c3 = (if rc_MaxActiveConns c2 = 0 then c2\<lparr>rc_MaxActiveConns := 3 * rc_MinIdleConns c2\<rparr> else c2);
          c4 = (if rc_MasterName c3 \<noteq> [] \<and> rc_mode c3 = NoMode then c3\<lparr>rc_mode := SentinelMode\<rparr> else c3);
          c5 = (if rc_MasterName c4 = [] \<and> length (rc_Addrs c4) > 1 then c4\<lparr>rc_mode := ClusterMode\<rparr> else c4)
      in if rc_mode c5 = NoMode then c5\<lparr>rc_mode := SingleMode\<rparr> else c5)"

section \<open>The server\<close>

text \<open>A sorted set is kept by score and then member, each member once.\<close>

type_synonym zset = "(int \<times> string) list"

record redis =
  zsets :: "string \<Rightarrow> zset"
  lists :: "string \<Rightarrow> string list"
  members :: "string \<Rightarrow> string set"

definition zset_ok :: "zset \<Rightarrow> bool" where
  "zset_ok z \<longleftrightarrow> sorted z \<and> distinct (map snd z)"

definition zadd :: "int \<Rightarrow> string \<Rightarrow> zset \<Rightarrow> zset" where
  "zadd score m z = insort (score, m) (filter (\<lambda>x. snd x \<noteq> m) z)"

text \<open>\<open>zrangebyscore key -inf hi limit 0 n\<close> and \<open>zrem\<close>.\<close>

definition zrange_upto :: "int \<Rightarrow> nat \<Rightarrow> zset \<Rightarrow> string list" where
  "zrange_upto hi n z = map snd (take n (filter (\<lambda>x. fst x \<le> hi) z))"

definition zrem :: "string list \<Rightarrow> zset \<Rightarrow> zset" where
  "zrem ms z = filter (\<lambda>x. snd x \<notin> set ms) z"

section \<open>The operator\<close>

definition CacheKeyWithDelayQueueKey :: string where
  "CacheKeyWithDelayQueueKey = ''potato_delay_queues''"

definition DelayQueueTimeoutPrefix :: string where
  "DelayQueueTimeoutPrefix = ''potato_delay_queue_timeout:''"

text \<open>Durations in milliseconds.\<close>

definition DefaultRetryTimeout :: int where "DefaultRetryTimeout = 5000"
definition DefaultPollingTimeout :: int where "DefaultPollingTimeout = 1000"
definition maxBackoff :: int where "maxBackoff = 120000"

record operator_state =
  delayQueues :: "string set"
  closed :: bool
  cluster :: bool       \<comment> \<open>whether the client is one of a cluster\<close>
  server :: redis

definition lbr :: char where "lbr = CHR 0x7B"
definition rbr :: char where "rbr = CHR 0x7D"

definition delayTimeoutKey :: "bool \<Rightarrow> string \<Rightarrow> string" where
  "delayTimeoutKey is_cluster queue =
     (if is_cluster then DelayQueueTimeoutPrefix @ [lbr] @ queue @ [rbr]
      else DelayQueueTimeoutPrefix @ queue)"

text \<open>The script of \<open>migrateExpiredBody\<close>, which Redis runs as one step; the batch is 100.\<close>

definition migrate_script :: "string \<Rightarrow> string \<Rightarrow> int \<Rightarrow> nat \<Rightarrow> redis \<Rightarrow> nat \<times> redis" where
  "migrate_script from_key to_key now limit r =
     (let expired = zrange_upto now limit (zsets r from_key) in
      if length expired > 0 then
        let r1 = r\<lparr>zsets := (zsets r)(from_key := zrem expired (zsets r from_key))\<rparr>;
            r2 = r1\<lparr>lists := (lists r1)(to_key := lists r1 to_key @ expired)\<rparr>
        in (length expired, r2)
      else (length expired, r))"

definition migrateExpiredBody :: "int \<Rightarrow> string option \<Rightarrow> string \<Rightarrow> string \<Rightarrow> redis \<Rightarrow> string option \<times> redis" where
  "migrateExpiredBody now fault delayQueue readyQueue r =
     (case fault of
        Some e \<Rightarrow> (Some e, r)
      | None \<Rightarrow> (None, snd (migrate_script delayQueue readyQueue now 100 r)))"

text \<open>\<open>migrateSingleQueue\<close> only logs what became of it.\<close>

definition migrateSingleQueue :: "int \<Rightarrow> string option \<Rightarrow> string \<Rightarrow> operator_state \<Rightarrow> operator_state" where
  "migrateSingleQueue now fault delayKey op =
     op\<lparr>server := snd (migrateExpiredBody now fault (delayTimeoutKey (cluster op) delayKey) delayKey (server op))\<rparr>"

text \<open>
  \<open>migrateExpiredBatches\<close> starts one worker per cached queue, ten at a time, and waits for all. Each
  worker's effect is one script, so the workers act in some order, which is the argument here
  together with the clock and the failures they meet.
\<close>

definition migrateExpiredBatches :: "(string \<times> int \<times> string option) list \<Rightarrow> operator_state \<Rightarrow> operator_state" where
  "migrateExpiredBatches order op = fold (\<lambda>(q, now, fault). migrateSingleQueue now fault q) order op"

definition SAdd :: "string option \<Rightarrow> string \<Rightarrow> string \<Rightarrow> redis \<Rightarrow> string option \<times> redis" where
  "SAdd fault key m r =
     (case fault of Some e \<Rightarrow> (Some e, r)
      | None \<Rightarrow> (None, r\<lparr>members := (members r)(key := insert m (members r key))\<rparr>))"

text \<open>The queue is noted locally first, then on the server; the message goes in last.\<close>

definition PushDelayMessage ::
  "int \<Rightarrow> string option \<Rightarrow> string option \<Rightarrow> string \<Rightarrow> string \<Rightarrow> int \<Rightarrow> operator_state \<Rightarrow> string option \<times> operator_state" where
  "PushDelayMessage now sadd_fault zadd_fault queue msg delay op =
     (let key = delayTimeoutKey (cluster op) queue;
          push = (\<lambda>op. case zadd_fault of
                    Some e \<Rightarrow> (Some e, op)
                  | None \<Rightarrow> (None, op\<lparr>server := (server op)\<lparr>zsets := (zsets (server op))(key := zadd (now + delay) msg (zsets (server op) key))\<rparr>\<rparr>))
      in if queue \<in> delayQueues op then push op
         else
           let op1 = op\<lparr>delayQueues := insert queue (delayQueues op)\<rparr> in
           case SAdd sadd_fault CacheKeyWithDelayQueueKey queue (server op1) of
             (Some e, _) \<Rightarrow> (Some e, op1)
           | (None, r) \<Rightarrow> push (op1\<lparr>server := r\<rparr>))"

definition PushMessage :: "string option \<Rightarrow> string \<Rightarrow> string \<Rightarrow> redis \<Rightarrow> string option \<times> redis" where
  "PushMessage fault queue msg r =
     (case fault of Some e \<Rightarrow> (Some e, r)
      | None \<Rightarrow> (None, r\<lparr>lists := (lists r)(queue := lists r queue @ [msg])\<rparr>))"

text \<open>An empty list answers with the error of a missing value.\<close>

definition GetMessage :: "string option \<Rightarrow> string \<Rightarrow> redis \<Rightarrow> (string + string) \<times> redis" where
  "GetMessage fault queue r =
     (case fault of Some e \<Rightarrow> (Inl e, r)
      | None \<Rightarrow> (case lists r queue of
                   [] \<Rightarrow> (Inl ''redis: nil'', r)
                 | m # ms \<Rightarrow> (Inr m, r\<lparr>lists := (lists r)(queue := ms)\<rparr>)))"

text \<open>Closing twice is closing once; the flag is set whatever the client answers.\<close>

definition redis_Close :: "string option \<Rightarrow> operator_state \<Rightarrow> string option \<times> operator_state" where
  "redis_Close client_err op = (if closed op then (None, op) else (client_err, op\<lparr>closed := True\<rparr>))"

section \<open>The daemon\<close>

text \<open>
  The loop of \<open>tryMigrationDaemon\<close>: until the list of queues has been read it waits for the retry
  timer, then it polls. An event is what the \<open>select\<close> receives.
\<close>

datatype daemon = Initialising int | Polling | Exited

datatype daemon_event =
    RetryTimer "string + string list"                      \<comment> \<open>the answer of \<open>SMembers\<close>\<close>
  | PollTick "(string \<times> int \<times> string option) list"
  | CtxDone

definition daemon_step :: "daemon_event \<Rightarrow> daemon \<times> operator_state \<Rightarrow> daemon \<times> operator_state" where
  "daemon_step ev = (\<lambda>(st, op).
     (case st of
        Initialising retryBackoff \<Rightarrow>
          (case ev of
             RetryTimer (Inl e) \<Rightarrow>
               let b = retryBackoff * 2; b' = (if b > maxBackoff then maxBackoff else b)
               in (Initialising b', op)
           | RetryTimer (Inr ms) \<Rightarrow> (Polling, op\<lparr>delayQueues := delayQueues op \<union> set ms\<rparr>)
           | CtxDone \<Rightarrow> (Exited, op)
           | PollTick _ \<Rightarrow> (st, op))
      | Polling \<Rightarrow>
          (case ev of
             PollTick order \<Rightarrow> if closed op then (Exited, op) else (Polling, migrateExpiredBatches order op)
           | CtxDone \<Rightarrow> (Exited, op)
           | RetryTimer _ \<Rightarrow> (st, op))
      | Exited \<Rightarrow> (st, op)))"

definition daemon_start :: daemon where
  "daemon_start = Initialising DefaultRetryTimeout"

text \<open>
  The constructor: which client the library makes from the options and what its ping answers are
  arguments. It starts the daemon with a context that never ends.
\<close>

definition NewRedisOperator :: "(RedisConfig \<Rightarrow> bool) \<Rightarrow> string option \<Rightarrow> redis \<Rightarrow> RedisConfig \<Rightarrow> string + daemon \<times> operator_state" where
  "NewRedisOperator makes_cluster ping srv config =
     (case ping of
        Some e \<Rightarrow> Inl e
      | None \<Rightarrow> Inr (daemon_start, \<lparr>delayQueues = {}, closed = False, cluster = makes_cluster config, server = srv\<rparr>))"

definition daemon_run :: "daemon_event list \<Rightarrow> daemon \<times> operator_state \<Rightarrow> daemon \<times> operator_state" where
  "daemon_run evs s = fold daemon_step evs s"


section \<open>Facts on sorted sets\<close>

lemma due_prefix: "sorted (z :: zset) \<Longrightarrow> filter (\<lambda>x. fst x \<le> now) z = takeWhile (\<lambda>x. fst x \<le> now) z"
proof (induction z)
  case (Cons x z)
  show ?case
  proof (cases "fst x \<le> now")
    case False
    then have "\<not> fst y \<le> now" if "y \<in> set z" for y
      using Cons.prems that by (cases x; cases y) (auto simp: less_eq_prod_def)
    then show ?thesis using False by (simp add: filter_empty_conv)
  qed (use Cons in simp)
qed simp

definition due :: "int \<Rightarrow> zset \<Rightarrow> zset" where
  "due now z = takeWhile (\<lambda>x. fst x \<le> now) z"

lemma take_due: "sorted z \<Longrightarrow> take n (filter (\<lambda>x. fst x \<le> now) z) = take (min n (length (due now z))) z"
proof -
  assume "sorted z"
  then have "take n (filter (\<lambda>x. fst x \<le> now) z) = take n (takeWhile (\<lambda>x. fst x \<le> now) z)" by (simp add: due_prefix)
  also have "takeWhile (\<lambda>x. fst x \<le> now) z = take (length (due now z)) z"
    unfolding due_def by (rule takeWhile_eq_take)
  finally show ?thesis by simp
qed

lemma due_Cons: "due now (x # z) = (if fst x \<le> now then x # due now z else [])"
  by (simp add: due_def)

lemma drop_due: "n \<le> length (due now z) \<Longrightarrow> due now (drop n z) = drop n (due now z)"
proof (induction n arbitrary: z)
  case (Suc n)
  then obtain x z' where z: "z = x # z'" by (cases z) (simp_all add: due_def)
  then have "fst x \<le> now" "n \<le> length (due now z')" using Suc.prems by (simp_all add: due_Cons split: if_splits)
  then show ?case using Suc.IH z by (simp add: due_Cons)
qed simp

lemma zrem_prefix: "distinct (map snd z) \<Longrightarrow> zrem (map snd (take n z)) z = drop n z"
proof (induction z arbitrary: n)
  case (Cons x z)
  show ?case
  proof (cases n)
    case 0 then show ?thesis by (simp add: zrem_def)
  next
    case (Suc k)
    have "zrem (snd x # map snd (take k z)) z = zrem (map snd (take k z)) z"
    proof (unfold zrem_def, rule filter_cong [OF refl])
      fix y assume "y \<in> set z"
      then have "snd y \<noteq> snd x" using Cons.prems by (metis distinct.simps(2) image_eqI list.simps(9) set_map)
      then show "(snd y \<notin> set (snd x # map snd (take k z))) = (snd y \<notin> set (map snd (take k z)))" by simp
    qed
    then show ?thesis using Suc Cons by (simp add: zrem_def)
  qed
qed (simp add: zrem_def)

lemma zset_ok_drop: "zset_ok z \<Longrightarrow> zset_ok (drop n z)"
  by (auto simp: zset_ok_def sorted_wrt_drop drop_map [symmetric])

lemma distinct_insort_snd:
  "m \<notin> snd ` set z \<Longrightarrow> distinct (map snd z) \<Longrightarrow> distinct (map snd (insort (s :: int, m :: string) z))"
  by (induction z) (auto simp: set_insort_key)

lemma zadd_ok: "zset_ok z \<Longrightarrow> zset_ok (zadd s m z)"
  unfolding zset_ok_def zadd_def
  by (intro conjI distinct_insort_snd) (auto simp: sorted_insort sorted_wrt_filter distinct_map_filter)

lemma set_zadd: "set (zadd s m z) = insert (s, m) {x \<in> set z. snd x \<noteq> m}"
  by (simp add: zadd_def set_insort_key)

text \<open>One run of the script takes the front of what is due.\<close>

lemma migrate_script_eq:
  assumes "zset_ok (zsets r from_key)" and "n = min limit (length (due now (zsets r from_key)))"
  shows "migrate_script from_key to_key now limit r =
    (n, r\<lparr>zsets := (zsets r)(from_key := drop n (zsets r from_key)),
          lists := (lists r)(to_key := lists r to_key @ map snd (take n (zsets r from_key)))\<rparr>)"
proof -
  let ?z = "zsets r from_key"
  have len: "length (take n ?z) = n"
    using assms(2) length_takeWhile_le [of "\<lambda>x. fst x \<le> now" ?z] by (simp add: due_def)
  have e: "zrange_upto now limit ?z = map snd (take n ?z)"
    using assms by (simp add: zrange_upto_def zset_ok_def take_due)
  have z: "zrem (map snd (take n ?z)) ?z = drop n ?z"
    using assms(1) by (simp add: zset_ok_def zrem_prefix)
  show ?thesis
  proof (cases "n = 0")
    case True
    then show ?thesis unfolding migrate_script_def e Let_def length_map len by simp
  next
    case False
    then show ?thesis unfolding migrate_script_def e Let_def length_map len z by simp
  qed
qed

fun migrate_rounds :: "nat \<Rightarrow> string \<Rightarrow> string \<Rightarrow> int \<Rightarrow> redis \<Rightarrow> redis" where
  "migrate_rounds 0 from_key to_key now r = r"
| "migrate_rounds (Suc k) from_key to_key now r =
     migrate_rounds k from_key to_key now (snd (migrateExpiredBody now None from_key to_key r))"

lemma migrate_rounds_eq:
  assumes "zset_ok (zsets r from_key)" and "n = min (100 * k) (length (due now (zsets r from_key)))"
  shows "migrate_rounds k from_key to_key now r =
     r\<lparr>zsets := (zsets r)(from_key := drop n (zsets r from_key)),
       lists := (lists r)(to_key := lists r to_key @ map snd (take n (zsets r from_key)))\<rparr>"
  using assms
proof (induction k arbitrary: r n)
  case 0 then show ?case by simp
next
  case (Suc k)
  let ?z = "zsets r from_key"
  define m where "m = min 100 (length (due now ?z))"
  let ?r = "r\<lparr>zsets := (zsets r)(from_key := drop m ?z), lists := (lists r)(to_key := lists r to_key @ map snd (take m ?z))\<rparr>"
  have s: "snd (migrateExpiredBody now None from_key to_key r) = ?r"
    using migrate_script_eq [OF Suc.prems(1) m_def] by (simp add: migrateExpiredBody_def)
  have ok: "zset_ok (zsets ?r from_key)" using Suc.prems(1) by (simp add: zset_ok_drop)
  have d: "due now (zsets ?r from_key) = drop m (due now ?z)" by (simp add: drop_due m_def)
  define j where "j = min (100 * k) (length (due now (zsets ?r from_key)))"
  have n: "n = m + j" using Suc.prems(2) unfolding j_def d by (auto simp: m_def min_def)
  have "migrate_rounds k from_key to_key now ?r =
      ?r\<lparr>zsets := (zsets ?r)(from_key := drop j (zsets ?r from_key)),
         lists := (lists ?r)(to_key := lists ?r to_key @ map snd (take j (zsets ?r from_key)))\<rparr>"
    by (rule Suc.IH [OF ok j_def])
  moreover have "drop n ?z = drop j (drop m ?z)" by (simp add: n add.commute)
  moreover have "take n ?z = take m ?z @ take j (drop m ?z)" by (simp add: n take_add)
  ultimately show ?case using s by (simp add: fun_upd_def cong: if_cong)
qed

section \<open>Properties\<close>

text \<open>
  C4. One migration of a delay queue: the messages whose time has come, at most 100 and the earliest
  first, leave the sorted set and join the ready list in that order; none is lost, doubled or early,
  nothing else changes, and fewer than 100 moved means that none is left that is due.
\<close>

theorem migrate_conserves:
  assumes "zset_ok (zsets r from_key)" and "migrateExpiredBody now None from_key to_key r = (e, r')"
  shows "\<exists>moved. lists r' = (lists r)(to_key := lists r to_key @ map snd moved)
     \<and> zsets r from_key = moved @ zsets r' from_key
     \<and> (\<forall>k. k \<noteq> from_key \<longrightarrow> zsets r' k = zsets r k) \<and> members r' = members r
     \<and> length moved \<le> 100 \<and> (\<forall>x \<in> set moved. fst x \<le> now)
     \<and> (length moved < 100 \<longrightarrow> (\<forall>x \<in> set (zsets r' from_key). now < fst x))
     \<and> mset (map snd (zsets r' from_key)) + mset (lists r' to_key) = mset (map snd (zsets r from_key)) + mset (lists r to_key)
     \<and> zset_ok (zsets r' from_key)"
proof -
  let ?z = "zsets r from_key"
  define n where "n = min 100 (length (due now ?z))"
  let ?m = "take n ?z"
  have r': "r' = r\<lparr>zsets := (zsets r)(from_key := drop n ?z), lists := (lists r)(to_key := lists r to_key @ map snd ?m)\<rparr>"
    using migrate_script_eq [OF assms(1) n_def] assms(2) by (auto simp: migrateExpiredBody_def)
  have due: "due now ?z = take (length (due now ?z)) ?z" unfolding due_def by (rule takeWhile_eq_take)
  have "?m = take n (due now ?z)" by (subst due) (simp add: n_def)
  then have early: "\<forall>x \<in> set ?m. fst x \<le> now" by (auto simp: due_def dest: set_takeWhileD in_set_takeD)
  have "now < fst x" if "length ?m < 100" "x \<in> set (drop n ?z)" for x
  proof -
    have "length (due now ?z) \<le> length ?z" by (simp add: due_def length_takeWhile_le)
    then have n: "n = length (due now ?z)" using that(1) by (simp add: n_def split: if_splits)
    then have "drop n ?z = filter (\<lambda>x. \<not> fst x \<le> now) ?z"
    proof -
      have "drop n ?z = dropWhile (\<lambda>x. fst x \<le> now) ?z" unfolding n due_def by (rule dropWhile_eq_drop [symmetric])
      moreover have "filter (\<lambda>x. \<not> fst x \<le> now) (z :: zset) = dropWhile (\<lambda>x. fst x \<le> now) z" if "sorted z" for z
        using that
      proof (induction z)
        case (Cons y z)
        show ?case
        proof (cases "fst y \<le> now")
          case False
          then have "\<forall>w \<in> set z. \<not> fst w \<le> now" using Cons.prems by (cases y) (auto simp: less_eq_prod_def)
          then show ?thesis using False by simp
        qed (use Cons in simp)
      qed simp
      ultimately show ?thesis using assms(1) by (simp add: zset_ok_def)
    qed
    then show ?thesis using that(2) by simp
  qed
  moreover have "mset (map snd (drop n ?z)) + mset (lists r to_key @ map snd ?m) = mset (map snd ?z) + mset (lists r to_key)"
  proof -
    have "mset (map snd ?z) = mset (map snd (take n ?z)) + mset (map snd (drop n ?z))"
      by (metis append_take_drop_id map_append mset_append)
    then show ?thesis by simp
  qed
  moreover have "length ?m \<le> 100" by (simp add: n_def)
  ultimately show ?thesis
    using r' early zset_ok_drop [OF assms(1), of n] by (intro exI [of _ ?m]) simp
qed

definition demo_redis :: redis where
  "demo_redis = \<lparr>zsets = (\<lambda>k. if k = ''z'' then [(5, ''a''), (7, ''b''), (20, ''c'')] else []), lists = (\<lambda>_. []), members = (\<lambda>_. {})\<rparr>"

lemma demo_redis_ok: "zset_ok (zsets demo_redis ''z'')"
  by (simp add: demo_redis_def zset_ok_def)

lemma demo_migrate: "migrateExpiredBody 10 None ''z'' ''q'' demo_redis =
    (None, demo_redis\<lparr>zsets := (zsets demo_redis)(''z'' := [(20, ''c'')]), lists := (lists demo_redis)(''q'' := [''a'', ''b''])\<rparr>)"
  using migrate_script_eq [OF demo_redis_ok, of 2 100 10 "''q''"]
  by (simp add: migrateExpiredBody_def demo_redis_def due_def)

theorem migrate_conserves_witness:
  "\<exists>moved. [(5, ''a''), (7, ''b''), (20, ''c'')] = moved @ [(20 :: int, ''c'')] \<and> length moved \<le> 100"
  using migrate_conserves [OF demo_redis_ok demo_migrate] by (auto simp: demo_redis_def)

text \<open>
  C14. Every due message arrives: enough rounds of migration, one for each hundred messages that are
  due, move all of them to the ready list, in the order of their times, and leave the others.
\<close>

theorem migrate_delivers:
  assumes "zset_ok (zsets r from_key)" and "length (due now (zsets r from_key)) \<le> 100 * k"
  shows "lists (migrate_rounds k from_key to_key now r) to_key = lists r to_key @ map snd (due now (zsets r from_key))
     \<and> due now (zsets (migrate_rounds k from_key to_key now r) from_key) = []
     \<and> zsets r from_key = due now (zsets r from_key) @ zsets (migrate_rounds k from_key to_key now r) from_key"
proof -
  let ?z = "zsets r from_key"
  let ?n = "length (due now ?z)"
  have d: "due now ?z = take ?n ?z" unfolding due_def by (rule takeWhile_eq_take)
  have e: "due now (drop ?n ?z) = []" using drop_due [of ?n now ?z] by simp
  have sp: "?z = due now ?z @ drop ?n ?z" using d append_take_drop_id [of ?n ?z] by simp
  have n: "?n = min (100 * k) ?n" using assms(2) by simp
  show ?thesis
    unfolding migrate_rounds_eq [OF assms(1) n, of to_key] using e sp d by simp
qed

theorem migrate_delivers_witness: "lists (migrate_rounds 1 ''z'' ''q'' 10 demo_redis) ''q'' = [''a'', ''b'']"
  using migrate_delivers [OF demo_redis_ok, of 10 1 "''q''"] by (simp add: demo_redis_def due_def)

text \<open>
  Pushing a delayed message. While the server answers, the message is pending with its due time and
  the queue is registered on the server whenever this operator learns of it. But a registration that
  fails is not made up for: the queue is noted locally before the server is told, so the next push
  of the queue succeeds and leaves it unregistered.
\<close>

theorem PushDelayMessage_registration:
  assumes "queue \<notin> delayQueues op"
  shows "(\<exists>op'. PushDelayMessage now None None queue msg delay op = (None, op')
            \<and> queue \<in> members (server op') CacheKeyWithDelayQueueKey \<and> queue \<in> delayQueues op'
            \<and> set (zsets (server op') (delayTimeoutKey (cluster op) queue)) =
                insert (now + delay, msg) {x \<in> set (zsets (server op) (delayTimeoutKey (cluster op) queue)). snd x \<noteq> msg})
     \<and> (\<exists>op1 op2. PushDelayMessage now (Some e) None queue msg delay op = (Some e, op1)
            \<and> PushDelayMessage now' None None queue msg' delay' op1 = (None, op2)
            \<and> members (server op2) = members (server op)
            \<and> (now' + delay', msg') \<in> set (zsets (server op2) (delayTimeoutKey (cluster op) queue)))"
proof (intro conjI)
  show "\<exists>op'. PushDelayMessage now None None queue msg delay op = (None, op')
      \<and> queue \<in> members (server op') CacheKeyWithDelayQueueKey \<and> queue \<in> delayQueues op'
      \<and> set (zsets (server op') (delayTimeoutKey (cluster op) queue)) =
          insert (now + delay, msg) {x \<in> set (zsets (server op) (delayTimeoutKey (cluster op) queue)). snd x \<noteq> msg}"
    using assms by (simp add: PushDelayMessage_def SAdd_def set_zadd Let_def)
  show "\<exists>op1 op2. PushDelayMessage now (Some e) None queue msg delay op = (Some e, op1)
      \<and> PushDelayMessage now' None None queue msg' delay' op1 = (None, op2)
      \<and> members (server op2) = members (server op)
      \<and> (now' + delay', msg') \<in> set (zsets (server op2) (delayTimeoutKey (cluster op) queue))"
    using assms by (simp add: PushDelayMessage_def SAdd_def set_zadd Let_def)
qed

definition demo_operator :: operator_state where
  "demo_operator = \<lparr>delayQueues = {}, closed = False, cluster = False, server = demo_redis\<rparr>"

theorem PushDelayMessage_registration_witness:
  "\<exists>op1 op2. PushDelayMessage 1 (Some ''down'') None ''q'' ''m'' 9 demo_operator = (Some ''down'', op1)
     \<and> PushDelayMessage 2 None None ''q'' ''n'' 9 op1 = (None, op2) \<and> members (server op2) = members demo_redis"
  using PushDelayMessage_registration [of "''q''" demo_operator 1 "''m''" 9 "''down''" 2 "''n''" 9]
  by (auto simp: demo_operator_def)

text \<open>
  Redis Cluster hashes the text between the first opening brace and the first closing brace after it,
  when both exist and the text is not empty, and otherwise the whole key.
\<close>

definition hash_part :: "string \<Rightarrow> string" where
  "hash_part key =
     (let t = tl (dropWhile (\<lambda>c. c \<noteq> lbr) key); tag = takeWhile (\<lambda>c. c \<noteq> rbr) t
      in if lbr \<in> set key \<and> rbr \<in> set t \<and> tag \<noteq> [] then tag else key)"

text \<open>
  In a cluster the script touches two keys, which must hash alike: they do for every non-empty
  queue name without braces, and not for a name that brings its own hash tag.
\<close>

theorem delayTimeoutKey_slot:
  "(queue \<noteq> [] \<and> lbr \<notin> set queue \<and> rbr \<notin> set queue \<longrightarrow> hash_part (delayTimeoutKey True queue) = hash_part queue)
   \<and> (rbr \<notin> set tag \<and> lbr \<notin> set tag \<and> tag \<noteq> [] \<longrightarrow>
        hash_part (delayTimeoutKey True ([lbr] @ tag @ [rbr] @ rest)) \<noteq> hash_part ([lbr] @ tag @ [rbr] @ rest))"
proof -
  have p: "dropWhile (\<lambda>c. c \<noteq> lbr) (DelayQueueTimeoutPrefix @ lbr # s) = lbr # s" for s
    by (simp add: DelayQueueTimeoutPrefix_def lbr_def)
  have t: "takeWhile (\<lambda>c. c \<noteq> rbr) (q @ rbr # s) = q" if "rbr \<notin> set q" for q s
    using that by (induction q) auto
  have ne: "lbr \<noteq> rbr" by (simp add: lbr_def rbr_def)
  have "hash_part (delayTimeoutKey True queue) = hash_part queue"
    if "queue \<noteq> []" "lbr \<notin> set queue" "rbr \<notin> set queue"
    using that p [of "queue @ [rbr]"] t [of queue "[]"] by (simp add: hash_part_def delayTimeoutKey_def)
  moreover have "hash_part (delayTimeoutKey True ([lbr] @ tag @ [rbr] @ rest)) \<noteq> hash_part ([lbr] @ tag @ [rbr] @ rest)"
    if "rbr \<notin> set tag" "lbr \<notin> set tag" "tag \<noteq> []"
  proof -
    have "hash_part (delayTimeoutKey True ([lbr] @ tag @ [rbr] @ rest)) = lbr # tag"
      using that p [of "lbr # tag @ rbr # rest @ [rbr]"] t [of tag "rest @ [rbr]"] ne
      by (simp add: hash_part_def delayTimeoutKey_def)
    moreover have "hash_part ([lbr] @ tag @ [rbr] @ rest) = tag"
      using that t [of tag rest] by (simp add: hash_part_def)
    ultimately show ?thesis by simp
  qed
  ultimately show ?thesis by blast
qed

theorem delayTimeoutKey_slot_witness: "hash_part (delayTimeoutKey True ''jobs'') = hash_part ''jobs''"
  using delayTimeoutKey_slot [of "''jobs''"] by (simp add: lbr_def rbr_def)

text \<open>
  The daemon. While the list of queues cannot be read the pause doubles from five seconds up to two
  minutes and the daemon stays in this phase, even when the operator is closed, which only the
  polling phase looks at; there a closed operator ends it at the next tick. The end of the context ends
  it in either phase, and the noted queues only grow.
\<close>

theorem daemon_lifecycle:
  "daemon_run (map (\<lambda>e. RetryTimer (Inl e)) errs) (daemon_start, op)
       = (Initialising (min maxBackoff (DefaultRetryTimeout * 2 ^ length errs)), op)
   \<and> (closed op \<longrightarrow> fst (daemon_step (PollTick order) (Polling, op)) = Exited)
   \<and> fst (daemon_step CtxDone (st, op)) = Exited
   \<and> delayQueues op \<subseteq> delayQueues (snd (daemon_step ev (st, op)))"
proof -
  have backoff: "daemon_run (map (\<lambda>e. RetryTimer (Inl e)) errs) (Initialising b, op) = (Initialising (min maxBackoff (b * 2 ^ length errs)), op)"
    if "0 < b" "b \<le> maxBackoff" for b
    using that
  proof (induction errs arbitrary: b)
    case Nil then show ?case by (simp add: daemon_run_def)
  next
    case (Cons e errs)
    let ?b = "if b * 2 > maxBackoff then maxBackoff else b * 2"
    have s: "daemon_run (map (\<lambda>e. RetryTimer (Inl e)) (e # errs)) (Initialising b, op) =
        daemon_run (map (\<lambda>e. RetryTimer (Inl e)) errs) (Initialising ?b, op)"
      by (simp add: daemon_run_def daemon_step_def Let_def)
    have p: "(1 :: int) \<le> 2 ^ length errs" by simp
    have "min maxBackoff (?b * 2 ^ length errs) = min maxBackoff (b * 2 ^ length (e # errs))"
    proof (cases "b * 2 > maxBackoff")
      case True
      then have "maxBackoff * 1 \<le> maxBackoff * 2 ^ length errs" using p by (intro mult_left_mono) (auto simp: maxBackoff_def)
      moreover have "b * 2 * 1 \<le> b * 2 * 2 ^ length errs" using p Cons.prems by (intro mult_left_mono) auto
      ultimately show ?thesis using True by (simp add: min_def)
    qed simp
    moreover have "0 < ?b" "?b \<le> maxBackoff" using Cons.prems by (auto simp: maxBackoff_def)
    ultimately show ?case using s Cons.IH [of ?b] by simp
  qed
  have keep: "delayQueues (migrateExpiredBatches o' op) = delayQueues op" for o' op
  proof -
    have "delayQueues (migrateSingleQueue n f q op) = delayQueues op" for n f q op by (simp add: migrateSingleQueue_def)
    then show ?thesis unfolding migrateExpiredBatches_def by (induction o' arbitrary: op) auto
  qed
  have "fst (daemon_step CtxDone (st, op)) = Exited" by (cases st) (simp_all add: daemon_step_def)
  moreover have "delayQueues op \<subseteq> delayQueues (snd (daemon_step ev (st, op)))"
    by (cases st; cases ev) (auto simp: daemon_step_def Let_def keep split: sum.splits)
  moreover have "closed op \<longrightarrow> fst (daemon_step (PollTick order) (Polling, op)) = Exited" by (simp add: daemon_step_def)
  ultimately show ?thesis
    using backoff [of DefaultRetryTimeout] by (simp add: daemon_start_def DefaultRetryTimeout_def maxBackoff_def)
qed

theorem daemon_lifecycle_witness:
  "fst (daemon_step (PollTick []) (Polling, demo_operator\<lparr>closed := True\<rparr>)) = Exited"
  using daemon_lifecycle [of "[]" "demo_operator\<lparr>closed := True\<rparr>" "[]"] by simp

end
