(* ===== verification/Rabbit_Body.thy ===== *)
theory Rabbit_Body
  imports Go_Strings "HOL-Library.Word"
begin

text \<open>
  \<open>rabbitmqx/body.go\<close>: the bodies of a push and of a consumer, their setters and their validation, and
  the tags of consumers. An embedded struct is a record extension, so a body has the fields of
  \<open>amqp.Publishing\<close> and \<open>PushDelayBody\<close> has those of \<open>ExchangePushBody\<close>. A setter changes its receiver in
  place and returns it: here it returns the changed record, and \<open>None\<close> where the code panics.
\<close>

section \<open>Go maps that may be nil\<close>

type_synonym ('k, 'v) gomap = "('k \<rightharpoonup> 'v) option"

text \<open>Reading a nil map finds nothing; the code makes a map before it writes to one.\<close>

definition gm_get :: "('k, 'v) gomap \<Rightarrow> 'k \<Rightarrow> 'v option" where
  "gm_get m k = (case m of None \<Rightarrow> None | Some f \<Rightarrow> f k)"

definition gm_make :: "('k, 'v) gomap \<Rightarrow> 'k \<rightharpoonup> 'v" where
  "gm_make m = (case m of None \<Rightarrow> Map.empty | Some f \<Rightarrow> f)"

lemma gm_simps [simp]:
  "gm_get None k = None" "gm_get (Some f) k = f k"
  "gm_make None = Map.empty" "gm_make (Some f) = f"
  by (simp_all add: gm_get_def gm_make_def)

lemma gm_make_get: "gm_make m k = gm_get m k"
  by (cases m) auto

section \<open>Values, tables and messages\<close>

text \<open>The values that the code puts into an \<open>amqp.Table\<close>, by their Go type.\<close>

datatype amqp_value = VInt int | VInt64 int | VString string | VUint8 "8 word" | VOther string

type_synonym table = "(string, amqp_value) gomap"

text \<open>\<open>ExchangeType\<close> is a string type: the three constants, the empty string and anything else.\<close>

type_synonym ExchangeType = string

definition Direct :: ExchangeType where "Direct = ''direct''"
definition Fanout :: ExchangeType where "Fanout = ''fanout''"
definition Topic :: ExchangeType where "Topic = ''topic''"

text \<open>\<open>Duration.Milliseconds\<close>: nanoseconds, divided with truncation.\<close>

definition Milliseconds :: "int \<Rightarrow> int" where
  "Milliseconds d = (if d < 0 then - (- d div 1000000) else d div 1000000)"

record Publishing =
  Headers :: table
  ContentType :: string
  ContentEncoding :: string
  DeliveryMode :: "8 word"
  Priority :: "8 word"
  CorrelationId :: string
  ReplyTo :: string
  Expiration :: string
  MessageId :: string
  Timestamp :: int
  MsgType :: string
  UserId :: string
  AppId :: string
  Body :: string

record ExchangePushBody = Publishing +
  eb_OpenConfirm :: bool
  eb_ConfirmedByOrder :: bool
  eb_ExchangeName :: string
  eb_ExchangeType :: ExchangeType
  eb_ExchangeArgs :: table
  eb_RoutingKey :: string
  eb_BindingKeyMap :: "(string, string) gomap"
  eb_QueueArgs :: "(string, table) gomap"

record PushDelayBody = ExchangePushBody +
  DelayTime :: int

record PushBody = Publishing +
  pb_OpenConfirm :: bool
  pb_ConfirmedByOrder :: bool
  pb_ExchangeName :: string
  pb_ExchangeType :: ExchangeType
  pb_ExchangeArgs :: table
  pb_BindingKeyMap :: "(string, string) gomap"
  pb_RoutingKey :: string
  pb_QueueArgs :: "(string, table) gomap"
  pb_QueueName :: string
  pb_Args :: table

record QueuePushBody = Publishing +
  qb_OpenConfirm :: bool
  qb_ConfirmedByOrder :: bool
  qb_QueueName :: string
  qb_Args :: table

record ConsumeBody =
  cb_ExchangeName :: string
  cb_RoutingKey :: string
  cb_QueueName :: string
  cb_AutoAck :: bool
  cb_QueueArgs :: table
  cb_FetchCount :: int
  cb_XPriority :: "8 word"

section \<open>The arguments of queues\<close>

text \<open>
  The loop of \<open>setArgs\<close> over the named queues: a queue without a table gets one, and writing to a table
  that is nil panics.
\<close>

primrec put_args :: "string \<Rightarrow> amqp_value \<Rightarrow> string list \<Rightarrow> (string \<rightharpoonup> table) \<Rightarrow> (string \<rightharpoonup> table) option" where
  "put_args key v [] m = Some m"
| "put_args key v (queue # queues) m =
     (case (case m queue of None \<Rightarrow> Some Map.empty | Some table \<Rightarrow> table) of
        None \<Rightarrow> None
      | Some t \<Rightarrow> put_args key v queues (m(queue \<mapsto> Some (t(key \<mapsto> v)))))"

definition exchange_setArgs :: "string \<Rightarrow> amqp_value \<Rightarrow> string list \<Rightarrow> ExchangePushBody \<Rightarrow> ExchangePushBody option" where
  "exchange_setArgs key v queues e =
     map_option (\<lambda>m. e\<lparr>eb_QueueArgs := Some m\<rparr>) (put_args key v queues (gm_make (eb_QueueArgs e)))"

definition delay_setArgs :: "string \<Rightarrow> amqp_value \<Rightarrow> string list \<Rightarrow> PushDelayBody \<Rightarrow> PushDelayBody option" where
  "delay_setArgs key v queues p =
     map_option (\<lambda>m. p\<lparr>eb_QueueArgs := Some m\<rparr>) (put_args key v queues (gm_make (eb_QueueArgs p)))"

text \<open>A \<open>PushBody\<close> also keeps the arguments of the queue it names.\<close>

primrec push_put_args ::
  "string \<Rightarrow> string \<Rightarrow> amqp_value \<Rightarrow> string list \<Rightarrow> (string \<rightharpoonup> amqp_value) \<times> (string \<rightharpoonup> table)
     \<Rightarrow> ((string \<rightharpoonup> amqp_value) \<times> (string \<rightharpoonup> table)) option" where
  "push_put_args queueName key v [] s = Some s"
| "push_put_args queueName key v (queue # queues) s =
     (let args = (if queue = queueName then (fst s)(key \<mapsto> v) else fst s) in
      case (case snd s queue of None \<Rightarrow> Some Map.empty | Some table \<Rightarrow> table) of
        None \<Rightarrow> None
      | Some t \<Rightarrow> push_put_args queueName key v queues (args, (snd s)(queue \<mapsto> Some (t(key \<mapsto> v)))))"

definition push_setArgs :: "string \<Rightarrow> amqp_value \<Rightarrow> string list \<Rightarrow> PushBody \<Rightarrow> PushBody option" where
  "push_setArgs key v queues p =
     map_option (\<lambda>s. p\<lparr>pb_Args := Some (fst s), pb_QueueArgs := Some (snd s)\<rparr>)
       (push_put_args (pb_QueueName p) key v queues (gm_make (pb_Args p), gm_make (pb_QueueArgs p)))"

definition queue_setArgs :: "string \<Rightarrow> amqp_value \<Rightarrow> QueuePushBody \<Rightarrow> QueuePushBody" where
  "queue_setArgs key v q = q\<lparr>qb_Args := Some ((gm_make (qb_Args q))(key \<mapsto> v))\<rparr>"

definition consume_setArgs :: "string \<Rightarrow> amqp_value \<Rightarrow> ConsumeBody \<Rightarrow> ConsumeBody" where
  "consume_setArgs key v c = c\<lparr>cb_QueueArgs := Some ((gm_make (cb_QueueArgs c))(key \<mapsto> v))\<rparr>"

subsection \<open>The arguments \<open>PushDelayBody\<close> can set\<close>

definition delay_SetXMaxPriority :: "int \<Rightarrow> string list \<Rightarrow> PushDelayBody \<Rightarrow> PushDelayBody option" where
  "delay_SetXMaxPriority priority queues = delay_setArgs ''x-max-priority'' (VInt priority) queues"

definition delay_SetXMaxLength :: "int \<Rightarrow> string list \<Rightarrow> PushDelayBody \<Rightarrow> PushDelayBody option" where
  "delay_SetXMaxLength len queues = delay_setArgs ''x-max-length'' (VInt len) queues"

definition delay_SetXMaxLengthBytes :: "int \<Rightarrow> string list \<Rightarrow> PushDelayBody \<Rightarrow> PushDelayBody option" where
  "delay_SetXMaxLengthBytes sz queues = delay_setArgs ''x-max-length-bytes'' (VInt sz) queues"

definition delay_SetOverFlowMode :: "string \<Rightarrow> string list \<Rightarrow> PushDelayBody \<Rightarrow> PushDelayBody option" where
  "delay_SetOverFlowMode mode queues = delay_setArgs ''x-overflow'' (VString mode) queues"

definition delay_SetDeadLetterRoutingKey :: "string \<Rightarrow> string list \<Rightarrow> PushDelayBody \<Rightarrow> PushDelayBody option" where
  "delay_SetDeadLetterRoutingKey routingKey queues = delay_setArgs ''x-dead-letter-routing-key'' (VString routingKey) queues"

definition delay_SetDeadLetterExchange :: "string \<Rightarrow> string list \<Rightarrow> PushDelayBody \<Rightarrow> PushDelayBody option" where
  "delay_SetDeadLetterExchange exchange queues = delay_setArgs ''x-dead-letter-exchange'' (VString exchange) queues"

definition delay_SetMsgTTL :: "int \<Rightarrow> string list \<Rightarrow> PushDelayBody \<Rightarrow> PushDelayBody option" where
  "delay_SetMsgTTL duration queues = delay_setArgs ''x-message-ttl'' (VInt64 (Milliseconds duration)) queues"

definition delay_SetQueueMode :: "string \<Rightarrow> string list \<Rightarrow> PushDelayBody \<Rightarrow> PushDelayBody option" where
  "delay_SetQueueMode mode queues = delay_setArgs ''x-queue-mode'' (VString mode) queues"

definition delay_SetExpireTime :: "int \<Rightarrow> string list \<Rightarrow> PushDelayBody \<Rightarrow> PushDelayBody option" where
  "delay_SetExpireTime expire queues = delay_setArgs ''x-expires'' (VInt64 (Milliseconds expire)) queues"

definition delay_SetQueueMasterLocator :: "string \<Rightarrow> string list \<Rightarrow> PushDelayBody \<Rightarrow> PushDelayBody option" where
  "delay_SetQueueMasterLocator mode queues = delay_setArgs ''x-queue-master-locator'' (VString mode) queues"

subsection \<open>The arguments \<open>PushBody\<close> can set\<close>

definition push_SetXMaxPriority :: "int \<Rightarrow> string list \<Rightarrow> PushBody \<Rightarrow> PushBody option" where
  "push_SetXMaxPriority priority queues = push_setArgs ''x-max-priority'' (VInt priority) queues"

definition push_SetXMaxLength :: "int \<Rightarrow> string list \<Rightarrow> PushBody \<Rightarrow> PushBody option" where
  "push_SetXMaxLength len queues = push_setArgs ''x-max-length'' (VInt len) queues"

definition push_SetXMaxLengthBytes :: "int \<Rightarrow> string list \<Rightarrow> PushBody \<Rightarrow> PushBody option" where
  "push_SetXMaxLengthBytes sz queues = push_setArgs ''x-max-length-bytes'' (VInt sz) queues"

definition push_SetOverFlowMode :: "string \<Rightarrow> string list \<Rightarrow> PushBody \<Rightarrow> PushBody option" where
  "push_SetOverFlowMode mode queues = push_setArgs ''x-overflow'' (VString mode) queues"

definition push_SetDeadLetterRoutingKey :: "string \<Rightarrow> string list \<Rightarrow> PushBody \<Rightarrow> PushBody option" where
  "push_SetDeadLetterRoutingKey routingKey queues = push_setArgs ''x-dead-letter-routing-key'' (VString routingKey) queues"

definition push_SetDeadLetterExchange :: "string \<Rightarrow> string list \<Rightarrow> PushBody \<Rightarrow> PushBody option" where
  "push_SetDeadLetterExchange exchange queues = push_setArgs ''x-dead-letter-exchange'' (VString exchange) queues"

definition push_SetMsgTTL :: "int \<Rightarrow> string list \<Rightarrow> PushBody \<Rightarrow> PushBody option" where
  "push_SetMsgTTL duration queues = push_setArgs ''x-message-ttl'' (VInt64 (Milliseconds duration)) queues"

definition push_SetQueueMode :: "string \<Rightarrow> string list \<Rightarrow> PushBody \<Rightarrow> PushBody option" where
  "push_SetQueueMode mode queues = push_setArgs ''x-queue-mode'' (VString mode) queues"

definition push_SetExpireTime :: "int \<Rightarrow> string list \<Rightarrow> PushBody \<Rightarrow> PushBody option" where
  "push_SetExpireTime expire queues = push_setArgs ''x-expires'' (VInt64 (Milliseconds expire)) queues"

definition push_SetQueueMasterLocator :: "string \<Rightarrow> string list \<Rightarrow> PushBody \<Rightarrow> PushBody option" where
  "push_SetQueueMasterLocator mode queues = push_setArgs ''x-queue-master-locator'' (VString mode) queues"

subsection \<open>The arguments \<open>ExchangePushBody\<close> can set\<close>

definition exchange_SetXMaxPriority :: "int \<Rightarrow> string list \<Rightarrow> ExchangePushBody \<Rightarrow> ExchangePushBody option" where
  "exchange_SetXMaxPriority priority queues = exchange_setArgs ''x-max-priority'' (VInt priority) queues"

definition exchange_SetXMaxLength :: "int \<Rightarrow> string list \<Rightarrow> ExchangePushBody \<Rightarrow> ExchangePushBody option" where
  "exchange_SetXMaxLength len queues = exchange_setArgs ''x-max-length'' (VInt len) queues"

definition exchange_SetXMaxLengthBytes :: "int \<Rightarrow> string list \<Rightarrow> ExchangePushBody \<Rightarrow> ExchangePushBody option" where
  "exchange_SetXMaxLengthBytes sz queues = exchange_setArgs ''x-max-length-bytes'' (VInt sz) queues"

definition exchange_SetOverFlowMode :: "string \<Rightarrow> string list \<Rightarrow> ExchangePushBody \<Rightarrow> ExchangePushBody option" where
  "exchange_SetOverFlowMode mode queues = exchange_setArgs ''x-overflow'' (VString mode) queues"

definition exchange_SetDeadLetterRoutingKey :: "string \<Rightarrow> string list \<Rightarrow> ExchangePushBody \<Rightarrow> ExchangePushBody option" where
  "exchange_SetDeadLetterRoutingKey routingKey queues = exchange_setArgs ''x-dead-letter-routing-key'' (VString routingKey) queues"

definition exchange_SetDeadLetterExchange :: "string \<Rightarrow> string list \<Rightarrow> ExchangePushBody \<Rightarrow> ExchangePushBody option" where
  "exchange_SetDeadLetterExchange exchange queues = exchange_setArgs ''x-dead-letter-exchange'' (VString exchange) queues"

definition exchange_SetMsgTTL :: "int \<Rightarrow> string list \<Rightarrow> ExchangePushBody \<Rightarrow> ExchangePushBody option" where
  "exchange_SetMsgTTL duration queues = exchange_setArgs ''x-message-ttl'' (VInt64 (Milliseconds duration)) queues"

definition exchange_SetQueueMode :: "string \<Rightarrow> string list \<Rightarrow> ExchangePushBody \<Rightarrow> ExchangePushBody option" where
  "exchange_SetQueueMode mode queues = exchange_setArgs ''x-queue-mode'' (VString mode) queues"

definition exchange_SetExpireTime :: "int \<Rightarrow> string list \<Rightarrow> ExchangePushBody \<Rightarrow> ExchangePushBody option" where
  "exchange_SetExpireTime expire queues = exchange_setArgs ''x-expires'' (VInt64 (Milliseconds expire)) queues"

definition exchange_SetQueueMasterLocator :: "string \<Rightarrow> string list \<Rightarrow> ExchangePushBody \<Rightarrow> ExchangePushBody option" where
  "exchange_SetQueueMasterLocator mode queues = exchange_setArgs ''x-queue-master-locator'' (VString mode) queues"

subsection \<open>The arguments \<open>QueuePushBody\<close> can set\<close>

definition queue_SetXMaxPriority :: "int \<Rightarrow> QueuePushBody \<Rightarrow> QueuePushBody" where
  "queue_SetXMaxPriority priority = queue_setArgs ''x-max-priority'' (VInt priority)"

definition queue_SetXMaxLength :: "int \<Rightarrow> QueuePushBody \<Rightarrow> QueuePushBody" where
  "queue_SetXMaxLength len = queue_setArgs ''x-max-length'' (VInt len)"

definition queue_SetXMaxLengthBytes :: "int \<Rightarrow> QueuePushBody \<Rightarrow> QueuePushBody" where
  "queue_SetXMaxLengthBytes sz = queue_setArgs ''x-max-length-bytes'' (VInt sz)"

definition queue_SetOverFlowMode :: "string \<Rightarrow> QueuePushBody \<Rightarrow> QueuePushBody" where
  "queue_SetOverFlowMode mode = queue_setArgs ''x-overflow'' (VString mode)"

definition queue_SetDeadLetterRoutingKey :: "string \<Rightarrow> QueuePushBody \<Rightarrow> QueuePushBody" where
  "queue_SetDeadLetterRoutingKey routingKey = queue_setArgs ''x-dead-letter-routing-key'' (VString routingKey)"

definition queue_SetDeadLetterExchange :: "string \<Rightarrow> QueuePushBody \<Rightarrow> QueuePushBody" where
  "queue_SetDeadLetterExchange exchange = queue_setArgs ''x-dead-letter-exchange'' (VString exchange)"

definition queue_SetMsgTTL :: "int \<Rightarrow> QueuePushBody \<Rightarrow> QueuePushBody" where
  "queue_SetMsgTTL duration = queue_setArgs ''x-message-ttl'' (VInt64 (Milliseconds duration))"

definition queue_SetQueueMode :: "string \<Rightarrow> QueuePushBody \<Rightarrow> QueuePushBody" where
  "queue_SetQueueMode mode = queue_setArgs ''x-queue-mode'' (VString mode)"

definition queue_SetExpireTime :: "int \<Rightarrow> QueuePushBody \<Rightarrow> QueuePushBody" where
  "queue_SetExpireTime expire = queue_setArgs ''x-expires'' (VInt64 (Milliseconds expire))"

definition queue_SetQueueMasterLocator :: "string \<Rightarrow> QueuePushBody \<Rightarrow> QueuePushBody" where
  "queue_SetQueueMasterLocator mode = queue_setArgs ''x-queue-master-locator'' (VString mode)"

subsection \<open>The arguments \<open>ConsumeBody\<close> can set\<close>

definition consume_SetXMaxPriority :: "int \<Rightarrow> ConsumeBody \<Rightarrow> ConsumeBody" where
  "consume_SetXMaxPriority priority = consume_setArgs ''x-max-priority'' (VInt priority)"

definition consume_SetXMaxLength :: "int \<Rightarrow> ConsumeBody \<Rightarrow> ConsumeBody" where
  "consume_SetXMaxLength len = consume_setArgs ''x-max-length'' (VInt len)"

definition consume_SetXMaxLengthBytes :: "int \<Rightarrow> ConsumeBody \<Rightarrow> ConsumeBody" where
  "consume_SetXMaxLengthBytes sz = consume_setArgs ''x-max-length-bytes'' (VInt sz)"

definition consume_SetOverFlowMode :: "string \<Rightarrow> ConsumeBody \<Rightarrow> ConsumeBody" where
  "consume_SetOverFlowMode mode = consume_setArgs ''x-overflow'' (VString mode)"

definition consume_SetDeadLetterRoutingKey :: "string \<Rightarrow> ConsumeBody \<Rightarrow> ConsumeBody" where
  "consume_SetDeadLetterRoutingKey routingKey = consume_setArgs ''x-dead-letter-routing-key'' (VString routingKey)"

definition consume_SetDeadLetterExchange :: "string \<Rightarrow> ConsumeBody \<Rightarrow> ConsumeBody" where
  "consume_SetDeadLetterExchange exchange = consume_setArgs ''x-dead-letter-exchange'' (VString exchange)"

definition consume_SetMsgTTL :: "int \<Rightarrow> ConsumeBody \<Rightarrow> ConsumeBody" where
  "consume_SetMsgTTL duration = consume_setArgs ''x-message-ttl'' (VInt64 (Milliseconds duration))"

definition consume_SetQueueMode :: "string \<Rightarrow> ConsumeBody \<Rightarrow> ConsumeBody" where
  "consume_SetQueueMode mode = consume_setArgs ''x-queue-mode'' (VString mode)"

definition consume_SetExpireTime :: "int \<Rightarrow> ConsumeBody \<Rightarrow> ConsumeBody" where
  "consume_SetExpireTime expire = consume_setArgs ''x-expires'' (VInt64 (Milliseconds expire))"

definition consume_SetQueueMasterLocator :: "string \<Rightarrow> ConsumeBody \<Rightarrow> ConsumeBody" where
  "consume_SetQueueMasterLocator mode = consume_setArgs ''x-queue-master-locator'' (VString mode)"

section \<open>The other setters\<close>

subsection \<open>\<open>PushDelayBody\<close>\<close>

definition delay_GetMessageId :: "PushDelayBody \<Rightarrow> string" where "delay_GetMessageId p = MessageId p"

definition delay_SetMessageId :: "string \<Rightarrow> PushDelayBody \<Rightarrow> PushDelayBody" where "delay_SetMessageId i p = p\<lparr>MessageId := i\<rparr>"

definition delay_GetBody :: "PushDelayBody \<Rightarrow> string" where "delay_GetBody p = Body p"

definition delay_SetExchangeName :: "string \<Rightarrow> PushDelayBody \<Rightarrow> PushDelayBody" where
  "delay_SetExchangeName exchangeName p = p\<lparr>eb_ExchangeName := exchangeName\<rparr>"

definition delay_SetExchangeType :: "ExchangeType \<Rightarrow> PushDelayBody \<Rightarrow> PushDelayBody" where
  "delay_SetExchangeType exchangeType p = p\<lparr>eb_ExchangeType := exchangeType\<rparr>"

definition delay_BindQueue :: "string \<Rightarrow> string \<Rightarrow> PushDelayBody \<Rightarrow> PushDelayBody" where
  "delay_BindQueue queueName bindingKey p =
     p\<lparr>eb_BindingKeyMap := Some ((gm_make (eb_BindingKeyMap p))(queueName \<mapsto> (if bindingKey = [] then queueName else bindingKey)))\<rparr>"

definition delay_SetRoutingKey :: "string \<Rightarrow> PushDelayBody \<Rightarrow> PushDelayBody" where
  "delay_SetRoutingKey routingKey p = p\<lparr>eb_RoutingKey := routingKey\<rparr>"

definition delay_OpenConfirmMode :: "bool \<Rightarrow> PushDelayBody \<Rightarrow> PushDelayBody" where
  "delay_OpenConfirmMode order p = p\<lparr>eb_OpenConfirm := True, eb_ConfirmedByOrder := order\<rparr>"

definition delay_SetDeliveryMode :: "8 word \<Rightarrow> PushDelayBody \<Rightarrow> PushDelayBody" where
  "delay_SetDeliveryMode deliveryMode p = p\<lparr>DeliveryMode := deliveryMode\<rparr>"

definition delay_SetMsg :: "string \<Rightarrow> PushDelayBody \<Rightarrow> PushDelayBody" where
  "delay_SetMsg msg p = p\<lparr>Body := msg\<rparr>"

definition delay_SetDelayTime :: "int \<Rightarrow> PushDelayBody \<Rightarrow> PushDelayBody" where
  "delay_SetDelayTime delay p = p\<lparr>DelayTime := delay\<rparr>"

subsection \<open>\<open>PushBody\<close>\<close>

definition push_GetMessageId :: "PushBody \<Rightarrow> string" where "push_GetMessageId p = MessageId p"

definition push_SetMessageId :: "string \<Rightarrow> PushBody \<Rightarrow> PushBody" where "push_SetMessageId i p = p\<lparr>MessageId := i\<rparr>"

definition push_GetBody :: "PushBody \<Rightarrow> string" where "push_GetBody p = Body p"

definition push_SetPriority :: "8 word \<Rightarrow> PushBody \<Rightarrow> PushBody" where
  "push_SetPriority priority p = p\<lparr>Priority := priority\<rparr>"

definition push_SetExchangeName :: "string \<Rightarrow> PushBody \<Rightarrow> PushBody" where
  "push_SetExchangeName exchangeName p = p\<lparr>pb_ExchangeName := exchangeName\<rparr>"

definition push_SetExchangeType :: "ExchangeType \<Rightarrow> PushBody \<Rightarrow> PushBody" where
  "push_SetExchangeType exchangeType p = p\<lparr>pb_ExchangeType := exchangeType\<rparr>"

definition push_BindQueue :: "string \<Rightarrow> string \<Rightarrow> PushBody \<Rightarrow> PushBody" where
  "push_BindQueue queueName bindingKey p =
     p\<lparr>pb_BindingKeyMap := Some ((gm_make (pb_BindingKeyMap p))(queueName \<mapsto> (if bindingKey = [] then queueName else bindingKey)))\<rparr>"

definition push_SetRoutingKey :: "string \<Rightarrow> PushBody \<Rightarrow> PushBody" where
  "push_SetRoutingKey routingKey p = p\<lparr>pb_RoutingKey := routingKey\<rparr>"

definition push_SetQueueName :: "string \<Rightarrow> PushBody \<Rightarrow> PushBody" where
  "push_SetQueueName queueName p = p\<lparr>pb_QueueName := queueName\<rparr>"

definition push_OpenConfirmMode :: "bool \<Rightarrow> PushBody \<Rightarrow> PushBody" where
  "push_OpenConfirmMode order p = p\<lparr>pb_OpenConfirm := True, pb_ConfirmedByOrder := order\<rparr>"

definition push_SetDeliveryMode :: "8 word \<Rightarrow> PushBody \<Rightarrow> PushBody" where
  "push_SetDeliveryMode deliveryMode p = p\<lparr>DeliveryMode := deliveryMode\<rparr>"

definition push_SetMsg :: "string \<Rightarrow> PushBody \<Rightarrow> PushBody" where
  "push_SetMsg msg p = p\<lparr>Body := msg\<rparr>"

subsection \<open>\<open>ExchangePushBody\<close>\<close>

definition exchange_GetMessageId :: "ExchangePushBody \<Rightarrow> string" where "exchange_GetMessageId p = MessageId p"

definition exchange_SetMessageId :: "string \<Rightarrow> ExchangePushBody \<Rightarrow> ExchangePushBody" where "exchange_SetMessageId i p = p\<lparr>MessageId := i\<rparr>"

definition exchange_GetBody :: "ExchangePushBody \<Rightarrow> string" where "exchange_GetBody p = Body p"

definition exchange_SetPriority :: "8 word \<Rightarrow> ExchangePushBody \<Rightarrow> ExchangePushBody" where
  "exchange_SetPriority priority p = p\<lparr>Priority := priority\<rparr>"

definition exchange_SetExchangeName :: "string \<Rightarrow> ExchangePushBody \<Rightarrow> ExchangePushBody" where
  "exchange_SetExchangeName exchangeName p = p\<lparr>eb_ExchangeName := exchangeName\<rparr>"

definition exchange_SetExchangeType :: "ExchangeType \<Rightarrow> ExchangePushBody \<Rightarrow> ExchangePushBody" where
  "exchange_SetExchangeType exchangeType p = p\<lparr>eb_ExchangeType := exchangeType\<rparr>"

definition exchange_BindQueue :: "string \<Rightarrow> string \<Rightarrow> ExchangePushBody \<Rightarrow> ExchangePushBody" where
  "exchange_BindQueue queueName bindingKey p =
     p\<lparr>eb_BindingKeyMap := Some ((gm_make (eb_BindingKeyMap p))(queueName \<mapsto> (if bindingKey = [] then queueName else bindingKey)))\<rparr>"

definition exchange_SetRoutingKey :: "string \<Rightarrow> ExchangePushBody \<Rightarrow> ExchangePushBody" where
  "exchange_SetRoutingKey routingKey p = p\<lparr>eb_RoutingKey := routingKey\<rparr>"

definition exchange_OpenConfirmMode :: "bool \<Rightarrow> ExchangePushBody \<Rightarrow> ExchangePushBody" where
  "exchange_OpenConfirmMode order p = p\<lparr>eb_OpenConfirm := True, eb_ConfirmedByOrder := order\<rparr>"

definition exchange_SetDeliveryMode :: "8 word \<Rightarrow> ExchangePushBody \<Rightarrow> ExchangePushBody" where
  "exchange_SetDeliveryMode deliveryMode p = p\<lparr>DeliveryMode := deliveryMode\<rparr>"

definition exchange_SetMsg :: "string \<Rightarrow> ExchangePushBody \<Rightarrow> ExchangePushBody" where
  "exchange_SetMsg msg p = p\<lparr>Body := msg\<rparr>"

subsection \<open>\<open>QueuePushBody\<close>\<close>

definition queue_GetMessageId :: "QueuePushBody \<Rightarrow> string" where "queue_GetMessageId p = MessageId p"

definition queue_SetMessageId :: "string \<Rightarrow> QueuePushBody \<Rightarrow> QueuePushBody" where "queue_SetMessageId i p = p\<lparr>MessageId := i\<rparr>"

definition queue_GetBody :: "QueuePushBody \<Rightarrow> string" where "queue_GetBody p = Body p"

definition queue_SetPriority :: "8 word \<Rightarrow> QueuePushBody \<Rightarrow> QueuePushBody" where
  "queue_SetPriority priority p = p\<lparr>Priority := priority\<rparr>"

definition queue_SetQueueName :: "string \<Rightarrow> QueuePushBody \<Rightarrow> QueuePushBody" where
  "queue_SetQueueName queueName p = p\<lparr>qb_QueueName := queueName\<rparr>"

definition queue_OpenConfirmMode :: "bool \<Rightarrow> QueuePushBody \<Rightarrow> QueuePushBody" where
  "queue_OpenConfirmMode order p = p\<lparr>qb_OpenConfirm := True, qb_ConfirmedByOrder := order\<rparr>"

definition queue_SetDeliveryMode :: "8 word \<Rightarrow> QueuePushBody \<Rightarrow> QueuePushBody" where
  "queue_SetDeliveryMode deliveryMode p = p\<lparr>DeliveryMode := deliveryMode\<rparr>"

definition queue_SetMsg :: "string \<Rightarrow> QueuePushBody \<Rightarrow> QueuePushBody" where
  "queue_SetMsg msg p = p\<lparr>Body := msg\<rparr>"

subsection \<open>\<open>ConsumeBody\<close>\<close>

definition consume_SetPrefetchCount :: "int \<Rightarrow> ConsumeBody \<Rightarrow> ConsumeBody" where
  "consume_SetPrefetchCount fetchCount p = p\<lparr>cb_FetchCount := fetchCount\<rparr>"

definition consume_SetXPriority :: "8 word \<Rightarrow> ConsumeBody \<Rightarrow> ConsumeBody" where
  "consume_SetXPriority xPriority p = p\<lparr>cb_XPriority := xPriority\<rparr>"

definition consume_SetExchangeName :: "string \<Rightarrow> ConsumeBody \<Rightarrow> ConsumeBody" where
  "consume_SetExchangeName exchangeName p = p\<lparr>cb_ExchangeName := exchangeName\<rparr>"

definition consume_SetRoutingKey :: "string \<Rightarrow> ConsumeBody \<Rightarrow> ConsumeBody" where
  "consume_SetRoutingKey routingKey p = p\<lparr>cb_RoutingKey := routingKey\<rparr>"

definition consume_SetQueueName :: "string \<Rightarrow> ConsumeBody \<Rightarrow> ConsumeBody" where
  "consume_SetQueueName queueName p = p\<lparr>cb_QueueName := queueName\<rparr>"

definition consume_SetAckMode :: "bool \<Rightarrow> ConsumeBody \<Rightarrow> ConsumeBody" where
  "consume_SetAckMode autoAck p = p\<lparr>cb_AutoAck := autoAck\<rparr>"

section \<open>Validation\<close>

text \<open>The loops over the binding keys write only to the entry they are at, so their order does not matter.\<close>

definition fill_binding_keys :: "(string \<rightharpoonup> string) \<Rightarrow> (string \<rightharpoonup> string)" where
  "fill_binding_keys m = (\<lambda>queue. map_option (\<lambda>bindKey. if bindKey = [] then queue else bindKey) (m queue))"

definition exchange_Validate :: "'a ExchangePushBody_scheme \<Rightarrow> 'a ExchangePushBody_scheme" where
  "exchange_Validate e =
     (let e1 = (if eb_ExchangeType e = [] then e\<lparr>eb_ExchangeType := Fanout\<rparr> else e)
      in e1\<lparr>eb_BindingKeyMap := map_option fill_binding_keys (eb_BindingKeyMap e1)\<rparr>)"

definition delay_Validate :: "PushDelayBody \<Rightarrow> string option \<times> PushDelayBody" where
  "delay_Validate p =
     (if DelayTime p = 0 \<and> Expiration p = [] then (Some ''push delay message: no expire time set'', p)
      else (None, exchange_Validate p))"

definition queue_Validate :: "QueuePushBody \<Rightarrow> string option \<times> QueuePushBody" where
  "queue_Validate q =
     (if qb_QueueName q = [] then (Some ''push queue: queue name is empty'', q) else (None, q))"

definition push_Validate :: "PushBody \<Rightarrow> PushBody" where
  "push_Validate p =
     (let p1 = (if pb_BindingKeyMap p = None then p\<lparr>pb_BindingKeyMap := Some Map.empty\<rparr> else p);
          p2 = (if pb_ExchangeName p1 \<noteq> [] then
                  (let a = (if pb_ExchangeType p1 = [] then p1\<lparr>pb_ExchangeType := Fanout\<rparr> else p1)
                   in if pb_QueueName a \<noteq> [] then
                        a\<lparr>pb_BindingKeyMap := Some ((gm_make (pb_BindingKeyMap a))(pb_QueueName a \<mapsto> pb_QueueName a)),
                          pb_QueueName := []\<rparr>
                      else a)
                else p1);
          p3 = (if pb_ExchangeName p2 = [] then p2\<lparr>pb_BindingKeyMap := None\<rparr> else p2);
          p4 = (if Priority p3 > 10 then p3\<lparr>Priority := 10\<rparr> else p3);
          p5 = (if pb_RoutingKey p4 = [] then p4\<lparr>pb_RoutingKey := pb_QueueName p4\<rparr> else p4)
      in p5\<lparr>pb_BindingKeyMap := map_option fill_binding_keys (pb_BindingKeyMap p5)\<rparr>)"

section \<open>Consumer tags\<close>

definition consumerTagLengthMax :: nat where "consumerTagLengthMax = 255"

text \<open>The counter is the global \<open>consumerSeq\<close>; \<open>commandName\<close> is \<open>os.Args[0]\<close>.\<close>

definition commandNameBasedUniqueConsumerTag :: "string \<Rightarrow> 64 word \<Rightarrow> string \<times> 64 word" where
  "commandNameBasedUniqueConsumerTag commandName consumerSeq =
     (let seq = consumerSeq + 1;
          tagPrefix = ''ctag-'';
          tagSuffix = ''-'' @ itoa_nat (unat seq);
          tagInfix = (if length tagPrefix + length commandName + length tagSuffix > consumerTagLengthMax
                      then ''streadway/amqp'' else commandName)
      in (tagPrefix @ tagInfix @ tagSuffix, seq))"


section \<open>Facts\<close>

subsection \<open>Arguments\<close>

text \<open>What the loops of \<open>setArgs\<close> compute, in closed form.\<close>

definition nil_table :: "string list \<Rightarrow> (string \<rightharpoonup> table) \<Rightarrow> bool" where
  "nil_table queues m \<longleftrightarrow> (\<exists>q\<in>set queues. m q = Some None)"

definition with_arg :: "string \<Rightarrow> amqp_value \<Rightarrow> string list \<Rightarrow> (string \<rightharpoonup> table) \<Rightarrow> (string \<rightharpoonup> table)" where
  "with_arg key v queues m =
     (\<lambda>q. if q \<in> set queues then Some (Some ((case m q of Some (Some t) \<Rightarrow> t | _ \<Rightarrow> Map.empty)(key \<mapsto> v))) else m q)"

lemma put_args_eq: "put_args key v queues m = (if nil_table queues m then None else Some (with_arg key v queues m))"
proof (induction queues arbitrary: m)
  case Nil
  then show ?case by (simp add: nil_table_def with_arg_def)
next
  case (Cons q queues)
  show ?case
  proof (cases "m q = Some None")
    case True
    then show ?thesis by (simp add: nil_table_def)
  next
    case False
    then obtain t where t: "(case m q of None \<Rightarrow> Some Map.empty | Some table \<Rightarrow> table) = Some t"
        "(case m q of Some (Some t) \<Rightarrow> t | _ \<Rightarrow> Map.empty) = t"
      by (cases "m q") auto
    let ?m = "m(q \<mapsto> Some (t(key \<mapsto> v)))"
    have "nil_table queues ?m \<longleftrightarrow> nil_table (q # queues) m" using False by (auto simp: nil_table_def)
    moreover have "with_arg key v queues ?m = with_arg key v (q # queues) m"
      using t(2) by (auto simp: with_arg_def fun_eq_iff)
    ultimately show ?thesis by (simp add: t(1) Cons.IH del: fun_upd_apply)
  qed
qed

lemma push_put_args_eq:
  "push_put_args queueName key v queues s =
     (if nil_table queues (snd s) then None
      else Some (if queueName \<in> set queues then (fst s)(key \<mapsto> v) else fst s, with_arg key v queues (snd s)))"
proof -
  have "push_put_args queueName key v queues s =
      map_option (\<lambda>m. (if queueName \<in> set queues then (fst s)(key \<mapsto> v) else fst s, m)) (put_args key v queues (snd s))"
  proof (induction queues arbitrary: s)
    case (Cons q queues)
    show ?case
      by (cases "case snd s q of None \<Rightarrow> Some Map.empty | Some table \<Rightarrow> table")
        (simp_all add: Let_def Cons.IH del: fun_upd_apply)
  qed simp
  then show ?thesis by (simp add: put_args_eq)
qed

lemma with_arg_commute:
  "key \<noteq> key' \<Longrightarrow> with_arg key v queues (with_arg key' v' queues' m) = with_arg key' v' queues' (with_arg key v queues m)"
  by (auto simp: with_arg_def fun_eq_iff fun_upd_twist split: option.splits)

text \<open>
  Setting an argument. It panics exactly when a named queue has a table that is nil; otherwise each
  named queue has the value in its table, beside the arguments that were there, and no other queue
  and no other field changes. A \<open>PushBody\<close> repeats the value in \<open>Args\<close> when its own queue is named, and
  that depends on \<open>SetQueueName\<close> having been called first.
\<close>

theorem setArgs_spec:
  "exchange_setArgs key v queues e =
      (if nil_table queues (gm_make (eb_QueueArgs e)) then None
       else Some (e\<lparr>eb_QueueArgs := Some (with_arg key v queues (gm_make (eb_QueueArgs e)))\<rparr>))
   \<and> delay_setArgs key v queues d =
      (if nil_table queues (gm_make (eb_QueueArgs d)) then None
       else Some (d\<lparr>eb_QueueArgs := Some (with_arg key v queues (gm_make (eb_QueueArgs d)))\<rparr>))
   \<and> push_setArgs key v queues p =
      (if nil_table queues (gm_make (pb_QueueArgs p)) then None
       else Some (p\<lparr>pb_Args := Some (if pb_QueueName p \<in> set queues then (gm_make (pb_Args p))(key \<mapsto> v) else gm_make (pb_Args p)),
                    pb_QueueArgs := Some (with_arg key v queues (gm_make (pb_QueueArgs p)))\<rparr>))
   \<and> (pb_QueueName p = [] \<and> pb_Args p = None \<and> pb_QueueArgs p = None \<and> q \<noteq> [] \<longrightarrow>
        map_option (\<lambda>p. pb_Args (push_SetQueueName q p)) (push_SetXMaxLength n [q] p) = Some (Some Map.empty)
      \<and> map_option pb_Args (push_SetXMaxLength n [q] (push_SetQueueName q p)) = Some (Some [''x-max-length'' \<mapsto> VInt n]))"
  by (simp add: exchange_setArgs_def delay_setArgs_def push_setArgs_def put_args_eq push_put_args_eq
      push_SetQueueName_def push_SetXMaxLength_def nil_table_def)

definition demo_push :: PushBody where
  "demo_push = \<lparr>Headers = None, ContentType = [], ContentEncoding = [], DeliveryMode = 0, Priority = 200,
     CorrelationId = ''c1'', ReplyTo = [], Expiration = [], MessageId = [], Timestamp = 0, MsgType = [],
     UserId = [], AppId = [], Body = ''x'', pb_OpenConfirm = False, pb_ConfirmedByOrder = False,
     pb_ExchangeName = ''ex'', pb_ExchangeType = Direct, pb_ExchangeArgs = None,
     pb_BindingKeyMap = None, pb_RoutingKey = [], pb_QueueArgs = None, pb_QueueName = [], pb_Args = None\<rparr>"

theorem setArgs_spec_witness:
  "map_option (\<lambda>p. pb_Args (push_SetQueueName ''jobs'' p)) (push_SetXMaxLength 9 [''jobs''] demo_push) = Some (Some Map.empty)"
  using setArgs_spec [of _ _ _ _ _ demo_push "''jobs''" 9] by (simp add: demo_push_def)

subsection \<open>Validation\<close>

lemma fill_binding_keys_idem [simp]: "fill_binding_keys (fill_binding_keys m) = fill_binding_keys m"
  by (simp add: fill_binding_keys_def fun_eq_iff option.map_comp o_def if_distrib cong: if_cong)

lemma fill_binding_keys_same: "(\<And>q k. m q = Some k \<Longrightarrow> k = [] \<Longrightarrow> q = []) \<Longrightarrow> fill_binding_keys m = m"
proof
  fix q
  assume "\<And>q k. m q = Some k \<Longrightarrow> k = [] \<Longrightarrow> q = []"
  then show "fill_binding_keys m q = m q" by (cases "m q") (auto simp: fill_binding_keys_def)
qed

text \<open>The normal form of a body: either it is for an exchange, or for a queue.\<close>

definition binding_keys_ok :: "(string \<rightharpoonup> string) \<Rightarrow> bool" where
  "binding_keys_ok m \<longleftrightarrow> (\<forall>q k. m q = Some k \<longrightarrow> k = [] \<longrightarrow> q = [])"

definition push_ok :: "PushBody \<Rightarrow> bool" where
  "push_ok p \<longleftrightarrow> Priority p \<le> 10 \<and>
     (if pb_ExchangeName p \<noteq> []
      then pb_ExchangeType p \<noteq> [] \<and> pb_QueueName p = [] \<and> (\<exists>m. pb_BindingKeyMap p = Some m \<and> binding_keys_ok m)
      else pb_BindingKeyMap p = None \<and> (pb_RoutingKey p = [] \<longrightarrow> pb_QueueName p = []))"

lemma fill_binding_keys_ok: "binding_keys_ok (fill_binding_keys m)"
  by (auto simp: binding_keys_ok_def fill_binding_keys_def split: if_splits)

lemma Fanout_nonempty [simp]: "Fanout \<noteq> []" by (simp add: Fanout_def)

text \<open>
  Validation brings a body into normal form and changes nothing that is in it already, so validating
  again, as every retry does, is harmless. The default for an absent routing key is the queue of the
  body, which a body for an exchange has given up by then: its queue is bound under its own name,
  but the message goes out with the empty key.
\<close>

theorem push_Validate_normal_form:
  "push_ok (push_Validate p)
   \<and> (push_ok p \<longrightarrow> push_Validate p = p)
   \<and> (pb_ExchangeName p \<noteq> [] \<and> pb_QueueName p \<noteq> [] \<and> pb_RoutingKey p = [] \<longrightarrow>
        pb_RoutingKey (push_Validate p) = []
      \<and> gm_get (pb_BindingKeyMap (push_Validate p)) (pb_QueueName p) = Some (pb_QueueName p))"
proof (intro conjI impI)
  show "push_ok (push_Validate p)"
    by (cases "pb_BindingKeyMap p") (auto simp: push_ok_def push_Validate_def Let_def fill_binding_keys_ok)
  show "push_Validate p = p" if ok: "push_ok p"
  proof -
    have same: "map_option fill_binding_keys (pb_BindingKeyMap p) = pb_BindingKeyMap p"
      using that fill_binding_keys_same by (fastforce simp: push_ok_def binding_keys_ok_def split: if_splits)
    show ?thesis
    proof (cases "pb_ExchangeName p = []")
      case True
      then have "pb_BindingKeyMap p = None" "pb_RoutingKey p = [] \<longrightarrow> pb_QueueName p = []" "\<not> Priority p > 10"
        using that by (auto simp: push_ok_def)
      with True show ?thesis by (simp add: push_Validate_def Let_def)
    next
      case False
      then obtain m where "pb_BindingKeyMap p = Some m" "pb_ExchangeType p \<noteq> []" "pb_QueueName p = []" "\<not> Priority p > 10"
        using ok by (auto simp: push_ok_def)
      with False same show ?thesis by (simp add: push_Validate_def Let_def)
    qed
  qed
next
  assume "pb_ExchangeName p \<noteq> [] \<and> pb_QueueName p \<noteq> [] \<and> pb_RoutingKey p = []"
  then show "pb_RoutingKey (push_Validate p) = []"
      "gm_get (pb_BindingKeyMap (push_Validate p)) (pb_QueueName p) = Some (pb_QueueName p)"
    by (simp_all add: push_Validate_def Let_def fill_binding_keys_def)
qed

theorem push_Validate_normal_form_witness:
  "pb_RoutingKey (push_Validate (push_SetQueueName ''jobs'' demo_push)) = []
   \<and> pb_ExchangeType (push_Validate (push_SetQueueName ''jobs'' demo_push)) = Direct"
  using push_Validate_normal_form [of "push_SetQueueName ''jobs'' demo_push"]
  by (simp add: demo_push_def push_SetQueueName_def Direct_def push_Validate_def Let_def)

subsection \<open>Tags\<close>

lemma length_itoa_nat_le: "n < 10 ^ Suc k \<Longrightarrow> length (itoa_nat n) \<le> Suc k"
proof (induction k arbitrary: n)
  case 0
  then show ?case by (simp add: itoa_nat_small)
next
  case (Suc k)
  show ?case
  proof (cases "n < 10")
    case True
    then show ?thesis by (simp add: itoa_nat_small)
  next
    case False
    have "n div 10 < 10 ^ Suc k" using Suc.prems by (simp add: less_mult_imp_div_less)
    then show ?thesis using Suc.IH [of "n div 10"] False by (simp add: itoa_nat_step)
  qed
qed

lemma length_itoa_word64: "length (itoa_nat (unat (n :: 64 word))) \<le> 20"
proof -
  have "unat n < 2 ^ LENGTH(64)" by (rule unsigned_less)
  then show ?thesis using length_itoa_nat_le [of "unat n" 19] by simp
qed

lemma digits_no_dash: "CHR ''-'' \<notin> set (itoa_nat n)"
  using itoa_nat_digits [of n] by (auto simp: list_all_iff is_digit_def)

lemma dash_suffix_inj:
  assumes "a @ ''-'' @ s = b @ ''-'' @ t" "CHR ''-'' \<notin> set s" "CHR ''-'' \<notin> set t"
  shows "s = t"
proof -
  have "takeWhile (\<lambda>c. c \<noteq> CHR ''-'') (rev (x @ ''-'' @ u)) = rev u" if "CHR ''-'' \<notin> set u" for x u :: string
    using that by (auto simp: takeWhile_append takeWhile_eq_all_conv)
  from this [OF assms(2), of a] this [OF assms(3), of b] assms(1) have "rev s = rev t" by metis
  then show ?thesis by simp
qed

text \<open>
  Consumer tags fit the 255 bytes of a short string whatever the command is called, and the tags
  of two different counts differ, so tags of one process repeat only after 2^64 consumers.
\<close>

theorem consumer_tag:
  "length (fst (commandNameBasedUniqueConsumerTag cmd seq)) \<le> consumerTagLengthMax
   \<and> snd (commandNameBasedUniqueConsumerTag cmd seq) = seq + 1
   \<and> (seq \<noteq> seq' \<longrightarrow> fst (commandNameBasedUniqueConsumerTag cmd seq) \<noteq> fst (commandNameBasedUniqueConsumerTag cmd' seq'))"
proof (intro conjI impI)
  show "length (fst (commandNameBasedUniqueConsumerTag cmd seq)) \<le> consumerTagLengthMax"
    using length_itoa_word64 [of "seq + 1"]
    by (auto simp: commandNameBasedUniqueConsumerTag_def Let_def consumerTagLengthMax_def)
  show "snd (commandNameBasedUniqueConsumerTag cmd seq) = seq + 1"
    by (simp add: commandNameBasedUniqueConsumerTag_def Let_def)
  assume "seq \<noteq> seq'"
  show "fst (commandNameBasedUniqueConsumerTag cmd seq) \<noteq> fst (commandNameBasedUniqueConsumerTag cmd' seq')"
  proof
    assume eq: "fst (commandNameBasedUniqueConsumerTag cmd seq) = fst (commandNameBasedUniqueConsumerTag cmd' seq')"
    obtain a b where "a @ ''-'' @ itoa_nat (unat (seq + 1)) = b @ ''-'' @ itoa_nat (unat (seq' + 1))"
      using eq unfolding commandNameBasedUniqueConsumerTag_def Let_def fst_conv append_assoc [symmetric] by blast
    then have "itoa_nat (unat (seq + 1)) = itoa_nat (unat (seq' + 1))"
      by (rule dash_suffix_inj) (rule digits_no_dash)+
    then have "unat (seq + 1) = unat (seq' + 1)" by (metis num_val_itoa_nat)
    then have "seq + 1 = seq' + 1" by (rule unsigned_word_eqI)
    then show False using \<open>seq \<noteq> seq'\<close> by simp
  qed
qed

theorem consumer_tag_witness:
  "fst (commandNameBasedUniqueConsumerTag ''worker'' 0) \<noteq> fst (commandNameBasedUniqueConsumerTag ''worker'' 7)"
  using consumer_tag [of "''worker''" 0 7 "''worker''"] by simp

end
