(* ===== verification/Rabbit_Conn.thy ===== *)
theory Rabbit_Conn
  imports Rabbit_Body Go_Url
begin

text \<open>
  The connection part of \<open>rabbitmqx/rmq.go\<close> and \<open>management.go\<close>: the configuration and its addresses, the locks
  of queues, the connection with its reconnection loop, the channels and closing. The AMQP library
  is not under \<open>src\<close>: whether a dial or the opening of a channel succeeds is an argument or an event.
\<close>

section \<open>Configuration\<close>

record LimitConf =
  AttemptTimes :: int
  RetryWaitTime :: int
  PrefetchCount :: int
  LimitTimeout :: int
  QueueLimit :: int

record MQConfig =
  mq_Username :: string
  mq_Password :: string
  mq_Host :: string
  mq_Port :: int
  mq_ManagementPort :: int
  mq_VirtualHost :: string
  mq_LimitConf :: LimitConf

definition DefaultTimeOut :: int where "DefaultTimeOut = 2"
definition DefaultRetryWaitTimes :: int where "DefaultRetryWaitTimes = 2"
definition DefaultRetryTimes :: int where "DefaultRetryTimes = 3"
definition DefaultPrefetchCount :: int where "DefaultPrefetchCount = 5"

definition mq_Validate :: "MQConfig \<Rightarrow> string option \<times> MQConfig" where
  "mq_Validate c =
     (if mq_Host c = [] then (Some ''host is empty'', c)
      else if mq_Port c = 0 then (Some ''port is empty'', c)
      else
        let l = mq_LimitConf c;
            l1 = (if AttemptTimes l = 0 then l\<lparr>AttemptTimes := DefaultRetryTimes\<rparr> else l);
            l2 = (if RetryWaitTime l1 = 0 then l1\<lparr>RetryWaitTime := DefaultRetryWaitTimes\<rparr> else l1);
            l3 = (if LimitTimeout l2 = 0 then l2\<lparr>LimitTimeout := DefaultTimeOut\<rparr> else l2);
            l4 = (if PrefetchCount l3 = 0 then l3\<lparr>PrefetchCount := DefaultPrefetchCount\<rparr> else l3)
        in (None, c\<lparr>mq_LimitConf := l4\<rparr>))"

definition virtualHost :: "MQConfig \<Rightarrow> string" where
  "virtualHost c = (if mq_VirtualHost c \<noteq> [] then mq_VirtualHost c else ''/'')"

text \<open>\<open>url.UserPassword(u, p).String()\<close> escapes both parts.\<close>

definition userinfo :: "string \<Rightarrow> string \<Rightarrow> string" where
  "userinfo u p = url_escape UserPassword u @ '':'' @ url_escape UserPassword p"

definition addr :: "MQConfig \<Rightarrow> string" where
  "addr c =
     (let vhost = (if mq_VirtualHost c = [] then ''/'' else mq_VirtualHost c)
      in ''amqp://'' @ userinfo (mq_Username c) (mq_Password c) @ [CHR 0x40] @ mq_Host c @ '':'' @ itoa (mq_Port c) @ ''/'' @ PathEscape vhost)"

definition logAddr :: "MQConfig \<Rightarrow> string" where
  "logAddr c = mq_Host c @ '':'' @ itoa (mq_Port c) @ ''/'' @ mq_VirtualHost c"

definition managementPort :: "MQConfig \<Rightarrow> int" where
  "managementPort c = (if mq_ManagementPort c > 0 then mq_ManagementPort c else 15672)"

definition managementURL :: "MQConfig \<Rightarrow> string \<Rightarrow> string" where
  "managementURL c path = ''http://'' @ mq_Host c @ '':'' @ itoa (managementPort c) @ ''/api/'' @ path"

definition queuePath :: "MQConfig \<Rightarrow> string \<Rightarrow> string \<Rightarrow> string" where
  "queuePath c queue suffix =
     (let path = ''queues/'' @ PathEscape (virtualHost c) @ ''/'' @ PathEscape queue
      in if suffix \<noteq> [] then path @ ''/'' @ suffix else path)"

section \<open>Locks of queues\<close>

text \<open>A mutex is known by the number of its allocation.\<close>

record QueueLockManager =
  locks :: "string \<rightharpoonup> nat"
  allocated :: nat

definition GetLock :: "string \<Rightarrow> QueueLockManager \<Rightarrow> nat \<times> QueueLockManager" where
  "GetLock queueName q =
     (case locks q queueName of
        Some lock \<Rightarrow> (lock, q)
      | None \<Rightarrow> (allocated q, q\<lparr>locks := (locks q)(queueName \<mapsto> allocated q), allocated := Suc (allocated q)\<rparr>))"

definition RemoveLock :: "string \<Rightarrow> QueueLockManager \<Rightarrow> QueueLockManager" where
  "RemoveLock queueName q = q\<lparr>locks := (locks q)(queueName := None)\<rparr>"

section \<open>The connection\<close>

datatype conn_state = ConnNil | ConnOpen | ConnClosed

record RabbitMQOperator =
  op_config :: MQConfig
  op_conn :: conn_state
  isReady :: bool
  op_closed :: bool
  closeCh_closed :: bool

text \<open>A dial that fails returns an error, and beside it nil or a connection that is not open.\<close>

datatype dial = DialOk | DialErr string conn_state

definition dialled :: "RabbitMQOperator \<Rightarrow> RabbitMQOperator" where
  "dialled op = op\<lparr>op_conn := ConnOpen, isReady := True\<rparr>"

text \<open>
  The loop of \<open>connect\<close>: after \<open>i\<close> attempts, with \<open>n\<close> left and the error so far. \<open>None\<close> is the panic of
  subscribing to a connection that is nil, which is what happens when there is no attempt at all.
\<close>

fun connect_loop :: "(nat \<Rightarrow> dial) \<Rightarrow> nat \<Rightarrow> nat \<Rightarrow> string option \<Rightarrow> RabbitMQOperator \<Rightarrow> string option \<times> RabbitMQOperator" where
  "connect_loop dials i 0 err op = (err, op)"
| "connect_loop dials i (Suc n) err op =
     (case dials i of
        DialOk \<Rightarrow> (None, op\<lparr>op_conn := ConnOpen\<rparr>)
      | DialErr e c \<Rightarrow> connect_loop dials (Suc i) n (Some e) (op\<lparr>op_conn := c\<rparr>))"

definition connect_error :: "RabbitMQOperator \<Rightarrow> string \<Rightarrow> string" where
  "connect_error op e =
     ''failed to connect after '' @ itoa (AttemptTimes (mq_LimitConf (op_config op))) @ '' attempts: '' @ e"

definition mq_connect :: "(nat \<Rightarrow> dial) \<Rightarrow> RabbitMQOperator \<Rightarrow> (string option \<times> RabbitMQOperator) option" where
  "mq_connect dials op =
     (if RetryWaitTime (mq_LimitConf (op_config op)) \<le> 0 then None
      else
        case connect_loop dials 0 (nat (AttemptTimes (mq_LimitConf (op_config op)))) None op of
          (Some e, op') \<Rightarrow> Some (Some (connect_error op e), op')
        | (None, op') \<Rightarrow> (if op_conn op' = ConnNil then None else Some (None, op'\<lparr>isReady := True\<rparr>)))"

definition NewRabbitMQOperator ::
  "(nat \<Rightarrow> dial) \<Rightarrow> MQConfig \<Rightarrow> (string option \<times> RabbitMQOperator option) option" where
  "NewRabbitMQOperator dials config =
     (case mq_Validate config of
        (Some e, _) \<Rightarrow> Some (Some e, None)
      | (None, config') \<Rightarrow>
          map_option (\<lambda>(err, op). (err, Some op))
            (mq_connect dials \<lparr>op_config = config', op_conn = ConnNil, isReady = False, op_closed = False, closeCh_closed = False\<rparr>))"

subsection \<open>Reconnecting\<close>

text \<open>
  The loop of \<open>tryReConnect\<close>, as a machine over what it waits for: the answer of a dial, the close
  channel, the ticker, the notification of a lost connection. The test and the dial are under the
  connection's mutex and so one step. \<open>rc_rest\<close> is the part after the first \<open>if\<close>: the loop falls through
  to it after a tick.
\<close>

datatype rc_event = Dialled dial | CloseSignal | Tick | Disconnect

text \<open>The loop returns \<open>true\<close> without an error or \<open>false\<close> with one.\<close>

datatype rc_phase = Dialling | Paused | Watching | Returned "string option"

type_synonym rc_state = "rc_phase \<times> int \<times> RabbitMQOperator"

definition rc_rest :: "bool \<Rightarrow> int \<Rightarrow> RabbitMQOperator \<Rightarrow> rc_state" where
  "rc_rest daemon count op = (if \<not> daemon then (Returned None, count, op) else (Watching, count, op))"

definition rc_head :: "bool \<Rightarrow> int \<Rightarrow> RabbitMQOperator \<Rightarrow> rc_state" where
  "rc_head daemon count op =
     (if \<not> isReady op \<and> \<not> op_closed op then (Dialling, count, op) else rc_rest daemon count op)"

definition rc_step :: "bool \<Rightarrow> rc_event \<Rightarrow> rc_state \<Rightarrow> rc_state" where
  "rc_step daemon ev = (\<lambda>(phase, count, op).
     (case (phase, ev) of
        (Dialling, Dialled DialOk) \<Rightarrow> rc_head daemon count (dialled op)
      | (Dialling, Dialled (DialErr e c)) \<Rightarrow>
          let op' = op\<lparr>op_conn := c\<rparr> in
          if daemon then (Paused, count, op')
          else if count + 1 \<ge> AttemptTimes (mq_LimitConf (op_config op))
            then (Returned (Some e), count + 1, op')
            else (Paused, count + 1, op')
      | (Paused, CloseSignal) \<Rightarrow> (Returned (Some ''connect fail, rabbitmq is closed''), count, op)
      | (Paused, Tick) \<Rightarrow> rc_rest daemon count op
      | (Watching, CloseSignal) \<Rightarrow> (Returned (Some ''rabbitmq is closed, exiting daemon program''), count, op)
      | (Watching, Disconnect) \<Rightarrow> rc_head daemon count (op\<lparr>isReady := False\<rparr>)
      | _ \<Rightarrow> (phase, count, op)))"

definition tryReConnect :: "bool \<Rightarrow> rc_event list \<Rightarrow> RabbitMQOperator \<Rightarrow> rc_phase \<times> RabbitMQOperator" where
  "tryReConnect daemon evs op =
     (case fold (rc_step daemon) evs (rc_head daemon 0 op) of (phase, _, op') \<Rightarrow> (phase, op'))"

section \<open>Channels\<close>

text \<open>What the broker knows of a channel, and the wrapper of the code: \<open>True\<close> for a Go channel that is not nil.\<close>

record amqp_channel =
  ch_open :: bool
  ch_confirm_mode :: bool

record ChannelWrap =
  cw_channel :: "amqp_channel option"
  cw_openConfirm :: bool
  cw_isConsumer :: bool
  cw_confirmChan :: bool
  cw_closeChan :: bool

definition dead :: "ChannelWrap \<Rightarrow> bool" where
  "dead c = (case cw_channel c of None \<Rightarrow> True | Some ch \<Rightarrow> \<not> ch_open ch)"

definition ChannelWrap_Close :: "ChannelWrap \<Rightarrow> ChannelWrap" where
  "ChannelWrap_Close c = (if dead c then c else c\<lparr>cw_channel := map_option (\<lambda>ch. ch\<lparr>ch_open := False\<rparr>) (cw_channel c)\<rparr>)"

text \<open>The result of a step that may also panic, or still be waiting when the events are over.\<close>

datatype 'a result = Ok 'a | Err string | Panic | Waiting

definition createChannel ::
  "bool \<Rightarrow> rc_event list \<Rightarrow> string option \<Rightarrow> string option \<Rightarrow> RabbitMQOperator \<Rightarrow> ChannelWrap result \<times> RabbitMQOperator" where
  "createChannel openConfirm evs chan_err confirm_err op =
     (case (if \<not> isReady op \<and> \<not> op_closed op then tryReConnect False evs op else (Returned None, op)) of
        (Returned (Some e), op') \<Rightarrow> (Err e, op')
      | (Returned None, op') \<Rightarrow>
          (if op_conn op' \<noteq> ConnOpen then (Err ''rabbitmq connection is not available'', op')
           else case chan_err of
             Some e \<Rightarrow> (Err (''create channel failed: '' @ e), op')
           | None \<Rightarrow>
               if openConfirm then
                 (case confirm_err of
                    Some e \<Rightarrow> (Err (''enable confirm mode failed: '' @ e), op')
                  | None \<Rightarrow> (Ok \<lparr>cw_channel = Some \<lparr>ch_open = True, ch_confirm_mode = True\<rparr>, cw_openConfirm = True,
                                cw_isConsumer = False, cw_confirmChan = True, cw_closeChan = True\<rparr>, op'))
               else (Ok \<lparr>cw_channel = Some \<lparr>ch_open = True, ch_confirm_mode = False\<rparr>, cw_openConfirm = False,
                         cw_isConsumer = False, cw_confirmChan = False, cw_closeChan = True\<rparr>, op'))
      | (_, op') \<Rightarrow> (Waiting, op'))"

text \<open>The first branch of \<open>recheck\<close>, which opens a new channel for the wrapper.\<close>

definition rebuild ::
  "rc_event list \<Rightarrow> string option \<Rightarrow> ChannelWrap \<Rightarrow> RabbitMQOperator \<Rightarrow> unit result \<times> ChannelWrap \<times> RabbitMQOperator" where
  "rebuild evs chan_err c op =
     (case tryReConnect False evs op of
        (Returned (Some e), op') \<Rightarrow> (Err e, c, op')
      | (Returned None, op') \<Rightarrow>
          (case op_conn op' of
             ConnNil \<Rightarrow> (Panic, c, op')
           | ConnClosed \<Rightarrow> (Err ''channel/connection is not open'', c\<lparr>cw_channel := None\<rparr>, op')
           | ConnOpen \<Rightarrow>
               (case chan_err of
                  Some e \<Rightarrow> (Err e, c\<lparr>cw_channel := None\<rparr>, op')
                | None \<Rightarrow>
                    let c1 = c\<lparr>cw_channel := Some \<lparr>ch_open = True, ch_confirm_mode = False\<rparr>\<rparr>;
                        c2 = (if cw_isConsumer c1 then c1\<lparr>cw_closeChan := True, cw_openConfirm := False\<rparr>
                              else c1\<lparr>cw_closeChan := False\<rparr>);
                        c3 = (if cw_openConfirm c2 then c2\<lparr>cw_confirmChan := True\<rparr> else c2)
                    in (Ok (), c3, op')))
      | (_, op') \<Rightarrow> (Waiting, c, op'))"

definition recheck ::
  "rc_event list \<Rightarrow> string option \<Rightarrow> ChannelWrap \<Rightarrow> RabbitMQOperator \<Rightarrow> unit result \<times> ChannelWrap \<times> RabbitMQOperator" where
  "recheck evs chan_err c op =
     (if dead c then rebuild evs chan_err c op
      else if \<not> cw_isConsumer c \<and> cw_closeChan c then rebuild evs chan_err (c\<lparr>cw_channel := None\<rparr>) op
      else
        let c1 = (if cw_isConsumer c \<and> \<not> cw_closeChan c then c\<lparr>cw_closeChan := True, cw_openConfirm := False\<rparr> else c)
        in if \<not> cw_openConfirm c1 \<and> cw_confirmChan c1 then rebuild evs chan_err (c1\<lparr>cw_channel := None\<rparr>) op
           else if cw_openConfirm c1 \<and> \<not> cw_confirmChan c1 then (Ok (), c1\<lparr>cw_confirmChan := True\<rparr>, op)
           else (Ok (), c1, op))"

text \<open>The hooks of the pool.\<close>

definition validateChannel :: "ChannelWrap \<Rightarrow> bool" where
  "validateChannel c \<longleftrightarrow> \<not> dead c"

definition activateChannel ::
  "rc_event list \<Rightarrow> string option \<Rightarrow> ChannelWrap \<Rightarrow> RabbitMQOperator \<Rightarrow> unit result \<times> ChannelWrap \<times> RabbitMQOperator" where
  "activateChannel evs chan_err c op = (if \<not> dead c then (Ok (), c, op) else recheck evs chan_err c op)"

text \<open>Giving a channel back: which of the two pools, and whether the channel is given up there.\<close>

datatype pool_action = InvalidateObject | ReturnObject

definition PushChannel :: "ChannelWrap \<Rightarrow> bool \<times> pool_action" where
  "PushChannel c = (cw_openConfirm c, if dead c then InvalidateObject else ReturnObject)"

text \<open>Waiting for the confirmation of one message; a doubtful channel is closed.\<close>

datatype confirm_event = ConfirmClosed | ConfirmTimeout | ConfirmEnd | Confirmation nat bool

definition confirmOne :: "confirm_event \<Rightarrow> ChannelWrap \<Rightarrow> bool \<times> ChannelWrap" where
  "confirmOne ev c =
     (case ev of
        ConfirmClosed \<Rightarrow> (False, c)
      | ConfirmTimeout \<Rightarrow> (False, ChannelWrap_Close c)
      | ConfirmEnd \<Rightarrow> (False, c)
      | Confirmation DeliveryTag ack \<Rightarrow>
          if DeliveryTag = 0 then (False, ChannelWrap_Close c) else (ack, c))"

section \<open>Closing\<close>

text \<open>\<open>close_err\<close> is the answer of closing the connection.\<close>

definition mq_Close :: "string option \<Rightarrow> RabbitMQOperator \<Rightarrow> string option \<times> RabbitMQOperator" where
  "mq_Close close_err op =
     (if op_closed op then (None, op)
      else
        let op1 = op\<lparr>op_closed := True, isReady := False, closeCh_closed := True\<rparr> in
        if op_conn op1 = ConnOpen then (close_err, op1\<lparr>op_conn := ConnClosed\<rparr>) else (None, op1))"


section \<open>Facts\<close>

subsection \<open>Addresses\<close>

lemma escaped_no_delimiter:
  "x \<in> set ''@/?:'' \<Longrightarrow> x \<notin> set (url_escape UserPassword s)"
  "x \<in> set ''/;,?'' \<Longrightarrow> x \<notin> set (url_escape PathSegment s)"
  by (auto dest!: url_escape_safe simp: should_escape.simps is_alnum_def)

text \<open>
  C29. The address can be read back. Cut at the first \<open>@\<close> after the scheme, the first colon before it and
  the last slash, it gives the user, the password and the virtual host again after unescaping,
  whatever bytes they contain; the address for the log has neither user nor password.
\<close>

theorem addr_reads_back:
  "\<exists>u p v. addr c = ''amqp://'' @ u @ '':'' @ p @ [CHR 0x40] @ mq_Host c @ '':'' @ itoa (mq_Port c) @ ''/'' @ v
     \<and> CHR '':'' \<notin> set u \<and> CHR 0x40 \<notin> set (u @ '':'' @ p) \<and> CHR ''/'' \<notin> set (u @ '':'' @ p) \<and> CHR ''/'' \<notin> set v
     \<and> url_unescape UserPassword u = Some (mq_Username c)
     \<and> url_unescape UserPassword p = Some (mq_Password c)
     \<and> url_unescape PathSegment v = Some (virtualHost c)
     \<and> logAddr c = logAddr (c\<lparr>mq_Username := u', mq_Password := p'\<rparr>)"
proof (intro exI conjI)
  show "addr c = ''amqp://'' @ url_escape UserPassword (mq_Username c) @ '':'' @ url_escape UserPassword (mq_Password c)
      @ [CHR 0x40] @ mq_Host c @ '':'' @ itoa (mq_Port c) @ ''/'' @ url_escape PathSegment (virtualHost c)"
    by (simp add: addr_def userinfo_def virtualHost_def PathEscape_def Let_def)
qed (use escaped_no_delimiter in \<open>simp_all add: url_unescape_escape logAddr_def\<close>)

subsection \<open>Reconnecting\<close>

lemma rc_head_closed: "op_closed op \<Longrightarrow> rc_head daemon n op = rc_rest daemon n op"
  by (simp add: rc_head_def)

lemma rc_returned [simp]: "fold (rc_step d) evs (Returned r, n, op) = (Returned r, n, op)"
  by (induction evs) (simp_all add: rc_step_def)

text \<open>One failed round of the daemon, from the loss of the connection to the next dial.\<close>

lemma rc_daemon_round:
  assumes "\<not> isReady op" "\<not> op_closed op"
  shows "fold (rc_step True) [Dialled (DialErr e c), Tick, Disconnect] (Dialling, n, op) = (Dialling, n, op\<lparr>op_conn := c\<rparr>)"
  using assms by (cases op) (simp add: rc_step_def rc_rest_def rc_head_def Let_def)

lemma rc_daemon_rounds:
  "\<not> isReady op \<Longrightarrow> \<not> op_closed op \<Longrightarrow>
   \<exists>c. fold (rc_step True) (concat (map (\<lambda>(e, c). [Dialled (DialErr e c), Tick, Disconnect]) errs)) (Dialling, n, op)
     = (Dialling, n, op\<lparr>op_conn := c\<rparr>)"
proof (induction errs arbitrary: op)
  case Nil
  then show ?case by (intro exI [of _ "op_conn op"]) simp
next
  case (Cons x errs)
  obtain e c where x: "x = (e, c)" by force
  obtain c' where "fold (rc_step True) (concat (map (\<lambda>(e, c). [Dialled (DialErr e c), Tick, Disconnect]) errs))
      (Dialling, n, op\<lparr>op_conn := c\<rparr>) = (Dialling, n, op\<lparr>op_conn := c, op_conn := c'\<rparr>)"
    using Cons.IH [of "op\<lparr>op_conn := c\<rparr>"] Cons.prems by auto
  then show ?case
    using rc_daemon_round [OF Cons.prems, of e c n] x by (intro exI [of _ c']) simp
qed


definition demo_config :: MQConfig where
  "demo_config = \<lparr>mq_Username = ''u'', mq_Password = ''p'', mq_Host = ''h'', mq_Port = 5672, mq_ManagementPort = 0,
     mq_VirtualHost = [], mq_LimitConf = \<lparr>AttemptTimes = 3, RetryWaitTime = 2, PrefetchCount = 5, LimitTimeout = 2, QueueLimit = 0\<rparr>\<rparr>"

definition demo_mq :: RabbitMQOperator where
  "demo_mq = \<lparr>op_config = demo_config, op_conn = ConnClosed, isReady = False, op_closed = False, closeCh_closed = False\<rparr>"


text \<open>
  The other callers do not get the attempts they are configured for: after the first dial that fails
  the loop waits one tick and reports success. A new channel is then refused, and a channel that
  \<open>recheck\<close> would rebuild is asked of a nil connection, a panic. Only with a single attempt is the
  failure reported as such.
\<close>

theorem reconnect_gives_up_silently:
  assumes "\<not> isReady op" "\<not> op_closed op"
  shows "(1 < AttemptTimes (mq_LimitConf (op_config op)) \<longrightarrow>
            tryReConnect False (Dialled (DialErr e c) # Tick # evs) op = (Returned None, op\<lparr>op_conn := c\<rparr>)
          \<and> createChannel confirm [Dialled (DialErr e ConnNil), Tick] chan_err confirm_err op
              = (Err ''rabbitmq connection is not available'', op\<lparr>op_conn := ConnNil\<rparr>)
          \<and> (dead w \<longrightarrow> fst (recheck [Dialled (DialErr e ConnNil), Tick] chan_err w op) = Panic))
     \<and> (AttemptTimes (mq_LimitConf (op_config op)) \<le> 1 \<longrightarrow>
            fst (tryReConnect False (Dialled (DialErr e c) # evs) op) = Returned (Some e))
     \<and> tryReConnect False (Dialled DialOk # evs) op = (Returned None, op\<lparr>op_conn := ConnOpen, isReady := True\<rparr>)"
  using assms
  by (simp add: tryReConnect_def rc_head_def rc_step_def rc_rest_def dialled_def createChannel_def recheck_def rebuild_def Let_def)

theorem reconnect_gives_up_silently_witness:
  "fst (tryReConnect False [Dialled (DialErr ''refused'' ConnNil), Tick] demo_mq) = Returned None"
  using reconnect_gives_up_silently [of demo_mq "''refused''" ConnNil "[]"] by (simp add: demo_mq_def demo_config_def)

subsection \<open>Channels\<close>

text \<open>
  Confirm mode. A channel made for confirmation is in confirm mode and one that is not is not. But
  when the pool wakes a confirm channel that has died, it gets a new channel that was never put
  in confirm mode, keeps its flag and passes validation: no confirmation can arrive, so the push waits
  for its timeout, which closes the channel and gives it up.
\<close>

theorem confirm_mode:
  "(\<forall>w op'. createChannel confirm evs chan_err confirm_err op = (Ok w, op') \<longrightarrow>
      cw_openConfirm w = confirm \<and> \<not> dead w \<and> map_option ch_confirm_mode (cw_channel w) = Some confirm)
   \<and> (isReady op \<and> op_conn op = ConnOpen \<and> dead w \<and> cw_openConfirm w \<and> \<not> cw_isConsumer w \<longrightarrow>
      (\<exists>w'. activateChannel evs None w op = (Ok (), w', op)
         \<and> validateChannel w' \<and> cw_openConfirm w' \<and> map_option ch_confirm_mode (cw_channel w') = Some False
         \<and> fst (confirmOne ConfirmTimeout w') = False
         \<and> PushChannel (snd (confirmOne ConfirmTimeout w')) = (True, InvalidateObject)))"
proof (intro conjI allI impI)
  fix w op'
  assume "createChannel confirm evs chan_err confirm_err op = (Ok w, op')"
  then show "cw_openConfirm w = confirm" "\<not> dead w" "map_option ch_confirm_mode (cw_channel w) = Some confirm"
    unfolding createChannel_def
    by (auto simp: dead_def split: prod.splits rc_phase.splits option.splits if_splits)
next
  assume a: "isReady op \<and> op_conn op = ConnOpen \<and> dead w \<and> cw_openConfirm w \<and> \<not> cw_isConsumer w"
  let ?w = "w\<lparr>cw_channel := Some \<lparr>ch_open = True, ch_confirm_mode = False\<rparr>, cw_closeChan := False, cw_confirmChan := True\<rparr>"
  have "tryReConnect False evs op = (Returned None, op)"
    using a by (simp add: tryReConnect_def rc_head_def rc_rest_def)
  then have "activateChannel evs None w op = (Ok (), ?w, op)"
    using a by (simp add: activateChannel_def recheck_def rebuild_def Let_def)
  moreover have "confirmOne ConfirmTimeout ?w = (False, ?w\<lparr>cw_channel := Some \<lparr>ch_open = False, ch_confirm_mode = False\<rparr>\<rparr>)"
    by (simp add: confirmOne_def ChannelWrap_Close_def dead_def)
  ultimately show "\<exists>w'. activateChannel evs None w op = (Ok (), w', op)
         \<and> validateChannel w' \<and> cw_openConfirm w' \<and> map_option ch_confirm_mode (cw_channel w') = Some False
         \<and> fst (confirmOne ConfirmTimeout w') = False
         \<and> PushChannel (snd (confirmOne ConfirmTimeout w')) = (True, InvalidateObject)"
    using a by (intro exI [of _ ?w]) (simp add: validateChannel_def dead_def PushChannel_def)
qed

definition demo_wrap :: ChannelWrap where
  "demo_wrap = \<lparr>cw_channel = Some \<lparr>ch_open = False, ch_confirm_mode = True\<rparr>, cw_openConfirm = True,
     cw_isConsumer = False, cw_confirmChan = True, cw_closeChan = True\<rparr>"

theorem confirm_mode_witness:
  "\<exists>w'. fst (activateChannel [] None demo_wrap (demo_mq\<lparr>isReady := True, op_conn := ConnOpen\<rparr>)) = Ok ()
     \<and> validateChannel w' \<and> map_option ch_confirm_mode (cw_channel w') = Some False"
  using confirm_mode [of _ "[]" _ _ "demo_mq\<lparr>isReady := True, op_conn := ConnOpen\<rparr>" demo_wrap]
  by (fastforce simp: demo_wrap_def dead_def)

end
