(* ===== verification/Rabbit_Declare.thy ===== *)
theory Rabbit_Declare
  imports Rabbit_Conn
begin

text \<open>
  Declaring, binding, unbinding and deleting in \<open>rabbitmqx/rmq.go\<close>, with the cache that saves repeated
  declarations. The calls on a channel are recorded; what each answers is an argument, and a call that
  succeeds has the effect the AMQP specification gives it on exchanges, queues and bindings.
\<close>

section \<open>Options\<close>

record Options =
  durable :: bool
  autoDelete :: bool
  exclusive :: bool
  noWait :: bool
  internal :: bool
  ifUnUsed :: bool
  ifEmpty :: bool
  forceDeclare :: bool

type_synonym OptionFunc = "Options \<Rightarrow> Options"

definition zero_Options :: Options where
  "zero_Options = \<lparr>durable = False, autoDelete = False, exclusive = False, noWait = False, internal = False,
     ifUnUsed = False, ifEmpty = False, forceDeclare = False\<rparr>"

definition WithDeclareOptionDurable :: "bool \<Rightarrow> OptionFunc" where
  "WithDeclareOptionDurable d = (\<lambda>options. options\<lparr>durable := d\<rparr>)"

definition WithDeclareOptionAutoDelete :: "bool \<Rightarrow> OptionFunc" where
  "WithDeclareOptionAutoDelete a = (\<lambda>options. options\<lparr>autoDelete := a\<rparr>)"

definition WithDeclareOptionExclusive :: "bool \<Rightarrow> OptionFunc" where
  "WithDeclareOptionExclusive e = (\<lambda>options. options\<lparr>exclusive := e\<rparr>)"

definition WithDeclareOptionNoWait :: "bool \<Rightarrow> OptionFunc" where
  "WithDeclareOptionNoWait n = (\<lambda>options. options\<lparr>noWait := n\<rparr>)"

definition WithDeclareOptionInternal :: "bool \<Rightarrow> OptionFunc" where
  "WithDeclareOptionInternal i = (\<lambda>options. options\<lparr>internal := i\<rparr>)"

definition WithDelOptionIfEmpty :: "bool \<Rightarrow> OptionFunc" where
  "WithDelOptionIfEmpty e = (\<lambda>options. options\<lparr>ifEmpty := e\<rparr>)"

definition WithDelOptionIfUnused :: "bool \<Rightarrow> OptionFunc" where
  "WithDelOptionIfUnused u = (\<lambda>options. options\<lparr>ifUnUsed := u\<rparr>)"

definition WithForceDeclare :: "bool \<Rightarrow> OptionFunc" where
  "WithForceDeclare f = (\<lambda>options. options\<lparr>forceDeclare := f\<rparr>)"

definition apply_opts :: "OptionFunc list \<Rightarrow> Options \<Rightarrow> Options" where
  "apply_opts opts options = fold (\<lambda>opt. opt) opts options"

section \<open>The broker\<close>

text \<open>The methods of a channel that the code calls, with their arguments in the library's order.\<close>

datatype amqp_call =
    ExchangeDeclare string string bool bool bool bool table
  | QueueDeclare string bool bool bool bool table
  | QueueBind string string string bool table
  | QueueUnbind string string string table
  | ExchangeDelete string bool bool
  | QueueDelete string bool bool bool
  | Publish string string Publishing
  | Qos int
  | StartConsume string string bool table

record broker =
  exchanges :: "string set"
  queues :: "string set"
  bindings :: "(string \<times> string \<times> string) set"  \<comment> \<open>exchange, queue, key\<close>

primrec amqp_effect :: "amqp_call \<Rightarrow> broker \<Rightarrow> broker" where
  "amqp_effect (ExchangeDeclare e _ _ _ _ _ _) b = b\<lparr>exchanges := insert e (exchanges b)\<rparr>"
| "amqp_effect (QueueDeclare q _ _ _ _ _) b = b\<lparr>queues := insert q (queues b)\<rparr>"
| "amqp_effect (QueueBind q key e _ _) b = b\<lparr>bindings := insert (e, q, key) (bindings b)\<rparr>"
| "amqp_effect (QueueUnbind q key e _) b = b\<lparr>bindings := bindings b - {(e, q, key)}\<rparr>"
| "amqp_effect (ExchangeDelete e _ _) b = b\<lparr>exchanges := exchanges b - {e}, bindings := {x \<in> bindings b. fst x \<noteq> e}\<rparr>"
| "amqp_effect (QueueDelete q _ _ _) b = b\<lparr>queues := queues b - {q}, bindings := {x \<in> bindings b. fst (snd x) \<noteq> q}\<rparr>"
| "amqp_effect (Publish _ _ _) b = b"
| "amqp_effect (Qos _) b = b"
| "amqp_effect (StartConsume _ _ _ _) b = b"

record mq_state =
  opCache :: "string set"
  calls :: "amqp_call list"
  the_broker :: broker

text \<open>An answer may depend on the calls so far.\<close>

type_synonym answers = "amqp_call list \<Rightarrow> amqp_call \<Rightarrow> string option"

definition amqp :: "answers \<Rightarrow> amqp_call \<Rightarrow> mq_state \<Rightarrow> string option \<times> mq_state" where
  "amqp answer c s =
     (case answer (calls s) c of
        Some e \<Rightarrow> (Some e, s\<lparr>calls := calls s @ [c]\<rparr>)
      | None \<Rightarrow> (None, s\<lparr>calls := calls s @ [c], the_broker := amqp_effect c (the_broker s)\<rparr>))"

section \<open>Declarations\<close>

text \<open>
  The part that the three operations share: unless it is forced, a declaration in the cache is passed
  over, and one that succeeds is put there. The second test, under the mutex, finds what the first
  found when nothing runs in between; the interleaving of several callers is treated below.
\<close>

definition declare_cached :: "answers \<Rightarrow> string \<Rightarrow> bool \<Rightarrow> amqp_call \<Rightarrow> mq_state \<Rightarrow> string option \<times> mq_state" where
  "declare_cached answer opKey force c s =
     (if \<not> force \<and> opKey \<in> opCache s then (None, s)
      else
        case amqp answer c s of
          (Some e, s') \<Rightarrow> (Some e, s')
        | (None, s') \<Rightarrow> (None, if force then s' else s'\<lparr>opCache := insert opKey (opCache s')\<rparr>))"

definition exchange_key :: "string \<Rightarrow> string" where
  "exchange_key exchangeName = ''declare_exchange:'' @ exchangeName"

definition queue_key :: "string \<Rightarrow> string" where
  "queue_key queueName = ''declare_queue:'' @ queueName"

definition bind_key :: "string \<Rightarrow> string \<Rightarrow> string" where
  "bind_key exchangeName queueName = ''bind_queue:'' @ exchangeName @ ''_'' @ queueName"

definition DeclareExchange ::
  "answers \<Rightarrow> string \<Rightarrow> string \<Rightarrow> table \<Rightarrow> OptionFunc list \<Rightarrow> mq_state \<Rightarrow> string option \<times> mq_state" where
  "DeclareExchange answer exchangeName exchangeType args opts s =
     (let options = apply_opts opts (zero_Options\<lparr>durable := True\<rparr>)
      in declare_cached answer (exchange_key exchangeName) (forceDeclare options)
           (ExchangeDeclare exchangeName exchangeType (durable options) (autoDelete options) (internal options) (noWait options) args) s)"

definition DeclareQueue ::
  "answers \<Rightarrow> string \<Rightarrow> table \<Rightarrow> OptionFunc list \<Rightarrow> mq_state \<Rightarrow> string option \<times> mq_state" where
  "DeclareQueue answer queueName args opts s =
     (let options = apply_opts opts (zero_Options\<lparr>durable := True\<rparr>)
      in declare_cached answer (queue_key queueName) (forceDeclare options)
           (QueueDeclare queueName (durable options) (autoDelete options) (exclusive options) (noWait options) args) s)"

definition BindQueue ::
  "answers \<Rightarrow> string \<Rightarrow> string \<Rightarrow> string \<Rightarrow> table \<Rightarrow> OptionFunc list \<Rightarrow> mq_state \<Rightarrow> string option \<times> mq_state" where
  "BindQueue answer exchangeName routingKey queueName args opts s =
     (let options = apply_opts opts zero_Options
      in declare_cached answer (bind_key exchangeName queueName) (forceDeclare options)
           (QueueBind queueName routingKey exchangeName (noWait options) args) s)"

definition UnBindQueue ::
  "answers \<Rightarrow> string \<Rightarrow> string \<Rightarrow> string \<Rightarrow> table \<Rightarrow> mq_state \<Rightarrow> string option \<times> mq_state" where
  "UnBindQueue answer exchangeName queueName routingKey args s =
     (case amqp answer (QueueUnbind queueName routingKey exchangeName args) s of
        (Some e, s') \<Rightarrow> (Some e, s')
      | (None, s') \<Rightarrow> (None, s'\<lparr>opCache := opCache s' - {bind_key exchangeName queueName}\<rparr>))"

definition DeleteExchange :: "answers \<Rightarrow> string \<Rightarrow> OptionFunc list \<Rightarrow> mq_state \<Rightarrow> string option \<times> mq_state" where
  "DeleteExchange answer exchangeName opts s =
     (let options = apply_opts opts (zero_Options\<lparr>ifUnUsed := True\<rparr>) in
      case amqp answer (ExchangeDelete exchangeName (ifUnUsed options) (noWait options)) s of
        (Some e, s') \<Rightarrow> (Some e, s')
      | (None, s') \<Rightarrow> (None, s'\<lparr>opCache := opCache s' - {exchange_key exchangeName}\<rparr>))"

definition DeleteQueue :: "answers \<Rightarrow> string \<Rightarrow> OptionFunc list \<Rightarrow> mq_state \<Rightarrow> string option \<times> mq_state" where
  "DeleteQueue answer queueName opts s =
     (let options = apply_opts opts (zero_Options\<lparr>ifUnUsed := True, ifEmpty := True\<rparr>) in
      case amqp answer (QueueDelete queueName (ifUnUsed options) (ifEmpty options) (noWait options)) s of
        (Some e, s') \<Rightarrow> (Some e, s')
      | (None, s') \<Rightarrow> (None, s'\<lparr>opCache := opCache s' - {queue_key queueName}\<rparr>))"

section \<open>Concurrent declarations\<close>

text \<open>
  Several goroutines in the declaring operations, each for one key and not forced: the test without the
  mutex, taking the mutex, the test under it, the call, the store. \<open>succeeded\<close> counts the calls
  that succeeded.
\<close>

datatype declare_pc = FirstTest | WantMutex | SecondTest | Calling | Storing | Finished "string option"

record declare_sys =
  dcache :: "string set"
  mutex :: "nat option"
  succeeded :: "string \<Rightarrow> nat"
  pcs :: "nat \<Rightarrow> declare_pc"

inductive declare_step :: "(nat \<Rightarrow> string) \<Rightarrow> declare_sys \<Rightarrow> declare_sys \<Rightarrow> bool" for key where
  first_hit: "pcs s t = FirstTest \<Longrightarrow> key t \<in> dcache s \<Longrightarrow> declare_step key s (s\<lparr>pcs := (pcs s)(t := Finished None)\<rparr>)"
| first_miss: "pcs s t = FirstTest \<Longrightarrow> key t \<notin> dcache s \<Longrightarrow> declare_step key s (s\<lparr>pcs := (pcs s)(t := WantMutex)\<rparr>)"
| take_mutex: "pcs s t = WantMutex \<Longrightarrow> mutex s = None \<Longrightarrow>
    declare_step key s (s\<lparr>mutex := Some t, pcs := (pcs s)(t := SecondTest)\<rparr>)"
| second_hit: "pcs s t = SecondTest \<Longrightarrow> key t \<in> dcache s \<Longrightarrow>
    declare_step key s (s\<lparr>mutex := None, pcs := (pcs s)(t := Finished None)\<rparr>)"
| second_miss: "pcs s t = SecondTest \<Longrightarrow> key t \<notin> dcache s \<Longrightarrow> declare_step key s (s\<lparr>pcs := (pcs s)(t := Calling)\<rparr>)"
| call_fails: "pcs s t = Calling \<Longrightarrow>
    declare_step key s (s\<lparr>mutex := None, pcs := (pcs s)(t := Finished (Some e))\<rparr>)"
| call_succeeds: "pcs s t = Calling \<Longrightarrow>
    declare_step key s (s\<lparr>succeeded := (succeeded s)(key t := Suc (succeeded s (key t))), pcs := (pcs s)(t := Storing)\<rparr>)"
| store: "pcs s t = Storing \<Longrightarrow>
    declare_step key s (s\<lparr>dcache := insert (key t) (dcache s), mutex := None, pcs := (pcs s)(t := Finished None)\<rparr>)"

definition declare_start :: "declare_sys \<Rightarrow> bool" where
  "declare_start s \<longleftrightarrow> dcache s = {} \<and> mutex s = None \<and> (\<forall>k. succeeded s k = 0) \<and> (\<forall>t. pcs s t = FirstTest)"


section \<open>Facts\<close>

definition all_ok :: answers where "all_ok _ _ = None"

lemma amqp_ok [simp]: "answer (calls s) c = None \<Longrightarrow>
    amqp answer c s = (None, s\<lparr>calls := calls s @ [c], the_broker := amqp_effect c (the_broker s)\<rparr>)"
  by (simp add: amqp_def)

lemma keys_differ [simp]:
  "exchange_key e \<noteq> queue_key q" "exchange_key e \<noteq> bind_key e' q" "queue_key q \<noteq> bind_key e q'"
  "queue_key q \<noteq> exchange_key e" "bind_key e' q \<noteq> exchange_key e" "bind_key e q' \<noteq> queue_key q"
  by (simp_all add: exchange_key_def queue_key_def bind_key_def)

lemma key_inj [simp]: "exchange_key e = exchange_key e' \<longleftrightarrow> e = e'" "queue_key q = queue_key q' \<longleftrightarrow> q = q'"
  by (simp_all add: exchange_key_def queue_key_def)

lemma apply_opts_simps [simp]: "apply_opts [] o' = o'" "apply_opts (f # fs) o' = apply_opts fs (f o')"
  by (simp_all add: apply_opts_def)

text \<open>
  The three declarations promise the same: a second one is free, a failure is not remembered, and a
  forced one always goes to the broker and leaves the cache as it is.
\<close>

locale cached_declaration =
  fixes declare_op :: "answers \<Rightarrow> bool \<Rightarrow> mq_state \<Rightarrow> string option \<times> mq_state"
    and key :: string
    and request :: "bool \<Rightarrow> amqp_call"
  assumes runs: "declare_op answer force s = declare_cached answer key force (request force) s"
begin

lemma success_is_remembered:
  assumes "declare_op answer False s = (None, s')"
  shows "key \<in> opCache s'" "declare_op answer' False s' = (None, s')"
  using assms
  by (auto simp: runs declare_cached_def amqp_def split: if_splits option.splits prod.splits)

lemma failure_is_not_remembered:
  assumes "declare_op answer False s = (Some e, s')"
  shows "opCache s' = opCache s" "key \<notin> opCache s" "calls s' = calls s @ [request False]" "the_broker s' = the_broker s"
  using assms by (auto simp: runs declare_cached_def amqp_def split: if_splits option.splits)

lemma forced_always_calls:
  assumes "declare_op answer True s = (err, s')"
  shows "opCache s' = opCache s" "calls s' = calls s @ [request True]"
  using assms by (auto simp: runs declare_cached_def amqp_def split: if_splits option.splits)

end

interpretation exch: cached_declaration
    "\<lambda>answer force. DeclareExchange answer e kind args [WithForceDeclare force]"
    "exchange_key e" "\<lambda>force. ExchangeDeclare e kind True False False False args" for e kind args
  by unfold_locales (simp add: DeclareExchange_def WithForceDeclare_def Let_def zero_Options_def)

interpretation que: cached_declaration
    "\<lambda>answer force. DeclareQueue answer q args [WithForceDeclare force]"
    "queue_key q" "\<lambda>force. QueueDeclare q True False False False args" for q args
  by unfold_locales (simp add: DeclareQueue_def WithForceDeclare_def Let_def zero_Options_def)

interpretation bind: cached_declaration
    "\<lambda>answer force. BindQueue answer e k q args [WithForceDeclare force]"
    "bind_key e q" "\<lambda>force. QueueBind q k e False args" for e k q args
  by unfold_locales (simp add: BindQueue_def WithForceDeclare_def Let_def zero_Options_def)

text \<open>
  Declaring a queue: once it has succeeded it is not sent again, a failure leaves the broker and the
  cache as they were so that the next attempt asks again, and a forced declaration is always sent.
  Declaring an exchange is the same.
\<close>

theorem declare_idempotent:
  "(DeclareQueue answer q args [WithForceDeclare False] s = (None, s') \<longrightarrow>
        DeclareQueue answer' q args [WithForceDeclare False] s' = (None, s'))
   \<and> (DeclareQueue answer q args [WithForceDeclare False] s = (Some e, s') \<longrightarrow>
        opCache s' = opCache s \<and> the_broker s' = the_broker s \<and> queue_key q \<notin> opCache s)
   \<and> calls (snd (DeclareQueue answer q args [WithForceDeclare True] s)) = calls s @ [QueueDeclare q True False False False args]
   \<and> (DeclareExchange answer x kind args [WithForceDeclare False] s = (None, s') \<longrightarrow>
        DeclareExchange answer' x kind args [WithForceDeclare False] s' = (None, s'))"
  using que.success_is_remembered(2) que.failure_is_not_remembered exch.success_is_remembered(2)
    que.forced_always_calls(2) [OF prod.collapse [symmetric]]
  by (intro conjI impI) simp_all

definition demo_state :: mq_state where
  "demo_state = \<lparr>opCache = {}, calls = [], the_broker = \<lparr>exchanges = {}, queues = {}, bindings = {}\<rparr>\<rparr>"

theorem declare_idempotent_witness:
  "\<exists>s'. DeclareQueue all_ok ''jobs'' None [WithForceDeclare False] demo_state = (None, s')
     \<and> DeclareQueue all_ok ''jobs'' None [WithForceDeclare False] s' = (None, s') \<and> length (calls s') = 1"
proof (intro exI conjI)
  let ?s = "demo_state\<lparr>opCache := {queue_key ''jobs''}, calls := [QueueDeclare ''jobs'' True False False False None],
      the_broker := \<lparr>exchanges = {}, queues = {''jobs''}, bindings = {}\<rparr>\<rparr>"
  show e: "DeclareQueue all_ok ''jobs'' None [WithForceDeclare False] demo_state = (None, ?s)"
    by (simp add: que.runs declare_cached_def all_ok_def demo_state_def)
  show "DeclareQueue all_ok ''jobs'' None [WithForceDeclare False] ?s = (None, ?s)"
    using declare_idempotent e by blast
qed simp

text \<open>
  The cache of bindings. Its key leaves out the routing key and joins the names with a character they
  may contain, so after a successful binding of exchange \<open>e\<close> and queue \<open>q\<close> exactly the bindings with the
  same joined name are passed over: a second routing key for the same pair never reaches the
  broker, nor does exchange \<open>a_b\<close> with queue \<open>c\<close> after exchange \<open>a\<close> with queue \<open>b_c\<close>. And deleting the queue takes
  its bindings with it at the broker but not in the cache, so declaring and binding it again
  succeeds and leaves it unbound, where unbinding does clear the cache.
\<close>

theorem bind_cache_stale:
  assumes "BindQueue answer e k q args [] s = (None, s1)" and "opCache s = {}" and "\<And>h c. answer h c = None"
  shows "(e' @ ''_'' @ q' = e @ ''_'' @ q \<longrightarrow> BindQueue answer e' k' q' args' [] s1 = (None, s1))
     \<and> (e' @ ''_'' @ q' \<noteq> e @ ''_'' @ q \<longrightarrow>
          (e', q', k') \<in> bindings (the_broker (snd (BindQueue answer e' k' q' args' [] s1))))
     \<and> (\<exists>s2 s3. DeleteQueue answer q [] s1 = (None, s2) \<and> DeclareQueue answer q args [] s2 = (None, s3)
          \<and> BindQueue answer e k q args [] s3 = (None, s3) \<and> (\<forall>x k. (x, q, k) \<notin> bindings (the_broker s3)))
     \<and> (\<exists>s2 s3. UnBindQueue answer e q k args s1 = (None, s2) \<and> BindQueue answer e k q args [] s2 = (None, s3)
          \<and> (e, q, k) \<in> bindings (the_broker s3))"
proof -
  have s1: "s1 = s\<lparr>opCache := {bind_key e q}, calls := calls s @ [QueueBind q k e False args],
      the_broker := amqp_effect (QueueBind q k e False args) (the_broker s)\<rparr>"
    using assms by (cases s) (auto simp: BindQueue_def declare_cached_def zero_Options_def Let_def)
  have k: "bind_key e' q' = bind_key e q \<longleftrightarrow> e' @ ''_'' @ q' = e @ ''_'' @ q" by (simp add: bind_key_def)
  show ?thesis
    using assms(3) k
    by (simp add: s1 BindQueue_def DeclareQueue_def DeleteQueue_def UnBindQueue_def declare_cached_def zero_Options_def Let_def)
qed

theorem bind_cache_stale_witness:
  "\<exists>s1. BindQueue all_ok ''a'' ''k1'' ''b_c'' None [] demo_state = (None, s1)
     \<and> BindQueue all_ok ''a_b'' ''k2'' ''c'' None [] s1 = (None, s1)"
proof -
  obtain s1 where e: "BindQueue all_ok ''a'' ''k1'' ''b_c'' None [] demo_state = (None, s1)"
    by (simp add: BindQueue_def declare_cached_def zero_Options_def Let_def all_ok_def demo_state_def)
  then show ?thesis
    using bind_cache_stale [OF e, of "''a_b''" "''c''"] by (simp add: all_ok_def demo_state_def)
qed

subsection \<open>Any interleaving\<close>

text \<open>
  The invariant: a goroutine between taking and giving back the mutex holds it; a key has been declared
  as often as it is in the cache or about to be stored, and the one about to call has not been.
\<close>

definition in_mutex :: "declare_pc \<Rightarrow> bool" where
  "in_mutex pc \<longleftrightarrow> pc = SecondTest \<or> pc = Calling \<or> pc = Storing"

definition storing_key :: "(nat \<Rightarrow> string) \<Rightarrow> declare_sys \<Rightarrow> string option" where
  "storing_key key s =
     (case mutex s of None \<Rightarrow> None | Some t \<Rightarrow> if pcs s t = Storing then Some (key t) else None)"

definition declare_inv :: "(nat \<Rightarrow> string) \<Rightarrow> declare_sys \<Rightarrow> bool" where
  "declare_inv key s \<longleftrightarrow>
     (\<forall>t. in_mutex (pcs s t) \<longleftrightarrow> mutex s = Some t)
   \<and> (\<forall>k. succeeded s k = (if k \<in> dcache s \<or> storing_key key s = Some k then 1 else 0))
   \<and> (\<forall>t. pcs s t = Calling \<or> pcs s t = Storing \<longrightarrow> key t \<notin> dcache s)
   \<and> (\<forall>t. pcs s t = Finished None \<longrightarrow> key t \<in> dcache s)"

inductive_cases declare_stepE: "declare_step key s s'"

lemma declare_inv_start: "declare_start s \<Longrightarrow> declare_inv key s"
  by (simp add: declare_start_def declare_inv_def in_mutex_def storing_key_def)


lemma mutex_iff: "declare_inv key s \<Longrightarrow> mutex s = Some t \<longleftrightarrow> in_mutex (pcs s t)"
  by (simp add: declare_inv_def)

lemma mutex_unique: "declare_inv key s \<Longrightarrow> in_mutex (pcs s t) \<Longrightarrow> in_mutex (pcs s u) \<Longrightarrow> u = t"
  by (simp add: declare_inv_def)

lemma declare_inv_step:
  assumes "declare_step key s s'" and inv: "declare_inv key s"
  shows "declare_inv key s'"
  using assms(1)
proof cases
  case (first_hit t)
  with mutex_iff [OF inv, of t] inv first_hit show ?thesis
    by (auto simp: declare_inv_def in_mutex_def storing_key_def split: option.splits if_splits)
next
  case (first_miss t)
  with mutex_iff [OF inv, of t] inv first_miss show ?thesis
    by (auto simp: declare_inv_def in_mutex_def storing_key_def split: option.splits if_splits)
next
  case (take_mutex t)
  with mutex_iff [OF inv, of t] inv take_mutex show ?thesis
    by (auto simp: declare_inv_def in_mutex_def storing_key_def split: option.splits if_splits)
next
  case (second_hit t)
  with mutex_iff [OF inv, of t] inv second_hit show ?thesis
    by (auto simp: declare_inv_def in_mutex_def storing_key_def split: option.splits if_splits)
next
  case (second_miss t)
  with mutex_iff [OF inv, of t] inv second_miss show ?thesis
    by (auto simp: declare_inv_def in_mutex_def storing_key_def split: option.splits if_splits)
next
  case (call_fails t e)
  with mutex_iff [OF inv, of t] inv call_fails show ?thesis
    by (auto simp: declare_inv_def in_mutex_def storing_key_def split: option.splits if_splits)
next
  case (call_succeeds t)
  with mutex_iff [OF inv, of t] inv call_succeeds show ?thesis
    by (auto simp: declare_inv_def in_mutex_def storing_key_def split: option.splits if_splits)
next
  case (store t)
  then have m: "mutex s = Some t" and k: "storing_key key s = Some (key t)"
    using mutex_iff [OF inv, of t] by (simp_all add: in_mutex_def storing_key_def)
  have out: "\<not> in_mutex (pcs s u)" if "u \<noteq> t" for u using mutex_iff [OF inv, of u] m that by simp
  have sk: "storing_key key s' = None" using store by (simp add: storing_key_def)
  show ?thesis
    unfolding declare_inv_def
  proof (intro conjI allI)
    show "in_mutex (pcs s' u) \<longleftrightarrow> mutex s' = Some u" for u
      using out [of u] store by (simp add: in_mutex_def)
    show "succeeded s' x = (if x \<in> dcache s' \<or> storing_key key s' = Some x then 1 else 0)" for x
      using inv store sk k by (auto simp: declare_inv_def)
    show "pcs s' u = Calling \<or> pcs s' u = Storing \<longrightarrow> key u \<notin> dcache s'" for u
      using out [of u] store by (simp add: in_mutex_def)
    show "pcs s' u = Finished None \<longrightarrow> key u \<in> dcache s'" for u
      using inv store by (simp add: declare_inv_def)
  qed
qed

text \<open>
  C5. However the goroutines interleave, a key is declared at the broker at most once, only one goroutine
  is between the tests under the mutex and the store, and whoever returns without an error does so
  after a declaration that succeeded.
\<close>

theorem declare_once:
  assumes "declare_start s" and "(declare_step key)\<^sup>*\<^sup>* s s'"
  shows "succeeded s' k \<le> 1
     \<and> (pcs s' t = Finished None \<longrightarrow> succeeded s' (key t) = 1)
     \<and> (in_mutex (pcs s' t) \<and> in_mutex (pcs s' u) \<longrightarrow> u = t)"
proof -
  have inv: "declare_inv key s'"
    using assms(2) by induction (blast intro: declare_inv_start [OF assms(1)] declare_inv_step)+
  then have "succeeded s' k \<le> 1" "pcs s' t = Finished None \<Longrightarrow> succeeded s' (key t) = 1"
    by (simp_all add: declare_inv_def)
  then show ?thesis using mutex_unique [OF inv] by blast
qed

definition demo_sys :: "declare_sys" where
  "demo_sys = \<lparr>dcache = {}, mutex = None, succeeded = (\<lambda>_. 0), pcs = (\<lambda>_. FirstTest)\<rparr>"

theorem declare_once_witness:
  "\<exists>s'. (declare_step (\<lambda>_. ''q''))\<^sup>*\<^sup>* demo_sys s' \<and> pcs s' 0 = WantMutex \<and> succeeded s' ''q'' \<le> 1"
proof -
  let ?s = "demo_sys\<lparr>pcs := (pcs demo_sys)(0 := WantMutex)\<rparr>"
  have step: "(declare_step (\<lambda>_. ''q''))\<^sup>*\<^sup>* demo_sys ?s"
    by (rule r_into_rtranclp, rule first_miss) (simp_all add: demo_sys_def)
  have "declare_start demo_sys" by (simp add: declare_start_def demo_sys_def)
  from declare_once [OF this step, of "''q''" 0 0] step show ?thesis by (intro exI [of _ ?s]) simp
qed

end
