(* ===== verification/Rabbit_Push.thy ===== *)
theory Rabbit_Push
  imports Rabbit_Declare
begin

text \<open>
  The pushing part of \<open>rabbitmqx/rmq.go\<close>: the four push operations, each a core that borrows a channel,
  declares, binds, publishes and waits for the confirmation, and the retries around them. What
  the environment answers in one attempt is a record; the mutexes of queues only order the pushes of
  one queue and are left out.
\<close>

section \<open>The environment of an attempt\<close>

record push_env =
  borrowed :: "string + ChannelWrap"   \<comment> \<open>the answer of the pool, for a validated channel\<close>
  answer :: answers
  confirm :: confirm_event
  clock :: int
  map_order :: "string list"           \<comment> \<open>the order in which Go ranges over the bindings\<close>

text \<open>The cache and the broker, and the channels given back so far.\<close>

type_synonym push_state = "mq_state \<times> ChannelWrap list"

datatype push_result = Pushed | Failed string | Panicked string

definition BorrowChannel :: "push_env \<Rightarrow> string + ChannelWrap" where
  "BorrowChannel env = (case borrowed env of Inl e \<Rightarrow> Inl (''borrow channel failed: '' @ e) | Inr w \<Rightarrow> Inr w)"

definition with_channel ::
  "push_env \<Rightarrow> (ChannelWrap \<Rightarrow> mq_state \<Rightarrow> string option \<times> ChannelWrap \<times> mq_state) \<Rightarrow> push_state \<Rightarrow> push_result \<times> push_state" where
  "with_channel env work s =
     (case BorrowChannel env of
        Inl e \<Rightarrow> (Failed (''borrow channel failed: '' @ e), s)
      | Inr w \<Rightarrow>
          (case work w (fst s) of
             (err, w', m) \<Rightarrow> (case err of None \<Rightarrow> Pushed | Some e \<Rightarrow> Failed e, (m, snd s @ [w']))))"

section \<open>Messages\<close>

definition Persistent :: "8 word" where "Persistent = 2"

definition createPublishingMessage :: "int \<Rightarrow> 'a Publishing_scheme \<Rightarrow> Publishing" where
  "createPublishingMessage now p =
     (let msg = \<lparr>Headers = Headers p, ContentType = ContentType p, ContentEncoding = ContentEncoding p,
                 DeliveryMode = DeliveryMode p, Priority = Priority p, CorrelationId = [], ReplyTo = ReplyTo p,
                 Expiration = Expiration p, MessageId = MessageId p, Timestamp = now, MsgType = MsgType p,
                 UserId = UserId p, AppId = AppId p, Body = Body p\<rparr>;
          msg1 = (if DeliveryMode msg = 0 then msg\<lparr>DeliveryMode := Persistent\<rparr> else msg)
      in if ContentType msg1 = [] then msg1\<lparr>ContentType := ''text/plain''\<rparr> else msg1)"

definition publish_confirm ::
  "push_env \<Rightarrow> bool \<Rightarrow> string \<Rightarrow> string \<Rightarrow> string \<Rightarrow> Publishing \<Rightarrow> ChannelWrap \<Rightarrow> mq_state \<Rightarrow> string option \<times> ChannelWrap \<times> mq_state" where
  "publish_confirm env openConfirm refusal exchange key msg w s =
     (case amqp (answer env) (Publish exchange key msg) s of
        (Some e, s') \<Rightarrow> (Some (''publish message failed: '' @ e), w, s')
      | (None, s') \<Rightarrow>
          if openConfirm \<and> cw_openConfirm w then
            (case confirmOne (confirm env) w of (ok, w') \<Rightarrow> (if ok then None else Some refusal, w', s'))
          else (None, w, s'))"

section \<open>The cores\<close>

text \<open>The loop over the bindings of a body.\<close>

primrec bind_queues ::
  "push_env \<Rightarrow> string \<Rightarrow> string \<Rightarrow> OptionFunc list \<Rightarrow> (string, string) gomap \<Rightarrow> (string, table) gomap \<Rightarrow> string list
     \<Rightarrow> mq_state \<Rightarrow> string option \<times> mq_state" where
  "bind_queues env refusal exchange opts bindingKeys queueArgs [] s = (None, s)"
| "bind_queues env refusal exchange opts bindingKeys queueArgs (queue # rest) s =
     (case gm_get bindingKeys queue of
        None \<Rightarrow> bind_queues env refusal exchange opts bindingKeys queueArgs rest s
      | Some bindingKey \<Rightarrow>
          let tab = (case gm_get queueArgs queue of None \<Rightarrow> None | Some t \<Rightarrow> t) in
          case DeclareQueue (answer env) queue tab opts s of
            (Some e, s1) \<Rightarrow> (Some (refusal @ e), s1)
          | (None, s1) \<Rightarrow>
              (case BindQueue (answer env) exchange bindingKey queue None opts s1 of
                 (Some e, s2) \<Rightarrow> (Some (''bind queue failed: '' @ e), s2)
               | (None, s2) \<Rightarrow> bind_queues env refusal exchange opts bindingKeys queueArgs rest s2))"

definition pushQueueCore ::
  "push_env \<Rightarrow> OptionFunc list \<Rightarrow> QueuePushBody \<Rightarrow> push_state \<Rightarrow> push_result \<times> QueuePushBody \<times> push_state" where
  "pushQueueCore env opts body s =
     (case queue_Validate body of
        (Some e, body) \<Rightarrow> (Failed e, body, s)
      | (None, body) \<Rightarrow>
          (case with_channel env (\<lambda>w m.
             case DeclareQueue (answer env) (qb_QueueName body) (qb_Args body) opts m of
               (Some e, m1) \<Rightarrow> (Some (''declare queue failed: '' @ e), w, m1)
             | (None, m1) \<Rightarrow>
                 publish_confirm env (qb_OpenConfirm body) ''push not confirmed'' [] (qb_QueueName body)
                   (createPublishingMessage (clock env) body) w m1) s of
             (r, s') \<Rightarrow> (r, body, s')))"

text \<open>Once it has a channel the core replaces a map of arguments that is nil by an empty one.\<close>

definition pushExchangeCore ::
  "push_env \<Rightarrow> OptionFunc list \<Rightarrow> ExchangePushBody \<Rightarrow> push_state \<Rightarrow> push_result \<times> ExchangePushBody \<times> push_state" where
  "pushExchangeCore env opts body0 s =
     (let body1 = exchange_Validate body0;
          body = (case BorrowChannel env of
                    Inl _ \<Rightarrow> body1
                  | Inr _ \<Rightarrow> body1\<lparr>eb_QueueArgs := Some (gm_make (eb_QueueArgs body1))\<rparr>)
      in case with_channel env (\<lambda>w m.
           case DeclareExchange (answer env) (eb_ExchangeName body) (eb_ExchangeType body) (eb_ExchangeArgs body) opts m of
             (Some e, m1) \<Rightarrow> (Some (''declare exchange failed: '' @ e), w, m1)
           | (None, m1) \<Rightarrow>
               (case bind_queues env ''declare queue failed: '' (eb_ExchangeName body) opts (eb_BindingKeyMap body)
                       (eb_QueueArgs body) (map_order env) m1 of
                  (Some e, m2) \<Rightarrow> (Some e, w, m2)
                | (None, m2) \<Rightarrow>
                    publish_confirm env (eb_OpenConfirm body) ''push confirmed fail'' (eb_ExchangeName body) (eb_RoutingKey body)
                      (createPublishingMessage (clock env) body) w m2)) s of
           (r, s') \<Rightarrow> (r, body, s'))"

definition delayQueue :: "PushDelayBody \<Rightarrow> string" where
  "delayQueue body = ''potato_delay_queue:'' @ eb_ExchangeName body"

definition delay_table :: "PushDelayBody \<Rightarrow> table" where
  "delay_table body = Some [''x-dead-letter-exchange'' \<mapsto> VString (eb_ExchangeName body),
                            ''x-dead-letter-routing-key'' \<mapsto> VString (eb_RoutingKey body)]"

definition delay_message :: "int \<Rightarrow> PushDelayBody \<Rightarrow> Publishing" where
  "delay_message now body =
     (let msg = createPublishingMessage now body
      in if Expiration body = [] then msg\<lparr>Expiration := itoa (Milliseconds (DelayTime body))\<rparr> else msg)"

definition pushDelayMessageCore ::
  "push_env \<Rightarrow> OptionFunc list \<Rightarrow> PushDelayBody \<Rightarrow> push_state \<Rightarrow> push_result \<times> PushDelayBody \<times> push_state" where
  "pushDelayMessageCore env opts body s =
     (case delay_Validate body of
        (Some e, body) \<Rightarrow> (Failed e, body, s)
      | (None, body) \<Rightarrow>
          (case with_channel env (\<lambda>w m.
             case DeclareExchange (answer env) (eb_ExchangeName body) (eb_ExchangeType body) (eb_ExchangeArgs body) opts m of
               (Some e, m1) \<Rightarrow> (Some (''declare exchange failed: '' @ e), w, m1)
             | (None, m1) \<Rightarrow>
                 (case DeclareQueue (answer env) (delayQueue body) (delay_table body) [] m1 of
                    (Some e, m2) \<Rightarrow> (Some (''declare delay queue failed: '' @ e), w, m2)
                  | (None, m2) \<Rightarrow>
                      (case bind_queues env ''declare target queue failed: '' (eb_ExchangeName body) opts (eb_BindingKeyMap body)
                              (eb_QueueArgs body) (map_order env) m2 of
                         (Some e, m3) \<Rightarrow> (Some e, w, m3)
                       | (None, m3) \<Rightarrow>
                           publish_confirm env (eb_OpenConfirm body) ''push not confirmed'' [] (delayQueue body)
                             (delay_message (clock env) body) w m3))) s of
             (r, s') \<Rightarrow> (r, body, s')))"

definition push_declare ::
  "push_env \<Rightarrow> OptionFunc list \<Rightarrow> PushBody \<Rightarrow> mq_state \<Rightarrow> string option \<times> mq_state" where
  "push_declare env opts body m =
     (let exchange_part =
            (if pb_ExchangeName body \<noteq> [] then
               (case DeclareExchange (answer env) (pb_ExchangeName body) (pb_ExchangeType body) (pb_ExchangeArgs body) opts m of
                  (Some e, m1) \<Rightarrow> (Some (''declare exchange failed: '' @ e), m1)
                | (None, m1) \<Rightarrow>
                    bind_queues env ''declare queue failed: '' (pb_ExchangeName body) opts (pb_BindingKeyMap body)
                      (pb_QueueArgs body) (map_order env) m1)
             else (None, m))
      in case exchange_part of
           (Some e, m1) \<Rightarrow> (Some e, m1)
         | (None, m1) \<Rightarrow>
             if pb_QueueName body \<noteq> [] then
               (case DeclareQueue (answer env) (pb_QueueName body) (pb_Args body) opts m1 of
                  (Some e, m2) \<Rightarrow> (Some (''declare queue failed: '' @ e), m2)
                | (None, m2) \<Rightarrow> (None, m2))
             else (None, m1))"

definition pushCore ::
  "push_env \<Rightarrow> OptionFunc list \<Rightarrow> PushBody \<Rightarrow> push_state \<Rightarrow> push_result \<times> PushBody \<times> push_state" where
  "pushCore env opts body0 s =
     (let body = push_Validate body0
      in case with_channel env (\<lambda>w m.
           case push_declare env opts body m of
             (Some e, m1) \<Rightarrow> (Some e, w, m1)
           | (None, m1) \<Rightarrow>
               publish_confirm env (pb_OpenConfirm body) ''push confirmed fail'' (pb_ExchangeName body) (pb_RoutingKey body)
                 (createPublishingMessage (clock env) body) w m1) s of
           (r, s') \<Rightarrow> (r, body, s'))"

section \<open>Retries\<close>

text \<open>
  Attempt \<open>i\<close> sees the closed flag as \<open>closed_at i\<close> says, and after a failure receives the close signal,
  and not the tick, when \<open>signal i\<close> holds. A panic of an attempt is recovered by the deferred function.
\<close>

fun push_loop ::
  "(nat \<Rightarrow> bool) \<Rightarrow> (nat \<Rightarrow> bool) \<Rightarrow> (nat \<Rightarrow> 'b \<Rightarrow> 's \<Rightarrow> push_result \<times> 'b \<times> 's) \<Rightarrow> string \<Rightarrow> nat \<Rightarrow> nat \<Rightarrow> 'b \<Rightarrow> 's
     \<Rightarrow> string option \<times> 'b \<times> 's" where
  "push_loop closed_at signal push final i 0 body s = (Some final, body, s)"
| "push_loop closed_at signal push final i (Suc n) body s =
     (if closed_at i then (Some ''connection is closed'', body, s)
      else
        case push i body s of
          (Pushed, body', s') \<Rightarrow> (None, body', s')
        | (Panicked m, body', s') \<Rightarrow> (Some (''push panicked: '' @ m), body', s')
        | (Failed e, body', s') \<Rightarrow>
            if signal i then (Some ''rabbitmq connection closed'', body', s')
            else push_loop closed_at signal push final (Suc i) n body' s')"

definition pushWithRetry ::
  "('b \<Rightarrow> string) \<Rightarrow> (string \<Rightarrow> 'b \<Rightarrow> 'b) \<Rightarrow> string \<Rightarrow> MQConfig \<Rightarrow> (nat \<Rightarrow> bool) \<Rightarrow> (nat \<Rightarrow> bool)
     \<Rightarrow> (nat \<Rightarrow> 'b \<Rightarrow> 's \<Rightarrow> push_result \<times> 'b \<times> 's) \<Rightarrow> 'b \<Rightarrow> 's \<Rightarrow> string option \<times> 'b \<times> 's" where
  "pushWithRetry get_id set_id uuid config closed_at signal push body s =
     (let attempts = AttemptTimes (mq_LimitConf config);
          body1 = (if get_id body = [] then set_id (replace_char (CHR ''-'') [] uuid) body else body)
      in push_loop closed_at signal push (''push failed after '' @ itoa attempts @ '' retries'') 0 (nat attempts) body1 s)"

text \<open>The environment of each attempt is its own.\<close>

definition Push where
  "Push uuid config closed_at signal env opts =
     pushWithRetry push_GetMessageId push_SetMessageId uuid config closed_at signal (\<lambda>i. pushCore (env i) opts)"

definition PushQueue where
  "PushQueue uuid config closed_at signal env opts =
     pushWithRetry queue_GetMessageId queue_SetMessageId uuid config closed_at signal (\<lambda>i. pushQueueCore (env i) opts)"

definition PushExchange where
  "PushExchange uuid config closed_at signal env opts =
     pushWithRetry exchange_GetMessageId exchange_SetMessageId uuid config closed_at signal (\<lambda>i. pushExchangeCore (env i) opts)"

definition mq_PushDelayMessage where
  "mq_PushDelayMessage uuid config closed_at signal env opts =
     pushWithRetry delay_GetMessageId delay_SetMessageId uuid config closed_at signal (\<lambda>i. pushDelayMessageCore (env i) opts)"


section \<open>Facts\<close>

subsection \<open>What an operation adds to the calls\<close>

definition is_publish :: "amqp_call \<Rightarrow> bool" where
  "is_publish c = (case c of Publish _ _ _ \<Rightarrow> True | _ \<Rightarrow> False)"

lemma is_publish_simps [simp]:
  "is_publish (Publish e k m)" "\<not> is_publish (ExchangeDeclare x1 x2 x3 x4 x5 x6 x7)"
  "\<not> is_publish (QueueDeclare y1 y2 y3 y4 y5 y6)" "\<not> is_publish (QueueBind z1 z2 z3 z4 z5)"
  by (simp_all add: is_publish_def)

text \<open>Calls were added, none of them a publication, and the cache lost nothing.\<close>

definition only_declares :: "mq_state \<Rightarrow> mq_state \<Rightarrow> bool" where
  "only_declares s s' \<longleftrightarrow> (\<exists>new. calls s' = calls s @ new \<and> list_all (\<lambda>c. \<not> is_publish c) new) \<and> opCache s \<subseteq> opCache s'"

lemma only_declares_refl [simp]: "only_declares s s"
  by (simp add: only_declares_def)

lemma only_declares_trans: "only_declares s s' \<Longrightarrow> only_declares s' s'' \<Longrightarrow> only_declares s s''"
  unfolding only_declares_def by (auto simp: subset_iff)

lemma only_declares_cached: "\<not> is_publish c \<Longrightarrow> only_declares s (snd (declare_cached a k f c s))"
  by (auto simp: declare_cached_def amqp_def only_declares_def split: option.splits)

lemma only_declares_ops:
  "only_declares s (snd (DeclareExchange a e t args opts s))"
  "only_declares s (snd (DeclareQueue a q args opts s))"
  "only_declares s (snd (BindQueue a e k q args opts s))"
  by (simp_all add: DeclareExchange_def DeclareQueue_def BindQueue_def Let_def only_declares_cached)

lemma only_declares_bind_queues: "only_declares s (snd (bind_queues env r e opts m qa order s))"
proof (induction order arbitrary: s)
  case (Cons q order)
  show ?case
  proof (cases "gm_get m q")
    case None
    then show ?thesis using Cons.IH by simp
  next
    case (Some k)
    let ?t = "case gm_get qa q of None \<Rightarrow> None | Some t \<Rightarrow> t"
    obtain e1 s1 where d: "DeclareQueue (answer env) q ?t opts s = (e1, s1)" by force
    obtain e2 s2 where b: "BindQueue (answer env) e k q None opts s1 = (e2, s2)" by force
    have "only_declares s s1" "only_declares s1 s2"
      using only_declares_ops(2) [of s "answer env" q ?t opts] only_declares_ops(3) [of s1 "answer env" e k q None opts] d b
      by simp_all
    then show ?thesis
      using Some d b Cons.IH [of s2] by (auto intro: only_declares_trans split: option.splits)
  qed
qed simp

lemma only_declares_push_declare: "only_declares s (snd (push_declare env opts body s))"
proof -
  obtain e1 s1 where d: "DeclareExchange (answer env) (pb_ExchangeName body) (pb_ExchangeType body) (pb_ExchangeArgs body) opts s = (e1, s1)"
    by force
  obtain e2 s2 where b: "bind_queues env ''declare queue failed: '' (pb_ExchangeName body) opts (pb_BindingKeyMap body)
      (pb_QueueArgs body) (map_order env) s1 = (e2, s2)" by force
  have 1: "only_declares s s1" using only_declares_ops(1) d by (metis snd_conv)
  have 2: "only_declares s1 s2" using only_declares_bind_queues b by (metis snd_conv)
  have 3: "only_declares s' (snd (DeclareQueue (answer env) (pb_QueueName body) (pb_Args body) opts s'))" for s'
    by (rule only_declares_ops)
  show ?thesis
    using d b 1 2 3 [of s] 3 [of s2] only_declares_trans [OF 1 2]
    by (auto simp: push_declare_def split: option.splits prod.splits intro: only_declares_trans)
qed

subsection \<open>The contract of a core\<close>

text \<open>
  What one attempt did: it published at most once, with the identifier and the body it was given; if
  it reports success, the publication was its last call and was confirmed when that was asked for.
\<close>

definition of_message :: "string \<Rightarrow> string \<Rightarrow> amqp_call \<Rightarrow> bool" where
  "of_message i b c = (case c of Publish _ _ m \<Rightarrow> MessageId m = i \<and> Body m = b | _ \<Rightarrow> True)"

definition published :: "string \<Rightarrow> string \<Rightarrow> nat \<Rightarrow> bool \<Rightarrow> mq_state \<Rightarrow> mq_state \<Rightarrow> bool" where
  "published i b n success s s' \<longleftrightarrow>
     (\<exists>new. calls s' = calls s @ new \<and> length (filter is_publish new) \<le> n \<and> list_all (of_message i b) new
        \<and> (success \<longrightarrow> new \<noteq> [] \<and> is_publish (last new)))"

definition confirmed :: "bool \<Rightarrow> push_env \<Rightarrow> bool" where
  "confirmed wants env \<longleftrightarrow>
     wants \<longrightarrow> (\<forall>w. borrowed env = Inr w \<longrightarrow> cw_openConfirm w \<longrightarrow> (\<exists>t>0. confirm env = Confirmation t True))"

definition attempt_ok :: "string \<Rightarrow> string \<Rightarrow> bool \<Rightarrow> push_env \<Rightarrow> push_result \<Rightarrow> push_state \<Rightarrow> push_state \<Rightarrow> bool" where
  "attempt_ok i b wants env r s s' \<longleftrightarrow>
     published i b 1 (r = Pushed) (fst s) (fst s') \<and> (r = Pushed \<longrightarrow> confirmed wants env) \<and> (\<forall>m. r \<noteq> Panicked m)"

lemma of_message_declare: "\<not> is_publish c \<Longrightarrow> of_message i b c"
  by (cases c) (simp_all add: of_message_def)

lemma published_mono: "published i b n d s s' \<Longrightarrow> n \<le> n' \<Longrightarrow> (d' \<Longrightarrow> d) \<Longrightarrow> published i b n' d' s s'"
  unfolding published_def by (metis le_trans)

lemma published_trans:
  assumes "published i b n d s s1" and "published i b n' d' s1 s'"
  shows "published i b (n + n') d' s s'"
proof -
  obtain new where "calls s1 = calls s @ new" "length (filter is_publish new) \<le> n" "list_all (of_message i b) new"
    using assms(1) by (auto simp: published_def)
  moreover obtain new' where "calls s' = calls s1 @ new'" "length (filter is_publish new') \<le> n'" "list_all (of_message i b) new'"
      "d' \<longrightarrow> new' \<noteq> [] \<and> is_publish (last new')"
    using assms(2) by (auto simp: published_def)
  ultimately show ?thesis unfolding published_def by (intro exI [of _ "new @ new'"]) simp
qed

lemma published_declares:
  assumes "only_declares s s'"
  shows "published i b 0 False s s'"
proof -
  obtain new where new: "calls s' = calls s @ new" "list_all (\<lambda>c. \<not> is_publish c) new"
    using assms by (auto simp: only_declares_def)
  have "filter is_publish new = []" using new(2) by (simp add: list_all_iff filter_empty_conv)
  moreover have "list_all (of_message i b) new" using new(2) by (simp add: list_all_iff of_message_declare)
  ultimately show ?thesis using new(1) by (simp add: published_def)
qed

lemma attempt_failed: "only_declares (fst s) m' \<Longrightarrow> attempt_ok i b wants env (Failed e) s (m', g')"
  using published_mono [OF published_declares] by (simp add: attempt_ok_def)

lemma attempt_nothing: "attempt_ok i b wants env (Failed e) s s"
  using attempt_failed [of s "fst s" i b wants env e "snd s"] by simp

lemma publish_confirm_calls:
  "publish_confirm env wants refusal e k msg w m1 = (err, w', m') \<Longrightarrow> calls m' = calls m1 @ [Publish e k msg]"
  by (auto simp: publish_confirm_def amqp_def split: option.splits if_splits prod.splits)

lemma publish_confirmed:
  assumes "publish_confirm env wants refusal e k msg w m1 = (None, w', m')" and "wants" and "cw_openConfirm w"
  shows "\<exists>t>0. confirm env = Confirmation t True"
  using assms
  by (cases "confirm env") (auto simp: publish_confirm_def amqp_def confirmOne_def split: option.splits if_splits)

lemma publish_attempt:
  assumes "only_declares (fst s) m1" and "MessageId msg = i" and "Body msg = b"
    and "borrowed env = Inr w"
    and "publish_confirm env wants refusal e k msg w m1 = (err, w', m')"
  shows "attempt_ok i b wants env (case err of None \<Rightarrow> Pushed | Some e \<Rightarrow> Failed e) s (m', g')"
proof -
  have "published i b 1 True m1 m'"
    using publish_confirm_calls [OF assms(5)] assms(2,3) by (simp add: published_def of_message_def)
  then have "published i b 1 True (fst s) m'"
    using published_trans [OF published_declares [OF assms(1)]] by fastforce
  moreover have "err = None \<Longrightarrow> confirmed wants env"
    using publish_confirmed assms(4,5) by (auto simp: confirmed_def)
  ultimately show ?thesis by (auto simp: attempt_ok_def elim: published_mono split: option.split)
qed

lemma created_message [simp]:
  "MessageId (createPublishingMessage now p) = MessageId p" "Body (createPublishingMessage now p) = Body p"
  by (simp_all add: createPublishingMessage_def Let_def)

text \<open>A core that declares first, as \<open>decl\<close> says, and then publishes.\<close>

lemma core_attempt:
  assumes "with_channel env work s = (r, s')"
    and work: "\<And>w m. work w m = (case decl m of (Some e, m1) \<Rightarrow> (Some e, w, m1)
                 | (None, m1) \<Rightarrow> publish_confirm env wants refusal e k msg w m1)"
    and decl: "\<And>m. only_declares m (snd (decl m))"
    and msg: "MessageId msg = i" "Body msg = b"
  shows "attempt_ok i b wants env r s s'"
proof (cases "borrowed env")
  case (Inl e)
  then show ?thesis using assms(1) attempt_failed [of s "fst s" i b wants env _ "snd s"]
    by (auto simp: with_channel_def BorrowChannel_def)
next
  case (Inr w)
  obtain e1 m1 where d: "decl (fst s) = (e1, m1)" by force
  have o: "only_declares (fst s) m1" using decl [of "fst s"] d by simp
  obtain err w' m' where p: "publish_confirm env wants refusal e k msg w m1 = (err, w', m')" by (metis prod_cases3)
  show ?thesis
    using assms(1) Inr d p attempt_failed [OF o] publish_attempt [OF o msg Inr p]
    by (cases e1; cases err) (auto simp: with_channel_def BorrowChannel_def work)
qed

text \<open>What the \<open>n\<close> attempts from attempt \<open>j\<close> on did.\<close>

definition pushed :: "string \<Rightarrow> string \<Rightarrow> bool \<Rightarrow> (nat \<Rightarrow> push_env) \<Rightarrow> nat \<Rightarrow> nat \<Rightarrow> string option \<Rightarrow> push_state \<Rightarrow> push_state \<Rightarrow> bool" where
  "pushed i b w env j n err s s' \<longleftrightarrow>
     published i b n (err = None) (fst s) (fst s') \<and> (err = None \<longrightarrow> (\<exists>l\<in>{j..<j + n}. confirmed w (env l)))"

lemma pushed_one: "attempt_ok i b w (env j) r s s1 \<Longrightarrow> (err = None \<Longrightarrow> r = Pushed) \<Longrightarrow> pushed i b w env j (Suc n) err s s1"
  by (auto simp: attempt_ok_def pushed_def elim: published_mono)

lemma pushed_then: "attempt_ok i b w (env j) r s s1 \<Longrightarrow> pushed i b w env (Suc j) n err s1 s' \<Longrightarrow> pushed i b w env j (Suc n) err s s'"
  unfolding attempt_ok_def pushed_def using published_trans [where n = 1 and n' = n] by fastforce

lemma pushed_nothing: "pushed i b w env j n (Some e) s s"
  by (simp add: pushed_def published_def)

text \<open>A body, and an attempt to push one; the retries need no more than this.\<close>

locale push_body =
  fixes get_id :: "'b \<Rightarrow> string" and set_id :: "string \<Rightarrow> 'b \<Rightarrow> 'b" and get_body :: "'b \<Rightarrow> string"
  assumes get_set [simp]: "get_id (set_id i b) = i"
    and body_set [simp]: "get_body (set_id i b) = get_body b"

locale push_core = push_body +
  fixes wants :: "'a \<Rightarrow> bool" and core :: "push_env \<Rightarrow> 'a \<Rightarrow> push_state \<Rightarrow> push_result \<times> 'a \<times> push_state"
  assumes wants_set [simp]: "wants (set_id i b) = wants b"
    and keeps_body: "core env b s = (r, b', s') \<Longrightarrow> get_id b' = get_id b \<and> get_body b' = get_body b \<and> wants b' = wants b"
    and attempt: "core env b s = (r, b', s') \<Longrightarrow> attempt_ok (get_id b) (get_body b) (wants b) env r s s'"
begin

lemma loop:
  "push_loop closed_at signal (\<lambda>i. core (env i)) final j n b s = (err, b', s') \<Longrightarrow>
   pushed (get_id b) (get_body b) (wants b) env j n err s s' \<and> get_id b' = get_id b"
proof (induction n arbitrary: j b s)
  case 0
  then show ?case by (auto simp: pushed_nothing)
next
  case (Suc n)
  obtain r b1 s1 where step: "core (env j) b s = (r, b1, s1)" by (metis prod_cases3)
  note k = keeps_body [OF step] and a = attempt [OF step]
  have np: "r \<noteq> Panicked m" for m using a by (simp add: attempt_ok_def)
  show ?case
  proof (cases "closed_at j \<or> r = Pushed \<or> signal j")
    case True
    then show ?thesis
      using Suc.prems step np k pushed_one [where env = env and j = j, OF a, of err n]
      by (cases r) (auto simp: pushed_nothing split: if_splits)
  next
    case False
    then have "push_loop closed_at signal (\<lambda>i. core (env i)) final (Suc j) n b1 s1 = (err, b', s')"
      using Suc.prems step np by (cases r) auto
    from Suc.IH [OF this] k show ?thesis using pushed_then [where env = env and j = j, OF a] by simp
  qed
qed

lemma with_retry:
  assumes "pushWithRetry get_id set_id uuid config closed_at signal (\<lambda>i. core (env i)) b s = (err, b', s')"
  shows "pushed (get_id b') (get_body b) (wants b) env 0 (nat (AttemptTimes (mq_LimitConf config))) err s s'"
    and "get_id b' = (if get_id b = [] then replace_char (CHR ''-'') [] uuid else get_id b)"
proof -
  let ?b = "if get_id b = [] then set_id (replace_char (CHR ''-'') [] uuid) b else b"
  have "get_body ?b = get_body b" "wants ?b = wants b" by simp_all
  with loop [OF assms [unfolded pushWithRetry_def Let_def]]
  show "pushed (get_id b') (get_body b) (wants b) env 0 (nat (AttemptTimes (mq_LimitConf config))) err s s'"
    and "get_id b' = (if get_id b = [] then replace_char (CHR ''-'') [] uuid else get_id b)"
    by (auto split: if_splits)
qed

end

subsection \<open>The four cores keep the contract\<close>

lemma only_declares_case:
  assumes "\<And>m. only_declares m (snd (f m))" and "\<And>m. only_declares m (snd (g m))"
  shows "only_declares m (snd (case f m of (Some e, m1) \<Rightarrow> (Some (p @ e), m1) | (None, m1) \<Rightarrow> g m1))"
proof -
  obtain e1 m1 where f: "f m = (e1, m1)" by force
  have "only_declares m m1" using assms(1) [of m] f by simp
  then show ?thesis using f assms(2) [of m1] only_declares_trans by (cases e1) auto
qed

lemma queue_core_attempt:
  assumes "pushQueueCore env opts b s = (r, b', s')"
  shows "b' = b" "attempt_ok (MessageId b) (Body b) (qb_OpenConfirm b) env r s s'"
proof -
  let ?decl = "\<lambda>m. case DeclareQueue (answer env) (qb_QueueName b) (qb_Args b) opts m of
      (Some e, m1) \<Rightarrow> (Some (''declare queue failed: '' @ e), m1) | (None, m1) \<Rightarrow> (None, m1)"
  obtain err v where v: "queue_Validate b = (err, v)" by force
  have vb: "v = b" using v by (auto simp: queue_Validate_def split: if_splits)
  show "b' = b" using assms v vb by (auto simp: pushQueueCore_def split: option.splits prod.splits)
  have d: "only_declares m (snd (?decl m))" for m
    by (rule only_declares_case [where g = "\<lambda>m. (None, m)"]) (simp_all add: only_declares_ops)
  show "attempt_ok (MessageId b) (Body b) (qb_OpenConfirm b) env r s s'"
  proof (cases err)
    case (Some e)
    then show ?thesis using assms v by (auto simp: pushQueueCore_def attempt_nothing)
  next
    case None
    then show ?thesis
      using assms v vb
      by (auto simp: pushQueueCore_def split: prod.splits intro!: core_attempt [OF _ _ d] split: option.splits)
  qed
qed

interpretation pq: push_core queue_GetMessageId queue_SetMessageId queue_GetBody qb_OpenConfirm "\<lambda>env. pushQueueCore env opts" for opts
  by unfold_locales (auto simp: queue_GetMessageId_def queue_SetMessageId_def queue_GetBody_def dest: queue_core_attempt)

lemma push_core_attempt:
  assumes "pushCore env opts b s = (r, b', s')"
  shows "b' = push_Validate b" "attempt_ok (MessageId b) (Body b) (pb_OpenConfirm b) env r s s'"
proof -
  show "b' = push_Validate b" using assms by (auto simp: pushCore_def Let_def split: prod.splits)
  have v: "MessageId (push_Validate b) = MessageId b" "Body (push_Validate b) = Body b"
      "pb_OpenConfirm (push_Validate b) = pb_OpenConfirm b"
    by (simp_all add: push_Validate_def Let_def)
  have "attempt_ok (MessageId (push_Validate b)) (Body (push_Validate b)) (pb_OpenConfirm (push_Validate b)) env r s s'"
    using assms
    by (auto simp: pushCore_def Let_def split: prod.splits
        intro!: core_attempt [OF _ _ only_declares_push_declare [of _ env opts "push_Validate b"]])
  then show "attempt_ok (MessageId b) (Body b) (pb_OpenConfirm b) env r s s'" by (simp add: v)
qed

interpretation pp: push_core push_GetMessageId push_SetMessageId push_GetBody pb_OpenConfirm "\<lambda>env. pushCore env opts" for opts
proof unfold_locales
  fix env b r b' s s'
  assume "pushCore env opts b s = (r, b', s')"
  note c = push_core_attempt [OF this]
  show "push_GetMessageId b' = push_GetMessageId b \<and> push_GetBody b' = push_GetBody b \<and> pb_OpenConfirm b' = pb_OpenConfirm b"
    by (simp add: c(1) push_GetMessageId_def push_GetBody_def push_Validate_def Let_def)
  show "attempt_ok (push_GetMessageId b) (push_GetBody b) (pb_OpenConfirm b) env r s s'"
    using c(2) by (simp add: push_GetMessageId_def push_GetBody_def)
qed (simp_all add: push_GetMessageId_def push_SetMessageId_def push_GetBody_def)

lemma exchange_Validate_keeps:
  "MessageId (exchange_Validate b) = MessageId b" "Body (exchange_Validate b) = Body b"
  "eb_OpenConfirm (exchange_Validate b) = eb_OpenConfirm b"
  by (simp_all add: exchange_Validate_def Let_def)

lemma exchange_core_attempt:
  assumes "pushExchangeCore env opts b s = (r, b', s')"
  shows "MessageId b' = MessageId b" "Body b' = Body b" "eb_OpenConfirm b' = eb_OpenConfirm b"
    "attempt_ok (MessageId b) (Body b) (eb_OpenConfirm b) env r s s'"
proof -
  have b': "b' = (case BorrowChannel env of Inl _ \<Rightarrow> exchange_Validate b
      | Inr _ \<Rightarrow> (exchange_Validate b)\<lparr>eb_QueueArgs := Some (gm_make (eb_QueueArgs (exchange_Validate b)))\<rparr>)"
    using assms by (auto simp: pushExchangeCore_def Let_def split: prod.splits)
  show k: "MessageId b' = MessageId b" "Body b' = Body b" "eb_OpenConfirm b' = eb_OpenConfirm b"
    by (simp_all add: b' exchange_Validate_keeps split: sum.splits)
  let ?decl = "\<lambda>m. case DeclareExchange (answer env) (eb_ExchangeName b') (eb_ExchangeType b') (eb_ExchangeArgs b') opts m of
      (Some e, m1) \<Rightarrow> (Some (''declare exchange failed: '' @ e), m1)
    | (None, m1) \<Rightarrow> bind_queues env ''declare queue failed: '' (eb_ExchangeName b') opts (eb_BindingKeyMap b')
          (eb_QueueArgs b') (map_order env) m1"
  have d: "only_declares m (snd (?decl m))" for m
    by (rule only_declares_case) (rule only_declares_ops only_declares_bind_queues)+
  show "attempt_ok (MessageId b) (Body b) (eb_OpenConfirm b) env r s s'"
    using assms unfolding pushExchangeCore_def Let_def b' [symmetric]
    by (auto simp: k [symmetric] split: prod.splits intro!: core_attempt [OF _ _ d] split: option.splits)
qed

interpretation pe: push_core exchange_GetMessageId exchange_SetMessageId exchange_GetBody eb_OpenConfirm "\<lambda>env. pushExchangeCore env opts" for opts
  by unfold_locales
    (auto simp: exchange_GetMessageId_def exchange_SetMessageId_def exchange_GetBody_def dest: exchange_core_attempt)

lemma delay_core_attempt:
  assumes "pushDelayMessageCore env opts b s = (r, b', s')"
  shows "MessageId b' = MessageId b" "Body b' = Body b" "eb_OpenConfirm b' = eb_OpenConfirm b"
    "attempt_ok (MessageId b) (Body b) (eb_OpenConfirm b) env r s s'"
proof -
  obtain err v where v: "delay_Validate b = (err, v)" by force
  have vk: "MessageId v = MessageId b" "Body v = Body b" "eb_OpenConfirm v = eb_OpenConfirm b"
    using v by (auto simp: delay_Validate_def exchange_Validate_keeps split: if_splits)
  have b': "b' = v" using assms v by (auto simp: pushDelayMessageCore_def split: option.splits prod.splits)
  show "MessageId b' = MessageId b" "Body b' = Body b" "eb_OpenConfirm b' = eb_OpenConfirm b" by (simp_all add: b' vk)
  let ?bind = "bind_queues env ''declare target queue failed: '' (eb_ExchangeName v) opts (eb_BindingKeyMap v)
          (eb_QueueArgs v) (map_order env)"
  let ?delay = "\<lambda>m. case DeclareQueue (answer env) (delayQueue v) (delay_table v) [] m of
      (Some e, m1) \<Rightarrow> (Some (''declare delay queue failed: '' @ e), m1) | (None, m1) \<Rightarrow> ?bind m1"
  let ?decl = "\<lambda>m. case DeclareExchange (answer env) (eb_ExchangeName v) (eb_ExchangeType v) (eb_ExchangeArgs v) opts m of
      (Some e, m1) \<Rightarrow> (Some (''declare exchange failed: '' @ e), m1) | (None, m1) \<Rightarrow> ?delay m1"
  have d1: "only_declares m (snd (?delay m))" for m
    by (rule only_declares_case) (rule only_declares_ops only_declares_bind_queues)+
  have d: "only_declares m (snd (?decl m))" for m
    by (rule only_declares_case [where g = ?delay]) (rule only_declares_ops d1)+
  show "attempt_ok (MessageId b) (Body b) (eb_OpenConfirm b) env r s s'"
  proof (cases err)
    case (Some e)
    then show ?thesis using assms v by (auto simp: pushDelayMessageCore_def attempt_nothing)
  next
    case None
    then show ?thesis
      using assms v
      by (auto simp: pushDelayMessageCore_def vk [symmetric] split: prod.splits
          intro!: core_attempt [OF _ _ d] split: option.splits) (simp_all add: delay_message_def Let_def)
  qed
qed

interpretation pd: push_core delay_GetMessageId delay_SetMessageId delay_GetBody eb_OpenConfirm "\<lambda>env. pushDelayMessageCore env opts" for opts
  by unfold_locales
    (auto simp: delay_GetMessageId_def delay_SetMessageId_def delay_GetBody_def dest: delay_core_attempt)

subsection \<open>Properties\<close>


definition demo_env :: "push_env" where
  "demo_env = \<lparr>borrowed = Inl ''pool exhausted'', answer = all_ok, confirm = ConfirmTimeout, clock = 0, map_order = []\<rparr>"

definition demo_queue_body :: QueuePushBody where
  "demo_queue_body = \<lparr>Headers = None, ContentType = [], ContentEncoding = [], DeliveryMode = 0, Priority = 0,
     CorrelationId = ''c1'', ReplyTo = ''r'', Expiration = [], MessageId = [], Timestamp = 0, MsgType = [],
     UserId = [], AppId = [], Body = ''x'', qb_OpenConfirm = False, qb_ConfirmedByOrder = False,
     qb_QueueName = ''jobs'', qb_Args = None\<rparr>"

definition demo_env_ok :: "push_env" where
  "demo_env_ok = demo_env\<lparr>borrowed := Inr demo_wrap\<rparr>"

lemma demo_push_queue:
  "PushQueue ''a-b'' demo_config (\<lambda>_. False) (\<lambda>_. False) (\<lambda>i. if i = 0 then demo_env else demo_env_ok) [] demo_queue_body (demo_state, [])
     = (None, demo_queue_body\<lparr>MessageId := ''ab''\<rparr>,
        (demo_state\<lparr>opCache := {queue_key ''jobs''},
           calls := [QueueDeclare ''jobs'' True False False False None,
                     Publish [] ''jobs'' (createPublishingMessage 0 (demo_queue_body\<lparr>MessageId := ''ab''\<rparr>))],
           the_broker := \<lparr>exchanges = {}, queues = {''jobs''}, bindings = {}\<rparr>\<rparr>, [demo_wrap]))"
  by (simp add: PushQueue_def pushWithRetry_def demo_config_def queue_GetMessageId_def queue_SetMessageId_def
      demo_queue_body_def pushQueueCore_def queue_Validate_def with_channel_def BorrowChannel_def demo_env_def demo_env_ok_def
      DeclareQueue_def declare_cached_def zero_Options_def publish_confirm_def demo_state_def all_ok_def amqp_def
      eval_nat_numeral Let_def)


text \<open>
  The message that goes out has the fields of the body, persistent and plain text by default and with
  the current time, and a delayed message expires after its delay unless it has an expiration of its
  own. The correlation identifier of the body is lost.
\<close>

theorem published_message:
  "createPublishingMessage now p = Publishing.truncate p \<lparr>Timestamp := now, CorrelationId := [],
      DeliveryMode := (if DeliveryMode p = 0 then Persistent else DeliveryMode p),
      ContentType := (if ContentType p = [] then ''text/plain'' else ContentType p)\<rparr>
   \<and> delay_message now d = (createPublishingMessage now d)\<lparr>Expiration :=
        (if Expiration d = [] then itoa (Milliseconds (DelayTime d)) else Expiration d)\<rparr>
   \<and> (fst (delay_Validate d) = None \<longrightarrow> Expiration (delay_message now d) \<noteq> [])"
  by (cases p) (auto simp: createPublishingMessage_def delay_message_def delay_Validate_def Let_def Publishing.defs itoa_def)

definition demo_delay :: PushDelayBody where
  "demo_delay = \<lparr>Headers = None, ContentType = [], ContentEncoding = [], DeliveryMode = 0, Priority = 0,
     CorrelationId = ''c1'', ReplyTo = ''r'', Expiration = [], MessageId = [], Timestamp = 0, MsgType = [],
     UserId = [], AppId = [], Body = ''x'', eb_OpenConfirm = False, eb_ConfirmedByOrder = False,
     eb_ExchangeName = ''ex'', eb_ExchangeType = Direct, eb_ExchangeArgs = None, eb_RoutingKey = ''k1'',
     eb_BindingKeyMap = None, eb_QueueArgs = None, DelayTime = 5000000000\<rparr>"

theorem published_message_witness:
  "Expiration (delay_message 7 demo_delay) \<noteq> []"
proof -
  have "fst (delay_Validate demo_delay) = None" by (simp add: demo_delay_def delay_Validate_def)
  with published_message [of 7 demo_queue_body demo_delay] show ?thesis by blast
qed

lemma declare_cached_success:
  "declare_cached a key False c s = (None, s') \<Longrightarrow> key \<in> opCache s' \<and> (key \<notin> opCache s \<longrightarrow> c \<in> set (calls s'))"
  by (auto simp: declare_cached_def amqp_def split: if_splits option.splits)

lemma plain_declares:
  "DeclareExchange a e kind args [] s = declare_cached a (exchange_key e) False (ExchangeDeclare e kind True False False False args) s"
  "DeclareQueue a q args [] s = declare_cached a (queue_key q) False (QueueDeclare q True False False False args) s"
  by (simp_all add: DeclareExchange_def DeclareQueue_def zero_Options_def)

lemma exchange_Validate_delay:
  "eb_ExchangeName (exchange_Validate b) = eb_ExchangeName b" "eb_RoutingKey (exchange_Validate b) = eb_RoutingKey b"
  "eb_BindingKeyMap (exchange_Validate b) = map_option fill_binding_keys (eb_BindingKeyMap b)"
  by (simp_all add: exchange_Validate_def Let_def)

lemma delay_names:
  "delayQueue (exchange_Validate b) = delayQueue b" "delay_table (exchange_Validate b) = delay_table b"
  by (simp_all add: delayQueue_def delay_table_def exchange_Validate_delay)

lemma bind_queues_none: "bind_queues env r e opts None qa order s = (None, s)"
  by (induction order) auto

lemma delay_push_declares:
  assumes "pushDelayMessageCore env [] b s = (Pushed, b', s1)" and "queue_key (delayQueue b) \<notin> opCache (fst s)"
  shows "exchange_key (eb_ExchangeName b) \<in> opCache (fst s1)" "queue_key (delayQueue b) \<in> opCache (fst s1)"
    "QueueDeclare (delayQueue b) True False False False (delay_table b) \<in> set (calls (fst s1))"
proof -
  let ?v = "exchange_Validate b"
  have val: "delay_Validate b = (None, ?v)"
    using assms(1) by (auto simp: pushDelayMessageCore_def delay_Validate_def split: if_splits)
  obtain w where w: "borrowed env = Inr w"
    using assms(1) val by (auto simp: pushDelayMessageCore_def with_channel_def BorrowChannel_def split: sum.splits)
  obtain e1 m1 where d1: "DeclareExchange (answer env) (eb_ExchangeName ?v) (eb_ExchangeType ?v) (eb_ExchangeArgs ?v) [] (fst s) = (e1, m1)" by force
  obtain e2 m2 where d2: "DeclareQueue (answer env) (delayQueue ?v) (delay_table ?v) [] m1 = (e2, m2)" by force
  obtain e3 m3 where d3: "bind_queues env ''declare target queue failed: '' (eb_ExchangeName ?v) [] (eb_BindingKeyMap ?v)
      (eb_QueueArgs ?v) (map_order env) m2 = (e3, m3)" by force
  obtain e4 w4 m4 where p: "publish_confirm env (eb_OpenConfirm ?v) ''push not confirmed'' [] (delayQueue ?v)
      (delay_message (clock env) ?v) w m3 = (e4, w4, m4)" by (metis prod_cases3)
  have none: "e1 = None" "e2 = None" "e3 = None" and s1: "fst s1 = m4"
    using assms(1) val w d1 d2 d3 p
    by (auto simp: pushDelayMessageCore_def with_channel_def BorrowChannel_def split: option.splits)
  note c1 = declare_cached_success [OF d1 [unfolded plain_declares none(1)]]
  note c2 = declare_cached_success [OF d2 [unfolded plain_declares none(2)]]
  have "only_declares m1 m2" using only_declares_ops(2) d2 by (metis snd_conv)
  moreover have m3: "only_declares m2 m3" using only_declares_bind_queues d3 by (metis snd_conv)
  moreover have m4: "opCache m4 = opCache m3" "set (calls m3) \<subseteq> set (calls m4)"
    using p publish_confirm_calls [OF p] by (auto simp: publish_confirm_def amqp_def split: option.splits if_splits prod.splits)
  ultimately show "exchange_key (eb_ExchangeName b) \<in> opCache (fst s1)" "queue_key (delayQueue b) \<in> opCache (fst s1)"
    using c1 c2 by (auto simp: s1 only_declares_def delay_names exchange_Validate_delay)
  have "queue_key (delayQueue b) \<notin> opCache m1"
    using assms(2) d1 none(1) by (auto simp: plain_declares declare_cached_def amqp_def split: if_splits option.splits)
  then show "QueueDeclare (delayQueue b) True False False False (delay_table b) \<in> set (calls (fst s1))"
    using c2 m3 m4(2) by (auto simp: s1 only_declares_def delay_names)
qed

text \<open>
  Delayed messages of one exchange share one queue, which forwards what expires under the routing key
  it was first declared with. After a delayed push that succeeds, another one to the same exchange
  declares nothing, whatever its routing key, and its publication does not carry that key either: it
  arrives under the first one.
\<close>

theorem delay_routing_key_fixed:
  assumes "pushDelayMessageCore env [] b s = (Pushed, b', s1)" and "queue_key (delayQueue b) \<notin> opCache (fst s)"
    and "eb_ExchangeName c = eb_ExchangeName b" and "eb_BindingKeyMap c = None" and "DelayTime c \<noteq> 0"
    and "borrowed env' = Inr w"
  shows "QueueDeclare (delayQueue b) True False False False (delay_table b) \<in> set (calls (fst s1))
     \<and> calls (fst (snd (snd (pushDelayMessageCore env' [] c s1)))) =
         calls (fst s1) @ [Publish [] (delayQueue b) (delay_message (clock env') (exchange_Validate c))]"
proof
  note d = delay_push_declares [OF assms(1,2)]
  show "QueueDeclare (delayQueue b) True False False False (delay_table b) \<in> set (calls (fst s1))" by (rule d(3))
  have q: "delayQueue c = delayQueue b" using assms(3) by (simp add: delayQueue_def)
  have ex: "DeclareExchange a (eb_ExchangeName c) kind args [] (fst s1) = (None, fst s1)" for a kind args
    using d(1) assms(3) by (simp add: plain_declares declare_cached_def)
  have qu: "DeclareQueue a (delayQueue b) args [] (fst s1) = (None, fst s1)" for a args
    using d(2) by (simp add: plain_declares declare_cached_def)
  obtain e4 w4 m4 where p: "publish_confirm env' (eb_OpenConfirm (exchange_Validate c)) ''push not confirmed'' [] (delayQueue b)
      (delay_message (clock env') (exchange_Validate c)) w (fst s1) = (e4, w4, m4)" by (metis prod_cases3)
  show "calls (fst (snd (snd (pushDelayMessageCore env' [] c s1)))) =
         calls (fst s1) @ [Publish [] (delayQueue b) (delay_message (clock env') (exchange_Validate c))]"
    using assms(4-6) publish_confirm_calls [OF p] p
    by (simp add: pushDelayMessageCore_def delay_Validate_def with_channel_def BorrowChannel_def exchange_Validate_delay
        delay_names ex qu bind_queues_none q)
qed

theorem delay_routing_key_fixed_witness:
  "\<exists>s1 m. pushDelayMessageCore demo_env_ok [] demo_delay (demo_state, []) = (Pushed, exchange_Validate demo_delay, s1)
     \<and> calls (fst (snd (snd (pushDelayMessageCore demo_env_ok [] (demo_delay\<lparr>eb_RoutingKey := ''k2''\<rparr>) s1)))) =
         calls (fst s1) @ [Publish [] ''potato_delay_queue:ex'' m]"
proof -
  obtain s1 where p: "pushDelayMessageCore demo_env_ok [] demo_delay (demo_state, []) = (Pushed, exchange_Validate demo_delay, s1)"
    by (simp add: pushDelayMessageCore_def delay_Validate_def exchange_Validate_def with_channel_def BorrowChannel_def
        demo_env_ok_def demo_env_def demo_delay_def plain_declares declare_cached_def demo_state_def all_ok_def
        publish_confirm_def Direct_def bind_queues_none)
  show ?thesis
    using p delay_routing_key_fixed [OF p, of "demo_delay\<lparr>eb_RoutingKey := ''k2''\<rparr>" demo_env_ok demo_wrap]
    by (intro exI [of _ s1]) (simp add: demo_delay_def demo_state_def demo_env_ok_def delayQueue_def)
qed

end
