(* ===== verification/Rabbit_Consume.thy ===== *)
theory Rabbit_Consume
  imports Rabbit_Push "HOL-Library.Sublist"
begin

text \<open>
  The consuming part of \<open>rabbitmqx/rmq.go\<close>: \<open>consumeCore\<close>, the goroutine that \<open>Consume\<close> starts as a machine over
  what its \<open>select\<close> statements receive, and \<open>CancelQueue\<close>.
\<close>

section \<open>Starting to consume\<close>

text \<open>
  The environment is that of a push; \<open>evs\<close> and \<open>chan_err\<close> are for \<open>recheck\<close>. The wrapper is returned in the
  state it is left in; a wrapper from before is closed and given up first.
\<close>

definition consume_calls :: "push_env \<Rightarrow> string \<Rightarrow> 64 word \<Rightarrow> ConsumeBody \<Rightarrow> mq_state \<Rightarrow> string result \<times> 64 word \<times> mq_state" where
  "consume_calls env cmd seq param m =
     (case DeclareQueue (answer env) (cb_QueueName param) (cb_QueueArgs param) [] m of
        (Some e, m1) \<Rightarrow> (Err e, seq, m1)
      | (None, m1) \<Rightarrow>
          (case (if cb_ExchangeName param \<noteq> []
                 then BindQueue (answer env) (cb_ExchangeName param) (cb_RoutingKey param) (cb_QueueName param) None [] m1
                 else (None, m1)) of
             (Some e, m2) \<Rightarrow> (Err e, seq, m2)
           | (None, m2) \<Rightarrow>
               (case amqp (answer env) (Qos (cb_FetchCount param)) m2 of
                  (Some e, m3) \<Rightarrow> (Err e, seq, m3)
                | (None, m3) \<Rightarrow>
                    let args = (if cb_XPriority param \<noteq> 0 then Some [''x-priority'' \<mapsto> VUint8 (cb_XPriority param)] else None);
                        (tag, seq') = commandNameBasedUniqueConsumerTag cmd seq
                    in case amqp (answer env) (StartConsume (cb_QueueName param) tag (cb_AutoAck param) args) m3 of
                         (Some e, m4) \<Rightarrow> (Err e, seq', m4)
                       | (None, m4) \<Rightarrow> (Ok tag, seq', m4))))"

definition consumeCore ::
  "push_env \<Rightarrow> rc_event list \<Rightarrow> string option \<Rightarrow> string \<Rightarrow> 64 word \<Rightarrow> ConsumeBody \<Rightarrow> ChannelWrap option \<Rightarrow> RabbitMQOperator \<Rightarrow> push_state
     \<Rightarrow> string result \<times> 64 word \<times> ConsumeBody \<times> ChannelWrap option \<times> RabbitMQOperator \<times> push_state" where
  "consumeCore env evs chan_err cmd seq param wrap op s =
     (if \<not> isReady op then (Err ''connection is not ready'', seq, param, wrap, op, s)
      else
        let s1 = (case wrap of None \<Rightarrow> s | Some w \<Rightarrow> (fst s, snd s @ [ChannelWrap_Close w])) in
        case BorrowChannel env of
          Inl e \<Rightarrow> (Err e, seq, param, None, op, s1)
        | Inr w \<Rightarrow>
            (case recheck evs chan_err (w\<lparr>cw_isConsumer := True\<rparr>) op of
               (Ok _, w', op') \<Rightarrow>
                 let param' = (if cb_FetchCount param = 0
                               then param\<lparr>cb_FetchCount := PrefetchCount (mq_LimitConf (op_config op'))\<rparr> else param) in
                 (case consume_calls env cmd seq param' (fst s1) of
                    (r, seq', m) \<Rightarrow> (r, seq', param', Some w', op', (m, snd s1)))
             | (Err e, w', op') \<Rightarrow> (Err e, seq, param, Some w', op', s1)
             | (Panic, w', op') \<Rightarrow> (Panic, seq, param, Some w', op', s1)
             | (Waiting, w', op') \<Rightarrow> (Waiting, seq, param, Some w', op', s1)))"

section \<open>Cancel channels\<close>

text \<open>A channel is known by the number of its allocation; a closed one is in \<open>closed_chans\<close>.\<close>

record registry =
  cancelChan :: "string \<rightharpoonup> nat"
  closed_chans :: "nat set"
  made_chans :: nat

definition register :: "string \<Rightarrow> registry \<Rightarrow> nat \<times> registry" where
  "register queue r =
     (case cancelChan r queue of
        Some ch \<Rightarrow> (ch, r)
      | None \<Rightarrow> (made_chans r, r\<lparr>cancelChan := (cancelChan r)(queue \<mapsto> made_chans r), made_chans := Suc (made_chans r)\<rparr>))"

text \<open>The signal of \<open>CancelQueue\<close>; what follows there is waiting for the entry to go, with no effect and no error.\<close>

definition CancelQueue :: "string \<Rightarrow> registry \<Rightarrow> registry" where
  "CancelQueue queue r =
     (case cancelChan r queue of
        None \<Rightarrow> r
      | Some ch \<Rightarrow> if ch \<in> closed_chans r then r else r\<lparr>closed_chans := insert ch (closed_chans r)\<rparr>)"

definition CompareAndDelete :: "string \<Rightarrow> nat \<Rightarrow> registry \<Rightarrow> registry" where
  "CompareAndDelete queue ch r =
     (if cancelChan r queue = Some ch then r\<lparr>cancelChan := (cancelChan r)(queue := None)\<rparr> else r)"

section \<open>The goroutine of a consumer\<close>

record Delivery =
  dl_MessageId :: string
  dl_Body :: string

datatype consumer_phase = Process | RetryPause | Receiving | Handing Delivery | Exited

datatype consumer_event =
    Reconsumed bool          \<comment> \<open>the result of \<open>consumeCore\<close>\<close>
  | OpClosed
  | CancelSignal
  | ChannelLost
  | Item Delivery
  | Handed                   \<comment> \<open>the reader took the item\<close>
  | ConsumerTick
  | CancelCalled string      \<comment> \<open>someone calls \<open>CancelQueue\<close>\<close>

record consumer =
  cphase :: consumer_phase
  contents :: "Delivery list"
  contents_closed :: bool
  channel_given_up :: bool
  reg :: registry
  valueCh :: nat

text \<open>The deferred function, which every exit runs.\<close>

definition consumer_exit :: "string \<Rightarrow> consumer \<Rightarrow> consumer" where
  "consumer_exit queue c =
     c\<lparr>cphase := Exited, channel_given_up := True, reg := CompareAndDelete queue (valueCh c) (reg c), contents_closed := True\<rparr>"

definition consumer_step :: "string \<Rightarrow> consumer_event \<Rightarrow> consumer \<Rightarrow> consumer" where
  "consumer_step queue ev c =
     (let cancelled = (valueCh c \<in> closed_chans (reg c)) in
      case ev of
        CancelCalled q \<Rightarrow> c\<lparr>reg := CancelQueue q (reg c)\<rparr>
      | _ \<Rightarrow>
        (case cphase c of
           Process \<Rightarrow>
             (case ev of Reconsumed ok \<Rightarrow> c\<lparr>cphase := (if ok then Receiving else RetryPause)\<rparr> | _ \<Rightarrow> c)
         | RetryPause \<Rightarrow>
             (case ev of
                OpClosed \<Rightarrow> consumer_exit queue c
              | CancelSignal \<Rightarrow> if cancelled then consumer_exit queue c else c
              | ConsumerTick \<Rightarrow> c\<lparr>cphase := Process\<rparr>
              | _ \<Rightarrow> c)
         | Receiving \<Rightarrow>
             (case ev of
                OpClosed \<Rightarrow> consumer_exit queue c
              | CancelSignal \<Rightarrow>
                  if cancelled then
                    consumer_exit queue (c\<lparr>reg := (reg c)\<lparr>cancelChan := (cancelChan (reg c))(queue := None)\<rparr>\<rparr>)
                  else c
              | ChannelLost \<Rightarrow> c\<lparr>cphase := Process\<rparr>
              | Item item \<Rightarrow> if dl_Body item = [] then c else c\<lparr>cphase := Handing item\<rparr>
              | _ \<Rightarrow> c)
         | Handing item \<Rightarrow>
             (case ev of
                OpClosed \<Rightarrow> consumer_exit queue c
              | ChannelLost \<Rightarrow> c\<lparr>cphase := Process\<rparr>
              | Handed \<Rightarrow> c\<lparr>cphase := Receiving, contents := contents c @ [item]\<rparr>
              | _ \<Rightarrow> c)
         | Exited \<Rightarrow> c))"

definition consumer_start :: "string \<Rightarrow> registry \<Rightarrow> consumer" where
  "consumer_start queue r =
     (case register queue r of (ch, r') \<Rightarrow>
        \<lparr>cphase = Receiving, contents = [], contents_closed = False, channel_given_up = False, reg = r', valueCh = ch\<rparr>)"

definition consumer_run :: "string \<Rightarrow> consumer_event list \<Rightarrow> consumer \<Rightarrow> consumer" where
  "consumer_run queue evs c = fold (consumer_step queue) evs c"


section \<open>Facts\<close>

lemma consumer_run_simps [simp]:
  "consumer_run q [] c = c" "consumer_run q (ev # evs) c = consumer_run q evs (consumer_step q ev c)"
  by (simp_all add: consumer_run_def)

text \<open>The items with a body among the events.\<close>

definition items :: "consumer_event list \<Rightarrow> Delivery list" where
  "items evs = [d. Item d \<leftarrow> evs, dl_Body d \<noteq> []]"

lemma items_simps [simp]:
  "items [] = []" "items (Item d # evs) = (if dl_Body d = [] then items evs else d # items evs)"
  by (simp_all add: items_def)

text \<open>What has been handed over and is in hand.\<close>

definition in_hand :: "consumer \<Rightarrow> Delivery list" where
  "in_hand c = (case cphase c of Handing d \<Rightarrow> [d] | _ \<Rightarrow> [])"

lemma step_items: "subseq (contents (consumer_step q ev c) @ in_hand (consumer_step q ev c)) (contents c @ in_hand c @ items [ev])"
proof (cases "cphase c")
  case (Handing d)
  then show ?thesis
    by (cases ev) (auto simp: consumer_step_def in_hand_def consumer_exit_def items_def Let_def)
qed (cases ev; auto simp: consumer_step_def in_hand_def consumer_exit_def items_def Let_def)+

lemma run_items: "subseq (contents (consumer_run q evs c) @ in_hand (consumer_run q evs c)) (contents c @ in_hand c @ items evs)"
proof (induction evs arbitrary: c)
  case (Cons ev evs)
  have i: "items (ev # evs) = items [ev] @ items evs" by (cases ev) (simp_all add: items_def)
  have "subseq (contents (consumer_run q (ev # evs) c) @ in_hand (consumer_run q (ev # evs) c))
      ((contents (consumer_step q ev c) @ in_hand (consumer_step q ev c)) @ items evs)"
    using Cons.IH [of "consumer_step q ev c"] by simp
  also have "subseq \<dots> ((contents c @ in_hand c @ items [ev]) @ items evs)"
    by (rule list_emb_append_mono [OF step_items]) simp
  finally show ?case by (simp add: i)
qed simp

lemma run_smooth:
  "cphase c = Receiving \<Longrightarrow> consumer_run q (concat (map (\<lambda>d. if dl_Body d = [] then [Item d] else [Item d, Handed]) ds)) c
     = c\<lparr>contents := contents c @ filter (\<lambda>d. dl_Body d \<noteq> []) ds\<rparr>"
proof (induction ds arbitrary: c)
  case (Cons d ds)
  show ?case
  proof (cases "dl_Body d = []")
    case True
    then show ?thesis using Cons by (simp add: consumer_step_def Let_def)
  next
    case False
    have "cphase (c\<lparr>contents := contents c @ [d]\<rparr>) = Receiving" using Cons.prems by simp
    moreover have "consumer_step q Handed (consumer_step q (Item d) c) = c\<lparr>contents := contents c @ [d]\<rparr>"
      using False Cons.prems by (cases c) (simp add: consumer_step_def Let_def)
    ultimately show ?thesis using False Cons.IH [of "c\<lparr>contents := contents c @ [d]\<rparr>"] by simp
  qed
qed simp

text \<open>
  C18. What the reader of a consumer gets is a subsequence of what the broker sent, in order and without
  repetition, across lost channels and retries; while the channel lasts it is all of it but the
  messages without a body, which are dropped and never acknowledged. An item in hand when the channel is
  lost is dropped too, which loses it when the broker does not wait for acknowledgements.
\<close>

theorem consumer_in_order:
  "subseq (contents (consumer_run q evs (consumer_start q r))) (items evs)
   \<and> contents (consumer_run q (concat (map (\<lambda>d. if dl_Body d = [] then [Item d] else [Item d, Handed]) ds)) (consumer_start q r))
       = filter (\<lambda>d. dl_Body d \<noteq> []) ds
   \<and> contents (consumer_run q [Item d, ChannelLost, Reconsumed ok, Handed] (consumer_start q r)) = []"
proof (intro conjI)
  have start: "contents (consumer_start q r) = []" "in_hand (consumer_start q r) = []" "cphase (consumer_start q r) = Receiving"
    by (simp_all add: consumer_start_def in_hand_def split: prod.splits)
  show "subseq (contents (consumer_run q evs (consumer_start q r))) (items evs)"
  proof -
    have "subseq (contents (consumer_run q evs (consumer_start q r)))
        (contents (consumer_run q evs (consumer_start q r)) @ in_hand (consumer_run q evs (consumer_start q r)))"
      by (rule prefix_imp_subseq) simp
    then show ?thesis using run_items [of q evs "consumer_start q r"] unfolding start(1,2) append_Nil
      by (rule subseq_order.trans)
  qed
  show "contents (consumer_run q (concat (map (\<lambda>d. if dl_Body d = [] then [Item d] else [Item d, Handed]) ds)) (consumer_start q r))
       = filter (\<lambda>d. dl_Body d \<noteq> []) ds"
    unfolding run_smooth [OF start(3)] by (simp add: start(1))
  show "contents (consumer_run q [Item d, ChannelLost, Reconsumed ok, Handed] (consumer_start q r)) = []"
  proof -
    have "consumer_run q [Item d, ChannelLost, Reconsumed ok, Handed] c = c\<lparr>cphase := (if ok then Receiving else RetryPause)\<rparr>"
      if "cphase c = Receiving" "dl_Body d \<noteq> []" for c
      using that by (cases c) (simp add: consumer_step_def Let_def)
    moreover have "contents (consumer_run q [Item d, ChannelLost, Reconsumed ok, Handed] c) = contents c"
      if "cphase c = Receiving" "dl_Body d = []" for c
      using that by (cases c) (simp add: consumer_step_def Let_def)
    ultimately show ?thesis using start by (cases "dl_Body d = []") simp_all
  qed
qed

definition exited_clean :: "string \<Rightarrow> consumer \<Rightarrow> bool" where
  "exited_clean q c \<longleftrightarrow>
     (cphase c = Exited \<longrightarrow> contents_closed c \<and> channel_given_up c)
   \<and> (cphase c \<noteq> Exited \<longrightarrow> \<not> contents_closed c \<and> \<not> channel_given_up c)"

lemma exited_clean_step: "exited_clean q c \<Longrightarrow> exited_clean q (consumer_step q ev c)"
  by (cases "cphase c"; cases ev) (simp_all add: exited_clean_def consumer_step_def consumer_exit_def Let_def)

lemma exit_deregisters: "cphase c \<noteq> Exited \<Longrightarrow> cphase (consumer_step q ev c) = Exited \<Longrightarrow>
    cancelChan (reg (consumer_step q ev c)) q \<noteq> Some (valueCh (consumer_step q ev c))"
  by (cases "cphase c"; cases ev)
    (auto simp: consumer_step_def consumer_exit_def CompareAndDelete_def Let_def split: if_splits)

text \<open>
  C19. Cancelling. The reader's channel is closed and the AMQP channel given up exactly when the goroutine
  has ended, and whatever ended it, its entry in the registry is gone then. After \<open>CancelQueue\<close> the
  signal ends a consumer that receives or pauses; one that waits for its reader does not see it and
  stays registered, so that its cancellation times out without an error.
\<close>

theorem consumer_cancel:
  "let c = consumer_run q evs (consumer_start q r) in
     (cphase c = Exited \<longleftrightarrow> contents_closed c) \<and> (cphase c = Exited \<longleftrightarrow> channel_given_up c)
   \<and> (cphase c \<noteq> Exited \<longrightarrow> cphase (consumer_step q ev c) = Exited \<longrightarrow>
        cancelChan (reg (consumer_step q ev c)) q \<noteq> Some (valueCh c))
   \<and> (cancelChan (reg c) q = Some (valueCh c) \<longrightarrow> cphase c = Receiving \<or> cphase c = RetryPause \<longrightarrow>
        cphase (consumer_run q [CancelCalled q, CancelSignal] c) = Exited)
   \<and> (cphase c = Handing d \<longrightarrow> cphase (consumer_run q [CancelCalled q, CancelSignal] c) = Handing d)"
proof -
  let ?c = "consumer_run q evs (consumer_start q r)"
  have "exited_clean q (consumer_start q r)" by (simp add: exited_clean_def consumer_start_def split: prod.splits)
  then have clean: "exited_clean q ?c"
    unfolding consumer_run_def by (induction evs arbitrary: r rule: rev_induct) (auto intro: exited_clean_step)
  have ch: "valueCh (consumer_step q ev c) = valueCh c" for ev c
    by (cases "cphase c"; cases ev) (simp_all add: consumer_step_def consumer_exit_def Let_def)
  have "cphase ?c \<noteq> Exited \<Longrightarrow> cphase (consumer_step q ev ?c) = Exited \<Longrightarrow> cancelChan (reg (consumer_step q ev ?c)) q \<noteq> Some (valueCh ?c)"
    using exit_deregisters ch by metis
  moreover have "cphase (consumer_run q [CancelCalled q, CancelSignal] c) = Exited"
    if "cancelChan (reg c) q = Some (valueCh c)" "cphase c = Receiving \<or> cphase c = RetryPause" for c
    using that by (auto simp: consumer_step_def CancelQueue_def consumer_exit_def Let_def)
  moreover have "cphase (consumer_run q [CancelCalled q, CancelSignal] c) = Handing d" if "cphase c = Handing d" for c
    using that by (simp add: consumer_step_def Let_def)
  ultimately show ?thesis using clean unfolding exited_clean_def Let_def by metis
qed

definition demo_registry :: registry where
  "demo_registry = \<lparr>cancelChan = Map.empty, closed_chans = {}, made_chans = 0\<rparr>"

theorem consumer_cancel_witness:
  "cphase (consumer_run ''q'' [CancelCalled ''q'', CancelSignal] (consumer_start ''q'' demo_registry)) = Exited"
  using consumer_cancel [of "''q''" "[]" demo_registry]
  by (simp add: consumer_start_def register_def demo_registry_def Let_def)

end
