(* ===== verification/Streams.thy ===== *)
theory Streams
  imports Prelude "HOL-Library.Multiset"
begin

text \<open>
  The package \<open>streams\<close>. A stream is the sequence of items its channel yields and the flag for parallel
  work; a function of the caller that may panic returns \<open>None\<close> then. The stages that hand items to
  goroutines (\<open>Walk\<close>, and through it \<open>Filter\<close> and \<open>Peek\<close>) are a step relation, the others are
  functions.
\<close>

section \<open>Streams\<close>

record 'a Stream =
  parallel :: bool
  source :: "'a list"

definition Range :: "'a list \<Rightarrow> bool \<Rightarrow> 'a Stream" where
  "Range src isParallel = \<lparr>parallel = isParallel, source = src\<rparr>"

definition convertToStream :: "'a list \<Rightarrow> bool \<Rightarrow> 'a Stream" where
  "convertToStream src par = \<lparr>parallel = par, source = src\<rparr>"

definition Of :: "'a list \<Rightarrow> 'a Stream" where
  "Of items = convertToStream items False"

definition OfParallel :: "'a list \<Rightarrow> 'a Stream" where
  "OfParallel items = convertToStream items True"

text \<open>\<open>Call\<close> makes a stream of what the function writes to the channel it is given.\<close>

definition Call :: "'a list \<Rightarrow> 'a Stream" where
  "Call written = convertToStream written False"

definition CallParallel :: "'a list \<Rightarrow> 'a Stream" where
  "CallParallel written = convertToStream written True"

definition Concat :: "'a Stream \<Rightarrow> 'a Stream list \<Rightarrow> 'a Stream" where
  "Concat s others = convertToStream (source s @ concat (map source others)) (parallel s)"

subsection \<open>Sequential stages\<close>

text \<open>\<open>Limit\<close> reads one item more than it passes on, if there is one, and stops; it panics below 0.\<close>

fun limit_loop :: "int \<Rightarrow> int \<Rightarrow> 'a list \<Rightarrow> 'a list" where
  "limit_loop maxSize n [] = []"
| "limit_loop maxSize n (item # items) = (if n < maxSize then item # limit_loop maxSize (n + 1) items else [])"

definition Limit :: "int \<Rightarrow> 'a Stream \<Rightarrow> 'a Stream option" where
  "Limit maxSize s = (if maxSize < 0 then None else Some (Range (limit_loop maxSize 0 (source s)) (parallel s)))"

fun skip_loop :: "int \<Rightarrow> 'a list \<Rightarrow> 'a list" where
  "skip_loop n [] = []"
| "skip_loop n (item # items) =
     (if n - 1 \<ge> 0 then skip_loop (n - 1) items else item # skip_loop (n - 1) items)"

definition Skip :: "int \<Rightarrow> 'a Stream \<Rightarrow> 'a Stream option" where
  "Skip n s =
     (if n < 0 then None else if n = 0 then Some s else Some (Range (skip_loop n (source s)) (parallel s)))"

text \<open>The goroutine of \<open>Distinct\<close>: a panic of the key function ends the stream there.\<close>

fun distinct_loop :: "('a \<Rightarrow> 'k option) \<Rightarrow> 'k list \<Rightarrow> 'a list \<Rightarrow> 'a list" where
  "distinct_loop fn keys [] = []"
| "distinct_loop fn keys (item # items) =
     (case fn item of
        None \<Rightarrow> []
      | Some key \<Rightarrow> if key \<notin> set keys then item # distinct_loop fn (key # keys) items else distinct_loop fn keys items)"

definition Distinct :: "('a \<Rightarrow> 'k option) \<Rightarrow> 'a Stream \<Rightarrow> 'a Stream" where
  "Distinct fn s = Range (distinct_loop fn [] (source s)) (parallel s)"

text \<open>\<open>sort.Slice\<close> is not stable: which sorted arrangement it yields is the argument \<open>slice\<close>.\<close>

definition Sorted :: "(('a \<Rightarrow> 'a \<Rightarrow> bool) \<Rightarrow> 'a list \<Rightarrow> 'a list) \<Rightarrow> ('a \<Rightarrow> 'a \<Rightarrow> bool) \<Rightarrow> 'a Stream \<Rightarrow> 'a Stream" where
  "Sorted slice lt s = Of (slice lt (source s))"

text \<open>The loop of \<open>Reverse\<close>, which swaps in place from the middle outwards.\<close>

definition swap :: "nat \<Rightarrow> nat \<Rightarrow> 'a list \<Rightarrow> 'a list" where
  "swap i j items = items[i := items ! j, j := items ! i]"

fun reverse_loop :: "nat \<Rightarrow> 'a list \<Rightarrow> 'a list" where
  "reverse_loop 0 items = items"
| "reverse_loop (Suc i) items = reverse_loop i (swap i (length items - 1 - i) items)"

definition Reverse :: "'a Stream \<Rightarrow> 'a Stream" where
  "Reverse s = Of (reverse_loop (length (source s) div 2) (source s))"

subsection \<open>Results\<close>

fun reduce_loop :: "('a \<Rightarrow> 'a \<Rightarrow> bool) \<Rightarrow> 'a option \<Rightarrow> 'a list \<Rightarrow> 'a option" where
  "reduce_loop better cur [] = cur"
| "reduce_loop better cur (t # ts) =
     reduce_loop better (case cur of None \<Rightarrow> Some t | Some c \<Rightarrow> if better t c then Some t else Some c) ts"

definition reduceBy :: "('a \<Rightarrow> 'a \<Rightarrow> bool) \<Rightarrow> 'a Stream \<Rightarrow> 'a option" where
  "reduceBy better s = reduce_loop better None (source s)"

definition Max :: "('a \<Rightarrow> 'a \<Rightarrow> int) \<Rightarrow> 'a Stream \<Rightarrow> 'a option" where
  "Max comparator s = reduceBy (\<lambda>t cur. comparator t cur > 0) s"

definition Min :: "('a \<Rightarrow> 'a \<Rightarrow> int) \<Rightarrow> 'a Stream \<Rightarrow> 'a option" where
  "Min comparator s = reduceBy (\<lambda>t cur. comparator t cur < 0) s"

definition Count :: "'a Stream \<Rightarrow> int" where
  "Count s = int (length (source s))"

text \<open>
  The matching operations wait for the answer of a goroutine. A panic of the predicate is swallowed
  there before the answer is sent, so the caller waits for ever: \<open>None\<close>.
\<close>

fun match_loop :: "bool \<Rightarrow> ('a \<Rightarrow> bool option) \<Rightarrow> bool \<Rightarrow> 'a list \<Rightarrow> bool option" where
  "match_loop stop_at predicate tempFlag [] = Some tempFlag"
| "match_loop stop_at predicate tempFlag (item # items) =
     (case predicate item of
        None \<Rightarrow> None
      | Some b \<Rightarrow> if b = stop_at then Some (\<not> tempFlag) else match_loop stop_at predicate tempFlag items)"

definition AllMatch :: "('a \<Rightarrow> bool option) \<Rightarrow> 'a Stream \<Rightarrow> bool option" where
  "AllMatch predicate s = match_loop False predicate True (source s)"

definition AnyMatch :: "('a \<Rightarrow> bool option) \<Rightarrow> 'a Stream \<Rightarrow> bool option" where
  "AnyMatch predicate s = match_loop True predicate False (source s)"

definition NoneMatch :: "('a \<Rightarrow> bool option) \<Rightarrow> 'a Stream \<Rightarrow> bool option" where
  "NoneMatch predicate s = match_loop True predicate True (source s)"

definition FindFirst :: "'a Stream \<Rightarrow> 'a option" where
  "FindFirst s = (case source s of [] \<Rightarrow> None | item # _ \<Rightarrow> Some item)"

definition FindLast :: "'a Stream \<Rightarrow> 'a option" where
  "FindLast s = (case source (Reverse s) of [] \<Rightarrow> None | item # _ \<Rightarrow> Some item)"

fun accumulate :: "('a \<Rightarrow> 'a \<Rightarrow> 'a) \<Rightarrow> nat \<Rightarrow> 'a option \<Rightarrow> 'a list \<Rightarrow> 'a option" where
  "accumulate accumulator cnt res [] = (if cnt = 0 then None else res)"
| "accumulate accumulator cnt res (item # items) =
     (if cnt = 0 then accumulate accumulator (Suc cnt) (Some item) items
      else accumulate accumulator (Suc cnt) (map_option (\<lambda>r. accumulator r item) res) items)"

definition Reduce :: "('a \<Rightarrow> 'a \<Rightarrow> 'a) \<Rightarrow> 'a Stream \<Rightarrow> 'a option" where
  "Reduce accumulator s = accumulate accumulator 0 None (source s)"

definition MapStream :: "('a \<Rightarrow> 'b) \<Rightarrow> 'a Stream \<Rightarrow> 'b Stream" where
  "MapStream mapper s = Of (fold (\<lambda>el mapped. mapped @ [mapper el]) (source s) [])"

definition StreamToSlice :: "'a Stream \<Rightarrow> 'a list" where
  "StreamToSlice s = fold (\<lambda>item r. r @ [item]) (source s) []"

definition FlatMap :: "('a \<Rightarrow> 'b Stream) \<Rightarrow> 'a Stream \<Rightarrow> 'b Stream" where
  "FlatMap mapper s =
     (let streams = fold (\<lambda>t ss. ss @ [mapper t]) (source s) []
      in Of (fold (\<lambda>str newEl. newEl @ StreamToSlice str) streams []))"

section \<open>Collectors\<close>

record ('t, 'r, 'f) Collector =
  Supplier :: 'r
  Accumulator :: "'t \<Rightarrow> 'r \<Rightarrow> 'r"
  Finisher :: "'r \<Rightarrow> 'f"

definition Collect :: "('t, 'r, 'f) Collector \<Rightarrow> 't Stream \<Rightarrow> 'f" where
  "Collect collector s = Finisher collector (fold (Accumulator collector) (source s) (Supplier collector))"

definition ToSlice :: "('t, 't list, 't list) Collector" where
  "ToSlice = \<lparr>Supplier = [], Accumulator = (\<lambda>t ts. ts @ [t]), Finisher = (\<lambda>t. t)\<rparr>"

text \<open>A value that is nil is \<open>None\<close>: \<open>MapMerge\<close> takes it for absent.\<close>

definition MapMerge :: "'k \<Rightarrow> 'v option \<Rightarrow> ('k \<rightharpoonup> 'v option) \<Rightarrow> ('v \<Rightarrow> 'v option \<Rightarrow> 'v option) option \<Rightarrow> 'v option" where
  "MapMerge key v old opt =
     (case (case old key of None \<Rightarrow> None | Some x \<Rightarrow> x) of
        None \<Rightarrow> v
      | Some oldV \<Rightarrow> (case opt of None \<Rightarrow> v | Some f \<Rightarrow> f oldV v))"

text \<open>Only the first of the merge functions is used.\<close>

definition ToMap ::
  "('t \<Rightarrow> 'k) \<Rightarrow> ('t \<Rightarrow> 'v option) \<Rightarrow> ('v \<Rightarrow> 'v option \<Rightarrow> 'v option) option list \<Rightarrow> ('t, 'k \<rightharpoonup> 'v option, 'k \<rightharpoonup> 'v option) Collector" where
  "ToMap keyMapper valueMapper opts =
     \<lparr>Supplier = Map.empty,
      Accumulator = (\<lambda>t ts.
        (let key = keyMapper t; v = valueMapper t in
         case opts of
           [] \<Rightarrow> ts(key \<mapsto> v)
         | opt # _ \<Rightarrow> ts(key \<mapsto> MapMerge key v ts opt))),
      Finisher = (\<lambda>t. t)\<rparr>"

definition GroupingBy :: "('t \<Rightarrow> 'k) \<Rightarrow> ('t \<Rightarrow> 'v) \<Rightarrow> ('t, 'k \<rightharpoonup> 'v list, 'k \<rightharpoonup> 'v list) Collector" where
  "GroupingBy keyMapper valueMapper =
     \<lparr>Supplier = Map.empty,
      Accumulator = (\<lambda>t ts.
        (let key = keyMapper t; v = valueMapper t
         in ts(key \<mapsto> (case ts key of None \<Rightarrow> [] | Some vs \<Rightarrow> vs) @ [v]))),
      Finisher = (\<lambda>t. t)\<rparr>"

section \<open>Stages with goroutines\<close>

text \<open>
  \<open>walkLimited\<close>: a goroutine per item, of which at most \<open>workers\<close> run at once, each writing some items to
  the pipe: \<open>fn\<close> gives what it writes, up to a panic, which is recovered. A step starts the next item,
  writes one, or ends a goroutine; the pipe is closed when all is done.
\<close>

definition worker_count :: "nat \<Rightarrow> 'a Stream \<Rightarrow> nat" where
  "worker_count NumCPU s = (if parallel s then NumCPU * 2 else 1)"

record ('a, 'b) walk =
  todo :: "'a list"
  running :: "'b list list"
  pipe :: "'b list"

inductive walk_step :: "nat \<Rightarrow> ('a \<Rightarrow> 'b list) \<Rightarrow> ('a, 'b) walk \<Rightarrow> ('a, 'b) walk \<Rightarrow> bool" for workers fn where
  starts: "todo w = item # items \<Longrightarrow> length (running w) < workers \<Longrightarrow>
    walk_step workers fn w (w\<lparr>todo := items, running := running w @ [fn item]\<rparr>)"
| writes: "running w = l @ (x # xs) # r \<Longrightarrow>
    walk_step workers fn w (w\<lparr>running := l @ xs # r, pipe := pipe w @ [x]\<rparr>)"
| ends: "running w = l @ [] # r \<Longrightarrow> walk_step workers fn w (w\<lparr>running := l @ r\<rparr>)"

definition walk_start :: "'a Stream \<Rightarrow> ('a, 'b) walk" where
  "walk_start s = \<lparr>todo = source s, running = [], pipe = []\<rparr>"

definition walk_over :: "('a, 'b) walk \<Rightarrow> bool" where
  "walk_over w \<longleftrightarrow> todo w = [] \<and> running w = []"

text \<open>What \<open>Filter\<close> and \<open>Peek\<close> have a goroutine write; the function of \<open>Peek\<close> may change its item.\<close>

definition filter_fn :: "('a \<Rightarrow> bool option) \<Rightarrow> 'a \<Rightarrow> 'a list" where
  "filter_fn fn item = (if fn item = Some True then [item] else [])"

definition peek_fn :: "('a \<Rightarrow> 'a option) \<Rightarrow> 'a \<Rightarrow> 'a list" where
  "peek_fn fn item = (case fn item of None \<Rightarrow> [] | Some item' \<Rightarrow> [item'])"


section \<open>Facts\<close>

subsection \<open>The loops and the list functions they are\<close>

lemma limit_loop_eq: "limit_loop m n xs = take (nat (m - n)) xs"
proof (induction m n xs rule: limit_loop.induct)
  case (2 m n x xs)
  have "nat (m - n) - Suc 0 = nat (m - (n + 1))" by simp
  then show ?case using 2 by (cases "n < m") (simp_all add: take_Cons')
qed simp

lemma skip_loop_eq: "skip_loop n xs = drop (nat n) xs"
proof (induction n xs rule: skip_loop.induct)
  case (2 n x xs)
  show ?case
  proof (cases "n - 1 \<ge> 0")
    case True
    then show ?thesis using 2 by (simp add: drop_Cons' nat_diff_distrib')
  next
    case False
    then have "nat n = 0" "nat (n - 1) = 0" by simp_all
    then show ?thesis using 2 False by simp
  qed
qed simp

text \<open>After \<open>k\<close> of its steps the loop of \<open>Reverse\<close> has turned the middle of the list around.\<close>

lemma swap_ends: "swap 0 (Suc (length ys)) (x # ys @ [y]) = y # ys @ [x]"
  by (simp add: swap_def nth_append)

lemma swap_middle:
  assumes "length as = length bs"
  shows "swap (length as) (length as + Suc (length ys)) (as @ x # ys @ y # bs) = as @ y # ys @ x # bs"
  by (simp add: swap_def nth_append list_update_append)

lemma reverse_loop_eq:
  "length as = length bs \<Longrightarrow> length as = i \<Longrightarrow> reverse_loop i (as @ ys @ bs) = rev bs @ ys @ rev as"
proof (induction i arbitrary: as bs ys)
  case (Suc i)
  obtain as' x where as: "as = as' @ [x]" using Suc.prems by (metis length_0_conv list.size(3) nat.distinct(1) rev_exhaust)
  obtain y bs' where bs: "bs = y # bs'" using Suc.prems by (cases bs) auto
  have len: "length as' = i" "length bs' = i" using Suc.prems as bs by simp_all
  have "swap i (length (as @ ys @ bs) - 1 - i) (as @ ys @ bs) = as' @ y # ys @ x # bs'"
    using swap_middle [of as' bs' ys x y] len by (simp add: as bs add.commute)
  then have "reverse_loop (Suc i) (as @ ys @ bs) = reverse_loop i (as' @ (y # ys @ [x]) @ bs')" by simp
  also have "\<dots> = rev bs' @ (y # ys @ [x]) @ rev as'" by (rule Suc.IH) (simp_all add: len)
  finally show ?case by (simp add: as bs)
qed simp

lemma reverse_loop_rev: "reverse_loop (length xs div 2) xs = rev xs"
proof -
  let ?n = "length xs div 2"
  let ?a = "take ?n xs" and ?m = "take (length xs - 2 * ?n) (drop ?n xs)" and ?b = "drop (length xs - ?n) xs"
  have split: "xs = ?a @ ?m @ ?b"
  proof -
    have "length xs - 2 * ?n + ?n = length xs - ?n" by linarith
    then have "drop (length xs - 2 * ?n) (drop ?n xs) = ?b" by simp
    then have "drop ?n xs = ?m @ ?b" by (metis append_take_drop_id)
    then show ?thesis by (metis append_take_drop_id)
  qed
  have m: "length ?m \<le> 1" by simp
  have "reverse_loop ?n (?a @ ?m @ ?b) = rev ?b @ ?m @ rev ?a" by (rule reverse_loop_eq) simp_all
  moreover have "rev z = z" if "length z \<le> 1" for z :: "'a list" using that by (cases z) auto
  then have "rev ?m = ?m" using m by blast
  ultimately show ?thesis using split by (metis append_assoc rev_append)
qed

lemma snoc_fold: "fold (\<lambda>x r. r @ [f x]) xs r = r @ map f xs"
  by (induction xs arbitrary: r) simp_all

lemma StreamToSlice_eq [simp]: "StreamToSlice s = source s"
  using snoc_fold [of "\<lambda>x. x" "source s" "[]"] by (simp add: StreamToSlice_def)

lemma concat_fold: "fold (\<lambda>x r. r @ f x) xs r = r @ concat (map f xs)"
  by (induction xs arbitrary: r) simp_all

lemma accumulate_eq: "0 < n \<Longrightarrow> accumulate f n (Some r) xs = Some (foldl f r xs)"
  by (induction xs arbitrary: n r) simp_all

text \<open>
  The sequential stages are the list functions they stand for: \<open>Limit\<close> and \<open>Skip\<close> take and drop,
  and panic exactly below zero, \<open>Reverse\<close>, which swaps in place, reverses, \<open>FlatMap\<close> and \<open>Concat\<close> append in the
  order of the source, \<open>Reduce\<close> folds from the left, \<open>FindFirst\<close> and \<open>FindLast\<close> are the ends.
\<close>

theorem stages_are_list_functions:
  "map_option source (Limit n s) = (if n < 0 then None else Some (take (nat n) (source s)))
   \<and> map_option source (Skip n s) = (if n < 0 then None else Some (drop (nat n) (source s)))
   \<and> source (Reverse s) = rev (source s)
   \<and> source (MapStream f s) = map f (source s)
   \<and> source (FlatMap g s) = concat (map (\<lambda>x. source (g x)) (source s))
   \<and> source (Concat s others) = source s @ concat (map source others)
   \<and> Reduce acc s = (case source s of [] \<Rightarrow> None | x # xs \<Rightarrow> Some (foldl acc x xs))
   \<and> FindFirst s = (if source s = [] then None else Some (hd (source s)))
   \<and> FindLast s = (if source s = [] then None else Some (last (source s)))"
proof (intro conjI)
  have r: "source (Reverse s) = rev (source s)"
    by (simp add: Reverse_def Of_def convertToStream_def reverse_loop_rev)
  then show "source (Reverse s) = rev (source s)" .
  show "FindLast s = (if source s = [] then None else Some (last (source s)))"
    unfolding FindLast_def r by (cases "source s" rule: rev_cases) simp_all
  show "map_option source (Limit n s) = (if n < 0 then None else Some (take (nat n) (source s)))"
    by (simp add: Limit_def Range_def limit_loop_eq)
  show "map_option source (Skip n s) = (if n < 0 then None else Some (drop (nat n) (source s)))"
    by (simp add: Skip_def Range_def skip_loop_eq)
  show "source (FlatMap g s) = concat (map (\<lambda>x. source (g x)) (source s))"
    using snoc_fold [of g "source s" "[]"]
    by (simp add: FlatMap_def Of_def convertToStream_def Let_def concat_fold comp_def)
  show "Reduce acc s = (case source s of [] \<Rightarrow> None | x # xs \<Rightarrow> Some (foldl acc x xs))"
    by (simp add: Reduce_def accumulate_eq split: list.split)
qed (simp_all add: MapStream_def snoc_fold Of_def convertToStream_def Concat_def FindFirst_def split: list.split)

subsection \<open>Maxima\<close>

lemma reduce_loop_first_best:
  assumes trans: "\<And>a b c. better a b \<Longrightarrow> better b c \<Longrightarrow> better a c"
    and split: "\<And>a b c. better a c \<Longrightarrow> better a b \<or> better b c"
  shows "\<exists>m us vs. reduce_loop better (Some c) xs = Some m \<and> c # xs = us @ m # vs
           \<and> (\<forall>u\<in>set us. better m u) \<and> (\<forall>v\<in>set vs. \<not> better v m)"
proof (induction xs arbitrary: c)
  case Nil
  then show ?case by (intro exI [of _ c] exI [of _ "[]"]) simp
next
  case (Cons y ys)
  show ?case
  proof (cases "better y c")
    case True
    obtain m us vs where r: "reduce_loop better (Some y) ys = Some m" and l: "y # ys = us @ m # vs"
      and u: "\<forall>u\<in>set us. better m u" and v: "\<forall>v\<in>set vs. \<not> better v m"
      using Cons.IH by blast
    have "better m c" using l u True trans by (cases us) auto
    then have "c # y # ys = (c # us) @ m # vs" "\<forall>u\<in>set (c # us). better m u" using l u by simp_all
    moreover have "reduce_loop better (Some c) (y # ys) = Some m" using True r by simp
    ultimately show ?thesis using v by blast
  next
    case False
    obtain m us vs where r: "reduce_loop better (Some c) ys = Some m" and l: "c # ys = us @ m # vs"
      and u: "\<forall>u\<in>set us. better m u" and v: "\<forall>v\<in>set vs. \<not> better v m"
      using Cons.IH by blast
    show ?thesis
    proof (cases us)
      case Nil
      then have "reduce_loop better (Some c) (y # ys) = Some m" "c # y # ys = [] @ m # (y # vs)" "\<forall>v\<in>set (y # vs). \<not> better v m"
        using False r l v by simp_all
      then show ?thesis by (metis empty_iff empty_set)
    next
      case (Cons c' us')
      then have "better m c" using l u by simp
      then have "better m y" using split False by blast
      then have "c # y # ys = (c # y # us') @ m # vs" "\<forall>u\<in>set (c # y # us'). better m u"
        using l u Cons \<open>better m c\<close> by simp_all
      moreover have "reduce_loop better (Some c) (y # ys) = Some m" using False r by simp
      ultimately show ?thesis using v by blast
    qed
  qed
qed

lemma reduceBy_first_best:
  assumes "\<And>a b c. better a b \<Longrightarrow> better b c \<Longrightarrow> better a c" and "\<And>a b c. better a c \<Longrightarrow> better a b \<or> better b c"
    and "source s \<noteq> []"
  shows "\<exists>m us vs. reduceBy better s = Some m \<and> source s = us @ m # vs
           \<and> (\<forall>u\<in>set us. better m u) \<and> (\<forall>v\<in>set vs. \<not> better v m)"
proof -
  obtain c xs where "source s = c # xs" using assms(3) by (cases "source s") auto
  then show ?thesis using reduce_loop_first_best [where better = better and c = c and xs = xs, OF assms(1,2)] by (simp add: reduceBy_def)
qed

text \<open>
  \<open>Max\<close> and \<open>Min\<close> of an empty stream are absent. Of another, \<open>Max\<close> is the first of the greatest
  items: greater than all before it and no less than all after it; \<open>Min\<close> is the first of the least. The
  comparator has to be a weak order.
\<close>


theorem Max_Min_spec:
  assumes "\<And>a b c. 0 < cmp a b \<Longrightarrow> 0 < cmp b c \<Longrightarrow> 0 < cmp a c"
    and "\<And>a b c. 0 < cmp a c \<Longrightarrow> 0 < cmp a b \<or> 0 < cmp b c"
    and "\<And>a b. cmp a b < 0 \<longleftrightarrow> 0 < cmp b a"
  shows "(source s = [] \<longrightarrow> Max cmp s = None \<and> Min cmp s = None)
     \<and> (source s \<noteq> [] \<longrightarrow>
          (\<exists>m us vs. Max cmp s = Some m \<and> source s = us @ m # vs \<and> (\<forall>u\<in>set us. cmp m u > 0) \<and> (\<forall>v\<in>set vs. cmp v m \<le> 0))
        \<and> (\<exists>m us vs. Min cmp s = Some m \<and> source s = us @ m # vs \<and> (\<forall>u\<in>set us. cmp m u < 0) \<and> (\<forall>v\<in>set vs. cmp v m \<ge> 0)))"
proof (intro conjI impI)
  assume "source s \<noteq> []"
  have split: "cmp a c < 0 \<Longrightarrow> cmp a b < 0 \<or> cmp b c < 0" for a b c using assms(2) [where a = c and b = b and c = a] assms(3) by blast
  have trans: "cmp a b < 0 \<Longrightarrow> cmp b c < 0 \<Longrightarrow> cmp a c < 0" for a b c using assms(1) assms(3) by blast
  show "\<exists>m us vs. Max cmp s = Some m \<and> source s = us @ m # vs \<and> (\<forall>u\<in>set us. cmp m u > 0) \<and> (\<forall>v\<in>set vs. cmp v m \<le> 0)"
    using reduceBy_first_best [of "\<lambda>t cur. cmp t cur > 0" s, OF assms(1,2) \<open>source s \<noteq> []\<close>]
    by (simp add: Max_def linorder_not_less)
  show "\<exists>m us vs. Min cmp s = Some m \<and> source s = us @ m # vs \<and> (\<forall>u\<in>set us. cmp m u < 0) \<and> (\<forall>v\<in>set vs. cmp v m \<ge> 0)"
    using reduceBy_first_best [of "\<lambda>t cur. cmp t cur < 0" s, OF trans split \<open>source s \<noteq> []\<close>]
    by (simp add: Min_def linorder_not_less)
qed (simp_all add: Max_def Min_def reduceBy_def)

theorem Max_Min_spec_witness:
  "\<exists>m. Max (\<lambda>a b :: int. a - b) (Of [3, 7, 7, 1]) = Some m \<and> m \<ge> 7"
proof -
  have "\<exists>m us vs. Max (\<lambda>a b :: int. a - b) (Of [3, 7, 7, 1]) = Some m \<and> source (Of [3, 7, 7, 1]) = us @ m # vs
      \<and> (\<forall>u\<in>set us. m - u > 0) \<and> (\<forall>v\<in>set vs. v - m \<le> 0)"
  proof -
    have split: "0 < a - c \<Longrightarrow> 0 < a - b \<or> 0 < b - c" for a b c :: int by linarith
    show ?thesis
      using Max_Min_spec [of "\<lambda>a b :: int. a - b" "Of [3, 7, 7, 1]", OF _ split] by (simp add: Of_def convertToStream_def)
  qed
  then obtain m us vs where m: "Max (\<lambda>a b :: int. a - b) (Of [3, 7, 7, 1]) = Some m"
      and l: "[3, 7, 7, 1] = us @ m # vs" and u: "\<forall>u\<in>set us. m - u > 0" and v: "\<forall>v\<in>set vs. v - m \<le> 0"
    by (auto simp: Of_def convertToStream_def)
  have "(7 :: int) \<in> set (us @ m # vs)" unfolding l [symmetric] by simp
  then have "m \<ge> 7" using u v by auto
  with m show ?thesis by blast
qed

subsection \<open>Matching and collecting\<close>

lemma match_loop_eq:
  "match_loop stop p flag xs =
     (case dropWhile (\<lambda>x. p x = Some (\<not> stop)) xs of [] \<Rightarrow> Some flag | x # _ \<Rightarrow> if p x = None then None else Some (\<not> flag))"
  by (induction stop p flag xs rule: match_loop.induct) (auto split: option.split)

lemma match_loop_total:
  "match_loop stop (\<lambda>x. Some (p x)) flag xs = Some (if \<exists>x\<in>set xs. p x = stop then \<not> flag else flag)"
  by (induction stop "\<lambda>x. Some (p x)" flag xs rule: match_loop.induct) auto

lemma group_fold:
  "fold (Accumulator (GroupingBy k v)) xs m =
     (\<lambda>key. if \<exists>t\<in>set xs. k t = key then Some ((case m key of None \<Rightarrow> [] | Some vs \<Rightarrow> vs) @ map v (filter (\<lambda>t. k t = key) xs)) else m key)"
proof (induction xs arbitrary: m)
  case (Cons x xs)
  have a: "Accumulator (GroupingBy k v) x m = m(k x \<mapsto> (case m (k x) of None \<Rightarrow> [] | Some vs \<Rightarrow> vs) @ [v x])"
    by (simp add: GroupingBy_def Let_def)
  show ?case unfolding fold_Cons comp_apply a Cons.IH by (rule ext) auto
qed simp

lemma to_map_fold:
  "fold (Accumulator (ToMap k v [])) xs m =
     (\<lambda>key. case filter (\<lambda>t. k t = key) xs of [] \<Rightarrow> m key | ts \<Rightarrow> Some (v (last ts)))"
proof (induction xs arbitrary: m)
  case (Cons x xs)
  have a: "Accumulator (ToMap k v []) x m = m(k x \<mapsto> v x)" by (simp add: ToMap_def Let_def)
  show ?case unfolding fold_Cons comp_apply a Cons.IH by (rule ext) (auto split: list.split)
qed simp

text \<open>
  The results. The three matchings answer what they say while the predicate returns; where it panics
  on an item that is reached they never answer. \<open>GroupingBy\<close> gives every key that occurs its values in
  order, \<open>ToMap\<close> without a merge function the value of the last item of the key.
\<close>

theorem matching_and_collecting:
  "AllMatch (\<lambda>x. Some (p x)) s = Some (\<forall>x\<in>set (source s). p x)
   \<and> AnyMatch (\<lambda>x. Some (p x)) s = Some (\<exists>x\<in>set (source s). p x)
   \<and> NoneMatch (\<lambda>x. Some (p x)) s = Some (\<not> (\<exists>x\<in>set (source s). p x))
   \<and> (source s = xs @ y # ys \<and> list_all (\<lambda>x. q x = Some True) xs \<and> q y = None \<longrightarrow> AllMatch q s = None)
   \<and> Collect (GroupingBy k v) s = (\<lambda>key. if key \<in> k ` set (source s) then Some (map v (filter (\<lambda>t. k t = key) (source s))) else None)
   \<and> Collect (ToMap k u []) s =
       (\<lambda>key. if key \<in> k ` set (source s) then Some (u (last (filter (\<lambda>t. k t = key) (source s)))) else None)"
proof (intro conjI impI)
  assume a: "source s = xs @ y # ys \<and> list_all (\<lambda>x. q x = Some True) xs \<and> q y = None"
  have "dropWhile (\<lambda>x. q x = Some True) (xs @ y # ys) = y # ys"
    using a by (simp add: dropWhile_append list_all_iff)
  then show "AllMatch q s = None" using a by (simp add: AllMatch_def match_loop_eq)
next
  show "Collect (GroupingBy k v) s = (\<lambda>key. if key \<in> k ` set (source s) then Some (map v (filter (\<lambda>t. k t = key) (source s))) else None)"
    by (rule ext) (auto simp: Collect_def group_fold, auto simp: GroupingBy_def)
  show "Collect (ToMap k u []) s =
       (\<lambda>key. if key \<in> k ` set (source s) then Some (u (last (filter (\<lambda>t. k t = key) (source s)))) else None)"
  proof (rule ext)
    fix key
    have "Collect (ToMap k u []) s key = fold (Accumulator (ToMap k u [])) (source s) Map.empty key"
      by (simp add: Collect_def ToMap_def)
    moreover have mem: "key \<in> k ` set (source s) \<longleftrightarrow> filter (\<lambda>t. k t = key) (source s) \<noteq> []"
      by (auto simp: filter_empty_conv)
    ultimately show "Collect (ToMap k u []) s key =
        (if key \<in> k ` set (source s) then Some (u (last (filter (\<lambda>t. k t = key) (source s)))) else None)"
      unfolding to_map_fold mem by (simp split: list.split)
  qed
qed (auto simp: AllMatch_def AnyMatch_def NoneMatch_def match_loop_total)

theorem matching_and_collecting_witness:
  "AllMatch (\<lambda>x. if x = 0 then None else Some (0 < x)) (Of [1, 0, 2 :: int]) = None"
proof -
  have "source (Of [1, 0, 2 :: int]) = [1] @ 0 # [2]" by (simp add: Of_def convertToStream_def)
  with matching_and_collecting [of "\<lambda>_. True" "Of [1, 0, 2 :: int]" "[1]" 0 "[2]" "\<lambda>x. if x = 0 then None else Some (0 < x)"
      "\<lambda>x. x" "\<lambda>x. x" "\<lambda>x. Some x"]
  show ?thesis by simp
qed

subsection \<open>Any schedule of the goroutines\<close>

definition walk_left :: "('a \<Rightarrow> 'b list) \<Rightarrow> ('a, 'b) walk \<Rightarrow> nat" where
  "walk_left fn w = sum_list (map (\<lambda>x. 2 + length (fn x)) (todo w)) + sum_list (map (\<lambda>l. 1 + length l) (running w))"

definition walk_items :: "('a \<Rightarrow> 'b list) \<Rightarrow> ('a, 'b) walk \<Rightarrow> 'b list" where
  "walk_items fn w = pipe w @ concat (running w) @ concat (map fn (todo w))"

lemma walk_step_items:
  assumes "walk_step workers fn w w'"
  shows "mset (walk_items fn w') = mset (walk_items fn w)"
    and "length (running w) \<le> workers \<Longrightarrow> length (running w') \<le> workers"
    and "length (running w) \<le> 1 \<Longrightarrow> workers = 1 \<Longrightarrow> walk_items fn w' = walk_items fn w"
    and "walk_left fn w' + 1 = walk_left fn w"
  using assms
  by (cases rule: walk_step.cases; simp add: walk_items_def walk_left_def; cases "running w"; simp)+

lemma walk_run:
  "(walk_step workers fn ^^ n) w w' \<Longrightarrow> length (running w) \<le> workers \<Longrightarrow>
   mset (walk_items fn w') = mset (walk_items fn w) \<and> length (running w') \<le> workers
   \<and> (workers = 1 \<longrightarrow> walk_items fn w' = walk_items fn w) \<and> walk_left fn w' + n = walk_left fn w"
proof (induction n arbitrary: w')
  case (Suc n)
  obtain w1 where w1: "(walk_step workers fn ^^ n) w w1" and step: "walk_step workers fn w1 w'"
    using Suc.prems(1) by auto
  show ?case
    using Suc.IH [OF w1 Suc.prems(2)] walk_step_items [OF step] by auto
qed simp


lemma filter_fn_filter: "concat (map (filter_fn (\<lambda>x. Some (p x))) xs) = filter p xs"
  by (induction xs) (simp_all add: filter_fn_def)


end
