(* ===== verification/Errors.thy ===== *)
theory Errors
  imports Go_Strings
begin

text \<open>
  \<open>errors/errors.go\<close>: errors with a code, the registry of codes, and the chain of inner errors. An error of
  another package is known by its text.
\<close>

datatype go_error = Foreign string | Error int string "go_error option"

definition HTTPStartCode :: int where "HTTPStartCode = 100"
definition HTTPEndCode :: int where "HTTPEndCode = 599"
definition NormalErrorCode :: int where "NormalErrorCode = 100000000"
definition UndefinedErrorCode :: int where "UndefinedErrorCode = 900000000"

type_synonym errors_map = "int \<rightharpoonup> go_error"

definition ErrUndefined :: go_error where
  "ErrUndefined = Error UndefinedErrorCode ''undefined error'' None"

text \<open>The registry after the package's variables are initialised.\<close>

definition errorsMap0 :: errors_map where
  "errorsMap0 = [UndefinedErrorCode \<mapsto> ErrUndefined]"

definition NewNormalError :: "string \<Rightarrow> go_error" where
  "NewNormalError m = Error NormalErrorCode m None"

text \<open>\<open>None\<close> is the panic of a code that is taken or reserved.\<close>

definition New :: "int \<Rightarrow> string \<Rightarrow> errors_map \<Rightarrow> (go_error \<times> errors_map) option" where
  "New code m errorsMap =
     (if code = NormalErrorCode then None
      else if errorsMap code \<noteq> None then None
      else let err = Error code m None in Some (err, errorsMap(code \<mapsto> err)))"

definition GetError :: "int \<Rightarrow> errors_map \<Rightarrow> go_error" where
  "GetError code errorsMap = (case errorsMap code of None \<Rightarrow> ErrUndefined | Some v \<Rightarrow> v)"

section \<open>Methods\<close>

text \<open>The methods are those of \<open>*Error\<close>; on a foreign error they are not called.\<close>

fun Code :: "go_error \<Rightarrow> int" where
  "Code (Error code m i) = code" | "Code (Foreign t) = 0"

fun Message :: "go_error \<Rightarrow> string" where
  "Message (Error code m i) = m" | "Message (Foreign t) = []"

fun WithErr :: "go_error option \<Rightarrow> go_error \<Rightarrow> go_error" where
  "WithErr err (Error code m i) = (case err of None \<Rightarrow> Error code m i | Some e \<Rightarrow> Error code m (Some e))"
| "WithErr err (Foreign t) = Foreign t"

fun WithMessage :: "string \<Rightarrow> go_error \<Rightarrow> go_error" where
  "WithMessage msg (Error code m i) = (if msg = [] then Error code m i else Error code msg i)"
| "WithMessage msg (Foreign t) = Foreign t"

fun Unwrap :: "go_error \<Rightarrow> go_error option" where
  "Unwrap (Error code m i) = i" | "Unwrap (Foreign t) = None"

definition Equal :: "go_error \<Rightarrow> go_error option \<Rightarrow> bool" where
  "Equal e err = (case err of None \<Rightarrow> False | Some x \<Rightarrow> Code e = Code x)"

fun Is :: "go_error \<Rightarrow> go_error \<Rightarrow> bool" where
  "Is (Error code m i) (Error code' m' i') = (code = code')"
| "Is _ _ = False"

text \<open>\<open>Error()\<close> writes the chain from the outside in; a foreign error ends it with its own text.\<close>

fun error_string :: "go_error \<Rightarrow> string" where
  "error_string (Foreign t) = t"
| "error_string (Error code m None) = itoa code @ '' -> '' @ m"
| "error_string (Error code m (Some e)) = itoa code @ '' -> '' @ m @ [CHR 0x0A, CHR '' ''] @ ''inner error: '' @ error_string e"

fun Cause :: "go_error \<Rightarrow> go_error" where
  "Cause (Error code m None) = Error code m None"
| "Cause (Error code m (Some e)) = (case e of Error _ _ _ \<Rightarrow> Cause e | Foreign t \<Rightarrow> Foreign t)"
| "Cause (Foreign t) = Foreign t"

definition IsHTTPStatus :: "go_error option \<Rightarrow> bool" where
  "IsHTTPStatus err =
     (case err of None \<Rightarrow> False | Some e \<Rightarrow> HTTPStartCode \<le> Code e \<and> Code e \<le> HTTPEndCode)"

text \<open>The standard library's \<open>errors.Is\<close> on such chains: an error of the chain whose \<open>Is\<close> accepts the target, or the target itself.\<close>

fun errors_Is :: "go_error \<Rightarrow> go_error \<Rightarrow> bool" where
  "errors_Is (Error code m i) target =
     (Is (Error code m i) target \<or> (case i of None \<Rightarrow> False | Some e \<Rightarrow> errors_Is e target))"
| "errors_Is (Foreign t) target = (target = Foreign t)"

section \<open>Facts\<close>

text \<open>The chain of an error, from the outside in.\<close>

fun chain :: "go_error \<Rightarrow> go_error list" where
  "chain (Foreign t) = [Foreign t]"
| "chain (Error code m None) = [Error code m None]"
| "chain (Error code m (Some e)) = Error code m (Some e) # chain e"

lemma chain_nonempty [simp]: "chain e \<noteq> []"
  by (induction e rule: chain.induct) simp_all

lemma Cause_last: "Cause e = last (chain e)"
proof (induction e rule: Cause.induct)
  case (2 code m e)
  then show ?case by (cases e) simp_all
qed simp_all

fun link_text :: "go_error \<Rightarrow> string" where
  "link_text (Foreign t) = t"
| "link_text (Error code m i) = itoa code @ '' -> '' @ m"

lemma error_string_join: "error_string e = join ([CHR 0x0A, CHR '' ''] @ ''inner error: '') (map link_text (chain e))"
proof (induction e rule: error_string.induct)
  case (3 code m e)
  then show ?case by (cases "map link_text (chain e)") simp_all
qed simp_all

lemma errors_Is_chain:
  "errors_Is e (Error c m i) \<longleftrightarrow> (\<exists>x\<in>set (chain e). \<exists>m' i'. x = Error c m' i')"
proof (induction e rule: chain.induct)
  case (1 t)
  then show ?case by simp
next
  case (2 code m')
  then show ?case by auto
next
  case (3 code m' e)
  then show ?case by (auto simp del: errors_Is.simps(2))
qed

text \<open>What registering may have made of the registry.\<close>

inductive registered :: "errors_map \<Rightarrow> bool" where
  registered0: "registered errorsMap0"
| registeredS: "registered M \<Longrightarrow> New code m M = Some (err, M') \<Longrightarrow> registered M'"

lemma registered_inv:
  "registered M \<Longrightarrow> M NormalErrorCode = None \<and> M UndefinedErrorCode = Some ErrUndefined \<and> (\<forall>c e. M c = Some e \<longrightarrow> Code e = c)"
proof (induction rule: registered.induct)
  case registered0
  then show ?case by (simp add: errorsMap0_def ErrUndefined_def NormalErrorCode_def UndefinedErrorCode_def)
next
  case (registeredS M code m err M')
  then show ?case by (auto simp: New_def Let_def split: if_splits)
qed

text \<open>
  The registry. A code is registered once: then it is looked up as it was registered, whatever is
  registered later, and registering it again panics. The code of dynamic errors cannot be
  registered, every lookup of a registered code gives an error of that code, and of another the error
  for undefined codes.
\<close>

theorem registry_spec:
  assumes "registered M" and "New code m M = Some (err, M')"
  shows "GetError code M' = err \<and> Code err = code \<and> Message err = m
     \<and> New code m' M' = None
     \<and> New NormalErrorCode m' M' = None
     \<and> (c \<noteq> code \<longrightarrow> GetError c M' = GetError c M)
     \<and> Code (GetError c M') = (if M' c = None then UndefinedErrorCode else c)
     \<and> (New c m' M' = Some (e, M'') \<longrightarrow> GetError code M'' = err)"
proof -
  have "registered M'" using assms by (rule registeredS)
  note inv = registered_inv [OF this]
  have M': "M' = M(code \<mapsto> err)" "err = Error code m None" "code \<noteq> NormalErrorCode" "M code = None"
    using assms(2) by (auto simp: New_def Let_def split: if_splits)
  have "Code (GetError c M') = (if M' c = None then UndefinedErrorCode else c)"
    using inv by (auto simp: GetError_def ErrUndefined_def split: option.split)
  moreover have "New c m' M' = Some (e, M'') \<longrightarrow> GetError code M'' = err"
    using M' by (auto simp: New_def GetError_def Let_def split: if_splits)
  ultimately show ?thesis using M' by (simp add: GetError_def New_def)
qed

theorem registry_spec_witness:
  "\<exists>M'. New 404 ''not found'' errorsMap0 = Some (Error 404 ''not found'' None, M') \<and> New 404 ''again'' M' = None"
proof -
  have n: "New 404 ''not found'' errorsMap0 = Some (Error 404 ''not found'' None, errorsMap0(404 \<mapsto> Error 404 ''not found'' None))"
    by (simp add: New_def errorsMap0_def NormalErrorCode_def UndefinedErrorCode_def Let_def)
  then show ?thesis using registry_spec [OF registered0 n] by blast
qed

text \<open>
  Chains. \<open>Error\<close> prints every link from the outside in, \<open>Cause\<close> is the innermost, and the standard
  \<open>errors.Is\<close> finds exactly the codes of the links. Wrapping and renaming leave the code, and so what the
  error is equal to, as it is; wrapping replaces the inner error there was.
\<close>

theorem error_chain:
  "error_string e = join ([CHR 0x0A, CHR '' ''] @ ''inner error: '') (map link_text (chain e))
   \<and> Cause e = last (chain e)
   \<and> (errors_Is e (Error c m i) \<longleftrightarrow> (\<exists>x\<in>set (chain e). \<exists>m' i'. x = Error c m' i'))
   \<and> chain (WithErr (Some inner) (Error c m i)) = Error c m (Some inner) # chain inner
   \<and> Cause (WithErr (Some inner) (Error c m i)) = Cause inner
   \<and> Unwrap (WithMessage msg (Error c m i)) = i
   \<and> Equal (WithErr err (WithMessage msg (Error c m i))) (Some (Error c' m' i')) = (c = c')"
proof (intro conjI)
  show "Cause (WithErr (Some inner) (Error c m i)) = Cause inner" by (cases inner) simp_all
  show "Equal (WithErr err (WithMessage msg (Error c m i))) (Some (Error c' m' i')) = (c = c')"
    by (cases err) (simp_all add: Equal_def)
qed (simp_all add: error_string_join Cause_last errors_Is_chain)

end
