(* ===== verification/Once.thy ===== *)
theory Once
  imports Prelude
begin

text \<open>
  \<open>bufferx/once.go\<close>: \<open>Once.Do\<close> and \<open>OncePointer.Do\<close>, which run a function once and keep its value. Goroutines
  call \<open>Do\<close>, each with a function of its own whose run gives a value or panics; the steps are the atomic
  load of the fast path, taking the mutex, the test under it, the run, the deferred store of \<open>done\<close>,
  the deferred unlock, and the read of the value. \<open>False\<close> marks a goroutine that is panicking.
\<close>

datatype 'v once_pc =
    FastTest | WantLock | SlowTest | RunF | StoreDone bool | Unlock bool | ReadV | Returned 'v | PanickedOut

text \<open>\<open>value\<close> is the zero value until \<open>o.v = f()\<close>; \<open>ran\<close> counts the runs of any function.\<close>

record 'v once_sys =
  is_done :: bool
  lock_of :: "nat option"
  kept :: 'v
  ran :: nat
  pc :: "nat \<Rightarrow> 'v once_pc"

text \<open>A function's run: \<open>None\<close> is a panic.\<close>

inductive once_step :: "(nat \<Rightarrow> 'v option) \<Rightarrow> 'v once_sys \<Rightarrow> 'v once_sys \<Rightarrow> bool" for f where
  fast_done: "pc s t = FastTest \<Longrightarrow> is_done s \<Longrightarrow> once_step f s (s\<lparr>pc := (pc s)(t := ReadV)\<rparr>)"
| fast_not: "pc s t = FastTest \<Longrightarrow> \<not> is_done s \<Longrightarrow> once_step f s (s\<lparr>pc := (pc s)(t := WantLock)\<rparr>)"
| take_lock: "pc s t = WantLock \<Longrightarrow> lock_of s = None \<Longrightarrow>
    once_step f s (s\<lparr>lock_of := Some t, pc := (pc s)(t := SlowTest)\<rparr>)"
| slow_done: "pc s t = SlowTest \<Longrightarrow> is_done s \<Longrightarrow> once_step f s (s\<lparr>pc := (pc s)(t := Unlock True)\<rparr>)"
| slow_not: "pc s t = SlowTest \<Longrightarrow> \<not> is_done s \<Longrightarrow> once_step f s (s\<lparr>pc := (pc s)(t := RunF)\<rparr>)"
| run_value: "pc s t = RunF \<Longrightarrow> f t = Some v \<Longrightarrow>
    once_step f s (s\<lparr>kept := v, ran := Suc (ran s), pc := (pc s)(t := StoreDone True)\<rparr>)"
| run_panic: "pc s t = RunF \<Longrightarrow> f t = None \<Longrightarrow>
    once_step f s (s\<lparr>ran := Suc (ran s), pc := (pc s)(t := StoreDone False)\<rparr>)"
| store_done: "pc s t = StoreDone ok \<Longrightarrow> once_step f s (s\<lparr>is_done := True, pc := (pc s)(t := Unlock ok)\<rparr>)"
| give_lock: "pc s t = Unlock ok \<Longrightarrow>
    once_step f s (s\<lparr>lock_of := None, pc := (pc s)(t := (if ok then ReadV else PanickedOut))\<rparr>)"
| read_value: "pc s t = ReadV \<Longrightarrow> once_step f s (s\<lparr>pc := (pc s)(t := Returned (kept s))\<rparr>)"

definition once_start :: "'v \<Rightarrow> 'v once_sys" where
  "once_start zero = \<lparr>is_done = False, lock_of = None, kept = zero, ran = 0, pc = (\<lambda>_. FastTest)\<rparr>"

section \<open>Facts\<close>

definition holds_lock :: "'v once_pc \<Rightarrow> bool" where
  "holds_lock p \<longleftrightarrow> p = SlowTest \<or> p = RunF \<or> (\<exists>ok. p = Unlock ok \<or> p = StoreDone ok)"

definition storing :: "'v once_sys \<Rightarrow> bool" where
  "storing s \<longleftrightarrow> (case lock_of s of None \<Rightarrow> False | Some t \<Rightarrow> \<exists>ok. pc s t = StoreDone ok)"

text \<open>
  The invariant: the lock is held by the one inside; a function has run exactly when the flag is set or
  about to be; nobody runs one when it is set; and what is read is what is kept for good.
\<close>

definition once_inv :: "(nat \<Rightarrow> 'v option) \<Rightarrow> 'v \<Rightarrow> 'v once_sys \<Rightarrow> bool" where
  "once_inv f zero s \<longleftrightarrow>
     (\<forall>t. holds_lock (pc s t) \<longleftrightarrow> lock_of s = Some t)
   \<and> ran s = (if is_done s \<or> storing s then 1 else 0)
   \<and> (\<forall>t. pc s t = RunF \<or> (\<exists>ok. pc s t = StoreDone ok) \<longrightarrow> \<not> is_done s)
   \<and> (\<forall>t. pc s t = ReadV \<or> (\<exists>ok. pc s t = Unlock ok) \<or> (\<exists>v. pc s t = Returned v) \<or> pc s t = PanickedOut \<longrightarrow> is_done s)
   \<and> (\<forall>t v. pc s t = Returned v \<longrightarrow> v = kept s)
   \<and> (if ran s = 0 then kept s = zero else (\<exists>t. f t = Some (kept s)) \<or> kept s = zero \<and> (\<exists>t. f t = None))"

lemmas once_defs = once_inv_def holds_lock_def storing_def

lemma once_inv_start: "once_inv f zero (once_start zero)"
  by (simp add: once_inv_def once_start_def holds_lock_def storing_def)

lemma lock_iff: "once_inv f zero s \<Longrightarrow> lock_of s = Some t \<longleftrightarrow> holds_lock (pc s t)"
  by (simp add: once_inv_def)

lemma once_inv_step:
  assumes "once_step f s s'" and inv: "once_inv f zero s"
  shows "once_inv f zero s'"
  using assms(1)
proof cases
  case (fast_done t)
  with lock_iff [OF inv, of t] inv show ?thesis by (auto simp: once_defs split: option.splits if_splits)
next
  case (fast_not t)
  with lock_iff [OF inv, of t] inv show ?thesis by (auto simp: once_defs split: option.splits if_splits)
next
  case (take_lock t)
  with lock_iff [OF inv, of t] inv show ?thesis by (auto simp: once_defs split: option.splits if_splits)
next
  case (slow_done t)
  with lock_iff [OF inv, of t] inv show ?thesis by (auto simp: once_defs split: option.splits if_splits)
next
  case (slow_not t)
  with lock_iff [OF inv, of t] inv show ?thesis by (auto simp: once_defs split: option.splits if_splits)
next
  case (run_value t v)
  with lock_iff [OF inv, of t] inv show ?thesis by (auto simp: once_defs split: option.splits if_splits)
next
  case (run_panic t)
  with lock_iff [OF inv, of t] inv show ?thesis by (auto simp: once_defs split: option.splits if_splits)
next
  case (store_done t ok)
  with lock_iff [OF inv, of t] inv show ?thesis by (auto simp: once_defs split: option.splits if_splits)
next
  case (give_lock t ok)
  with lock_iff [OF inv, of t] inv show ?thesis by (auto simp: once_defs split: option.splits if_splits)
next
  case (read_value t)
  with lock_iff [OF inv, of t] inv show ?thesis by (auto simp: once_defs split: option.splits if_splits)
qed

text \<open>
  C12. However the calls of \<open>Do\<close> interleave, at most one function runs, none runs while another could, and
  every call that returns gives the same value: the value of the function that ran, or the zero value
  when that one panicked, and then only its own caller sees the panic.
\<close>

theorem once_runs_once:
  assumes "(once_step f)\<^sup>*\<^sup>* (once_start zero) s"
  shows "ran s \<le> 1
     \<and> (pc s t = Returned v \<longrightarrow> ran s = 1 \<and> v = kept s \<and> ((\<exists>u. f u = Some v) \<or> v = zero \<and> (\<exists>u. f u = None)))
     \<and> (pc s t = Returned v \<and> pc s u = Returned w \<longrightarrow> v = w)
     \<and> (pc s t = RunF \<and> pc s u = RunF \<longrightarrow> t = u)"
proof -
  have inv: "once_inv f zero s"
    using assms by induction (blast intro: once_inv_start once_inv_step)+
  then have "ran s \<le> 1" "pc s t = Returned v \<Longrightarrow> ran s = 1 \<and> v = kept s" for t v
    by (auto simp: once_inv_def split: if_splits)
  moreover have "(\<exists>u. f u = Some (kept s)) \<or> kept s = zero \<and> (\<exists>u. f u = None)" if "ran s = 1"
    using inv that by (simp add: once_inv_def)
  moreover have "pc s t = RunF \<Longrightarrow> lock_of s = Some t" for t
    using lock_iff [OF inv, of t] by (simp add: holds_lock_def)
  ultimately show ?thesis by (metis option.inject)
qed

theorem once_runs_once_witness:
  "\<exists>s. (once_step (\<lambda>_. Some (5 :: int)))\<^sup>*\<^sup>* (once_start 0) s \<and> pc s 0 = Returned 5 \<and> ran s = 1"
proof -
  let ?f = "\<lambda>_ :: nat. Some (5 :: int)" and ?s0 = "once_start 0 :: int once_sys"
  let ?at = "\<lambda>s p. s\<lparr>pc := (\<lambda>_. FastTest)(0 := p)\<rparr> :: int once_sys"
  let ?l = "?s0\<lparr>lock_of := Some 0\<rparr>" and ?r = "?s0\<lparr>lock_of := Some 0, kept := 5, ran := 1\<rparr>"
  let ?d = "?s0\<lparr>is_done := True, kept := 5, ran := 1\<rparr>"
  note d = once_start_def
  have "once_step ?f ?s0 (?at ?s0 WantLock)" using fast_not [of ?s0 0 ?f] by (simp add: d)
  moreover have "once_step ?f (?at ?s0 WantLock) (?at ?l SlowTest)" using take_lock [of "?at ?s0 WantLock" 0 ?f] by (simp add: d)
  moreover have "once_step ?f (?at ?l SlowTest) (?at ?l RunF)" using slow_not [of "?at ?l SlowTest" 0 ?f] by (simp add: d)
  moreover have "once_step ?f (?at ?l RunF) (?at ?r (StoreDone True))" using run_value [of "?at ?l RunF" 0 ?f 5] by (simp add: d)
  moreover have "once_step ?f (?at ?r (StoreDone True)) (?at (?r\<lparr>is_done := True\<rparr>) (Unlock True))"
    using store_done [of "?at ?r (StoreDone True)" 0 True ?f] by (simp add: d)
  moreover have "once_step ?f (?at (?r\<lparr>is_done := True\<rparr>) (Unlock True)) (?at ?d ReadV)"
    using give_lock [of "?at (?r\<lparr>is_done := True\<rparr>) (Unlock True)" 0 True ?f] by (simp add: d)
  moreover have "once_step ?f (?at ?d ReadV) (?at ?d (Returned 5))" using read_value [of "?at ?d ReadV" 0 ?f] by (simp add: d)
  ultimately have run: "(once_step ?f)\<^sup>*\<^sup>* ?s0 (?at ?d (Returned 5))"
    by (meson converse_rtranclp_into_rtranclp rtranclp.rtrancl_refl)
  have "pc (?at ?d (Returned 5)) 0 = Returned 5" by simp
  with once_runs_once [OF run, of 0 5] run show ?thesis by blast
qed

end
