(* ===== verification/Kafka.thy ===== *)
theory Kafka
  imports Go_Strings
begin

text \<open>
  The package \<open>kafkax\<close>: the configuration and what it says of SASL and TLS, messages, the configuration of a
  reader, pushing with retries, the consumer with its commits, the registry of consumers, and the
  preview of a topic. The library \<open>kafka-go\<close> is not under \<open>src\<close>: its answers are arguments.
\<close>

section \<open>Configuration\<close>

record KafkaConfig =
  kf_BootstrapServers :: "string list"
  kf_GroupID :: string
  kf_Topics :: "string list"
  kf_SecurityProtocol :: string
  kf_SaslMechanism :: string
  kf_SaslUsername :: string
  kf_SaslPassword :: string
  kf_TLSCAFile :: string
  kf_TLSCertFile :: string
  kf_TLSKeyFile :: string
  kf_TLSServerName :: string
  kf_TLSInsecureSkipVerify :: bool
  kf_MaxAttempts :: int
  kf_RetryWaitTime :: int

definition normalizedSecurityProtocol :: "KafkaConfig \<Rightarrow> string" where
  "normalizedSecurityProtocol c = replace_char (CHR ''-'') ''_'' (to_upper (trim_space (kf_SecurityProtocol c)))"

definition securityProtocol :: "KafkaConfig \<Rightarrow> string" where
  "securityProtocol c =
     (let protocol = normalizedSecurityProtocol c in if protocol = [] then ''PLAINTEXT'' else protocol)"

definition saslMechanismName :: "KafkaConfig \<Rightarrow> string" where
  "saslMechanismName c = replace_char (CHR ''_'') ''-'' (to_upper (trim_space (kf_SaslMechanism c)))"

definition kafka_DefaultRetryTimes :: int where "kafka_DefaultRetryTimes = 3"
definition kafka_DefaultRetryWaitTime :: int where "kafka_DefaultRetryWaitTime = 2"

text \<open>\<open>None\<close> stands for a nil configuration.\<close>

definition kafka_Validate :: "KafkaConfig option \<Rightarrow> string option \<times> KafkaConfig option" where
  "kafka_Validate cfg =
     (case cfg of
        None \<Rightarrow> (Some ''kafka config is nil'', None)
      | Some c \<Rightarrow>
          if kf_BootstrapServers c = [] then (Some ''bootstrap_servers is empty'', Some c)
          else if securityProtocol c \<notin> {''NONE'', ''PLAINTEXT'', ''SSL'', ''SASL_PLAINTEXT'', ''SASL_SSL''} then
            (Some (''unsupported security_protocol '' @ quoted (kf_SecurityProtocol c)), Some c)
          else
            let c1 = (if kf_MaxAttempts c = 0 then c\<lparr>kf_MaxAttempts := kafka_DefaultRetryTimes\<rparr> else c);
                c2 = (if kf_RetryWaitTime c1 = 0 then c1\<lparr>kf_RetryWaitTime := kafka_DefaultRetryWaitTime\<rparr> else c1)
            in (None, Some c2))"

definition usesSASL :: "KafkaConfig \<Rightarrow> bool" where
  "usesSASL c =
     (let rawProtocol = normalizedSecurityProtocol c in
      if rawProtocol = ''NONE'' \<or> rawProtocol = ''PLAINTEXT'' then False
      else let protocol = securityProtocol c in
        protocol = ''SASL_PLAINTEXT'' \<or> protocol = ''SASL_SSL'' \<or> saslMechanismName c \<noteq> [])"

definition usesTLS :: "KafkaConfig \<Rightarrow> bool" where
  "usesTLS c =
     (let rawProtocol = normalizedSecurityProtocol c in
      if rawProtocol = ''NONE'' \<or> rawProtocol = ''PLAINTEXT'' then False
      else let protocol = securityProtocol c in
        protocol = ''SSL'' \<or> protocol = ''SASL_SSL'' \<or> kf_TLSCAFile c \<noteq> [] \<or> kf_TLSCertFile c \<noteq> []
        \<or> kf_TLSKeyFile c \<noteq> [] \<or> kf_TLSServerName c \<noteq> [])"

text \<open>A mechanism of the library, with the credentials; the library may refuse those of SCRAM.\<close>

datatype sasl = Plain string string | ScramSHA256 string string | ScramSHA512 string string

definition getSASLMechanism :: "(sasl \<Rightarrow> string option) \<Rightarrow> KafkaConfig \<Rightarrow> string + sasl option" where
  "getSASLMechanism scram c =
     (let accept = (\<lambda>m. case scram m of Some e \<Rightarrow> Inl e | None \<Rightarrow> Inr (Some m));
          name = saslMechanismName c in
      if \<not> usesSASL c then Inr None
      else if name = [] then Inl ''sasl_mechanism is required when SASL is enabled''
      else if name = ''PLAIN'' then Inr (Some (Plain (kf_SaslUsername c) (kf_SaslPassword c)))
      else if name = ''SCRAM-SHA-256'' then accept (ScramSHA256 (kf_SaslUsername c) (kf_SaslPassword c))
      else if name = ''SCRAM-SHA-512'' then accept (ScramSHA512 (kf_SaslUsername c) (kf_SaslPassword c))
      else if name = ''GSSAPI'' \<or> name = ''KERBEROS'' then
        Inl ''SASL GSSAPI/Kerberos is not implemented by kafkax config; pass a kafka-go sasl.Mechanism with WithSASLMechanism''
      else Inl (''unsupported sasl_mechanism '' @ quoted (kf_SaslMechanism c)))"

text \<open>What a TLS configuration takes from the files; reading and parsing them is the library's.\<close>

record tls_config =
  tls_ServerName :: string
  tls_InsecureSkipVerify :: bool
  tls_RootCAs :: "string option"
  tls_Certificate :: "(string \<times> string) option"

record tls_files =
  read_file :: "string \<Rightarrow> string + string"
  has_pem :: "string \<Rightarrow> bool"
  key_pair_error :: "string \<Rightarrow> string \<Rightarrow> string option"

definition tlsConfig :: "tls_files \<Rightarrow> KafkaConfig \<Rightarrow> string + tls_config option" where
  "tlsConfig files c =
     (if \<not> usesTLS c then Inr None
      else
        let t0 = \<lparr>tls_ServerName = kf_TLSServerName c, tls_InsecureSkipVerify = kf_TLSInsecureSkipVerify c,
                  tls_RootCAs = None, tls_Certificate = None\<rparr>;
            ca = (if kf_TLSCAFile c \<noteq> [] then
                    (case read_file files (kf_TLSCAFile c) of
                       Inl e \<Rightarrow> Inl (''read tls_ca_file failed: '' @ e)
                     | Inr pem \<Rightarrow> if \<not> has_pem files pem then Inl ''tls_ca_file does not contain any PEM certificates''
                                else Inr (t0\<lparr>tls_RootCAs := Some pem\<rparr>))
                  else Inr t0)
        in case ca of
             Inl e \<Rightarrow> Inl e
           | Inr t \<Rightarrow>
               if kf_TLSCertFile c \<noteq> [] \<or> kf_TLSKeyFile c \<noteq> [] then
                 (if kf_TLSCertFile c = [] \<or> kf_TLSKeyFile c = [] then
                    Inl ''tls_cert_file and tls_key_file must be configured together''
                  else case key_pair_error files (kf_TLSCertFile c) (kf_TLSKeyFile c) of
                    Some e \<Rightarrow> Inl (''load tls client certificate failed: '' @ e)
                  | None \<Rightarrow> Inr (Some (t\<lparr>tls_Certificate := Some (kf_TLSCertFile c, kf_TLSKeyFile c)\<rparr>)))
               else Inr (Some t))"

section \<open>Options and messages\<close>

text \<open>Durations in nanoseconds; a mechanism or a TLS configuration of the caller is the custom one.\<close>

record KafkaConnConfig =
  ko_MaxAttempts :: int
  ko_RetryWaitTime :: int
  ko_BatchSize :: int
  ko_BatchTimeout :: int
  ko_ReadTimeout :: int
  ko_WriteTimeout :: int
  ko_CommitInterval :: int
  ko_MinBytes :: int
  ko_MaxBytes :: int
  ko_customSASLMechanism :: "sasl option"
  ko_customTLSConfig :: "tls_config option"

definition kafka_DefaultConfig :: KafkaConnConfig where
  "kafka_DefaultConfig = \<lparr>ko_MaxAttempts = 3, ko_RetryWaitTime = 2 * 10 ^ 9, ko_BatchSize = 100, ko_BatchTimeout = 10 ^ 9,
     ko_ReadTimeout = 10 * 10 ^ 9, ko_WriteTimeout = 10 * 10 ^ 9, ko_CommitInterval = 10 ^ 9, ko_MinBytes = 1,
     ko_MaxBytes = 10 * 1024 * 1024, ko_customSASLMechanism = None, ko_customTLSConfig = None\<rparr>"

definition kafka_WithMaxAttempts :: "int \<Rightarrow> KafkaConnConfig \<Rightarrow> KafkaConnConfig" where
  "kafka_WithMaxAttempts n c = c\<lparr>ko_MaxAttempts := n\<rparr>"

definition kafka_WithRetryWaitTime :: "int \<Rightarrow> KafkaConnConfig \<Rightarrow> KafkaConnConfig" where
  "kafka_WithRetryWaitTime n c = c\<lparr>ko_RetryWaitTime := n\<rparr>"

definition kafka_WithBatchSize :: "int \<Rightarrow> KafkaConnConfig \<Rightarrow> KafkaConnConfig" where
  "kafka_WithBatchSize n c = c\<lparr>ko_BatchSize := n\<rparr>"

definition kafka_WithBatchTimeout :: "int \<Rightarrow> KafkaConnConfig \<Rightarrow> KafkaConnConfig" where
  "kafka_WithBatchTimeout n c = c\<lparr>ko_BatchTimeout := n\<rparr>"

definition kafka_WithReadTimeout :: "int \<Rightarrow> KafkaConnConfig \<Rightarrow> KafkaConnConfig" where
  "kafka_WithReadTimeout n c = c\<lparr>ko_ReadTimeout := n\<rparr>"

definition kafka_WithWriteTimeout :: "int \<Rightarrow> KafkaConnConfig \<Rightarrow> KafkaConnConfig" where
  "kafka_WithWriteTimeout n c = c\<lparr>ko_WriteTimeout := n\<rparr>"

definition kafka_WithCommitInterval :: "int \<Rightarrow> KafkaConnConfig \<Rightarrow> KafkaConnConfig" where
  "kafka_WithCommitInterval n c = c\<lparr>ko_CommitInterval := n\<rparr>"

definition kafka_WithMinBytes :: "int \<Rightarrow> KafkaConnConfig \<Rightarrow> KafkaConnConfig" where
  "kafka_WithMinBytes n c = c\<lparr>ko_MinBytes := n\<rparr>"

definition kafka_WithMaxBytes :: "int \<Rightarrow> KafkaConnConfig \<Rightarrow> KafkaConnConfig" where
  "kafka_WithMaxBytes n c = c\<lparr>ko_MaxBytes := n\<rparr>"

definition kafka_WithSASLMechanism :: "sasl option \<Rightarrow> KafkaConnConfig \<Rightarrow> KafkaConnConfig" where
  "kafka_WithSASLMechanism m c = c\<lparr>ko_customSASLMechanism := m\<rparr>"

definition kafka_WithTLSConfig :: "tls_config option \<Rightarrow> KafkaConnConfig \<Rightarrow> KafkaConnConfig" where
  "kafka_WithTLSConfig t c = c\<lparr>ko_customTLSConfig := t\<rparr>"

record ProduceMessage =
  pm_Topic :: string
  pm_Key :: string
  pm_Value :: string
  pm_Headers :: "(string \<times> string) list"

definition pm_SetTopic :: "string \<Rightarrow> ProduceMessage \<Rightarrow> ProduceMessage" where
  "pm_SetTopic topic m = m\<lparr>pm_Topic := topic\<rparr>"

definition pm_SetKey :: "string \<Rightarrow> ProduceMessage \<Rightarrow> ProduceMessage" where
  "pm_SetKey key m = m\<lparr>pm_Key := key\<rparr>"

definition pm_SetValue :: "string \<Rightarrow> ProduceMessage \<Rightarrow> ProduceMessage" where
  "pm_SetValue v m = m\<lparr>pm_Value := v\<rparr>"

definition pm_AddHeader :: "string \<Rightarrow> string \<Rightarrow> ProduceMessage \<Rightarrow> ProduceMessage" where
  "pm_AddHeader key v m = m\<lparr>pm_Headers := pm_Headers m @ [(key, v)]\<rparr>"

record KafkaMessage =
  km_Topic :: string
  km_Key :: string
  km_Value :: string
  km_Headers :: "(string \<times> string) list"
  km_Partition :: int
  km_Offset :: int

definition toKafkaMessage :: "ProduceMessage \<Rightarrow> KafkaMessage" where
  "toKafkaMessage m = \<lparr>km_Topic = [], km_Key = pm_Key m, km_Value = pm_Value m, km_Headers = pm_Headers m, km_Partition = 0, km_Offset = 0\<rparr>"

record ConsumeConfig =
  kc_Topic :: string
  kc_GroupID :: string
  kc_Partition :: int
  kc_StartOffset :: int
  kc_MinBytes :: int
  kc_MaxBytes :: int
  kc_MaxWait :: int
  kc_CommitInterval :: int

definition kc_SetTopic :: "string \<Rightarrow> ConsumeConfig \<Rightarrow> ConsumeConfig" where
  "kc_SetTopic v c = c\<lparr>kc_Topic := v\<rparr>"

definition kc_SetGroupID :: "string \<Rightarrow> ConsumeConfig \<Rightarrow> ConsumeConfig" where
  "kc_SetGroupID v c = c\<lparr>kc_GroupID := v\<rparr>"

definition kc_SetPartition :: "int \<Rightarrow> ConsumeConfig \<Rightarrow> ConsumeConfig" where
  "kc_SetPartition v c = c\<lparr>kc_Partition := v\<rparr>"

definition kc_SetStartOffset :: "int \<Rightarrow> ConsumeConfig \<Rightarrow> ConsumeConfig" where
  "kc_SetStartOffset v c = c\<lparr>kc_StartOffset := v\<rparr>"

definition kc_SetMinBytes :: "int \<Rightarrow> ConsumeConfig \<Rightarrow> ConsumeConfig" where
  "kc_SetMinBytes v c = c\<lparr>kc_MinBytes := v\<rparr>"

definition kc_SetMaxBytes :: "int \<Rightarrow> ConsumeConfig \<Rightarrow> ConsumeConfig" where
  "kc_SetMaxBytes v c = c\<lparr>kc_MaxBytes := v\<rparr>"

definition kc_SetMaxWait :: "int \<Rightarrow> ConsumeConfig \<Rightarrow> ConsumeConfig" where
  "kc_SetMaxWait v c = c\<lparr>kc_MaxWait := v\<rparr>"

definition kc_SetCommitInterval :: "int \<Rightarrow> ConsumeConfig \<Rightarrow> ConsumeConfig" where
  "kc_SetCommitInterval v c = c\<lparr>kc_CommitInterval := v\<rparr>"

text \<open>
  The operator: a mechanism or a TLS configuration of the caller goes before those of the configuration.
  What reading files, parsing them and checking credentials gives is the library's.
\<close>

record kafka_env =
  ke_files :: tls_files
  ke_scram :: "sasl \<Rightarrow> string option"

definition op_saslMechanism :: "kafka_env \<Rightarrow> KafkaConfig \<Rightarrow> KafkaConnConfig \<Rightarrow> string + sasl option" where
  "op_saslMechanism env cfg conn =
     (case ko_customSASLMechanism conn of
        Some m \<Rightarrow> Inr (Some m)
      | None \<Rightarrow> getSASLMechanism (ke_scram env) cfg)"

definition op_tlsConfig :: "kafka_env \<Rightarrow> KafkaConfig \<Rightarrow> KafkaConnConfig \<Rightarrow> string + tls_config option" where
  "op_tlsConfig env cfg conn =
     (case ko_customTLSConfig conn of
        Some t \<Rightarrow> Inr (Some t)
      | None \<Rightarrow> tlsConfig (ke_files env) cfg)"

definition buildDialer :: "kafka_env \<Rightarrow> KafkaConfig \<Rightarrow> KafkaConnConfig \<Rightarrow> string + (sasl option \<times> tls_config option)" where
  "buildDialer env cfg conn =
     (case op_saslMechanism env cfg conn of
        Inl e \<Rightarrow> Inl (''create SASL mechanism failed: '' @ e)
      | Inr m \<Rightarrow>
          (case op_tlsConfig env cfg conn of
             Inl e \<Rightarrow> Inl (''create TLS config failed: '' @ e)
           | Inr t \<Rightarrow> Inr (m, t)))"

text \<open>\<open>buildTransport\<close> has the same two parts; an absent part leaves the transport's field unset.\<close>

definition buildTransport :: "kafka_env \<Rightarrow> KafkaConfig \<Rightarrow> KafkaConnConfig \<Rightarrow> string + (sasl option \<times> tls_config option)" where
  "buildTransport env cfg conn =
     (case op_saslMechanism env cfg conn of
        Inl e \<Rightarrow> Inl (''create SASL mechanism failed: '' @ e)
      | Inr m \<Rightarrow>
          (case op_tlsConfig env cfg conn of
             Inl e \<Rightarrow> Inl (''create TLS config failed: '' @ e)
           | Inr t \<Rightarrow> Inr (m, t)))"

text \<open>The connection attempt of \<open>dial\<close> answers with an error or none; \<open>ping\<close> closes what it got.\<close>

definition kafka_ping ::
  "kafka_env \<Rightarrow> (sasl option \<times> tls_config option \<Rightarrow> string \<Rightarrow> string option) \<Rightarrow> KafkaConfig \<Rightarrow> KafkaConnConfig \<Rightarrow> string option" where
  "kafka_ping env dial cfg conn =
     (case buildDialer env cfg conn of
        Inl e \<Rightarrow> Some (''dial kafka broker failed: '' @ e)
      | Inr d \<Rightarrow> map_option (\<lambda>e. ''dial kafka broker failed: '' @ e) (dial d (hd (kf_BootstrapServers cfg))))"

text \<open>\<open>NewKafkaOperator\<close>: the options apply in order to the default configuration.\<close>

definition NewKafkaOperator ::
  "kafka_env \<Rightarrow> (sasl option \<times> tls_config option \<Rightarrow> string \<Rightarrow> string option) \<Rightarrow> KafkaConfig option
     \<Rightarrow> (KafkaConnConfig \<Rightarrow> KafkaConnConfig) list \<Rightarrow> string + (KafkaConfig \<times> KafkaConnConfig \<times> (sasl option \<times> tls_config option))" where
  "NewKafkaOperator env dial config opts =
     (case kafka_Validate config of
        (Some e, _) \<Rightarrow> Inl e
      | (None, None) \<Rightarrow> Inl ''kafka config is nil''
      | (None, Some cfg) \<Rightarrow>
          let conn = fold (\<lambda>opt c. opt c) opts kafka_DefaultConfig in
          case buildTransport env cfg conn of
            Inl e \<Rightarrow> Inl (''build kafka transport failed: '' @ e)
          | Inr t \<Rightarrow>
              (case kafka_ping env dial cfg conn of
                 Some e \<Rightarrow> Inl (''kafka connection ping failed: '' @ e)
               | None \<Rightarrow> Inr (cfg, conn, t)))"

text \<open>The writer of a topic: what \<open>getWriter\<close> asks of the library, always for the acknowledgement of all replicas.\<close>

datatype required_acks = RequireNone | RequireOne | RequireAll

record WriterConfig =
  wr_Addr :: "string list"
  wr_Topic :: string
  wr_RequiredAcks :: required_acks
  wr_MaxAttempts :: int
  wr_BatchSize :: int
  wr_BatchTimeout :: int
  wr_WriteTimeout :: int
  wr_ReadTimeout :: int

definition getWriter :: "KafkaConfig \<Rightarrow> KafkaConnConfig \<Rightarrow> string \<Rightarrow> (string \<rightharpoonup> WriterConfig) \<Rightarrow> WriterConfig \<times> (string \<rightharpoonup> WriterConfig)" where
  "getWriter cfg conn topic writers =
     (case writers topic of
        Some w \<Rightarrow> (w, writers)
      | None \<Rightarrow>
          let w = \<lparr>wr_Addr = kf_BootstrapServers cfg, wr_Topic = topic, wr_RequiredAcks = RequireAll,
                   wr_MaxAttempts = ko_MaxAttempts conn, wr_BatchSize = ko_BatchSize conn, wr_BatchTimeout = ko_BatchTimeout conn,
                   wr_WriteTimeout = ko_WriteTimeout conn, wr_ReadTimeout = ko_ReadTimeout conn\<rparr>
          in (w, writers(topic \<mapsto> w)))"

text \<open>What \<open>getReader\<close> asks of the library.\<close>

record ReaderConfig =
  rd_Brokers :: "string list"
  rd_Topic :: string
  rd_GroupID :: string
  rd_MinBytes :: int
  rd_MaxBytes :: int
  rd_MaxWait :: int
  rd_CommitInterval :: int
  rd_StartOffset :: int
  rd_Partition :: int

definition reader_config :: "KafkaConfig \<Rightarrow> KafkaConnConfig \<Rightarrow> ConsumeConfig \<Rightarrow> ReaderConfig" where
  "reader_config cfg conn c =
     \<lparr>rd_Brokers = kf_BootstrapServers cfg,
      rd_Topic = kc_Topic c,
      rd_GroupID = (if kc_GroupID c \<noteq> [] then kc_GroupID c else if kf_GroupID cfg \<noteq> [] then kf_GroupID cfg else []),
      rd_MinBytes = (if kc_MinBytes c > 0 then kc_MinBytes c else ko_MinBytes conn),
      rd_MaxBytes = (if kc_MaxBytes c > 0 then kc_MaxBytes c else ko_MaxBytes conn),
      rd_MaxWait = (if kc_MaxWait c > 0 then kc_MaxWait c else 0),
      rd_CommitInterval = (if kc_CommitInterval c > 0 then kc_CommitInterval c else ko_CommitInterval conn),
      rd_StartOffset = (if kc_StartOffset c \<noteq> 0 then kc_StartOffset c else 0),
      rd_Partition = (if kc_Partition c > 0 \<and> kc_GroupID c = [] then kc_Partition c else 0)\<rparr>"

section \<open>Pushing\<close>

text \<open>
  Attempt \<open>i\<close>: whether the operator is closed, what the writer answers, and what the \<open>select\<close> after a failure
  receives. \<open>Inr\<close> of the last error is the message of the final error.
\<close>

datatype push_wait = WaitClosed | WaitDone string | WaitAfter

fun push_batch_loop :: "(nat \<Rightarrow> bool) \<Rightarrow> (nat \<Rightarrow> string option) \<Rightarrow> (nat \<Rightarrow> push_wait) \<Rightarrow> nat \<Rightarrow> nat \<Rightarrow> string option \<Rightarrow> (string, string) sum option" where
  "push_batch_loop closed_at write wait i 0 err = (case err of None \<Rightarrow> Some (Inl ''kafka panic: runtime error: invalid memory address or nil pointer dereference'') | Some e \<Rightarrow> Some (Inr e))"
| "push_batch_loop closed_at write wait i (Suc n) err =
     (if closed_at i then Some (Inl ''kafka operator is closed'')
      else case write i of
        None \<Rightarrow> None
      | Some e \<Rightarrow>
          (case wait i of
             WaitClosed \<Rightarrow> Some (Inl ''kafka operator closed during push'')
           | WaitDone ctx_err \<Rightarrow> Some (Inl ctx_err)
           | WaitAfter \<Rightarrow> push_batch_loop closed_at write wait (Suc i) n (Some e)))"

text \<open>
  The result is \<open>None\<close> for success; the writer of the topic gets all the messages in every attempt. An
  operator with no attempts left and no error yet dereferences a nil error, which is recovered.
\<close>

definition PushBatch ::
  "KafkaConfig \<Rightarrow> bool \<Rightarrow> (nat \<Rightarrow> bool) \<Rightarrow> (nat \<Rightarrow> string option) \<Rightarrow> (nat \<Rightarrow> push_wait) \<Rightarrow> string \<Rightarrow> ProduceMessage list
     \<Rightarrow> string option \<times> (string \<times> KafkaMessage list) option" where
  "PushBatch cfg closed0 closed_at write wait topic0 messages =
     (let topic = (if topic0 = [] \<and> messages \<noteq> [] then pm_Topic (hd messages) else topic0) in
      if closed0 then (Some ''kafka operator is closed'', None)
      else if topic = [] then (Some ''topic is required'', None)
      else
        case find (\<lambda>m. pm_Topic m \<noteq> [] \<and> pm_Topic m \<noteq> topic) messages of
          Some m \<Rightarrow> (Some (''message topic '' @ quoted (pm_Topic m) @ '' does not match batch topic '' @ quoted topic), None)
        | None \<Rightarrow>
            (case push_batch_loop closed_at write wait 0 (nat (kf_MaxAttempts cfg)) None of
               None \<Rightarrow> None
             | Some (Inl e) \<Rightarrow> Some e
             | Some (Inr e) \<Rightarrow> Some (''push failed after '' @ itoa (kf_MaxAttempts cfg) @ '' retries: '' @ e),
             Some (topic, map toKafkaMessage messages)))"

definition kafka_Push where
  "kafka_Push cfg closed0 closed_at write wait msg =
     (case msg of
        None \<Rightarrow> (Some ''message is nil'', None)
      | Some m \<Rightarrow> PushBatch cfg closed0 closed_at write wait (pm_Topic m) [m])"

section \<open>Consuming\<close>

text \<open>
  The goroutine of \<open>consume\<close>. The reader yields the messages of \<open>klog\<close> in order. \<open>KSignal\<close> is a \<open>select\<close> that
  finds the operator closed or the consumer cancelled; the loop's head tests the same.
\<close>

datatype kphase = KFetching | KPausing | KHanding KafkaMessage | KExited

datatype kevent = KFetched | KFetchFailed | KSignal | KAfter | KTaken | KClose | KCancel

record kconsumer =
  kphase :: kphase
  klog :: "KafkaMessage list"
  khanded :: "KafkaMessage list"
  kcommits :: "KafkaMessage list"
  kclosed :: bool
  kcancelled :: bool
  kregistered :: bool

text \<open>\<open>committer\<close>: without a group committing does nothing.\<close>

definition kcommit :: "string \<Rightarrow> bool \<Rightarrow> KafkaMessage \<Rightarrow> kconsumer \<Rightarrow> kconsumer" where
  "kcommit groupID autoCommit m c = (if autoCommit \<and> groupID \<noteq> [] then c\<lparr>kcommits := kcommits c @ [m]\<rparr> else c)"

definition kexit :: "kconsumer \<Rightarrow> kconsumer" where
  "kexit c = c\<lparr>kphase := KExited, kregistered := False\<rparr>"

definition khead :: "kconsumer \<Rightarrow> kconsumer" where
  "khead c = (if kclosed c \<or> kcancelled c then kexit c else c\<lparr>kphase := KFetching\<rparr>)"

definition kstep :: "string \<Rightarrow> bool \<Rightarrow> kevent \<Rightarrow> kconsumer \<Rightarrow> kconsumer" where
  "kstep groupID autoCommit ev c =
     (case ev of
        KClose \<Rightarrow> c\<lparr>kclosed := True\<rparr>
      | KCancel \<Rightarrow> c\<lparr>kcancelled := True\<rparr>
      | _ \<Rightarrow>
        (case (kphase c, ev) of
           (KFetching, KFetched) \<Rightarrow>
             (case klog c of
                [] \<Rightarrow> c
              | m # ms \<Rightarrow>
                  let c1 = c\<lparr>klog := ms\<rparr> in
                  if km_Value m = [] then khead (kcommit groupID autoCommit m c1)
                  else c1\<lparr>kphase := KHanding m\<rparr>)
         | (KFetching, KFetchFailed) \<Rightarrow> if kclosed c then kexit c else c\<lparr>kphase := KPausing\<rparr>
         | (KPausing, KSignal) \<Rightarrow> if kclosed c \<or> kcancelled c then kexit c else c
         | (KPausing, KAfter) \<Rightarrow> khead c
         | (KHanding m, KTaken) \<Rightarrow> khead (kcommit groupID autoCommit m (c\<lparr>khanded := khanded c @ [m]\<rparr>))
         | (KHanding m, KSignal) \<Rightarrow> if kclosed c \<or> kcancelled c then kexit c else c
         | _ \<Rightarrow> c))"

definition kstart :: "KafkaMessage list \<Rightarrow> kconsumer" where
  "kstart ms = \<lparr>kphase = KFetching, klog = ms, khanded = [], kcommits = [], kclosed = False, kcancelled = False, kregistered = True\<rparr>"

text \<open>\<open>ConsumeWithHandler\<close>: the handler's verdict on each message, and what is committed.\<close>

definition handler_commits :: "(KafkaMessage \<Rightarrow> bool) \<Rightarrow> KafkaMessage list \<Rightarrow> KafkaMessage list" where
  "handler_commits handled msgs = fold (\<lambda>msg commits. if handled msg then commits @ [msg] else commits) msgs []"

text \<open>The position of a group at the broker: a commit stands for all smaller offsets.\<close>

definition group_position :: "KafkaMessage list \<Rightarrow> int" where
  "group_position commits = fold (\<lambda>m p. max p (km_Offset m + 1)) commits 0"

subsection \<open>The registry\<close>

record kregistry =
  kcancel :: "string \<rightharpoonup> nat"
  kclosed_chans :: "nat set"
  kreaders :: "string \<rightharpoonup> ReaderConfig"
  kmade :: nat

definition consumer_key :: "string \<Rightarrow> string \<Rightarrow> string" where
  "consumer_key topic groupID = topic @ '':'' @ groupID"

text \<open>
  \<open>getReader\<close>: the reader of the key, or a new one. \<open>NewReader\<close> of the library panics when both a group and a
  partition are set: \<open>None\<close>.
\<close>

definition getReader ::
  "kafka_env \<Rightarrow> KafkaConfig \<Rightarrow> KafkaConnConfig \<Rightarrow> ConsumeConfig \<Rightarrow> (string \<rightharpoonup> ReaderConfig)
     \<Rightarrow> (string + ReaderConfig \<times> (string \<rightharpoonup> ReaderConfig)) option" where
  "getReader env cfg conn c readers =
     (let key = consumer_key (kc_Topic c) (kc_GroupID c) in
      case readers key of
        Some rd \<Rightarrow> Some (Inr (rd, readers))
      | None \<Rightarrow>
          (case buildDialer env cfg conn of
             Inl e \<Rightarrow> Some (Inl e)
           | Inr _ \<Rightarrow>
               let rc = reader_config cfg conn c in
               if rd_GroupID rc \<noteq> [] \<and> rd_Partition rc \<noteq> 0 then None
               else Some (Inr (rc, readers(key \<mapsto> rc)))))"

text \<open>
  The first part of \<open>consume\<close>: the outer \<open>None\<close> is a panic, with the registry as it is then; a success gives the
  number of the cancel channel.
\<close>

definition kafka_consume ::
  "kafka_env \<Rightarrow> KafkaConfig \<Rightarrow> KafkaConnConfig \<Rightarrow> bool \<Rightarrow> ConsumeConfig option \<Rightarrow> kregistry \<Rightarrow> (string + nat) option \<times> kregistry" where
  "kafka_consume env cfg conn closed config r =
     (if closed then (Some (Inl ''kafka operator is closed''), r)
      else case config of
        None \<Rightarrow> (Some (Inl ''consume config is nil''), r)
      | Some c \<Rightarrow>
          if kc_Topic c = [] then (Some (Inl ''topic is required''), r)
          else
            let key = consumer_key (kc_Topic c) (kc_GroupID c); ch = kmade r in
            if kcancel r key \<noteq> None then
              (Some (Inl (''topic '' @ kc_Topic c @ '' group '' @ kc_GroupID c @ '' is already being consumed'')),
               r\<lparr>kmade := Suc ch\<rparr>)
            else
              let r1 = r\<lparr>kmade := Suc ch, kcancel := (kcancel r)(key \<mapsto> ch)\<rparr> in
              case getReader env cfg conn c (kreaders r1) of
                None \<Rightarrow> (None, r1)
              | Some (Inl e) \<Rightarrow> (Some (Inl e), r1\<lparr>kcancel := (kcancel r1)(key := None)\<rparr>)
              | Some (Inr (_, readers)) \<Rightarrow> (Some (Inr ch), r1\<lparr>kreaders := readers\<rparr>))"

definition CancelConsume :: "string option \<Rightarrow> string \<Rightarrow> string \<Rightarrow> kregistry \<Rightarrow> string option \<times> kregistry" where
  "CancelConsume reader_close topic groupID r =
     (let key = consumer_key topic groupID in
      case kcancel r key of
        None \<Rightarrow> (None, r)
      | Some ch \<Rightarrow>
          ((if kreaders r key \<noteq> None then reader_close else None),
           r\<lparr>kreaders := (kreaders r)(key := None), kcancel := (kcancel r)(key := None),
             kclosed_chans := insert ch (kclosed_chans r)\<rparr>))"

text \<open>
  \<open>Close\<close>: a second call does nothing; the first closes and forgets every writer and reader, and signals every
  goroutine that waits. The registry of cancel channels is left to the consumers.
\<close>

record kafka_op =
  ka_closed :: bool
  ka_closeCh :: bool
  ka_writers :: "string \<rightharpoonup> WriterConfig"
  ka_registry :: kregistry

definition kafka_Close :: "kafka_op \<Rightarrow> kafka_op" where
  "kafka_Close r =
     (if ka_closed r then r
      else r\<lparr>ka_closed := True, ka_closeCh := True, ka_writers := Map.empty,
             ka_registry := (ka_registry r)\<lparr>kreaders := Map.empty\<rparr>\<rparr>)"

section \<open>Topics and groups\<close>

text \<open>
  \<open>ListTopics\<close> on the metadata the library answers with, each topic with its error: the names without
  repetition, sorted.
\<close>

fun topic_set :: "(string \<times> string option) list \<Rightarrow> string set \<Rightarrow> string + string set" where
  "topic_set [] acc = Inr acc"
| "topic_set ((name, err) # topics) acc =
     (case err of
        Some e \<Rightarrow> Inl (''read topic metadata '' @ quoted name @ '' failed: '' @ e)
      | None \<Rightarrow> topic_set topics (insert name acc))"

definition ListTopics :: "string + (string \<times> string option) list \<Rightarrow> string + string list" where
  "ListTopics metadata =
     (case metadata of
        Inl e \<Rightarrow> Inl (''read metadata failed: '' @ e)
      | Inr topics \<Rightarrow> map_sum id sorted_list_of_set (topic_set topics {}))"

record TopicConsumerGroup =
  tg_GroupID :: string
  tg_State :: string
  tg_Members :: int
  tg_Lag :: int

record ConsumerGroupMember =
  gm_Topics :: "string list"
  gm_Assignments :: "(string \<times> int list) list"

record ConsumerGroupDescription =
  gd_GroupID :: string
  gd_State :: string
  gd_Members :: "ConsumerGroupMember list"

record ConsumerGroupOffset =
  go_Partition :: int
  go_CommittedOffset :: int
  go_Error :: "string option"

record PartitionOffset =
  po_Partition :: int
  po_LastOffset :: int
  po_Error :: "string option"

definition groupUsesTopic :: "ConsumerGroupDescription \<Rightarrow> string \<Rightarrow> bool" where
  "groupUsesTopic grp topic =
     list_ex (\<lambda>member. list_ex (\<lambda>t. t = topic) (gm_Topics member) \<or> list_ex (\<lambda>a. fst a = topic) (gm_Assignments member))
       (gd_Members grp)"

definition partitionIDs :: "int list \<Rightarrow> int list" where
  "partitionIDs partitions = sort partitions"

text \<open>Offsets are \<open>int64\<close>; their differences are summed, with wrap-around.\<close>

definition wrap64 :: "int \<Rightarrow> int" where
  "wrap64 i = (i + 2 ^ 63) mod 2 ^ 64 - 2 ^ 63"

definition latest_by_partition :: "PartitionOffset list \<Rightarrow> int \<rightharpoonup> int" where
  "latest_by_partition latest =
     fold (\<lambda>p m. if po_Error p = None then m(po_Partition p \<mapsto> po_LastOffset p) else m) latest Map.empty"

definition calculateLag :: "ConsumerGroupOffset list \<Rightarrow> PartitionOffset list \<Rightarrow> int" where
  "calculateLag committed latest =
     (let by_partition = latest_by_partition latest in
      fold (\<lambda>p lag.
        if go_Error p \<noteq> None \<or> go_CommittedOffset p < 0 then lag
        else case by_partition (go_Partition p) of
          None \<Rightarrow> lag
        | Some l \<Rightarrow> if l > go_CommittedOffset p then wrap64 (lag + wrap64 (l - go_CommittedOffset p)) else lag) committed 0)"

text \<open>
  \<open>ListTopicConsumerGroups\<close>. The answers of the library: the partitions of the topic (\<open>None\<close> when the metadata
  has no topic), the latest offsets, the groups with their protocol types, the description of each
  group (\<open>None\<close> when it is missing or in error) and its offsets (\<open>None\<close> when they are in error).
\<close>

record kafka_admin =
  ad_metadata :: "string + int list option"
  ad_offsets :: "string + PartitionOffset list"
  ad_groups :: "(string + string) + (string \<times> string) list"
  ad_describe :: "string \<Rightarrow> string + ConsumerGroupDescription option"
  ad_fetch :: "string \<Rightarrow> int list \<Rightarrow> string + ConsumerGroupOffset list option"

fun groups_loop :: "kafka_admin \<Rightarrow> string \<Rightarrow> int list \<Rightarrow> PartitionOffset list \<Rightarrow> (string \<times> string) list \<Rightarrow> TopicConsumerGroup list
    \<Rightarrow> string + TopicConsumerGroup list" where
  "groups_loop ad topic ids latest [] result = Inr result"
| "groups_loop ad topic ids latest ((grp, protocol) # groups) result =
     (if protocol \<noteq> [] \<and> protocol \<noteq> ''consumer'' then groups_loop ad topic ids latest groups result
      else case ad_describe ad grp of
        Inl e \<Rightarrow> Inl (''kafka: describe consumer group '' @ quoted grp @ '': '' @ e)
      | Inr None \<Rightarrow> groups_loop ad topic ids latest groups result
      | Inr (Some description) \<Rightarrow>
          if \<not> groupUsesTopic description topic then groups_loop ad topic ids latest groups result
          else case ad_fetch ad grp ids of
            Inl e \<Rightarrow> Inl (''kafka: fetch consumer group '' @ quoted grp @ '' offsets: '' @ e)
          | Inr None \<Rightarrow> groups_loop ad topic ids latest groups result
          | Inr (Some committed) \<Rightarrow>
              groups_loop ad topic ids latest groups
                (result @ [\<lparr>tg_GroupID = grp, tg_State = gd_State description,
                            tg_Members = int (length (gd_Members description)), tg_Lag = calculateLag committed latest\<rparr>]))"

definition ListTopicConsumerGroups :: "kafka_admin \<Rightarrow> string \<Rightarrow> string + TopicConsumerGroup list" where
  "ListTopicConsumerGroups ad topic =
     (case ad_metadata ad of
        Inl e \<Rightarrow> Inl (''kafka: topic metadata '' @ quoted topic @ '': '' @ e)
      | Inr None \<Rightarrow> Inr []
      | Inr (Some partitions) \<Rightarrow>
          (case ad_offsets ad of
             Inl e \<Rightarrow> Inl (''kafka: list offsets '' @ quoted topic @ '': '' @ e)
           | Inr latest \<Rightarrow>
               (case ad_groups ad of
                  Inl (Inl e) \<Rightarrow> Inl (''kafka: list consumer groups: '' @ e)
                | Inl (Inr e) \<Rightarrow> Inl (''kafka: list consumer groups: '' @ e)
                | Inr groups \<Rightarrow> groups_loop ad topic (partitionIDs partitions) latest groups [])))"

section \<open>Preview\<close>

text \<open>
  The answers of the library: the partitions of the topic (none when the metadata has no topic), the first
  and last offset of each or its error, and what a fetch from an offset yields, record by record, each
  with its key and value or the error of reading it.
\<close>

record fetched =
  fr_Offset :: int
  fr_Key :: "string + string"
  fr_Value :: "string + string"
  fr_Headers :: "(string \<times> string) list"

record preview_env =
  pv_partitions :: "string + int list"
  pv_offsets :: "string + (int \<times> (string + int \<times> int)) list"
  pv_fetch :: "int \<Rightarrow> int \<Rightarrow> string + (string + fetched) list"

fun partition_bounds :: "(int \<times> (string + int \<times> int)) list \<Rightarrow> (int \<rightharpoonup> int \<times> int) \<Rightarrow> string + (int \<rightharpoonup> int \<times> int)" where
  "partition_bounds [] m = Inr m"
| "partition_bounds ((p, Inl e) # ps) m = Inl (''read partition '' @ itoa p @ '' offsets failed: '' @ e)"
| "partition_bounds ((p, Inr b) # ps) m = partition_bounds ps (m(p \<mapsto> b))"

definition preview_error :: "string \<Rightarrow> string \<Rightarrow> int \<Rightarrow> string \<Rightarrow> string" where
  "preview_error what topic p rest = what @ quoted topic @ '' partition '' @ itoa p @ rest"

fun read_records :: "string \<Rightarrow> int \<Rightarrow> nat \<Rightarrow> int \<Rightarrow> (string + fetched) list \<Rightarrow> KafkaMessage list \<Rightarrow> string + KafkaMessage list" where
  "read_records topic p limit start [] messages = Inr messages"
| "read_records topic p limit start (item # items) messages =
     (if \<not> length messages < limit then Inr messages
      else case item of
        Inl e \<Rightarrow> Inl (preview_error ''read preview record '' topic p ('' failed: '' @ e))
      | Inr rec \<Rightarrow>
          if fr_Offset rec < start then read_records topic p limit start items messages
          else case fr_Key rec of
            Inl e \<Rightarrow> Inl (preview_error ''read preview key '' topic p ('' offset '' @ itoa (fr_Offset rec) @ '' failed: '' @ e))
          | Inr key \<Rightarrow>
              (case fr_Value rec of
                 Inl e \<Rightarrow> Inl (preview_error ''read preview value '' topic p ('' offset '' @ itoa (fr_Offset rec) @ '' failed: '' @ e))
               | Inr v \<Rightarrow>
                   read_records topic p limit start items
                     (messages @ [\<lparr>km_Topic = topic, km_Key = key, km_Value = v, km_Headers = fr_Headers rec,
                                   km_Partition = p, km_Offset = fr_Offset rec\<rparr>])))"

definition preview_start :: "nat \<Rightarrow> int \<Rightarrow> int \<Rightarrow> int" where
  "preview_start room lo hi = (if hi - lo > int room then hi - int room else lo)"

fun preview_loop :: "preview_env \<Rightarrow> string \<Rightarrow> (int \<rightharpoonup> int \<times> int) \<Rightarrow> nat \<Rightarrow> int list \<Rightarrow> KafkaMessage list \<Rightarrow> string + KafkaMessage list" where
  "preview_loop env topic bounds limit [] messages = Inr messages"
| "preview_loop env topic bounds limit (p # ps) messages =
     (let (lo, hi) = (case bounds p of None \<Rightarrow> (0, 0) | Some b \<Rightarrow> b);
          start = preview_start (limit - length messages) lo hi in
      if hi \<le> lo then preview_loop env topic bounds limit ps messages
      else case pv_fetch env p start of
        Inl e \<Rightarrow> Inl (preview_error ''fetch preview messages '' topic p ('' failed: '' @ e))
      | Inr items \<Rightarrow>
          (case read_records topic p limit start items messages of
             Inl e \<Rightarrow> Inl e
           | Inr messages' \<Rightarrow>
               if length messages' \<ge> limit then Inr messages' else preview_loop env topic bounds limit ps messages'))"

definition PreviewMessages :: "preview_env \<Rightarrow> string \<Rightarrow> int \<Rightarrow> string + KafkaMessage list" where
  "PreviewMessages env topic limit0 =
     (let limit = (if limit0 \<le> 0 then 10 else limit0) in
      case pv_partitions env of
        Inl e \<Rightarrow> Inl (''read topic metadata '' @ quoted topic @ '' failed: '' @ e)
      | Inr [] \<Rightarrow> Inr []
      | Inr partitions \<Rightarrow>
          (case pv_offsets env of
             Inl e \<Rightarrow> Inl (''list topic offsets '' @ quoted topic @ '' failed: '' @ e)
           | Inr offsets \<Rightarrow>
               (case partition_bounds offsets Map.empty of
                  Inl e \<Rightarrow> Inl e
                | Inr bounds \<Rightarrow> preview_loop env topic bounds (nat limit) partitions [])))"

section \<open>Facts\<close>

definition kin_hand :: "kconsumer \<Rightarrow> KafkaMessage list" where
  "kin_hand c = (case kphase c of KHanding m \<Rightarrow> [m] | _ \<Rightarrow> [])"

text \<open>
  The invariant: the messages of the reader are those dealt with, the one in hand, unless the consumer
  gave it up, and the rest; those dealt with are handed over or empty, and all of them are committed.
\<close>

definition kconsumer_inv :: "string \<Rightarrow> bool \<Rightarrow> KafkaMessage list \<Rightarrow> kconsumer \<Rightarrow> bool" where
  "kconsumer_inv groupID autoCommit ms c \<longleftrightarrow>
     (\<exists>dealt held. ms = dealt @ held @ klog c
        \<and> khanded c = filter (\<lambda>m. km_Value m \<noteq> []) dealt
        \<and> kcommits c = (if autoCommit \<and> groupID \<noteq> [] then dealt else [])
        \<and> (case kphase c of KHanding m \<Rightarrow> held = [m] \<and> km_Value m \<noteq> [] | KExited \<Rightarrow> True | _ \<Rightarrow> held = []))
   \<and> (kphase c = KExited \<longleftrightarrow> \<not> kregistered c)"

lemmas kdefs = kconsumer_inv_def khead_def kexit_def kcommit_def

lemma kinv_head:
  assumes "ms = dealt @ klog c" "khanded c = filter (\<lambda>m. km_Value m \<noteq> []) dealt"
    "kcommits c = (if autoCommit \<and> groupID \<noteq> [] then dealt else [])" "kregistered c"
  shows "kconsumer_inv groupID autoCommit ms (khead c)"
  unfolding kconsumer_inv_def
  using assms by (intro conjI exI [of _ dealt] exI [of _ "[]"]) (simp_all add: khead_def kexit_def)

lemma kstep_inv:
  assumes "kconsumer_inv groupID autoCommit ms c"
  shows "kconsumer_inv groupID autoCommit ms (kstep groupID autoCommit ev c)"
proof -
  obtain dealt held where i: "ms = dealt @ held @ klog c" "khanded c = filter (\<lambda>m. km_Value m \<noteq> []) dealt"
      "kcommits c = (if autoCommit \<and> groupID \<noteq> [] then dealt else [])"
      "case kphase c of KHanding m \<Rightarrow> held = [m] \<and> km_Value m \<noteq> [] | KExited \<Rightarrow> True | _ \<Rightarrow> held = []"
      "kphase c = KExited \<longleftrightarrow> \<not> kregistered c"
    using assms by (auto simp: kconsumer_inv_def)
  have same: "kconsumer_inv groupID autoCommit ms c'"
    if "klog c' = klog c" "khanded c' = khanded c" "kcommits c' = kcommits c" "kphase c' = kphase c" "kregistered c' = kregistered c" for c'
    using assms that by (simp add: kconsumer_inv_def)
  have exit: "kconsumer_inv groupID autoCommit ms (kexit c)"
    unfolding kconsumer_inv_def kexit_def using i by (intro conjI exI [of _ dealt] exI [of _ held]) simp_all
  show ?thesis
  proof (cases ev)
    case KClose
    then show ?thesis by (simp add: kstep_def same)
  next
    case KCancel
    then show ?thesis by (simp add: kstep_def same)
  next
    case KFetched
    show ?thesis
    proof (cases "kphase c = KFetching \<and> klog c \<noteq> []")
      case True
      then obtain m rest where l: "klog c = m # rest" by (cases "klog c") auto
      have held: "held = []" "kregistered c" using i True by auto
      show ?thesis
      proof (cases "km_Value m = []")
        case True
        have "kconsumer_inv groupID autoCommit ms (khead (kcommit groupID autoCommit m (c\<lparr>klog := rest\<rparr>)))"
          using i held l True by (intro kinv_head [of _ "dealt @ [m]"]) (simp_all add: kcommit_def)
        then show ?thesis using KFetched l True \<open>kphase c = KFetching \<and> klog c \<noteq> []\<close> by (simp add: kstep_def Let_def)
      next
        case False
        have "kconsumer_inv groupID autoCommit ms (c\<lparr>klog := rest, kphase := KHanding m\<rparr>)"
          unfolding kconsumer_inv_def using i held l False
          by (intro conjI exI [of _ dealt] exI [of _ "[m]"]) simp_all
        then show ?thesis using KFetched l False \<open>kphase c = KFetching \<and> klog c \<noteq> []\<close> by (simp add: kstep_def Let_def)
      qed
    next
      case False
      then have "kstep groupID autoCommit ev c = c" using KFetched by (auto simp: kstep_def split: kphase.split list.split)
      then show ?thesis using assms by simp
    qed
  next
    case KFetchFailed
    show ?thesis
    proof (cases "kphase c = KFetching \<and> \<not> kclosed c")
      case True
      have "kconsumer_inv groupID autoCommit ms (c\<lparr>kphase := KPausing\<rparr>)"
        unfolding kconsumer_inv_def using i True by (intro conjI exI [of _ dealt] exI [of _ held]) auto
      then show ?thesis using True KFetchFailed by (simp add: kstep_def)
    next
      case False
      then show ?thesis using KFetchFailed exit assms by (cases "kphase c") (auto simp: kstep_def)
    qed
  next
    case KSignal
    then show ?thesis using exit assms by (cases "kphase c") (auto simp: kstep_def)
  next
    case KAfter
    show ?thesis
    proof (cases "kphase c = KPausing")
      case True
      then have "kconsumer_inv groupID autoCommit ms (khead c)" using i by (intro kinv_head [of _ dealt]) auto
      then show ?thesis using True KAfter by (simp add: kstep_def)
    next
      case False
      then show ?thesis using KAfter assms by (cases "kphase c") (auto simp: kstep_def)
    qed
  next
    case KTaken
    show ?thesis
    proof (cases "kphase c")
      case (KHanding m)
      then have "kconsumer_inv groupID autoCommit ms (khead (kcommit groupID autoCommit m (c\<lparr>khanded := khanded c @ [m]\<rparr>)))"
        using i by (intro kinv_head [of _ "dealt @ [m]"]) (auto simp: kcommit_def)
      then show ?thesis using KHanding KTaken by (simp add: kstep_def)
    qed (use KTaken assms in \<open>auto simp: kstep_def\<close>)
  qed
qed



lemma group_position_fold: "fold (\<lambda>m p. max p (km_Offset m + 1)) ms p \<ge> p"
  by (induction ms arbitrary: p) (auto intro: order_trans [OF _ max.cobounded1] order_trans)

lemma group_position_mem: "m \<in> set ms \<Longrightarrow> km_Offset m < fold (\<lambda>m p. max p (km_Offset m + 1)) ms p"
proof (induction ms arbitrary: p)
  case (Cons x ms)
  have "km_Offset x < fold (\<lambda>m p. max p (km_Offset m + 1)) ms (max p (km_Offset x + 1))"
    using group_position_fold [where ms = ms and p = "max p (km_Offset x + 1)"] by linarith
  then show ?case using Cons by auto
qed simp

lemma handler_commits_filter: "handler_commits h ms = filter h ms"
proof -
  have "fold (\<lambda>msg commits. if h msg then commits @ [msg] else commits) ms xs = xs @ filter h ms" for xs
    by (induction ms arbitrary: xs) simp_all
  then show ?thesis by (simp add: handler_commits_def)
qed

text \<open>
  Consuming with a handler. Only what the handler accepts is committed, in order. But a commit stands for
  every smaller offset: once a later message is accepted the group is past the one whose handler
  failed, which is not delivered again.
\<close>

theorem handler_failure_is_skipped:
  "handler_commits h (xs @ bad # ys @ good # zs) = filter h (xs @ bad # ys @ good # zs)
   \<and> (\<not> h bad \<and> h good \<and> km_Offset bad < km_Offset good \<longrightarrow>
        bad \<notin> set (handler_commits h (xs @ bad # ys @ good # zs))
      \<and> km_Offset bad < group_position (handler_commits h (xs @ bad # ys @ good # zs)))"
proof (intro conjI impI)
  show "handler_commits h (xs @ bad # ys @ good # zs) = filter h (xs @ bad # ys @ good # zs)"
    by (rule handler_commits_filter)
  assume a: "\<not> h bad \<and> h good \<and> km_Offset bad < km_Offset good"
  then show "bad \<notin> set (handler_commits h (xs @ bad # ys @ good # zs))" by (auto simp: handler_commits_filter)
  have "good \<in> set (handler_commits h (xs @ bad # ys @ good # zs))" using a by (simp add: handler_commits_filter)
  from group_position_mem [OF this, of 0] a
  show "km_Offset bad < group_position (handler_commits h (xs @ bad # ys @ good # zs))" by (simp add: group_position_def)
qed

definition demo_kmsg :: "int \<Rightarrow> KafkaMessage" where
  "demo_kmsg i = \<lparr>km_Topic = ''t'', km_Key = [], km_Value = ''x'', km_Headers = [], km_Partition = 0, km_Offset = i\<rparr>"

theorem handler_failure_is_skipped_witness:
  "5 < group_position (handler_commits (\<lambda>m. km_Offset m \<noteq> 5) [demo_kmsg 5, demo_kmsg 6])"
proof -
  have o: "km_Offset (demo_kmsg i) = i" for i by (simp add: demo_kmsg_def)
  show ?thesis
    using handler_failure_is_skipped [of "\<lambda>m. km_Offset m \<noteq> 5" "[]" "demo_kmsg 5" "[]" "demo_kmsg 6" "[]"]
    unfolding o append_Nil by linarith
qed

text \<open>
  The registry of consumers. A topic and group that are being consumed are refused until they are
  cancelled, and can be consumed again then. With a default group, a partition and no group of its own
  the reader gets both a group and a partition, which the library answers with a panic: it leaves the
  key registered, so that every later attempt is refused. A reader commits at intervals, not at once,
  unless an option sets the interval to zero.
\<close>

theorem kafka_registry:
  assumes "kc_Topic c \<noteq> []" and "kcancel r (consumer_key (kc_Topic c) (kc_GroupID c)) = None"
    and "kreaders r (consumer_key (kc_Topic c) (kc_GroupID c)) = None" and "buildDialer env cfg conn = Inr d"
  shows "(rd_GroupID (reader_config cfg conn c) = [] \<or> rd_Partition (reader_config cfg conn c) = 0 \<longrightarrow>
           (\<exists>r1. kafka_consume env cfg conn False (Some c) r = (Some (Inr (kmade r)), r1)
              \<and> (\<exists>e r2. kafka_consume env cfg conn False (Some c) r1 = (Some (Inl e), r2))
              \<and> (\<exists>r2. CancelConsume None (kc_Topic c) (kc_GroupID c) r1 = (None, r2)
                   \<and> kmade r \<in> kclosed_chans r2 \<and> kcancel r2 = kcancel r \<and> kreaders r2 = kreaders r)))
     \<and> (kc_GroupID c = [] \<and> kf_GroupID cfg \<noteq> [] \<and> kc_Partition c > 0 \<longrightarrow>
           (\<exists>r1. kafka_consume env cfg conn False (Some c) r = (None, r1)
              \<and> (\<exists>e r2. kafka_consume env cfg conn False (Some c) r1 = (Some (Inl e), r2))))
     \<and> (kc_CommitInterval c = 0 \<longrightarrow> rd_CommitInterval (reader_config cfg kafka_DefaultConfig c) = 10 ^ 9)"
proof (intro conjI impI)
  let ?key = "consumer_key (kc_Topic c) (kc_GroupID c)"
  let ?r1 = "r\<lparr>kmade := Suc (kmade r), kcancel := (kcancel r)(?key \<mapsto> kmade r)\<rparr>"
  let ?rc = "reader_config cfg conn c"
  assume ok: "rd_GroupID ?rc = [] \<or> rd_Partition ?rc = 0"
  let ?r2 = "?r1\<lparr>kreaders := (kreaders r)(?key \<mapsto> ?rc)\<rparr>"
  have 1: "kafka_consume env cfg conn False (Some c) r = (Some (Inr (kmade r)), ?r2)"
    using assms ok by (auto simp: kafka_consume_def getReader_def Let_def)
  moreover have "\<exists>e r3. kafka_consume env cfg conn False (Some c) ?r2 = (Some (Inl e), r3)"
    using assms(1) by (simp add: kafka_consume_def Let_def)
  moreover have "\<exists>r3. CancelConsume None (kc_Topic c) (kc_GroupID c) ?r2 = (None, r3)
      \<and> kmade r \<in> kclosed_chans r3 \<and> kcancel r3 = kcancel r \<and> kreaders r3 = kreaders r"
    using assms(2,3) by (simp add: CancelConsume_def Let_def fun_upd_idem)
  ultimately show "\<exists>r1. kafka_consume env cfg conn False (Some c) r = (Some (Inr (kmade r)), r1)
              \<and> (\<exists>e r2. kafka_consume env cfg conn False (Some c) r1 = (Some (Inl e), r2))
              \<and> (\<exists>r2. CancelConsume None (kc_Topic c) (kc_GroupID c) r1 = (None, r2)
                   \<and> kmade r \<in> kclosed_chans r2 \<and> kcancel r2 = kcancel r \<and> kreaders r2 = kreaders r)"
    by blast
next
  let ?key = "consumer_key (kc_Topic c) (kc_GroupID c)"
  let ?r1 = "r\<lparr>kmade := Suc (kmade r), kcancel := (kcancel r)(?key \<mapsto> kmade r)\<rparr>"
  assume a: "kc_GroupID c = [] \<and> kf_GroupID cfg \<noteq> [] \<and> kc_Partition c > 0"
  have "kafka_consume env cfg conn False (Some c) r = (None, ?r1)"
    using assms a by (simp add: kafka_consume_def getReader_def reader_config_def Let_def)
  moreover have "\<exists>e r2. kafka_consume env cfg conn False (Some c) ?r1 = (Some (Inl e), r2)"
    using assms(1) by (simp add: kafka_consume_def Let_def)
  ultimately show "\<exists>r1. kafka_consume env cfg conn False (Some c) r = (None, r1)
              \<and> (\<exists>e r2. kafka_consume env cfg conn False (Some c) r1 = (Some (Inl e), r2))"
    by blast
qed (simp add: reader_config_def kafka_DefaultConfig_def)

definition demo_kcfg :: KafkaConfig where
  "demo_kcfg = \<lparr>kf_BootstrapServers = [''b''], kf_GroupID = ''g'', kf_Topics = [], kf_SecurityProtocol = [], kf_SaslMechanism = [],
     kf_SaslUsername = [], kf_SaslPassword = [], kf_TLSCAFile = [], kf_TLSCertFile = [], kf_TLSKeyFile = [], kf_TLSServerName = [],
     kf_TLSInsecureSkipVerify = False, kf_MaxAttempts = 3, kf_RetryWaitTime = 2\<rparr>"

definition demo_kenv :: kafka_env where
  "demo_kenv = \<lparr>ke_files = \<lparr>read_file = \<lambda>_. Inl ''no file'', has_pem = \<lambda>_. False, key_pair_error = \<lambda>_ _. None\<rparr>, ke_scram = \<lambda>_. None\<rparr>"

lemma demo_dialer: "buildDialer demo_kenv demo_kcfg kafka_DefaultConfig = Inr (None, None)"
  by (simp add: buildDialer_def op_saslMechanism_def op_tlsConfig_def kafka_DefaultConfig_def getSASLMechanism_def tlsConfig_def
      usesSASL_def usesTLS_def securityProtocol_def normalizedSecurityProtocol_def saslMechanismName_def to_upper_def
      demo_kcfg_def Let_def)

definition demo_kconsume :: ConsumeConfig where
  "demo_kconsume = \<lparr>kc_Topic = ''t'', kc_GroupID = [], kc_Partition = 2, kc_StartOffset = 0, kc_MinBytes = 0, kc_MaxBytes = 0,
     kc_MaxWait = 0, kc_CommitInterval = 0\<rparr>"

definition demo_kregistry :: kregistry where
  "demo_kregistry = \<lparr>kcancel = Map.empty, kclosed_chans = {}, kreaders = Map.empty, kmade = 0\<rparr>"

theorem kafka_registry_witness:
  "\<exists>r1. kafka_consume demo_kenv demo_kcfg kafka_DefaultConfig False (Some demo_kconsume) demo_kregistry = (None, r1)
     \<and> (\<exists>e r2. kafka_consume demo_kenv demo_kcfg kafka_DefaultConfig False (Some demo_kconsume) r1 = (Some (Inl e), r2))"
  using kafka_registry [OF _ _ _ demo_dialer, of demo_kconsume demo_kregistry]
  by (simp add: demo_kconsume_def demo_kregistry_def demo_kcfg_def)


subsection \<open>Pushing\<close>

text \<open>
  Attempt \<open>i\<close> is the last one when the operator is found closed, the writer accepts, or the wait after a
  failure is cut short.
\<close>

definition push_ends :: "(nat \<Rightarrow> bool) \<Rightarrow> (nat \<Rightarrow> string option) \<Rightarrow> (nat \<Rightarrow> push_wait) \<Rightarrow> nat \<Rightarrow> bool" where
  "push_ends closed_at writer wait i \<longleftrightarrow> closed_at i \<or> writer i = None \<or> wait i \<noteq> WaitAfter"

lemma push_loop_success:
  "push_batch_loop closed_at writer wait i n err = None \<longleftrightarrow>
     (\<exists>k < n. writer (i + k) = None \<and> \<not> closed_at (i + k) \<and> (\<forall>j < k. \<not> push_ends closed_at writer wait (i + j)))"
  (is "?L i n err \<longleftrightarrow> ?R i n")
proof (induction n arbitrary: i err)
  case 0
  then show ?case by (simp split: option.split)
next
  case (Suc n)
  have step: "?R i (Suc n) \<longleftrightarrow>
      (writer i = None \<and> \<not> closed_at i) \<or> (\<not> push_ends closed_at writer wait i \<and> ?R (Suc i) n)"
    unfolding Ex_less_Suc2 All_less_Suc2 by auto
  show ?case
    unfolding step using Suc.IH by (auto simp: push_ends_def split: option.split push_wait.split)
qed

text \<open>
  Pushing a batch to Kafka. Nothing is written for a closed operator, without a topic, or when a message
  names another topic than the batch; otherwise every attempt writes the same messages, all of them and
  in order, to the writer of that topic. The push reports success exactly when one of the configured
  attempts is accepted and none before it found the operator closed or was cut short while waiting. An
  operator configured with a negative number of attempts, which validation accepts, never writes and
  ends in a panic that is reported as the error.
\<close>

theorem push_batch_spec:
  "(case PushBatch cfg is_closed closed_at writer wait topic messages of
      (err, None) \<Rightarrow> err \<noteq> None
    | (err, Some (t, sent)) \<Rightarrow>
        \<not> is_closed \<and> t \<noteq> [] \<and> (topic \<noteq> [] \<longrightarrow> t = topic)
      \<and> (\<forall>m \<in> set messages. pm_Topic m = [] \<or> pm_Topic m = t)
      \<and> map km_Value sent = map pm_Value messages \<and> map km_Key sent = map pm_Key messages
      \<and> (err = None \<longleftrightarrow> (\<exists>k < nat (kf_MaxAttempts cfg). writer k = None \<and> \<not> closed_at k
                       \<and> (\<forall>j < k. \<not> push_ends closed_at writer wait j)))
      \<and> (kf_MaxAttempts cfg < 0 \<longrightarrow> err = Some ''kafka panic: runtime error: invalid memory address or nil pointer dereference''))"
proof -
  have e: "(\<exists>y. push_batch_loop closed_at writer wait 0 n None = Some y) \<longleftrightarrow>
      \<not> (\<exists>k < n. writer k = None \<and> \<not> closed_at k \<and> (\<forall>j < k. \<not> push_ends closed_at writer wait j))" for n
    using push_loop_success [of closed_at writer wait 0 n None] by auto
  have none: "find P xs = None \<longleftrightarrow> (\<forall>x \<in> set xs. \<not> P x)" for P :: "ProduceMessage \<Rightarrow> bool" and xs
    using find_None_iff [of P xs] by auto
  show ?thesis
    using push_loop_success [of closed_at writer wait 0 "nat (kf_MaxAttempts cfg)" None] none
    by (auto simp: PushBatch_def Let_def toKafkaMessage_def comp_def split: option.split sum.split prod.split)
qed

definition demo_pm :: ProduceMessage where
  "demo_pm = \<lparr>pm_Topic = ''t'', pm_Key = [], pm_Value = ''x'', pm_Headers = []\<rparr>"

theorem push_batch_spec_witness:
  "\<exists>err t sent. PushBatch (demo_kcfg\<lparr>kf_MaxAttempts := -1\<rparr>) False (\<lambda>_. False) (\<lambda>_. None) (\<lambda>_. WaitAfter) [] [demo_pm] = (Some err, Some (t, sent))
     \<and> err = ''kafka panic: runtime error: invalid memory address or nil pointer dereference''"
  using push_batch_spec [where cfg = "demo_kcfg\<lparr>kf_MaxAttempts := -1\<rparr>" and is_closed = False and closed_at = "\<lambda>_. False"
      and writer = "\<lambda>_. None" and wait = "\<lambda>_. WaitAfter" and topic = "[]" and messages = "[demo_pm]"]
  by (simp add: PushBatch_def demo_pm_def demo_kcfg_def Let_def)

subsection \<open>Security\<close>

text \<open>
  What the security protocol decides. A protocol written as NONE or PLAINTEXT turns SASL and TLS off whatever else is
  configured; the two SASL protocols always authenticate and the two SSL protocols always encrypt; with
  no protocol at all either is used when something of it is configured. Without custom settings SASL
  needs a mechanism, and a client certificate needs its key.
\<close>

lemmas security_defs = buildDialer_def op_saslMechanism_def op_tlsConfig_def getSASLMechanism_def usesSASL_def usesTLS_def
  securityProtocol_def Let_def

lemma no_security:
  assumes "ko_customSASLMechanism conn = None" and "ko_customTLSConfig conn = None"
    and "normalizedSecurityProtocol c \<in> {''NONE'', ''PLAINTEXT''}"
  shows "buildDialer env c conn = Inr (None, None)"
proof -
  have "\<not> usesSASL c" "\<not> usesTLS c" using assms(3) by (auto simp: usesSASL_def usesTLS_def Let_def)
  then show ?thesis using assms(1,2)
    by (simp add: buildDialer_def op_saslMechanism_def op_tlsConfig_def getSASLMechanism_def tlsConfig_def Let_def)
qed

lemma sasl_protocols: "securityProtocol c \<in> {''SASL_PLAINTEXT'', ''SASL_SSL''} \<Longrightarrow> usesSASL c"
  by (auto simp: usesSASL_def securityProtocol_def Let_def split: if_splits)

lemma tls_protocols: "securityProtocol c \<in> {''SSL'', ''SASL_SSL''} \<Longrightarrow> usesTLS c"
  by (auto simp: usesTLS_def securityProtocol_def Let_def split: if_splits)

lemma getSASL_some: "usesSASL c \<Longrightarrow> getSASLMechanism scram c = Inr m \<Longrightarrow> m \<noteq> None"
  by (auto simp: getSASLMechanism_def Let_def split: if_splits option.splits)

lemma tlsConfig_some:
  assumes "usesTLS c" and "tlsConfig files c = Inr m"
  shows "\<exists>t. m = Some t \<and> tls_ServerName t = kf_TLSServerName c
     \<and> (tls_Certificate t = None \<longleftrightarrow> kf_TLSCertFile c = [] \<and> kf_TLSKeyFile c = [])
     \<and> (tls_RootCAs t = None \<longleftrightarrow> kf_TLSCAFile c = [])"
  using assms by (auto simp: tlsConfig_def Let_def split: if_splits option.splits sum.splits)

lemma tlsConfig_off: "\<not> usesTLS c \<Longrightarrow> tlsConfig files c = Inr None"
  by (simp add: tlsConfig_def)

lemma buildDialer_parts:
  assumes "ko_customSASLMechanism conn = None" and "ko_customTLSConfig conn = None" and "buildDialer env c conn = Inr (m, t)"
  shows "getSASLMechanism (ke_scram env) c = Inr m" "tlsConfig (ke_files env) c = Inr t"
  using assms by (auto simp: buildDialer_def op_saslMechanism_def op_tlsConfig_def split: sum.splits)

theorem security_modes:
  assumes "ko_customSASLMechanism conn = None" and "ko_customTLSConfig conn = None"
  shows "(normalizedSecurityProtocol c \<in> {''NONE'', ''PLAINTEXT''} \<longrightarrow> buildDialer env c conn = Inr (None, None))
    \<and> (securityProtocol c \<in> {''SASL_PLAINTEXT'', ''SASL_SSL''} \<and> saslMechanismName c = [] \<longrightarrow>
         buildDialer env c conn = Inl ''create SASL mechanism failed: sasl_mechanism is required when SASL is enabled'')
    \<and> (securityProtocol c \<in> {''SSL'', ''SASL_SSL''} \<longrightarrow> (\<forall>m t. buildDialer env c conn = Inr (m, t) \<longrightarrow> t \<noteq> None))
    \<and> (securityProtocol c \<in> {''SASL_PLAINTEXT'', ''SASL_SSL''} \<longrightarrow> (\<forall>m t. buildDialer env c conn = Inr (m, t) \<longrightarrow> m \<noteq> None))
    \<and> (\<forall>m t. buildDialer env c conn = Inr (m, Some t) \<longrightarrow> tls_ServerName t = kf_TLSServerName c
         \<and> (tls_Certificate t = None \<longleftrightarrow> kf_TLSCertFile c = [] \<and> kf_TLSKeyFile c = [])
         \<and> (tls_RootCAs t = None \<longleftrightarrow> kf_TLSCAFile c = []))"
proof (intro conjI impI allI)
  show "buildDialer env c conn = Inr (None, None)" if "normalizedSecurityProtocol c \<in> {''NONE'', ''PLAINTEXT''}"
    by (rule no_security [OF assms that])
  show "buildDialer env c conn = Inl ''create SASL mechanism failed: sasl_mechanism is required when SASL is enabled''"
    if "securityProtocol c \<in> {''SASL_PLAINTEXT'', ''SASL_SSL''} \<and> saslMechanismName c = []"
    using sasl_protocols that assms by (simp add: buildDialer_def op_saslMechanism_def getSASLMechanism_def Let_def)
  fix m t assume d: "buildDialer env c conn = Inr (m, t)"
  show "t \<noteq> None" if "securityProtocol c \<in> {''SSL'', ''SASL_SSL''}"
    using tlsConfig_some [OF tls_protocols [OF that] buildDialer_parts(2) [OF assms d]] by auto
  show "m \<noteq> None" if "securityProtocol c \<in> {''SASL_PLAINTEXT'', ''SASL_SSL''}"
    by (rule getSASL_some [OF sasl_protocols [OF that] buildDialer_parts(1) [OF assms d]])
next
  fix m t assume d: "buildDialer env c conn = Inr (m, Some t)"
  have p: "tlsConfig (ke_files env) c = Inr (Some t)" by (rule buildDialer_parts(2) [OF assms d])
  then have "usesTLS c" using tlsConfig_off by fastforce
  from tlsConfig_some [OF this p]
  show "tls_ServerName t = kf_TLSServerName c"
    "(tls_Certificate t = None) = (kf_TLSCertFile c = [] \<and> kf_TLSKeyFile c = [])"
    "(tls_RootCAs t = None) = (kf_TLSCAFile c = [])"
    by auto
qed

lemma upper_none: "utf8 (map upper_rune (runes (trim_space ''none''))) = ''NONE''"
proof -
  have t: "trim_space ''none'' = ''none''" using trim_space_visible [of "''none''"] by (simp add: is_ascii_space_def)
  show ?thesis by (simp add: t runes_ascii upper_rune_def) code_simp
qed

theorem security_modes_witness:
  "buildDialer demo_kenv (demo_kcfg\<lparr>kf_SecurityProtocol := ''none'', kf_TLSCAFile := ''ca''\<rparr>) kafka_DefaultConfig = Inr (None, None)"
proof -
  have "normalizedSecurityProtocol (demo_kcfg\<lparr>kf_SecurityProtocol := ''none'', kf_TLSCAFile := ''ca''\<rparr>) = ''NONE''"
    by (simp add: normalizedSecurityProtocol_def to_upper_def upper_none)
  then show ?thesis
    using security_modes [of kafka_DefaultConfig "demo_kcfg\<lparr>kf_SecurityProtocol := ''none'', kf_TLSCAFile := ''ca''\<rparr>" demo_kenv]
    by (simp add: kafka_DefaultConfig_def)
qed


subsection \<open>Topics, groups and lags\<close>

lemma topic_set_Inr: "topic_set topics acc = Inr names \<longleftrightarrow> (\<forall>t \<in> set topics. snd t = None) \<and> names = acc \<union> fst ` set topics"
proof (induction topics arbitrary: acc)
  case (Cons t topics)
  obtain n e where t: "t = (n, e)" by (cases t) auto
  show ?case
  proof (cases e)
    case None
    then show ?thesis unfolding t using Cons.IH [of "insert n acc"] by auto
  next
    case (Some x)
    then show ?thesis unfolding t by simp
  qed
qed auto

text \<open>What a group lags behind on one partition, from the last answer without an error for it.\<close>

definition lag_of :: "PartitionOffset list \<Rightarrow> ConsumerGroupOffset \<Rightarrow> int" where
  "lag_of latest p =
     (if go_Error p \<noteq> None \<or> go_CommittedOffset p < 0 then 0
      else case latest_by_partition latest (go_Partition p) of None \<Rightarrow> 0 | Some l \<Rightarrow> max 0 (l - go_CommittedOffset p))"

lemma lag_of_nonneg: "0 \<le> lag_of latest p"
  by (simp add: lag_of_def split: option.split)

lemma wrap64_id: "- (2 ^ 63) \<le> i \<Longrightarrow> i < 2 ^ 63 \<Longrightarrow> wrap64 i = i"
  by (simp add: wrap64_def)

lemma sum_lag_nonneg: "0 \<le> sum_list (map (lag_of latest) ps)"
  by (rule sum_list_nonneg) (auto simp: lag_of_nonneg)

definition lag_step :: "PartitionOffset list \<Rightarrow> ConsumerGroupOffset \<Rightarrow> int \<Rightarrow> int" where
  "lag_step latest p lag =
     (if go_Error p \<noteq> None \<or> go_CommittedOffset p < 0 then lag
      else case latest_by_partition latest (go_Partition p) of
        None \<Rightarrow> lag
      | Some l \<Rightarrow> if l > go_CommittedOffset p then wrap64 (lag + wrap64 (l - go_CommittedOffset p)) else lag)"

lemma lag_step_sum:
  assumes "0 \<le> lag" and "lag + lag_of latest p < 2 ^ 63"
  shows "lag_step latest p lag = lag + lag_of latest p"
  using assms by (auto simp: lag_step_def lag_of_def wrap64_id split: option.splits)

lemma lag_fold:
  assumes "0 \<le> lag" and "lag + sum_list (map (lag_of latest) ps) < 2 ^ 63"
  shows "fold (lag_step latest) ps lag = lag + sum_list (map (lag_of latest) ps)"
  using assms
proof (induction ps arbitrary: lag)
  case (Cons p ps)
  have 1: "lag_step latest p lag = lag + lag_of latest p"
    using Cons.prems sum_lag_nonneg [of latest ps] by (intro lag_step_sum) auto
  show ?case
    using Cons.IH [of "lag + lag_of latest p"] Cons.prems lag_of_nonneg [of latest p] by (simp add: 1 add.assoc)
qed simp

lemma calculateLag_fold: "calculateLag committed latest = fold (lag_step latest) committed 0"
proof -
  have "(\<lambda>p lag. if go_Error p \<noteq> None \<or> go_CommittedOffset p < 0 then lag
        else case latest_by_partition latest (go_Partition p) of None \<Rightarrow> lag
        | Some l \<Rightarrow> if l > go_CommittedOffset p then wrap64 (lag + wrap64 (l - go_CommittedOffset p)) else lag) = lag_step latest"
    by (intro ext) (simp add: lag_step_def)
  then show ?thesis by (simp add: calculateLag_def Let_def)
qed

text \<open>
  The groups in the answer are those the loop does not pass over, each with its lag: consumer groups (or groups without a
  protocol type) that are described without an error, use the topic and have offsets.
\<close>

definition group_entry :: "kafka_admin \<Rightarrow> string \<Rightarrow> int list \<Rightarrow> PartitionOffset list \<Rightarrow> string \<times> string \<Rightarrow> TopicConsumerGroup list" where
  "group_entry ad topic ids latest g =
     (if snd g \<noteq> [] \<and> snd g \<noteq> ''consumer'' then []
      else case ad_describe ad (fst g) of
        Inr (Some d) \<Rightarrow>
          if groupUsesTopic d topic then
            (case ad_fetch ad (fst g) ids of
               Inr (Some committed) \<Rightarrow> [\<lparr>tg_GroupID = fst g, tg_State = gd_State d, tg_Members = int (length (gd_Members d)),
                                         tg_Lag = calculateLag committed latest\<rparr>]
             | _ \<Rightarrow> [])
          else []
      | _ \<Rightarrow> [])"

lemma groups_loop_Inr:
  "groups_loop ad topic ids latest groups result = Inr gs \<Longrightarrow> gs = result @ concat (map (group_entry ad topic ids latest) groups)"
proof (induction ad topic ids latest groups result rule: groups_loop.induct)
  case (2 ad topic ids latest grp protocol groups result)
  then show ?case
    by (auto simp: group_entry_def split: if_splits sum.splits option.splits)
qed simp

text \<open>
  Administration. The topics listed are the names of the metadata, each once and sorted, and one topic in
  error fails the whole list. The groups of a topic are exactly the consumer groups that use it and could
  be described and read, in the order of the broker; groups in error are passed over in silence. As long
  as the total fits an \<open>int64\<close>, the lag of a group is the sum, over the partitions without errors that it
  has committed to, of the distance to the last offset, and never negative.
\<close>

theorem kafka_admin_spec:
  "(ListTopics (Inr topics) = Inr names \<longleftrightarrow>
      (\<forall>t \<in> set topics. snd t = None) \<and> names = sorted_list_of_set (fst ` set topics))
   \<and> (ListTopicConsumerGroups ad topic = Inr gs \<and> ad_metadata ad = Inr (Some ps) \<and> ad_offsets ad = Inr latest \<and> ad_groups ad = Inr groups
        \<longrightarrow> gs = concat (map (group_entry ad topic (sort ps) latest) groups))
   \<and> (sum_list (map (lag_of latest) committed) < 2 ^ 63 \<longrightarrow>
        calculateLag committed latest = sum_list (map (lag_of latest) committed) \<and> 0 \<le> calculateLag committed latest)"
proof (intro conjI impI)
  show "ListTopics (Inr topics) = Inr names \<longleftrightarrow>
      (\<forall>t \<in> set topics. snd t = None) \<and> names = sorted_list_of_set (fst ` set topics)"
  proof (cases "topic_set topics {}")
    case (Inl e)
    moreover from Inl have "\<not> (\<forall>t \<in> set topics. snd t = None)" using topic_set_Inr [of topics "{}" "fst ` set topics"] by auto
    ultimately show ?thesis by (simp add: ListTopics_def)
  next
    case (Inr xs)
    then show ?thesis using topic_set_Inr [of topics "{}" xs] by (auto simp: ListTopics_def)
  qed
next
  assume a: "ListTopicConsumerGroups ad topic = Inr gs \<and> ad_metadata ad = Inr (Some ps) \<and> ad_offsets ad = Inr latest \<and> ad_groups ad = Inr groups"
  then have "groups_loop ad topic (sort ps) latest groups [] = Inr gs"
    by (auto simp: ListTopicConsumerGroups_def partitionIDs_def)
  from groups_loop_Inr [OF this] show "gs = concat (map (group_entry ad topic (sort ps) latest) groups)" by simp
next
  assume a: "sum_list (map (lag_of latest) committed) < 2 ^ 63"
  then show "calculateLag committed latest = sum_list (map (lag_of latest) committed)"
    using lag_fold [of 0 latest committed] by (simp add: calculateLag_fold)
  then show "0 \<le> calculateLag committed latest" using sum_lag_nonneg [of latest committed] by simp
qed

definition demo_committed :: "int \<Rightarrow> int \<Rightarrow> ConsumerGroupOffset" where
  "demo_committed p o' = \<lparr>go_Partition = p, go_CommittedOffset = o', go_Error = None\<rparr>"

definition demo_latest :: "int \<Rightarrow> int \<Rightarrow> PartitionOffset" where
  "demo_latest p o' = \<lparr>po_Partition = p, po_LastOffset = o', po_Error = None\<rparr>"

theorem kafka_admin_spec_witness:
  "calculateLag [demo_committed 0 4, demo_committed 1 (-1)] [demo_latest 0 10, demo_latest 1 3] = 6"
proof -
  have s: "sum_list (map (lag_of [demo_latest 0 10, demo_latest 1 3]) [demo_committed 0 4, demo_committed 1 (-1)]) = 6"
    by (simp add: lag_of_def demo_latest_def demo_committed_def latest_by_partition_def)
  show ?thesis
    using kafka_admin_spec [where latest = "[demo_latest 0 10, demo_latest 1 3]" and committed = "[demo_committed 0 4, demo_committed 1 (-1)]"]
    unfolding s by simp
qed

subsection \<open>Preview\<close>

text \<open>A message of the preview comes from a fetch of its partition, at or after the offset the fetch started from.\<close>

definition previewed :: "preview_env \<Rightarrow> string \<Rightarrow> int list \<Rightarrow> KafkaMessage \<Rightarrow> bool" where
  "previewed env topic ps m \<longleftrightarrow>
     km_Topic m = topic \<and> km_Partition m \<in> set ps
   \<and> (\<exists>start items rec. pv_fetch env (km_Partition m) start = Inr items \<and> Inr rec \<in> set items \<and> start \<le> km_Offset m
        \<and> fr_Offset rec = km_Offset m \<and> fr_Key rec = Inr (km_Key m) \<and> fr_Value rec = Inr (km_Value m) \<and> fr_Headers rec = km_Headers m)"

lemma read_records_ok:
  assumes "read_records topic p limit start items messages = Inr ms" and "length messages \<le> limit"
    and "\<And>m. m \<in> set messages \<Longrightarrow> P m"
    and "\<And>rec k v. Inr rec \<in> set items \<Longrightarrow> start \<le> fr_Offset rec \<Longrightarrow> fr_Key rec = Inr k \<Longrightarrow> fr_Value rec = Inr v \<Longrightarrow>
           P \<lparr>km_Topic = topic, km_Key = k, km_Value = v, km_Headers = fr_Headers rec, km_Partition = p, km_Offset = fr_Offset rec\<rparr>"
  shows "length ms \<le> limit \<and> (\<forall>m \<in> set ms. P m)"
  using assms
proof (induction topic p limit start items messages rule: read_records.induct)
  case (2 topic p limit start item items messages)
  note run = 2(3) and len = 2(4) and seen = 2(5) and new = 2(6)
  have later: "P \<lparr>km_Topic = topic, km_Key = k, km_Value = v, km_Headers = fr_Headers rec, km_Partition = p, km_Offset = fr_Offset rec\<rparr>"
    if "Inr rec \<in> set items" "start \<le> fr_Offset rec" "fr_Key rec = Inr k" "fr_Value rec = Inr v" for rec k v
    using that by (intro new) auto
  show ?case
  proof (cases "length messages < limit")
    case True
    then obtain rec where rec: "item = Inr rec" using run by (cases item) auto
    show ?thesis
    proof (cases "fr_Offset rec < start")
      case early: True
      then have "read_records topic p limit start items messages = Inr ms" using run rec True by simp
      then show ?thesis using True rec early len seen later by (intro 2(1)) auto
    next
      case False
      obtain k where k: "fr_Key rec = Inr k" using run rec True False by (cases "fr_Key rec") auto
      obtain v where v: "fr_Value rec = Inr v" using run rec True False k by (cases "fr_Value rec") auto
      let ?m = "\<lparr>km_Topic = topic, km_Key = k, km_Value = v, km_Headers = fr_Headers rec, km_Partition = p, km_Offset = fr_Offset rec\<rparr>"
      have r: "read_records topic p limit start items (messages @ [?m]) = Inr ms" using run rec True False k v by simp
      have "P ?m" using rec False k v by (intro new) auto
      then have "\<And>m. m \<in> set (messages @ [?m]) \<Longrightarrow> P m" using seen by auto
      then show ?thesis using True rec False k v r later by (intro 2(2)) auto
    qed
  next
    case False
    then show ?thesis using run len seen by auto
  qed
qed auto

lemma preview_loop_ok:
  assumes "preview_loop env topic bounds limit ps messages = Inr ms" and "length messages \<le> limit"
    and "\<forall>m \<in> set messages. previewed env topic qs m" and "set ps \<subseteq> set qs"
  shows "length ms \<le> limit \<and> (\<forall>m \<in> set ms. previewed env topic qs m)"
  using assms
proof (induction env topic bounds limit ps messages rule: preview_loop.induct)
  case (2 env topic bounds limit p ps messages)
  obtain lo hi where b: "(case bounds p of None \<Rightarrow> (0, 0) | Some b \<Rightarrow> b) = (lo, hi)" by fastforce
  let ?start = "preview_start (limit - length messages) lo hi"
  show ?case
  proof (cases "hi \<le> lo")
    case True
    then show ?thesis using 2 b by simp
  next
    case False
    with 2(3) b obtain items where it: "pv_fetch env p ?start = Inr items" by (auto split: sum.splits simp: Let_def)
    with 2(3) b False obtain ms' where ms': "read_records topic p limit ?start items messages = Inr ms'"
      by (auto split: sum.splits simp: Let_def)
    have r: "length ms' \<le> limit \<and> (\<forall>m \<in> set ms'. previewed env topic qs m)"
      using ms' 2(4) 2(5) 2(6) it by (intro read_records_ok [OF ms']) (auto simp: previewed_def)
    show ?thesis
    proof (cases "length ms' \<ge> limit")
      case True
      then show ?thesis using 2(3) b False it ms' r by (simp add: Let_def)
    next
      case False
      then show ?thesis using 2(2) [OF b [symmetric] refl refl \<open>\<not> hi \<le> lo\<close> it ms' False] 2(3) b \<open>\<not> hi \<le> lo\<close> it ms' r 2(6)
        by (simp add: Let_def)
    qed
  qed
qed auto

text \<open>
  A preview never exceeds its limit, ten by default, and shows only records that a fetch gave, with their
  offsets, keys, values and headers; when the limit is smaller than a partition it asks for the last ones.
\<close>

theorem preview_bounded:
  assumes "PreviewMessages env topic limit = Inr ms" and "pv_partitions env = Inr ps"
  shows "length ms \<le> (if limit \<le> 0 then 10 else nat limit)" "\<forall>m \<in> set ms. previewed env topic ps m"
proof -
  let ?l = "nat (if limit \<le> 0 then 10 else limit)"
  have "length ms \<le> ?l \<and> (\<forall>m \<in> set ms. previewed env topic ps m)"
  proof (cases "ps = []")
    case True
    then show ?thesis using assms by (simp add: PreviewMessages_def Let_def)
  next
    case False
    then obtain bounds where "preview_loop env topic bounds ?l ps [] = Inr ms"
      using assms by (auto simp: PreviewMessages_def Let_def neq_Nil_conv split: sum.splits)
    then show ?thesis by (rule preview_loop_ok) auto
  qed
  then show "length ms \<le> (if limit \<le> 0 then 10 else nat limit)" "\<forall>m \<in> set ms. previewed env topic ps m" by auto
qed

end
