(* ===== verification/Rocketmq.thy ===== *)
theory Rocketmq
  imports Go_Strings
begin

text \<open>
  The package \<open>rocketmqx\<close>: configuration, options, messages, the options a producer and a consumer are made
  with, pushing with retries, and consumers with their registry. The client library of RocketMQ is not
  under \<open>src\<close>: what it answers is an argument. How the channels of \<open>ConsumeWithChannel\<close> are opened and closed
  under interleaving is the theory \<open>Rocketmq_Channel\<close>.
\<close>

section \<open>Configuration\<close>

record RocketConfig =
  ro_NameServers :: "string list"
  ro_GroupName :: string
  ro_AccessKey :: string
  ro_SecretKey :: string
  ro_Namespace :: string
  ro_RetryTimes :: int
  ro_RetryWaitTime :: int

definition rocket_DefaultRetryTimes :: int where "rocket_DefaultRetryTimes = 3"
definition rocket_DefaultRetryWaitTime :: int where "rocket_DefaultRetryWaitTime = 2"

text \<open>The configuration is completed in place; the error is returned beside it.\<close>

definition rocket_Validate :: "RocketConfig \<Rightarrow> string option \<times> RocketConfig" where
  "rocket_Validate c =
     (if ro_NameServers c = [] then (Some ''name_servers is empty'', c)
      else
        let c1 = (if ro_GroupName c = [] then c\<lparr>ro_GroupName := ''DEFAULT_GROUP''\<rparr> else c);
            c2 = (if ro_RetryTimes c1 = 0 then c1\<lparr>ro_RetryTimes := rocket_DefaultRetryTimes\<rparr> else c1);
            c3 = (if ro_RetryWaitTime c2 = 0 then c2\<lparr>ro_RetryWaitTime := rocket_DefaultRetryWaitTime\<rparr> else c2)
        in (None, c3))"

definition getCredentials :: "RocketConfig \<Rightarrow> (string \<times> string) option" where
  "getCredentials c =
     (if ro_AccessKey c = [] \<and> ro_SecretKey c = [] then None else Some (ro_AccessKey c, ro_SecretKey c))"

text \<open>Durations in nanoseconds.\<close>

record RocketConnConfig =
  rn_RetryTimes :: int
  rn_RetryWaitTime :: int
  rn_SendTimeout :: int
  rn_ConsumeGoroutineNums :: int
  rn_MaxReconsumeTimes :: int
  rn_PullBatchSize :: int

definition rocket_DefaultConfig :: RocketConnConfig where
  "rocket_DefaultConfig = \<lparr>rn_RetryTimes = 3, rn_RetryWaitTime = 2 * 10 ^ 9, rn_SendTimeout = 3 * 10 ^ 9,
     rn_ConsumeGoroutineNums = 20, rn_MaxReconsumeTimes = -1, rn_PullBatchSize = 32\<rparr>"

definition rocket_WithRetryTimes :: "int \<Rightarrow> RocketConnConfig \<Rightarrow> RocketConnConfig" where
  "rocket_WithRetryTimes n c = c\<lparr>rn_RetryTimes := n\<rparr>"

definition rocket_WithRetryWaitTime :: "int \<Rightarrow> RocketConnConfig \<Rightarrow> RocketConnConfig" where
  "rocket_WithRetryWaitTime n c = c\<lparr>rn_RetryWaitTime := n\<rparr>"

definition rocket_WithSendTimeout :: "int \<Rightarrow> RocketConnConfig \<Rightarrow> RocketConnConfig" where
  "rocket_WithSendTimeout n c = c\<lparr>rn_SendTimeout := n\<rparr>"

definition rocket_WithConsumeGoroutineNums :: "int \<Rightarrow> RocketConnConfig \<Rightarrow> RocketConnConfig" where
  "rocket_WithConsumeGoroutineNums n c = c\<lparr>rn_ConsumeGoroutineNums := n\<rparr>"

definition rocket_WithMaxReconsumeTimes :: "int \<Rightarrow> RocketConnConfig \<Rightarrow> RocketConnConfig" where
  "rocket_WithMaxReconsumeTimes n c = c\<lparr>rn_MaxReconsumeTimes := n\<rparr>"

definition rocket_WithPullBatchSize :: "int \<Rightarrow> RocketConnConfig \<Rightarrow> RocketConnConfig" where
  "rocket_WithPullBatchSize n c = c\<lparr>rn_PullBatchSize := n\<rparr>"

section \<open>Messages\<close>

text \<open>\<open>Properties\<close> may be nil: \<open>None\<close>.\<close>

record RocketMessage =
  rm_Topic :: string
  rm_Tags :: string
  rm_Keys :: "string list"
  rm_Body :: string
  rm_Properties :: "(string \<rightharpoonup> string) option"
  rm_DelayLevel :: int

definition rm_SetTopic :: "string \<Rightarrow> RocketMessage \<Rightarrow> RocketMessage" where
  "rm_SetTopic topic m = m\<lparr>rm_Topic := topic\<rparr>"

definition rm_SetTags :: "string \<Rightarrow> RocketMessage \<Rightarrow> RocketMessage" where
  "rm_SetTags tags m = m\<lparr>rm_Tags := tags\<rparr>"

definition rm_SetKeys :: "string list \<Rightarrow> RocketMessage \<Rightarrow> RocketMessage" where
  "rm_SetKeys keys m = m\<lparr>rm_Keys := keys\<rparr>"

definition rm_SetBody :: "string \<Rightarrow> RocketMessage \<Rightarrow> RocketMessage" where
  "rm_SetBody body m = m\<lparr>rm_Body := body\<rparr>"

definition rm_SetDelayLevel :: "int \<Rightarrow> RocketMessage \<Rightarrow> RocketMessage" where
  "rm_SetDelayLevel level m = m\<lparr>rm_DelayLevel := level\<rparr>"

definition rm_SetProperty :: "string \<Rightarrow> string \<Rightarrow> RocketMessage \<Rightarrow> RocketMessage" where
  "rm_SetProperty key v m =
     (let ps = (case rm_Properties m of None \<Rightarrow> Map.empty | Some ps \<Rightarrow> ps)
      in m\<lparr>rm_Properties := Some (ps(key \<mapsto> v))\<rparr>)"

text \<open>
  What is asked of the library for a message: the tag, the keys and the delay level only when they are set.
  The properties are set last, one call each, in the order in which Go ranges over the map.
\<close>

record primitive_message =
  pr_Topic :: string
  pr_Body :: string
  pr_Tag :: "string option"
  pr_Keys :: "string list option"
  pr_Delay :: "int option"
  pr_Properties :: "string \<rightharpoonup> string"

definition toPrimitiveMessage :: "RocketMessage \<Rightarrow> primitive_message" where
  "toPrimitiveMessage m =
     \<lparr>pr_Topic = rm_Topic m, pr_Body = rm_Body m,
      pr_Tag = (if rm_Tags m \<noteq> [] then Some (rm_Tags m) else None),
      pr_Keys = (if rm_Keys m \<noteq> [] then Some (rm_Keys m) else None),
      pr_Delay = (if rm_DelayLevel m > 0 then Some (rm_DelayLevel m) else None),
      pr_Properties = (case rm_Properties m of None \<Rightarrow> Map.empty | Some ps \<Rightarrow> ps)\<rparr>"

datatype ConsumerModel = Clustering | BroadCasting

datatype ConsumeFromWhere = ConsumeFromLastOffset | ConsumeFromFirstOffset | ConsumeFromTimestamp

record RocketConsume =
  rs_Topic :: string
  rs_GroupName :: string
  rs_Tags :: string
  rs_ConsumerModel :: ConsumerModel
  rs_ConsumeFrom :: ConsumeFromWhere
  rs_OrderConsume :: bool

definition rs_SetTopic :: "string \<Rightarrow> RocketConsume \<Rightarrow> RocketConsume" where
  "rs_SetTopic topic c = c\<lparr>rs_Topic := topic\<rparr>"

definition rs_SetGroupName :: "string \<Rightarrow> RocketConsume \<Rightarrow> RocketConsume" where
  "rs_SetGroupName name c = c\<lparr>rs_GroupName := name\<rparr>"

definition rs_SetTags :: "string \<Rightarrow> RocketConsume \<Rightarrow> RocketConsume" where
  "rs_SetTags tags c = c\<lparr>rs_Tags := tags\<rparr>"

definition rs_SetConsumerModel :: "ConsumerModel \<Rightarrow> RocketConsume \<Rightarrow> RocketConsume" where
  "rs_SetConsumerModel model c = c\<lparr>rs_ConsumerModel := model\<rparr>"

definition rs_SetConsumeFrom :: "ConsumeFromWhere \<Rightarrow> RocketConsume \<Rightarrow> RocketConsume" where
  "rs_SetConsumeFrom from_where c = c\<lparr>rs_ConsumeFrom := from_where\<rparr>"

definition rs_SetOrderConsume :: "bool \<Rightarrow> RocketConsume \<Rightarrow> RocketConsume" where
  "rs_SetOrderConsume order c = c\<lparr>rs_OrderConsume := order\<rparr>"

section \<open>Producer and consumer\<close>

text \<open>The options in the order in which they are given to the library.\<close>

datatype rocket_option =
    OptNameServer "string list" | OptGroupName string | OptRetry int | OptSendMsgTimeout int | OptNamespace string
  | OptCredentials string string | OptConsumeGoroutineNums int | OptMaxReconsumeTimes int | OptPullBatchSize int
  | OptConsumerModel ConsumerModel | OptConsumeFromWhere ConsumeFromWhere | OptConsumerOrder bool

definition credential_options :: "RocketConfig \<Rightarrow> rocket_option list" where
  "credential_options cfg =
     (if ro_Namespace cfg \<noteq> [] then [OptNamespace (ro_Namespace cfg)] else [])
     @ (case getCredentials cfg of None \<Rightarrow> [] | Some (a, s) \<Rightarrow> [OptCredentials a s])"

definition producer_options :: "RocketConfig \<Rightarrow> RocketConnConfig \<Rightarrow> rocket_option list" where
  "producer_options cfg conn =
     [OptNameServer (ro_NameServers cfg), OptGroupName (ro_GroupName cfg), OptRetry (rn_RetryTimes conn),
      OptSendMsgTimeout (rn_SendTimeout conn)] @ credential_options cfg"

text \<open>\<open>initProducer\<close>: making and starting the producer answer with an error or none.\<close>

definition initProducer ::
  "(rocket_option list \<Rightarrow> string option) \<Rightarrow> string option \<Rightarrow> RocketConfig \<Rightarrow> RocketConnConfig \<Rightarrow> string option" where
  "initProducer new_producer start cfg conn =
     (case new_producer (producer_options cfg conn) of
        Some e \<Rightarrow> Some (''create producer failed: '' @ e)
      | None \<Rightarrow> map_option (\<lambda>e. ''start producer failed: '' @ e) start)"

definition NewRocketMQOperator ::
  "(rocket_option list \<Rightarrow> string option) \<Rightarrow> string option \<Rightarrow> RocketConfig \<Rightarrow> (RocketConnConfig \<Rightarrow> RocketConnConfig) list
     \<Rightarrow> string + (RocketConfig \<times> RocketConnConfig)" where
  "NewRocketMQOperator new_producer start config opts =
     (case rocket_Validate config of
        (Some e, _) \<Rightarrow> Inl e
      | (None, cfg) \<Rightarrow>
          let conn = fold (\<lambda>opt c. opt c) opts rocket_DefaultConfig in
          case initProducer new_producer start cfg conn of
            Some e \<Rightarrow> Inl (''init rocketmq producer failed: '' @ e)
          | None \<Rightarrow> Inr (cfg, conn))"

text \<open>A conversion to \<open>int32\<close>.\<close>

definition wrap32 :: "int \<Rightarrow> int" where
  "wrap32 i = (i + 2 ^ 31) mod 2 ^ 32 - 2 ^ 31"

definition effective_group :: "RocketConfig \<Rightarrow> string \<Rightarrow> string" where
  "effective_group cfg groupName = (if groupName = [] then ro_GroupName cfg else groupName)"

definition createPushConsumer :: "RocketConfig \<Rightarrow> RocketConnConfig \<Rightarrow> RocketConsume \<Rightarrow> rocket_option list" where
  "createPushConsumer cfg conn c =
     [OptNameServer (ro_NameServers cfg), OptGroupName (effective_group cfg (rs_GroupName c)),
      OptConsumeGoroutineNums (rn_ConsumeGoroutineNums conn), OptMaxReconsumeTimes (wrap32 (rn_MaxReconsumeTimes conn)),
      OptPullBatchSize (wrap32 (rn_PullBatchSize conn)), OptRetry (rn_RetryTimes conn)]
     @ credential_options cfg
     @ [case rs_ConsumerModel c of BroadCasting \<Rightarrow> OptConsumerModel BroadCasting | _ \<Rightarrow> OptConsumerModel Clustering]
     @ [case rs_ConsumeFrom c of
          ConsumeFromFirstOffset \<Rightarrow> OptConsumeFromWhere ConsumeFromFirstOffset
        | ConsumeFromTimestamp \<Rightarrow> OptConsumeFromWhere ConsumeFromTimestamp
        | _ \<Rightarrow> OptConsumeFromWhere ConsumeFromLastOffset]
     @ (if rs_OrderConsume c then [OptConsumerOrder True] else [])"

section \<open>Pushing\<close>

text \<open>
  Attempt \<open>i\<close>: whether the operator is closed then, what the producer answers (the identifier of the sent
  messages), and what the \<open>select\<close> after a failure receives.
\<close>

datatype rocket_wait = RocketClosed | RocketDone string | RocketAfter

fun rocket_push_loop ::
  "(nat \<Rightarrow> bool) \<Rightarrow> (nat \<Rightarrow> string + string) \<Rightarrow> (nat \<Rightarrow> rocket_wait) \<Rightarrow> int \<Rightarrow> nat \<Rightarrow> nat \<Rightarrow> string option \<Rightarrow> string + string" where
  "rocket_push_loop closed_at send wait attempts i 0 err =
     (case err of
        None \<Rightarrow> Inl ''rocketmq panic: runtime error: invalid memory address or nil pointer dereference''
      | Some e \<Rightarrow> Inl (''push failed after '' @ itoa attempts @ '' retries: '' @ e))"
| "rocket_push_loop closed_at send wait attempts i (Suc n) err =
     (if closed_at i then Inl ''rocketmq operator is closed''
      else case send i of
        Inr msg_id \<Rightarrow> Inr msg_id
      | Inl e \<Rightarrow>
          (case wait i of
             RocketClosed \<Rightarrow> Inl ''rocketmq operator closed during push''
           | RocketDone ctx_err \<Rightarrow> Inl ctx_err
           | RocketAfter \<Rightarrow> rocket_push_loop closed_at send wait attempts (Suc i) n (Some e)))"

text \<open>The messages of a batch, where nil is \<open>None\<close>: the first one that cannot be sent decides the error.\<close>

fun rocket_messages :: "RocketMessage option list \<Rightarrow> string + primitive_message list" where
  "rocket_messages [] = Inr []"
| "rocket_messages (m # ms) =
     (case m of
        None \<Rightarrow> Inl ''message is nil''
      | Some msg \<Rightarrow>
          if rm_Topic msg = [] then Inl ''topic is required''
          else map_sum id (\<lambda>ps. toPrimitiveMessage msg # ps) (rocket_messages ms))"

text \<open>The result, and what the attempts hand to the producer, if there are any.\<close>

definition rocket_PushBatch ::
  "RocketConfig \<Rightarrow> bool \<Rightarrow> (nat \<Rightarrow> bool) \<Rightarrow> (nat \<Rightarrow> string + string) \<Rightarrow> (nat \<Rightarrow> rocket_wait) \<Rightarrow> RocketMessage option list
     \<Rightarrow> (string + string) \<times> primitive_message list option" where
  "rocket_PushBatch cfg is_closed closed_at send wait messages =
     (if is_closed then (Inl ''rocketmq operator is closed'', None)
      else if messages = [] then (Inl ''messages is empty'', None)
      else case rocket_messages messages of
        Inl e \<Rightarrow> (Inl e, None)
      | Inr msgs \<Rightarrow> (rocket_push_loop closed_at send wait (ro_RetryTimes cfg) 0 (nat (ro_RetryTimes cfg)) None, Some msgs))"

definition rocket_Push where
  "rocket_Push cfg is_closed closed_at send wait msg = rocket_PushBatch cfg is_closed closed_at send wait [msg]"

definition PushAsync :: "bool \<Rightarrow> (primitive_message \<Rightarrow> string option) \<Rightarrow> RocketMessage option \<Rightarrow> string option" where
  "PushAsync is_closed send_async msg =
     (if is_closed then Some ''rocketmq operator is closed''
      else case msg of
        None \<Rightarrow> Some ''topic is required''
      | Some m \<Rightarrow> if rm_Topic m = [] then Some ''topic is required'' else send_async (toPrimitiveMessage m))"

definition PushOneWay :: "bool \<Rightarrow> (primitive_message \<Rightarrow> string option) \<Rightarrow> RocketMessage option \<Rightarrow> string option" where
  "PushOneWay is_closed send_one_way msg =
     (if is_closed then Some ''rocketmq operator is closed''
      else case msg of
        None \<Rightarrow> Some ''topic is required''
      | Some m \<Rightarrow> if rm_Topic m = [] then Some ''topic is required'' else send_one_way (toPrimitiveMessage m))"

definition PushDelay where
  "PushDelay cfg is_closed closed_at send wait msg delayLevel =
     (case msg of
        None \<Rightarrow> (Inl ''message is nil'', None)
      | Some m \<Rightarrow> rocket_Push cfg is_closed closed_at send wait (Some (rm_SetDelayLevel delayLevel m)))"

section \<open>Consumers\<close>

text \<open>
  The operator's consumers and the functions that close their channels, by topic and group; a consumer is a
  number, and those that have been shut down are remembered.
\<close>

record rocket_op =
  rp_closed :: bool
  rp_consumers :: "string \<rightharpoonup> nat"
  rp_chClosers :: "string \<rightharpoonup> nat"
  rp_shutdown :: "nat set"
  rp_closed_chans :: "nat set"
  rp_producer_down :: bool

definition rocket_key :: "RocketConfig \<Rightarrow> string \<Rightarrow> string \<Rightarrow> string" where
  "rocket_key cfg topic groupName = topic @ '':'' @ effective_group cfg groupName"

text \<open>What the library answers to making consumer \<open>rl_id\<close>, subscribing it and starting it.\<close>

record rocket_lib =
  rl_create :: "rocket_option list \<Rightarrow> string option"
  rl_subscribe :: "string \<Rightarrow> string option \<Rightarrow> string option"
  rl_start :: "string option"

definition rocket_Consume ::
  "RocketConfig \<Rightarrow> RocketConnConfig \<Rightarrow> rocket_lib \<Rightarrow> nat \<Rightarrow> RocketConsume \<Rightarrow> rocket_op \<Rightarrow> string option \<times> rocket_op" where
  "rocket_Consume cfg conn lib cid c r =
     (let key = rocket_key cfg (rs_Topic c) (rs_GroupName c) in
      if rp_closed r then (Some ''rocketmq operator is closed'', r)
      else if rs_Topic c = [] then (Some ''topic is required'', r)
      else if rp_consumers r key \<noteq> None then (Some (''consumer for '' @ key @ '' already exists''), r)
      else case rl_create lib (createPushConsumer cfg conn c) of
        Some e \<Rightarrow> (Some (''create consumer failed: create push consumer failed: '' @ e), r)
      | None \<Rightarrow>
          (case rl_subscribe lib (rs_Topic c) (if rs_Tags c \<noteq> [] then Some (rs_Tags c) else None) of
             Some e \<Rightarrow> (Some (''subscribe failed: '' @ e), r\<lparr>rp_shutdown := insert cid (rp_shutdown r)\<rparr>)
           | None \<Rightarrow>
               (case rl_start lib of
                  Some e \<Rightarrow> (Some (''start consumer failed: '' @ e), r\<lparr>rp_shutdown := insert cid (rp_shutdown r)\<rparr>)
                | None \<Rightarrow> (None, r\<lparr>rp_consumers := (rp_consumers r)(key \<mapsto> cid)\<rparr>))))"

text \<open>The two look-ups of \<open>CancelConsume\<close> and the calls between them; \<open>shut\<close> is the answer of shutting the consumer down.\<close>

definition rocket_CancelConsume :: "RocketConfig \<Rightarrow> string option \<Rightarrow> string \<Rightarrow> string \<Rightarrow> rocket_op \<Rightarrow> string option \<times> rocket_op" where
  "rocket_CancelConsume cfg shut topic groupName r =
     (let key = rocket_key cfg topic groupName in
      case rp_consumers r key of
        None \<Rightarrow> (None, r)
      | Some cid \<Rightarrow>
          let r1 = r\<lparr>rp_consumers := (rp_consumers r)(key := None), rp_shutdown := insert cid (rp_shutdown r)\<rparr>;
              r2 = (case rp_chClosers r1 key of
                      None \<Rightarrow> r1
                    | Some ch \<Rightarrow> r1\<lparr>rp_chClosers := (rp_chClosers r1)(key := None), rp_closed_chans := insert ch (rp_closed_chans r1)\<rparr>)
          in (map_option (\<lambda>e. ''shutdown consumer failed: '' @ e) shut, r2))"

definition rocket_ConsumeWithChannel ::
  "RocketConfig \<Rightarrow> RocketConnConfig \<Rightarrow> rocket_lib \<Rightarrow> nat \<Rightarrow> RocketConsume \<Rightarrow> rocket_op \<Rightarrow> string option \<times> rocket_op" where
  "rocket_ConsumeWithChannel cfg conn lib cid c r =
     (case rocket_Consume cfg conn lib cid c r of
        (Some e, r1) \<Rightarrow> (Some e, r1\<lparr>rp_closed_chans := insert cid (rp_closed_chans r1)\<rparr>)
      | (None, r1) \<Rightarrow>
          let key = rocket_key cfg (rs_Topic c) (rs_GroupName c);
              r2 = r1\<lparr>rp_chClosers := (rp_chClosers r1)(key \<mapsto> cid)\<rparr>
          in (None,
              if rp_consumers r2 key \<noteq> None then r2
              else case rp_chClosers r2 key of
                None \<Rightarrow> r2
              | Some ch \<Rightarrow> r2\<lparr>rp_chClosers := (rp_chClosers r2)(key := None), rp_closed_chans := insert ch (rp_closed_chans r2)\<rparr>))"

definition rocket_Close :: "rocket_op \<Rightarrow> rocket_op" where
  "rocket_Close r =
     (if rp_closed r then r
      else r\<lparr>rp_closed := True, rp_producer_down := True,
             rp_shutdown := rp_shutdown r \<union> ran (rp_consumers r), rp_consumers := Map.empty,
             rp_closed_chans := rp_closed_chans r \<union> ran (rp_chClosers r), rp_chClosers := Map.empty\<rparr>)"


section \<open>Facts\<close>

subsection \<open>Messages and pushing\<close>

lemma rocket_messages_Inr:
  "rocket_messages ms = Inr ps \<longleftrightarrow>
     (\<forall>m \<in> set ms. \<exists>msg. m = Some msg \<and> rm_Topic msg \<noteq> []) \<and> ps = map (toPrimitiveMessage \<circ> the) ms"
proof (induction ms arbitrary: ps)
  case (Cons m ms)
  show ?case
  proof (cases m)
    case (Some msg)
    then show ?thesis using Cons.IH by (cases "rocket_messages ms") auto
  qed auto
qed auto

text \<open>Attempt \<open>i\<close> ends the loop when the operator is found closed, the producer accepts, or the wait is cut short.\<close>

definition rocket_ends :: "(nat \<Rightarrow> bool) \<Rightarrow> (nat \<Rightarrow> string + string) \<Rightarrow> (nat \<Rightarrow> rocket_wait) \<Rightarrow> nat \<Rightarrow> bool" where
  "rocket_ends closed_at send wait i \<longleftrightarrow> closed_at i \<or> (\<exists>msg_id. send i = Inr msg_id) \<or> wait i \<noteq> RocketAfter"

lemma rocket_loop_success:
  "rocket_push_loop closed_at send wait attempts i n err = Inr msg_id \<longleftrightarrow>
     (\<exists>k < n. send (i + k) = Inr msg_id \<and> \<not> closed_at (i + k) \<and> (\<forall>j < k. \<not> rocket_ends closed_at send wait (i + j)))"
  (is "?L i n err \<longleftrightarrow> ?R i n")
proof (induction n arbitrary: i err)
  case 0
  then show ?case by (simp split: option.split)
next
  case (Suc n)
  have step: "?R i (Suc n) \<longleftrightarrow>
      (send i = Inr msg_id \<and> \<not> closed_at i) \<or> (\<not> rocket_ends closed_at send wait i \<and> ?R (Suc i) n)"
    unfolding Ex_less_Suc2 All_less_Suc2 by auto
  show ?case
    unfolding step using Suc.IH by (auto simp: rocket_ends_def split: sum.split rocket_wait.split)
qed

text \<open>
  A batch is refused as a whole when one of its messages is nil or has no topic; otherwise every attempt hands
  the producer the same messages, and the push succeeds exactly when one of the configured attempts is
  accepted and none before it ended the loop. \<open>PushDelay\<close> is a push with the level set.
\<close>

theorem rocket_push_spec:
  "(case rocket_PushBatch cfg is_closed closed_at send wait messages of
      (res, None) \<Rightarrow> \<exists>e. res = Inl e
    | (res, Some sent) \<Rightarrow>
        \<not> is_closed \<and> messages \<noteq> [] \<and> (\<forall>m \<in> set messages. \<exists>msg. m = Some msg \<and> rm_Topic msg \<noteq> [])
      \<and> sent = map (toPrimitiveMessage \<circ> the) messages
      \<and> (res = Inr msg_id \<longleftrightarrow>
           (\<exists>k < nat (ro_RetryTimes cfg). send k = Inr msg_id \<and> \<not> closed_at k \<and> (\<forall>j < k. \<not> rocket_ends closed_at send wait j))))"
  using rocket_loop_success [of closed_at send wait "ro_RetryTimes cfg" 0 "nat (ro_RetryTimes cfg)" None msg_id]
    rocket_messages_Inr [of messages]
  by (auto simp: rocket_PushBatch_def split: sum.split prod.split)

lemma rocket_delay_message:
  "level > 0 \<Longrightarrow> pr_Delay (toPrimitiveMessage (rm_SetDelayLevel level m)) = Some level"
  "level \<le> 0 \<Longrightarrow> pr_Delay (toPrimitiveMessage (rm_SetDelayLevel level m)) = None"
  by (simp_all add: toPrimitiveMessage_def rm_SetDelayLevel_def)

subsection \<open>One call after the other\<close>

text \<open>The calls of the operator, executed one at a time; a consumer's number is used once.\<close>

datatype rocket_call =
    CallConsume rocket_lib nat RocketConsume
  | CallChannel rocket_lib nat RocketConsume
  | CallCancel "string option" string string
  | CallClose

fun rocket_run :: "RocketConfig \<Rightarrow> RocketConnConfig \<Rightarrow> rocket_call \<Rightarrow> rocket_op \<Rightarrow> rocket_op" where
  "rocket_run cfg conn (CallConsume lib cid c) r = snd (rocket_Consume cfg conn lib cid c r)"
| "rocket_run cfg conn (CallChannel lib cid c) r = snd (rocket_ConsumeWithChannel cfg conn lib cid c r)"
| "rocket_run cfg conn (CallCancel shut topic groupName) r = snd (rocket_CancelConsume cfg shut topic groupName r)"
| "rocket_run cfg conn CallClose r = rocket_Close r"

fun call_ids :: "rocket_call \<Rightarrow> nat list" where
  "call_ids (CallConsume lib cid c) = [cid]"
| "call_ids (CallChannel lib cid c) = [cid]"
| "call_ids _ = []"

definition rocket_start :: rocket_op where
  "rocket_start = \<lparr>rp_closed = False, rp_consumers = Map.empty, rp_chClosers = Map.empty, rp_shutdown = {},
     rp_closed_chans = {}, rp_producer_down = False\<rparr>"

text \<open>
  The invariant: a channel is registered only with its own consumer, what is registered is alive, a closed
  operator has nothing registered, and only numbers that were used appear.
\<close>

definition rocket_inv :: "nat set \<Rightarrow> rocket_op \<Rightarrow> bool" where
  "rocket_inv used r \<longleftrightarrow>
     (\<forall>k ch. rp_chClosers r k = Some ch \<longrightarrow> rp_consumers r k = Some ch)
   \<and> (\<forall>k cid. rp_consumers r k = Some cid \<longrightarrow> cid \<notin> rp_shutdown r \<and> cid \<notin> rp_closed_chans r)
   \<and> (\<forall>k k' cid. rp_consumers r k = Some cid \<longrightarrow> rp_consumers r k' = Some cid \<longrightarrow> k = k')
   \<and> (rp_closed r \<longrightarrow> rp_consumers r = Map.empty)
   \<and> (\<forall>k cid. rp_consumers r k = Some cid \<longrightarrow> cid \<in> used) \<and> rp_shutdown r \<subseteq> used \<and> rp_closed_chans r \<subseteq> used"

lemma rocket_inv_used: "rocket_inv used r \<Longrightarrow> rp_consumers r k = Some cid \<Longrightarrow> cid \<in> used"
  "rocket_inv used r \<Longrightarrow> rp_chClosers r k = Some cid \<Longrightarrow> cid \<in> used"
  unfolding rocket_inv_def by blast+

lemma rocket_inv_mono: "rocket_inv used r \<Longrightarrow> used \<subseteq> used' \<Longrightarrow> rocket_inv used' r"
  by (auto simp: rocket_inv_def)

lemma rocket_inv_register:
  assumes "rocket_inv used r" and "cid \<notin> used" and "rp_consumers r k = None" and "\<not> rp_closed r"
  shows "rocket_inv (insert cid used) (r\<lparr>rp_consumers := (rp_consumers r)(k \<mapsto> cid)\<rparr>)"
    "rocket_inv (insert cid used) (r\<lparr>rp_consumers := (rp_consumers r)(k \<mapsto> cid), rp_chClosers := (rp_chClosers r)(k \<mapsto> cid)\<rparr>)"
  using assms by (auto simp: rocket_inv_def ran_def)

lemma rocket_inv_shut:
  assumes "rocket_inv used r" and "cid \<notin> used"
  shows "rocket_inv (insert cid used) (r\<lparr>rp_shutdown := insert cid (rp_shutdown r)\<rparr>)"
    "rocket_inv (insert cid used) (r\<lparr>rp_closed_chans := insert cid (rp_closed_chans r)\<rparr>)"
    "rocket_inv (insert cid used) (r\<lparr>rp_shutdown := insert cid (rp_shutdown r), rp_closed_chans := insert cid (rp_closed_chans r)\<rparr>)"
  using assms by (auto simp: rocket_inv_def ran_def)

lemma rocket_Consume_results:
  "(\<exists>e. rocket_Consume cfg conn lib cid c r = (Some e, r))
   \<or> (\<exists>e. rocket_Consume cfg conn lib cid c r = (Some e, r\<lparr>rp_shutdown := insert cid (rp_shutdown r)\<rparr>))
   \<or> (rocket_Consume cfg conn lib cid c r =
         (None, r\<lparr>rp_consumers := (rp_consumers r)(rocket_key cfg (rs_Topic c) (rs_GroupName c) \<mapsto> cid)\<rparr>)
      \<and> rp_consumers r (rocket_key cfg (rs_Topic c) (rs_GroupName c)) = None \<and> \<not> rp_closed r)"
  by (simp add: rocket_Consume_def Let_def split: option.split)

lemma rocket_Consume_cases:
  obtains (same) e where "rocket_Consume cfg conn lib cid c r = (Some e, r)"
  | (shut) e where "rocket_Consume cfg conn lib cid c r = (Some e, r\<lparr>rp_shutdown := insert cid (rp_shutdown r)\<rparr>)"
  | (ok) "rocket_Consume cfg conn lib cid c r =
       (None, r\<lparr>rp_consumers := (rp_consumers r)(rocket_key cfg (rs_Topic c) (rs_GroupName c) \<mapsto> cid)\<rparr>)"
      "rp_consumers r (rocket_key cfg (rs_Topic c) (rs_GroupName c)) = None" "\<not> rp_closed r"
  using rocket_Consume_results [of cfg conn lib cid c r] that by metis

lemma rocket_inv_consume:
  assumes "rocket_inv used r" and "cid \<notin> used"
  shows "rocket_inv (insert cid used) (snd (rocket_Consume cfg conn lib cid c r))"
proof (cases rule: rocket_Consume_cases [of cfg conn lib cid c r])
  case same
  then show ?thesis using rocket_inv_mono [OF assms(1)] by auto
next
  case shut
  then show ?thesis using rocket_inv_shut(1) [OF assms] by simp
next
  case ok
  then show ?thesis using rocket_inv_register(1) [OF assms] by simp
qed

lemma rocket_inv_channel:
  assumes "rocket_inv used r" and "cid \<notin> used"
  shows "rocket_inv (insert cid used) (snd (rocket_ConsumeWithChannel cfg conn lib cid c r))"
proof (cases rule: rocket_Consume_cases [of cfg conn lib cid c r])
  case same
  then show ?thesis using rocket_inv_shut(2) [OF assms] by (auto simp: rocket_ConsumeWithChannel_def)
next
  case shut
  then show ?thesis using rocket_inv_shut(3) [OF assms] by (auto simp: rocket_ConsumeWithChannel_def)
next
  case ok
  then show ?thesis using rocket_inv_register(2) [OF assms] by (auto simp: rocket_ConsumeWithChannel_def Let_def)
qed

lemma rocket_inv_cancel:
  assumes "rocket_inv used r"
  shows "rocket_inv used (snd (rocket_CancelConsume cfg shut topic groupName r))"
proof (cases "rp_consumers r (rocket_key cfg topic groupName)")
  case None
  then show ?thesis using assms by (simp add: rocket_CancelConsume_def Let_def)
next
  case (Some cid)
  note c = this
  let ?k = "rocket_key cfg topic groupName"
  show ?thesis
  proof (cases "rp_chClosers r ?k")
    case None
    then have "\<And>k ch. rp_chClosers r k = Some ch \<Longrightarrow> k \<noteq> ?k" by auto
    then show ?thesis using assms c None
      by (auto simp: rocket_CancelConsume_def Let_def rocket_inv_def ran_def)
  next
    case (Some ch)
    then have "ch = cid" "cid \<in> used" using assms c rocket_inv_used [OF assms] by (auto simp: rocket_inv_def)
    then show ?thesis using assms c Some
      by (auto simp: rocket_CancelConsume_def Let_def rocket_inv_def ran_def)
  qed
qed

lemma rocket_inv_close:
  assumes "rocket_inv used r"
  shows "rocket_inv used (rocket_Close r)"
proof (cases "rp_closed r")
  case False
  have "ran (rp_consumers r) \<subseteq> used" "ran (rp_chClosers r) \<subseteq> used"
    using rocket_inv_used [OF assms] by (auto simp: ran_def)
  moreover have "rp_shutdown r \<subseteq> used" "rp_closed_chans r \<subseteq> used" using assms by (simp_all add: rocket_inv_def)
  ultimately show ?thesis using False by (simp add: rocket_inv_def rocket_Close_def)
qed (use assms in \<open>simp add: rocket_Close_def\<close>)

lemma rocket_inv_run:
  assumes "rocket_inv used r" and "set (call_ids call) \<inter> used = {}"
  shows "rocket_inv (used \<union> set (call_ids call)) (rocket_run cfg conn call r)"
  using assms by (cases call) (simp_all add: rocket_inv_consume rocket_inv_channel rocket_inv_cancel rocket_inv_close)

lemma rocket_inv_fold:
  assumes "rocket_inv used r" and "distinct (concat (map call_ids calls))" and "set (concat (map call_ids calls)) \<inter> used = {}"
  shows "rocket_inv (used \<union> set (concat (map call_ids calls))) (fold (rocket_run cfg conn) calls r)"
  using assms
proof (induction calls arbitrary: used r)
  case (Cons call calls)
  have "rocket_inv (used \<union> set (call_ids call)) (rocket_run cfg conn call r)"
    using Cons.prems by (intro rocket_inv_run) auto
  from Cons.IH [OF this] Cons.prems show ?case by (auto simp: Un_assoc)
qed simp

text \<open>What a call changes of the number of another, and what the channel of a consumer may rely on.\<close>

lemma rocket_start_inv: "rocket_inv {} rocket_start"
  by (simp add: rocket_inv_def rocket_start_def)

text \<open>
  The operator of \<open>rocketmqx\<close>, called from one goroutine after another. However it is called, a key has one
  consumer at most, a registered consumer has neither been shut down nor has its channel been closed, and
  a closed operator has none. Cancelling shuts the consumer of the key down, closes its channel if it
  has one and frees the key for another; closing does so for all of them; a second call of either
  changes nothing.
\<close>

theorem rocket_lifecycle:
  fixes cfg :: RocketConfig and conn :: RocketConnConfig
  assumes "distinct (concat (map call_ids calls))"
  defines "r \<equiv> fold (rocket_run cfg conn) calls rocket_start"
  shows "(rp_consumers r k = Some cid \<longrightarrow> cid \<notin> rp_shutdown r \<and> cid \<notin> rp_closed_chans r
           \<and> (rp_consumers r k' = Some cid \<longrightarrow> k = k'))
     \<and> (rp_chClosers r k = Some ch \<longrightarrow> rp_consumers r k = Some ch)
     \<and> (rp_consumers r (rocket_key cfg topic grp) = Some cid \<longrightarrow>
          (\<exists>r'. rocket_CancelConsume cfg None topic grp r = (None, r') \<and> cid \<in> rp_shutdown r'
             \<and> (rp_chClosers r (rocket_key cfg topic grp) = Some ch \<longrightarrow> ch \<in> rp_closed_chans r')
             \<and> rp_consumers r' (rocket_key cfg topic grp) = None \<and> rp_chClosers r' (rocket_key cfg topic grp) = None
             \<and> rocket_CancelConsume cfg None topic grp r' = (None, r')))
     \<and> rp_consumers (rocket_Close r) = Map.empty \<and> rp_chClosers (rocket_Close r) = Map.empty
     \<and> (rp_consumers r k = Some cid \<longrightarrow> cid \<in> rp_shutdown (rocket_Close r))
     \<and> (rp_chClosers r k = Some ch \<longrightarrow> ch \<in> rp_closed_chans (rocket_Close r))
     \<and> rocket_Close (rocket_Close r) = rocket_Close r"
proof -
  have inv: "rocket_inv (set (concat (map call_ids calls))) r"
    using rocket_inv_fold [OF rocket_start_inv assms(1)] by (simp add: r_def)
  have no: "rp_chClosers r = Map.empty" if "rp_consumers r = Map.empty"
    using inv that by (auto simp: rocket_inv_def intro!: ext)
  have alive: "rp_consumers r k = Some cid \<longrightarrow> cid \<notin> rp_shutdown r \<and> cid \<notin> rp_closed_chans r
           \<and> (rp_consumers r k' = Some cid \<longrightarrow> k = k')" "rp_chClosers r k = Some ch \<longrightarrow> rp_consumers r k = Some ch"
    using inv unfolding rocket_inv_def by blast+
  have empty: "rp_closed r \<longrightarrow> rp_consumers r = Map.empty" using inv unfolding rocket_inv_def by blast
  have cancel: "\<exists>r'. rocket_CancelConsume cfg None topic grp r = (None, r') \<and> cid \<in> rp_shutdown r'
             \<and> (rp_chClosers r (rocket_key cfg topic grp) = Some ch \<longrightarrow> ch \<in> rp_closed_chans r')
             \<and> rp_consumers r' (rocket_key cfg topic grp) = None \<and> rp_chClosers r' (rocket_key cfg topic grp) = None
             \<and> rocket_CancelConsume cfg None topic grp r' = (None, r')"
    if "rp_consumers r (rocket_key cfg topic grp) = Some cid"
    using that by (cases "rp_chClosers r (rocket_key cfg topic grp)") (simp_all add: rocket_CancelConsume_def Let_def)
  show ?thesis
  proof (intro conjI)
    show "rp_consumers (rocket_Close r) = Map.empty" using empty by (simp add: rocket_Close_def)
    show "rp_chClosers (rocket_Close r) = Map.empty" using empty no by (simp add: rocket_Close_def)
    show "rp_consumers r k = Some cid \<longrightarrow> cid \<in> rp_shutdown (rocket_Close r)"
      using empty by (auto simp: rocket_Close_def ran_def)
    show "rp_chClosers r k = Some ch \<longrightarrow> ch \<in> rp_closed_chans (rocket_Close r)"
      using empty no by (auto simp: rocket_Close_def ran_def)
    show "rocket_Close (rocket_Close r) = rocket_Close r" by (simp add: rocket_Close_def)
  qed (use alive cancel in blast)+
qed

definition demo_rlib :: rocket_lib where
  "demo_rlib = \<lparr>rl_create = \<lambda>_. None, rl_subscribe = \<lambda>_ _. None, rl_start = None\<rparr>"

definition demo_rcfg :: RocketConfig where
  "demo_rcfg = \<lparr>ro_NameServers = [''n''], ro_GroupName = ''g'', ro_AccessKey = [], ro_SecretKey = [], ro_Namespace = [],
     ro_RetryTimes = 3, ro_RetryWaitTime = 2\<rparr>"

definition demo_rconsume :: RocketConsume where
  "demo_rconsume = \<lparr>rs_Topic = ''t'', rs_GroupName = [], rs_Tags = [], rs_ConsumerModel = Clustering,
     rs_ConsumeFrom = ConsumeFromLastOffset, rs_OrderConsume = False\<rparr>"

definition demo_rocket_run :: rocket_op where
  "demo_rocket_run = fold (rocket_run demo_rcfg rocket_DefaultConfig) [CallChannel demo_rlib 7 demo_rconsume] rocket_start"

lemma demo_rocket_run_eval:
  "rp_consumers demo_rocket_run ''t:g'' = Some 7" "rp_chClosers demo_rocket_run ''t:g'' = Some 7"
  by (simp_all add: demo_rocket_run_def rocket_ConsumeWithChannel_def rocket_Consume_def demo_rlib_def demo_rconsume_def demo_rcfg_def
      rocket_start_def rocket_key_def effective_group_def Let_def)

theorem rocket_lifecycle_witness:
  "7 \<notin> rp_shutdown demo_rocket_run \<and> 7 \<in> rp_closed_chans (rocket_Close demo_rocket_run)"
proof -
  have d: "distinct (concat (map call_ids [CallChannel demo_rlib 7 demo_rconsume]))" by simp
  note t = rocket_lifecycle [OF d, where cfg = demo_rcfg and conn = rocket_DefaultConfig and k = "''t:g''" and cid = 7 and ch = 7,
      folded demo_rocket_run_def]
  show ?thesis using t demo_rocket_run_eval by blast
qed

end
