(* ===== verification/Rocketmq_Channel.thy ===== *)
theory Rocketmq_Channel
  imports Rocketmq
begin

text \<open>
  \<open>ConsumeWithChannel\<close>, \<open>CancelConsume\<close> and \<open>Close\<close> of \<open>rocketmqx/rocketmq.go\<close> under interleaving. Each goroutine is one
  call; a step is one access to the shared state: the test of the closed flag, the registration under
  the mutex, each operation on one of the two concurrent maps. A channel has the number of the call that
  made it. \<open>Range\<close> over a map is one step. The second section is the handler that fills a channel and the
  function that closes it.
\<close>

section \<open>The step relation\<close>

datatype rocket_pc =
    Begin | Checked | Consumed | Stored | Gone | Live | Failed
  | CancelBegin | CancelTaken | Cancelled
  | CloseBegin | CloseFlag | CloseSwept | ClosedAll

record rocket_sys =
  ch_op_closed :: bool
  ch_consumers :: "string \<rightharpoonup> nat"
  ch_closers :: "string \<rightharpoonup> nat"
  ch_shut :: "nat set"
  ch_closed :: "nat set"
  ch_pc :: "nat \<Rightarrow> rocket_pc"

definition at_pc :: "nat \<Rightarrow> rocket_pc \<Rightarrow> rocket_sys \<Rightarrow> rocket_sys" where
  "at_pc t p s = s\<lparr>ch_pc := (ch_pc s)(t := p)\<rparr>"

text \<open>
  Nobody else is in the middle of registering, unregistering or closing the key: what callers have to see to
  before they consume it (again).
\<close>

definition quiet_at :: "(nat \<Rightarrow> string) \<Rightarrow> nat \<Rightarrow> rocket_sys \<Rightarrow> bool" where
  "quiet_at key t s \<longleftrightarrow>
     (\<forall>u. u \<noteq> t \<longrightarrow> key u = key t \<longrightarrow> ch_pc s u \<notin> {Consumed, Stored, Gone, CancelTaken})
   \<and> (\<forall>u. ch_pc s u \<notin> {CloseFlag, CloseSwept})"

text \<open>With \<open>quiet\<close> a consumer is only registered at such a moment; without it at any time.\<close>

inductive channel_step :: "bool \<Rightarrow> (nat \<Rightarrow> string) \<Rightarrow> rocket_sys \<Rightarrow> rocket_sys \<Rightarrow> bool" for quiet key where
  check_ok: "ch_pc s t = Begin \<Longrightarrow> \<not> ch_op_closed s \<Longrightarrow> channel_step quiet key s (at_pc t Checked s)"
| check_closed: "ch_pc s t = Begin \<Longrightarrow> ch_op_closed s \<Longrightarrow>
    channel_step quiet key s (at_pc t Failed (s\<lparr>ch_closed := insert t (ch_closed s)\<rparr>))"
| consume_ok: "ch_pc s t = Checked \<Longrightarrow> ch_consumers s (key t) = None \<Longrightarrow> (quiet \<longrightarrow> quiet_at key t s) \<Longrightarrow>
    channel_step quiet key s (at_pc t Consumed (s\<lparr>ch_consumers := (ch_consumers s)(key t \<mapsto> t)\<rparr>))"
| consume_error: "ch_pc s t = Checked \<Longrightarrow>
    channel_step quiet key s (at_pc t Failed (s\<lparr>ch_closed := insert t (ch_closed s)\<rparr>))"
| store_closer: "ch_pc s t = Consumed \<Longrightarrow>
    channel_step quiet key s (at_pc t Stored (s\<lparr>ch_closers := (ch_closers s)(key t \<mapsto> t)\<rparr>))"
| recheck_there: "ch_pc s t = Stored \<Longrightarrow> ch_consumers s (key t) \<noteq> None \<Longrightarrow> channel_step quiet key s (at_pc t Live s)"
| recheck_gone: "ch_pc s t = Stored \<Longrightarrow> ch_consumers s (key t) = None \<Longrightarrow> channel_step quiet key s (at_pc t Gone s)"
| gone_take: "ch_pc s t = Gone \<Longrightarrow> ch_closers s (key t) = Some u \<Longrightarrow>
    channel_step quiet key s (at_pc t Live
      (s\<lparr>ch_closers := (ch_closers s)(key t := None), ch_closed := insert u (ch_closed s)\<rparr>))"
| gone_none: "ch_pc s t = Gone \<Longrightarrow> ch_closers s (key t) = None \<Longrightarrow> channel_step quiet key s (at_pc t Live s)"
| cancel_none: "ch_pc s t = CancelBegin \<Longrightarrow> ch_consumers s (key t) = None \<Longrightarrow> channel_step quiet key s (at_pc t Cancelled s)"
| cancel_take: "ch_pc s t = CancelBegin \<Longrightarrow> ch_consumers s (key t) = Some u \<Longrightarrow>
    channel_step quiet key s (at_pc t CancelTaken
      (s\<lparr>ch_consumers := (ch_consumers s)(key t := None), ch_shut := insert u (ch_shut s)\<rparr>))"
| cancel_close: "ch_pc s t = CancelTaken \<Longrightarrow> ch_closers s (key t) = Some u \<Longrightarrow>
    channel_step quiet key s (at_pc t Cancelled
      (s\<lparr>ch_closers := (ch_closers s)(key t := None), ch_closed := insert u (ch_closed s)\<rparr>))"
| cancel_no_close: "ch_pc s t = CancelTaken \<Longrightarrow> ch_closers s (key t) = None \<Longrightarrow>
    channel_step quiet key s (at_pc t Cancelled s)"
| close_again: "ch_pc s t = CloseBegin \<Longrightarrow> ch_op_closed s \<Longrightarrow> channel_step quiet key s (at_pc t ClosedAll s)"
| close_flag: "ch_pc s t = CloseBegin \<Longrightarrow> \<not> ch_op_closed s \<Longrightarrow>
    channel_step quiet key s (at_pc t CloseFlag (s\<lparr>ch_op_closed := True\<rparr>))"
| close_sweep: "ch_pc s t = CloseFlag \<Longrightarrow>
    channel_step quiet key s (at_pc t CloseSwept
      (s\<lparr>ch_consumers := Map.empty, ch_shut := ch_shut s \<union> ran (ch_consumers s)\<rparr>))"
| close_chans: "ch_pc s t = CloseSwept \<Longrightarrow>
    channel_step quiet key s (at_pc t ClosedAll
      (s\<lparr>ch_closers := Map.empty, ch_closed := ch_closed s \<union> ran (ch_closers s)\<rparr>))"

definition channel_start :: "(nat \<Rightarrow> rocket_pc) \<Rightarrow> rocket_sys" where
  "channel_start pcs = \<lparr>ch_op_closed = False, ch_consumers = Map.empty, ch_closers = Map.empty, ch_shut = {}, ch_closed = {}, ch_pc = pcs\<rparr>"

definition channel_reach :: "bool \<Rightarrow> (nat \<Rightarrow> string) \<Rightarrow> rocket_sys \<Rightarrow> bool" where
  "channel_reach quiet key s \<longleftrightarrow>
     (\<exists>pcs. range pcs \<subseteq> {Begin, CancelBegin, CloseBegin} \<and> (channel_step quiet key)\<^sup>*\<^sup>* (channel_start pcs) s)"

section \<open>The handler of a channel\<close>

text \<open>
  Handlers (the readers) hold the read lock while they wait to send; the closing function first closes \<open>done\<close>,
  then takes the write lock, which needs all readers out, and closes the channel under it.
\<close>

datatype handler_pc = HIdle | HSelect | HSent | HRetry

datatype closer_pc = KIdle | KDone | KLocked | KClosed

record handler_sys =
  h_done :: bool
  h_close_ch :: bool
  h_closed :: bool
  h_chan_closed :: bool
  h_sent_on_closed :: bool
  h_pc :: "nat \<Rightarrow> handler_pc"
  k_pc :: closer_pc

inductive handler_step :: "handler_sys \<Rightarrow> handler_sys \<Rightarrow> bool" where
  enter: "h_pc s t = HIdle \<Longrightarrow> k_pc s \<noteq> KLocked \<Longrightarrow> \<not> h_closed s \<Longrightarrow> handler_step s (s\<lparr>h_pc := (h_pc s)(t := HSelect)\<rparr>)"
| enter_closed: "h_pc s t = HIdle \<Longrightarrow> k_pc s \<noteq> KLocked \<Longrightarrow> h_closed s \<Longrightarrow> handler_step s (s\<lparr>h_pc := (h_pc s)(t := HRetry)\<rparr>)"
| send: "h_pc s t = HSelect \<Longrightarrow>
    handler_step s (s\<lparr>h_sent_on_closed := h_sent_on_closed s \<or> h_chan_closed s, h_pc := (h_pc s)(t := HSent)\<rparr>)"
| woken: "h_pc s t = HSelect \<Longrightarrow> h_done s \<Longrightarrow> handler_step s (s\<lparr>h_pc := (h_pc s)(t := HRetry)\<rparr>)"
| operator_closes: "handler_step s (s\<lparr>h_close_ch := True\<rparr>)"
| woken_closing: "h_pc s t = HSelect \<Longrightarrow> h_close_ch s \<Longrightarrow> handler_step s (s\<lparr>h_pc := (h_pc s)(t := HRetry)\<rparr>)"
| close_done: "k_pc s = KIdle \<Longrightarrow> handler_step s (s\<lparr>h_done := True, k_pc := KDone\<rparr>)"
| write_lock: "k_pc s = KDone \<Longrightarrow> \<forall>t. h_pc s t \<noteq> HSelect \<Longrightarrow> handler_step s (s\<lparr>h_closed := True, k_pc := KLocked\<rparr>)"
| close_chan: "k_pc s = KLocked \<Longrightarrow> handler_step s (s\<lparr>h_chan_closed := True, k_pc := KClosed\<rparr>)"

definition handler_start :: handler_sys where
  "handler_start = \<lparr>h_done = False, h_close_ch = False, h_closed = False, h_chan_closed = False, h_sent_on_closed = False, h_pc = (\<lambda>_. HIdle), k_pc = KIdle\<rparr>"


section \<open>Facts\<close>

text \<open>Classes of program counters.\<close>

fun registering :: "rocket_pc \<Rightarrow> bool" where
  "registering Consumed = True" | "registering Stored = True" | "registering Gone = True" | "registering _ = False"

fun having_channel :: "rocket_pc \<Rightarrow> bool" where
  "having_channel Stored = True" | "having_channel Gone = True" | "having_channel Live = True" | "having_channel _ = False"

fun serving :: "rocket_pc \<Rightarrow> bool" where
  "serving Consumed = True" | "serving Stored = True" | "serving Live = True" | "serving _ = False"

fun unfinished :: "rocket_pc \<Rightarrow> bool" where
  "unfinished Stored = True" | "unfinished Gone = True" | "unfinished _ = False"

fun fresh :: "rocket_pc \<Rightarrow> bool" where
  "fresh Begin = True" | "fresh Checked = True" | "fresh Consumed = True" | "fresh _ = False"

definition pending :: "(nat \<Rightarrow> string) \<Rightarrow> string \<Rightarrow> rocket_sys \<Rightarrow> bool" where
  "pending key k s \<longleftrightarrow> (\<exists>u. key u = k \<and> ch_pc s u = CancelTaken) \<or> (\<exists>u. ch_pc s u = CloseSwept)"

text \<open>
  The invariant of quiet registration: what is registered belongs to the key and is open; a channel that has
  been handed out is closed or registered for closing; if its consumer is gone, someone is on the way to
  close it; at most one goroutine registers a key, and nobody else's consumer is there meanwhile.
\<close>

definition channel_inv :: "(nat \<Rightarrow> string) \<Rightarrow> rocket_sys \<Rightarrow> bool" where
  "channel_inv key s \<longleftrightarrow>
     (\<forall>k t. ch_consumers s k = Some t \<longrightarrow> key t = k \<and> serving (ch_pc s t) \<and> t \<notin> ch_closed s \<and> \<not> pending key k s)
   \<and> (\<forall>k t. ch_closers s k = Some t \<longrightarrow> key t = k \<and> having_channel (ch_pc s t) \<and> t \<notin> ch_closed s
        \<and> (ch_consumers s k = Some t \<or> unfinished (ch_pc s t) \<or> pending key k s))
   \<and> (\<forall>t. having_channel (ch_pc s t) \<longrightarrow> t \<in> ch_closed s \<or> ch_closers s (key t) = Some t)
   \<and> (\<forall>t. fresh (ch_pc s t) \<longrightarrow> t \<notin> ch_closed s)
   \<and> (\<forall>t. ch_pc s t = Consumed \<longrightarrow> ch_closers s (key t) = None)
   \<and> (\<forall>t u. registering (ch_pc s t) \<longrightarrow> ch_consumers s (key t) = Some u \<longrightarrow> u = t)
   \<and> (\<forall>t. ch_pc s t = Gone \<longrightarrow> ch_consumers s (key t) = None)
   \<and> (\<forall>t u. registering (ch_pc s t) \<longrightarrow> registering (ch_pc s u) \<longrightarrow> key t = key u \<longrightarrow> t = u)"

text \<open>The parts of the invariant as rules.\<close>

lemma channel_inv_consumer:
  assumes "channel_inv key s" and "ch_consumers s k = Some t"
  shows "key t = k" "serving (ch_pc s t)" "t \<notin> ch_closed s" "\<not> pending key k s"
  using assms unfolding channel_inv_def by blast+

lemma channel_inv_closer:
  assumes "channel_inv key s" and "ch_closers s k = Some t"
  shows "key t = k" "having_channel (ch_pc s t)" "t \<notin> ch_closed s"
    "ch_consumers s k = Some t \<or> unfinished (ch_pc s t) \<or> pending key k s"
  using assms unfolding channel_inv_def by blast+

lemma channel_inv_thread:
  assumes "channel_inv key s"
  shows "having_channel (ch_pc s t) \<Longrightarrow> t \<in> ch_closed s \<or> ch_closers s (key t) = Some t"
    "fresh (ch_pc s t) \<Longrightarrow> t \<notin> ch_closed s"
    "ch_pc s t = Consumed \<Longrightarrow> ch_closers s (key t) = None"
    "registering (ch_pc s t) \<Longrightarrow> ch_consumers s (key t) = Some u \<Longrightarrow> u = t"
    "ch_pc s t = Gone \<Longrightarrow> ch_consumers s (key t) = None"
    "registering (ch_pc s t) \<Longrightarrow> registering (ch_pc s u) \<Longrightarrow> key t = key u \<Longrightarrow> t = u"
  using assms unfolding channel_inv_def by blast+

lemmas channel_parts = channel_inv_consumer channel_inv_closer channel_inv_thread

lemma channel_invI:
  assumes "\<And>k t. ch_consumers s k = Some t \<Longrightarrow> key t = k \<and> serving (ch_pc s t) \<and> t \<notin> ch_closed s \<and> \<not> pending key k s"
    and "\<And>k t. ch_closers s k = Some t \<Longrightarrow> key t = k \<and> having_channel (ch_pc s t) \<and> t \<notin> ch_closed s
        \<and> (ch_consumers s k = Some t \<or> unfinished (ch_pc s t) \<or> pending key k s)"
    and "\<And>t. having_channel (ch_pc s t) \<Longrightarrow> t \<in> ch_closed s \<or> ch_closers s (key t) = Some t"
    and "\<And>t. fresh (ch_pc s t) \<Longrightarrow> t \<notin> ch_closed s"
    and "\<And>t. ch_pc s t = Consumed \<Longrightarrow> ch_closers s (key t) = None"
    and "\<And>t u. registering (ch_pc s t) \<Longrightarrow> ch_consumers s (key t) = Some u \<Longrightarrow> u = t"
    and "\<And>t. ch_pc s t = Gone \<Longrightarrow> ch_consumers s (key t) = None"
    and "\<And>t u. registering (ch_pc s t) \<Longrightarrow> registering (ch_pc s u) \<Longrightarrow> key t = key u \<Longrightarrow> t = u"
  shows "channel_inv key s"
  unfolding channel_inv_def using assms by blast

lemma pending_at_pc:
  "pending key k (at_pc t p s) \<longleftrightarrow>
     (\<exists>u. u \<noteq> t \<and> key u = k \<and> ch_pc s u = CancelTaken) \<or> (\<exists>u. u \<noteq> t \<and> ch_pc s u = CloseSwept)
     \<or> (p = CancelTaken \<and> key t = k) \<or> p = CloseSwept"
  by (auto simp: pending_def at_pc_def)

lemma pending_fields [simp]:
  "pending key k (s\<lparr>ch_consumers := a\<rparr>) = pending key k s" "pending key k (s\<lparr>ch_closers := b\<rparr>) = pending key k s"
  "pending key k (s\<lparr>ch_closed := c\<rparr>) = pending key k s" "pending key k (s\<lparr>ch_shut := c\<rparr>) = pending key k s"
  "pending key k (s\<lparr>ch_op_closed := d\<rparr>) = pending key k s"
  by (simp_all add: pending_def)

lemma pending_keep:
  assumes "ch_pc s t \<noteq> CancelTaken" "ch_pc s t \<noteq> CloseSwept" and "p \<noteq> CancelTaken" "p \<noteq> CloseSwept"
  shows "pending key k (at_pc t p s) = pending key k s"
  unfolding pending_at_pc unfolding pending_def using assms by metis

lemma at_pc_fields [simp]:
  "ch_consumers (at_pc t p s) = ch_consumers s" "ch_closers (at_pc t p s) = ch_closers s" "ch_closed (at_pc t p s) = ch_closed s"
  "ch_pc (at_pc t p s) = (ch_pc s)(t := p)"
  by (simp_all add: at_pc_def)

text \<open>Each kind of step keeps the invariant.\<close>

lemma channel_inv_begin:
  assumes inv: "channel_inv key s" and "ch_pc s t = Begin"
  shows "channel_inv key (at_pc t Checked s)"
  using channel_inv_thread(2) [OF inv, of t]
  by (intro channel_invI; auto simp: pending_keep assms(2) split: if_splits dest: channel_parts [OF inv])

lemma channel_inv_neutral:
  assumes inv: "channel_inv key s" and "ch_pc s t = CancelBegin \<and> p = Cancelled \<or> ch_pc s t = CloseBegin \<and> (p = CloseFlag \<or> p = ClosedAll)"
  shows "channel_inv key (at_pc t p s)"
proof -
  have "pending key k (at_pc t p s) = pending key k s" for k using assms(2) by (intro pending_keep) auto
  then show ?thesis
    using assms(2) by (intro channel_invI; auto split: if_splits dest: channel_parts [OF inv])
qed

lemma channel_inv_fail:
  assumes inv: "channel_inv key s" and "ch_pc s t = Begin \<or> ch_pc s t = Checked"
  shows "channel_inv key (at_pc t Failed (s\<lparr>ch_closed := insert t (ch_closed s)\<rparr>))"
proof -
  have "pending key k (at_pc t Failed (s\<lparr>ch_closed := insert t (ch_closed s)\<rparr>)) = pending key k s" for k
    using assms(2) by (subst pending_keep) auto
  then show ?thesis
    using assms(2) by (intro channel_invI; auto split: if_splits dest: channel_parts [OF inv])
qed

lemma channel_inv_consume:
  assumes inv: "channel_inv key s" and "ch_pc s t = Checked" and "ch_consumers s (key t) = None" and "quiet_at key t s"
  shows "channel_inv key (at_pc t Consumed (s\<lparr>ch_consumers := (ch_consumers s)(key t \<mapsto> t)\<rparr>))"
proof -
  have other: "\<not> registering (ch_pc s u)" "ch_pc s u \<noteq> CancelTaken" "ch_pc s u \<noteq> Gone" "ch_pc s u \<noteq> Consumed" if "u \<noteq> t" "key u = key t" for u
    using assms(4) that unfolding quiet_at_def by (cases "ch_pc s u"; force)+
  have np: "\<not> pending key (key t) s"
    using assms(2,4) unfolding quiet_at_def pending_def by (metis insertCI rocket_pc.distinct)
  have pend: "pending key k (at_pc t Consumed (s\<lparr>ch_consumers := c\<rparr>)) = pending key k s" for k c
    using assms(2) by (subst pending_keep) auto
  have none: "ch_closers s (key t) = None"
  proof (rule ccontr)
    assume "ch_closers s (key t) \<noteq> None"
    then obtain u where u: "ch_closers s (key t) = Some u" by auto
    note i = channel_inv_closer [OF inv u]
    have "u \<noteq> t" using i(2) assms(2) by auto
    then have "\<not> registering (ch_pc s u)" using other i(1) by auto
    then have "\<not> unfinished (ch_pc s u)" by (cases "ch_pc s u") auto
    then show False using i(4) np assms(3) by auto
  qed
  have "t \<notin> ch_closed s" using channel_inv_thread(2) [OF inv, of t] assms(2) by simp
  then show ?thesis
    using assms(2,3) other np none by (intro channel_invI; auto simp: pend split: if_splits dest: channel_parts [OF inv])
qed

lemma channel_inv_store:
  assumes inv: "channel_inv key s" and "ch_pc s t = Consumed"
  shows "channel_inv key (at_pc t Stored (s\<lparr>ch_closers := (ch_closers s)(key t \<mapsto> t)\<rparr>))"
proof -
  have pend: "pending key k (at_pc t Stored (s\<lparr>ch_closers := c\<rparr>)) = pending key k s" for k c
    using assms(2) by (subst pending_keep) auto
  have t: "t \<notin> ch_closed s" "ch_closers s (key t) = None" using channel_inv_thread(2,3) [OF inv, of t] assms(2) by simp_all
  have reg: "u = t" if "registering (ch_pc s u)" "key u = key t" for u
    using channel_inv_thread(6) [OF inv that(1), of t] assms(2) that by simp
  have own: "u = t" if "ch_consumers s (key t) = Some u" for u
    using channel_inv_thread(4) [OF inv _ that] assms(2) by simp
  show ?thesis
    using assms(2) t reg own by (intro channel_invI; auto simp: pend split: if_splits dest: channel_parts [OF inv])
qed

lemma channel_inv_there:
  assumes inv: "channel_inv key s" and "ch_pc s t = Stored" and "ch_consumers s (key t) \<noteq> None"
  shows "channel_inv key (at_pc t Live s)"
proof -
  have pend: "pending key k (at_pc t Live s) = pending key k s" for k using assms(2) by (intro pending_keep) auto
  have c: "ch_consumers s (key t) = Some t" using channel_inv_thread(4) [OF inv, of t] assms(2,3) by auto
  have "t \<in> ch_closed s \<or> ch_closers s (key t) = Some t" using channel_inv_thread(1) [OF inv, of t] assms(2) by simp
  moreover have "t \<notin> ch_closed s" using channel_inv_consumer(3) [OF inv c] .
  ultimately show ?thesis
    using assms(2) c by (intro channel_invI; auto simp: pend split: if_splits dest: channel_parts [OF inv])
qed

lemma channel_inv_gone:
  assumes inv: "channel_inv key s" and "ch_pc s t = Stored" and "ch_consumers s (key t) = None"
  shows "channel_inv key (at_pc t Gone s)"
proof -
  have pend: "pending key k (at_pc t Gone s) = pending key k s" for k using assms(2) by (intro pending_keep) auto
  have t: "t \<in> ch_closed s \<or> ch_closers s (key t) = Some t" using channel_inv_thread(1) [OF inv, of t] assms(2) by simp
  have reg: "u = t" if "registering (ch_pc s u)" "key u = key t" for u
    using channel_inv_thread(6) [OF inv that(1), of t] assms(2) that by simp
  have "ch_consumers s k \<noteq> Some t" for k using channel_inv_consumer(1) [OF inv, of k t] assms(3) by auto
  then show ?thesis
    using assms(2,3) t reg by (intro channel_invI; auto simp: pend split: if_splits dest: channel_parts [OF inv])
qed

text \<open>Taking the closer of a key whose consumer is gone: by the goroutine that registered late, or by a cancelling one.\<close>

lemma pending_taken:
  assumes "ch_pc s t = Gone \<and> p = Live \<or> ch_pc s t = CancelTaken \<and> p = Cancelled"
  shows "k \<noteq> key t \<Longrightarrow> pending key k (at_pc t p s) = pending key k s" "pending key k (at_pc t p s) \<Longrightarrow> pending key k s"
proof -
  show "pending key k (at_pc t p s) = pending key k s" if "k \<noteq> key t"
    unfolding pending_at_pc unfolding pending_def using assms that by (metis rocket_pc.distinct)
  show "pending key k (at_pc t p s) \<Longrightarrow> pending key k s"
    unfolding pending_at_pc unfolding pending_def using assms by auto
qed

lemma channel_inv_take:
  assumes inv: "channel_inv key s" and t: "ch_pc s t = Gone \<and> p = Live \<or> ch_pc s t = CancelTaken \<and> p = Cancelled"
    and cl: "ch_closers s (key t) = Some u"
  shows "channel_inv key (at_pc t p (s\<lparr>ch_closers := (ch_closers s)(key t := None), ch_closed := insert u (ch_closed s)\<rparr>))"
    (is "channel_inv key ?s")
proof -
  have pend: "k \<noteq> key t \<Longrightarrow> pending key k ?s = pending key k s" "pending key k ?s \<Longrightarrow> pending key k s" for k
    using pending_taken [of "s\<lparr>ch_closers := (ch_closers s)(key t := None), ch_closed := insert u (ch_closed s)\<rparr>" t p] t by auto
  have c: "ch_consumers s (key t) = None"
  proof (cases "ch_pc s t = Gone")
    case True
    then show ?thesis by (rule channel_inv_thread(5) [OF inv])
  next
    case False
    then have "pending key (key t) s" using t by (auto simp: pending_def)
    then show ?thesis using channel_inv_consumer(4) [OF inv] by (cases "ch_consumers s (key t)") auto
  qed
  have u: "key u = key t" "having_channel (ch_pc s u)" using channel_inv_closer [OF inv cl] by auto
  have nf: "\<not> fresh (ch_pc s u)" using u(2) by (cases "ch_pc s u") auto
  have live: "ch_consumers s k \<noteq> Some u" for k using channel_inv_consumer(1) [OF inv, of k u] c u by auto
  have own: "ch_pc s t = Gone \<Longrightarrow> t \<in> ch_closed s \<or> t = u" using channel_inv_thread(1) [OF inv, of t] cl by auto
  show ?thesis
  proof (rule channel_invI)
    fix k v
    assume "ch_closers ?s k = Some v"
    then have k: "k \<noteq> key t" "ch_closers s k = Some v" by (auto split: if_splits)
    note i = channel_inv_closer [OF inv k(2)]
    have "v \<noteq> t" "v \<noteq> u" using i(1) k(1) u(1) by auto
    then show "key v = k \<and> having_channel (ch_pc ?s v) \<and> v \<notin> ch_closed ?s
        \<and> (ch_consumers ?s k = Some v \<or> unfinished (ch_pc ?s v) \<or> pending key k ?s)"
      using i pend(1) [OF k(1)] by simp
  next
    fix v
    assume "having_channel (ch_pc ?s v)"
    then have "v = t \<and> ch_pc s t = Gone \<or> having_channel (ch_pc s v)" using t by (auto split: if_splits)
    then have "v \<in> ch_closed s \<or> v = u \<or> ch_closers s (key v) = Some v"
      using channel_inv_thread(1) [OF inv, of v] own by auto
    then show "v \<in> ch_closed ?s \<or> ch_closers ?s (key v) = Some v" using cl by auto
  next
    fix k v
    assume "ch_consumers ?s k = Some v"
    then have "ch_consumers s k = Some v" by simp
    note i = channel_inv_consumer [OF inv this]
    have "v \<noteq> t" using i(2) t by auto
    moreover have "v \<noteq> u" using live \<open>ch_consumers s k = Some v\<close> by auto
    ultimately show "key v = k \<and> serving (ch_pc ?s v) \<and> v \<notin> ch_closed ?s \<and> \<not> pending key k ?s"
      using i pend(2) by auto
  qed (use t c nf in \<open>auto split: if_splits dest: channel_parts [OF inv]\<close>)
qed

lemma channel_inv_gone_none:
  assumes inv: "channel_inv key s" and "ch_pc s t = Gone" and "ch_closers s (key t) = None"
  shows "channel_inv key (at_pc t Live s)"
proof -
  have pend: "pending key k (at_pc t Live s) = pending key k s" for k using assms(2) by (intro pending_keep) auto
  have t: "t \<in> ch_closed s" using channel_inv_thread(1) [OF inv, of t] assms(2,3) by auto
  have c: "ch_consumers s (key t) = None" using channel_inv_thread(5) [OF inv assms(2)] .
  have "ch_closers s k \<noteq> Some t" "ch_consumers s k \<noteq> Some t" for k
    using channel_inv_closer(1) [OF inv, of k t] channel_inv_consumer(1) [OF inv, of k t] c assms(3) by auto
  then show ?thesis
    using assms(2,3) t c by (intro channel_invI; auto simp: pend split: if_splits dest: channel_parts [OF inv])
qed

lemma channel_inv_cancel_take:
  assumes inv: "channel_inv key s" and "ch_pc s t = CancelBegin" and "ch_consumers s (key t) = Some u"
  shows "channel_inv key (at_pc t CancelTaken (s\<lparr>ch_consumers := (ch_consumers s)(key t := None), ch_shut := insert u (ch_shut s)\<rparr>))"
    (is "channel_inv key ?s")
proof -
  have pend: "pending key k ?s \<longleftrightarrow> pending key k s \<or> k = key t" for k
    unfolding pending_at_pc unfolding pending_def using assms(2) by (auto; metis rocket_pc.distinct)
  show ?thesis
  proof (rule channel_invI)
    fix k v
    assume "ch_closers ?s k = Some v"
    then have k: "ch_closers s k = Some v" by simp
    note i = channel_inv_closer [OF inv k]
    have "v \<noteq> t" using i(2) assms(2) by auto
    then show "key v = k \<and> having_channel (ch_pc ?s v) \<and> v \<notin> ch_closed ?s
        \<and> (ch_consumers ?s k = Some v \<or> unfinished (ch_pc ?s v) \<or> pending key k ?s)"
      using i pend by auto
  qed (use assms(2) in \<open>auto simp: pend split: if_splits dest: channel_parts [OF inv]\<close>)
qed

lemma channel_inv_cancel_none:
  assumes inv: "channel_inv key s" and "ch_pc s t = CancelTaken" and "ch_closers s (key t) = None"
  shows "channel_inv key (at_pc t Cancelled s)"
proof -
  have pend: "k \<noteq> key t \<Longrightarrow> pending key k (at_pc t Cancelled s) = pending key k s"
    "pending key k (at_pc t Cancelled s) \<Longrightarrow> pending key k s" for k
    using pending_taken [of s t Cancelled] assms(2) by auto
  show ?thesis
  proof (rule channel_invI)
    fix k v
    assume "ch_closers (at_pc t Cancelled s) k = Some v"
    then have k: "ch_closers s k = Some v" "k \<noteq> key t" using assms(3) by auto
    note i = channel_inv_closer [OF inv k(1)]
    have "v \<noteq> t" using i(2) assms(2) by auto
    then show "key v = k \<and> having_channel (ch_pc (at_pc t Cancelled s) v) \<and> v \<notin> ch_closed (at_pc t Cancelled s)
        \<and> (ch_consumers (at_pc t Cancelled s) k = Some v \<or> unfinished (ch_pc (at_pc t Cancelled s) v) \<or> pending key k (at_pc t Cancelled s))"
      using i pend(1) [OF k(2)] by simp
  qed (use assms(2) pend(2) in \<open>auto split: if_splits dest: channel_parts [OF inv]\<close>)
qed

lemma channel_inv_sweep:
  assumes inv: "channel_inv key s" and "ch_pc s t = CloseFlag"
  shows "channel_inv key (at_pc t CloseSwept (s\<lparr>ch_consumers := Map.empty, ch_shut := ch_shut s \<union> ran (ch_consumers s)\<rparr>))"
    (is "channel_inv key ?s")
proof -
  have pend: "pending key k ?s" for k by (simp add: pending_at_pc)
  show ?thesis
    using assms(2) by (intro channel_invI; auto simp: pend split: if_splits dest: channel_parts [OF inv])
qed

lemma channel_inv_chans:
  assumes inv: "channel_inv key s" and "ch_pc s t = CloseSwept"
  shows "channel_inv key (at_pc t ClosedAll (s\<lparr>ch_closers := Map.empty, ch_closed := ch_closed s \<union> ran (ch_closers s)\<rparr>))"
    (is "channel_inv key ?s")
proof -
  have "pending key k s" for k using assms(2) by (auto simp: pending_def)
  then have none: "ch_consumers s k = None" for k using channel_inv_consumer(4) [OF inv] by (cases "ch_consumers s k") auto
  show ?thesis
  proof (rule channel_invI)
    fix v
    assume "fresh (ch_pc ?s v)"
    then have f: "fresh (ch_pc s v)" using assms(2) by (auto split: if_splits)
    have "ch_closers s k \<noteq> Some v" for k
      using channel_inv_closer(2) [OF inv, of k v] f by (cases "ch_pc s v") auto
    then show "v \<notin> ch_closed ?s" using channel_inv_thread(2) [OF inv f] by (auto simp: ran_def)
  next
    fix v
    assume "having_channel (ch_pc ?s v)"
    then have "having_channel (ch_pc s v)" by (auto split: if_splits)
    then show "v \<in> ch_closed ?s \<or> ch_closers ?s (key v) = Some v"
      using channel_inv_thread(1) [OF inv, of v] by (auto simp: ran_def)
  qed (use assms(2) none in \<open>auto split: if_splits dest: channel_parts [OF inv]\<close>)
qed

lemma channel_inv_op_closed [simp]: "channel_inv key (s\<lparr>ch_op_closed := d\<rparr>) = channel_inv key s"
  by (simp add: channel_inv_def)

lemma at_pc_op_closed: "at_pc t p (s\<lparr>ch_op_closed := d\<rparr>) = (at_pc t p s)\<lparr>ch_op_closed := d\<rparr>"
  by (simp add: at_pc_def)

lemma channel_inv_step:
  assumes "channel_step True key s s'" and "channel_inv key s"
  shows "channel_inv key s'"
  using assms
  by (cases rule: channel_step.cases)
    (simp_all add: at_pc_op_closed channel_inv_begin channel_inv_neutral channel_inv_fail channel_inv_consume channel_inv_store channel_inv_there
      channel_inv_gone channel_inv_take channel_inv_gone_none channel_inv_cancel_take channel_inv_cancel_none
      channel_inv_sweep channel_inv_chans)

lemma channel_inv_reach: "channel_reach True key s \<Longrightarrow> channel_inv key s"
proof -
  assume "channel_reach True key s"
  then obtain pcs where p: "range pcs \<subseteq> {Begin, CancelBegin, CloseBegin}" "(channel_step True key)\<^sup>*\<^sup>* (channel_start pcs) s"
    by (auto simp: channel_reach_def)
  have "channel_inv key (channel_start pcs)"
  proof (rule channel_invI)
    fix t
    have pc: "pcs t \<in> {Begin, CancelBegin, CloseBegin}" using p(1) by auto
    show "having_channel (ch_pc (channel_start pcs) t) \<Longrightarrow> t \<in> ch_closed (channel_start pcs) \<or> ch_closers (channel_start pcs) (key t) = Some t"
      using pc by (auto simp: channel_start_def)
    fix u
    show "registering (ch_pc (channel_start pcs) t) \<Longrightarrow> registering (ch_pc (channel_start pcs) u) \<Longrightarrow> key t = key u \<Longrightarrow> t = u"
      using pc by (auto simp: channel_start_def)
  qed (auto simp: channel_start_def)
  with p(2) show ?thesis by (induction rule: rtranclp_induct) (auto intro: channel_inv_step)
qed

text \<open>
  C15. The channels of \<open>ConsumeWithChannel\<close>. However the calls interleave, as long as a key is not consumed while another
  call is still registering it, cancelling it or closing the operator: the channel of a registered
  consumer is open; and once the call has returned and no cancellation or closing is on the way, its
  channel is open exactly when its consumer is still registered, so that no reader waits on a channel
  nobody will close.
\<close>

theorem channel_follows_consumer:
  assumes "channel_reach True key s"
  shows "(ch_consumers s k = Some t \<longrightarrow> key t = k \<and> t \<notin> ch_closed s)
     \<and> (ch_pc s t = Live \<and> \<not> pending key (key t) s \<longrightarrow> (t \<notin> ch_closed s \<longleftrightarrow> ch_consumers s (key t) = Some t))
     \<and> (ch_pc s t = Failed \<longrightarrow> ch_consumers s (key t) \<noteq> Some t)"
proof (intro conjI impI)
  note inv = channel_inv_reach [OF assms]
  show "key t = k" "t \<notin> ch_closed s" if "ch_consumers s k = Some t"
    using channel_inv_consumer [OF inv that] by auto
  show "ch_consumers s (key t) \<noteq> Some t" if "ch_pc s t = Failed"
    using channel_inv_consumer(2) [OF inv, of "key t" t] that by auto
  assume a: "ch_pc s t = Live \<and> \<not> pending key (key t) s"
  have "t \<in> ch_closed s \<or> ch_closers s (key t) = Some t" using channel_inv_thread(1) [OF inv, of t] a by simp
  moreover have "ch_consumers s (key t) = Some t" if "ch_closers s (key t) = Some t"
    using channel_inv_closer(4) [OF inv that] a by auto
  ultimately show "t \<notin> ch_closed s \<longleftrightarrow> ch_consumers s (key t) = Some t"
    using channel_inv_consumer(3) [OF inv, of "key t" t] by auto
qed


subsection \<open>What goes wrong without it\<close>

abbreviation steps :: "bool \<Rightarrow> (nat \<Rightarrow> string) \<Rightarrow> rocket_sys \<Rightarrow> rocket_sys \<Rightarrow> bool" where
  "steps quiet key \<equiv> (channel_step quiet key)\<^sup>*\<^sup>*"

text \<open>Registering a channel in one go, by a goroutine nobody disturbs.\<close>

lemma steps_register:
  assumes "ch_pc s t = Checked" and "ch_consumers s (key t) = None" and "quiet \<longrightarrow> quiet_at key t s"
  shows "steps quiet key s
    (at_pc t Live (s\<lparr>ch_consumers := (ch_consumers s)(key t \<mapsto> t), ch_closers := (ch_closers s)(key t \<mapsto> t)\<rparr>))"
proof -
  let ?s1 = "at_pc t Consumed (s\<lparr>ch_consumers := (ch_consumers s)(key t \<mapsto> t)\<rparr>)"
  let ?s2 = "at_pc t Stored (?s1\<lparr>ch_closers := (ch_closers ?s1)(key t \<mapsto> t)\<rparr>)"
  have "channel_step quiet key s ?s1" using assms by (rule channel_step.consume_ok)
  moreover have "channel_step quiet key ?s1 ?s2" by (rule channel_step.store_closer) simp
  moreover have "channel_step quiet key ?s2 (at_pc t Live ?s2)"
    by (rule channel_step.recheck_there) (simp_all add: at_pc_def)
  moreover have "at_pc t Live ?s2 =
      at_pc t Live (s\<lparr>ch_consumers := (ch_consumers s)(key t \<mapsto> t), ch_closers := (ch_closers s)(key t \<mapsto> t)\<rparr>)"
    by (simp add: at_pc_def)
  ultimately show ?thesis by (metis (no_types, lifting) converse_rtranclp_into_rtranclp r_into_rtranclp)
qed

definition race_pcs :: "nat \<Rightarrow> rocket_pc" where
  "race_pcs t = (if t = 2 then CancelBegin else if t = 4 then CloseBegin else Begin)"

lemma race_pcs_range: "range race_pcs \<subseteq> {Begin, CancelBegin, CloseBegin}"
  by (auto simp: race_pcs_def)

definition race_sys :: "bool \<Rightarrow> (string \<rightharpoonup> nat) \<Rightarrow> (string \<rightharpoonup> nat) \<Rightarrow> nat set \<Rightarrow> nat set \<Rightarrow> (nat \<Rightarrow> rocket_pc) \<Rightarrow> rocket_sys" where
  "race_sys op con clo sh cl pcs =
     \<lparr>ch_op_closed = op, ch_consumers = con, ch_closers = clo, ch_shut = sh, ch_closed = cl, ch_pc = pcs\<rparr>"

lemma race_sys_sel [simp]:
  "ch_op_closed (race_sys op con clo sh cl pcs) = op" "ch_consumers (race_sys op con clo sh cl pcs) = con"
  "ch_closers (race_sys op con clo sh cl pcs) = clo" "ch_shut (race_sys op con clo sh cl pcs) = sh"
  "ch_closed (race_sys op con clo sh cl pcs) = cl" "ch_pc (race_sys op con clo sh cl pcs) = pcs"
  by (simp_all add: race_sys_def)

lemma race_sys_upd [simp]:
  "at_pc t p (race_sys op con clo sh cl pcs) = race_sys op con clo sh cl (pcs(t := p))"
  "race_sys op con clo sh cl pcs\<lparr>ch_op_closed := op'\<rparr> = race_sys op' con clo sh cl pcs"
  "race_sys op con clo sh cl pcs\<lparr>ch_consumers := con'\<rparr> = race_sys op con' clo sh cl pcs"
  "race_sys op con clo sh cl pcs\<lparr>ch_closers := clo'\<rparr> = race_sys op con clo' sh cl pcs"
  "race_sys op con clo sh cl pcs\<lparr>ch_shut := sh'\<rparr> = race_sys op con clo sh' cl pcs"
  "race_sys op con clo sh cl pcs\<lparr>ch_closed := cl'\<rparr> = race_sys op con clo sh cl' pcs"
  by (simp_all add: race_sys_def at_pc_def)

lemma race_start: "channel_start race_pcs = race_sys False Map.empty Map.empty {} {} race_pcs"
  by (simp add: channel_start_def race_sys_def)

lemma race_reach:
  assumes "steps quiet key (race_sys False Map.empty Map.empty {} {} race_pcs) s"
  shows "channel_reach quiet key s"
  unfolding channel_reach_def using race_pcs_range assms by (auto simp flip: race_start)

lemma cancel_race:
  "\<exists>s. channel_reach False (\<lambda>_. k) s \<and> ch_pc s 1 = Live \<and> ch_pc s 2 = Cancelled \<and> ch_pc s 3 = Live
     \<and> ch_consumers s k = Some 3 \<and> 3 \<in> ch_closed s \<and> 1 \<in> ch_shut s \<and> 1 \<notin> ch_closed s \<and> ch_closers s = Map.empty"
proof -
  let ?key = "\<lambda>_. k :: string"
  define p where "p = race_pcs(1 := Checked, 3 := Checked)"
  define q where "q = p(1 := Live)"
  define r where "r = q(2 := CancelTaken, 3 := Live)"
  have pcs: "p (Suc 0) = Checked" "p 2 = CancelBegin" "q 2 = CancelBegin" "q 3 = Checked" "r 2 = CancelTaken" "r (Suc 0) = Live" "r 3 = Live"
    by (simp_all add: p_def q_def r_def race_pcs_def)
  have "steps False ?key (race_sys False Map.empty Map.empty {} {} race_pcs)
      (race_sys False Map.empty Map.empty {} {} (race_pcs(1 := Checked)))"
    using channel_step.check_ok [of "race_sys False Map.empty Map.empty {} {} race_pcs" 1 False ?key]
    by (simp add: race_pcs_def)
  also have "channel_step False ?key \<dots> (race_sys False Map.empty Map.empty {} {} p)"
    using channel_step.check_ok [of "race_sys False Map.empty Map.empty {} {} (race_pcs(1 := Checked))" 3 False ?key]
    by (simp add: race_pcs_def p_def)
  also have "steps False ?key \<dots> (race_sys False [k \<mapsto> 1] [k \<mapsto> 1] {} {} q)"
    using steps_register [of "race_sys False Map.empty Map.empty {} {} p" 1 ?key False] by (simp add: pcs q_def)
  also have "channel_step False ?key \<dots> (race_sys False Map.empty [k \<mapsto> 1] {1} {} (q(2 := CancelTaken)))"
    using channel_step.cancel_take [of "race_sys False [k \<mapsto> 1] [k \<mapsto> 1] {} {} q" 2 ?key 1 False] by (simp add: pcs)
  also have "steps False ?key \<dots> (race_sys False [k \<mapsto> 3] [k \<mapsto> 3] {1} {} r)"
    using steps_register [of "race_sys False Map.empty [k \<mapsto> 1] {1} {} (q(2 := CancelTaken))" 3 ?key False]
    by (simp add: pcs r_def)
  also have "channel_step False ?key \<dots> (race_sys False [k \<mapsto> 3] Map.empty {1} {3} (r(2 := Cancelled)))"
    using channel_step.cancel_close [of "race_sys False [k \<mapsto> 3] [k \<mapsto> 3] {1} {} r" 2 ?key 3 False] by (simp add: pcs)
  finally have "channel_reach False ?key (race_sys False [k \<mapsto> 3] Map.empty {1} {3} (r(2 := Cancelled)))"
    by (rule race_reach)
  then show ?thesis by (intro exI conjI; assumption?) (simp_all add: pcs)
qed

lemma close_race:
  "\<exists>s. channel_reach True (\<lambda>_. k) s \<and> ch_pc s 1 = Live \<and> ch_pc s 4 = ClosedAll \<and> ch_op_closed s
     \<and> ch_consumers s k = Some 1 \<and> 1 \<notin> ch_shut s \<and> 1 \<notin> ch_closed s"
proof -
  let ?key = "\<lambda>_. k :: string"
  define p where "p = race_pcs(1 := Checked)"
  define q where "q = p(4 := ClosedAll)"
  have pcs: "p 4 = CloseBegin" "q (Suc 0) = Checked" "q 4 = ClosedAll" by (simp_all add: p_def q_def race_pcs_def)
  have quiet: "q u \<notin> {Consumed, Stored, Gone, CancelTaken}" "q u \<notin> {CloseFlag, CloseSwept}" for u
    by (simp_all add: p_def q_def race_pcs_def)
  have "steps True ?key (race_sys False Map.empty Map.empty {} {} race_pcs) (race_sys False Map.empty Map.empty {} {} p)"
    using channel_step.check_ok [of "race_sys False Map.empty Map.empty {} {} race_pcs" 1 True ?key]
    by (simp add: race_pcs_def p_def)
  also have "channel_step True ?key \<dots> (race_sys True Map.empty Map.empty {} {} (p(4 := CloseFlag)))"
    using channel_step.close_flag [of "race_sys False Map.empty Map.empty {} {} p" 4 True ?key] by (simp add: pcs)
  also have "channel_step True ?key \<dots> (race_sys True Map.empty Map.empty {} {} (p(4 := CloseSwept)))"
    using channel_step.close_sweep [of "race_sys True Map.empty Map.empty {} {} (p(4 := CloseFlag))" 4 True ?key] by simp
  also have "channel_step True ?key \<dots> (race_sys True Map.empty Map.empty {} {} q)"
    using channel_step.close_chans [of "race_sys True Map.empty Map.empty {} {} (p(4 := CloseSwept))" 4 True ?key]
    by (simp add: q_def)
  also have "steps True ?key \<dots> (race_sys True [k \<mapsto> 1] [k \<mapsto> 1] {} {} (q(1 := Live)))"
    using steps_register [of "race_sys True Map.empty Map.empty {} {} q" 1 ?key True] quiet by (simp add: pcs quiet_at_def)
  finally have "channel_reach True ?key (race_sys True [k \<mapsto> 1] [k \<mapsto> 1] {} {} (q(1 := Live)))"
    by (rule race_reach)
  then show ?thesis by (intro exI conjI; assumption?) (simp_all add: pcs)
qed

text \<open>
  The two races of the code. Cancelling a key takes its consumer, shuts it down and only then takes its closer:
  when the key is consumed again in between, the new channel is closed although its consumer lives and
  the first channel is never closed. And a call that has passed the test of the closed flag registers
  its consumer after \<open>Close\<close> has gone through: it is never shut down.
\<close>

theorem channel_races:
  "(\<exists>s. channel_reach False (\<lambda>_. k) s \<and> ch_pc s 1 = Live \<and> ch_pc s 2 = Cancelled \<and> ch_pc s 3 = Live
     \<and> ch_consumers s k = Some 3 \<and> 3 \<in> ch_closed s \<and> 1 \<in> ch_shut s \<and> 1 \<notin> ch_closed s \<and> ch_closers s = Map.empty)
   \<and> (\<exists>s. channel_reach True (\<lambda>_. k) s \<and> ch_pc s 1 = Live \<and> ch_pc s 4 = ClosedAll \<and> ch_op_closed s
     \<and> ch_consumers s k = Some 1 \<and> 1 \<notin> ch_shut s \<and> 1 \<notin> ch_closed s)"
  by (rule conjI [OF cancel_race close_race])

theorem channel_follows_consumer_witness:
  "\<exists>s. channel_reach True (\<lambda>_. ''t:g'') s \<and> ch_consumers s ''t:g'' = Some 1 \<and> 1 \<notin> ch_closed s"
proof -
  obtain s where s: "channel_reach True (\<lambda>_. ''t:g'') s" "ch_consumers s ''t:g'' = Some 1" using close_race by blast
  with channel_follows_consumer [OF s(1), of "''t:g''" 1] show ?thesis by blast
qed

subsection \<open>The handler\<close>

text \<open>The lock keeps the channel open while a handler waits in its \<open>select\<close>.\<close>

definition handler_inv :: "handler_sys \<Rightarrow> bool" where
  "handler_inv s \<longleftrightarrow>
     (h_chan_closed s \<longleftrightarrow> k_pc s = KClosed) \<and> (h_closed s \<longleftrightarrow> k_pc s = KLocked \<or> k_pc s = KClosed)
   \<and> (h_closed s \<longrightarrow> (\<forall>t. h_pc s t \<noteq> HSelect)) \<and> \<not> h_sent_on_closed s \<and> (h_done s \<longleftrightarrow> k_pc s \<noteq> KIdle)"

lemma handler_inv_step: "handler_step s s' \<Longrightarrow> handler_inv s \<Longrightarrow> handler_inv s'"
  by (induction rule: handler_step.induct) (simp_all add: handler_inv_def, blast+)

text \<open>
  C16. A handler never sends on the closed channel, and closing it cannot get stuck: once \<open>done\<close> is closed every handler
  that still waits can go, and when none does the closing function goes on to the end.
\<close>

theorem no_send_on_closed:
  assumes "handler_step\<^sup>*\<^sup>* handler_start s"
  shows "\<not> h_sent_on_closed s
     \<and> (k_pc s \<noteq> KIdle \<and> h_pc s t = HSelect \<longrightarrow> handler_step s (s\<lparr>h_pc := (h_pc s)(t := HRetry)\<rparr>))
     \<and> (k_pc s = KDone \<and> (\<forall>t. h_pc s t \<noteq> HSelect) \<longrightarrow>
          (\<exists>s'. handler_step\<^sup>*\<^sup>* s s' \<and> h_chan_closed s' \<and> k_pc s' = KClosed))"
proof -
  have inv: "handler_inv s"
    using assms
  proof (induction rule: rtranclp_induct)
    case base
    then show ?case by (simp add: handler_inv_def handler_start_def)
  next
    case (step y z)
    then show ?case by (blast intro: handler_inv_step)
  qed
  have go: "\<exists>s'. handler_step\<^sup>*\<^sup>* s s' \<and> h_chan_closed s' \<and> k_pc s' = KClosed"
    if "k_pc s = KDone" "\<forall>t. h_pc s t \<noteq> HSelect"
  proof -
    let ?s1 = "s\<lparr>h_closed := True, k_pc := KLocked\<rparr>"
    let ?s2 = "?s1\<lparr>h_chan_closed := True, k_pc := KClosed\<rparr>"
    have "handler_step s ?s1" using that by (rule handler_step.write_lock)
    moreover have "handler_step ?s1 ?s2" by (rule handler_step.close_chan) simp
    ultimately have "handler_step\<^sup>*\<^sup>* s ?s2" by simp
    then show ?thesis by (intro exI [of _ ?s2]) simp
  qed
  show ?thesis
  proof (intro conjI impI)
    show "\<not> h_sent_on_closed s" using inv by (simp add: handler_inv_def)
    assume a: "k_pc s \<noteq> KIdle \<and> h_pc s t = HSelect"
    with inv have "h_done s" by (simp add: handler_inv_def)
    with a show "handler_step s (s\<lparr>h_pc := (h_pc s)(t := HRetry)\<rparr>)" by (blast intro: handler_step.woken)
  qed (use go in blast)
qed

theorem no_send_on_closed_witness:
  "\<not> h_sent_on_closed (handler_start\<lparr>h_done := True, k_pc := KDone\<rparr>)"
proof -
  have "handler_step handler_start (handler_start\<lparr>h_done := True, k_pc := KDone\<rparr>)"
    by (rule handler_step.close_done) (simp add: handler_start_def)
  then have "handler_step\<^sup>*\<^sup>* handler_start (handler_start\<lparr>h_done := True, k_pc := KDone\<rparr>)" by simp
  from no_send_on_closed [OF this] show ?thesis by blast
qed

end
