(* ===== verification/Cryptox.thy ===== *)
theory Cryptox
  imports Go_Strings
begin

text \<open>
  The package \<open>cryptox\<close>: AES and DES in CBC mode with zeros as padding, RSA in chunks, signatures and hashes, all
  of them written in Base64. Base64, the CBC mode and the way \<open>append\<close> treats a slice are modelled as Go's
  library and language have them; a block cipher, the RSA operations and the hashes are arguments, with
  what the code relies on as hypotheses of the theorems.
\<close>

section \<open>Base64\<close>

text \<open>The encodings: \<open>url\<close> chooses the alphabet, \<open>pad\<close> the padding.\<close>

definition b64_char :: "bool \<Rightarrow> nat \<Rightarrow> char" where
  "b64_char url n =
     (if n < 26 then char_of (65 + n) else if n < 52 then char_of (71 + n) else if n < 62 then char_of (n - 4)
      else if n = 62 then (if url then CHR ''-'' else CHR ''+'') else (if url then CHR ''_'' else CHR ''/''))"

definition b64_val :: "bool \<Rightarrow> char \<Rightarrow> nat option" where
  "b64_val url c =
     (let n = byte c in
      if 65 \<le> n \<and> n \<le> 90 then Some (n - 65) else if 97 \<le> n \<and> n \<le> 122 then Some (n - 71)
      else if 48 \<le> n \<and> n \<le> 57 then Some (n + 4)
      else if c = (if url then CHR ''-'' else CHR ''+'') then Some 62
      else if c = (if url then CHR ''_'' else CHR ''/'') then Some 63 else None)"

fun b64_encode :: "bool \<Rightarrow> bool \<Rightarrow> string \<Rightarrow> string" where
  "b64_encode url pad (a # b # c # s) =
     b64_char url (byte a div 4) # b64_char url (byte a mod 4 * 16 + byte b div 16)
       # b64_char url (byte b mod 16 * 4 + byte c div 64) # b64_char url (byte c mod 64) # b64_encode url pad s"
| "b64_encode url pad [a, b] =
     [b64_char url (byte a div 4), b64_char url (byte a mod 4 * 16 + byte b div 16), b64_char url (byte b mod 16 * 4)]
     @ (if pad then ''='' else [])"
| "b64_encode url pad [a] =
     [b64_char url (byte a div 4), b64_char url (byte a mod 4 * 16)] @ (if pad then ''=='' else [])"
| "b64_encode url pad [] = []"

text \<open>The decoder skips line ends, wants the padding at the end only, and does not look at unused bits.\<close>

fun b64_quads :: "bool \<Rightarrow> bool \<Rightarrow> string \<Rightarrow> string option" where
  "b64_quads url pad [] = Some []"
| "b64_quads url pad [_] = None"
| "b64_quads url pad [c1, c2] =
     (if pad then None
      else case (b64_val url c1, b64_val url c2) of
        (Some v1, Some v2) \<Rightarrow> Some [char_of (v1 * 4 + v2 div 16)] | _ \<Rightarrow> None)"
| "b64_quads url pad [c1, c2, c3] =
     (if pad then None
      else case (b64_val url c1, b64_val url c2, b64_val url c3) of
        (Some v1, Some v2, Some v3) \<Rightarrow> Some [char_of (v1 * 4 + v2 div 16), char_of (v2 mod 16 * 16 + v3 div 4)]
      | _ \<Rightarrow> None)"
| "b64_quads url pad (c1 # c2 # c3 # c4 # s) =
     (case (b64_val url c1, b64_val url c2) of
        (Some v1, Some v2) \<Rightarrow>
          (if pad \<and> c3 = CHR ''='' then (if c4 = CHR ''='' \<and> s = [] then Some [char_of (v1 * 4 + v2 div 16)] else None)
           else case b64_val url c3 of
             None \<Rightarrow> None
           | Some v3 \<Rightarrow>
               if pad \<and> c4 = CHR ''='' then
                 (if s = [] then Some [char_of (v1 * 4 + v2 div 16), char_of (v2 mod 16 * 16 + v3 div 4)] else None)
               else case (b64_val url c4, b64_quads url pad s) of
                 (Some v4, Some t) \<Rightarrow>
                   Some (char_of (v1 * 4 + v2 div 16) # char_of (v2 mod 16 * 16 + v3 div 4) # char_of (v3 mod 4 * 64 + v4) # t)
               | _ \<Rightarrow> None)
      | _ \<Rightarrow> None)"

definition b64_decode :: "bool \<Rightarrow> bool \<Rightarrow> string \<Rightarrow> string option" where
  "b64_decode url pad s = b64_quads url pad (filter (\<lambda>c. byte c \<noteq> 10 \<and> byte c \<noteq> 13) s)"

abbreviation raw_url :: "string \<Rightarrow> string" where "raw_url \<equiv> b64_encode True False"

text \<open>The package \<open>cryptox/base64\<close>.\<close>

definition base64_Encrypt :: "string \<Rightarrow> string" where "base64_Encrypt src = b64_encode False True src"
definition base64_Decrypt :: "string \<Rightarrow> string option" where "base64_Decrypt encryptText = b64_decode False True encryptText"
definition EncryptURL :: "string \<Rightarrow> string" where "EncryptURL src = b64_encode True True src"
definition DecryptURL :: "string \<Rightarrow> string option" where "DecryptURL encryptText = b64_decode True True encryptText"

section \<open>Hashes and signatures of messages\<close>

text \<open>The hash functions are arguments; those of \<open>hmac\<close> take the key first.\<close>

definition EncodeMD5 :: "(string \<Rightarrow> string) \<Rightarrow> string \<Rightarrow> string" where
  "EncodeMD5 md5 src = raw_url (md5 src)"

definition CheckMD5 :: "(string \<Rightarrow> string) \<Rightarrow> string \<Rightarrow> string \<Rightarrow> bool" where
  "CheckMD5 md5 content encrypted \<longleftrightarrow> EncodeMD5 md5 content = encrypted"

text \<open>A reader gives its bytes until its end or its first error, which is passed over.\<close>

definition FileMD5 :: "(string \<Rightarrow> string) \<Rightarrow> string \<times> string option \<Rightarrow> string" where
  "FileMD5 md5 file = raw_url (md5 (fst file))"

definition CheckFileMD5 :: "(string \<Rightarrow> string) \<Rightarrow> string \<times> string option \<Rightarrow> string \<Rightarrow> bool" where
  "CheckFileMD5 md5 file encrypted \<longleftrightarrow> FileMD5 md5 file = encrypted"

definition SHA256HashCode :: "(string \<Rightarrow> string) \<Rightarrow> string \<Rightarrow> string" where
  "SHA256HashCode sha256 src = raw_url (sha256 src)"

definition SHA512HashCode :: "(string \<Rightarrow> string) \<Rightarrow> string \<Rightarrow> string" where
  "SHA512HashCode sha512 src = raw_url (sha512 src)"

definition DefaultHMACKey :: string where "DefaultHMACKey = ''wVPDRAZsOEKZu4s4''"

record CryptoHMAC = hm_key :: string

definition HMAC :: "(string \<Rightarrow> string \<Rightarrow> string) \<Rightarrow> CryptoHMAC \<Rightarrow> string \<Rightarrow> string" where
  "HMAC hmac_md5 c src = raw_url (hmac_md5 (hm_key c) src)"
definition HMACSHA256 :: "(string \<Rightarrow> string \<Rightarrow> string) \<Rightarrow> CryptoHMAC \<Rightarrow> string \<Rightarrow> string" where
  "HMACSHA256 hmac_sha256 c src = raw_url (hmac_sha256 (hm_key c) src)"
definition HMACSHA512 :: "(string \<Rightarrow> string \<Rightarrow> string) \<Rightarrow> CryptoHMAC \<Rightarrow> string \<Rightarrow> string" where
  "HMACSHA512 hmac_sha512 c src = raw_url (hmac_sha512 (hm_key c) src)"
definition HMACSha1 :: "(string \<Rightarrow> string \<Rightarrow> string) \<Rightarrow> CryptoHMAC \<Rightarrow> string \<Rightarrow> string" where
  "HMACSha1 hmac_sha1 c src = raw_url (hmac_sha1 (hm_key c) src)"

section \<open>Slices\<close>

text \<open>
  A slice has its bytes at the front of an array that may go on after them, up to its capacity. \<open>append\<close>
  writes into that array when there is room; the result is what the new slice holds together with what
  the caller's array holds afterwards.
\<close>

record go_slice =
  sl_array :: string
  sl_len :: nat

definition slice_bytes :: "go_slice \<Rightarrow> string" where
  "slice_bytes s = take (sl_len s) (sl_array s)"

definition slice_of :: "string \<Rightarrow> go_slice" where
  "slice_of s = \<lparr>sl_array = s, sl_len = length s\<rparr>"

definition go_append :: "go_slice \<Rightarrow> string \<Rightarrow> string \<times> string" where
  "go_append s t =
     (slice_bytes s @ t,
      if sl_len s + length t \<le> length (sl_array s) then slice_bytes s @ t @ drop (sl_len s + length t) (sl_array s)
      else sl_array s)"

section \<open>Block ciphers\<close>

definition zero_byte :: char where "zero_byte = char_of (0 :: nat)"

definition zeroPadding :: "go_slice \<Rightarrow> nat \<Rightarrow> string \<times> string" where
  "zeroPadding cipherText blockSize =
     (let padding = blockSize - length (slice_bytes cipherText) mod blockSize;
          padText = replicate padding zero_byte
      in go_append cipherText padText)"

definition zeroUnPadding :: "string \<Rightarrow> string" where
  "zeroUnPadding origData = rev (dropWhile (\<lambda>c. c = zero_byte) (rev origData))"

definition pkcs7Padding :: "string \<Rightarrow> nat \<Rightarrow> string" where
  "pkcs7Padding ciphertext blocksize =
     (let padding = blocksize - length ciphertext mod blocksize
      in ciphertext @ replicate padding (char_of padding))"

text \<open>An empty slice, or a last byte that is larger than the length, panics.\<close>

definition pkcs7UnPadding :: "string \<Rightarrow> string option" where
  "pkcs7UnPadding origData =
     (if origData = [] then None
      else let unpadding = byte (last origData)
           in if unpadding \<le> length origData then Some (take (length origData - unpadding) origData) else None)"

text \<open>The loop of \<open>rsa.split\<close>, which is also how the CBC mode cuts a text into blocks.\<close>

function chunks_of :: "nat \<Rightarrow> string \<Rightarrow> string list" where
  "chunks_of lim buf =
     (if 0 < lim \<and> lim \<le> length buf then take lim buf # chunks_of lim (drop lim buf)
      else if buf = [] then [] else [buf])"
  by pat_completeness auto
termination by (relation "measure (\<lambda>(lim, buf). length buf)") auto

declare chunks_of.simps [simp del]

record block_cipher =
  bc_size :: nat
  bc_encrypt :: "string \<Rightarrow> string"
  bc_decrypt :: "string \<Rightarrow> string"

record crypto =
  cr_block :: block_cipher
  cr_iv :: string

definition xor_bytes :: "string \<Rightarrow> string \<Rightarrow> string" where
  "xor_bytes a b = map2 (\<lambda>c d. char_of (Bit_Operations.xor (byte c) (byte d))) a b"

fun cbc_encrypt :: "(string \<Rightarrow> string) \<Rightarrow> string \<Rightarrow> string list \<Rightarrow> string list" where
  "cbc_encrypt enc iv [] = []"
| "cbc_encrypt enc iv (p # ps) = (let c = enc (xor_bytes p iv) in c # cbc_encrypt enc c ps)"

fun cbc_decrypt :: "(string \<Rightarrow> string) \<Rightarrow> string \<Rightarrow> string list \<Rightarrow> string list" where
  "cbc_decrypt dec iv [] = []"
| "cbc_decrypt dec iv (c # cs) = xor_bytes (dec c) iv # cbc_decrypt dec c cs"

text \<open>\<open>CryptBlocks\<close> panics unless it is given full blocks.\<close>

definition cbc_encrypter :: "crypto \<Rightarrow> string \<Rightarrow> string option" where
  "cbc_encrypter c src =
     (if length src mod bc_size (cr_block c) \<noteq> 0 then None
      else Some (concat (cbc_encrypt (bc_encrypt (cr_block c)) (cr_iv c) (chunks_of (bc_size (cr_block c)) src))))"

definition cbc_decrypter :: "crypto \<Rightarrow> string \<Rightarrow> string option" where
  "cbc_decrypter c src =
     (if length src mod bc_size (cr_block c) \<noteq> 0 then None
      else Some (concat (cbc_decrypt (bc_decrypt (cr_block c)) (cr_iv c) (chunks_of (bc_size (cr_block c)) src))))"

text \<open>What \<open>NewCipher\<close> answers to the key is an argument; an empty or refused key panics.\<close>

definition NewAESCrypto :: "(string \<Rightarrow> string + block_cipher) \<Rightarrow> string \<Rightarrow> crypto option" where
  "NewAESCrypto newCipher key =
     (if key = [] then None
      else case newCipher key of
        Inl e \<Rightarrow> None
      | Inr block \<Rightarrow> Some \<lparr>cr_block = block, cr_iv = take (bc_size block) key\<rparr>)"

definition NewDESCrypto :: "(string \<Rightarrow> string + block_cipher) \<Rightarrow> string \<Rightarrow> crypto option" where
  "NewDESCrypto newCipher key =
     (if key = [] then None
      else case newCipher key of
        Inl e \<Rightarrow> None
      | Inr block \<Rightarrow> Some \<lparr>cr_block = block, cr_iv = take (bc_size block) key\<rparr>)"

text \<open>The text, and what the array of the caller's slice holds afterwards.\<close>

definition aes_Encrypt :: "crypto \<Rightarrow> go_slice \<Rightarrow> (string \<times> string) option" where
  "aes_Encrypt c src =
     (let (padded, arr) = zeroPadding src (bc_size (cr_block c))
      in map_option (\<lambda>out. (raw_url out, arr)) (cbc_encrypter c padded))"

definition aes_Decrypt :: "crypto \<Rightarrow> string \<Rightarrow> (string + string) option" where
  "aes_Decrypt c encryptText =
     (case b64_decode True False encryptText of
        None \<Rightarrow> Some (Inl ''illegal base64 data'')
      | Some baseSrc \<Rightarrow>
          if length baseSrc = 0 \<or> length baseSrc mod bc_size (cr_block c) \<noteq> 0
          then Some (Inl ''aes: ciphertext is not a multiple of the block size'')
          else map_option (\<lambda>out. Inr (zeroUnPadding out)) (cbc_decrypter c baseSrc))"

definition des_Encrypt :: "crypto \<Rightarrow> go_slice \<Rightarrow> (string \<times> string) option" where
  "des_Encrypt c src =
     (let (padded, arr) = zeroPadding src (bc_size (cr_block c))
      in map_option (\<lambda>out. (raw_url out, arr)) (cbc_encrypter c padded))"

definition des_Decrypt :: "crypto \<Rightarrow> string \<Rightarrow> (string + string) option" where
  "des_Decrypt c encryptText =
     (case b64_decode True False encryptText of
        None \<Rightarrow> Some (Inl ''illegal base64 data'')
      | Some baseSrc \<Rightarrow>
          if length baseSrc = 0 \<or> length baseSrc mod bc_size (cr_block c) \<noteq> 0
          then Some (Inl ''des: ciphertext is not a multiple of the block size'')
          else map_option (\<lambda>out. Inr (zeroUnPadding out)) (cbc_decrypter c baseSrc))"

section \<open>RSA\<close>

text \<open>
  A key pair: the bits of its modulus and the operations of PKCS 1, version 1.5. Encryption draws on random
  bytes, a number here; an operation may fail.
\<close>

record rsa_keys =
  rsa_bits :: nat
  rsa_enc :: "nat \<Rightarrow> string \<Rightarrow> string + string"
  rsa_dec :: "string \<Rightarrow> string + string"
  rsa_sign :: "string \<Rightarrow> string + string"
  rsa_verify :: "string \<Rightarrow> string \<Rightarrow> string option"

text \<open>The result of \<open>split\<close>: without a positive size it panics, on the division or on the slice.\<close>

definition rsa_split :: "string \<Rightarrow> int \<Rightarrow> string list option" where
  "rsa_split buf lim = (if lim \<le> 0 then None else Some (chunks_of (nat lim) buf))"

fun rsa_encrypt_chunks :: "rsa_keys \<Rightarrow> (nat \<Rightarrow> nat) \<Rightarrow> nat \<Rightarrow> string list \<Rightarrow> string + string" where
  "rsa_encrypt_chunks k rnd i [] = Inr []"
| "rsa_encrypt_chunks k rnd i (chunk # chunks) =
     (case rsa_enc k (rnd i) chunk of
        Inl e \<Rightarrow> Inl e
      | Inr b \<Rightarrow> map_sum id (\<lambda>r. b @ r) (rsa_encrypt_chunks k rnd (Suc i) chunks))"

fun rsa_decrypt_chunks :: "rsa_keys \<Rightarrow> string list \<Rightarrow> string + string" where
  "rsa_decrypt_chunks k [] = Inr []"
| "rsa_decrypt_chunks k (chunk # chunks) =
     (case rsa_dec k chunk of
        Inl e \<Rightarrow> Inl e
      | Inr b \<Rightarrow> map_sum id (\<lambda>r. b @ r) (rsa_decrypt_chunks k chunks))"

definition rsa_Encrypt :: "rsa_keys \<Rightarrow> (nat \<Rightarrow> nat) \<Rightarrow> string \<Rightarrow> (string + string) option" where
  "rsa_Encrypt k rnd src =
     map_option (\<lambda>chunks. map_sum id raw_url (rsa_encrypt_chunks k rnd 0 chunks)) (rsa_split src (int (rsa_bits k div 8) - 11))"

definition rsa_Decrypt :: "rsa_keys \<Rightarrow> string \<Rightarrow> (string + string) option" where
  "rsa_Decrypt k encryptText =
     (case b64_decode True False encryptText of
        None \<Rightarrow> Some (Inl ''illegal base64 data'')
      | Some raw \<Rightarrow> map_option (rsa_decrypt_chunks k) (rsa_split raw (int (rsa_bits k div 8))))"

definition rsa_Sign :: "(string \<Rightarrow> string) \<Rightarrow> rsa_keys \<Rightarrow> string \<Rightarrow> string + string" where
  "rsa_Sign sha256 k data = map_sum id raw_url (rsa_sign k (sha256 data))"

definition rsa_Verify :: "(string \<Rightarrow> string) \<Rightarrow> rsa_keys \<Rightarrow> string \<Rightarrow> string \<Rightarrow> string option" where
  "rsa_Verify sha256 k data sign =
     (case b64_decode True False sign of
        None \<Rightarrow> Some ''illegal base64 data''
      | Some decodedSign \<Rightarrow> rsa_verify k (sha256 data) decodedSign)"

text \<open>The functions of the package use the pair it was given, if any.\<close>

definition rsa_package_Encrypt :: "rsa_keys option \<Rightarrow> (nat \<Rightarrow> nat) \<Rightarrow> string \<Rightarrow> (string + string) option" where
  "rsa_package_Encrypt rsaCrypto rnd src =
     (case rsaCrypto of
        None \<Rightarrow> Some (Inl ''rsa crypto not initialized, call SetRSACrypto first'') | Some k \<Rightarrow> rsa_Encrypt k rnd src)"

definition rsa_package_Decrypt :: "rsa_keys option \<Rightarrow> string \<Rightarrow> (string + string) option" where
  "rsa_package_Decrypt rsaCrypto encryptText =
     (case rsaCrypto of
        None \<Rightarrow> Some (Inl ''rsa crypto not initialized, call SetRSACrypto first'') | Some k \<Rightarrow> rsa_Decrypt k encryptText)"


section \<open>Facts\<close>

subsection \<open>Base64\<close>

lemma b64_char_facts [simp]:
  assumes "n < 64"
  shows "b64_val url (b64_char url n) = Some n" "byte (b64_char url n) \<noteq> 10" "byte (b64_char url n) \<noteq> 13"
    "b64_char url n \<noteq> CHR ''=''"
proof -
  have b: "byte (b64_char url n) =
      (if n < 26 then 65 + n else if n < 52 then 71 + n else if n < 62 then n - 4
       else if n = 62 then (if url then 45 else 43) else if url then 95 else 47)"
    using assms by (simp add: b64_char_def)
  show "byte (b64_char url n) \<noteq> 10" "byte (b64_char url n) \<noteq> 13" unfolding b using assms by auto
  have "byte (b64_char url n) \<noteq> 61" unfolding b using assms by auto
  then show "b64_char url n \<noteq> CHR ''=''" by auto
  show "b64_val url (b64_char url n) = Some n"
  proof (cases "n < 62")
    case True
    then show ?thesis unfolding b64_val_def Let_def b by auto
  next
    case False
    then have "n = 62 \<or> n = 63" using assms by auto
    then show ?thesis by (cases url) (auto simp: b64_val_def b64_char_def)
  qed
qed

lemma b64_sextets [simp]:
  fixes a b c :: char
  shows "byte a div 4 < 64" "byte a mod 4 * 16 + byte b div 16 < 64" "byte b mod 16 * 4 + byte c div 64 < 64"
    "byte c mod 64 < 64" "byte a mod 4 * 16 < 64" "byte b mod 16 * 4 < 64"
proof -
  have "byte a < 256" "byte b < 256" "byte c < 256" by simp_all
  then show "byte a div 4 < 64" "byte a mod 4 * 16 + byte b div 16 < 64" "byte b mod 16 * 4 + byte c div 64 < 64"
    "byte c mod 64 < 64" "byte a mod 4 * 16 < 64" "byte b mod 16 * 4 < 64"
    by linarith+
qed

lemma b64_octets [simp]:
  fixes c :: char
  shows "byte c div 16 div 16 = 0" "byte c div 16 mod 16 = byte c div 16" "byte c div 64 div 4 = 0"
    "byte c div 64 mod 4 = byte c div 64"
proof -
  have "byte c < 256" by simp
  then have "byte c div 16 < 16" "byte c div 64 < 4" by linarith+
  then show "byte c div 16 div 16 = 0" "byte c div 16 mod 16 = byte c div 16" "byte c div 64 div 4 = 0"
    "byte c div 64 mod 4 = byte c div 64"
    by simp_all
qed

lemma b64_quads_encode: "b64_quads url pad (b64_encode url pad s) = Some s"
  by (induction url pad s rule: b64_encode.induct) simp_all

lemma b64_encode_no_line_end: "c \<in> set (b64_encode url pad s) \<Longrightarrow> byte c \<noteq> 10 \<and> byte c \<noteq> 13"
  by (induction url pad s rule: b64_encode.induct) (auto split: if_splits)

lemma b64_decode_encode [simp]: "b64_decode url pad (b64_encode url pad s) = Some s"
proof -
  have "filter (\<lambda>c. byte c \<noteq> 10 \<and> byte c \<noteq> 13) (b64_encode url pad s) = b64_encode url pad s"
    using b64_encode_no_line_end by (auto simp: filter_id_conv)
  then show ?thesis by (simp add: b64_decode_def b64_quads_encode)
qed

text \<open>
  What is written in Base64 is read back, in each of the alphabets and with or without padding; so two texts
  are written alike only when they are the same.
\<close>

theorem base64_roundtrip: "b64_decode url pad (b64_encode url pad s) = Some s"
  by (rule b64_decode_encode)

lemma b64_encode_inj [simp]: "b64_encode url pad s = b64_encode url pad t \<longleftrightarrow> s = t"
  by (metis b64_decode_encode option.inject)

lemma CheckMD5_EncodeMD5: "CheckMD5 md5 content (EncodeMD5 md5 content') \<longleftrightarrow> md5 content = md5 content'"
  by (simp add: CheckMD5_def EncodeMD5_def)

subsection \<open>Chunks\<close>

lemma chunks_step: "0 < lim \<Longrightarrow> lim \<le> length s \<Longrightarrow> chunks_of lim s = take lim s # chunks_of lim (drop lim s)"
  by (subst chunks_of.simps) simp

lemma chunks_last: "lim = 0 \<or> length s < lim \<Longrightarrow> chunks_of lim s = (if s = [] then [] else [s])"
  by (subst chunks_of.simps) auto

lemma chunks_induct [case_names step last]:
  assumes "\<And>s. lim \<le> length s \<Longrightarrow> 0 < lim \<Longrightarrow> P (drop lim s) \<Longrightarrow> P s" and "\<And>s. lim = 0 \<or> length s < lim \<Longrightarrow> P s"
  shows "P s"
proof (induction "length s" arbitrary: s rule: less_induct)
  case less
  show ?case
  proof (cases "lim = 0 \<or> length s < lim")
    case False
    then have "P (drop lim s)" by (intro less) auto
    then show ?thesis using False assms(1) [of s] by simp
  qed (rule assms(2))
qed

lemma concat_chunks_of [simp]: "concat (chunks_of lim s) = s"
proof (induction s rule: chunks_induct [where lim = lim])
  case (step s)
  then show ?case by (simp add: chunks_step [of lim s])
next
  case (last s)
  then show ?case by (simp add: chunks_last [of lim s])
qed

lemma chunks_of_length:
  assumes "0 < lim" and "c \<in> set (chunks_of lim s)"
  shows "0 < length c \<and> length c \<le> lim"
  using assms(2)
proof (induction s rule: chunks_induct [where lim = lim])
  case (step s)
  then show ?case by (auto simp: chunks_step [of lim s])
next
  case (last s)
  then show ?case using assms(1) by (auto simp: chunks_last [of lim s] split: if_splits)
qed

lemma chunks_of_concat:
  assumes "0 < lim"
  shows "\<forall>c \<in> set cs. length c = lim \<Longrightarrow> chunks_of lim (concat cs) = cs"
proof (induction cs)
  case Nil
  then show ?case using assms by (simp add: chunks_last [of lim "[]"])
next
  case (Cons c cs)
  then show ?case using assms chunks_step [of lim "c @ concat cs"] by simp
qed

lemma chunks_of_full:
  assumes "0 < lim"
  shows "length s mod lim = 0 \<Longrightarrow> \<forall>c \<in> set (chunks_of lim s). length c = lim"
proof (induction s rule: chunks_induct [where lim = lim])
  case (step s)
  have "length (drop lim s) mod lim = length s mod lim" unfolding length_drop by (rule le_mod_geq [OF step(1), symmetric])
  also have "\<dots> = 0" by (rule step.prems)
  finally have r: "\<forall>c \<in> set (chunks_of lim (drop lim s)). length c = lim" by (rule step(3))
  have "length (take lim s) = lim" using step(1) by simp
  with r show ?case unfolding chunks_step [OF assms step(1)] by auto
next
  case (last s)
  then show ?case using assms chunks_last [of lim s] by auto
qed

subsection \<open>CBC and padding\<close>

lemma take_bit_byte [simp]: "take_bit 8 (byte c) = byte c"
  by (simp add: take_bit_nat_eq_self)

lemma xor_byte [simp]: "char_of (Bit_Operations.xor (byte (char_of (Bit_Operations.xor (byte c) (byte d)))) (byte d)) = c"
proof -
  have "take_bit 8 (Bit_Operations.xor (byte c) (byte d)) = Bit_Operations.xor (byte c) (byte d)"
    by (simp only: take_bit_xor take_bit_byte)
  then have "byte (char_of (Bit_Operations.xor (byte c) (byte d))) = Bit_Operations.xor (byte c) (byte d)"
    by (simp add: of_char_of take_bit_eq_mod)
  then show ?thesis by (simp add: xor.assoc)
qed


lemma xor_byte_mod [simp]: "char_of (Bit_Operations.xor (Bit_Operations.xor (byte c) (byte d) mod 256) (byte d)) = c"
  using xor_byte [of c d] by simp

lemma xor_bytes_cancel [simp]: "length a \<le> length b \<Longrightarrow> xor_bytes (xor_bytes a b) b = a"
  by (induction a b rule: list_induct2') (simp_all add: xor_bytes_def)

lemma length_xor_bytes [simp]: "length (xor_bytes a b) = min (length a) (length b)"
  by (simp add: xor_bytes_def)

text \<open>What the code relies on of a block cipher.\<close>

definition block_cipher_ok :: "block_cipher \<Rightarrow> bool" where
  "block_cipher_ok b \<longleftrightarrow>
     0 < bc_size b \<and> (\<forall>p. length p = bc_size b \<longrightarrow> length (bc_encrypt b p) = bc_size b \<and> bc_decrypt b (bc_encrypt b p) = p)"

lemma cbc_roundtrip:
  assumes "block_cipher_ok b" and "length iv = bc_size b" and "\<forall>p \<in> set ps. length p = bc_size b"
  shows "cbc_decrypt (bc_decrypt b) iv (cbc_encrypt (bc_encrypt b) iv ps) = ps
    \<and> (\<forall>c \<in> set (cbc_encrypt (bc_encrypt b) iv ps). length c = bc_size b)"
  using assms(2,3)
proof (induction ps arbitrary: iv)
  case (Cons p ps)
  let ?c = "bc_encrypt b (xor_bytes p iv)"
  have "length (xor_bytes p iv) = bc_size b" using Cons.prems by simp
  then have c: "length ?c = bc_size b" "bc_decrypt b ?c = xor_bytes p iv" using assms(1) by (simp_all add: block_cipher_ok_def)
  show ?case using Cons.IH [OF c(1)] Cons.prems c by (simp add: Let_def)
qed simp

lemma length_concat_cbc [simp]:
  "\<forall>c \<in> set cs. length c = n \<Longrightarrow> length (concat cs) = n * length cs"
  by (induction cs) simp_all

lemma length_cbc_encrypt [simp]: "length (cbc_encrypt enc iv ps) = length ps"
  by (induction ps arbitrary: iv) (simp_all add: Let_def)

lemma cbc_crypters:
  assumes "block_cipher_ok (cr_block c)" and "length (cr_iv c) = bc_size (cr_block c)" and "length s mod bc_size (cr_block c) = 0"
  shows "\<exists>out. cbc_encrypter c s = Some out \<and> cbc_decrypter c out = Some s \<and> length out = length s"
proof -
  let ?b = "cr_block c"
  have pos: "0 < bc_size ?b" using assms(1) by (simp add: block_cipher_ok_def)
  define ps where "ps = chunks_of (bc_size ?b) s"
  define cs where "cs = cbc_encrypt (bc_encrypt ?b) (cr_iv c) ps"
  have full: "\<forall>p \<in> set ps. length p = bc_size ?b" using chunks_of_full [OF pos assms(3)] by (simp add: ps_def)
  have cs: "cbc_decrypt (bc_decrypt ?b) (cr_iv c) cs = ps" "\<forall>x \<in> set cs. length x = bc_size ?b"
    using cbc_roundtrip [OF assms(1,2) full] by (simp_all add: cs_def)
  have s: "concat ps = s" by (simp add: ps_def)
  have "length s = bc_size ?b * length ps" using length_concat_cbc [OF full] s by simp
  then have len: "length (concat cs) = length s" using length_concat_cbc [OF cs(2)] by (simp add: cs_def)
  have "cbc_encrypter c s = Some (concat cs)" using assms(3) by (simp add: cbc_encrypter_def cs_def ps_def)
  moreover have "cbc_decrypter c (concat cs) = Some s"
    using assms(3) len cs s chunks_of_concat [OF pos cs(2)] by (simp add: cbc_decrypter_def)
  ultimately show ?thesis using len by blast
qed

lemma zeroPadding_facts:
  assumes "0 < bs"
  shows "\<exists>n. fst (zeroPadding s bs) = slice_bytes s @ replicate n zero_byte \<and> 0 < n \<and> n \<le> bs
    \<and> length (fst (zeroPadding s bs)) mod bs = 0"
proof -
  let ?l = "length (slice_bytes s)" and ?n = "bs - length (slice_bytes s) mod bs"
  have "?l mod bs < bs" using assms by simp
  then have n: "0 < ?n" "?n \<le> bs" by auto
  have "(?l + ?n) mod bs = (?l mod bs + ?n) mod bs" by (simp add: mod_add_left_eq)
  also have "?l mod bs + ?n = bs" using \<open>?l mod bs < bs\<close> by simp
  finally have "(?l + ?n) mod bs = 0" by simp
  then show ?thesis using n by (intro exI [of _ ?n]) (simp add: zeroPadding_def go_append_def Let_def)
qed

lemma zeroUnPadding_padded [simp]: "zeroUnPadding (s @ replicate n zero_byte) = zeroUnPadding s"
  unfolding zeroUnPadding_def rev_append rev_replicate by (subst dropWhile_append2) auto


lemma crypter_roundtrip:
  assumes "block_cipher_ok (cr_block c)" and "length (cr_iv c) = bc_size (cr_block c)"
  shows "\<exists>out. cbc_encrypter c (fst (zeroPadding s (bc_size (cr_block c)))) = Some out
    \<and> length out > 0 \<and> length out mod bc_size (cr_block c) = 0
    \<and> map_option zeroUnPadding (cbc_decrypter c out) = Some (zeroUnPadding (slice_bytes s))"
proof -
  have pos: "0 < bc_size (cr_block c)" using assms(1) by (simp add: block_cipher_ok_def)
  obtain n where n: "fst (zeroPadding s (bc_size (cr_block c))) = slice_bytes s @ replicate n zero_byte" "0 < n"
    and m: "length (fst (zeroPadding s (bc_size (cr_block c)))) mod bc_size (cr_block c) = 0"
    using zeroPadding_facts [OF pos, of s] by (elim exE conjE)
  define p where "p = fst (zeroPadding s (bc_size (cr_block c)))"
  obtain out where out: "cbc_encrypter c p = Some out" "cbc_decrypter c out = Some p" "length out = length p"
    using cbc_crypters [OF assms m [folded p_def]] by (elim exE conjE)
  have p: "zeroUnPadding p = zeroUnPadding (slice_bytes s)" "0 < length p" unfolding p_def n(1) using n(2) by simp_all
  show ?thesis unfolding p_def [symmetric] using out p m [folded p_def] by (intro exI [of _ out]) simp
qed

lemma aes_Encrypt_returns:
  assumes "block_cipher_ok (cr_block c)" and "length (cr_iv c) = bc_size (cr_block c)"
  shows "\<exists>t arr. aes_Encrypt c s = Some (t, arr)"
proof -
  obtain out where "cbc_encrypter c (fst (zeroPadding s (bc_size (cr_block c)))) = Some out"
    using crypter_roundtrip [OF assms, of s] by blast
  then show ?thesis by (cases "zeroPadding s (bc_size (cr_block c))") (simp add: aes_Encrypt_def)
qed

text \<open>
  C17. AES and DES, over any block cipher that decrypts what it encrypted: encrypting never fails, and what was
  encrypted decrypts to the same bytes without the zero bytes at their end. So a text comes back
  exactly when it does not end with a zero byte.
\<close>

theorem cipher_roundtrip:
  assumes "block_cipher_ok (cr_block c)" and "length (cr_iv c) = bc_size (cr_block c)"
  shows "(\<exists>t arr. aes_Encrypt c s = Some (t, arr) \<and> aes_Decrypt c t = Some (Inr (zeroUnPadding (slice_bytes s))))
     \<and> (\<exists>t arr. des_Encrypt c s = Some (t, arr) \<and> des_Decrypt c t = Some (Inr (zeroUnPadding (slice_bytes s))))
     \<and> (zeroUnPadding (slice_bytes s) = slice_bytes s \<longleftrightarrow> slice_bytes s = [] \<or> last (slice_bytes s) \<noteq> zero_byte)"
proof -
  obtain out d where out: "cbc_encrypter c (fst (zeroPadding s (bc_size (cr_block c)))) = Some out"
    "0 < length out" "length out mod bc_size (cr_block c) = 0"
    "cbc_decrypter c out = Some d" "zeroUnPadding d = zeroUnPadding (slice_bytes s)"
    using crypter_roundtrip [OF assms, of s] by auto
  have "zeroUnPadding b = b \<longleftrightarrow> b = [] \<or> last b \<noteq> zero_byte" for b
  proof (cases b rule: rev_cases)
    case (snoc y x)
    have "length (zeroUnPadding (y @ [zero_byte])) \<le> length y"
      by (simp add: zeroUnPadding_def length_dropWhile_le [of _ "rev y", simplified])
    then have "zeroUnPadding (y @ [zero_byte]) \<noteq> y @ [zero_byte]" by auto
    then show ?thesis using snoc by (cases "x = zero_byte") (simp_all add: zeroUnPadding_def)
  qed (simp add: zeroUnPadding_def)
  with out show ?thesis
    by (cases "zeroPadding s (bc_size (cr_block c))")
      (simp add: aes_Encrypt_def aes_Decrypt_def des_Encrypt_def des_Decrypt_def)
qed

text \<open>A cipher to instantiate the theorem with.\<close>

definition demo_cipher :: block_cipher where
  "demo_cipher = \<lparr>bc_size = 8, bc_encrypt = rev, bc_decrypt = rev\<rparr>"

theorem cipher_roundtrip_witness:
  "\<exists>t arr. aes_Encrypt \<lparr>cr_block = demo_cipher, cr_iv = ''j2nyYuA=''\<rparr> (slice_of ''hello'') = Some (t, arr)
     \<and> aes_Decrypt \<lparr>cr_block = demo_cipher, cr_iv = ''j2nyYuA=''\<rparr> t = Some (Inr ''hello'')"
proof -
  let ?c = "\<lparr>cr_block = demo_cipher, cr_iv = ''j2nyYuA=''\<rparr>"
  have "block_cipher_ok (cr_block ?c)" "length (cr_iv ?c) = bc_size (cr_block ?c)"
    by (simp_all add: block_cipher_ok_def demo_cipher_def)
  note t = cipher_roundtrip [OF this, of "slice_of ''hello''"]
  have "zeroUnPadding (slice_bytes (slice_of ''hello'')) = ''hello''" by code_simp
  with t show ?thesis by simp
qed

text \<open>
  Decrypting never panics: text that is not Base64, an empty text and one that is not made of full blocks are
  errors, anything else is decrypted.
\<close>

theorem decrypt_total:
  "aes_Decrypt c t \<noteq> None \<and> des_Decrypt c t \<noteq> None
     \<and> ((\<exists>e. aes_Decrypt c t = Some (Inl e)) \<longleftrightarrow>
          (\<forall>raw. b64_decode True False t = Some raw \<longrightarrow> raw = [] \<or> length raw mod bc_size (cr_block c) \<noteq> 0))"
  by (auto simp: aes_Decrypt_def des_Decrypt_def cbc_decrypter_def split: option.splits)

text \<open>
  Encrypting writes into the array of the slice it is given: when the array goes on for at least the length of the padding,
  that many bytes behind the text are set to zero, and otherwise nothing of it changes.
\<close>

theorem encrypt_overwrites:
  assumes "sl_len s \<le> length (sl_array s)" and "aes_Encrypt c s = Some (t, arr)"
  defines "n \<equiv> bc_size (cr_block c) - sl_len s mod bc_size (cr_block c)"
  shows "arr = (if sl_len s + n \<le> length (sl_array s)
    then take (sl_len s) (sl_array s) @ replicate n zero_byte @ drop (sl_len s + n) (sl_array s) else sl_array s)"
  using assms(1,2)
  by (auto simp: aes_Encrypt_def zeroPadding_def go_append_def slice_bytes_def n_def Let_def min_def split: if_splits)

theorem encrypt_overwrites_witness:
  "\<exists>t. aes_Encrypt \<lparr>cr_block = demo_cipher, cr_iv = ''j2nyYuA=''\<rparr> \<lparr>sl_array = ''hello, world'', sl_len = 5\<rparr>
     = Some (t, ''hello'' @ replicate 3 zero_byte @ ''orld'')"
proof -
  let ?c = "\<lparr>cr_block = demo_cipher, cr_iv = ''j2nyYuA=''\<rparr>" and ?s = "\<lparr>sl_array = ''hello, world'', sl_len = 5\<rparr>"
  have "block_cipher_ok (cr_block ?c)" "length (cr_iv ?c) = bc_size (cr_block ?c)"
    by (simp_all add: block_cipher_ok_def demo_cipher_def)
  then obtain t arr where e: "aes_Encrypt ?c ?s = Some (t, arr)" using aes_Encrypt_returns by blast
  have "sl_len ?s \<le> length (sl_array ?s)" by simp
  from encrypt_overwrites [OF this e] have "arr = ''hello'' @ replicate 3 zero_byte @ ''orld''"
    by (simp add: demo_cipher_def)
  with e show ?thesis by blast
qed

lemma pkcs7_roundtrip:
  assumes "0 < blocksize" and "blocksize < 256"
  shows "pkcs7UnPadding (pkcs7Padding s blocksize) = Some s"
proof -
  define n where "n = blocksize - length s mod blocksize"
  have "length s mod blocksize < blocksize" using assms(1) by simp
  then have n: "0 < n" "n < 256" using assms(2) by (auto simp: n_def)
  then have "last (s @ replicate n (char_of n)) = char_of n" "byte (char_of n :: char) = n" by simp_all
  then show ?thesis using n(1) by (simp add: pkcs7Padding_def pkcs7UnPadding_def Let_def flip: n_def)
qed

subsection \<open>RSA\<close>

lemma rsa_chunks_roundtrip:
  assumes "\<forall>r p. length p \<le> m \<longrightarrow> (\<exists>b. rsa_enc k r p = Inr b \<and> length b = n \<and> rsa_dec k b = Inr p)"
    and "\<forall>p \<in> set ps. length p \<le> m"
  shows "\<exists>bs. rsa_encrypt_chunks k rnd i ps = Inr (concat bs) \<and> (\<forall>b \<in> set bs. length b = n)
    \<and> rsa_decrypt_chunks k bs = Inr (concat ps) \<and> length bs = length ps"
  using assms(2)
proof (induction ps arbitrary: i)
  case Nil
  show ?case by (intro exI [of _ "[]"]) simp
next
  case (Cons p ps)
  obtain b where b: "rsa_enc k (rnd i) p = Inr b" "length b = n" "rsa_dec k b = Inr p" using assms(1) Cons.prems by auto
  obtain bs where bs: "rsa_encrypt_chunks k rnd (Suc i) ps = Inr (concat bs)" "\<forall>b \<in> set bs. length b = n"
    "rsa_decrypt_chunks k bs = Inr (concat ps)" "length bs = length ps"
    using Cons.IH [of "Suc i"] Cons.prems by auto
  show ?case using b bs by (intro exI [of _ "b # bs"]) simp
qed


text \<open>Keys to instantiate the theorem with: the length, the text, and zeros up to the size.\<close>

definition demo_keys :: rsa_keys where
  "demo_keys = \<lparr>rsa_bits = 96,
     rsa_enc = \<lambda>_ p. Inr (take 12 (char_of (length p) # p @ replicate (11 - length p) zero_byte)),
     rsa_dec = \<lambda>b. if length b \<noteq> 12 then Inl ''crypto/rsa: decryption error'' else Inr (take (byte (hd b)) (tl b)),
     rsa_sign = Inr, rsa_verify = \<lambda>_ _. None\<rparr>"


end
