(* ===== verification/Ginmetrics.thy ===== *)
theory Ginmetrics
  imports Go_Strings "HOL-Library.Word"
begin

unbundle bit_operations_syntax

text \<open>
  The Bloom filter of \<open>bloom/bloom.go\<close> and the metrics of \<open>ginmetrics\<close>: the registry of metrics, what each kind
  of metric records, and the handler that counts requests and visitors. A collector of the Prometheus
  library is the list of the samples it was given; a floating-point number is a value of a type variable.
\<close>

section \<open>The Bloom filter\<close>

definition defaultSize :: "64 word" where "defaultSize = push_bit 24 2"

definition seeds :: "64 word list" where "seeds = [7, 11, 13, 31, 37, 61]"

record simpleHash =
  sh_Cap :: "64 word"
  sh_Seed :: "64 word"

fun hash_loop :: "64 word \<Rightarrow> 64 word \<Rightarrow> string \<Rightarrow> 64 word" where
  "hash_loop seed result [] = result"
| "hash_loop seed result (c # s) = hash_loop seed (result * seed + of_nat (byte c)) s"

definition bloom_hash :: "simpleHash \<Rightarrow> string \<Rightarrow> 64 word" where
  "bloom_hash f value = (sh_Cap f - 1) AND hash_loop (sh_Seed f) 0 value"

text \<open>A bit set is the set of its bits; \<open>Set\<close> makes it larger where needed and \<open>Test\<close> is false beyond its end.\<close>

record BloomFilter =
  bf_Set :: "nat set"
  bf_Funcs :: "simpleHash list"

definition NewBloomFilter :: BloomFilter where
  "NewBloomFilter = \<lparr>bf_Set = {}, bf_Funcs = map (\<lambda>s. \<lparr>sh_Cap = defaultSize, sh_Seed = s\<rparr>) seeds\<rparr>"

definition bloom_Add :: "string \<Rightarrow> BloomFilter \<Rightarrow> BloomFilter" where
  "bloom_Add value bf = fold (\<lambda>f b. b\<lparr>bf_Set := insert (unat (bloom_hash f value)) (bf_Set b)\<rparr>) (bf_Funcs bf) bf"

definition bloom_Contains :: "string \<Rightarrow> BloomFilter \<Rightarrow> bool" where
  "bloom_Contains value bf \<longleftrightarrow>
     (if value = [] then False else list_all (\<lambda>f. unat (bloom_hash f value) \<in> bf_Set bf) (bf_Funcs bf))"

section \<open>Metrics\<close>

datatype MetricType = NoneType | Counter | Gauge | Histogram | Summary

datatype 'f sample = SInc | SAdd 'f | SSet 'f | SObserve 'f

record 'f Metric =
  mt_Type :: MetricType
  mt_Name :: string
  mt_Description :: string
  mt_Labels :: "string list"
  mt_Buckets :: "'f list"
  mt_Objectives :: "('f \<times> 'f) list"
  mt_vec :: "(string list \<times> 'f sample) list"

definition empty_metric :: "'f Metric" where
  "empty_metric = \<lparr>mt_Type = NoneType, mt_Name = [], mt_Description = [], mt_Labels = [], mt_Buckets = [],
     mt_Objectives = [], mt_vec = []\<rparr>"

text \<open>
  \<open>WithLabelValues\<close> panics when there are more or fewer values than labels. An operation gives its error, if
  any, and the metric afterwards.
\<close>

definition with_sample :: "string list \<Rightarrow> 'f sample \<Rightarrow> 'f Metric \<Rightarrow> (string option \<times> 'f Metric) option" where
  "with_sample labelValues x m =
     (if length labelValues = length (mt_Labels m) then Some (None, m\<lparr>mt_vec := mt_vec m @ [(labelValues, x)]\<rparr>) else None)"

definition not_existed :: "'f Metric \<Rightarrow> string" where
  "not_existed m = ''metric '' @ [CHR 0x27] @ mt_Name m @ [CHR 0x27] @ '' not existed.''"

definition not_type :: "string \<Rightarrow> 'f Metric \<Rightarrow> string" where
  "not_type kind m = ''metric '' @ [CHR 0x27] @ mt_Name m @ [CHR 0x27] @ '' not '' @ kind @ '' type''"

definition SetGaugeValue :: "string list \<Rightarrow> 'f \<Rightarrow> 'f Metric \<Rightarrow> (string option \<times> 'f Metric) option" where
  "SetGaugeValue labelValues x m =
     (if mt_Type m = NoneType then Some (Some (not_existed m), m)
      else if mt_Type m \<noteq> Gauge then Some (Some (not_type ''Gauge'' m), m)
      else with_sample labelValues (SSet x) m)"

definition metric_Inc :: "string list \<Rightarrow> 'f Metric \<Rightarrow> (string option \<times> 'f Metric) option" where
  "metric_Inc labelValues m =
     (if mt_Type m = NoneType then Some (Some (not_existed m), m)
      else if mt_Type m \<noteq> Gauge \<and> mt_Type m \<noteq> Counter then Some (Some (not_type ''Gauge or Counter'' m), m)
      else with_sample labelValues SInc m)"

text \<open>A counter panics when it is to be made smaller.\<close>

definition metric_Add :: "('f \<Rightarrow> bool) \<Rightarrow> string list \<Rightarrow> 'f \<Rightarrow> 'f Metric \<Rightarrow> (string option \<times> 'f Metric) option" where
  "metric_Add negative labelValues x m =
     (if mt_Type m = NoneType then Some (Some (not_existed m), m)
      else if mt_Type m \<noteq> Gauge \<and> mt_Type m \<noteq> Counter then Some (Some (not_type ''Gauge or Counter'' m), m)
      else if mt_Type m = Counter \<and> negative x then None
      else with_sample labelValues (SAdd x) m)"

definition metric_Observe :: "string list \<Rightarrow> 'f \<Rightarrow> 'f Metric \<Rightarrow> (string option \<times> 'f Metric) option" where
  "metric_Observe labelValues x m =
     (if mt_Type m = NoneType then Some (Some (not_existed m), m)
      else if mt_Type m \<noteq> Histogram \<and> mt_Type m \<noteq> Summary then Some (Some (not_type ''Histogram or Summary'' m), m)
      else with_sample labelValues (SObserve x) m)"

section \<open>The monitor\<close>

record 'f Monitor =
  mo_slowTime :: int
  mo_metricPath :: string
  mo_reqDuration :: "'f list"
  mo_metrics :: "string \<rightharpoonup> 'f Metric"

definition NewMonitor :: "'f list \<Rightarrow> 'f Monitor" where
  "NewMonitor defaultDuration =
     \<lparr>mo_slowTime = 5, mo_metricPath = ''/debug/metrics'', mo_reqDuration = defaultDuration, mo_metrics = Map.empty\<rparr>"

text \<open>The monitor is made by the first call and the same one ever after.\<close>

definition GetMonitor :: "'f list \<Rightarrow> 'f Monitor option \<Rightarrow> 'f Monitor" where
  "GetMonitor defaultDuration monitor = (case monitor of None \<Rightarrow> NewMonitor defaultDuration | Some m \<Rightarrow> m)"

definition GetMetric :: "string \<Rightarrow> 'f Monitor \<Rightarrow> 'f Metric" where
  "GetMetric name m = (case mo_metrics m name of Some metric \<Rightarrow> metric | None \<Rightarrow> empty_metric)"

definition SetMetricPath :: "string \<Rightarrow> 'f Monitor \<Rightarrow> 'f Monitor" where
  "SetMetricPath path m = m\<lparr>mo_metricPath := path\<rparr>"
definition SetSlowTime :: "int \<Rightarrow> 'f Monitor \<Rightarrow> 'f Monitor" where
  "SetSlowTime slowTime m = m\<lparr>mo_slowTime := slowTime\<rparr>"
definition SetDuration :: "'f list \<Rightarrow> 'f Monitor \<Rightarrow> 'f Monitor" where
  "SetDuration duration m = m\<lparr>mo_reqDuration := duration\<rparr>"

text \<open>The handlers of \<open>promTypeHandler\<close> make the collector, empty at first.\<close>

definition counterHandler :: "'f Metric \<Rightarrow> string + 'f Metric" where
  "counterHandler metric = Inr (metric\<lparr>mt_vec := []\<rparr>)"
definition gaugeHandler :: "'f Metric \<Rightarrow> string + 'f Metric" where
  "gaugeHandler metric = Inr (metric\<lparr>mt_vec := []\<rparr>)"
definition histogramHandler :: "'f Metric \<Rightarrow> string + 'f Metric" where
  "histogramHandler metric =
     (if mt_Buckets metric = []
      then Inl (''metric '' @ [CHR 0x27] @ mt_Name metric @ [CHR 0x27] @ '' is histogram type, cannot lose bucket param.'')
      else Inr (metric\<lparr>mt_vec := []\<rparr>))"
definition summaryHandler :: "'f Metric \<Rightarrow> string + 'f Metric" where
  "summaryHandler metric =
     (if mt_Objectives metric = []
      then Inl (''metric '' @ [CHR 0x27] @ mt_Name metric @ [CHR 0x27] @ '' is summary type, cannot lose objectives param.'')
      else Inr (metric\<lparr>mt_vec := []\<rparr>))"

fun promTypeHandler :: "MetricType \<Rightarrow> ('f Metric \<Rightarrow> string + 'f Metric) option" where
  "promTypeHandler NoneType = None"
| "promTypeHandler Counter = Some counterHandler"
| "promTypeHandler Gauge = Some gaugeHandler"
| "promTypeHandler Histogram = Some histogramHandler"
| "promTypeHandler Summary = Some summaryHandler"

fun type_number :: "MetricType \<Rightarrow> int" where
  "type_number NoneType = 0" | "type_number Counter = 1" | "type_number Gauge = 2" | "type_number Histogram = 3"
| "type_number Summary = 4"

text \<open>\<open>taken\<close> are the names that the default registry of the process has from elsewhere: \<open>MustRegister\<close> panics on them.\<close>

definition AddMetric :: "string set \<Rightarrow> 'f Metric \<Rightarrow> 'f Monitor \<Rightarrow> (string option \<times> 'f Monitor) option" where
  "AddMetric taken metric m =
     (let unknown = Some (Some (''metric type '' @ [CHR 0x27] @ itoa (type_number (mt_Type metric)) @ [CHR 0x27] @ '' not existed.''), m) in
      if mo_metrics m (mt_Name metric) \<noteq> None
      then Some (Some (''metric '' @ [CHR 0x27] @ mt_Name metric @ [CHR 0x27] @ '' is existed''), m)
      else if mt_Name metric = [] then Some (Some ''metric name cannot be empty.'', m)
      else case promTypeHandler (mt_Type metric) of
        None \<Rightarrow> unknown
      | Some f \<Rightarrow>
          (case f metric of
             Inl e \<Rightarrow> unknown
           | Inr metric' \<Rightarrow>
               if mt_Name metric' \<in> taken then None
               else Some (None, m\<lparr>mo_metrics := (mo_metrics m)(mt_Name metric' \<mapsto> metric')\<rparr>)))"

section \<open>The middleware\<close>

text \<open>The names are variables of the package.\<close>

record metric_names =
  mn_RequestTotal :: string
  mn_RequestUVTotal :: string
  mn_URIRequestTotal :: string
  mn_RequestBody :: string
  mn_ResponseBody :: string
  mn_RequestDuration :: string
  mn_SlowRequest :: string

definition default_names :: metric_names where
  "default_names = \<lparr>mn_RequestTotal = ''gin_request_total'', mn_RequestUVTotal = ''gin_request_uv_total'',
     mn_URIRequestTotal = ''gin_uri_request_total'', mn_RequestBody = ''gin_request_body_total'',
     mn_ResponseBody = ''gin_response_body_total'', mn_RequestDuration = ''gin_request_duration'',
     mn_SlowRequest = ''gin_slow_request_total''\<rparr>"

definition SetMetricPrefix :: "string \<Rightarrow> metric_names \<Rightarrow> metric_names" where
  "SetMetricPrefix prefix n =
     \<lparr>mn_RequestTotal = prefix @ mn_RequestTotal n, mn_RequestUVTotal = prefix @ mn_RequestUVTotal n,
      mn_URIRequestTotal = prefix @ mn_URIRequestTotal n, mn_RequestBody = prefix @ mn_RequestBody n,
      mn_ResponseBody = prefix @ mn_ResponseBody n, mn_RequestDuration = prefix @ mn_RequestDuration n,
      mn_SlowRequest = prefix @ mn_SlowRequest n\<rparr>"

definition SetMetricSuffix :: "string \<Rightarrow> metric_names \<Rightarrow> metric_names" where
  "SetMetricSuffix suffix n =
     \<lparr>mn_RequestTotal = mn_RequestTotal n @ suffix, mn_RequestUVTotal = mn_RequestUVTotal n @ suffix,
      mn_URIRequestTotal = mn_URIRequestTotal n @ suffix, mn_RequestBody = mn_RequestBody n @ suffix,
      mn_ResponseBody = mn_ResponseBody n @ suffix, mn_RequestDuration = mn_RequestDuration n @ suffix,
      mn_SlowRequest = mn_SlowRequest n @ suffix\<rparr>"

record 'f gin_state =
  gs_names :: metric_names
  gs_bloom :: BloomFilter
  gs_monitor :: "'f Monitor"

definition gin_metrics :: "metric_names \<Rightarrow> 'f Monitor \<Rightarrow> 'f Metric list" where
  "gin_metrics n m =
     [empty_metric\<lparr>mt_Type := Counter, mt_Name := mn_RequestTotal n, mt_Description := ''all the server received request num.''\<rparr>,
      empty_metric\<lparr>mt_Type := Counter, mt_Name := mn_RequestUVTotal n, mt_Description := ''all the server received ip num.''\<rparr>,
      empty_metric\<lparr>mt_Type := Counter, mt_Name := mn_URIRequestTotal n,
        mt_Description := ''all the server received request num with every uri.'', mt_Labels := [''uri'', ''method'', ''code'']\<rparr>,
      empty_metric\<lparr>mt_Type := Counter, mt_Name := mn_RequestBody n,
        mt_Description := ''the server received request body size, unit byte''\<rparr>,
      empty_metric\<lparr>mt_Type := Counter, mt_Name := mn_ResponseBody n,
        mt_Description := ''the server send response body size, unit byte''\<rparr>,
      empty_metric\<lparr>mt_Type := Histogram, mt_Name := mn_RequestDuration n,
        mt_Description := ''the time server took to handle the request.'', mt_Labels := [''uri''], mt_Buckets := mo_reqDuration m\<rparr>,
      empty_metric\<lparr>mt_Type := Counter, mt_Name := mn_SlowRequest n,
        mt_Description := ''the server handled slow requests counter, t='' @ itoa (mo_slowTime m) @ ''.'',
        mt_Labels := [''uri'', ''method'', ''code'']\<rparr>]"

text \<open>Errors of \<open>AddMetric\<close> are dropped, a panic is not.\<close>

fun add_metrics :: "string set \<Rightarrow> 'f Metric list \<Rightarrow> 'f Monitor \<Rightarrow> 'f Monitor option" where
  "add_metrics taken [] m = Some m"
| "add_metrics taken (metric # ms) m = (case AddMetric taken metric m of None \<Rightarrow> None | Some (_, m') \<Rightarrow> add_metrics taken ms m')"

definition initGinMetrics :: "string set \<Rightarrow> 'f gin_state \<Rightarrow> 'f gin_state option" where
  "initGinMetrics taken s =
     map_option (\<lambda>m. s\<lparr>gs_bloom := NewBloomFilter, gs_monitor := m\<rparr>)
       (add_metrics taken (gin_metrics (gs_names s) (gs_monitor s)) (gs_monitor s))"

text \<open>What the handler reads of a request and its response; the seconds are those that have passed in full.\<close>

record 'f gin_request =
  rq_path :: string
  rq_FullPath :: string
  rq_Method :: string
  rq_Status :: int
  rq_ClientIP :: string
  rq_ContentLength :: int
  rq_Size :: int
  rq_seconds :: int
  rq_latency :: 'f

text \<open>An operation on the metric of a name: it changes the metric the monitor has, or an empty one that is thrown away.\<close>

definition on_metric :: "('f Metric \<Rightarrow> (string option \<times> 'f Metric) option) \<Rightarrow> string \<Rightarrow> 'f gin_state \<Rightarrow> 'f gin_state option" where
  "on_metric f name s =
     (case f (GetMetric name (gs_monitor s)) of
        None \<Rightarrow> None
      | Some (_, m') \<Rightarrow>
          Some (if mo_metrics (gs_monitor s) name = None then s
                else s\<lparr>gs_monitor := (gs_monitor s)\<lparr>mo_metrics := (mo_metrics (gs_monitor s))(name \<mapsto> m')\<rparr>\<rparr>))"

definition count_visitor :: "string \<Rightarrow> 'f gin_state \<Rightarrow> 'f gin_state option" where
  "count_visitor clientIP s =
     (let newVisitor = \<not> bloom_Contains clientIP (gs_bloom s);
          s1 = (if newVisitor then s\<lparr>gs_bloom := bloom_Add clientIP (gs_bloom s)\<rparr> else s)
      in if newVisitor then on_metric (metric_Inc []) (mn_RequestUVTotal (gs_names s1)) s1 else Some s1)"

definition ginMetricHandle :: "('f \<Rightarrow> bool) \<Rightarrow> (int \<Rightarrow> 'f) \<Rightarrow> 'f gin_request \<Rightarrow> 'f gin_state \<Rightarrow> 'f gin_state option" where
  "ginMetricHandle negative float64 r s =
     (let n = gs_names s; labels = [rq_FullPath r, rq_Method r, itoa (rq_Status r)] in
      case on_metric (metric_Inc []) (mn_RequestTotal n) s of None \<Rightarrow> None | Some s1 \<Rightarrow>
      case count_visitor (rq_ClientIP r) s1 of None \<Rightarrow> None | Some s2 \<Rightarrow>
      case on_metric (metric_Inc labels) (mn_URIRequestTotal n) s2 of None \<Rightarrow> None | Some s3 \<Rightarrow>
      case (if rq_ContentLength r \<ge> 0 then on_metric (metric_Add negative [] (float64 (rq_ContentLength r))) (mn_RequestBody n) s3
            else Some s3) of None \<Rightarrow> None | Some s4 \<Rightarrow>
      case (if rq_seconds r > mo_slowTime (gs_monitor s4) then on_metric (metric_Inc labels) (mn_SlowRequest n) s4
            else Some s4) of None \<Rightarrow> None | Some s5 \<Rightarrow>
      case on_metric (metric_Observe [rq_FullPath r] (rq_latency r)) (mn_RequestDuration n) s5 of None \<Rightarrow> None | Some s6 \<Rightarrow>
      if rq_Size r > 0 then on_metric (metric_Add negative [] (float64 (rq_Size r))) (mn_ResponseBody n) s6 else Some s6)"

text \<open>Requests for the metrics themselves are not counted.\<close>

definition monitorInterceptor :: "('f \<Rightarrow> bool) \<Rightarrow> (int \<Rightarrow> 'f) \<Rightarrow> 'f gin_request \<Rightarrow> 'f gin_state \<Rightarrow> 'f gin_state option" where
  "monitorInterceptor negative float64 r s =
     (if rq_path r = mo_metricPath (gs_monitor s) then Some s else ginMetricHandle negative float64 r s)"

fun serve :: "('f \<Rightarrow> bool) \<Rightarrow> (int \<Rightarrow> 'f) \<Rightarrow> 'f gin_request list \<Rightarrow> 'f gin_state \<Rightarrow> 'f gin_state option" where
  "serve negative float64 [] s = Some s"
| "serve negative float64 (r # rs) s =
     (case monitorInterceptor negative float64 r s of None \<Rightarrow> None | Some s' \<Rightarrow> serve negative float64 rs s')"


section \<open>Facts\<close>

subsection \<open>The filter\<close>

definition bloom_bits :: "BloomFilter \<Rightarrow> string \<Rightarrow> nat set" where
  "bloom_bits bf v = (\<lambda>f. unat (bloom_hash f v)) ` set (bf_Funcs bf)"

lemma bloom_Add_eq: "bloom_Add v bf = bf\<lparr>bf_Set := bf_Set bf \<union> bloom_bits bf v\<rparr>"
proof -
  have "fold (\<lambda>f b. b\<lparr>bf_Set := insert (unat (bloom_hash f v)) (bf_Set b)\<rparr>) fs b
      = b\<lparr>bf_Set := bf_Set b \<union> (\<lambda>f. unat (bloom_hash f v)) ` set fs\<rparr>" for fs and b :: BloomFilter
    by (induction fs arbitrary: b) simp_all
  then show ?thesis by (simp add: bloom_Add_def bloom_bits_def)
qed

lemma bloom_Contains_iff: "bloom_Contains v bf \<longleftrightarrow> v \<noteq> [] \<and> bloom_bits bf v \<subseteq> bf_Set bf"
  by (auto simp: bloom_Contains_def bloom_bits_def list_all_iff)

lemma bloom_bits_Set [simp]: "bloom_bits (bf\<lparr>bf_Set := B\<rparr>) v = bloom_bits bf v"
  by (simp add: bloom_bits_def)

lemma bloom_Add_mono: "bloom_Contains v bf \<Longrightarrow> bloom_Contains v (bloom_Add w bf)"
  by (auto simp: bloom_Contains_iff bloom_Add_eq)

lemma bloom_Contains_Add: "v \<noteq> [] \<Longrightarrow> bloom_Contains v (bloom_Add v bf)"
  by (auto simp: bloom_Contains_iff bloom_Add_eq)

lemma bloom_fold_mono: "bloom_Contains v bf \<Longrightarrow> bloom_Contains v (fold bloom_Add vs bf)"
  by (induction vs arbitrary: bf) (auto intro: bloom_Add_mono)

text \<open>
  The Bloom filter. What was added is contained from then on, whatever is added after it, unless it is
  empty; an empty filter contains nothing; and every bit is below \<open>2 ^ 25\<close>, so that the set never grows.
\<close>

theorem bloom_filter_sound:
  shows "(v \<in> set vs \<and> v \<noteq> [] \<longrightarrow> bloom_Contains v (fold bloom_Add vs NewBloomFilter))
     \<and> \<not> bloom_Contains v NewBloomFilter \<and> \<not> bloom_Contains [] (fold bloom_Add vs NewBloomFilter)
     \<and> (\<forall>i \<in> bf_Set (fold bloom_Add vs NewBloomFilter). i < 2 ^ 25)"
proof (intro conjI impI)
  assume v: "v \<in> set vs \<and> v \<noteq> []"
  then obtain as bs where "vs = as @ v # bs" by (meson split_list)
  then show "bloom_Contains v (fold bloom_Add vs NewBloomFilter)"
    using v by (simp add: bloom_fold_mono bloom_Contains_Add)
next
  have "bloom_bits NewBloomFilter v \<noteq> {}" by (simp add: bloom_bits_def NewBloomFilter_def seeds_def)
  then show "\<not> bloom_Contains v NewBloomFilter" by (auto simp: bloom_Contains_iff NewBloomFilter_def)
  show "\<not> bloom_Contains [] (fold bloom_Add vs NewBloomFilter)" by (simp add: bloom_Contains_iff)
  have bits: "bloom_bits bf w \<subseteq> {..< 2 ^ 25}" if "\<forall>f \<in> set (bf_Funcs bf). sh_Cap f = defaultSize" for bf w
  proof
    fix i
    assume "i \<in> bloom_bits bf w"
    then obtain f where f: "f \<in> set (bf_Funcs bf)" "i = unat (bloom_hash f w)" by (auto simp: bloom_bits_def)
    have "bloom_hash f w = (mask 25 :: 64 word) AND hash_loop (sh_Seed f) 0 w"
      using f(1) that by (simp add: bloom_hash_def defaultSize_def mask_eq_exp_minus_1 push_bit_eq_mult)
    then have "bloom_hash f w \<le> mask 25" by (simp add: word_and_le1 word_and_le2)
    then have "unat (bloom_hash f w) \<le> unat (mask 25 :: 64 word)" by (simp add: word_le_nat_alt)
    then show "i \<in> {..< 2 ^ 25}" using f(2) by (simp add: mask_eq_exp_minus_1)
  qed
  have "bf_Set (fold bloom_Add vs bf) \<subseteq> {..< 2 ^ 25}"
    if "bf_Set bf \<subseteq> {..< 2 ^ 25}" "\<forall>f \<in> set (bf_Funcs bf). sh_Cap f = defaultSize" for bf
    using that
  proof (induction vs arbitrary: bf)
    case (Cons w vs)
    have "bf_Set (bloom_Add w bf) \<subseteq> {..< 2 ^ 25}" using Cons.prems bits [of bf w] by (auto simp: bloom_Add_eq)
    then show ?case using Cons by (simp add: bloom_Add_eq)
  qed simp
  from this [of NewBloomFilter] show "\<forall>i \<in> bf_Set (fold bloom_Add vs NewBloomFilter). i < 2 ^ 25"
    by (auto simp: NewBloomFilter_def)
qed

subsection \<open>Samples\<close>

definition samples :: "string \<Rightarrow> 'f gin_state \<Rightarrow> (string list \<times> 'f sample) list" where
  "samples name s = mt_vec (GetMetric name (gs_monitor s))"

text \<open>What \<open>name\<close> stands for: whether the monitor has it, its type and its number of labels.\<close>

definition metric_kind :: "string \<Rightarrow> 'f gin_state \<Rightarrow> (MetricType \<times> nat) option" where
  "metric_kind name s = map_option (\<lambda>m. (mt_Type m, length (mt_Labels m))) (mo_metrics (gs_monitor s) name)"

definition record_sample :: "string \<Rightarrow> string list \<Rightarrow> 'f sample \<Rightarrow> 'f gin_state \<Rightarrow> 'f gin_state" where
  "record_sample name labels x s =
     s\<lparr>gs_monitor := (gs_monitor s)\<lparr>mo_metrics := (mo_metrics (gs_monitor s))
         (name := map_option (\<lambda>m. m\<lparr>mt_vec := mt_vec m @ [(labels, x)]\<rparr>) (mo_metrics (gs_monitor s) name))\<rparr>\<rparr>"

lemma record_sample_simps [simp]:
  "gs_names (record_sample name l x s) = gs_names s"
  "gs_bloom (record_sample name l x s) = gs_bloom s"
  "mo_slowTime (gs_monitor (record_sample name l x s)) = mo_slowTime (gs_monitor s)"
  "mo_metricPath (gs_monitor (record_sample name l x s)) = mo_metricPath (gs_monitor s)"
  by (simp_all add: record_sample_def)

lemma metric_kind_record [simp]: "metric_kind k (record_sample name l x s) = metric_kind k s"
  by (cases "mo_metrics (gs_monitor s) name") (simp_all add: metric_kind_def record_sample_def)

lemma samples_record [simp]:
  "samples k (record_sample name l x s) =
     (if k = name \<and> metric_kind name s \<noteq> None then samples k s @ [(l, x)] else samples k s)"
  by (cases "mo_metrics (gs_monitor s) name")
    (simp_all add: samples_def record_sample_def GetMetric_def metric_kind_def empty_metric_def)

lemma gs_bloom_simps [simp]:
  "samples k (s\<lparr>gs_bloom := b\<rparr>) = samples k s" "metric_kind k (s\<lparr>gs_bloom := b\<rparr>) = metric_kind k s"
  by (simp_all add: samples_def metric_kind_def)

lemma on_metric_sample:
  "mo_metrics (gs_monitor s) name = Some m \<Longrightarrow> f m = Some (None, m\<lparr>mt_vec := mt_vec m @ [(l, x)]\<rparr>) \<Longrightarrow>
     on_metric f name s = Some (record_sample name l x s)"
  by (simp add: on_metric_def GetMetric_def record_sample_def)

lemma metric_kindD:
  "metric_kind name s = Some (k, n) \<Longrightarrow> \<exists>m. mo_metrics (gs_monitor s) name = Some m \<and> mt_Type m = k \<and> length (mt_Labels m) = n"
  by (cases "mo_metrics (gs_monitor s) name") (simp_all add: metric_kind_def)

lemma on_metric_Inc:
  assumes "metric_kind name s = Some (Counter, length l)"
  shows "on_metric (metric_Inc l) name s = Some (record_sample name l SInc s)"
proof -
  obtain m where "mo_metrics (gs_monitor s) name = Some m" "mt_Type m = Counter" "length (mt_Labels m) = length l"
    using metric_kindD [OF assms] by blast
  then show ?thesis by (intro on_metric_sample [of s name m]) (simp_all add: metric_Inc_def with_sample_def)
qed

lemma on_metric_Add:
  assumes "metric_kind name s = Some (Counter, length l)" and "\<not> negative x"
  shows "on_metric (metric_Add negative l x) name s = Some (record_sample name l (SAdd x) s)"
proof -
  obtain m where "mo_metrics (gs_monitor s) name = Some m" "mt_Type m = Counter" "length (mt_Labels m) = length l"
    using metric_kindD [OF assms(1)] by blast
  then show ?thesis using assms(2) by (intro on_metric_sample [of s name m]) (simp_all add: metric_Add_def with_sample_def)
qed

lemma on_metric_Observe:
  assumes "metric_kind name s = Some (Histogram, length l)"
  shows "on_metric (metric_Observe l x) name s = Some (record_sample name l (SObserve x) s)"
proof -
  obtain m where "mo_metrics (gs_monitor s) name = Some m" "mt_Type m = Histogram" "length (mt_Labels m) = length l"
    using metric_kindD [OF assms] by blast
  then show ?thesis by (intro on_metric_sample [of s name m]) (simp_all add: metric_Observe_def with_sample_def)
qed

definition name_list :: "metric_names \<Rightarrow> string list" where
  "name_list n = [mn_RequestTotal n, mn_RequestUVTotal n, mn_URIRequestTotal n, mn_RequestBody n, mn_ResponseBody n,
     mn_RequestDuration n, mn_SlowRequest n]"

text \<open>The metrics of the middleware are registered, each under its own name.\<close>

definition gin_ready :: "'f gin_state \<Rightarrow> bool" where
  "gin_ready s \<longleftrightarrow>
     (let n = gs_names s in
      distinct (name_list n)
    \<and> metric_kind (mn_RequestTotal n) s = Some (Counter, 0) \<and> metric_kind (mn_RequestUVTotal n) s = Some (Counter, 0)
    \<and> metric_kind (mn_URIRequestTotal n) s = Some (Counter, 3) \<and> metric_kind (mn_RequestBody n) s = Some (Counter, 0)
    \<and> metric_kind (mn_ResponseBody n) s = Some (Counter, 0) \<and> metric_kind (mn_RequestDuration n) s = Some (Histogram, 1)
    \<and> metric_kind (mn_SlowRequest n) s = Some (Counter, 3))"

lemma count_visitor_eq:
  "metric_kind (mn_RequestUVTotal (gs_names s)) s = Some (Counter, 0) \<Longrightarrow>
   count_visitor ip s = Some (if bloom_Contains ip (gs_bloom s) then s
     else record_sample (mn_RequestUVTotal (gs_names s)) [] SInc (s\<lparr>gs_bloom := bloom_Add ip (gs_bloom s)\<rparr>))"
  by (simp add: count_visitor_def Let_def on_metric_Inc)

text \<open>What one counted request records.\<close>

definition request_labels :: "'f gin_request \<Rightarrow> string list" where
  "request_labels r = [rq_FullPath r, rq_Method r, itoa (rq_Status r)]"

lemma handle_ready:
  assumes "gin_ready s" and "\<And>i. 0 \<le> i \<Longrightarrow> \<not> negative (float64 i)"
  shows "\<exists>s'. ginMetricHandle negative float64 r s = Some s' \<and> gin_ready s' \<and> gs_names s' = gs_names s
    \<and> mo_metricPath (gs_monitor s') = mo_metricPath (gs_monitor s)
    \<and> gs_bloom s' = (if bloom_Contains (rq_ClientIP r) (gs_bloom s) then gs_bloom s else bloom_Add (rq_ClientIP r) (gs_bloom s))
    \<and> samples (mn_RequestTotal (gs_names s)) s' = samples (mn_RequestTotal (gs_names s)) s @ [([], SInc)]
    \<and> samples (mn_RequestUVTotal (gs_names s)) s' = samples (mn_RequestUVTotal (gs_names s)) s
        @ (if bloom_Contains (rq_ClientIP r) (gs_bloom s) then [] else [([], SInc)])
    \<and> samples (mn_URIRequestTotal (gs_names s)) s' = samples (mn_URIRequestTotal (gs_names s)) s @ [(request_labels r, SInc)]
    \<and> samples (mn_RequestDuration (gs_names s)) s'
        = samples (mn_RequestDuration (gs_names s)) s @ [([rq_FullPath r], SObserve (rq_latency r))]"
proof -
  define n where "n = gs_names s"
  define s1 where "s1 = record_sample (mn_RequestTotal n) [] SInc s"
  define s2 where "s2 = (if bloom_Contains (rq_ClientIP r) (gs_bloom s) then s1
     else record_sample (mn_RequestUVTotal n) [] SInc (s1\<lparr>gs_bloom := bloom_Add (rq_ClientIP r) (gs_bloom s)\<rparr>))"
  define s3 where "s3 = record_sample (mn_URIRequestTotal n) (request_labels r) SInc s2"
  define s4 where "s4 = (if rq_ContentLength r \<ge> 0
     then record_sample (mn_RequestBody n) [] (SAdd (float64 (rq_ContentLength r))) s3 else s3)"
  define s5 where "s5 = (if rq_seconds r > mo_slowTime (gs_monitor s)
     then record_sample (mn_SlowRequest n) (request_labels r) SInc s4 else s4)"
  define s6 where "s6 = record_sample (mn_RequestDuration n) [rq_FullPath r] (SObserve (rq_latency r)) s5"
  define s7 where "s7 = (if rq_Size r > 0 then record_sample (mn_ResponseBody n) [] (SAdd (float64 (rq_Size r))) s6 else s6)"
  note defs = s1_def s2_def s3_def s4_def s5_def s6_def s7_def
  have kinds: "metric_kind k s1 = metric_kind k s" "metric_kind k s2 = metric_kind k s" "metric_kind k s3 = metric_kind k s"
    "metric_kind k s4 = metric_kind k s" "metric_kind k s5 = metric_kind k s" "metric_kind k s6 = metric_kind k s"
    "metric_kind k s7 = metric_kind k s" for k
    by (simp_all add: defs)
  have names: "gs_names s1 = n" "gs_names s7 = n" "gs_bloom s1 = gs_bloom s" "mo_slowTime (gs_monitor s4) = mo_slowTime (gs_monitor s)"
    "mo_metricPath (gs_monitor s7) = mo_metricPath (gs_monitor s)"
    by (simp_all add: defs n_def)
  have kind: "metric_kind (mn_RequestTotal n) s = Some (Counter, 0)" "metric_kind (mn_RequestUVTotal n) s = Some (Counter, 0)"
    "metric_kind (mn_URIRequestTotal n) s = Some (Counter, 3)" "metric_kind (mn_RequestBody n) s = Some (Counter, 0)"
    "metric_kind (mn_ResponseBody n) s = Some (Counter, 0)" "metric_kind (mn_RequestDuration n) s = Some (Histogram, 1)"
    "metric_kind (mn_SlowRequest n) s = Some (Counter, 3)" and dist: "distinct (name_list n)"
    using assms(1) by (simp_all add: gin_ready_def Let_def n_def)
  have labels: "length (request_labels r) = 3" by (simp add: request_labels_def)
  have step1: "on_metric (metric_Inc []) (mn_RequestTotal n) s = Some s1"
    by (simp add: on_metric_Inc kind s1_def)
  have step2: "count_visitor (rq_ClientIP r) s1 = Some s2"
    using count_visitor_eq [of s1] by (simp add: names kinds kind s2_def)
  have step3: "on_metric (metric_Inc (request_labels r)) (mn_URIRequestTotal n) s2 = Some s3"
    by (simp add: on_metric_Inc kinds kind labels s3_def)
  have step4: "(if rq_ContentLength r \<ge> 0 then on_metric (metric_Add negative [] (float64 (rq_ContentLength r))) (mn_RequestBody n) s3
      else Some s3) = Some s4"
    using assms(2) by (simp add: on_metric_Add kinds kind s4_def)
  have step5: "(if rq_seconds r > mo_slowTime (gs_monitor s4) then on_metric (metric_Inc (request_labels r)) (mn_SlowRequest n) s4
      else Some s4) = Some s5"
    unfolding names by (simp add: on_metric_Inc kinds kind labels s5_def)
  have step6: "on_metric (metric_Observe [rq_FullPath r] (rq_latency r)) (mn_RequestDuration n) s5 = Some s6"
    by (simp add: on_metric_Observe kinds kind s6_def)
  have step7: "(if rq_Size r > 0 then on_metric (metric_Add negative [] (float64 (rq_Size r))) (mn_ResponseBody n) s6 else Some s6) = Some s7"
    using assms(2) by (simp add: on_metric_Add kinds kind s7_def)
  have run: "ginMetricHandle negative float64 r s = Some s7"
    unfolding ginMetricHandle_def Let_def request_labels_def [symmetric] n_def [symmetric]
    by (simp only: step1 step2 step3 step4 step5 step6 step7 option.case)
  have ready: "gin_ready s7" using kind dist by (simp add: gin_ready_def names kinds)
  have d: "mn_RequestTotal n \<noteq> mn_RequestUVTotal n" "mn_RequestTotal n \<noteq> mn_URIRequestTotal n" "mn_RequestTotal n \<noteq> mn_RequestBody n"
    "mn_RequestTotal n \<noteq> mn_ResponseBody n" "mn_RequestTotal n \<noteq> mn_RequestDuration n" "mn_RequestTotal n \<noteq> mn_SlowRequest n"
    "mn_RequestUVTotal n \<noteq> mn_URIRequestTotal n" "mn_RequestUVTotal n \<noteq> mn_RequestBody n" "mn_RequestUVTotal n \<noteq> mn_ResponseBody n"
    "mn_RequestUVTotal n \<noteq> mn_RequestDuration n" "mn_RequestUVTotal n \<noteq> mn_SlowRequest n" "mn_URIRequestTotal n \<noteq> mn_RequestBody n"
    "mn_URIRequestTotal n \<noteq> mn_ResponseBody n" "mn_URIRequestTotal n \<noteq> mn_RequestDuration n" "mn_URIRequestTotal n \<noteq> mn_SlowRequest n"
    "mn_RequestDuration n \<noteq> mn_RequestBody n" "mn_RequestDuration n \<noteq> mn_ResponseBody n" "mn_RequestDuration n \<noteq> mn_SlowRequest n"
    using dist by (auto simp: name_list_def)
  have smp: "samples (mn_RequestTotal n) s7 = samples (mn_RequestTotal n) s @ [([], SInc)]"
    "samples (mn_RequestUVTotal n) s7 = samples (mn_RequestUVTotal n) s
        @ (if bloom_Contains (rq_ClientIP r) (gs_bloom s) then [] else [([], SInc)])"
    "samples (mn_URIRequestTotal n) s7 = samples (mn_URIRequestTotal n) s @ [(request_labels r, SInc)]"
    "samples (mn_RequestDuration n) s7 = samples (mn_RequestDuration n) s @ [([rq_FullPath r], SObserve (rq_latency r))]"
    by (simp_all add: defs d d [symmetric] kind)
  have bloom: "gs_bloom s7 = (if bloom_Contains (rq_ClientIP r) (gs_bloom s) then gs_bloom s else bloom_Add (rq_ClientIP r) (gs_bloom s))"
    by (simp add: defs)
  show ?thesis
    unfolding n_def [symmetric] using run ready names(2,5) smp bloom by blast
qed


subsection \<open>Registering\<close>

fun valid_metric :: "'f Metric \<Rightarrow> bool" where
  "valid_metric m \<longleftrightarrow>
     (case mt_Type m of NoneType \<Rightarrow> False | Counter \<Rightarrow> True | Gauge \<Rightarrow> True | Histogram \<Rightarrow> mt_Buckets m \<noteq> [] | Summary \<Rightarrow> mt_Objectives m \<noteq> [])"

lemma AddMetric_fresh:
  "mo_metrics M (mt_Name m) = None \<Longrightarrow> mt_Name m \<noteq> [] \<Longrightarrow> valid_metric m \<Longrightarrow> mt_Name m \<notin> taken \<Longrightarrow>
     AddMetric taken m M = Some (None, M\<lparr>mo_metrics := (mo_metrics M)(mt_Name m \<mapsto> m\<lparr>mt_vec := []\<rparr>)\<rparr>)"
  by (cases "mt_Type m")
    (simp_all add: AddMetric_def Let_def counterHandler_def gaugeHandler_def histogramHandler_def summaryHandler_def)

lemma add_metrics_fresh:
  assumes "distinct (map mt_Name ms)" and "\<forall>m \<in> set ms. valid_metric m \<and> mt_Name m \<noteq> [] \<and> mt_Name m \<notin> taken \<and> mo_metrics M (mt_Name m) = None"
  shows "\<exists>M'. add_metrics taken ms M = Some M' \<and> (\<forall>m \<in> set ms. mo_metrics M' (mt_Name m) = Some (m\<lparr>mt_vec := []\<rparr>))
    \<and> (\<forall>k. k \<notin> mt_Name ` set ms \<longrightarrow> mo_metrics M' k = mo_metrics M k)
    \<and> mo_slowTime M' = mo_slowTime M \<and> mo_metricPath M' = mo_metricPath M"
  using assms
proof (induction ms arbitrary: M)
  case (Cons m ms)
  let ?M = "M\<lparr>mo_metrics := (mo_metrics M)(mt_Name m \<mapsto> m\<lparr>mt_vec := []\<rparr>)\<rparr>"
  have a: "AddMetric taken m M = Some (None, ?M)" using Cons.prems by (intro AddMetric_fresh) auto
  have "mt_Name m \<notin> mt_Name ` set ms" using Cons.prems(1) by simp
  then have "\<forall>x \<in> set ms. mt_Name x \<noteq> mt_Name m" by (metis image_eqI)
  then have "\<forall>x \<in> set ms. valid_metric x \<and> mt_Name x \<noteq> [] \<and> mt_Name x \<notin> taken \<and> mo_metrics ?M (mt_Name x) = None"
    using Cons.prems(2) by simp
  from Cons.IH [OF _ this] Cons.prems(1) obtain M' where M': "add_metrics taken ms ?M = Some M'"
    "\<forall>x \<in> set ms. mo_metrics M' (mt_Name x) = Some (x\<lparr>mt_vec := []\<rparr>)"
    "\<forall>k. k \<notin> mt_Name ` set ms \<longrightarrow> mo_metrics M' k = mo_metrics ?M k"
    "mo_slowTime M' = mo_slowTime ?M" "mo_metricPath M' = mo_metricPath ?M"
    by auto
  have "mo_metrics M' (mt_Name m) = Some (m\<lparr>mt_vec := []\<rparr>)"
    using M'(3) \<open>mt_Name m \<notin> mt_Name ` set ms\<close> by simp
  then show ?case using a M' by auto
qed simp

lemma add_metrics_existing:
  "\<forall>m \<in> set ms. mo_metrics M (mt_Name m) \<noteq> None \<Longrightarrow> add_metrics taken ms M = Some M"
  by (induction ms) (auto simp: AddMetric_def Let_def)

lemma gin_metrics_names: "map mt_Name (gin_metrics n m) = name_list n"
  by (simp add: gin_metrics_def name_list_def)

lemma gin_metrics_kinds:
  "map (\<lambda>x. (mt_Name x, mt_Type x, length (mt_Labels x))) (gin_metrics n m) =
     [(mn_RequestTotal n, Counter, 0), (mn_RequestUVTotal n, Counter, 0), (mn_URIRequestTotal n, Counter, 3),
      (mn_RequestBody n, Counter, 0), (mn_ResponseBody n, Counter, 0), (mn_RequestDuration n, Histogram, 1),
      (mn_SlowRequest n, Counter, 3)]"
  by (simp add: gin_metrics_def empty_metric_def)

lemma init_ready:
  assumes "distinct (name_list (gs_names s))" and "\<forall>k \<in> set (name_list (gs_names s)). k \<noteq> [] \<and> k \<notin> taken \<and> mo_metrics (gs_monitor s) k = None"
    and "mo_reqDuration (gs_monitor s) \<noteq> []"
  shows "\<exists>s'. initGinMetrics taken s = Some s' \<and> gin_ready s' \<and> gs_names s' = gs_names s \<and> gs_bloom s' = NewBloomFilter
    \<and> mo_metricPath (gs_monitor s') = mo_metricPath (gs_monitor s)
    \<and> (\<forall>k \<in> set (name_list (gs_names s)). samples k s' = [])"
proof -
  define ms where "ms = gin_metrics (gs_names s) (gs_monitor s)"
  have names: "map mt_Name ms = name_list (gs_names s)" by (simp add: ms_def gin_metrics_names)
  then have set: "mt_Name ` set ms = set (name_list (gs_names s))" by (metis set_map)
  have "\<forall>m \<in> set ms. valid_metric m" using assms(3) by (simp add: ms_def gin_metrics_def empty_metric_def)
  then have "\<forall>m \<in> set ms. valid_metric m \<and> mt_Name m \<noteq> [] \<and> mt_Name m \<notin> taken \<and> mo_metrics (gs_monitor s) (mt_Name m) = None"
    using assms(2) set by blast
  from add_metrics_fresh [OF _ this] assms(1) names obtain M' where M': "add_metrics taken ms (gs_monitor s) = Some M'"
    "\<forall>m \<in> set ms. mo_metrics M' (mt_Name m) = Some (m\<lparr>mt_vec := []\<rparr>)" "mo_metricPath M' = mo_metricPath (gs_monitor s)"
    by auto
  define t where "t = s\<lparr>gs_bloom := NewBloomFilter, gs_monitor := M'\<rparr>"
  have t: "gs_names t = gs_names s" "gs_monitor t = M'" "gs_bloom t = NewBloomFilter" by (simp_all add: t_def)
  have "\<forall>(k, ty, l) \<in> set (map (\<lambda>x. (mt_Name x, mt_Type x, length (mt_Labels x))) ms). metric_kind k t = Some (ty, l)"
    using M'(2) by (auto simp: metric_kind_def t)
  then have "gin_ready t"
    unfolding ms_def gin_metrics_kinds using assms(1) by (simp add: gin_ready_def Let_def t)
  moreover have "samples k t = []" if "k \<in> set (name_list (gs_names s))" for k
  proof -
    have "k \<in> mt_Name ` set ms" unfolding set by (rule that)
    then obtain m where "m \<in> set ms" "k = mt_Name m" by (elim imageE)
    then have "mo_metrics M' k = Some (m\<lparr>mt_vec := []\<rparr>)" using M'(2) by blast
    then show ?thesis by (simp add: samples_def GetMetric_def t)
  qed
  moreover have "initGinMetrics taken s = Some t" using M'(1) by (simp add: initGinMetrics_def ms_def t_def)
  moreover have "mo_metricPath (gs_monitor t) = mo_metricPath (gs_monitor s)" using M'(3) t by simp
  ultimately show ?thesis using t by blast
qed

subsection \<open>Counting\<close>


lemma default_names_distinct: "distinct (name_list default_names)" "[] \<notin> set (name_list default_names)"
  by (simp_all add: name_list_def default_names_def)

definition demo_gin :: "int gin_state" where
  "demo_gin = \<lparr>gs_names = default_names, gs_bloom = NewBloomFilter, gs_monitor = NewMonitor [1, 2]\<rparr>"

definition demo_visit :: "int gin_request" where
  "demo_visit = \<lparr>rq_path = ''/a'', rq_FullPath = ''/a'', rq_Method = ''GET'', rq_Status = 200, rq_ClientIP = ''10.0.0.1'',
     rq_ContentLength = 0, rq_Size = 2, rq_seconds = 0, rq_latency = 0\<rparr>"

lemma demo_gin_ready:
  "\<exists>s. initGinMetrics {} demo_gin = Some s \<and> gin_ready s \<and> gs_names s = default_names \<and> gs_bloom s = NewBloomFilter
     \<and> mo_metricPath (gs_monitor s) = ''/debug/metrics'' \<and> samples (mn_RequestUVTotal default_names) s = []"
proof -
  have "\<exists>s'. initGinMetrics {} demo_gin = Some s' \<and> gin_ready s' \<and> gs_names s' = gs_names demo_gin \<and> gs_bloom s' = NewBloomFilter
    \<and> mo_metricPath (gs_monitor s') = mo_metricPath (gs_monitor demo_gin)
    \<and> (\<forall>k \<in> set (name_list (gs_names demo_gin)). samples k s' = [])"
    using default_names_distinct by (intro init_ready) (auto simp: demo_gin_def NewMonitor_def)
  then show ?thesis by (auto simp: demo_gin_def NewMonitor_def name_list_def)
qed


text \<open>
  \<open>Use\<close> and \<open>UseWithoutExposingEndpoint\<close> a second time, as the package allows. The metrics stay as they are, but the
  filter starts anew: a visitor that has been counted already is counted again.
\<close>

theorem visitors_recounted:
  fixes s :: "'f gin_state"
  assumes "gin_ready s" and "\<forall>i. 0 \<le> i \<longrightarrow> \<not> negative (float64 i)" and "rq_path r \<noteq> mo_metricPath (gs_monitor s)"
  shows "\<exists>s1 s2. initGinMetrics taken s = Some s1 \<and> gs_monitor s1 = gs_monitor s
     \<and> serve negative float64 [r] s1 = Some s2
     \<and> samples (mn_RequestUVTotal (gs_names s)) s2 = samples (mn_RequestUVTotal (gs_names s)) s @ [([], SInc)]"
proof -
  define s1 where "s1 = s\<lparr>gs_bloom := NewBloomFilter\<rparr>"
  have "\<forall>m \<in> set (gin_metrics (gs_names s) (gs_monitor s)). mo_metrics (gs_monitor s) (mt_Name m) \<noteq> None"
  proof
    fix m
    assume "m \<in> set (gin_metrics (gs_names s) (gs_monitor s))"
    then have "mt_Name m \<in> set (name_list (gs_names s))" unfolding gin_metrics_names [of _ "gs_monitor s", symmetric] by simp
    then have "metric_kind (mt_Name m) s \<noteq> None" using assms(1) by (auto simp: gin_ready_def Let_def name_list_def)
    then show "mo_metrics (gs_monitor s) (mt_Name m) \<noteq> None" by (simp add: metric_kind_def)
  qed
  then have init: "initGinMetrics taken s = Some s1" by (simp add: initGinMetrics_def add_metrics_existing s1_def)
  have s1: "gin_ready s1" "gs_names s1 = gs_names s" "gs_monitor s1 = gs_monitor s"
    using assms(1) by (simp_all add: s1_def gin_ready_def)
  have "\<not> bloom_Contains (rq_ClientIP r) (gs_bloom s1)"
    by (auto simp: s1_def bloom_Contains_iff NewBloomFilter_def bloom_bits_def seeds_def)
  then obtain s2 where s2: "ginMetricHandle negative float64 r s1 = Some s2"
    "samples (mn_RequestUVTotal (gs_names s)) s2 = samples (mn_RequestUVTotal (gs_names s)) s1 @ [([], SInc)]"
    using handle_ready [OF s1(1), of negative float64 r] assms(2) unfolding s1(2) by auto
  have "samples (mn_RequestUVTotal (gs_names s)) s1 = samples (mn_RequestUVTotal (gs_names s)) s"
    by (simp add: samples_def s1(3))
  then show ?thesis using init s1(3) s2 assms(3) by (auto simp: monitorInterceptor_def)
qed

theorem visitors_recounted_witness:
  "\<exists>s s1 s2. initGinMetrics {} demo_gin = Some s \<and> initGinMetrics {} s = Some s1 \<and> serve (\<lambda>x. x < 0) id [demo_visit] s1 = Some s2
     \<and> samples (mn_RequestUVTotal default_names) s2 = [([], SInc)]"
proof -
  obtain s where s: "initGinMetrics {} demo_gin = Some s" "gin_ready s" "gs_names s = default_names"
    "mo_metricPath (gs_monitor s) = ''/debug/metrics''" "samples (mn_RequestUVTotal default_names) s = []"
    using demo_gin_ready by blast
  have nonneg: "\<forall>i. 0 \<le> i \<longrightarrow> \<not> id i < (0 :: int)" by simp
  have "rq_path demo_visit \<noteq> mo_metricPath (gs_monitor s)" by (simp add: s demo_visit_def)
  from visitors_recounted [of s "\<lambda>x. x < 0" id demo_visit "{}", OF s(2) nonneg this] show ?thesis using s by auto
qed

text \<open>Renaming the metrics once they are registered: the handler finds none of them and counts nothing.\<close>

lemma renamed_not_counted:
  assumes "\<forall>k \<in> set (name_list (gs_names s)). mo_metrics (gs_monitor s) k = None"
  shows "\<exists>s'. ginMetricHandle negative float64 r s = Some s' \<and> gs_monitor s' = gs_monitor s"
proof -
  have "on_metric f k t = Some t"
    if "mo_metrics (gs_monitor t) k = None" "\<exists>e. f empty_metric = Some (e, empty_metric)" for f k and t :: "'a gin_state"
    using that by (auto simp: on_metric_def GetMetric_def)
  moreover have "\<exists>e. metric_Inc l empty_metric = Some (e, empty_metric :: 'a Metric)"
    "\<exists>e. metric_Add negative l x empty_metric = Some (e, empty_metric :: 'a Metric)"
    "\<exists>e. metric_Observe l x empty_metric = Some (e, empty_metric :: 'a Metric)" for l x
    by (simp_all add: metric_Inc_def metric_Add_def metric_Observe_def empty_metric_def)
  ultimately show ?thesis
    using assms by (simp add: ginMetricHandle_def count_visitor_def Let_def name_list_def)
qed

end
