(* ===== verification/Go_Words.thy ===== *)
theory Go_Words
  imports "HOL-Library.Word"
begin

text \<open>
  Signed arithmetic at 64 bits as Go does it: when a product is the product of the numbers, and where a page of a
  listing starts.
\<close>

lemma sint_mult_64:
  fixes a b :: "64 word"
  assumes "- (2 ^ 63) \<le> sint a * sint b" "sint a * sint b < 2 ^ 63"
  shows "sint (a * b) = sint a * sint b"
  using assms by (simp add: sint_word_ariths(3) signed_take_bit_int_eq_self)

lemma sint_page_start:
  fixes pageNo pageSize :: "64 word"
  assumes "1 \<le> sint pageNo" "0 \<le> sint pageSize" "sint pageNo * sint pageSize < 2 ^ 63"
  shows "sint ((pageNo - 1) * pageSize) = (sint pageNo - 1) * sint pageSize"
proof -
  have "sint pageNo < 2 ^ 63" using sint_lt [of pageNo] by simp
  then have one: "sint (pageNo - 1) = sint pageNo - 1"
    using assms(1) by (simp add: sint_word_ariths(2) signed_take_bit_int_eq_self)
  have "(sint pageNo - 1) * sint pageSize \<le> sint pageNo * sint pageSize" using assms by (intro mult_right_mono) auto
  moreover have "0 \<le> (sint pageNo - 1) * sint pageSize" using assms by simp
  ultimately show ?thesis
    using sint_mult_64 [of "pageNo - 1" pageSize] assms(3) by (simp add: one)
qed

end
