(* ===== verification/Utils.thy ===== *)
theory Utils
  imports Go_Strings Go_Words
begin

text \<open>
  The packages \<open>utils\<close>, \<open>bufferx\<close> (its pools of buffers), \<open>page\<close> and \<open>syncer\<close>: numbers read and written, lists of
  them joined, random strings, files by their suffix, and writers that are combined. Random bytes, the files of the
  system and the writers are arguments.
\<close>

section \<open>Numbers read from a string\<close>

text \<open>
  \<open>strconv.ParseInt\<close> with base ten: an optional sign and at least one digit. A number outside the range of \<open>bits\<close> bits
  gives the nearest end of the range with an error; any other text gives zero with an error.
\<close>

datatype parse_error = ErrSyntax | ErrRange

definition ParseInt :: "nat \<Rightarrow> string \<Rightarrow> int \<times> parse_error option" where
  "ParseInt bits s =
     (let digits = (case s of c # cs \<Rightarrow> if c = CHR ''+'' \<or> c = CHR ''-'' then cs else s | [] \<Rightarrow> []);
          n = (if has_prefix s ''-'' then - int (num_val digits) else int (num_val digits))
      in if s = [] \<or> digits = [] \<or> \<not> list_all is_digit digits then (0, Some ErrSyntax)
         else if n < - (2 ^ (bits - 1)) then (- (2 ^ (bits - 1)), Some ErrRange)
         else if n \<ge> 2 ^ (bits - 1) then (2 ^ (bits - 1) - 1, Some ErrRange)
         else (n, None))"

definition Convert2Int32 :: "string \<Rightarrow> int \<times> parse_error option" where
  "Convert2Int32 s = ParseInt 32 s"

definition Convert2Int64 :: "string \<Rightarrow> int \<times> parse_error option" where
  "Convert2Int64 s = ParseInt 64 s"

section \<open>Numbers joined\<close>

text \<open>
  A pool hands out a buffer it has kept, or a new one of the size it was made with, and resets it; which one it takes is
  up to the pool, here the first. \<open>joinInts\<close> writes into such a buffer and puts it back.
\<close>

record buffer_pool =
  bp_size :: nat
  bp_free :: "string list"

definition NewBuffer :: "nat \<Rightarrow> buffer_pool" where
  "NewBuffer n = \<lparr>bp_size = n, bp_free = []\<rparr>"

definition pool_Get :: "buffer_pool \<Rightarrow> buffer_pool \<times> string" where
  "pool_Get p =
     (let (p', b) = (case bp_free p of [] \<Rightarrow> (p, replicate (bp_size p) (CHR 0x00)) | b # bs \<Rightarrow> (p\<lparr>bp_free := bs\<rparr>, b));
          b = take 0 b
      in (p', b))"

definition pool_Put :: "string \<Rightarrow> buffer_pool \<Rightarrow> buffer_pool" where
  "pool_Put b p = p\<lparr>bp_free := b # bp_free p\<rparr>"

definition joinInts :: "nat \<Rightarrow> string \<Rightarrow> (nat \<Rightarrow> string) \<Rightarrow> buffer_pool \<Rightarrow> buffer_pool \<times> string" where
  "joinInts n sep f p =
     (case pool_Get p of
        (p', buf) \<Rightarrow>
          (let buf = foldl (\<lambda>buf i. (if length buf > 0 then buf @ sep else buf) @ f i) buf [0..<n]
           in (pool_Put buf p', buf)))"

text \<open>Signed numbers of any width are formatted by their value with a sign, unsigned ones without.\<close>

definition JoinInts :: "'w :: len word list \<Rightarrow> string \<Rightarrow> buffer_pool \<Rightarrow> buffer_pool \<times> string" where
  "JoinInts v sep p = joinInts (length v) sep (\<lambda>i. itoa (sint (v ! i))) p"

definition JoinUints :: "'w :: len word list \<Rightarrow> string \<Rightarrow> buffer_pool \<Rightarrow> buffer_pool \<times> string" where
  "JoinUints v sep p = joinInts (length v) sep (\<lambda>i. itoa (uint (v ! i))) p"

section \<open>Random strings\<close>

definition letters :: string where "letters = ''abcdefghjkmnpqrstuvwxyz123456789''"
definition longLetters :: string where
  "longLetters = ''0123456789abcdefghijklmnopqrstuvwxyzABCDEFGHIJKLMNOPQRSTUVWXYZ=_''"

text \<open>\<open>read n\<close> are the bytes of the generator, or nothing if it fails; \<open>x & 31\<close> is the rest by 32.\<close>

definition RandLowercase :: "(nat \<Rightarrow> string option) \<Rightarrow> int \<Rightarrow> string" where
  "RandLowercase read n =
     (if n \<le> 0 then []
      else case read (nat n) of None \<Rightarrow> [] | Some b \<Rightarrow> map (\<lambda>x. letters ! (byte x mod 32)) b)"

definition RandUppercase :: "(nat \<Rightarrow> string option) \<Rightarrow> int \<Rightarrow> string" where
  "RandUppercase read n =
     (if n \<le> 0 then []
      else case read (nat n) of None \<Rightarrow> [] | Some b \<Rightarrow> map (\<lambda>x. longLetters ! (byte x mod 64)) b)"

text \<open>
  \<open>RandHex\<close> reads random bytes into the second half of an array and encodes them into the whole of it, so that what is
  written may reach what is still to be read: the encoding goes byte by byte through the one array.
\<close>

definition hex_digits :: "char \<Rightarrow> string" where
  "hex_digits x = [''0123456789abcdef'' ! (byte x div 16), ''0123456789abcdef'' ! (byte x mod 16)]"

definition hex_step :: "nat \<Rightarrow> string \<Rightarrow> nat \<Rightarrow> string" where
  "hex_step half dst i =
     (let x = dst ! (half + i) in dst[2 * i := hex_digits x ! 0, 2 * i + 1 := hex_digits x ! 1])"

definition RandHex :: "(nat \<Rightarrow> string option) \<Rightarrow> int \<Rightarrow> string" where
  "RandHex read n =
     (if n \<le> 0 then []
      else
        (let need = (if n mod 2 = 0 then nat n else nat n + 1); half = need div 2
         in case read half of
              None \<Rightarrow> []
            | Some b \<Rightarrow> take (nat n) (foldl (hex_step half) (replicate half (CHR 0x00) @ b) [0..<half])))"

section \<open>Files and lists\<close>

definition CheckInList :: "string \<Rightarrow> string list \<Rightarrow> bool" where
  "CheckInList target srcArray = list_ex (\<lambda>element. target = element) srcArray"

text \<open>\<open>unicode.IsNumber\<close> is an argument.\<close>

definition IsNumberString :: "(rune \<Rightarrow> bool) \<Rightarrow> string \<Rightarrow> bool" where
  "IsNumberString isNumber s = list_all isNumber (runes s)"

definition IsTrueOrNot :: "bool \<Rightarrow> 'a \<Rightarrow> 'a \<Rightarrow> 'a" where
  "IsTrueOrNot express firstVal secondVal = (if express then firstVal else secondVal)"

text \<open>What \<open>os.Stat\<close> answers: that there is nothing, another error, a file or a directory.\<close>

datatype stat_answer = NotExist | StatError | StatFile | StatDir

definition IsExist :: "stat_answer \<Rightarrow> bool" where
  "IsExist a = (a \<noteq> NotExist)"

definition IsFile :: "stat_answer \<Rightarrow> bool" where
  "IsFile a = (case a of StatFile \<Rightarrow> True | _ \<Rightarrow> False)"

definition utils_IsDir :: "stat_answer \<Rightarrow> bool" where
  "utils_IsDir a = (case a of StatDir \<Rightarrow> True | _ \<Rightarrow> False)"

text \<open>A directory is its entries, a name and whether it is a directory; a walk is what \<open>filepath.Walk\<close> visits or the error it meets.\<close>

definition suffix_matches :: "string \<Rightarrow> string \<Rightarrow> bool" where
  "suffix_matches suffix name \<longleftrightarrow> suffix = [] \<or> has_suffix (to_upper name) (to_upper suffix)"

definition ListDir :: "'e + (string \<times> bool) list \<Rightarrow> string \<Rightarrow> string \<Rightarrow> 'e + string list" where
  "ListDir dir dirPth suffix =
     (case dir of
        Inl e \<Rightarrow> Inl e
      | Inr entries \<Rightarrow>
          Inr (map (\<lambda>(name, isDir). dirPth @ [CHR 0x2F] @ name)
                 (filter (\<lambda>(name, isDir). \<not> isDir \<and> suffix_matches suffix name) entries)))"

fun WalkDir :: "('e + string \<times> bool) list \<Rightarrow> string \<Rightarrow> string list \<times> 'e option" where
  "WalkDir [] suffix = ([], None)"
| "WalkDir (Inl e # visits) suffix = ([], Some e)"
| "WalkDir (Inr (name, isDir) # visits) suffix =
     (case WalkDir visits suffix of
        (files, err) \<Rightarrow> (if \<not> isDir \<and> suffix_matches suffix name then name # files else files, err))"

section \<open>Pages\<close>

record Pagination =
  pg_Page :: "64 word"
  pg_PageSize :: "64 word"

definition GetOffset :: "Pagination \<Rightarrow> Pagination \<times> 64 word" where
  "GetOffset p =
     (let page = (if sint (pg_Page p) \<le> 0 then 1 else pg_Page p);
          pageSize = (if sint (pg_PageSize p) \<le> 0 then 10 else pg_PageSize p)
      in (p\<lparr>pg_Page := page, pg_PageSize := pageSize\<rparr>, (page - 1) * pageSize))"

section \<open>Combined writers\<close>

text \<open>
  A writer takes bytes in a state and returns how many it took and its error; to synchronise has an error too. The
  errors of several are collected. \<open>plain\<close> marks what is no \<open>WriteSyncer\<close> yet.
\<close>

record ('s, 'e) write_syncer =
  ws_Write :: "string \<Rightarrow> 's \<Rightarrow> 's \<times> int \<times> 'e option"
  ws_Sync :: "'s \<Rightarrow> 's \<times> 'e option"

definition AddSync :: "('s, 'e) write_syncer + (string \<Rightarrow> 's \<Rightarrow> 's \<times> int \<times> 'e option) \<Rightarrow> ('s, 'e) write_syncer" where
  "AddSync w = (case w of Inl ws \<Rightarrow> ws | Inr wr \<Rightarrow> \<lparr>ws_Write = wr, ws_Sync = \<lambda>s. (s, None)\<rparr>)"

definition written :: "int \<Rightarrow> int \<Rightarrow> int" where
  "written nWritten n = (if nWritten = 0 \<and> n \<noteq> 0 then n else if n < nWritten then n else nWritten)"

fun multi_Write :: "('s, 'e) write_syncer list \<Rightarrow> string \<Rightarrow> int \<Rightarrow> 's \<Rightarrow> 's \<times> int \<times> 'e list" where
  "multi_Write [] p nWritten s = (s, nWritten, [])"
| "multi_Write (w # ws) p nWritten s =
     (case ws_Write w p s of
        (s', n, err) \<Rightarrow>
          (case multi_Write ws p (written nWritten n) s' of
             (s'', n', errs) \<Rightarrow> (s'', n', (case err of None \<Rightarrow> errs | Some e \<Rightarrow> e # errs))))"

fun multi_Sync :: "('s, 'e) write_syncer list \<Rightarrow> 's \<Rightarrow> 's \<times> 'e list" where
  "multi_Sync [] s = (s, [])"
| "multi_Sync (w # ws) s =
     (case ws_Sync w s of
        (s', err) \<Rightarrow>
          (case multi_Sync ws s' of (s'', errs) \<Rightarrow> (s'', (case err of None \<Rightarrow> errs | Some e \<Rightarrow> e # errs))))"

section \<open>Properties\<close>

text \<open>The alphabets have as many letters as a masked byte has values, so that no index is out of range.\<close>

lemma alphabets: "length letters = 32" "length longLetters = 64"
  by (simp_all add: letters_def longLetters_def)

lemma itoa_nonempty: "itoa n \<noteq> []"
  by (simp add: itoa_def)

lemma pool_Get_empty: "snd (pool_Get p) = []"
  by (simp add: pool_Get_def Let_def split: prod.splits)

lemma join_snoc: "join sep (xs @ [x]) = (if xs = [] then x else join sep xs @ sep @ x)"
  by (induction xs rule: induct_list012) simp_all

lemma join_nonempty: "xs \<noteq> [] \<Longrightarrow> hd xs \<noteq> [] \<Longrightarrow> join sep xs \<noteq> []"
  by (induction sep xs rule: join.induct) simp_all

lemma joined:
  assumes "\<And>i. f i \<noteq> []"
  shows "foldl (\<lambda>buf i. (if length buf > 0 then buf @ sep else buf) @ f i) [] [0..<n] = join sep (map f [0..<n])"
proof (induction n)
  case (Suc n)
  have "join sep (map f [0..<n]) \<noteq> [] \<longleftrightarrow> n \<noteq> 0"
    using assms join_nonempty [of "map f [0..<n]" sep] by (cases n) (simp_all add: hd_map del: upt_Suc)
  then show ?case using Suc by (simp add: join_snoc)
qed simp

text \<open>Whatever buffers the pool has kept, the numbers are joined by the separator.\<close>

lemma joinInts_join:
  assumes "\<And>i. f i \<noteq> []"
  shows "snd (joinInts n sep f p) = join sep (map f [0..<n])"
proof -
  obtain p' where "pool_Get p = (p', [])" using pool_Get_empty [of p] by (cases "pool_Get p") auto
  then show ?thesis using joined [of f sep n, OF assms] by (simp add: joinInts_def Let_def)
qed

lemma JoinInts_join: "snd (JoinInts v sep p) = join sep (map (\<lambda>x. itoa (sint x)) v)"
proof -
  have "map (\<lambda>i. itoa (sint (v ! i))) [0..<length v] = map (\<lambda>x. itoa (sint x)) v"
    by (rule nth_equalityI) simp_all
  then show ?thesis unfolding JoinInts_def using joinInts_join [of "\<lambda>i. itoa (sint (v ! i))"] itoa_nonempty by metis
qed

lemma ParseInt_itoa:
  assumes "- (2 ^ (bits - 1)) \<le> n" and "n < 2 ^ (bits - 1)"
  shows "ParseInt bits (itoa n) = (n, None)"
proof -
  obtain c cs where digits: "itoa_nat (nat \<bar>n\<bar>) = c # cs" "list_all is_digit (c # cs)"
    using itoa_nat_digits [of "nat \<bar>n\<bar>"] itoa_nat_nonempty [of "nat \<bar>n\<bar>"] by (cases "itoa_nat (nat \<bar>n\<bar>)") auto
  then have c: "c \<noteq> CHR ''-''" "c \<noteq> CHR ''+''" by (auto simp: is_digit_def)
  have val: "num_val (c # cs) = nat \<bar>n\<bar>" using digits(1) num_val_itoa_nat by metis
  show ?thesis
  proof (cases "n < 0")
    case True
    then have "itoa n = CHR ''-'' # c # cs" using digits(1) by (simp add: itoa_def)
    then show ?thesis using True digits(2) val assms by (simp add: ParseInt_def Let_def)
  next
    case False
    then have "itoa n = c # cs" using digits(1) by (simp add: itoa_def)
    then show ?thesis using False digits(2) val assms c by (simp add: ParseInt_def Let_def)
  qed
qed

lemma itoa_chars: "x \<in> set (itoa n) \<Longrightarrow> is_digit x \<or> x = CHR ''-''"
  using itoa_nat_digits by (auto simp: itoa_def list_all_iff split: if_splits)

text \<open>
  Numbers that were joined by a character that is no digit and no minus sign are read back, one by one, whatever
  the pool has kept.
\<close>

theorem join_parse:
  fixes v :: "64 word list"
  assumes "v \<noteq> []" and "\<not> is_digit c" and "c \<noteq> CHR ''-''"
  shows "map Convert2Int64 (split_char c (snd (JoinInts v [c] p))) = map (\<lambda>x. (sint x, None)) v"
proof -
  have "\<forall>s \<in> set (map (\<lambda>x. itoa (sint x)) v). c \<notin> set s"
    using assms(2,3) itoa_chars by auto
  then have "split_char c (snd (JoinInts v [c] p)) = map (\<lambda>x. itoa (sint x)) v"
    unfolding JoinInts_join by (intro split_join) (use assms(1) in auto)
  moreover have "Convert2Int64 (itoa (sint x)) = (sint x, None)" for x :: "64 word"
    unfolding Convert2Int64_def
    by (rule ParseInt_itoa) (use sint_ge [of x] sint_lt [of x] in simp_all)
  ultimately show ?thesis by simp
qed

theorem join_parse_witness:
  "map Convert2Int64 (split_char (CHR '','') (snd (JoinInts [5 :: 64 word, - 7] '','' (NewBuffer 64)))) = [(5, None), (- 7, None)]"
  using join_parse [of "[5, - 7]" "CHR '',''" "NewBuffer 64"] by (simp add: is_digit_def)

lemma two_updates: "length d = n \<Longrightarrow> (d @ y # y' # ys)[n := a, n + 1 := c] = d @ a # c # ys"
  by (simp add: list_update_append)

lemma hex_fold:
  assumes "length dst = 2 * half" and "k \<le> half"
  shows "foldl (hex_step half) dst [0..<k] = concat (map hex_digits (take k (drop half dst))) @ drop (2 * k) dst"
  using assms(2)
proof (induction k)
  case 0
  then show ?case by simp
next
  case (Suc k)
  let ?b = "drop half dst"
  let ?d = "concat (map hex_digits (take k ?b))"
  have len: "length ?d = 2 * k"
    using Suc.prems assms(1) by (simp add: length_concat hex_digits_def comp_def sum_list_triv)
  have x: "(?d @ drop (2 * k) dst) ! (half + k) = ?b ! k"
    using Suc.prems assms(1) len by (simp add: nth_append add.commute)
  have "2 * k < length dst" "2 * k + 1 < length dst" using Suc.prems assms(1) by simp_all
  then have rest: "drop (2 * k) dst = dst ! (2 * k) # dst ! (2 * k + 1) # drop (2 * Suc k) dst"
    by (simp add: Cons_nth_drop_Suc)
  have "hex_step half (?d @ drop (2 * k) dst) k =
      (?d @ drop (2 * k) dst)[2 * k := hex_digits (?b ! k) ! 0, 2 * k + 1 := hex_digits (?b ! k) ! 1]"
    by (simp only: hex_step_def x Let_def)
  also have "\<dots> = ?d @ hex_digits (?b ! k) ! 0 # hex_digits (?b ! k) ! 1 # drop (2 * Suc k) dst"
    unfolding rest by (rule two_updates [OF len])
  also have "\<dots> = concat (map hex_digits (take (Suc k) ?b)) @ drop (2 * Suc k) dst"
    using Suc.prems assms(1) by (simp add: take_Suc_conv_app_nth hex_digits_def)
  finally show ?case using Suc by simp
qed

text \<open>
  Although the random bytes lie in the array they are encoded into, none is overwritten before it is read: the result
  are their hexadecimal digits, as many as were asked for.
\<close>

theorem RandHex_in_place:
  assumes "0 < n" and "read ((nat n + 1) div 2) = Some b" and "length b = (nat n + 1) div 2"
  shows "RandHex read n = take (nat n) (concat (map hex_digits b)) \<and> length (RandHex read n) = nat n"
proof -
  let ?half = "(nat n + 1) div 2"
  have half: "(if n mod 2 = 0 then nat n else nat n + 1) div 2 = ?half"
    using assms(1) by (cases "even (nat n)") (auto simp: even_nat_iff elim!: oddE)
  have "foldl (hex_step ?half) (replicate ?half (CHR 0x00) @ b) [0..<?half] = concat (map hex_digits b)"
    using hex_fold [of "replicate ?half (CHR 0x00) @ b" ?half ?half] assms(3) by simp
  then have run: "RandHex read n = take (nat n) (concat (map hex_digits b))"
    unfolding RandHex_def Let_def half using assms(1,2) by simp
  moreover have "length (concat (map hex_digits b)) = 2 * ?half"
    using assms(3) by (simp add: length_concat hex_digits_def comp_def sum_list_triv)
  ultimately show ?thesis by simp
qed

theorem RandHex_in_place_witness:
  "RandHex (\<lambda>k. Some (replicate k (CHR 0x2A))) 3 = ''2a2''"
proof -
  have "RandHex (\<lambda>k. Some (replicate k (CHR 0x2A))) 3 = take (nat 3) (concat (map hex_digits (replicate 2 (CHR 0x2A))))"
    using RandHex_in_place [of 3 "\<lambda>k. Some (replicate k (CHR 0x2A))" "replicate 2 (CHR 0x2A)"] by simp
  then show ?thesis by (simp add: hex_digits_def numeral_2_eq_2)
qed

section \<open>Combined writers and pages\<close>

text \<open>
  Every writer gets all the bytes. The number that is returned is the smallest if no writer takes none; a writer that
  takes nothing is forgotten when a later one takes something.
\<close>

lemma multi_Write_smallest:
  assumes "\<forall>w\<in>set ws. \<forall>s. 0 < fst (snd (ws_Write w p s))" and "0 < m"
  shows "0 < fst (snd (multi_Write ws p m s)) \<and> fst (snd (multi_Write ws p m s)) \<le> m"
  using assms
proof (induction ws arbitrary: m s)
  case (Cons w ws)
  obtain s1 n err where w: "ws_Write w p s = (s1, n, err)" by (metis prod.exhaust)
  have "0 < n" using Cons.prems(1) w by (metis fst_conv list.set_intros(1) snd_conv)
  then have m: "0 < written m n" "written m n \<le> m" using Cons.prems(2) by (auto simp: written_def)
  obtain s2 n2 errs where ws: "multi_Write ws p (written m n) s1 = (s2, n2, errs)" by (metis prod.exhaust)
  have "0 < n2 \<and> n2 \<le> written m n"
    using Cons.IH [of "written m n" s1] Cons.prems(1) m(1) ws by simp
  then show ?case using w ws m(2) by simp
qed simp

lemma zero_forgotten:
  "multi_Write [\<lparr>ws_Write = \<lambda>p s. (s, 0, Some ''disk full''), ws_Sync = \<lambda>s. (s, None)\<rparr>,
                \<lparr>ws_Write = \<lambda>p s. (s, int (length p), None), ws_Sync = \<lambda>s. (s, None)\<rparr>] ''abc'' 0 () = ((), 3, [''disk full''])"
  by (simp add: written_def)

text \<open>The offset of a page is not negative and the record keeps the page that it belongs to, up to 64 bits.\<close>

lemma GetOffset_page:
  assumes "sint (pg_Page p) * sint (pg_PageSize p) < 2 ^ 63" and "0 < sint (pg_Page p)" and "0 < sint (pg_PageSize p)"
  shows "GetOffset p = (p, (pg_Page p - 1) * pg_PageSize p) \<and>
    sint (snd (GetOffset p)) = (sint (pg_Page p) - 1) * sint (pg_PageSize p)"
  using assms sint_page_start [of "pg_Page p" "pg_PageSize p"] by (simp add: GetOffset_def Let_def)

end
