(* ===== verification/Cron.thy ===== *)
theory Cron
  imports Utils
begin

text \<open>
  The package \<open>cron\<close>: the builder of expressions (\<open>helper.go\<close>) and the registration of jobs with the scheduler
  (\<open>cron.go\<close>). What the parsers of the library answer to an expression is an argument; the scheduler is the
  list of its entries. The clock is an argument too.
\<close>

section \<open>Fields\<close>

text \<open>\<open>strings.Fields\<close>: the words between runs of white space.\<close>

definition spaces :: "string list" where "spaces = map encode_rune space_runes"

fun take_field :: "string \<Rightarrow> string \<times> string" where
  "take_field [] = ([], [])"
| "take_field (c # s) =
     (if strip_front spaces (c # s) \<noteq> None then ([], c # s) else let (w, r) = take_field s in (c # w, r))"

lemma take_field_length: "length (snd (take_field s)) \<le> length s"
  by (induction s) (auto split: prod.splits)

lemma take_field_shorter: "strip_front spaces s = None \<Longrightarrow> s \<noteq> [] \<Longrightarrow> length (snd (take_field s)) < length s"
  using take_field_length [of "tl s"] by (cases s) (auto split: prod.splits)

function go_fields :: "string \<Rightarrow> string list" where
  "go_fields s =
     (let t = trim_front spaces s in if t = [] then [] else let (w, r) = take_field t in w # go_fields r)"
  by pat_completeness auto
termination
proof (relation "measure length")
  fix s t x w r
  assume a: "t = trim_front spaces s" "t \<noteq> []" "x = take_field t" "(w, r) = x"
  have "r = snd (take_field t)" using a(3,4) by (metis snd_conv)
  then have "length r < length t" using a(1,2) take_field_shorter [of t] trim_front_done [of spaces s] by simp
  moreover have "length t \<le> length s" using a(1) trim_front_suffix [of s spaces] by (metis length_append le_add2)
  ultimately show "(r, s) \<in> measure length" by simp
qed simp

declare go_fields.simps [simp del]

section \<open>The builder\<close>

text \<open>The fields of the struct that are pointers may be nil.\<close>

record CronTaskBuilder =
  cb_JobType :: int
  cb_Seconds :: "string option"
  cb_Minutes :: "string option"
  cb_Hours :: "string option"
  cb_DayOfMonth :: "string list"
  cb_Month :: "string option"
  cb_DayOfWeek :: "string list"
  cb_Spec :: string
  cb_Interval :: string

definition HourJob :: int where "HourJob = 0"
definition DayJob :: int where "DayJob = 1"
definition MonthJob :: int where "MonthJob = 2"
definition WeekJob :: int where "WeekJob = 3"
definition IntervalJob :: int where "IntervalJob = 4"
definition FixedJob :: int where "FixedJob = 5"

definition SetSpec :: "string \<Rightarrow> CronTaskBuilder \<Rightarrow> CronTaskBuilder" where "SetSpec spec b = b\<lparr>cb_Spec := spec\<rparr>"
definition SetSeconds :: "string \<Rightarrow> CronTaskBuilder \<Rightarrow> CronTaskBuilder" where "SetSeconds seconds b = b\<lparr>cb_Seconds := Some seconds\<rparr>"
definition SetMinutes :: "string \<Rightarrow> CronTaskBuilder \<Rightarrow> CronTaskBuilder" where "SetMinutes minutes b = b\<lparr>cb_Minutes := Some minutes\<rparr>"
definition SetHours :: "string \<Rightarrow> CronTaskBuilder \<Rightarrow> CronTaskBuilder" where "SetHours hours b = b\<lparr>cb_Hours := Some hours\<rparr>"
definition SetDayOfMonth :: "string list \<Rightarrow> CronTaskBuilder \<Rightarrow> CronTaskBuilder" where "SetDayOfMonth dayOfMonth b = b\<lparr>cb_DayOfMonth := dayOfMonth\<rparr>"
definition SetMonth :: "string \<Rightarrow> CronTaskBuilder \<Rightarrow> CronTaskBuilder" where "SetMonth month b = b\<lparr>cb_Month := Some month\<rparr>"
definition SetDayOfWeek :: "string list \<Rightarrow> CronTaskBuilder \<Rightarrow> CronTaskBuilder" where "SetDayOfWeek dayOfWeek b = b\<lparr>cb_DayOfWeek := dayOfWeek\<rparr>"
definition SetInterval :: "string \<Rightarrow> CronTaskBuilder \<Rightarrow> CronTaskBuilder" where "SetInterval interval b = b\<lparr>cb_Interval := interval\<rparr>"

text \<open>
  The arguments of \<open>IsTrueOrNot\<close> are evaluated before it is called, so that dereferencing a nil pointer panics
  whatever the condition is.
\<close>

definition star_if_empty :: "string option \<Rightarrow> string option" where
  "star_if_empty p = (case p of None \<Rightarrow> None | Some v \<Rightarrow> Some (IsTrueOrNot (v = []) ''*'' v))"

definition every_interval :: "CronTaskBuilder \<Rightarrow> string" where
  "every_interval b = ''@every '' @ cb_Interval b"

definition BuildSpec :: "CronTaskBuilder \<Rightarrow> string option" where
  "BuildSpec b =
     (if cb_Spec b \<noteq> [] then Some (cb_Spec b)
      else if cb_JobType b = IntervalJob then Some (every_interval b)
      else case star_if_empty (cb_Seconds b) of None \<Rightarrow> None | Some seconds \<Rightarrow>
           case star_if_empty (cb_Minutes b) of None \<Rightarrow> None | Some minutes \<Rightarrow>
           case star_if_empty (cb_Hours b) of None \<Rightarrow> None | Some hours \<Rightarrow>
           (let dayOfMonth = IsTrueOrNot (length (cb_DayOfMonth b) = 0) ''*'' (join '','' (cb_DayOfMonth b)) in
            case star_if_empty (cb_Month b) of None \<Rightarrow> None | Some month \<Rightarrow>
            (let dayOfWeek = IsTrueOrNot (length (cb_DayOfWeek b) = 0) ''*'' (join '','' (cb_DayOfWeek b))
             in Some (join '' '' [seconds, minutes, hours, dayOfMonth, month, dayOfWeek]))))"

text \<open>The parsers answer with their error, if any.\<close>

definition without_zone :: "string list \<Rightarrow> string list" where
  "without_zone fs = (if length fs > 0 \<and> (has_prefix (hd fs) ''TZ='' \<or> has_prefix (hd fs) ''CRON_TZ='') then tl fs else fs)"

definition cron_Validate :: "(string \<Rightarrow> string option) \<Rightarrow> (string \<Rightarrow> string option) \<Rightarrow> CronTaskBuilder \<Rightarrow> string option option" where
  "cron_Validate secondParser standardParser b =
     (case BuildSpec b of
        None \<Rightarrow> None
      | Some spec \<Rightarrow> Some (map_option (\<lambda>e. ''invalid crontab spec: '' @ e)
          (if has_prefix spec ''@'' then secondParser spec
           else let fs = without_zone (go_fields spec)
                in if length fs = 5 then standardParser spec
                   else if length fs = 6 then secondParser spec
                   else Some (''expected 5 or 6 fields, found '' @ itoa (int (length fs)) @ '': '' @ spec))))"

definition cron_Reset :: "CronTaskBuilder \<Rightarrow> CronTaskBuilder" where
  "cron_Reset b = b\<lparr>cb_DayOfWeek := [], cb_Seconds := None, cb_Minutes := None, cb_Hours := None, cb_Month := None,
     cb_DayOfMonth := [], cb_Interval := []\<rparr>"

record clock =
  ck_Second :: int
  ck_Minute :: int
  ck_Hour :: int
  ck_Day :: int
  ck_Weekday :: int

text \<open>The clock is read once in most branches and three times in the last; \<open>now i\<close> is what reading \<open>i\<close> gives.\<close>

definition GenCrontabStr :: "(nat \<Rightarrow> clock) \<Rightarrow> int \<Rightarrow> CronTaskBuilder \<Rightarrow> string option \<times> CronTaskBuilder" where
  "GenCrontabStr now jobType b =
     (let b' = b\<lparr>cb_JobType := jobType\<rparr>; c = now 0;
          second = itoa (ck_Second c); minute = itoa (ck_Minute c); hour = itoa (ck_Hour c) in
      (if jobType = HourJob then Some (join '' '' [second, minute, ''* * * *''])
       else if jobType = DayJob then Some (join '' '' [second, minute, hour, ''* * *''])
       else if jobType = MonthJob then Some (join '' '' [second, minute, hour, itoa (ck_Day c), ''* *''])
       else if jobType = WeekJob then Some (join '' '' [second, minute, hour, ''* *'', itoa (ck_Weekday c)])
       else if jobType = IntervalJob then Some (every_interval b')
       else if jobType = FixedJob then BuildSpec b'
       else Some (join '' '' [itoa (ck_Second (now 0)), itoa (ck_Minute (now 1)), itoa (ck_Hour (now 2)), ''* * *'']),
       b'))"

section \<open>The scheduler\<close>

text \<open>
  The scheduler's entries, each with its number and the name of its job, or none for a function; the number
  the next one gets; the map from names to numbers; and what has been started at once on registration.
\<close>

record cron_state =
  cs_crontab :: "(nat \<times> string option) list option"
  cs_next :: nat
  cs_jobMap :: "string \<rightharpoonup> nat"
  cs_running :: bool
  cs_first_runs :: "string option list"

definition cron_start :: cron_state where
  "cron_start = \<lparr>cs_crontab = None, cs_next = 1, cs_jobMap = Map.empty, cs_running = False, cs_first_runs = []\<rparr>"

definition ErrCronNotInitialized :: string where
  "ErrCronNotInitialized = ''cron not initialized, call InitCron first''"

record cron_config = cc_parseTypeSecond :: bool

definition WithParseTypeSecond :: "bool \<Rightarrow> cron_config \<Rightarrow> cron_config" where
  "WithParseTypeSecond parseTypeSecond c = c\<lparr>cc_parseTypeSecond := parseTypeSecond\<rparr>"

text \<open>The first call makes the scheduler, always for expressions with seconds; every call starts it.\<close>

definition InitCron :: "(cron_config \<Rightarrow> cron_config) list \<Rightarrow> cron_state \<Rightarrow> cron_state" where
  "InitCron opts s =
     (let config = fold (\<lambda>opt c. opt c) opts \<lparr>cc_parseTypeSecond = False\<rparr>;
          s1 = (if cs_crontab s = None then s\<lparr>cs_crontab := Some []\<rparr> else s)
      in s1\<lparr>cs_running := True\<rparr>)"

definition add_entry :: "(string \<Rightarrow> string option) \<Rightarrow> string \<Rightarrow> string option \<Rightarrow> (nat \<times> string option) list \<Rightarrow> cron_state
    \<Rightarrow> (string + nat) \<times> cron_state" where
  "add_entry parser spec job entries s =
     (case parser spec of
        Some e \<Rightarrow> (Inl e, s)
      | None \<Rightarrow> (Inr (cs_next s), s\<lparr>cs_crontab := Some (entries @ [(cs_next s, job)]), cs_next := Suc (cs_next s)\<rparr>))"

definition RegisterJob :: "(string \<Rightarrow> string option) \<Rightarrow> string \<Rightarrow> string \<Rightarrow> bool \<Rightarrow> cron_state \<Rightarrow> string option \<times> cron_state" where
  "RegisterJob parser spec jobName runFirst s =
     (case cs_crontab s of
        None \<Rightarrow> (Some ErrCronNotInitialized, s)
      | Some entries \<Rightarrow>
          (case add_entry parser spec (Some jobName) entries s of
             (Inl e, s1) \<Rightarrow> (Some e, s1)
           | (Inr jobIdentity, s1) \<Rightarrow>
               let s2 = s1\<lparr>cs_jobMap := (cs_jobMap s1)(jobName \<mapsto> jobIdentity)\<rparr>
               in (None, if runFirst then s2\<lparr>cs_first_runs := cs_first_runs s2 @ [Some jobName]\<rparr> else s2)))"

definition RegisterFunc :: "(string \<Rightarrow> string option) \<Rightarrow> string \<Rightarrow> bool \<Rightarrow> cron_state \<Rightarrow> string option \<times> cron_state" where
  "RegisterFunc parser spec runFirst s =
     (case cs_crontab s of
        None \<Rightarrow> (Some ErrCronNotInitialized, s)
      | Some entries \<Rightarrow>
          (case add_entry parser spec None entries s of
             (Inl e, s1) \<Rightarrow> (Some e, s1)
           | (Inr _, s1) \<Rightarrow> (None, if runFirst then s1\<lparr>cs_first_runs := cs_first_runs s1 @ [None]\<rparr> else s1)))"

definition RemoveCronJob :: "string \<Rightarrow> cron_state \<Rightarrow> cron_state" where
  "RemoveCronJob jobName s =
     (let s1 = s\<lparr>cs_jobMap := (cs_jobMap s)(jobName := None)\<rparr> in
      case (cs_jobMap s jobName, cs_crontab s) of
        (Some i, Some entries) \<Rightarrow> s1\<lparr>cs_crontab := Some (filter (\<lambda>e. fst e \<noteq> i) entries)\<rparr>
      | _ \<Rightarrow> s1)"

text \<open>Whether the context that is returned has ended already; a scheduler's ends when its jobs have.\<close>

definition StopCron :: "bool \<Rightarrow> cron_state \<Rightarrow> bool \<times> cron_state" where
  "StopCron idle s = (case cs_crontab s of None \<Rightarrow> (True, s) | Some _ \<Rightarrow> (idle, s\<lparr>cs_running := False\<rparr>))"

section \<open>Facts\<close>

subsection \<open>Fields\<close>

definition visible :: "string \<Rightarrow> bool" where
  "visible w \<longleftrightarrow> w \<noteq> [] \<and> list_all (\<lambda>c. \<not> is_ascii_space c \<and> byte c < 128) w"

lemma strip_spaces_visible: "\<not> is_ascii_space c \<Longrightarrow> byte c < 128 \<Longrightarrow> strip_front spaces (c # s) = None"
  unfolding spaces_def by (rule strip_front_visible [OF space_first_bytes])

lemma strip_spaces_space: "strip_front spaces (CHR '' '' # s) = Some s"
proof -
  have "map encode_rune (take 6 space_runes) = map (\<lambda>n. [char_of n]) [9, 10, 11, 12, 13, 32 :: nat]"
    by (simp add: space_runes_def)
  moreover have "spaces = map encode_rune (take 6 space_runes) @ map encode_rune (drop 6 space_runes)"
    unfolding spaces_def map_append [symmetric] append_take_drop_id ..
  ultimately obtain rest where rest: "spaces = map (\<lambda>n. [char_of n]) [9, 10, 11, 12, 13, 32 :: nat] @ rest" by simp
  have "char_of (32 :: nat) = CHR '' ''" by code_simp
  then show ?thesis unfolding rest strip_front_def by simp
qed

lemma take_field_word:
  "list_all (\<lambda>c. \<not> is_ascii_space c \<and> byte c < 128) w \<Longrightarrow> take_field (w @ s) = (w @ fst (take_field s), snd (take_field s))"
proof (induction w)
  case (Cons c w)
  have "take_field (c # w @ s) = (let (w', r) = take_field (w @ s) in (c # w', r))"
    using strip_spaces_visible [of c "w @ s"] Cons.prems by (subst take_field.simps(2)) auto
  moreover have "take_field (w @ s) = (w @ fst (take_field s), snd (take_field s))" using Cons by simp
  ultimately show ?case by simp
qed simp

lemma fields_word:
  assumes "visible w" and "s = [] \<or> hd s = CHR '' ''"
  shows "go_fields (w @ s) = w # go_fields s"
proof -
  obtain c w' where w: "w = c # w'" "\<not> is_ascii_space c" "byte c < 128" using assms(1) by (cases w) (auto simp: visible_def)
  have t: "trim_front spaces (w @ s) = w @ s" unfolding w by (simp add: trim_front_stuck strip_spaces_visible w)
  have "take_field s = ([], s)" using assms(2) by (cases s) (auto simp: strip_spaces_space)
  then have "take_field (w @ s) = (w, s)" using assms(1) by (simp add: take_field_word visible_def)
  then show ?thesis using t w(1) by (subst go_fields.simps) (simp add: Let_def)
qed

lemma fields_space: "go_fields (CHR '' '' # s) = go_fields s"
proof -
  have "trim_front spaces (CHR '' '' # s) = trim_front spaces s"
    by (subst trim_front.simps) (simp add: strip_spaces_space)
  then show ?thesis by (subst (1 2) go_fields.simps) simp
qed

lemma fields_Nil [simp]: "go_fields [] = []"
  by (subst go_fields.simps) simp

lemma join_Cons: "join sep (x # xs) = x @ (if xs = [] then [] else sep @ join sep xs)"
  by (cases xs) simp_all

lemma fields_join: "list_all visible ws \<Longrightarrow> go_fields (join '' '' ws) = ws"
proof (induction ws)
  case (Cons w ws)
  have "go_fields (join '' '' (w # ws)) = w # go_fields (if ws = [] then [] else '' '' @ join '' '' ws)"
    unfolding join_Cons using Cons.prems by (intro fields_word) auto
  also have "go_fields (if ws = [] then [] else '' '' @ join '' '' ws) = go_fields (join '' '' ws)"
    by (simp add: fields_space)
  finally show ?case using Cons by simp
qed simp


subsection \<open>Expressions\<close>

definition field_of :: "string option \<Rightarrow> string" where
  "field_of p = (case p of Some v \<Rightarrow> if v = [] then ''*'' else v | None \<Rightarrow> ''*'')"

definition list_field :: "string list \<Rightarrow> string" where
  "list_field xs = (if xs = [] then ''*'' else join '','' xs)"

text \<open>The six fields that the builder stands for.\<close>

definition six_fields :: "CronTaskBuilder \<Rightarrow> string list" where
  "six_fields b = [field_of (cb_Seconds b), field_of (cb_Minutes b), field_of (cb_Hours b), list_field (cb_DayOfMonth b),
     field_of (cb_Month b), list_field (cb_DayOfWeek b)]"

definition no_nil :: "CronTaskBuilder \<Rightarrow> bool" where
  "no_nil b \<longleftrightarrow> cb_Seconds b \<noteq> None \<and> cb_Minutes b \<noteq> None \<and> cb_Hours b \<noteq> None \<and> cb_Month b \<noteq> None"

lemma BuildSpec_cases:
  "BuildSpec b = (if cb_Spec b \<noteq> [] then Some (cb_Spec b) else if cb_JobType b = IntervalJob then Some (''@every '' @ cb_Interval b)
     else if no_nil b then Some (join '' '' (six_fields b)) else None)"
  by (simp add: BuildSpec_def every_interval_def no_nil_def six_fields_def field_of_def list_field_def star_if_empty_def IsTrueOrNot_def
      Let_def del: join.simps split: option.splits)

text \<open>
  What the builder makes of its fields. A given expression is taken as it is and an interval becomes
  \<open>@every\<close>; otherwise a builder whose seconds, minutes, hours or month were never set panics, in \<open>BuildSpec\<close> and so
  in \<open>Validate\<close> and in \<open>GenCrontabStr\<close>; when all are set, the expression has exactly the six fields that were meant,
  an empty one being a star, provided their text has no white space in it, and \<open>Validate\<close> asks the parser with
  seconds about it.
\<close>

theorem cron_build_spec:
  assumes "cb_Spec b = []" and "cb_JobType b \<noteq> IntervalJob"
  shows "(\<not> no_nil b \<longrightarrow> BuildSpec b = None \<and> cron_Validate secondParser standardParser b = None
           \<and> fst (GenCrontabStr now FixedJob b) = None)
     \<and> (no_nil b \<and> list_all visible (six_fields b) \<and> \<not> has_prefix (hd (six_fields b)) ''@''
           \<and> \<not> has_prefix (hd (six_fields b)) ''TZ='' \<and> \<not> has_prefix (hd (six_fields b)) ''CRON_TZ='' \<longrightarrow>
         (\<exists>spec. BuildSpec b = Some spec \<and> go_fields spec = six_fields b
            \<and> cron_Validate secondParser standardParser b = Some (map_option (\<lambda>e. ''invalid crontab spec: '' @ e) (secondParser spec))))"
proof (intro conjI impI)
  assume n: "\<not> no_nil b"
  then show "BuildSpec b = None" using assms by (simp add: BuildSpec_cases)
  then show "cron_Validate secondParser standardParser b = None" by (simp add: cron_Validate_def)
  have "\<not> no_nil (b\<lparr>cb_JobType := FixedJob\<rparr>)" using n by (simp add: no_nil_def)
  then have "BuildSpec (b\<lparr>cb_JobType := FixedJob\<rparr>) = None"
    using assms(1) by (simp add: BuildSpec_cases IntervalJob_def FixedJob_def)
  then show "fst (GenCrontabStr now FixedJob b) = None"
    by (simp add: GenCrontabStr_def HourJob_def DayJob_def MonthJob_def WeekJob_def IntervalJob_def FixedJob_def)
next
  let ?spec = "join '' '' (six_fields b)"
  assume a: "no_nil b \<and> list_all visible (six_fields b) \<and> \<not> has_prefix (hd (six_fields b)) ''@''
           \<and> \<not> has_prefix (hd (six_fields b)) ''TZ='' \<and> \<not> has_prefix (hd (six_fields b)) ''CRON_TZ=''"
  have spec: "BuildSpec b = Some ?spec" using assms a by (simp add: BuildSpec_cases)
  have f: "go_fields ?spec = six_fields b" using a by (simp add: fields_join)
  have six: "length (six_fields b) = 6" by (simp add: six_fields_def)
  have zone: "without_zone (six_fields b) = six_fields b" using a by (simp add: without_zone_def)
  have "hd (six_fields b) \<noteq> []" using a six by (cases "six_fields b") (auto simp: visible_def)
  then obtain c w where cw: "hd (six_fields b) = c # w" by (cases "hd (six_fields b)") auto
  obtain rest where "six_fields b = (c # w) # rest" using six cw by (cases "six_fields b") auto
  then have at: "\<not> has_prefix ?spec ''@''" using a cw by (simp add: join_Cons)
  have "cron_Validate secondParser standardParser b = Some (map_option (\<lambda>e. ''invalid crontab spec: '' @ e) (secondParser ?spec))"
    using spec f six zone at by (cases "secondParser ?spec") (simp_all add: cron_Validate_def Let_def)
  then show "\<exists>spec. BuildSpec b = Some spec \<and> go_fields spec = six_fields b
      \<and> cron_Validate secondParser standardParser b = Some (map_option (\<lambda>e. ''invalid crontab spec: '' @ e) (secondParser spec))"
    using spec f by blast
qed

definition demo_builder :: CronTaskBuilder where
  "demo_builder = SetDayOfWeek [''1'', ''5''] (SetMonth [] (SetHours ''8'' (SetMinutes ''30'' (SetSeconds ''0''
     \<lparr>cb_JobType = DayJob, cb_Seconds = None, cb_Minutes = None, cb_Hours = None, cb_DayOfMonth = [], cb_Month = None,
      cb_DayOfWeek = [], cb_Spec = [], cb_Interval = []\<rparr>))))"

lemma demo_builder_facts: "cb_Spec demo_builder = []" "cb_JobType demo_builder \<noteq> IntervalJob" "no_nil demo_builder"
  "six_fields demo_builder = [''0'', ''30'', ''8'', ''*'', ''*'', ''1,5'']"
  by (simp_all add: demo_builder_def SetDayOfWeek_def SetMonth_def SetHours_def SetMinutes_def SetSeconds_def DayJob_def IntervalJob_def
      no_nil_def six_fields_def field_of_def list_field_def)

theorem cron_build_spec_witness:
  "cron_Validate (\<lambda>s. None) (\<lambda>s. Some ''no'') demo_builder = Some None"
proof -
  have "list_all visible (six_fields demo_builder)"
    by (simp add: demo_builder_facts visible_def is_ascii_space_def)
  then show ?thesis
    using cron_build_spec [OF demo_builder_facts(1,2), of "\<lambda>s. None" "\<lambda>s. Some ''no''" "\<lambda>_. undefined"] demo_builder_facts
    by auto
qed

subsection \<open>Jobs\<close>

text \<open>Numbers are used once, and a name stands for the entry of a job of that name.\<close>

definition cron_inv :: "cron_state \<Rightarrow> bool" where
  "cron_inv s \<longleftrightarrow>
     (case cs_crontab s of
        None \<Rightarrow> cs_jobMap s = Map.empty
      | Some entries \<Rightarrow>
          distinct (map fst entries) \<and> (\<forall>e \<in> set entries. fst e < cs_next s)
        \<and> (\<forall>n i. cs_jobMap s n = Some i \<longrightarrow> (i, Some n) \<in> set entries))"

datatype cron_call =
    CallInit "(cron_config \<Rightarrow> cron_config) list" | CallJob string string bool | CallFunc string bool | CallRemove string | CallStop bool

fun cron_do :: "(string \<Rightarrow> string option) \<Rightarrow> cron_call \<Rightarrow> cron_state \<Rightarrow> cron_state" where
  "cron_do parser (CallInit opts) s = InitCron opts s"
| "cron_do parser (CallJob spec n first) s = snd (RegisterJob parser spec n first s)"
| "cron_do parser (CallFunc spec first) s = snd (RegisterFunc parser spec first s)"
| "cron_do parser (CallRemove n) s = RemoveCronJob n s"
| "cron_do parser (CallStop idle) s = snd (StopCron idle s)"

lemma cron_inv_start: "cron_inv cron_start"
  by (simp add: cron_inv_def cron_start_def)

lemma cron_inv_add:
  assumes "cron_inv s" and "cs_crontab s = Some entries"
  shows "cron_inv (s\<lparr>cs_crontab := Some (entries @ [(cs_next s, j)]), cs_next := Suc (cs_next s)\<rparr>)"
  using assms by (auto simp: cron_inv_def less_Suc_eq)

lemma cron_inv_job:
  assumes "cron_inv s"
  shows "cron_inv (snd (RegisterJob parser spec n first s))"
proof (cases "cs_crontab s")
  case (Some entries)
  show ?thesis
  proof (cases "parser spec")
    case None
    let ?s = "s\<lparr>cs_crontab := Some (entries @ [(cs_next s, Some n)]), cs_next := Suc (cs_next s)\<rparr>"
    have "cron_inv ?s" by (rule cron_inv_add [OF assms Some])
    then have "cron_inv (?s\<lparr>cs_jobMap := (cs_jobMap ?s)(n \<mapsto> cs_next s)\<rparr>)" by (auto simp: cron_inv_def)
    then show ?thesis using Some None by (simp add: RegisterJob_def add_entry_def Let_def cron_inv_def)
  qed (use Some assms in \<open>simp add: RegisterJob_def add_entry_def\<close>)
qed (use assms in \<open>simp add: RegisterJob_def\<close>)

lemma cron_inv_func:
  assumes "cron_inv s"
  shows "cron_inv (snd (RegisterFunc parser spec first s))"
proof (cases "cs_crontab s")
  case (Some entries)
  show ?thesis
  proof (cases "parser spec")
    case None
    have "cron_inv (s\<lparr>cs_crontab := Some (entries @ [(cs_next s, None)]), cs_next := Suc (cs_next s)\<rparr>)" by (rule cron_inv_add [OF assms Some])
    then show ?thesis using Some None by (simp add: RegisterFunc_def add_entry_def cron_inv_def)
  qed (use Some assms in \<open>simp add: RegisterFunc_def add_entry_def\<close>)
qed (use assms in \<open>simp add: RegisterFunc_def\<close>)

lemma entry_unique: "distinct (map fst es) \<Longrightarrow> (i, x) \<in> set es \<Longrightarrow> (i, y) \<in> set es \<Longrightarrow> x = y"
  by (metis eq_key_imp_eq_value)

lemma cron_inv_remove:
  assumes "cron_inv s"
  shows "cron_inv (RemoveCronJob n s)"
proof (cases "cs_crontab s")
  case None
  then show ?thesis using assms by (simp add: cron_inv_def RemoveCronJob_def Let_def split: option.split)
next
  case (Some entries)
  have inv: "distinct (map fst entries)" "\<forall>e \<in> set entries. fst e < cs_next s"
    "\<And>m i. cs_jobMap s m = Some i \<Longrightarrow> (i, Some m) \<in> set entries"
    using assms Some by (simp_all add: cron_inv_def)
  show ?thesis
  proof (cases "cs_jobMap s n")
    case None
    then show ?thesis using Some inv by (auto simp: cron_inv_def RemoveCronJob_def Let_def)
  next
    case i: (Some i)
    have "distinct (map fst (filter (\<lambda>e. fst e \<noteq> i) entries))" using inv(1) by (simp add: distinct_map_filter)
    moreover have "j \<noteq> i" if "m \<noteq> n" "cs_jobMap s m = Some j" for m j
      using entry_unique [OF inv(1)] inv(3) [OF i] inv(3) [OF that(2)] that(1) by auto
    ultimately show ?thesis using Some i inv by (auto simp: cron_inv_def RemoveCronJob_def Let_def)
  qed
qed

lemma cron_inv_call: "cron_inv s \<Longrightarrow> cron_inv (cron_do parser c s)"
proof (cases c)
  case (CallInit opts)
  assume "cron_inv s"
  then show ?thesis using CallInit by (cases "cs_crontab s") (simp_all add: InitCron_def cron_inv_def Let_def)
next
  case (CallStop idle)
  assume "cron_inv s"
  then show ?thesis using CallStop by (cases "cs_crontab s") (simp_all add: StopCron_def cron_inv_def)
qed (simp_all add: cron_inv_job cron_inv_func cron_inv_remove)

lemma cron_inv_run: "cron_inv s \<Longrightarrow> cron_inv (fold (cron_do parser) cs s)"
  by (induction cs arbitrary: s) (simp_all add: cron_inv_call)

definition job_entries :: "string \<Rightarrow> cron_state \<Rightarrow> nat list" where
  "job_entries n s = map fst (filter (\<lambda>e. snd e = Some n) (case cs_crontab s of None \<Rightarrow> [] | Some es \<Rightarrow> es))"

text \<open>
  The scheduler's jobs, after any calls. A name that is registered stands for an entry of its own. Registering
  fails before \<open>InitCron\<close> and on an expression the scheduler's parser refuses, and then changes nothing and runs
  nothing; otherwise it adds one entry, which removing the name takes away again and nothing else with it. But a
  name that is registered twice keeps its first entry: removing the name takes only the last one away, and removing
  it once more does nothing.
\<close>

theorem cron_jobs:
  fixes parser :: "string \<Rightarrow> string option" and calls :: "cron_call list"
  defines "s \<equiv> fold (cron_do parser) calls cron_start"
  shows "(\<forall>i. cs_jobMap s n = Some i \<longrightarrow> i \<in> set (job_entries n s))
     \<and> (\<forall>err s'. RegisterJob parser spec n first s = (Some err, s') \<longrightarrow> s' = s \<and> (cs_crontab s = None \<or> parser spec \<noteq> None))
     \<and> (\<forall>s'. RegisterJob parser spec n first s = (None, s') \<longrightarrow>
          job_entries n s' = job_entries n s @ [cs_next s]
        \<and> cs_first_runs s' = cs_first_runs s @ (if first then [Some n] else [])
        \<and> job_entries n (RemoveCronJob n s') = job_entries n s
        \<and> (\<forall>m. m \<noteq> n \<longrightarrow> job_entries m (RemoveCronJob n s') = job_entries m s)
        \<and> RemoveCronJob n (RemoveCronJob n s') = RemoveCronJob n s')"
proof (intro conjI allI impI)
  have inv: "cron_inv s" unfolding s_def by (rule cron_inv_run [OF cron_inv_start])
  show "i \<in> set (job_entries n s)" if "cs_jobMap s n = Some i" for i
    using inv that by (cases "cs_crontab s") (force simp: cron_inv_def job_entries_def)+
  show "s' = s" "cs_crontab s = None \<or> parser spec \<noteq> None" if "RegisterJob parser spec n first s = (Some err, s')" for err s'
    using that by (auto simp: RegisterJob_def add_entry_def Let_def split: option.splits)
  fix s'
  assume r: "RegisterJob parser spec n first s = (None, s')"
  then obtain es where es: "cs_crontab s = Some es" "parser spec = None"
    by (auto simp: RegisterJob_def add_entry_def split: option.splits)
  have s': "cs_crontab s' = Some (es @ [(cs_next s, Some n)])" "cs_jobMap s' n = Some (cs_next s)"
    "cs_first_runs s' = cs_first_runs s @ (if first then [Some n] else [])"
    using r es by (auto simp: RegisterJob_def add_entry_def Let_def)
  have below: "\<forall>e \<in> set es. fst e \<noteq> cs_next s" using inv es by (auto simp: cron_inv_def)
  then have keep: "filter (\<lambda>e. fst e \<noteq> cs_next s) es = es" by (simp add: filter_id_conv)
  have rem: "cs_crontab (RemoveCronJob n s') = Some es" "cs_jobMap (RemoveCronJob n s') n = None"
    using s' keep by (simp_all add: RemoveCronJob_def Let_def)
  show "job_entries n s' = job_entries n s @ [cs_next s]" using es s' by (simp add: job_entries_def)
  show "cs_first_runs s' = cs_first_runs s @ (if first then [Some n] else [])" by (rule s'(3))
  show "job_entries n (RemoveCronJob n s') = job_entries n s" using es rem by (simp add: job_entries_def)
  show "job_entries m (RemoveCronJob n s') = job_entries m s" if "m \<noteq> n" for m using es rem by (simp add: job_entries_def)
  show "RemoveCronJob n (RemoveCronJob n s') = RemoveCronJob n s'"
    using rem(2) by (simp add: RemoveCronJob_def [of n "RemoveCronJob n s'"] fun_upd_idem)
qed

theorem cron_jobs_witness:
  "\<exists>s s'. RegisterJob (\<lambda>_. None) ''* * * * * *'' ''j'' True (fold (cron_do (\<lambda>_. None)) [CallInit [], CallJob ''* * * * * *'' ''j'' False] cron_start) = (None, s)
     \<and> s' = RemoveCronJob ''j'' s \<and> job_entries ''j'' s' = [1] \<and> RemoveCronJob ''j'' s' = s'"
proof -
  let ?s = "fold (cron_do (\<lambda>_. None)) [CallInit [], CallJob ''* * * * * *'' ''j'' False] cron_start"
  have e: "cs_crontab ?s = Some [(1, Some ''j'')]"
    by (simp add: InitCron_def cron_start_def RegisterJob_def add_entry_def Let_def)
  obtain s' where s': "RegisterJob (\<lambda>_. None) ''* * * * * *'' ''j'' True ?s = (None, s')"
    using e by (simp add: RegisterJob_def add_entry_def Let_def del: fold_simps)
  have j: "job_entries ''j'' ?s = [1]" using e by (simp add: job_entries_def del: fold_simps)
  note t = cron_jobs [of "\<lambda>_. None" "[CallInit [], CallJob ''* * * * * *'' ''j'' False]" "''j''" "''* * * * * *''" True]
  have "job_entries ''j'' (RemoveCronJob ''j'' s') = [1] \<and> RemoveCronJob ''j'' (RemoveCronJob ''j'' s') = RemoveCronJob ''j'' s'"
    using t s' unfolding j by blast
  with s' show ?thesis by blast
qed

text \<open>
  \<open>Validate\<close> lets expressions of five fields through to the standard parser; the scheduler was made for expressions with
  seconds, whose parser takes six fields only, whatever \<open>WithParseTypeSecond\<close> says.
\<close>

lemma five_fields_refused:
  assumes "\<forall>s. \<not> has_prefix s ''@'' \<longrightarrow> length (without_zone (go_fields s)) \<noteq> 6 \<longrightarrow> secondParser s \<noteq> None"
    and "cb_Spec b \<noteq> []" and "\<not> has_prefix (cb_Spec b) ''@''" and "length (without_zone (go_fields (cb_Spec b))) = 5"
    and "standardParser (cb_Spec b) = None" and "cs_crontab s \<noteq> None"
  shows "cron_Validate secondParser standardParser b = Some None" "fst (RegisterJob secondParser (cb_Spec b) n first s) \<noteq> None"
proof -
  show "cron_Validate secondParser standardParser b = Some None"
    using assms(2-5) by (simp add: cron_Validate_def BuildSpec_def Let_def)
  obtain e where "secondParser (cb_Spec b) = Some e" using assms(1,3,4) by fastforce
  then show "fst (RegisterJob secondParser (cb_Spec b) n first s) \<noteq> None"
    using assms(6) by (auto simp: RegisterJob_def add_entry_def)
qed

end
