(* ===== verification/Es.thy ===== *)
theory Es
  imports Go_Strings Go_Words
begin

text \<open>
  The package \<open>es\<close>: the addresses of a client, indices and their aliases, scrolling, bulk payloads and the two
  builders of queries. The server and the library in front of it are arguments: a function from a call and a state
  to an answer, which may be an error, and a state. A value that goes through JSON and a floating-point number are
  values of type variables.
\<close>

section \<open>The client\<close>

text \<open>The fields of a configuration that are strings, numbers and flags; \<open>ec_CACert\<close> and the addresses are changed on their way.\<close>

record EsConfig =
  ec_IsHttps :: bool
  ec_Endpoints :: "string list"
  ec_Username :: string
  ec_Password :: string
  ec_CloudID :: string
  ec_APIKey :: string
  ec_ServiceToken :: string
  ec_CertificateFingerprint :: string
  ec_CACert :: string
  ec_InsecureSkipVerify :: bool
  ec_RetryOnStatus :: "int list"
  ec_DisableRetry :: bool
  ec_MaxRetries :: int

record es_client_config =
  ecc_Addresses :: "string list"
  ecc_Username :: string
  ecc_Password :: string
  ecc_CloudID :: string
  ecc_APIKey :: string
  ecc_ServiceToken :: string
  ecc_CertificateFingerprint :: string
  ecc_RetryOnStatus :: "int list"
  ecc_DisableRetry :: bool
  ecc_MaxRetries :: int
  ecc_CACert :: "string option"
  ecc_Transport :: "bool option"   \<comment> \<open>a transport of its own, and whether that skips verification\<close>

definition es_isHttps :: "EsConfig \<Rightarrow> bool" where
  "es_isHttps config = (ec_IsHttps config \<or> list_ex (\<lambda>e. has_prefix e ''https://'') (ec_Endpoints config))"

definition es_endpoint :: "bool \<Rightarrow> string \<Rightarrow> string" where
  "es_endpoint isHttps endpoint =
     (if \<not> contains endpoint ''://'' then (if isHttps then ''https://'' @ endpoint else ''http://'' @ endpoint) else endpoint)"

definition NewElasticSearchConfig :: "EsConfig \<Rightarrow> es_client_config" where
  "NewElasticSearchConfig config =
     \<lparr>ecc_Addresses = map (es_endpoint (es_isHttps config)) (ec_Endpoints config),
      ecc_Username = ec_Username config, ecc_Password = ec_Password config, ecc_CloudID = ec_CloudID config,
      ecc_APIKey = ec_APIKey config, ecc_ServiceToken = ec_ServiceToken config,
      ecc_CertificateFingerprint = ec_CertificateFingerprint config,
      ecc_RetryOnStatus = ec_RetryOnStatus config, ecc_DisableRetry = ec_DisableRetry config,
      ecc_MaxRetries = ec_MaxRetries config,
      ecc_CACert = (if length (ec_CACert config) > 0 then Some (ec_CACert config) else None),
      ecc_Transport = (if es_isHttps config then Some (ec_InsecureSkipVerify config) else None)\<rparr>"

text \<open>What the library answers to making either client and to the ping; an operator is returned even when the ping fails.\<close>

definition es_Ping :: "string + bool \<Rightarrow> string option" where
  "es_Ping answer =
     (case answer of
        Inl e \<Rightarrow> Some (''cann'' @ [CHR 0x27] @ ''t access es server: '' @ e)
      | Inr ok \<Rightarrow> if \<not> ok then Some (''cann'' @ [CHR 0x27] @ ''t access es server: ping not succeeded'') else None)"

definition NewElasticSearchOperator ::
  "(es_client_config \<Rightarrow> string option) \<Rightarrow> (es_client_config \<Rightarrow> string option) \<Rightarrow> string + bool \<Rightarrow> EsConfig
     \<Rightarrow> es_client_config option \<times> string option" where
  "NewElasticSearchOperator typed raw ping config =
     (let esConfig = NewElasticSearchConfig config in
      case typed esConfig of
        Some e \<Rightarrow> (None, Some (''new typed client: '' @ e))
      | None \<Rightarrow>
          (case raw esConfig of
             Some e \<Rightarrow> (None, Some (''new es client: '' @ e))
           | None \<Rightarrow> (Some esConfig, es_Ping ping)))"

text \<open>
  What the package does when it is loaded: the operator it keeps, and the panic, if any. The operator is kept
  whatever error comes with it.
\<close>

definition es_init ::
  "(es_client_config \<Rightarrow> string option) \<Rightarrow> (es_client_config \<Rightarrow> string option) \<Rightarrow> string + bool \<Rightarrow> bool \<Rightarrow> bool \<Rightarrow> EsConfig
     \<Rightarrow> es_client_config option \<times> string option" where
  "es_init typed raw ping enable strict config =
     (if enable
      then case NewElasticSearchOperator typed raw ping config of
             (op, None) \<Rightarrow> (op, None)
           | (op, Some e) \<Rightarrow> (op, if strict then Some (''init ES Client error: '' @ e) else None)
      else (None, None))"

section \<open>Indices and aliases\<close>

text \<open>
  The request for a new index is a value of the library; the code only replaces its aliases, each with its
  flag for writing. A call of the server has its name and arguments; the server answers with an error or with
  a response and changes its state, which are both of type variables. \<open>ok\<close> is \<open>IsSuccess\<close>: whether the
  status of a response is a success, as an existence check is answered.
\<close>

record 'q create_request =
  cq_request :: 'q
  cq_Aliases :: "string \<rightharpoonup> bool option"

datatype 'q es_call =
    CallExists string
  | CallExistsAlias string "string option"
  | CallPutAlias string string bool
  | CallDeleteAlias string string
  | CallCreate string "'q create_request"
  | CallDelete string
  | CallGetAlias string
  | CallGetIndex string
  | CallReindex "string list" string "string option" bool
  | CallGetMapping string
  | CallPutMapping string 'q
  | CallRefresh string
  | CallGet string string
  | CallCount string
  | CallIndexDocument string string string
  | CallUpdate string string string
  | CallDeleteDocument string string
  | CallHealth
  | CallStats string

type_synonym ('q, 'r, 's) es_api = "'q es_call \<Rightarrow> 's \<Rightarrow> (string + 'r) \<times> 's"

text \<open>An operation that only wants the error of one call, and one that returns its response.\<close>

definition call_error :: "(string + 'r) \<times> 's \<Rightarrow> string option \<times> 's" where
  "call_error r = (case r of (Inl e, s) \<Rightarrow> (Some e, s) | (Inr _, s) \<Rightarrow> (None, s))"

definition IndexExist :: "('q, 'r, 's) es_api \<Rightarrow> ('r \<Rightarrow> bool) \<Rightarrow> string \<Rightarrow> 's \<Rightarrow> (string + bool) \<times> 's" where
  "IndexExist api ok indexName s = map_prod (map_sum id ok) id (api (CallExists indexName) s)"

definition AliasExist :: "('q, 'r, 's) es_api \<Rightarrow> ('r \<Rightarrow> bool) \<Rightarrow> string \<Rightarrow> 's \<Rightarrow> (string + bool) \<times> 's" where
  "AliasExist api ok aliasName s = map_prod (map_sum id ok) id (api (CallExistsAlias aliasName None) s)"

definition CreateAlias :: "('q, 'r, 's) es_api \<Rightarrow> ('r \<Rightarrow> bool) \<Rightarrow> string \<Rightarrow> string \<Rightarrow> bool \<Rightarrow> 's \<Rightarrow> string option \<times> 's" where
  "CreateAlias api ok indexName aliasName isWriteIndex s =
     (case api (CallExistsAlias aliasName (Some indexName)) s of
        (Inl e, s') \<Rightarrow> (Some e, s')
      | (Inr r, s') \<Rightarrow> if ok r then (None, s') else call_error (api (CallPutAlias indexName aliasName isWriteIndex) s'))"

definition DeleteAlias :: "('q, 'r, 's) es_api \<Rightarrow> ('r \<Rightarrow> bool) \<Rightarrow> string \<Rightarrow> string \<Rightarrow> 's \<Rightarrow> string option \<times> 's" where
  "DeleteAlias api ok indexName aliasName s =
     (case api (CallExistsAlias aliasName (Some indexName)) s of
        (Inl e, s') \<Rightarrow> (Some e, s')
      | (Inr r, s') \<Rightarrow> if \<not> ok r then (None, s') else call_error (api (CallDeleteAlias indexName aliasName) s'))"

text \<open>The request that a text describes, if the library can read it; \<open>newreq\<close> is a new one.\<close>

definition create_from :: "(string \<Rightarrow> string + 'q create_request) \<Rightarrow> 'q create_request \<Rightarrow> string \<Rightarrow> string + 'q create_request" where
  "create_from fromJSON newreq mappingJson = (if mappingJson \<noteq> [] then fromJSON mappingJson else Inr newreq)"

definition CreateIndex ::
  "('q, 'r, 's) es_api \<Rightarrow> ('r \<Rightarrow> bool) \<Rightarrow> (string \<Rightarrow> string + 'q create_request) \<Rightarrow> 'q create_request
     \<Rightarrow> string \<Rightarrow> string \<Rightarrow> 's \<Rightarrow> string option \<times> 's" where
  "CreateIndex api ok fromJSON newreq indexName mappingJson s =
     (case IndexExist api ok indexName s of
        (Inl e, s') \<Rightarrow> (Some e, s')
      | (Inr True, s') \<Rightarrow> (None, s')
      | (Inr False, s') \<Rightarrow>
          (case create_from fromJSON newreq mappingJson of
             Inl e \<Rightarrow> (Some e, s')
           | Inr req \<Rightarrow> call_error (api (CallCreate indexName req) s')))"

definition CreateIndexWithAlias ::
  "('q, 'r, 's) es_api \<Rightarrow> ('r \<Rightarrow> bool) \<Rightarrow> (string \<Rightarrow> string + 'q create_request) \<Rightarrow> 'q create_request
     \<Rightarrow> string \<Rightarrow> string \<Rightarrow> string \<Rightarrow> 's \<Rightarrow> string option \<times> 's" where
  "CreateIndexWithAlias api ok fromJSON newreq indexName aliasName mappingJson s =
     (case IndexExist api ok indexName s of
        (Inl e, s') \<Rightarrow> (Some e, s')
      | (Inr True, s') \<Rightarrow> (None, s')
      | (Inr False, s') \<Rightarrow>
          (case create_from fromJSON newreq mappingJson of
             Inl e \<Rightarrow> (Some e, s')
           | Inr req0 \<Rightarrow>
               let req = (if aliasName \<noteq> [] then req0\<lparr>cq_Aliases := [aliasName \<mapsto> Some True]\<rparr> else req0)
               in call_error (api (CallCreate indexName req) s')))"

definition DeleteIndex :: "('q, 'r, 's) es_api \<Rightarrow> ('r \<Rightarrow> bool) \<Rightarrow> string \<Rightarrow> 's \<Rightarrow> string option \<times> 's" where
  "DeleteIndex api ok indexName s =
     (case IndexExist api ok indexName s of
        (Inl e, s') \<Rightarrow> (Some e, s')
      | (Inr False, s') \<Rightarrow> (None, s')
      | (Inr True, s') \<Rightarrow> call_error (api (CallDelete indexName) s'))"

text \<open>The operations that are one call.\<close>

definition GetAlias :: "('q, 'r, 's) es_api \<Rightarrow> string list \<Rightarrow> 's \<Rightarrow> (string + 'r) \<times> 's" where
  "GetAlias api indexNames = api (CallGetAlias (join '','' indexNames))"
definition GetIndexInfo :: "('q, 'r, 's) es_api \<Rightarrow> string \<Rightarrow> 's \<Rightarrow> (string + 'r) \<times> 's" where
  "GetIndexInfo api indexName = api (CallGetIndex indexName)"
definition Reindex :: "('q, 'r, 's) es_api \<Rightarrow> string list \<Rightarrow> string \<Rightarrow> string option \<Rightarrow> 's \<Rightarrow> string option \<times> 's" where
  "Reindex api sourceIndex destIndex script s = call_error (api (CallReindex sourceIndex destIndex script True) s)"
definition RefreshIndex :: "('q, 'r, 's) es_api \<Rightarrow> string \<Rightarrow> 's \<Rightarrow> string option \<times> 's" where
  "RefreshIndex api indexName s = call_error (api (CallRefresh indexName) s)"
definition GetDocument :: "('q, 'r, 's) es_api \<Rightarrow> string \<Rightarrow> string \<Rightarrow> 's \<Rightarrow> (string + 'r) \<times> 's" where
  "GetDocument api indexName docID = api (CallGet indexName docID)"
definition GetDocumentCount :: "('q, 'r, 's) es_api \<Rightarrow> string \<Rightarrow> 's \<Rightarrow> (string + 'r) \<times> 's" where
  "GetDocumentCount api indexName = api (CallCount indexName)"
definition IndexDocument :: "('q, 'r, 's) es_api \<Rightarrow> string \<Rightarrow> string \<Rightarrow> string \<Rightarrow> 's \<Rightarrow> string option \<times> 's" where
  "IndexDocument api indexName docID document s = call_error (api (CallIndexDocument indexName docID document) s)"
definition UpdateDocument :: "('q, 'r, 's) es_api \<Rightarrow> string \<Rightarrow> string \<Rightarrow> string \<Rightarrow> 's \<Rightarrow> string option \<times> 's" where
  "UpdateDocument api indexName docID update s = call_error (api (CallUpdate indexName docID update) s)"
definition DeleteDocument :: "('q, 'r, 's) es_api \<Rightarrow> string \<Rightarrow> string \<Rightarrow> 's \<Rightarrow> string option \<times> 's" where
  "DeleteDocument api indexName docID s = call_error (api (CallDeleteDocument indexName docID) s)"

text \<open>\<open>task\<close> is the number of the task in a response, which may be missing.\<close>

definition ReindexAsync ::
  "('q, 'r, 's) es_api \<Rightarrow> ('r \<Rightarrow> string option) \<Rightarrow> string list \<Rightarrow> string \<Rightarrow> string option \<Rightarrow> 's \<Rightarrow> (string + string) \<times> 's" where
  "ReindexAsync api task sourceIndex destIndex script s =
     (case api (CallReindex sourceIndex destIndex script False) s of
        (Inl e, s') \<Rightarrow> (Inl e, s')
      | (Inr r, s') \<Rightarrow>
          (case task r of None \<Rightarrow> (Inl ''async reindex: response has no task id'', s') | Some i \<Rightarrow> (Inr i, s')))"

text \<open>\<open>mappings\<close> is the map of a response from the name of an index to its mapping; an index missing there has none.\<close>

definition GetIndexMapping ::
  "('q, 'r, 's) es_api \<Rightarrow> ('r \<Rightarrow> string \<rightharpoonup> 'm) \<Rightarrow> string \<Rightarrow> 's \<Rightarrow> (string + 'm option) \<times> 's" where
  "GetIndexMapping api mappings indexName s =
     map_prod (map_sum id (\<lambda>r. mappings r indexName)) id (api (CallGetMapping indexName) s)"

definition UpdateIndexMapping ::
  "('q, 'r, 's) es_api \<Rightarrow> (string \<Rightarrow> string + 'q) \<Rightarrow> string \<Rightarrow> string \<Rightarrow> 's \<Rightarrow> string option \<times> 's" where
  "UpdateIndexMapping api fromJSON indexName mappingJson s =
     (case fromJSON mappingJson of
        Inl e \<Rightarrow> (Some e, s)
      | Inr req \<Rightarrow> call_error (api (CallPutMapping indexName req) s))"

text \<open>A response that goes through JSON into a map: the error of encoding is dropped.\<close>

definition through_json :: "('r \<Rightarrow> string) \<Rightarrow> (string \<Rightarrow> string + 'm) \<Rightarrow> (string + 'r) \<times> 's \<Rightarrow> (string + 'm) \<times> 's" where
  "through_json marshal unmarshal r = (case r of (Inl e, s) \<Rightarrow> (Inl e, s) | (Inr x, s) \<Rightarrow> (unmarshal (marshal x), s))"

definition GetClusterHealth :: "('q, 'r, 's) es_api \<Rightarrow> ('r \<Rightarrow> string) \<Rightarrow> (string \<Rightarrow> string + 'm) \<Rightarrow> 's \<Rightarrow> (string + 'm) \<times> 's" where
  "GetClusterHealth api marshal unmarshal s = through_json marshal unmarshal (api CallHealth s)"
definition GetIndexStats :: "('q, 'r, 's) es_api \<Rightarrow> ('r \<Rightarrow> string) \<Rightarrow> (string \<Rightarrow> string + 'm) \<Rightarrow> string \<Rightarrow> 's \<Rightarrow> (string + 'm) \<times> 's" where
  "GetIndexStats api marshal unmarshal indexName s = through_json marshal unmarshal (api (CallStats indexName) s)"

section \<open>Responses read by hand\<close>

text \<open>A response of the other client: its status line, whether that is an error, its text and its body.\<close>

record raw_response =
  rr_IsError :: bool
  rr_Status :: string
  rr_String :: string
  rr_Body :: string

definition GetIndexList :: "(string \<Rightarrow> string + 'i list) \<Rightarrow> string + raw_response \<Rightarrow> string + 'i list" where
  "GetIndexList decode response =
     (case response of
        Inl e \<Rightarrow> Inl e
      | Inr r \<Rightarrow> if rr_IsError r then Inl (''cat indices error: '' @ rr_String r) else decode (rr_Body r))"

definition GetTask :: "(string \<Rightarrow> string + 'm) \<Rightarrow> string + raw_response \<Rightarrow> string + 'm" where
  "GetTask unmarshal response =
     (case response of
        Inl e \<Rightarrow> Inl e
      | Inr r \<Rightarrow> if rr_IsError r then Inl (''tasks get: '' @ rr_Status r) else unmarshal (rr_Body r))"

definition CancelTask :: "string + raw_response \<Rightarrow> string option" where
  "CancelTask response =
     (case response of
        Inl e \<Rightarrow> Some e
      | Inr r \<Rightarrow> if rr_IsError r then Some (''cancel task: '' @ rr_Status r) else None)"

definition Rollover :: "('v \<Rightarrow> string + string) \<Rightarrow> (string \<Rightarrow> string \<Rightarrow> string + raw_response) \<Rightarrow> string \<Rightarrow> 'v \<Rightarrow> string option" where
  "Rollover marshal send alias_name conditions =
     (case marshal conditions of
        Inl e \<Rightarrow> Some e
      | Inr buf \<Rightarrow>
          (case send alias_name buf of
             Inl e \<Rightarrow> Some e
           | Inr r \<Rightarrow> if rr_IsError r then Some (''rollover error: '' @ rr_Status r) else None))"

section \<open>Scrolling\<close>

record 'h scroll_page =
  sp_ScrollID :: string
  sp_Hits :: "'h list"

definition decodeScrollPage :: "(string \<Rightarrow> string + 'h scroll_page) \<Rightarrow> string + raw_response \<Rightarrow> string + 'h scroll_page" where
  "decodeScrollPage decode response =
     (case response of
        Inl e \<Rightarrow> Inl e
      | Inr r \<Rightarrow> if rr_IsError r then Inl (''scroll search error: '' @ rr_String r) else decode (rr_Body r))"

text \<open>
  The loop of \<open>ScrollEach\<close>. \<open>scroll\<close> is the server: a request with the number of the scroll context, answered with a
  response and a new state; \<open>fn\<close> is the caller's function, which may fail on the page it is given. The fuel bounds
  the number of pages, as the server may never end. The result is the error, the pages handed over, the scroll
  context that is released in the end and the server's state.
\<close>

fun scroll_loop ::
  "nat \<Rightarrow> (string \<Rightarrow> string + 'h scroll_page) \<Rightarrow> (string \<Rightarrow> 's \<Rightarrow> (string + raw_response) \<times> 's) \<Rightarrow> ('h list \<Rightarrow> string option)
     \<Rightarrow> string \<Rightarrow> string + raw_response \<Rightarrow> 's \<Rightarrow> (string option \<times> 'h list list \<times> string \<times> 's) option" where
  "scroll_loop 0 decode scroll fn scrollID res s = None"
| "scroll_loop (Suc fuel) decode scroll fn scrollID res s =
     (case decodeScrollPage decode res of
        Inl e \<Rightarrow> Some (Some e, [], scrollID, s)
      | Inr page \<Rightarrow>
          if sp_Hits page = [] then Some (None, [], sp_ScrollID page, s)
          else case fn (sp_Hits page) of
            Some e \<Rightarrow> Some (Some e, [sp_Hits page], sp_ScrollID page, s)
          | None \<Rightarrow>
              if sp_ScrollID page = [] then Some (None, [sp_Hits page], [], s)
              else case scroll (sp_ScrollID page) s of (res', s') \<Rightarrow>
                map_option (\<lambda>(e, pages, rest). (e, sp_Hits page # pages, rest))
                  (scroll_loop fuel decode scroll fn (sp_ScrollID page) res' s'))"

text \<open>The body of the first request: the caller's, with the size of a batch when one is given.\<close>

definition scroll_body :: "(string \<rightharpoonup> 'v) \<Rightarrow> (int \<Rightarrow> 'v) \<Rightarrow> int \<Rightarrow> string \<rightharpoonup> 'v" where
  "scroll_body reqBody num batchSize = (if batchSize > 0 then reqBody(''size'' \<mapsto> num batchSize) else reqBody)"

definition clearScroll :: "(string \<Rightarrow> 's \<Rightarrow> 's) \<Rightarrow> string \<Rightarrow> 's \<Rightarrow> 's" where
  "clearScroll clear scrollID s = (if scrollID = [] then s else clear scrollID s)"

text \<open>The server is asked for the first page, for more of a scroll context, and to forget one.\<close>

record ('h, 's) scroll_api =
  sa_decode :: "string \<Rightarrow> string + 'h scroll_page"
  sa_search :: "string \<Rightarrow> string \<Rightarrow> 's \<Rightarrow> (string + raw_response) \<times> 's"
  sa_scroll :: "string \<Rightarrow> 's \<Rightarrow> (string + raw_response) \<times> 's"
  sa_clear :: "string \<Rightarrow> 's \<Rightarrow> 's"

definition ScrollEach ::
  "nat \<Rightarrow> ((string \<rightharpoonup> 'v) \<Rightarrow> string + string) \<Rightarrow> (int \<Rightarrow> 'v) \<Rightarrow> ('h, 's) scroll_api
     \<Rightarrow> string \<Rightarrow> (string \<rightharpoonup> 'v) \<Rightarrow> int \<Rightarrow> ('h list \<Rightarrow> string option) \<Rightarrow> 's \<Rightarrow> (string option \<times> 'h list list \<times> 's) option" where
  "ScrollEach fuel marshal num api idx reqBody batchSize fn s =
     (case marshal (scroll_body reqBody num batchSize) of
        Inl e \<Rightarrow> Some (Some e, [], s)
      | Inr buf \<Rightarrow>
          (case sa_search api idx buf s of (res, s') \<Rightarrow>
             map_option (\<lambda>(e, pages, scrollID, s''). (e, pages, clearScroll (sa_clear api) scrollID s''))
               (scroll_loop fuel (sa_decode api) (sa_scroll api) fn [] res s')))"

text \<open>\<open>source\<close> is the \<open>_source\<close> of a hit, if it is an object; the documents are lost when the scroll ends with an error.\<close>

definition ScrollSearch ::
  "nat \<Rightarrow> ((string \<rightharpoonup> 'v) \<Rightarrow> string + string) \<Rightarrow> (int \<Rightarrow> 'v) \<Rightarrow> ('h \<Rightarrow> 'd option) \<Rightarrow> ('h, 's) scroll_api
     \<Rightarrow> string \<Rightarrow> (string \<rightharpoonup> 'v) \<Rightarrow> int \<Rightarrow> 's \<Rightarrow> ((string + 'd list) \<times> 's) option" where
  "ScrollSearch fuel marshal num source api idx reqBody batchSize s =
     map_option (\<lambda>(e, pages, s'). (case e of Some x \<Rightarrow> Inl x | None \<Rightarrow> Inr (List.map_filter source (concat pages)), s'))
       (ScrollEach fuel marshal num api idx reqBody batchSize (\<lambda>_. None) s)"

section \<open>Bulk requests\<close>

record 'v BulkOperation =
  bo_Action :: string
  bo_Index :: string
  bo_DocID :: string
  bo_Doc :: "'v option"

text \<open>What is encoded, one value a line: the action with its index and number, a document, or one to update with.\<close>

datatype 'v bulk_value = BulkMeta string string "string option" | BulkDoc 'v | BulkUpdate 'v

definition bulk_meta :: "'v BulkOperation \<Rightarrow> 'v bulk_value" where
  "bulk_meta op = BulkMeta (bo_Action op) (bo_Index op) (if bo_DocID op \<noteq> [] then Some (bo_DocID op) else None)"

text \<open>The encoder ends every value with a line end.\<close>

fun encode_all :: "('v bulk_value \<Rightarrow> string + string) \<Rightarrow> 'v bulk_value list \<Rightarrow> string + string" where
  "encode_all enc [] = Inr []"
| "encode_all enc (v # vs) =
     (case enc v of Inl e \<Rightarrow> Inl e | Inr s \<Rightarrow> map_sum id (\<lambda>r. s @ [CHR 0x0A] @ r) (encode_all enc vs))"

definition nil_doc :: "string \<Rightarrow> string" where "nil_doc what = ''nil doc for '' @ what"

fun buildNDJSON :: "('v bulk_value \<Rightarrow> string + string) \<Rightarrow> 'v BulkOperation list \<Rightarrow> string + string" where
  "buildNDJSON enc [] = Inr []"
| "buildNDJSON enc (op # ops) =
     (case encode_all enc [bulk_meta op] of
        Inl e \<Rightarrow> Inl e
      | Inr b \<Rightarrow>
          (case (if bo_Action op = ''index'' \<or> bo_Action op = ''create''
                 then (case bo_Doc op of None \<Rightarrow> Inl (nil_doc ''index/create'') | Some d \<Rightarrow> encode_all enc [BulkDoc d])
                 else if bo_Action op = ''update''
                 then (case bo_Doc op of None \<Rightarrow> Inl (nil_doc ''update'') | Some d \<Rightarrow> encode_all enc [BulkUpdate d])
                 else Inr []) of
             Inl e \<Rightarrow> Inl e
           | Inr b' \<Rightarrow> map_sum id (\<lambda>r. b @ b' @ r) (buildNDJSON enc ops)))"

text \<open>
  The answer to a bulk request: whether any entry failed, and for each item the actions it holds in the order they
  are ranged over, each with its number and status as they are printed and its error, encoded, if it has one.
\<close>

record bulk_result =
  br_id :: string
  br_status :: string
  br_error :: "string option"

record bulk_answer =
  ba_errors :: bool
  ba_items :: "(string \<times> bulk_result) list list"

definition firstBulkItemError :: "bulk_answer \<Rightarrow> string" where
  "firstBulkItemError out =
     (case find (\<lambda>(_, r). br_error r \<noteq> None) (concat (ba_items out)) of
        Some (action, r) \<Rightarrow> action @ '' _id='' @ br_id r @ '' status='' @ br_status r @ '': '' @ the (br_error r)
      | None \<Rightarrow> ''some items failed'')"

text \<open>The result: the answer, if there is one, and the error; \<open>send\<close> is the server.\<close>

definition es_Bulk :: "('v bulk_value \<Rightarrow> string + string) \<Rightarrow> (string \<Rightarrow> string + raw_response) \<Rightarrow> (string \<Rightarrow> string + bulk_answer)
     \<Rightarrow> 'v BulkOperation list \<Rightarrow> bulk_answer option \<times> string option" where
  "es_Bulk enc send decode ops =
     (if length ops = 0 then (None, None)
      else case buildNDJSON enc ops of
        Inl e \<Rightarrow> (None, Some e)
      | Inr ndjson \<Rightarrow>
          (case send ndjson of
             Inl e \<Rightarrow> (None, Some e)
           | Inr r \<Rightarrow>
               if rr_IsError r then (None, Some (''bulk error: '' @ rr_String r))
               else case decode (rr_Body r) of
                 Inl e \<Rightarrow> (None, Some e)
               | Inr out \<Rightarrow>
                   if ba_errors out then (Some out, Some (''bulk error: '' @ firstBulkItemError out)) else (Some out, None)))"

text \<open>The documents of a map, in the order it is ranged over.\<close>

definition BulkIndex where
  "BulkIndex enc send decode idx (docs :: (string \<times> 'v) list) =
     es_Bulk enc send decode (map (\<lambda>(docid, doc). \<lparr>bo_Action = ''index'', bo_Index = idx, bo_DocID = docid, bo_Doc = Some doc\<rparr>) docs)"

section \<open>Queries\<close>

text \<open>The clauses of a query that the builders set, each with its boost.\<close>

datatype ('v, 'f) query =
  Query (qu_MatchAll: "'f option option") (qu_Match: "string \<rightharpoonup> string \<times> 'f option")
    (qu_MultiMatch: "(string list \<times> string \<times> 'f option) option") (qu_Term: "string \<rightharpoonup> 'v \<times> 'f option")
    (qu_Terms: "((string \<rightharpoonup> 'v list) \<times> 'f option) option") (qu_Range: "string \<rightharpoonup> string option \<times> string option")
    (qu_Bool: "('v, 'f) bool_query option")
and ('v, 'f) bool_query =
  BoolQuery (bq_Must: "('v, 'f) query list") (bq_Should: "('v, 'f) query list") (bq_MustNot: "('v, 'f) query list")
    (bq_Filter: "('v, 'f) query list") (bq_MinimumShouldMatch: "string option") (bq_Boost: "'f option")

definition NewQuery :: "('v, 'f) query" where
  "NewQuery = Query None Map.empty None Map.empty None Map.empty None"

fun set_MatchAll where "set_MatchAll x (Query a b c d e f g) = Query (Some x) b c d e f g"
fun set_Match where "set_Match x (Query a b c d e f g) = Query a x c d e f g"
fun set_MultiMatch where "set_MultiMatch x (Query a b c d e f g) = Query a b (Some x) d e f g"
fun set_Term where "set_Term x (Query a b c d e f g) = Query a b c x e f g"
fun set_Terms where "set_Terms x (Query a b c d e f g) = Query a b c d (Some x) f g"
fun set_Range where "set_Range x (Query a b c d e f g) = Query a b c d e x g"
fun set_Bool where "set_Bool x (Query a b c d e f g) = Query a b c d e f (Some x)"

record ('v, 'f) XQuery =
  xq_query :: "('v, 'f) query"
  xq_lastErr :: "string option"

definition QueryBuilder :: "('v, 'f) XQuery" where
  "QueryBuilder = \<lparr>xq_query = NewQuery, xq_lastErr = None\<rparr>"

definition xq_set :: "(('v, 'f) query \<Rightarrow> ('v, 'f) query) \<Rightarrow> ('v, 'f) XQuery \<Rightarrow> ('v, 'f) XQuery" where
  "xq_set f q = q\<lparr>xq_query := f (xq_query q)\<rparr>"

definition xq_MatchAll :: "('v, 'f) XQuery \<Rightarrow> ('v, 'f) XQuery" where "xq_MatchAll = xq_set (set_MatchAll None)"
definition xq_MatchAllBoost :: "'f \<Rightarrow> ('v, 'f) XQuery \<Rightarrow> ('v, 'f) XQuery" where "xq_MatchAllBoost boost = xq_set (set_MatchAll (Some boost))"
definition xq_Match :: "string \<Rightarrow> string \<Rightarrow> ('v, 'f) XQuery \<Rightarrow> ('v, 'f) XQuery" where
  "xq_Match field txt = xq_set (set_Match [field \<mapsto> (txt, None)])"
definition xq_MatchBoost :: "string \<Rightarrow> string \<Rightarrow> 'f \<Rightarrow> ('v, 'f) XQuery \<Rightarrow> ('v, 'f) XQuery" where
  "xq_MatchBoost field txt boost = xq_set (set_Match [field \<mapsto> (txt, Some boost)])"
definition xq_MultiMatch :: "string list \<Rightarrow> string \<Rightarrow> ('v, 'f) XQuery \<Rightarrow> ('v, 'f) XQuery" where
  "xq_MultiMatch flds txt = xq_set (set_MultiMatch (flds, txt, None))"
definition xq_MultiMatchBoost :: "string list \<Rightarrow> string \<Rightarrow> 'f \<Rightarrow> ('v, 'f) XQuery \<Rightarrow> ('v, 'f) XQuery" where
  "xq_MultiMatchBoost flds txt boost = xq_set (set_MultiMatch (flds, txt, Some boost))"
definition xq_Term :: "string \<Rightarrow> 'v \<Rightarrow> ('v, 'f) XQuery \<Rightarrow> ('v, 'f) XQuery" where
  "xq_Term field v = xq_set (set_Term [field \<mapsto> (v, None)])"
definition xq_TermBoost :: "string \<Rightarrow> 'v \<Rightarrow> 'f \<Rightarrow> ('v, 'f) XQuery \<Rightarrow> ('v, 'f) XQuery" where
  "xq_TermBoost field v boost = xq_set (set_Term [field \<mapsto> (v, Some boost)])"
definition xq_Terms :: "string \<Rightarrow> 'v list \<Rightarrow> ('v, 'f) XQuery \<Rightarrow> ('v, 'f) XQuery" where
  "xq_Terms field vs = xq_set (set_Terms ([field \<mapsto> vs], None))"
definition xq_TermsBoost :: "string \<Rightarrow> 'v list \<Rightarrow> 'f \<Rightarrow> ('v, 'f) XQuery \<Rightarrow> ('v, 'f) XQuery" where
  "xq_TermsBoost field vs boost = xq_set (set_Terms ([field \<mapsto> vs], Some boost))"

text \<open>A bound that is nil is left out; \<open>marshal\<close> may refuse a value, and then the query is left as it was.\<close>

definition marshal_bound :: "('v \<Rightarrow> string + string) \<Rightarrow> 'v option \<Rightarrow> string + string option" where
  "marshal_bound marshal v = (case v of None \<Rightarrow> Inr None | Some x \<Rightarrow> map_sum id Some (marshal x))"

definition xq_Range :: "('v \<Rightarrow> string + string) \<Rightarrow> string \<Rightarrow> 'v option \<Rightarrow> 'v option \<Rightarrow> ('v, 'f) XQuery \<Rightarrow> ('v, 'f) XQuery" where
  "xq_Range marshal field lo hi q =
     (case marshal_bound marshal lo of
        Inl e \<Rightarrow> q\<lparr>xq_lastErr := Some e\<rparr>
      | Inr gte \<Rightarrow>
          (case marshal_bound marshal hi of
             Inl e \<Rightarrow> q\<lparr>xq_lastErr := Some e\<rparr>
           | Inr lte \<Rightarrow> xq_set (set_Range [field \<mapsto> (gte, lte)]) q))"

definition xq_RawJson :: "(string \<Rightarrow> string + ('v, 'f) query) \<Rightarrow> string \<Rightarrow> ('v, 'f) XQuery \<Rightarrow> ('v, 'f) XQuery" where
  "xq_RawJson parse body q = (case parse body of Inl e \<Rightarrow> q\<lparr>xq_lastErr := Some e\<rparr> | Inr t \<Rightarrow> q\<lparr>xq_query := t\<rparr>)"

definition xq_Build :: "('v, 'f) XQuery \<Rightarrow> ('v, 'f) query \<times> string option" where
  "xq_Build q = (xq_query q, xq_lastErr q)"

record ('v, 'f) XBoolQuery =
  xb_parent :: "('v, 'f) XQuery"
  xb_boolQ :: "('v, 'f) bool_query"

definition QueryBool :: "('v, 'f) XQuery \<Rightarrow> ('v, 'f) XBoolQuery" where
  "QueryBool q = \<lparr>xb_parent = q, xb_boolQ = BoolQuery [] [] [] [] None None\<rparr>"

fun add_Must where "add_Must x (BoolQuery a b c d e f) = BoolQuery (a @ [x]) b c d e f"
fun add_Should where "add_Should x (BoolQuery a b c d e f) = BoolQuery a (b @ [x]) c d e f"
fun add_MustNot where "add_MustNot x (BoolQuery a b c d e f) = BoolQuery a b (c @ [x]) d e f"
fun add_Filter where "add_Filter x (BoolQuery a b c d e f) = BoolQuery a b c (d @ [x]) e f"
fun set_Minimum where "set_Minimum x (BoolQuery a b c d e f) = BoolQuery a b c d (Some x) f"
fun set_Boost where "set_Boost x (BoolQuery a b c d e f) = BoolQuery a b c d e (Some x)"

definition xb_set :: "(('v, 'f) bool_query \<Rightarrow> ('v, 'f) bool_query) \<Rightarrow> ('v, 'f) XBoolQuery \<Rightarrow> ('v, 'f) XBoolQuery" where
  "xb_set f b = b\<lparr>xb_boolQ := f (xb_boolQ b)\<rparr>"

definition xb_Must :: "('v, 'f) query \<Rightarrow> ('v, 'f) XBoolQuery \<Rightarrow> ('v, 'f) XBoolQuery" where "xb_Must q = xb_set (add_Must q)"
definition xb_Should :: "('v, 'f) query \<Rightarrow> ('v, 'f) XBoolQuery \<Rightarrow> ('v, 'f) XBoolQuery" where "xb_Should q = xb_set (add_Should q)"
definition xb_MustNot :: "('v, 'f) query \<Rightarrow> ('v, 'f) XBoolQuery \<Rightarrow> ('v, 'f) XBoolQuery" where "xb_MustNot q = xb_set (add_MustNot q)"
definition xb_Filter :: "('v, 'f) query \<Rightarrow> ('v, 'f) XBoolQuery \<Rightarrow> ('v, 'f) XBoolQuery" where "xb_Filter q = xb_set (add_Filter q)"
definition xb_MinimumShouldMatch :: "string \<Rightarrow> ('v, 'f) XBoolQuery \<Rightarrow> ('v, 'f) XBoolQuery" where
  "xb_MinimumShouldMatch m = xb_set (set_Minimum m)"
definition xb_Boost :: "'f \<Rightarrow> ('v, 'f) XBoolQuery \<Rightarrow> ('v, 'f) XBoolQuery" where "xb_Boost boost = xb_set (set_Boost boost)"

definition EndBool :: "('v, 'f) XBoolQuery \<Rightarrow> ('v, 'f) XQuery" where
  "EndBool b = xq_set (set_Bool (xb_boolQ b)) (xb_parent b)"

section \<open>Requests\<close>

record ('v, 'f) XRequest =
  xr_Query :: "('v, 'f) query option"
  xr_From :: "64 word option"
  xr_Size :: "64 word option"
  xr_Sort :: "'v list"
  xr_Source :: "(string list \<times> string list) option"
  xr_Aggregations :: "string \<rightharpoonup> 'v"
  xr_Highlight :: "'v option"
  xr_Timeout :: "string option"
  xr_lastErr :: "string option"

definition RequestBuilder :: "('v, 'f) XRequest" where
  "RequestBuilder = \<lparr>xr_Query = None, xr_From = None, xr_Size = None, xr_Sort = [], xr_Source = None,
     xr_Aggregations = Map.empty, xr_Highlight = None, xr_Timeout = None, xr_lastErr = None\<rparr>"

definition xr_SetQuery :: "('v, 'f) query \<Rightarrow> ('v, 'f) XRequest \<Rightarrow> ('v, 'f) XRequest" where
  "xr_SetQuery q x = x\<lparr>xr_Query := Some q\<rparr>"

definition xr_MatchAll :: "('v, 'f) XRequest \<Rightarrow> ('v, 'f) XRequest" where
  "xr_MatchAll x = x\<lparr>xr_Query := Some (set_MatchAll None NewQuery)\<rparr>"
definition xr_MatchAllBoost :: "'f \<Rightarrow> ('v, 'f) XRequest \<Rightarrow> ('v, 'f) XRequest" where
  "xr_MatchAllBoost boost x = x\<lparr>xr_Query := Some (set_MatchAll (Some boost) NewQuery)\<rparr>"
definition xr_Match :: "string \<Rightarrow> string \<Rightarrow> ('v, 'f) XRequest \<Rightarrow> ('v, 'f) XRequest" where
  "xr_Match field txt x = x\<lparr>xr_Query := Some (set_Match [field \<mapsto> (txt, None)] NewQuery)\<rparr>"
definition xr_MatchBoost :: "string \<Rightarrow> string \<Rightarrow> 'f \<Rightarrow> ('v, 'f) XRequest \<Rightarrow> ('v, 'f) XRequest" where
  "xr_MatchBoost field txt boost x = x\<lparr>xr_Query := Some (set_Match [field \<mapsto> (txt, Some boost)] NewQuery)\<rparr>"
definition xr_MultiMatch :: "string list \<Rightarrow> string \<Rightarrow> ('v, 'f) XRequest \<Rightarrow> ('v, 'f) XRequest" where
  "xr_MultiMatch flds txt x = x\<lparr>xr_Query := Some (set_MultiMatch (flds, txt, None) NewQuery)\<rparr>"
definition xr_MultiMatchBoost :: "string list \<Rightarrow> string \<Rightarrow> 'f \<Rightarrow> ('v, 'f) XRequest \<Rightarrow> ('v, 'f) XRequest" where
  "xr_MultiMatchBoost flds txt boost x = x\<lparr>xr_Query := Some (set_MultiMatch (flds, txt, Some boost) NewQuery)\<rparr>"
definition xr_Term :: "string \<Rightarrow> 'v \<Rightarrow> ('v, 'f) XRequest \<Rightarrow> ('v, 'f) XRequest" where
  "xr_Term field v x = x\<lparr>xr_Query := Some (set_Term [field \<mapsto> (v, None)] NewQuery)\<rparr>"
definition xr_TermBoost :: "string \<Rightarrow> 'v \<Rightarrow> 'f \<Rightarrow> ('v, 'f) XRequest \<Rightarrow> ('v, 'f) XRequest" where
  "xr_TermBoost field v boost x = x\<lparr>xr_Query := Some (set_Term [field \<mapsto> (v, Some boost)] NewQuery)\<rparr>"
definition xr_Terms :: "string \<Rightarrow> 'v list \<Rightarrow> ('v, 'f) XRequest \<Rightarrow> ('v, 'f) XRequest" where
  "xr_Terms field vs x = x\<lparr>xr_Query := Some (set_Terms ([field \<mapsto> vs], None) NewQuery)\<rparr>"
definition xr_TermsBoost :: "string \<Rightarrow> 'v list \<Rightarrow> 'f \<Rightarrow> ('v, 'f) XRequest \<Rightarrow> ('v, 'f) XRequest" where
  "xr_TermsBoost field vs boost x = x\<lparr>xr_Query := Some (set_Terms ([field \<mapsto> vs], Some boost) NewQuery)\<rparr>"

definition xr_RawJson :: "(string \<Rightarrow> string + ('v, 'f) query) \<Rightarrow> string \<Rightarrow> ('v, 'f) XRequest \<Rightarrow> ('v, 'f) XRequest" where
  "xr_RawJson parse body x = (case parse body of Inl e \<Rightarrow> x\<lparr>xr_lastErr := Some e\<rparr> | Inr t \<Rightarrow> x\<lparr>xr_Query := Some t\<rparr>)"

definition PageQuery :: "64 word \<Rightarrow> 64 word \<Rightarrow> ('v, 'f) XRequest \<Rightarrow> ('v, 'f) XRequest" where
  "PageQuery pageNo pageSize x = x\<lparr>xr_From := Some ((pageNo - 1) * pageSize), xr_Size := Some pageSize\<rparr>"

definition xr_SetFrom :: "64 word \<Rightarrow> ('v, 'f) XRequest \<Rightarrow> ('v, 'f) XRequest" where "xr_SetFrom from x = x\<lparr>xr_From := Some from\<rparr>"
definition xr_SetSize :: "64 word \<Rightarrow> ('v, 'f) XRequest \<Rightarrow> ('v, 'f) XRequest" where "xr_SetSize n x = x\<lparr>xr_Size := Some n\<rparr>"
definition xr_SetSort :: "'v list \<Rightarrow> ('v, 'f) XRequest \<Rightarrow> ('v, 'f) XRequest" where "xr_SetSort sorters x = x\<lparr>xr_Sort := sorters\<rparr>"
definition xr_SetSource :: "string list \<Rightarrow> string list \<Rightarrow> ('v, 'f) XRequest \<Rightarrow> ('v, 'f) XRequest" where
  "xr_SetSource incl excl x = x\<lparr>xr_Source := Some (incl, excl)\<rparr>"
definition xr_SetAggregations :: "(string \<rightharpoonup> 'v) \<Rightarrow> ('v, 'f) XRequest \<Rightarrow> ('v, 'f) XRequest" where
  "xr_SetAggregations aggs x = x\<lparr>xr_Aggregations := aggs\<rparr>"
definition xr_SetHighlight :: "'v \<Rightarrow> ('v, 'f) XRequest \<Rightarrow> ('v, 'f) XRequest" where "xr_SetHighlight h x = x\<lparr>xr_Highlight := Some h\<rparr>"
definition xr_SetTimeout :: "string \<Rightarrow> ('v, 'f) XRequest \<Rightarrow> ('v, 'f) XRequest" where "xr_SetTimeout t x = x\<lparr>xr_Timeout := Some t\<rparr>"

text \<open>The search that \<open>SearchDocuments\<close> makes: without a request, with it, or none when the builder failed.\<close>

definition SearchDocuments :: "('v, 'f) XRequest option \<Rightarrow> string + ('v, 'f) XRequest option" where
  "SearchDocuments request =
     (case request of
        None \<Rightarrow> Inr None
      | Some x \<Rightarrow> (case xr_lastErr x of Some e \<Rightarrow> Inl e | None \<Rightarrow> Inr (Some x)))"


section \<open>What the package does\<close>

subsection \<open>Addresses\<close>

lemma contains_append: "contains b sub \<Longrightarrow> contains (a @ b) sub"
  by (metis append.assoc contains_iff)

lemma endpoint_has_scheme: "contains (es_endpoint isHttps endpoint) ''://''"
proof -
  have "contains (''http'' @ ''://'' @ endpoint) ''://''" "contains (''https'' @ ''://'' @ endpoint) ''://''"
    unfolding contains_iff by blast+
  then show ?thesis by (auto simp: es_endpoint_def)
qed

lemma https_is_https: "has_prefix endpoint ''https://'' \<Longrightarrow> contains endpoint ''://''"
proof -
  assume "has_prefix endpoint ''https://''"
  then obtain t where "endpoint = ''https'' @ ''://'' @ t" by (auto simp: has_prefix_iff)
  then show ?thesis unfolding contains_iff by blast
qed

text \<open>
  Every address the client gets names its protocol, as many as there are endpoints; those that named one stay as they
  are, and no endpoint without one is reached in the clear when the configuration or any other endpoint asks for HTTPS.
\<close>

theorem es_addresses:
  "list_all (\<lambda>a. contains a ''://'') (ecc_Addresses (NewElasticSearchConfig config))
   \<and> length (ecc_Addresses (NewElasticSearchConfig config)) = length (ec_Endpoints config)
   \<and> (i < length (ec_Endpoints config) \<longrightarrow>
        (let endpoint = ec_Endpoints config ! i; address = ecc_Addresses (NewElasticSearchConfig config) ! i in
         (contains endpoint ''://'' \<longrightarrow> address = endpoint)
         \<and> (\<not> contains endpoint ''://'' \<and> (ec_IsHttps config \<or> (\<exists>e \<in> set (ec_Endpoints config). has_prefix e ''https://''))
              \<longrightarrow> has_prefix address ''https://'')))
   \<and> (ecc_Transport (NewElasticSearchConfig config) = Some True \<longrightarrow> ec_InsecureSkipVerify config)"
proof -
  have "list_all (\<lambda>a. contains a ''://'') (ecc_Addresses (NewElasticSearchConfig config))"
    using endpoint_has_scheme by (auto simp: NewElasticSearchConfig_def list_all_iff)
  moreover have "has_prefix (es_endpoint (es_isHttps config) e) ''https://''"
    if "\<not> contains e ''://''" "es_isHttps config" for e
    using that by (simp add: es_endpoint_def has_prefix_def)
  ultimately show ?thesis
    by (auto simp: NewElasticSearchConfig_def es_isHttps_def list_ex_iff Let_def es_endpoint_def [of _ "ec_Endpoints config ! i"])
qed

subsection \<open>Indices\<close>

lemma call_error_None: "call_error r = (None, s') \<longleftrightarrow> (\<exists>x. r = (Inr x, s'))"
  by (auto simp: call_error_def split: prod.splits sum.splits)

lemma map_sum_Inr_iff: "map_sum f g x = Inr y \<longleftrightarrow> (\<exists>z. x = Inr z \<and> y = g z)"
  by (cases x) auto

lemma CreateIndex_existing:
  assumes "api (CallExists i) s = (Inr x, s)" "ok x"
  shows "CreateIndex api ok fromJSON newreq i m s = (None, s)"
    and "CreateIndexWithAlias api ok fromJSON newreq i a m s = (None, s)"
  using assms by (simp_all add: CreateIndex_def CreateIndexWithAlias_def IndexExist_def)

lemma CreateIndexWithAlias_None:
  assumes "CreateIndexWithAlias api ok fromJSON newreq i a m s = (None, s')"
  obtains x where "api (CallExists i) s = (Inr x, s')" "ok x"
  | x t req y where "api (CallExists i) s = (Inr x, t)" "\<not> ok x" "api (CallCreate i req) t = (Inr y, s')"
      "a \<noteq> [] \<longrightarrow> cq_Aliases req = [a \<mapsto> Some True]"
  using assms
  by (auto simp: CreateIndexWithAlias_def IndexExist_def map_prod_def call_error_None Let_def map_sum_Inr_iff
      split: prod.splits sum.splits bool.splits if_splits)

text \<open>
  With a server whose existence checks change nothing and which has an index once it has created it: creating an
  index with its alias succeeds at most once. After it has returned without an error every further call returns at once
  without one and changes nothing. In particular the alias of a later call is never set, though it returns no error.
\<close>

theorem index_created_once:
  assumes pure: "\<And>i s. snd (api (CallExists i) s) = s"
    and created: "\<And>i req s y s'. api (CallCreate i req) s = (Inr y, s') \<Longrightarrow> \<exists>x. fst (api (CallExists i) s') = Inr x \<and> ok x"
    and first: "CreateIndexWithAlias api ok fromJSON newreq i a m s = (None, s')"
  shows "CreateIndexWithAlias api ok fromJSON newreq i a' m' s' = (None, s')
       \<and> CreateIndex api ok fromJSON newreq i m' s' = (None, s')"
proof -
  have exists: "\<exists>x. api (CallExists i) s' = (Inr x, s') \<and> ok x"
    using first
  proof (cases rule: CreateIndexWithAlias_None)
    case (1 x)
    then show ?thesis using pure [of i s] by auto
  next
    case (2 x t req y)
    then obtain z where "fst (api (CallExists i) s') = Inr z" "ok z" using created by blast
    then show ?thesis using pure [of i s'] by (metis prod.collapse)
  qed
  then show ?thesis using CreateIndex_existing [of api i s'] by blast
qed

text \<open>A server with a set of indices, and their aliases.\<close>

definition small_api :: "(unit, bool, (string \<times> (string \<rightharpoonup> bool option)) list) es_api" where
  "small_api c s =
     (case c of
        CallExists i \<Rightarrow> (Inr (i \<in> set (map fst s)), s)
      | CallCreate i req \<Rightarrow> (Inr True, (i, cq_Aliases req) # s)
      | _ \<Rightarrow> (Inl ''no such call'', s))"

lemma index_created_once_witness:
  "fst (CreateIndexWithAlias small_api id (\<lambda>_. Inl ''bad'') \<lparr>cq_request = (), cq_Aliases = Map.empty\<rparr> ''logs'' ''w'' [] []) = None
   \<and> (let s' = snd (CreateIndexWithAlias small_api id (\<lambda>_. Inl ''bad'') \<lparr>cq_request = (), cq_Aliases = Map.empty\<rparr> ''logs'' ''w'' [] [])
      in CreateIndexWithAlias small_api id (\<lambda>_. Inl ''bad'') \<lparr>cq_request = (), cq_Aliases = Map.empty\<rparr> ''logs'' ''other'' [] s' = (None, s'))"
proof -
  let ?new = "\<lparr>cq_request = (), cq_Aliases = Map.empty\<rparr>"
  let ?s = "[(''logs'', [''w'' \<mapsto> Some True])]"
  have first: "CreateIndexWithAlias small_api id (\<lambda>_. Inl ''bad'') ?new ''logs'' ''w'' [] [] = (None, ?s)"
    by (simp add: CreateIndexWithAlias_def IndexExist_def small_api_def create_from_def call_error_def)
  have "CreateIndexWithAlias small_api id (\<lambda>_. Inl ''bad'') ?new ''logs'' ''other'' [] ?s = (None, ?s)"
    by (rule index_created_once [OF _ _ first, THEN conjunct1]) (auto simp: small_api_def)
  with first show ?thesis by simp
qed


subsection \<open>Scrolling\<close>

text \<open>What a caller is promised: the pages in their order up to the first one its function fails on.\<close>

fun visit :: "('h list \<Rightarrow> string option) \<Rightarrow> 'h list list \<Rightarrow> string option \<times> 'h list list" where
  "visit fn [] = (None, [])"
| "visit fn (p # ps) =
     (case fn p of Some e \<Rightarrow> (Some e, [p]) | None \<Rightarrow> map_prod id (\<lambda>qs. p # qs) (visit fn ps))"

text \<open>A server that answers with these pages, each with the number of a context to go on with, and then with an empty one.\<close>

fun serves :: "(string \<Rightarrow> string + 'h scroll_page) \<Rightarrow> (string \<Rightarrow> 's \<Rightarrow> (string + raw_response) \<times> 's)
     \<Rightarrow> string + raw_response \<Rightarrow> 's \<Rightarrow> 'h list list \<Rightarrow> bool" where
  "serves decode scroll res s [] =
     (case decodeScrollPage decode res of Inl e \<Rightarrow> False | Inr page \<Rightarrow> sp_Hits page = [])"
| "serves decode scroll res s (p # ps) =
     (case decodeScrollPage decode res of
        Inl e \<Rightarrow> False
      | Inr page \<Rightarrow> p \<noteq> [] \<and> sp_Hits page = p \<and> sp_ScrollID page \<noteq> []
                  \<and> (case scroll (sp_ScrollID page) s of (res', s') \<Rightarrow> serves decode scroll res' s' ps))"

lemma scroll_loop_serves:
  "\<lbrakk>serves decode scroll res s ps; length ps < fuel\<rbrakk>
   \<Longrightarrow> \<exists>i s'. scroll_loop fuel decode scroll fn scrollID res s = Some (fst (visit fn ps), snd (visit fn ps), i, s')"
proof (induction fuel arbitrary: ps scrollID res s)
  case (Suc fuel)
  show ?case
  proof (cases ps)
    case Nil
    then show ?thesis using Suc.prems by (auto split: sum.splits)
  next
    case (Cons p qs)
    then obtain page where page: "decodeScrollPage decode res = Inr page" "sp_Hits page = p" "p \<noteq> []" "sp_ScrollID page \<noteq> []"
      using Suc.prems(1) by (auto split: sum.splits)
    obtain res' s' where sc: "scroll (sp_ScrollID page) s = (res', s')" by fastforce
    have rest: "serves decode scroll res' s' qs" using Suc.prems(1) Cons page sc by simp
    show ?thesis
    proof (cases "fn p")
      case None
      obtain i t where "scroll_loop fuel decode scroll fn (sp_ScrollID page) res' s' = Some (fst (visit fn qs), snd (visit fn qs), i, t)"
        using Suc.IH [OF rest] Suc.prems(2) Cons by fastforce
      then show ?thesis using None Cons page sc by simp
    qed (use Cons page in simp)
  qed
qed simp

text \<open>
  C26. The function gets every page once and in order, until it fails or there are no more: with more fuel than there
  are pages the result is that of visiting the list of pages. So \<open>ScrollSearch\<close> returns the documents of all of them.
\<close>

theorem scroll_complete:
  assumes "marshal (scroll_body reqBody num batchSize) = Inr buf"
    and "sa_search api idx buf s = (res, t)"
    and "serves (sa_decode api) (sa_scroll api) res t ps"
    and "length ps < fuel"
  shows "(\<exists>s'. ScrollEach fuel marshal num api idx reqBody batchSize fn s = Some (fst (visit fn ps), snd (visit fn ps), s'))
       \<and> (\<exists>s'. ScrollSearch fuel marshal num source api idx reqBody batchSize s
                 = Some (Inr (List.map_filter source (concat ps)), s'))"
proof -
  have each: "\<exists>s'. ScrollEach fuel marshal num api idx reqBody batchSize f s = Some (fst (visit f ps), snd (visit f ps), s')" for f
    using scroll_loop_serves [OF assms(3,4), of f "[]"] assms(1,2) by (auto simp: ScrollEach_def)
  have all: "visit (\<lambda>_. None) qs = (None, qs)" for qs :: "'h list list"
    by (induction qs) auto
  show ?thesis using each [of fn] each [of "\<lambda>_. None"] by (auto simp: ScrollSearch_def all)
qed

text \<open>Whatever the server does, what \<open>fn\<close> gets, and what the context is that is released.\<close>

lemma scroll_loop_pages:
  "scroll_loop fuel decode scroll fn scrollID res s = Some (e, pages, i, s')
   \<Longrightarrow> [] \<notin> set pages \<and> (\<forall>p \<in> set (butlast pages). fn p = None)
     \<and> (pages \<noteq> [] \<longrightarrow> fn (last pages) \<noteq> None \<longrightarrow> e = fn (last pages))"
proof (induction fuel arbitrary: scrollID res s e pages i s')
  case (Suc fuel)
  show ?case
  proof (cases "decodeScrollPage decode res")
    case (Inr page)
    consider "sp_Hits page = []" | x where "sp_Hits page \<noteq> []" "fn (sp_Hits page) = Some x"
      | "sp_Hits page \<noteq> []" "fn (sp_Hits page) = None" "sp_ScrollID page = []"
      | "sp_Hits page \<noteq> []" "fn (sp_Hits page) = None" "sp_ScrollID page \<noteq> []" by fastforce
    then show ?thesis
    proof cases
      case 4
      obtain res' t where sc: "scroll (sp_ScrollID page) s = (res', t)" by fastforce
      then obtain qs where "pages = sp_Hits page # qs"
        "scroll_loop fuel decode scroll fn (sp_ScrollID page) res' t = Some (e, qs, i, s')"
        using 4 Inr Suc.prems by auto
      with Suc.IH have "[] \<notin> set qs \<and> (\<forall>p \<in> set (butlast qs). fn p = None)
          \<and> (qs \<noteq> [] \<longrightarrow> fn (last qs) \<noteq> None \<longrightarrow> e = fn (last qs))" by blast
      with \<open>pages = _\<close> show ?thesis using 4 by (cases qs) auto
    qed (use Inr Suc.prems in auto)
  qed (use Suc.prems in auto)
qed simp

theorem scroll_each_safe:
  assumes "ScrollEach fuel marshal num api idx reqBody batchSize fn s = Some (e, pages, s')"
  shows "[] \<notin> set pages \<and> (\<forall>p \<in> set (butlast pages). fn p = None)
       \<and> (pages \<noteq> [] \<and> fn (last pages) \<noteq> None \<longrightarrow> e = fn (last pages))"
proof (cases "marshal (scroll_body reqBody num batchSize)")
  case (Inr buf)
  then obtain i t res s0 where "scroll_loop fuel (sa_decode api) (sa_scroll api) fn [] res s0 = Some (e, pages, i, t)"
    using assms by (auto simp: ScrollEach_def split: prod.splits)
  from scroll_loop_pages [OF this] show ?thesis by blast
qed (use assms in \<open>auto simp: ScrollEach_def\<close>)

text \<open>A server with two pages: the number of pages already sent is its state, and it forgets it when it is told to.\<close>

definition two_pages :: "(nat, nat) scroll_api" where
  "two_pages =
     \<lparr>sa_decode = (\<lambda>b. Inr \<lparr>sp_ScrollID = ''c'', sp_Hits = (if b = ''a'' then [1, 2] else if b = ''b'' then [3] else [])\<rparr>),
      sa_search = (\<lambda>_ _ _. (Inr \<lparr>rr_IsError = False, rr_Status = ''200'', rr_String = [], rr_Body = ''a''\<rparr>, 1)),
      sa_scroll = (\<lambda>_ n. (Inr \<lparr>rr_IsError = False, rr_Status = ''200'', rr_String = [], rr_Body = (if n = 1 then ''b'' else [])\<rparr>, n + 1)),
      sa_clear = (\<lambda>_ _. 0)\<rparr>"

lemma scroll_complete_witness:
  "\<exists>s'. ScrollEach 3 (\<lambda>_. Inr ''{}'') id two_pages ''i'' Map.empty 10 (\<lambda>p. if p = [3] then Some ''stop'' else None) 0
          = Some (Some ''stop'', [[1, 2], [3]], s')"
proof -
  have "\<exists>s'. ScrollEach 3 (\<lambda>_. Inr ''{}'') id two_pages ''i'' Map.empty 10 (\<lambda>p. if p = [3] then Some ''stop'' else None) 0
          = Some (fst (visit (\<lambda>p. if p = [3] then Some ''stop'' else None) [[1, 2], [3 :: nat]]),
                  snd (visit (\<lambda>p. if p = [3] then Some ''stop'' else None) [[1, 2], [3 :: nat]]), s')"
    by (rule scroll_complete [where buf = "''{}''" and t = 1
          and res = "Inr \<lparr>rr_IsError = False, rr_Status = ''200'', rr_String = [], rr_Body = ''a''\<rparr>", THEN conjunct1])
       (simp_all add: two_pages_def decodeScrollPage_def)
  then show ?thesis by simp
qed

lemma scroll_each_safe_witness:
  "[] \<notin> set [[1 :: nat, 2], [3]]"
proof -
  have "ScrollEach 3 (\<lambda>_. Inr ''{}'') id two_pages ''i'' Map.empty 10 (\<lambda>_. None) 0 = Some (None, [[1, 2], [3]], 0)"
    by (simp add: ScrollEach_def two_pages_def decodeScrollPage_def clearScroll_def numeral_3_eq_3)
  from scroll_each_safe [OF this] show ?thesis by blast
qed


subsection \<open>Bulk requests\<close>

text \<open>The lines of an operation, and how a bulk request is read: an action, and its document unless it is of another kind.\<close>

definition bulk_lines :: "'v BulkOperation \<Rightarrow> 'v bulk_value list" where
  "bulk_lines op =
     bulk_meta op #
     (if bo_Action op = ''index'' \<or> bo_Action op = ''create'' then [BulkDoc (the (bo_Doc op))]
      else if bo_Action op = ''update'' then [BulkUpdate (the (bo_Doc op))] else [])"

fun read_bulk :: "'v bulk_value list \<Rightarrow> 'v BulkOperation list option" where
  "read_bulk [] = Some []"
| "read_bulk (BulkMeta action idx docid # rest) =
     (let op = \<lparr>bo_Action = action, bo_Index = idx, bo_DocID = (case docid of None \<Rightarrow> [] | Some i \<Rightarrow> i), bo_Doc = None\<rparr> in
      if action = ''index'' \<or> action = ''create''
      then (case rest of BulkDoc v # rest' \<Rightarrow> map_option (\<lambda>ops. op\<lparr>bo_Doc := Some v\<rparr> # ops) (read_bulk rest') | _ \<Rightarrow> None)
      else if action = ''update''
      then (case rest of BulkUpdate v # rest' \<Rightarrow> map_option (\<lambda>ops. op\<lparr>bo_Doc := Some v\<rparr> # ops) (read_bulk rest') | _ \<Rightarrow> None)
      else map_option (\<lambda>ops. op # ops) (read_bulk rest))"
| "read_bulk _ = None"

definition bulk_takes_doc :: "string \<Rightarrow> bool" where
  "bulk_takes_doc action \<longleftrightarrow> action \<in> {''index'', ''create'', ''update''}"

lemma read_bulk_lines:
  assumes "bulk_takes_doc (bo_Action op) \<longleftrightarrow> bo_Doc op \<noteq> None"
  shows "read_bulk (bulk_lines op @ rest) = map_option (\<lambda>ops. op # ops) (read_bulk rest)"
proof (cases op)
  case (fields action idx docid doc)
  with assms show ?thesis
    by (cases doc) (auto simp: bulk_lines_def bulk_meta_def bulk_takes_doc_def)
qed

lemma read_bulk_concat:
  "list_all (\<lambda>op. bulk_takes_doc (bo_Action op) \<longleftrightarrow> bo_Doc op \<noteq> None) ops \<Longrightarrow> read_bulk (concat (map bulk_lines ops)) = Some ops"
  by (induction ops) (auto simp: read_bulk_lines)

lemma encode_all_append:
  "encode_all enc (a @ b) = (case encode_all enc a of Inl e \<Rightarrow> Inl e | Inr s \<Rightarrow> map_sum id (\<lambda>r. s @ r) (encode_all enc b))"
proof (induction a)
  case Nil
  then show ?case by (cases "encode_all enc b") auto
next
  case (Cons v a)
  then show ?case by (cases "enc v"; cases "encode_all enc a"; cases "encode_all enc b") auto
qed

lemma buildNDJSON_lines:
  "buildNDJSON enc ops = Inr b
   \<Longrightarrow> encode_all enc (concat (map bulk_lines ops)) = Inr b
     \<and> list_all (\<lambda>op. bulk_takes_doc (bo_Action op) \<longrightarrow> bo_Doc op \<noteq> None) ops"
proof (induction ops arbitrary: b)
  case (Cons op ops)
  let ?doc = "if bo_Action op = ''index'' \<or> bo_Action op = ''create''
                 then (case bo_Doc op of None \<Rightarrow> Inl (nil_doc ''index/create'') | Some d \<Rightarrow> encode_all enc [BulkDoc d])
                 else if bo_Action op = ''update''
                 then (case bo_Doc op of None \<Rightarrow> Inl (nil_doc ''update'') | Some d \<Rightarrow> encode_all enc [BulkUpdate d])
                 else Inr []"
  obtain b1 b2 b3 where b1: "encode_all enc [bulk_meta op] = Inr b1" and b2: "?doc = Inr b2"
    and b3: "buildNDJSON enc ops = Inr b3" and b: "b = b1 @ b2 @ b3"
  proof (cases "encode_all enc [bulk_meta op]"; cases ?doc)
    fix b1 b2 assume *: "encode_all enc [bulk_meta op] = Inr b1" "?doc = Inr b2"
    with Cons.prems obtain b3 where "buildNDJSON enc ops = Inr b3" "b = b1 @ b2 @ b3"
      by (cases "buildNDJSON enc ops") (simp_all del: encode_all.simps)
    with * that show thesis by blast
  qed (use Cons.prems in \<open>simp_all del: encode_all.simps\<close>)
  have "encode_all enc (tl (bulk_lines op)) = Inr b2" and
    doc: "bulk_takes_doc (bo_Action op) \<longrightarrow> bo_Doc op \<noteq> None"
    using b2 by (auto simp: bulk_lines_def bulk_takes_doc_def simp del: encode_all.simps(2) split: option.splits if_splits)
  then have "encode_all enc (bulk_lines op) = Inr (b1 @ b2)"
    using b1 encode_all_append [of enc "[bulk_meta op]" "tl (bulk_lines op)"]
    by (simp add: bulk_lines_def del: encode_all.simps(2))
  with Cons.IH [OF b3] doc show ?case
    by (simp add: encode_all_append b)
qed simp

lemma encode_all_split:
  assumes "\<And>v s. enc v = Inr s \<Longrightarrow> CHR 0x0A \<notin> set s"
  shows "encode_all enc vs = Inr b \<Longrightarrow> \<exists>ls. list_all2 (\<lambda>v l. enc v = Inr l) vs ls \<and> split_char (CHR 0x0A) b = ls @ [[]]"
proof (induction vs arbitrary: b)
  case (Cons v vs)
  then obtain s r where s: "enc v = Inr s" and r: "encode_all enc vs = Inr r" "b = s @ [CHR 0x0A] @ r"
    by (cases "enc v"; cases "encode_all enc vs") auto
  obtain ls where "list_all2 (\<lambda>v l. enc v = Inr l) vs ls" "split_char (CHR 0x0A) r = ls @ [[]]"
    using Cons.IH [OF r(1)] by blast
  with s r assms [OF s] show ?case
    by (intro exI [of _ "s # ls"]) (simp add: split_char_append del: split_char.simps)
qed simp


definition plain_enc :: "bool bulk_value \<Rightarrow> string + string" where
  "plain_enc v = (case v of BulkMeta a i d \<Rightarrow> if a = ''index'' \<and> i = ''i'' \<and> d = None then Inr ''m'' else Inl ''unknown''
     | BulkDoc b \<Rightarrow> Inr (if b then ''t'' else ''f'') | BulkUpdate b \<Rightarrow> Inl ''unknown'')"


subsection \<open>Queries and pages\<close>

text \<open>How many kinds of clause a query has; the server takes a query of one.\<close>

fun clauses :: "('v, 'f) query \<Rightarrow> nat" where
  "clauses (Query a b c d e f g) =
     of_bool (a \<noteq> None) + of_bool (b \<noteq> Map.empty) + of_bool (c \<noteq> None) + of_bool (d \<noteq> Map.empty)
     + of_bool (e \<noteq> None) + of_bool (f \<noteq> Map.empty) + of_bool (g \<noteq> None)"

lemmas set_query = set_MatchAll.simps set_Match.simps set_MultiMatch.simps set_Term.simps set_Terms.simps
lemmas xr_query = xr_MatchAll_def xr_MatchAllBoost_def xr_Match_def xr_MatchBoost_def xr_MultiMatch_def
  xr_MultiMatchBoost_def xr_Term_def xr_TermBoost_def xr_Terms_def xr_TermsBoost_def

text \<open>A builder of requests replaces the query: it has one clause, whatever was called before. A builder of queries adds to it.\<close>

theorem xrequest_one_clause:
  "f \<in> {xr_MatchAll, xr_MatchAllBoost boost, xr_Match field wrds, xr_MatchBoost field wrds boost,
         xr_MultiMatch flds wrds, xr_MultiMatchBoost flds wrds boost, xr_Term field v, xr_TermBoost field v boost,
         xr_Terms field vs, xr_TermsBoost field vs boost}
   \<Longrightarrow> \<exists>q. xr_Query (f x) = Some q \<and> clauses q = 1"
  by (auto simp: xr_query NewQuery_def)

lemma xquery_two_clauses:
  "clauses (fst (xq_Build (xq_Term ''status'' v (xq_Match ''title'' ''go'' QueryBuilder)))) = 2"
  by (simp add: xq_Build_def xq_Term_def xq_Match_def xq_set_def QueryBuilder_def NewQuery_def)

text \<open>
  The pages of a listing follow each other: page \<open>n\<close> starts where page \<open>n - 1\<close> ends and the first at the beginning, as long as
  the end of the page is a number of 64 bits.
\<close>

theorem pages_follow:
  assumes "1 \<le> sint pageNo" "0 \<le> sint pageSize" "sint pageNo * sint pageSize < 2 ^ 63"
  shows "(\<exists>from. xr_From (PageQuery pageNo pageSize x) = Some from \<and> sint from = (sint pageNo - 1) * sint pageSize)
       \<and> xr_Size (PageQuery pageNo pageSize x) = Some pageSize
       \<and> xr_Query (PageQuery pageNo pageSize x) = xr_Query x"
  using sint_page_start [OF assms] by (simp add: PageQuery_def)

lemma pages_follow_witness:
  "\<exists>from. xr_From (PageQuery 3 20 RequestBuilder) = Some from \<and> sint from = 40"
proof -
  have "\<exists>from. xr_From (PageQuery 3 20 RequestBuilder) = Some from \<and> sint from = (sint (3 :: 64 word) - 1) * sint (20 :: 64 word)"
    by (rule pages_follow [THEN conjunct1]) simp_all
  then show ?thesis by simp
qed

text \<open>A query that could not be read is never replaced by a search for everything.\<close>

theorem raw_query_errors:
  "parse body = Inl e \<Longrightarrow> SearchDocuments (Some (xr_RawJson parse body x)) = Inl e"
  by (simp add: xr_RawJson_def SearchDocuments_def)

lemma xrequest_one_clause_witness:
  "\<exists>q. xr_Query (xr_Match ''title'' ''go'' (xr_MatchAll RequestBuilder)) = Some q \<and> clauses (q :: (nat, nat) query) = 1"
  by (rule xrequest_one_clause [where f = "xr_Match ''title'' ''go''" and field = "''title''" and wrds = "''go''"]) blast

lemma raw_query_errors_witness:
  "SearchDocuments (Some (xr_RawJson (\<lambda>_. Inl ''no query'') ''x'' RequestBuilder)) = Inl ''no query''"
  by (rule raw_query_errors) simp

end
