(* ===== verification/Rpc.thy ===== *)
theory Rpc
  imports Go_Url "HOL-Library.AList" "HOL-Library.Word"
begin

text \<open>
  The packages \<open>httpx\<close>, \<open>grpcx\<close> and \<open>ral\<close>: the configurations of services, the clients and connections that are made
  once per service and shared, the requests that are put together from options, and the calls by the name of a
  service. The libraries that send (\<open>resty\<close> and \<open>grpc\<close>) are arguments. A Go map that the code ranges over is an
  association list in the order of one ranging. What is logged is left out.
\<close>

section \<open>Values of a query\<close>

text \<open>\<open>url.Values\<close>: each key has a list of values. A key may have the empty list.\<close>

type_synonym url_values = "(string \<times> string list) list"

definition values_get :: "url_values \<Rightarrow> string \<Rightarrow> string list" where
  "values_get vs k = (case map_of vs k of None \<Rightarrow> [] | Some l \<Rightarrow> l)"

definition values_append :: "string \<Rightarrow> string list \<Rightarrow> url_values \<Rightarrow> url_values" where
  "values_append k l vs = AList.update k (values_get vs k @ l) vs"

text \<open>\<open>Values.Encode\<close> sorts the keys; \<open>ParseQuery\<close> fails on a semicolon and on an escape that cannot be read.\<close>

definition encode_pair :: "string \<times> string \<Rightarrow> string" where
  "encode_pair p = QueryEscape (fst p) @ ''='' @ QueryEscape (snd p)"

definition value_pairs :: "url_values \<Rightarrow> (string \<times> string) list" where
  "value_pairs vs = concat (map (\<lambda>k. map (Pair k) (values_get vs k)) (sort (map fst vs)))"

definition Encode :: "url_values \<Rightarrow> string" where
  "Encode vs = join ''&'' (map encode_pair (value_pairs vs))"

definition parse_pair :: "string \<Rightarrow> (string \<times> string) option" where
  "parse_pair s =
     (if CHR '';'' \<in> set s then None
      else let k = takeWhile (\<lambda>c. c \<noteq> CHR ''='') s; v = drop (Suc (length k)) s in
        (case (url_unescape QueryComponent k, url_unescape QueryComponent v) of
           (Some k', Some v') \<Rightarrow> Some (k', v') | _ \<Rightarrow> None))"

definition parse_pairs :: "string \<Rightarrow> (string \<times> string) list option" where
  "parse_pairs s =
     (let ps = map parse_pair (filter (\<lambda>p. p \<noteq> []) (split_char (CHR ''&'') s))
      in if None \<in> set ps then None else Some (map the ps))"

definition ParseQuery :: "string \<Rightarrow> url_values option" where
  "ParseQuery s = map_option (\<lambda>ps. foldl (\<lambda>vs (k, v). values_append k [v] vs) [] ps) (parse_pairs s)"

text \<open>\<open>http.CanonicalHeaderKey\<close>: the case of a name of token characters; other names stay as they are.\<close>

definition token_char :: "char \<Rightarrow> bool" where
  "token_char c \<longleftrightarrow> is_alnum c \<or> c \<in> set ''!#$%&*+-.^_|~'' \<or> byte c = 39 \<or> byte c = 96"

fun canonical_case :: "bool \<Rightarrow> string \<Rightarrow> string" where
  "canonical_case up [] = []"
| "canonical_case up (c # s) = (if up then upper_char c else lower_char c) # canonical_case (c = CHR ''-'') s"

definition CanonicalHeaderKey :: "string \<Rightarrow> string" where
  "CanonicalHeaderKey s = (if list_all token_char s then canonical_case True s else s)"

section \<open>Services over HTTP\<close>

record HttpConfig =
  hc_Name :: string
  hc_Debug :: bool
  hc_RetryCount :: int
  hc_RetryWaitTime :: "64 word"
  hc_Timeout :: "64 word"
  hc_Protocol :: string
  hc_Host :: string
  hc_Port :: int
  hc_BasePath :: string
  hc_Endpoint :: string
  hc_CertFile :: string
  hc_KeyFile :: string
  hc_RootCertFile :: string
  hc_InsecureSkipVerify :: bool
  hc_commonSet :: bool

definition common_config :: HttpConfig where
  "common_config =
     \<lparr>hc_Name = ''__common_client__'', hc_Debug = False, hc_RetryCount = 3, hc_RetryWaitTime = 0, hc_Timeout = 5000,
      hc_Protocol = [], hc_Host = [], hc_Port = 0, hc_BasePath = [], hc_Endpoint = [], hc_CertFile = [], hc_KeyFile = [],
      hc_RootCertFile = [], hc_InsecureSkipVerify = True, hc_commonSet = True\<rparr>"

text \<open>The panic, if any, and the names that are registered after it.\<close>

definition http_Validate :: "HttpConfig \<Rightarrow> string set \<Rightarrow> string option \<times> string set" where
  "http_Validate c names =
     (let names' = (if hc_Name c \<noteq> [] then insert (hc_Name c) names else names) in
      if hc_Name c \<noteq> [] \<and> hc_Name c \<in> names
      then (Some (''service name duplicate, service: '' @ hc_Name c), names')
      else if hc_Protocol c \<noteq> ''https'' \<and> hc_Protocol c \<noteq> ''http''
      then (Some (''Protocol must be '' @ [CHR 0x22] @ ''http'' @ [CHR 0x22] @ '' or '' @ [CHR 0x22] @ ''https'' @ [CHR 0x22]
                    @ '', service: '' @ hc_Name c @ '', endpoint: '' @ hc_Host c @ '':'' @ itoa (hc_Port c)), names')
      else (None, names'))"

definition built_endpoint :: "HttpConfig \<Rightarrow> string" where
  "built_endpoint c =
     (if hc_Port c \<le> 0 then hc_Protocol c @ ''://'' @ hc_Host c
      else hc_Protocol c @ ''://'' @ hc_Host c @ '':'' @ itoa (hc_Port c))
     @ (if hc_BasePath c \<noteq> [] then hc_BasePath c else [])"

definition GetEndpoint :: "HttpConfig \<Rightarrow> string \<times> HttpConfig" where
  "GetEndpoint c =
     (if hc_Endpoint c \<noteq> [] then (hc_Endpoint c, c)
      else (built_endpoint c, c\<lparr>hc_Endpoint := built_endpoint c\<rparr>))"

text \<open>What a client of \<open>resty\<close> is told; times are in nanoseconds, at 64 bits.\<close>

record resty_settings =
  rs_Timeout :: "64 word"
  rs_RetryMaxWait :: "64 word"
  rs_RetryCount :: int
  rs_BaseURL :: string
  rs_AllowGetPayload :: bool
  rs_Debug :: bool
  rs_TLS :: "bool option"
  rs_Certificate :: "(string \<times> string) option"
  rs_RootCertificate :: "string option"

definition from_millis :: "64 word \<Rightarrow> 64 word" where
  "from_millis ms = ms * 1000000"

text \<open>\<open>load\<close> is the error of reading a certificate and its key. The left result is a panic.\<close>

definition NewHttpClient ::
  "(string \<Rightarrow> string \<Rightarrow> string option) \<Rightarrow> HttpConfig \<Rightarrow> string set \<Rightarrow> (string + resty_settings) \<times> HttpConfig \<times> string set" where
  "NewHttpClient load c names =
     (case (if hc_commonSet c then (None, names) else http_Validate c names) of
        (Some p, names') \<Rightarrow> (Inl p, c, names')
      | (None, names') \<Rightarrow>
          (case GetEndpoint c of (endpoint, c') \<Rightarrow>
             (case (if hc_CertFile c \<noteq> [] \<and> hc_KeyFile c \<noteq> [] then load (hc_CertFile c) (hc_KeyFile c) else None) of
                Some e \<Rightarrow> (Inl (''ERROR loading client certificate: '' @ e), c', names')
              | None \<Rightarrow>
                  (Inr \<lparr>rs_Timeout = from_millis (hc_Timeout c), rs_RetryMaxWait = from_millis (hc_RetryWaitTime c),
                        rs_RetryCount = hc_RetryCount c, rs_BaseURL = endpoint, rs_AllowGetPayload = True,
                        rs_Debug = hc_Debug c,
                        rs_TLS = (if hc_Protocol c = ''https'' then Some (hc_InsecureSkipVerify c) else None),
                        rs_Certificate = (if hc_CertFile c \<noteq> [] \<and> hc_KeyFile c \<noteq> [] then Some (hc_CertFile c, hc_KeyFile c) else None),
                        rs_RootCertificate = (if hc_RootCertFile c \<noteq> [] then Some (hc_RootCertFile c) else None)\<rparr>,
                   c', names'))))"

subsection \<open>Bodies in the log\<close>

definition maxLogBodySize :: nat where "maxLogBodySize = 64 * 1024"

definition logBody :: "string \<Rightarrow> string" where
  "logBody body =
     (if length body \<le> maxLogBodySize then body
      else take maxLogBodySize body @ ''...(truncated, total '' @ itoa (int (length body)) @ '' bytes)'')"

text \<open>A body is nil, text, or a value that is encoded.\<close>

datatype 'v http_body = BodyText string | BodyValue 'v

definition printBodyData :: "('v \<Rightarrow> string option) \<Rightarrow> 'v http_body option \<Rightarrow> string" where
  "printBodyData marshal body =
     (case body of
        None \<Rightarrow> []
      | Some (BodyText s) \<Rightarrow> s
      | Some (BodyValue v) \<Rightarrow> (case marshal v of None \<Rightarrow> [] | Some s \<Rightarrow> s))"

section \<open>Requests\<close>

text \<open>The headers of an option in the order they are ranged over; a cookie is a value of a type variable.\<close>

record ('v, 'c) http_option =
  ho_Headers :: "(string \<times> string) list"
  ho_Token :: string
  ho_Cookies :: "'c list"
  ho_Body :: "'v http_body option"

definition empty_option :: "('v, 'c) http_option" where
  "empty_option = \<lparr>ho_Headers = [], ho_Token = [], ho_Cookies = [], ho_Body = None\<rparr>"

definition put_all :: "(string \<times> string) list \<Rightarrow> (string \<times> string) list \<Rightarrow> (string \<times> string) list" where
  "put_all new hs = foldl (\<lambda>m (k, v). AList.update k v m) hs new"

definition http_WithHeaders :: "(string \<times> string) list \<Rightarrow> ('v, 'c) http_option \<Rightarrow> ('v, 'c) http_option" where
  "http_WithHeaders hs opt = opt\<lparr>ho_Headers := put_all hs (ho_Headers opt)\<rparr>"
definition http_WithHeader :: "string \<Rightarrow> string \<Rightarrow> ('v, 'c) http_option \<Rightarrow> ('v, 'c) http_option" where
  "http_WithHeader k v opt = opt\<lparr>ho_Headers := AList.update k v (ho_Headers opt)\<rparr>"
definition http_WithToken :: "string \<Rightarrow> ('v, 'c) http_option \<Rightarrow> ('v, 'c) http_option" where
  "http_WithToken token opt = opt\<lparr>ho_Token := token\<rparr>"
definition http_WithBody :: "'v http_body \<Rightarrow> ('v, 'c) http_option \<Rightarrow> ('v, 'c) http_option" where
  "http_WithBody body opt = opt\<lparr>ho_Body := Some body\<rparr>"
definition http_WithCookies :: "'c list \<Rightarrow> ('v, 'c) http_option \<Rightarrow> ('v, 'c) http_option" where
  "http_WithCookies cookies opt = opt\<lparr>ho_Cookies := cookies\<rparr>"

type_synonym ('v, 'c) option_fun = "('v, 'c) http_option \<Rightarrow> ('v, 'c) http_option"

definition apply_all :: "('o \<Rightarrow> 'o) list \<Rightarrow> 'o \<Rightarrow> 'o" where
  "apply_all opts o0 = foldl (\<lambda>x f. f x) o0 opts"

text \<open>A request as it is handed to the library: its headers under their canonical names.\<close>

record MultipartField =
  mf_Name :: string
  mf_FileName :: string
  mf_Content :: string

record ('v, 'c) http_request =
  hr_Method :: string
  hr_URL :: string
  hr_Header :: "string \<rightharpoonup> string"
  hr_Token :: string
  hr_Cookies :: "'c list"
  hr_Body :: "'v http_body option"
  hr_Form :: "(string \<times> string) list"
  hr_Files :: "MultipartField list"

definition new_request :: "string \<Rightarrow> string \<Rightarrow> ('v, 'c) http_request" where
  "new_request method url =
     \<lparr>hr_Method = method, hr_URL = url, hr_Header = Map.empty, hr_Token = [], hr_Cookies = [], hr_Body = None,
      hr_Form = [], hr_Files = []\<rparr>"

definition set_header :: "string \<Rightarrow> string \<Rightarrow> ('v, 'c) http_request \<Rightarrow> ('v, 'c) http_request" where
  "set_header k v r = r\<lparr>hr_Header := (hr_Header r)(CanonicalHeaderKey k \<mapsto> v)\<rparr>"

definition with_options :: "('v, 'c) http_option \<Rightarrow> ('v, 'c) http_request \<Rightarrow> ('v, 'c) http_request" where
  "with_options opt r =
     (let r1 = foldl (\<lambda>r (k, v). set_header k v r) r (ho_Headers opt);
          r2 = (if length (ho_Token opt) > 0 then r1\<lparr>hr_Token := ho_Token opt\<rparr> else r1)
      in if length (ho_Cookies opt) > 0 then r2\<lparr>hr_Cookies := hr_Cookies r2 @ ho_Cookies opt\<rparr> else r2)"

definition http_Get :: "string \<Rightarrow> ('v, 'c) option_fun list \<Rightarrow> ('v, 'c) http_request" where
  "http_Get url opts =
     (let opt = apply_all opts empty_option;
          r = with_options opt (new_request ''GET'' url)
      in if ho_Body opt \<noteq> None then r\<lparr>hr_Body := ho_Body opt\<rparr> else r)"

definition requestJson :: "string \<Rightarrow> string \<Rightarrow> 'v http_body option \<Rightarrow> ('v, 'c) option_fun list \<Rightarrow> ('v, 'c) http_request" where
  "requestJson url method body opts =
     (with_options (apply_all opts empty_option)
        (set_header ''Content-Type'' ''application/json'' (new_request (to_upper method) url)))\<lparr>hr_Body := body\<rparr>"

definition requestForm :: "string \<Rightarrow> string \<Rightarrow> (string \<times> string) list \<Rightarrow> ('v, 'c) option_fun list \<Rightarrow> ('v, 'c) http_request" where
  "requestForm url method formData opts =
     (with_options (apply_all opts empty_option)
        (set_header ''Content-Type'' ''application/x-www-form-urlencoded'' (new_request (to_upper method) url)))
       \<lparr>hr_Form := formData\<rparr>"

definition requestMultipart ::
  "string \<Rightarrow> string \<Rightarrow> MultipartField list \<Rightarrow> (string \<times> string) list \<Rightarrow> ('v, 'c) option_fun list \<Rightarrow> ('v, 'c) http_request" where
  "requestMultipart url method files formFields opts =
     (let r0 = with_options (apply_all opts empty_option) (new_request (to_upper method) url);
          r1 = (if length formFields > 0 then r0\<lparr>hr_Form := formFields\<rparr> else r0)
      in if length files > 0 then r1\<lparr>hr_Files := files\<rparr> else r1)"

section \<open>Services over gRPC\<close>

record GrpcConfig =
  gc_Name :: string
  gc_Debug :: bool
  gc_RetryCount :: int
  gc_RetryWaitTime :: int
  gc_Timeout :: "64 word"
  gc_Protocol :: string
  gc_Host :: string
  gc_Port :: int
  gc_CertFile :: string
  gc_KeyFile :: string
  gc_RootCertFile :: string
  gc_InsecureSkipVerify :: bool
  gc_MaxRecvSize :: int
  gc_MaxSendSize :: int
  gc_KeepaliveTime :: int
  gc_KeepaliveTimeout :: int
  gc_commonSet :: bool

definition grpc_Validate :: "GrpcConfig \<Rightarrow> string set \<Rightarrow> string option \<times> string set" where
  "grpc_Validate c names =
     (if gc_Name c = [] then (Some (''grpcx: Config must have Name, Host: '' @ gc_Host c @ '':'' @ itoa (gc_Port c)), names)
      else if gc_Name c \<in> names then (Some (''grpcx: service name duplicate: '' @ gc_Name c), names)
      else let names' = insert (gc_Name c) names in
        if gc_Protocol c \<noteq> ''grpc'' \<and> gc_Protocol c \<noteq> ''grpcs''
        then (Some (''grpcx: Protocol must be '' @ [CHR 0x22] @ ''grpc'' @ [CHR 0x22] @ '' or '' @ [CHR 0x22] @ ''grpcs'' @ [CHR 0x22]
                      @ '', service: '' @ gc_Name c), names')
        else (None, names'))"

definition GetTarget :: "GrpcConfig \<Rightarrow> string" where
  "GetTarget c = gc_Host c @ '':'' @ itoa (gc_Port c)"

definition grpc_defaults :: "GrpcConfig \<Rightarrow> GrpcConfig" where
  "grpc_defaults c =
     c\<lparr>gc_Timeout := (if sint (gc_Timeout c) \<le> 0 then 10000 else gc_Timeout c),
       gc_MaxRecvSize := (if gc_MaxRecvSize c \<le> 0 then 4 * 1024 * 1024 else gc_MaxRecvSize c),
       gc_MaxSendSize := (if gc_MaxSendSize c \<le> 0 then 4 * 1024 * 1024 else gc_MaxSendSize c)\<rparr>"

text \<open>The settings of a dial; without credentials the connection is not encrypted. Durations are in nanoseconds.\<close>

datatype interceptor = LoggingInterceptor | RecoveryInterceptor

record dial_settings =
  ds_Target :: string
  ds_MaxRecvSize :: int
  ds_MaxSendSize :: int
  ds_TLS :: "(bool \<times> string option \<times> (string \<times> string) option) option"
  ds_Keepalive :: "(int \<times> int) option"
  ds_Interceptors :: "interceptor list"
  ds_Timeout :: "64 word"

text \<open>The root certificates and the certificate of the client; \<open>read_root\<close> and \<open>load_pair\<close> are their errors, if any.\<close>

definition grpc_tls ::
  "(string \<Rightarrow> string option) \<Rightarrow> (string \<Rightarrow> bool) \<Rightarrow> (string \<Rightarrow> string \<Rightarrow> string option) \<Rightarrow> GrpcConfig
     \<Rightarrow> string + (bool \<times> string option \<times> (string \<times> string) option) option" where
  "grpc_tls read_root pem load_pair c =
     (if gc_Protocol c = ''grpcs''
      then case (if gc_RootCertFile c \<noteq> [] then read_root (gc_RootCertFile c) else None) of
             Some e \<Rightarrow> Inl (''grpcx: failed to read root cert: '' @ e)
           | None \<Rightarrow>
               if gc_RootCertFile c \<noteq> [] \<and> \<not> pem (gc_RootCertFile c) then Inl ''grpcx: failed to append root cert''
               else (case (if gc_CertFile c \<noteq> [] \<and> gc_KeyFile c \<noteq> [] then load_pair (gc_CertFile c) (gc_KeyFile c) else None) of
                       Some e \<Rightarrow> Inl (''grpcx: failed to load client cert: '' @ e)
                     | None \<Rightarrow>
                         Inr (Some (gc_InsecureSkipVerify c, if gc_RootCertFile c \<noteq> [] then Some (gc_RootCertFile c) else None,
                                    if gc_CertFile c \<noteq> [] \<and> gc_KeyFile c \<noteq> [] then Some (gc_CertFile c, gc_KeyFile c) else None)))
      else Inr None)"

definition grpc_keepalive :: "GrpcConfig \<Rightarrow> (int \<times> int) option" where
  "grpc_keepalive c =
     (if gc_KeepaliveTime c > 0 \<or> gc_KeepaliveTimeout c > 0
      then Some (if gc_KeepaliveTime c \<le> 0 then 30 * 1000000000 else gc_KeepaliveTime c,
                 if gc_KeepaliveTimeout c \<le> 0 then 10 * 1000000000 else gc_KeepaliveTimeout c)
      else None)"

definition dial_options :: "GrpcConfig \<Rightarrow> (bool \<times> string option \<times> (string \<times> string) option) option \<Rightarrow> dial_settings" where
  "dial_options c tls_setting =
     \<lparr>ds_Target = GetTarget c, ds_MaxRecvSize = gc_MaxRecvSize c, ds_MaxSendSize = gc_MaxSendSize c, ds_TLS = tls_setting,
      ds_Keepalive = grpc_keepalive c,
      ds_Interceptors = (if gc_Debug c then [LoggingInterceptor] else []) @ [RecoveryInterceptor],
      ds_Timeout = from_millis (gc_Timeout c)\<rparr>"

text \<open>The outer result is a panic, the inner one an error or the settings the connection was dialled with.\<close>

definition newClientConn ::
  "(string \<Rightarrow> string option) \<Rightarrow> (string \<Rightarrow> bool) \<Rightarrow> (string \<Rightarrow> string \<Rightarrow> string option) \<Rightarrow> (dial_settings \<Rightarrow> string option)
     \<Rightarrow> GrpcConfig \<Rightarrow> string set \<Rightarrow> (string + (string + dial_settings)) \<times> GrpcConfig \<times> string set" where
  "newClientConn read_root pem load_pair dial c names =
     (case (if gc_commonSet c then (None, names) else grpc_Validate c names) of
        (Some p, names') \<Rightarrow> (Inl p, c, names')
      | (None, names') \<Rightarrow>
          (let c' = grpc_defaults c in
           case grpc_tls read_root pem load_pair c' of
             Inl e \<Rightarrow> (Inr (Inl e), c', names')
           | Inr tls_setting \<Rightarrow>
               (case dial (dial_options c' tls_setting) of
                  Some e \<Rightarrow> (Inr (Inl (''grpcx: failed to connect to '' @ GetTarget c' @ '': '' @ e)), c', names')
                | None \<Rightarrow> (Inr (Inr (dial_options c' tls_setting)), c', names'))))"

text \<open>
  A call through the interceptors, the outermost first. The invoker returns an error or panics; the recovery turns a
  panic into an error of the internal kind.
\<close>

datatype call_outcome = Returned "string option" | Panicked string

definition recovered :: "call_outcome \<Rightarrow> call_outcome" where
  "recovered r = (case r of Returned e \<Rightarrow> Returned e | Panicked p \<Rightarrow> Returned (Some (''client panic: '' @ p)))"

fun intercept :: "interceptor list \<Rightarrow> call_outcome \<Rightarrow> call_outcome" where
  "intercept [] r = r"
| "intercept (LoggingInterceptor # is) r = intercept is r"
| "intercept (RecoveryInterceptor # is) r = recovered (intercept is r)"

section \<open>Calls by the name of a service\<close>

record ('v, 'c) ralConfig =
  rc_body :: "'v http_body option"
  rc_headers :: "(string \<times> string) list"
  rc_query :: url_values
  rc_cookies :: "'c list"
  rc_token :: string

definition empty_ral :: "('v, 'c) ralConfig" where
  "empty_ral = \<lparr>rc_body = None, rc_headers = [], rc_query = [], rc_cookies = [], rc_token = []\<rparr>"

definition ral_WithBody :: "'v http_body option \<Rightarrow> ('v, 'c) ralConfig \<Rightarrow> ('v, 'c) ralConfig" where
  "ral_WithBody body c = c\<lparr>rc_body := body\<rparr>"
definition ral_WithHeaders :: "(string \<times> string) list \<Rightarrow> ('v, 'c) ralConfig \<Rightarrow> ('v, 'c) ralConfig" where
  "ral_WithHeaders hs c = c\<lparr>rc_headers := put_all hs (rc_headers c)\<rparr>"
definition ral_WithHeader :: "string \<Rightarrow> string \<Rightarrow> ('v, 'c) ralConfig \<Rightarrow> ('v, 'c) ralConfig" where
  "ral_WithHeader k v c = c\<lparr>rc_headers := AList.update k v (rc_headers c)\<rparr>"
definition ral_WithQuery :: "url_values \<Rightarrow> ('v, 'c) ralConfig \<Rightarrow> ('v, 'c) ralConfig" where
  "ral_WithQuery params c = c\<lparr>rc_query := foldl (\<lambda>q (k, vs). values_append k vs q) (rc_query c) params\<rparr>"
definition ral_WithQueryParam :: "string \<Rightarrow> string \<Rightarrow> ('v, 'c) ralConfig \<Rightarrow> ('v, 'c) ralConfig" where
  "ral_WithQueryParam k v c = c\<lparr>rc_query := values_append k [v] (rc_query c)\<rparr>"
definition ral_WithToken :: "string \<Rightarrow> ('v, 'c) ralConfig \<Rightarrow> ('v, 'c) ralConfig" where
  "ral_WithToken token c = c\<lparr>rc_token := token\<rparr>"
definition ral_WithCookies :: "'c list \<Rightarrow> ('v, 'c) ralConfig \<Rightarrow> ('v, 'c) ralConfig" where
  "ral_WithCookies cookies c = c\<lparr>rc_cookies := rc_cookies c @ cookies\<rparr>"

definition buildPath :: "string \<Rightarrow> url_values \<Rightarrow> string" where
  "buildPath path query =
     (if query = [] then path
      else if CHR ''?'' \<in> set path then path @ ''&'' @ Encode query
      else path @ ''?'' @ Encode query)"

definition toHttpxOpts :: "('v, 'c) ralConfig \<Rightarrow> ('v, 'c) option_fun list" where
  "toHttpxOpts cfg =
     (if rc_headers cfg \<noteq> [] then [http_WithHeaders (rc_headers cfg)] else [])
     @ (if rc_token cfg \<noteq> [] then [http_WithToken (rc_token cfg)] else [])
     @ (if rc_cookies cfg \<noteq> [] then [http_WithCookies (rc_cookies cfg)] else [])"

text \<open>
  The services: which are configured for gRPC, and the error of getting a client over HTTP, if any. \<open>send\<close> is the
  library: the error it returns for a request. The result is the error and the request that was sent, if one was.
\<close>

record services =
  sv_grpc :: "string \<Rightarrow> bool"
  sv_http :: "string \<Rightarrow> string option"

definition grpc_refusal :: "string \<Rightarrow> string" where
  "grpc_refusal service =
     ''ral: service '' @ quoted service @ '' is gRPC protocol, please use ral.GetServiceConn('' @ quoted service
       @ '') with generated stub instead''"

definition ral_client :: "services \<Rightarrow> string \<Rightarrow> (unit \<Rightarrow> string option \<times> 'r option) \<Rightarrow> string option \<times> 'r option" where
  "ral_client sv service go =
     (if sv_grpc sv service then (Some (grpc_refusal service), None)
      else case sv_http sv service of Some e \<Rightarrow> (Some (''ral: '' @ e), None) | None \<Rightarrow> go ())"

definition json_methods :: "string list" where
  "json_methods = [''POST'', ''PUT'', ''PATCH'', ''DELETE'', ''OPTIONS'', ''HEAD'']"

definition RAL ::
  "services \<Rightarrow> (('v, 'c) http_request \<Rightarrow> string option) \<Rightarrow> string \<Rightarrow> string \<Rightarrow> string
     \<Rightarrow> (('v, 'c) ralConfig \<Rightarrow> ('v, 'c) ralConfig) list \<Rightarrow> string option \<times> ('v, 'c) http_request option" where
  "RAL sv send service method path opts =
     ral_client sv service (\<lambda>_.
       (let cfg = apply_all opts empty_ral; fullPath = buildPath path (rc_query cfg); httpxOpts = toHttpxOpts cfg in
        if to_upper method = ''GET''
        then (let r = http_Get fullPath (httpxOpts @ (case rc_body cfg of None \<Rightarrow> [] | Some b \<Rightarrow> [http_WithBody b]))
              in (send r, Some r))
        else if to_upper method \<in> set json_methods
        then (let r = requestJson fullPath (to_upper method) (rc_body cfg) httpxOpts in (send r, Some r))
        else (Some (''ral: unsupported method: '' @ method), None)))"

definition ral_Get where "ral_Get sv send service path opts = RAL sv send service ''GET'' path opts"
definition ral_Post where "ral_Post sv send service path body opts = RAL sv send service ''POST'' path (opts @ [ral_WithBody body])"
definition ral_Put where "ral_Put sv send service path body opts = RAL sv send service ''PUT'' path (opts @ [ral_WithBody body])"
definition ral_Patch where "ral_Patch sv send service path body opts = RAL sv send service ''PATCH'' path (opts @ [ral_WithBody body])"
definition ral_Delete where "ral_Delete sv send service path opts = RAL sv send service ''DELETE'' path opts"

definition ral_PostForm where
  "ral_PostForm sv (send :: ('v, 'c) http_request \<Rightarrow> string option) service path formData opts =
     ral_client sv service (\<lambda>_.
       (let cfg = apply_all opts empty_ral;
            r = requestForm (buildPath path (rc_query cfg)) ''POST'' formData (toHttpxOpts cfg) in (send r, Some r)))"

definition ral_PostMultipart where
  "ral_PostMultipart sv (send :: ('v, 'c) http_request \<Rightarrow> string option) service path files formFields opts =
     ral_client sv service (\<lambda>_.
       (let cfg = apply_all opts empty_ral;
            r = requestMultipart (buildPath path (rc_query cfg)) ''POST'' files formFields (toHttpxOpts cfg) in (send r, Some r)))"

text \<open>
  The fields of a \<open>Request\<close> that \<open>Do\<close> reads. A body is what reading it to its end gives; the headers are in the order
  they are ranged over.
\<close>

record ralRequest =
  rq_Service :: string
  rq_Body :: "(string + string) option"
  rq_Query :: url_values
  rq_Header :: "(string \<times> string list) list"
  rq_Method :: string
  rq_Host :: string
  rq_Path :: string
  rq_RawQuery :: string

definition joined_headers :: "(string \<times> string list) list \<Rightarrow> (string \<times> string) list" where
  "joined_headers hs =
     map (\<lambda>(k, vs). (k, join (if CanonicalHeaderKey k = ''Cookie'' then ''; '' else '', '') vs)) (filter (\<lambda>(k, vs). vs \<noteq> []) hs)"

definition do_options ::
  "ralRequest \<Rightarrow> string option \<Rightarrow> url_values \<Rightarrow> (('v, 'c) ralConfig \<Rightarrow> ('v, 'c) ralConfig) list" where
  "do_options req body raw =
     (case body of None \<Rightarrow> [] | Some b \<Rightarrow> [ral_WithBody (Some (BodyText b))])
     @ (if rq_Header req \<noteq> [] then [ral_WithHeaders (joined_headers (rq_Header req))] else [])
     @ (if rq_Host req \<noteq> [] then [ral_WithHeader ''Host'' (rq_Host req)] else [])
     @ (if rq_Query req \<noteq> [] then [ral_WithQuery (rq_Query req)] else [])
     @ (if rq_RawQuery req \<noteq> [] then [ral_WithQuery raw] else [])"

definition ral_Do ::
  "services \<Rightarrow> (('v, 'c) http_request \<Rightarrow> string option) \<Rightarrow> ralRequest option \<Rightarrow> string option \<times> ('v, 'c) http_request option" where
  "ral_Do sv send request =
     (case request of
        None \<Rightarrow> (Some ''ral: request is nil'', None)
      | Some req \<Rightarrow>
          if rq_Service req = [] then (Some ''ral: service name is required'', None)
          else if rq_Path req = [] then (Some ''ral: request path is required'', None)
          else (let method = (if rq_Method req = [] then ''GET'' else rq_Method req) in
            case rq_Body req of
              Some (Inl e) \<Rightarrow> (Some (''ral: failed to read request body: '' @ e), None)
            | body \<Rightarrow>
                (case (if rq_RawQuery req \<noteq> [] then ParseQuery (rq_RawQuery req) else Some []) of
                   None \<Rightarrow> (Some ''ral: invalid raw query'', None)
                 | Some raw \<Rightarrow>
                     RAL sv send (rq_Service req) method (rq_Path req)
                       (do_options req (case body of Some (Inr b) \<Rightarrow> Some b | _ \<Rightarrow> None) raw))))"


section \<open>What the packages do\<close>

subsection \<open>Queries\<close>

lemma values_get_Nil [simp]: "values_get [] k = []"
  by (simp add: values_get_def)

lemma values_get_Cons [simp]: "values_get ((k', l) # vs) k = (if k = k' then l else values_get vs k)"
  by (simp add: values_get_def)

lemma values_get_absent: "k \<notin> fst ` set vs \<Longrightarrow> values_get vs k = []"
  by (simp add: values_get_def map_of_eq_None_iff [THEN iffD2])

lemma values_get_append [simp]:
  "values_get (values_append k l vs) k' = (if k' = k then values_get vs k @ l else values_get vs k')"
  by (auto simp: values_append_def values_get_def update_conv')

lemma values_get_fold:
  "values_get (foldl (\<lambda>vs (k, v). values_append k [v] vs) vs0 ps) k = values_get vs0 k @ map snd (filter (\<lambda>p. fst p = k) ps)"
  by (induction ps arbitrary: vs0) auto

lemma values_get_fold_lists:
  "distinct (map fst params) \<Longrightarrow>
   values_get (foldl (\<lambda>q (k, vs). values_append k vs q) q0 params) k = values_get q0 k @ values_get params k"
proof (induction params arbitrary: q0)
  case (Cons p params)
  obtain k' vs where p: "p = (k', vs)" by fastforce
  have absent: "values_get params k' = []" using Cons.prems p by (auto intro: values_get_absent)
  show ?case
    using Cons.IH [of "values_append k' vs q0"] Cons.prems absent p by auto
qed simp

lemma keys_values_append: "fst ` set (values_append k l vs) = insert k (fst ` set vs)"
  by (simp add: values_append_def dom_update [unfolded dom_map_of_conv_image_fst])

lemma distinct_values_append: "distinct (map fst vs) \<Longrightarrow> distinct (map fst (values_append k l vs))"
  by (simp add: values_append_def distinct_update)

lemma distinct_values_fold:
  "distinct (map fst vs0) \<Longrightarrow> distinct (map fst (foldl (\<lambda>q (k, vs). values_append k (f vs) q) vs0 ps))"
  by (induction ps arbitrary: vs0) (auto simp: distinct_values_append)

lemma filter_value_pairs:
  assumes "distinct (map fst vs)"
  shows "map snd (filter (\<lambda>p. fst p = k) (value_pairs vs)) = values_get vs k"
proof -
  have "map snd (filter (\<lambda>p. fst p = k) (concat (map (\<lambda>k'. map (Pair k') (values_get vs k')) ks)))
        = (if k \<in> set ks then values_get vs k else [])" if "distinct ks" for ks
    using that
  proof (induction ks)
    case (Cons k' ks)
    then show ?case by (cases "k' = k") (simp_all add: comp_def)
  qed simp
  from this [of "sort (map fst vs)"] assms show ?thesis
    by (auto simp: value_pairs_def intro: values_get_absent [symmetric] split: if_splits)
qed

text \<open>What is escaped holds none of the characters that separate pairs.\<close>

lemma escape_no_separators:
  "x \<in> set (QueryEscape s) \<Longrightarrow> x \<notin> {CHR ''&'', CHR ''='', CHR '';''}"
  using url_escape_safe [of x QueryComponent s]
  by (auto simp: QueryEscape_def should_escape.simps is_alnum_def)

lemma parse_encode_pair: "parse_pair (encode_pair p) = Some p"
proof -
  have "\<forall>c \<in> set (QueryEscape (fst p)). c \<noteq> CHR ''=''" using escape_no_separators by blast
  then have key: "takeWhile (\<lambda>c. c \<noteq> CHR ''='') (encode_pair p) = QueryEscape (fst p)"
    by (simp add: encode_pair_def takeWhile_append2)
  have "CHR '';'' \<notin> set (encode_pair p)" using escape_no_separators by (auto simp: encode_pair_def)
  moreover have "drop (Suc (length (QueryEscape (fst p)))) (encode_pair p) = QueryEscape (snd p)"
    by (simp add: encode_pair_def)
  ultimately show ?thesis
    by (simp add: parse_pair_def key Let_def QueryEscape_def url_unescape_escape)
qed

lemma parse_Encode: "parse_pairs (Encode vs) = Some (value_pairs vs)"
proof (cases "value_pairs vs = []")
  case True
  then show ?thesis by (simp add: Encode_def parse_pairs_def)
next
  case False
  have "\<forall>p \<in> set (map encode_pair (value_pairs vs)). CHR ''&'' \<notin> set p"
    using escape_no_separators by (auto simp: encode_pair_def)
  then have "split_char (CHR ''&'') (Encode vs) = map encode_pair (value_pairs vs)"
    unfolding Encode_def by (intro split_join) (use False in auto)
  moreover have "filter (\<lambda>p. p \<noteq> []) (map encode_pair ps) = map encode_pair ps" for ps
    by (induction ps) (auto simp: encode_pair_def)
  ultimately show ?thesis by (auto simp: parse_pairs_def Let_def parse_encode_pair comp_def)
qed

text \<open>What is encoded is parsed to the same values, whatever bytes the keys and values have.\<close>

lemma parse_encoded_values:
  assumes "distinct (map fst vs)"
  shows "\<exists>m. ParseQuery (Encode vs) = Some m \<and> (\<forall>k. values_get m k = values_get vs k)"
  using filter_value_pairs [OF assms] by (simp add: ParseQuery_def parse_Encode values_get_fold)


subsection \<open>Requests\<close>

definition header_map :: "(string \<times> string) list \<Rightarrow> (string \<rightharpoonup> string) \<Rightarrow> string \<rightharpoonup> string" where
  "header_map hs h0 = foldl (\<lambda>h (k, v). h(CanonicalHeaderKey k \<mapsto> v)) h0 hs"

lemma foldl_set_header: "foldl (\<lambda>r (k, v). set_header k v r) r hs = r\<lparr>hr_Header := header_map hs (hr_Header r)\<rparr>"
proof (induction hs arbitrary: r)
  case (Cons p hs)
  then show ?case by (cases p) (simp add: set_header_def header_map_def)
qed (simp add: header_map_def)

lemma with_options_eq:
  "with_options opt r = r\<lparr>hr_Header := header_map (ho_Headers opt) (hr_Header r),
     hr_Token := (if ho_Token opt = [] then hr_Token r else ho_Token opt), hr_Cookies := hr_Cookies r @ ho_Cookies opt\<rparr>"
  by (simp add: with_options_def foldl_set_header Let_def)

lemma put_all_absent:
  "\<lbrakk>distinct (map fst new); fst ` set new \<inter> fst ` set hs = {}\<rbrakk> \<Longrightarrow> put_all new hs = hs @ new"
proof (induction new arbitrary: hs)
  case (Cons p new)
  obtain k v where p: "p = (k, v)" by fastforce
  have "AList.update k v hs = hs @ [(k, v)]"
    using Cons.prems p by (induction hs) auto
  then show ?case
    using Cons.IH [of "hs @ [(k, v)]"] Cons.prems p by (simp add: put_all_def)
qed (simp add: put_all_def)

lemma put_all_Nil: "distinct (map fst new) \<Longrightarrow> put_all new [] = new"
  by (simp add: put_all_absent)

lemma httpx_options:
  assumes "distinct (map fst (rc_headers cfg))"
  shows "apply_all (toHttpxOpts cfg) empty_option
           = \<lparr>ho_Headers = rc_headers cfg, ho_Token = rc_token cfg, ho_Cookies = rc_cookies cfg, ho_Body = None\<rparr>"
  using assms
  by (simp add: apply_all_def toHttpxOpts_def empty_option_def http_WithHeaders_def http_WithToken_def http_WithCookies_def
      put_all_Nil)

lemma apply_all_append: "apply_all (fs @ gs) x = apply_all gs (apply_all fs x)"
  by (simp add: apply_all_def)

lemma to_upper_capitals:
  assumes "list_all (\<lambda>c. 65 \<le> byte c \<and> byte c \<le> 90) s"
  shows "to_upper s = s"
proof -
  have ascii: "list_all (\<lambda>c. byte c < 128) s" using assms by (auto simp: list_all_iff)
  have "map upper_rune (map byte s) = map byte s" using assms by (auto simp: list_all_iff upper_rune_def)
  then show ?thesis by (simp only: to_upper_def runes_ascii [OF ascii] utf8_ascii [OF ascii])
qed

lemma json_methods_upper: "m \<in> set json_methods \<Longrightarrow> to_upper m = m"
  by (rule to_upper_capitals) (auto simp: json_methods_def)

lemma content_type_canonical: "CanonicalHeaderKey ''Content-Type'' = ''Content-Type''"
  by code_simp

text \<open>
  A call by name sends one request and returns what the library returns for it, or it sends none: for a service of gRPC,
  one without a client, or a method that is not known. The request has the method, the path with the query, the body, the token
  and the cookies that the options ask for, and their headers; a header \<open>Content-Type\<close> among them wins over the one for JSON.
\<close>

lemma RAL_request:
  assumes "distinct (map fst (rc_headers (apply_all opts empty_ral)))"
  shows "RAL sv send service method path opts =
     (let cfg = apply_all opts empty_ral;
          r = \<lparr>hr_Method = to_upper method, hr_URL = buildPath path (rc_query cfg),
               hr_Header = header_map (rc_headers cfg)
                 (if to_upper method = ''GET'' then Map.empty else [''Content-Type'' \<mapsto> ''application/json'']),
               hr_Token = rc_token cfg, hr_Cookies = rc_cookies cfg, hr_Body = rc_body cfg, hr_Form = [], hr_Files = []\<rparr>
      in if sv_grpc sv service then (Some (grpc_refusal service), None)
         else case sv_http sv service of
           Some e \<Rightarrow> (Some (''ral: '' @ e), None)
         | None \<Rightarrow> if to_upper method \<in> insert ''GET'' (set json_methods) then (send r, Some r)
                    else (Some (''ral: unsupported method: '' @ method), None))"
proof -
  let ?cfg = "apply_all opts empty_ral"
  have get: "http_Get url (toHttpxOpts ?cfg @ (case rc_body ?cfg of None \<Rightarrow> [] | Some b \<Rightarrow> [http_WithBody b]))
      = \<lparr>hr_Method = ''GET'', hr_URL = url, hr_Header = header_map (rc_headers ?cfg) Map.empty,
         hr_Token = rc_token ?cfg, hr_Cookies = rc_cookies ?cfg, hr_Body = rc_body ?cfg, hr_Form = [], hr_Files = []\<rparr>" for url
    by (cases "rc_body ?cfg")
       (simp_all add: http_Get_def apply_all_append httpx_options [OF assms] with_options_eq new_request_def Let_def,
        simp_all add: apply_all_def http_WithBody_def)
  have json: "requestJson url m (rc_body ?cfg) (toHttpxOpts ?cfg)
      = \<lparr>hr_Method = m, hr_URL = url, hr_Header = header_map (rc_headers ?cfg) [''Content-Type'' \<mapsto> ''application/json''],
         hr_Token = rc_token ?cfg, hr_Cookies = rc_cookies ?cfg, hr_Body = rc_body ?cfg, hr_Form = [], hr_Files = []\<rparr>"
    if "m \<in> set json_methods" for url m
    by (simp add: requestJson_def httpx_options [OF assms] with_options_eq new_request_def set_header_def
        json_methods_upper [OF that] content_type_canonical)
  have "''GET'' \<notin> set json_methods" by code_simp
  then show ?thesis
    by (auto simp: RAL_def ral_client_def Let_def get json split: option.splits)
qed

lemma header_map_other: "(\<forall>(k, v) \<in> set hs. CanonicalHeaderKey k \<noteq> x) \<Longrightarrow> header_map hs h0 x = h0 x"
proof (induction hs arbitrary: h0)
  case (Cons p hs)
  then show ?case by (cases p) (auto simp: header_map_def)
qed (simp add: header_map_def)

lemma header_map_in:
  "\<lbrakk>distinct (map (CanonicalHeaderKey \<circ> fst) hs); (k, v) \<in> set hs\<rbrakk> \<Longrightarrow> header_map hs h0 (CanonicalHeaderKey k) = Some v"
proof (induction hs arbitrary: h0)
  case (Cons p hs)
  show ?case
  proof (cases "p = (k, v)")
    case True
    have "header_map hs (h0(CanonicalHeaderKey k \<mapsto> v)) (CanonicalHeaderKey k) = (h0(CanonicalHeaderKey k \<mapsto> v)) (CanonicalHeaderKey k)"
      using Cons.prems True by (intro header_map_other) force
    then show ?thesis using True by (simp add: header_map_def)
  next
    case False
    then have "(k, v) \<in> set hs" "distinct (map (CanonicalHeaderKey \<circ> fst) hs)" using Cons.prems by (auto simp: comp_def)
    from Cons.IH [OF this(2,1)] show ?thesis by (cases p) (simp add: header_map_def)
  qed
qed simp

text \<open>Go may range over the headers in any order: when no two of them are the same but for case, the request is the same.\<close>

lemma header_order_irrelevant:
  assumes "distinct (map (CanonicalHeaderKey \<circ> fst) hs)" "distinct (map (CanonicalHeaderKey \<circ> fst) hs')" "set hs = set hs'"
  shows "header_map hs h0 = header_map hs' h0"
proof
  fix x
  show "header_map hs h0 x = header_map hs' h0 x"
  proof (cases "\<exists>(k, v) \<in> set hs. CanonicalHeaderKey k = x")
    case True
    then obtain k v where kv: "(k, v) \<in> set hs" "CanonicalHeaderKey k = x" by blast
    then have "(k, v) \<in> set hs'" using assms(3) by simp
    from header_map_in [OF assms(1) kv(1)] header_map_in [OF assms(2) this] kv(2) show ?thesis by simp
  next
    case False
    then have "\<forall>(k, v) \<in> set hs. CanonicalHeaderKey k \<noteq> x" by blast
    then show ?thesis using header_map_other [of hs x h0] header_map_other [of hs' x h0] assms(3) by simp
  qed
qed

subsection \<open>The query of a call\<close>

lemma distinct_parsed: "ParseQuery s = Some m \<Longrightarrow> distinct (map fst m)"
proof -
  have "distinct (map fst vs0) \<Longrightarrow> distinct (map fst (foldl (\<lambda>vs (k, v). values_append k [v] vs) vs0 ps))"
    for vs0 and ps :: "(string \<times> string) list"
    by (induction ps arbitrary: vs0) (auto simp: distinct_values_append)
  then show "ParseQuery s = Some m \<Longrightarrow> distinct (map fst m)" by (auto simp: ParseQuery_def)
qed

lemma WithQuery_get:
  assumes "distinct (map fst params)"
  shows "values_get (rc_query (ral_WithQuery params c)) k = values_get (rc_query c) k @ values_get params k"
    and "distinct (map fst (rc_query c)) \<Longrightarrow> distinct (map fst (rc_query (ral_WithQuery params c)))"
  using values_get_fold_lists [OF assms] distinct_values_fold [of "rc_query c" "\<lambda>x. x" params]
  by (simp_all add: ral_WithQuery_def)

lemma do_options_query:
  fixes c0 :: "('v, 'c) ralConfig"
  assumes "distinct (map fst (rq_Query req))" "distinct (map fst raw)" "rq_RawQuery req = [] \<longrightarrow> raw = []" and c0: "c0 = empty_ral"
  shows "values_get (rc_query (apply_all (do_options req body raw) c0)) k = values_get (rq_Query req) k @ values_get raw k"
    and "distinct (map fst (rc_query (apply_all (do_options req body raw) c0)))"
proof -
  have keep: "rc_query (ral_WithBody b c) = rc_query c" "rc_query (ral_WithHeaders hs c) = rc_query c"
    "rc_query (ral_WithHeader x y c) = rc_query c" for b hs x y and c :: "('v, 'c) ralConfig"
    by (simp_all add: ral_WithBody_def ral_WithHeaders_def ral_WithHeader_def)
  have start: "rc_query c0 = []" by (simp add: c0 empty_ral_def)
  show "values_get (rc_query (apply_all (do_options req body raw) c0)) k = values_get (rq_Query req) k @ values_get raw k"
    using assms(1-3)
    by (auto simp: do_options_def apply_all_def keep start WithQuery_get(1) split: option.splits)
  show "distinct (map fst (rc_query (apply_all (do_options req body raw) c0)))"
    using assms(1-3)
    by (auto simp: do_options_def apply_all_def keep start WithQuery_get(2) split: option.splits)
qed


lemma do_options_headers:
  "distinct (map fst (rc_headers c)) \<Longrightarrow>
   distinct (map fst (rc_headers (apply_all (do_options req body raw) c)))"
proof -
  have put: "distinct (map fst hs) \<Longrightarrow> distinct (map fst (put_all new hs))" for hs new
    by (induction new arbitrary: hs) (auto simp: put_all_def distinct_update)
  assume "distinct (map fst (rc_headers c))"
  then show ?thesis
    by (auto simp: do_options_def apply_all_def ral_WithBody_def ral_WithHeaders_def ral_WithHeader_def ral_WithQuery_def
        put distinct_update split: option.splits)
qed


definition open_services :: services where
  "open_services = \<lparr>sv_grpc = (\<lambda>_. False), sv_http = (\<lambda>_. None)\<rparr>"

definition sample_request :: ralRequest where
  "sample_request = \<lparr>rq_Service = ''users'', rq_Body = None, rq_Query = [(''q'', [''a&b''])], rq_Header = [], rq_Method = ''GET'',
     rq_Host = [], rq_Path = ''/u'', rq_RawQuery = ''q=1''\<rparr>"

lemma upper_GET: "to_upper ''GET'' = ''GET''"
  by (rule to_upper_capitals) simp

lemma sample_raw: "ParseQuery ''q=1'' = Some [(''q'', [''1''])]"
proof -
  have "\<exists>m. ParseQuery (Encode [(''q'', [''1''])]) = Some m"
    using parse_encoded_values [of "[(''q'', [''1''])]"] by auto
  have "parse_pairs ''q=1'' = Some [(''q'', ''1'')]" by code_simp
  then show ?thesis by (simp add: ParseQuery_def values_append_def)
qed


text \<open>
  Nothing is sent over HTTP to a service of gRPC, to one without a client or with a method that is not known, and then there is an
  error; in all other cases exactly one request is sent, and the error is the one of sending it.
\<close>

theorem ral_sends_once:
  "(sv_grpc sv service \<longrightarrow> RAL sv send service method path opts = (Some (grpc_refusal service), None))
   \<and> (snd (RAL sv send service method path opts) = None \<longrightarrow> fst (RAL sv send service method path opts) \<noteq> None)
   \<and> (snd (RAL sv send service method path opts) = Some r \<longrightarrow>
        fst (RAL sv send service method path opts) = send r \<and> \<not> sv_grpc sv service \<and> sv_http sv service = None
        \<and> to_upper method \<in> insert ''GET'' (set json_methods))"
proof (cases "sv_grpc sv service")
  case False
  note unfolded = RAL_def ral_client_def Let_def if_False option.case
  consider e where "sv_http sv service = Some e" | "sv_http sv service = None" "to_upper method = ''GET''"
    | "sv_http sv service = None" "to_upper method \<noteq> ''GET''" "to_upper method \<in> set json_methods"
    | "sv_http sv service = None" "to_upper method \<noteq> ''GET''" "to_upper method \<notin> set json_methods"
    by blast
  then show ?thesis
  proof cases
    case 1
    with False show ?thesis by (simp add: RAL_def ral_client_def)
  next
    case 2
    then show ?thesis unfolding unfolded using False by auto
  next
    case 3
    then show ?thesis unfolding unfolded using False by auto
  next
    case 4
    then show ?thesis unfolding unfolded using False by auto
  qed
qed (simp add: RAL_def ral_client_def)

lemma ral_sends_once_witness:
  "RAL \<lparr>sv_grpc = (\<lambda>_. True), sv_http = (\<lambda>_. None)\<rparr> (\<lambda>_ :: (nat, nat) http_request. None) ''s'' ''GET'' ''/'' []
     = (Some (grpc_refusal ''s''), None)"
proof -
  let ?sv = "\<lparr>sv_grpc = (\<lambda>_. True), sv_http = (\<lambda>_. None)\<rparr>"
  have "sv_grpc ?sv ''s''" by simp
  then show ?thesis
    using ral_sends_once [of ?sv "''s''" "\<lambda>_ :: (nat, nat) http_request. None" "''GET''" "''/''" "[]"] by blast
qed

subsection \<open>Endpoints, logs and interceptors\<close>

text \<open>The endpoint is computed once: every later answer is the first one, whatever becomes of the host and the port.\<close>

lemma GetEndpoint_fixed:
  assumes "GetEndpoint c = (e, c')"
  shows "e \<noteq> [] \<and> GetEndpoint (c'\<lparr>hc_Host := h, hc_Port := p\<rparr>) = (e, c'\<lparr>hc_Host := h, hc_Port := p\<rparr>)"
proof -
  have "built_endpoint c \<noteq> []" by (simp add: built_endpoint_def)
  then have "e \<noteq> [] \<and> hc_Endpoint c' = e" using assms by (auto simp: GetEndpoint_def split: if_splits)
  then show ?thesis by (simp add: GetEndpoint_def)
qed

lemma itoa_nat_bound: "n < 10 ^ Suc k \<Longrightarrow> length (itoa_nat n) \<le> Suc k"
proof (induction k arbitrary: n)
  case (Suc k)
  show ?case
  proof (cases "n < 10")
    case False
    then have "length (itoa_nat (n div 10)) \<le> Suc k" using Suc.prems by (intro Suc.IH) (simp add: less_mult_imp_div_less)
    with False show ?thesis by (simp add: itoa_nat_step)
  qed (simp add: itoa_nat_small)
qed (simp add: itoa_nat_small)

text \<open>A line of the log stays bounded, and says how long the body was when it is cut.\<close>

lemma logBody_bound:
  assumes "length body < 2 ^ 63"
  shows "length (logBody body) \<le> maxLogBodySize + 53 \<and> take maxLogBodySize (logBody body) = take maxLogBodySize body"
proof (cases "length body \<le> maxLogBodySize")
  case False
  have "length (itoa (int (length body))) \<le> 19"
  proof -
    have "itoa_nat (length body) = itoa (int (length body))" by (simp add: itoa_def)
    moreover have "length (itoa_nat (length body)) \<le> 19"
      using itoa_nat_bound [of "length body" 18] assms by simp
    ultimately show ?thesis by simp
  qed
  then show ?thesis using False by (simp add: logBody_def maxLogBodySize_def)
qed (simp add: logBody_def)

lemma intercepted_returns: "RecoveryInterceptor \<in> set is \<Longrightarrow> \<exists>e. intercept is r = Returned e"
proof (induction "is" r rule: intercept.induct)
  case (3 "is" r)
  then show ?case by (auto simp: recovered_def split: call_outcome.splits)
qed auto

text \<open>However a connection is configured, a panic of a call comes back as an error, and an error or success as it was.\<close>

theorem grpc_calls_return:
  "intercept (ds_Interceptors (dial_options c tls_setting)) (Panicked p) = Returned (Some (''client panic: '' @ p))
   \<and> intercept (ds_Interceptors (dial_options c tls_setting)) (Returned e) = Returned e"
  by (simp add: dial_options_def recovered_def)


subsection \<open>Registered names\<close>

text \<open>Configurations validated one after the other, as long as none panics.\<close>

fun validate_all :: "(HttpConfig \<Rightarrow> string set \<Rightarrow> string option \<times> string set) \<Rightarrow> HttpConfig list \<Rightarrow> string set \<Rightarrow> string option \<times> string set" where
  "validate_all v [] names = (None, names)"
| "validate_all v (c # cs) names = (case v c names of (Some p, names') \<Rightarrow> (Some p, names') | (None, names') \<Rightarrow> validate_all v cs names')"

text \<open>
  C38. All of them pass just when the names that are not empty are distinct and new and the protocols are the two known ones; clients
  without a name are not registered.
\<close>

theorem http_names_unique:
  "fst (validate_all http_Validate cs names) = None \<longleftrightarrow>
     distinct (filter (\<lambda>n. n \<noteq> []) (map hc_Name cs)) \<and> (set (map hc_Name cs) - {[]}) \<inter> names = {}
     \<and> list_all (\<lambda>c. hc_Protocol c = ''https'' \<or> hc_Protocol c = ''http'') cs"
proof (induction cs arbitrary: names)
  case (Cons c cs)
  let ?ok = "hc_Protocol c = ''https'' \<or> hc_Protocol c = ''http''"
  have v: "http_Validate c names = (if (hc_Name c \<noteq> [] \<and> hc_Name c \<in> names) \<or> \<not> ?ok
      then (Some (the (fst (http_Validate c names))), snd (http_Validate c names))
      else (None, if hc_Name c \<noteq> [] then insert (hc_Name c) names else names))"
    by (simp add: http_Validate_def Let_def)
  show ?case
  proof (cases "(hc_Name c \<noteq> [] \<and> hc_Name c \<in> names) \<or> \<not> ?ok")
    case True
    then obtain p n where "http_Validate c names = (Some p, n)" using v by metis
    then have "fst (validate_all http_Validate (c # cs) names) \<noteq> None" by simp
    then show ?thesis using True by auto
  next
    case False
    then have "http_Validate c names = (None, if hc_Name c \<noteq> [] then insert (hc_Name c) names else names)"
      using v by metis
    then show ?thesis using Cons.IH False by (cases "hc_Name c = []") auto
  qed
qed simp

end
