(* ===== verification/Rpc_Clients.thy ===== *)
theory Rpc_Clients
  imports Main
begin

text \<open>
  The clients of \<open>httpx\<close> and the connections of \<open>grpcx\<close>, made on the first call for a service and shared by all: the
  interleavings of the goroutines that ask for them.
\<close>

section \<open>One client per service\<close>

text \<open>
  \<open>GetServiceClient\<close> and \<open>GetServiceConn\<close> keep a map from services to the clients that have been made. Goroutines
  interleave: one finds the client in the map, or misses it, makes one of its own, and stores it unless another has been
  stored meanwhile, which it then takes. A connection of gRPC that lost is closed (\<open>closing\<close>), a client of HTTP is
  dropped. Making one may fail: with an error for a service without a configuration, else with a panic.
\<close>

type_synonym tid = nat

datatype lazy_pc = LIdle | LMissed string | LMade string nat | LDone string nat | LFailed

record lazy_sys =
  lz_inst :: "string \<rightharpoonup> nat"   \<comment> \<open>the map of instances, each with the number it was made with\<close>
  lz_pc :: "tid \<Rightarrow> lazy_pc"
  lz_made :: nat                 \<comment> \<open>how many have been made\<close>
  lz_closed :: "nat set"

inductive lazy_step :: "bool \<Rightarrow> lazy_sys \<Rightarrow> lazy_sys \<Rightarrow> bool" for closing where
  hit: "\<lbrakk>lz_pc s t = LIdle; lz_inst s service = Some c\<rbrakk> \<Longrightarrow>
        lazy_step closing s (s\<lparr>lz_pc := (lz_pc s)(t := LDone service c)\<rparr>)"
| miss: "\<lbrakk>lz_pc s t = LIdle; lz_inst s service = None\<rbrakk> \<Longrightarrow>
        lazy_step closing s (s\<lparr>lz_pc := (lz_pc s)(t := LMissed service)\<rparr>)"
| make_one: "lz_pc s t = LMissed service \<Longrightarrow>
        lazy_step closing s (s\<lparr>lz_pc := (lz_pc s)(t := LMade service (lz_made s)), lz_made := Suc (lz_made s)\<rparr>)"
| fail: "lz_pc s t = LMissed service \<Longrightarrow> lazy_step closing s (s\<lparr>lz_pc := (lz_pc s)(t := LFailed)\<rparr>)"
| store: "\<lbrakk>lz_pc s t = LMade service c; lz_inst s service = None\<rbrakk> \<Longrightarrow>
        lazy_step closing s (s\<lparr>lz_inst := (lz_inst s)(service \<mapsto> c), lz_pc := (lz_pc s)(t := LDone service c)\<rparr>)"
| lost: "\<lbrakk>lz_pc s t = LMade service c; lz_inst s service = Some d\<rbrakk> \<Longrightarrow>
        lazy_step closing s (s\<lparr>lz_pc := (lz_pc s)(t := LDone service d),
                               lz_closed := (if closing then insert c (lz_closed s) else lz_closed s)\<rparr>)"
| again: "lz_pc s t = LDone service c \<Longrightarrow> lazy_step closing s (s\<lparr>lz_pc := (lz_pc s)(t := LIdle)\<rparr>)"

definition lazy_start :: lazy_sys where
  "lazy_start = \<lparr>lz_inst = Map.empty, lz_pc = (\<lambda>_. LIdle), lz_made = 0, lz_closed = {}\<rparr>"

abbreviation http_clients :: "lazy_sys \<Rightarrow> bool" where "http_clients \<equiv> (lazy_step False)\<^sup>*\<^sup>* lazy_start"
abbreviation grpc_conns :: "lazy_sys \<Rightarrow> bool" where "grpc_conns \<equiv> (lazy_step True)\<^sup>*\<^sup>* lazy_start"

section \<open>What interleavings keep\<close>

definition lazy_inv :: "lazy_sys \<Rightarrow> bool" where
  "lazy_inv s \<longleftrightarrow>
     (\<forall>t service c. lz_pc s t = LDone service c \<longrightarrow> lz_inst s service = Some c)
   \<and> (\<forall>service c. lz_inst s service = Some c \<longrightarrow> c < lz_made s \<and> c \<notin> lz_closed s)
   \<and> (\<forall>t service c. lz_pc s t = LMade service c \<longrightarrow> c < lz_made s \<and> c \<notin> lz_closed s \<and> (\<forall>service'. lz_inst s service' \<noteq> Some c))
   \<and> (\<forall>t u service service' c. lz_pc s t = LMade service c \<longrightarrow> lz_pc s u = LMade service' c \<longrightarrow> t = u)
   \<and> (\<forall>service service' c. lz_inst s service = Some c \<longrightarrow> lz_inst s service' = Some c \<longrightarrow> service = service')
   \<and> lz_closed s \<subseteq> {..<lz_made s}"

definition lazy_kept :: "lazy_sys \<Rightarrow> bool" where
  "lazy_kept s \<longleftrightarrow>
     (\<forall>c < lz_made s. c \<in> lz_closed s \<or> (\<exists>service. lz_inst s service = Some c) \<or> (\<exists>t service. lz_pc s t = LMade service c))"

lemma lazy_inv_start: "lazy_inv lazy_start" "lazy_kept lazy_start"
  by (simp_all add: lazy_inv_def lazy_kept_def lazy_start_def)

lemma lazy_invD:
  assumes "lazy_inv s"
  shows "lz_pc s t = LDone x c \<Longrightarrow> lz_inst s x = Some c"
    and "lz_inst s x = Some c \<Longrightarrow> c < lz_made s \<and> c \<notin> lz_closed s"
    and "lz_pc s t = LMade x c \<Longrightarrow> c < lz_made s \<and> c \<notin> lz_closed s \<and> lz_inst s y \<noteq> Some c"
    and "lz_pc s t = LMade x c \<Longrightarrow> lz_pc s u = LMade y c \<Longrightarrow> t = u"
    and "lz_inst s x = Some c \<Longrightarrow> lz_inst s y = Some c \<Longrightarrow> x = y"
    and "c \<in> lz_closed s \<Longrightarrow> c < lz_made s"
  using assms unfolding lazy_inv_def by blast+

lemma lazy_invI:
  assumes "\<And>t x c. lz_pc s t = LDone x c \<Longrightarrow> lz_inst s x = Some c"
    and "\<And>x c. lz_inst s x = Some c \<Longrightarrow> c < lz_made s \<and> c \<notin> lz_closed s"
    and "\<And>t x c y. lz_pc s t = LMade x c \<Longrightarrow> c < lz_made s \<and> c \<notin> lz_closed s \<and> lz_inst s y \<noteq> Some c"
    and "\<And>t u x y c. lz_pc s t = LMade x c \<Longrightarrow> lz_pc s u = LMade y c \<Longrightarrow> t = u"
    and "\<And>x y c. lz_inst s x = Some c \<Longrightarrow> lz_inst s y = Some c \<Longrightarrow> x = y"
    and "\<And>c. c \<in> lz_closed s \<Longrightarrow> c < lz_made s"
  shows "lazy_inv s"
  using assms unfolding lazy_inv_def by blast

lemma lazy_inv_make:
  assumes "lazy_inv s" and make_one: "s' = s\<lparr>lz_pc := (lz_pc s)(t := LMade service (lz_made s)), lz_made := Suc (lz_made s)\<rparr>" "lz_pc s t = LMissed service"
  shows "lazy_inv s'"
proof -
  note inv = lazy_invD [OF assms(1)]
  have fresh: "lz_inst s x \<noteq> Some (lz_made s)" "lz_pc s u \<noteq> LMade x (lz_made s)" "lz_made s \<notin> lz_closed s" for x u
    using inv(2,3,6) by blast+
  show ?thesis
  proof (rule lazy_invI)
    fix u v x y c assume "lz_pc s' u = LMade x c" "lz_pc s' v = LMade y c"
    then show "u = v" using make_one fresh(2) inv(4) [of u x c v y] by (auto simp: fun_upd_def split: if_splits)
  next
    fix u x c y assume "lz_pc s' u = LMade x c"
    then show "c < lz_made s' \<and> c \<notin> lz_closed s' \<and> lz_inst s' y \<noteq> Some c"
      using make_one fresh inv(3) [of u x c y] by (auto simp: fun_upd_def split: if_splits)
  next
    fix u x c assume "lz_pc s' u = LDone x c"
    then show "lz_inst s' x = Some c" using make_one inv(1) [of u x c] by (auto simp: fun_upd_def split: if_splits)
  next
    fix x c assume "lz_inst s' x = Some c"
    then show "c < lz_made s' \<and> c \<notin> lz_closed s'" using make_one inv(2) [of x c] by simp
  next
    fix x y c assume "lz_inst s' x = Some c" "lz_inst s' y = Some c"
    then show "x = y" using make_one inv(5) [of x c y] by simp
  next
    fix c assume "c \<in> lz_closed s'"
    then show "c < lz_made s'" using make_one inv(6) [of c] by simp
  qed
qed

lemma lazy_inv_store:
  assumes "lazy_inv s" and store: "s' = s\<lparr>lz_inst := (lz_inst s)(service \<mapsto> d), lz_pc := (lz_pc s)(t := LDone service d)\<rparr>"
      "lz_pc s t = LMade service d" "lz_inst s service = None"
  shows "lazy_inv s'"
proof -
  note inv = lazy_invD [OF assms(1)]
  have d: "d < lz_made s" "d \<notin> lz_closed s" "lz_inst s x \<noteq> Some d" for x using inv(3) [of t service d x] store by auto
  show ?thesis
  proof (rule lazy_invI)
    fix u v x y c assume "lz_pc s' u = LMade x c" "lz_pc s' v = LMade y c"
    then show "u = v" using store inv(4) [of u x c v y] by (auto simp: fun_upd_def split: if_splits)
  next
    fix u x c y assume "lz_pc s' u = LMade x c"
    then show "c < lz_made s' \<and> c \<notin> lz_closed s' \<and> lz_inst s' y \<noteq> Some c"
      using store inv(3) [of u x c y] inv(4) [of u x c t service] by (auto simp: fun_upd_def split: if_splits)
  next
    fix u x c assume "lz_pc s' u = LDone x c"
    then show "lz_inst s' x = Some c" using store inv(1) [of u x c] by (auto simp: fun_upd_def split: if_splits)
  next
    fix x c assume "lz_inst s' x = Some c"
    then show "c < lz_made s' \<and> c \<notin> lz_closed s'" using store d(1,2) inv(2) [of x c] by (auto simp: fun_upd_def split: if_splits)
  next
    fix x y c assume "lz_inst s' x = Some c" "lz_inst s' y = Some c"
    then show "x = y" using store d(3) inv(5) [of x c y] by (auto simp: fun_upd_def split: if_splits)
  next
    fix c assume "c \<in> lz_closed s'"
    then show "c < lz_made s'" using store inv(6) [of c] by simp
  qed
qed

lemma lazy_inv_lost:
  assumes "lazy_inv s" and lost: "s' = s\<lparr>lz_pc := (lz_pc s)(t := LDone service d),
        lz_closed := (if closing then insert c0 (lz_closed s) else lz_closed s)\<rparr>"
      "lz_pc s t = LMade service c0" "lz_inst s service = Some d"
  shows "lazy_inv s'"
proof -
  note inv = lazy_invD [OF assms(1)]
  have c0: "c0 < lz_made s" "lz_inst s x \<noteq> Some c0" for x using inv(3) [of t service c0 x] lost by auto
  show ?thesis
  proof (rule lazy_invI)
    fix u v x y c assume "lz_pc s' u = LMade x c" "lz_pc s' v = LMade y c"
    then show "u = v" using lost inv(4) [of u x c v y] by (auto simp: fun_upd_def split: if_splits)
  next
    fix u x c y assume "lz_pc s' u = LMade x c"
    then show "c < lz_made s' \<and> c \<notin> lz_closed s' \<and> lz_inst s' y \<noteq> Some c"
      using lost inv(3) [of u x c y] inv(4) [of u x c t service] by (auto simp: fun_upd_def split: if_splits)
  next
    fix u x c assume "lz_pc s' u = LDone x c"
    then show "lz_inst s' x = Some c" using lost inv(1) [of u x c] by (auto simp: fun_upd_def split: if_splits)
  next
    fix x c assume "lz_inst s' x = Some c"
    then show "c < lz_made s' \<and> c \<notin> lz_closed s'" using lost c0(2) inv(2) [of x c] by auto
  next
    fix x y c assume "lz_inst s' x = Some c" "lz_inst s' y = Some c"
    then show "x = y" using lost inv(5) [of x c y] by simp
  next
    fix c assume "c \<in> lz_closed s'"
    then show "c < lz_made s'" using lost c0(1) inv(6) [of c] by (auto split: if_splits)
  qed
qed

lemma lazy_inv_step:
  assumes "lazy_step closing s s'" "lazy_inv s"
  shows "lazy_inv s'"
  using assms(1)
proof cases
  case (make_one t service)
  then show ?thesis by (rule lazy_inv_make [OF assms(2)])
next
  case (store t service d)
  then show ?thesis by (rule lazy_inv_store [OF assms(2)])
next
  case (lost t service c d)
  then show ?thesis by (rule lazy_inv_lost [OF assms(2)])
qed (use assms(2) in \<open>auto simp: lazy_inv_def split: if_splits\<close>)

text \<open>A goroutine that moves between two points where it holds no client of its own leaves everything held as it was.\<close>

lemma lazy_kept_move:
  assumes "lazy_kept s" "\<And>service c. lz_pc s t \<noteq> LMade service c" "lz_made s' = lz_made s" "lz_closed s' = lz_closed s"
    "lz_inst s' = lz_inst s" "lz_pc s' = (lz_pc s)(t := p)"
  shows "lazy_kept s'"
  unfolding lazy_kept_def assms(3-6)
proof (intro allI impI)
  fix c assume "c < lz_made s"
  then consider "c \<in> lz_closed s" | service where "lz_inst s service = Some c" | u service where "lz_pc s u = LMade service c"
    using assms(1) unfolding lazy_kept_def by blast
  then show "c \<in> lz_closed s \<or> (\<exists>service. lz_inst s service = Some c)
      \<or> (\<exists>u service. ((lz_pc s)(t := p)) u = LMade service c)"
  proof cases
    case (3 u service)
    then have "u \<noteq> t" using assms(2) by metis
    with 3 show ?thesis by (metis fun_upd_other)
  qed blast+
qed

lemma lazy_kept_step:
  assumes "lazy_step True s s'" "lazy_kept s"
  shows "lazy_kept s'"
  using assms(1)
proof cases
  case (make_one t service)
  show ?thesis unfolding lazy_kept_def
  proof (intro allI impI)
    fix c assume "c < lz_made s'"
    then consider "c = lz_made s" | "c < lz_made s" using make_one by (auto simp: less_Suc_eq)
    then show "c \<in> lz_closed s' \<or> (\<exists>service. lz_inst s' service = Some c) \<or> (\<exists>t service. lz_pc s' t = LMade service c)"
    proof cases
      case 1
      then have "lz_pc s' t = LMade service c" using make_one by simp
      then show ?thesis by blast
    next
      case 2
      then consider "c \<in> lz_closed s" | service where "lz_inst s service = Some c" | u service where "lz_pc s u = LMade service c"
        using assms(2) unfolding lazy_kept_def by blast
      then show ?thesis
      proof cases
        case (3 u service')
        then have "lz_pc s' u = LMade service' c" using make_one by (cases "u = t") auto
        then show ?thesis by blast
      qed (use make_one in auto)
    qed
  qed
next
  case (store t service c)
  show ?thesis unfolding lazy_kept_def
  proof (intro allI impI)
    fix d assume "d < lz_made s'"
    then consider "d \<in> lz_closed s" | service' where "lz_inst s service' = Some d" | u service' where "lz_pc s u = LMade service' d"
      using assms(2) store(1) unfolding lazy_kept_def by auto
    then show "d \<in> lz_closed s' \<or> (\<exists>service. lz_inst s' service = Some d) \<or> (\<exists>t service. lz_pc s' t = LMade service d)"
    proof cases
      case (2 service')
      then have "lz_inst s' service' = Some d" using store by (cases "service' = service") auto
      then show ?thesis by blast
    next
      case (3 u service')
      show ?thesis
      proof (cases "u = t")
        case True
        then have "lz_inst s' service = Some d" using 3 store by simp
        then show ?thesis by blast
      next
        case False
        then have "lz_pc s' u = LMade service' d" using 3 store by simp
        then show ?thesis by blast
      qed
    qed (use store in simp)
  qed
next
  case (lost t service c d)
  show ?thesis unfolding lazy_kept_def
  proof (intro allI impI)
    fix x assume "x < lz_made s'"
    then consider "x \<in> lz_closed s" | service' where "lz_inst s service' = Some x" | u service' where "lz_pc s u = LMade service' x"
      using assms(2) lost(1) unfolding lazy_kept_def by auto
    then show "x \<in> lz_closed s' \<or> (\<exists>service. lz_inst s' service = Some x) \<or> (\<exists>t service. lz_pc s' t = LMade service x)"
    proof cases
      case (3 u service')
      show ?thesis
      proof (cases "u = t")
        case False
        then have "lz_pc s' u = LMade service' x" using 3 lost by simp
        then show ?thesis by blast
      qed (use 3 lost in simp)
    qed (use lost in auto)
  qed
next
  case (hit t service c)
  show ?thesis by (rule lazy_kept_move [OF assms(2), of t _ "LDone service c"]) (use hit in simp_all)
next
  case (miss t service)
  show ?thesis by (rule lazy_kept_move [OF assms(2), of t _ "LMissed service"]) (use miss in simp_all)
next
  case (fail t service)
  show ?thesis by (rule lazy_kept_move [OF assms(2), of t _ LFailed]) (use fail in simp_all)
next
  case (again t service c)
  show ?thesis by (rule lazy_kept_move [OF assms(2), of t _ LIdle]) (use again in simp_all)
qed

lemma lazy_invariant: "(lazy_step closing)\<^sup>*\<^sup>* lazy_start s \<Longrightarrow> lazy_inv s"
  by (induction rule: rtranclp_induct) (auto intro: lazy_inv_start lazy_inv_step)

lemma grpc_kept: "grpc_conns s \<Longrightarrow> lazy_kept s"
  by (induction rule: rtranclp_induct) (auto intro: lazy_inv_start lazy_kept_step)

lemma lazy_stable:
  assumes "(lazy_step closing)\<^sup>*\<^sup>* s s'"
  shows "lz_inst s service = Some c \<Longrightarrow> lz_inst s' service = Some c"
  using assms by (induction rule: rtranclp_induct) (auto elim!: lazy_step.cases)

text \<open>
  C9. However calls for clients interleave, and whichever fail: at every time the calls that have returned for one service
  have returned the same client, and so does every later one; different services have different clients; and no client that
  was returned has been closed.
\<close>

theorem one_client_per_service:
  assumes reach: "(lazy_step closing)\<^sup>*\<^sup>* lazy_start s" and got: "lz_pc s t = LDone service c"
    and later: "(lazy_step closing)\<^sup>*\<^sup>* s s'" and other: "lz_pc s' u = LDone service' d"
  shows "(c = d \<longleftrightarrow> service = service') \<and> d \<notin> lz_closed s' \<and> c \<notin> lz_closed s'"
proof -
  have inv: "lazy_inv s'" by (rule lazy_invariant) (use rtranclp_trans [OF reach later] in simp)
  have "lz_inst s service = Some c" using lazy_invariant [OF reach] got unfolding lazy_inv_def by blast
  then have c: "lz_inst s' service = Some c" by (rule lazy_stable [OF later])
  have d: "lz_inst s' service' = Some d" using inv other unfolding lazy_inv_def by blast
  have unique: "lz_inst s' x = Some a \<Longrightarrow> lz_inst s' y = Some a \<Longrightarrow> x = y"
    and live: "lz_inst s' x = Some a \<Longrightarrow> a \<notin> lz_closed s'" for x y a
    using inv unfolding lazy_inv_def by blast+
  show ?thesis using unique live c d by (metis option.inject)
qed

text \<open>
  C35. Connections of gRPC do not leak: when no call is under way, those that are open are just the ones that are shared.
\<close>

theorem grpc_no_leak:
  assumes "grpc_conns s" and quiet: "\<forall>t service c. lz_pc s t \<noteq> LMade service c"
  shows "{c. c < lz_made s \<and> c \<notin> lz_closed s} = ran (lz_inst s)"
proof (intro set_eqI iffI)
  fix c assume "c \<in> {c. c < lz_made s \<and> c \<notin> lz_closed s}"
  then show "c \<in> ran (lz_inst s)"
    using grpc_kept [OF assms(1)] quiet unfolding lazy_kept_def ran_def by blast
next
  fix c assume "c \<in> ran (lz_inst s)"
  then show "c \<in> {c. c < lz_made s \<and> c \<notin> lz_closed s}"
    using lazy_invariant [OF assms(1)] unfolding lazy_inv_def ran_def by blast
qed

text \<open>Two goroutines miss the client of one service, both make one and the second takes the first one's.\<close>

definition two_missed :: lazy_sys where
  "two_missed = \<lparr>lz_inst = [''s'' \<mapsto> 0], lz_pc = (\<lambda>_. LIdle)(0 := LDone ''s'' 0, 1 := LDone ''s'' 0), lz_made = 2, lz_closed = {1}\<rparr>"

lemma two_missed_reachable: "grpc_conns two_missed"
proof -
  have m1: "lazy_step True lazy_start \<lparr>lz_inst = Map.empty, lz_pc = (\<lambda>_. LIdle)(0 := LMissed ''s''), lz_made = 0, lz_closed = {}\<rparr>"
    using lazy_step.miss [of lazy_start 0 "''s''" True] by (simp add: lazy_start_def)
  have m2: "lazy_step True \<dots> \<lparr>lz_inst = Map.empty, lz_pc = (\<lambda>_. LIdle)(0 := LMissed ''s'', 1 := LMissed ''s''), lz_made = 0, lz_closed = {}\<rparr>"
    using lazy_step.miss [of "\<lparr>lz_inst = Map.empty, lz_pc = (\<lambda>_. LIdle)(0 := LMissed ''s''), lz_made = 0, lz_closed = {}\<rparr>" 1 "''s''" True] by simp
  have m3: "lazy_step True \<dots> \<lparr>lz_inst = Map.empty, lz_pc = (\<lambda>_. LIdle)(0 := LMade ''s'' 0, 1 := LMissed ''s''), lz_made = 1, lz_closed = {}\<rparr>"
    using lazy_step.make_one [of "\<lparr>lz_inst = Map.empty, lz_pc = (\<lambda>_. LIdle)(0 := LMissed ''s'', 1 := LMissed ''s''), lz_made = 0, lz_closed = {}\<rparr>" 0 "''s''" True]
    by (simp add: fun_upd_twist)
  have m4: "lazy_step True \<dots> \<lparr>lz_inst = Map.empty, lz_pc = (\<lambda>_. LIdle)(0 := LMade ''s'' 0, 1 := LMade ''s'' 1), lz_made = 2, lz_closed = {}\<rparr>"
    using lazy_step.make_one [of "\<lparr>lz_inst = Map.empty, lz_pc = (\<lambda>_. LIdle)(0 := LMade ''s'' 0, 1 := LMissed ''s''), lz_made = 1, lz_closed = {}\<rparr>" 1 "''s''" True]
    by (simp add: numeral_2_eq_2)
  have m5: "lazy_step True \<dots> \<lparr>lz_inst = [''s'' \<mapsto> 0], lz_pc = (\<lambda>_. LIdle)(0 := LDone ''s'' 0, 1 := LMade ''s'' 1), lz_made = 2, lz_closed = {}\<rparr>"
    using lazy_step.store [of "\<lparr>lz_inst = Map.empty, lz_pc = (\<lambda>_. LIdle)(0 := LMade ''s'' 0, 1 := LMade ''s'' 1), lz_made = 2, lz_closed = {}\<rparr>" 0 "''s''" 0 True]
    by (simp add: fun_upd_twist)
  have m6: "lazy_step True \<dots> two_missed"
    using lazy_step.lost [of "\<lparr>lz_inst = [''s'' \<mapsto> 0], lz_pc = (\<lambda>_. LIdle)(0 := LDone ''s'' 0, 1 := LMade ''s'' 1), lz_made = 2, lz_closed = {}\<rparr>" 1 "''s''" 1 0 True]
    by (simp add: two_missed_def)
  show ?thesis using m1 m2 m3 m4 m5 m6 by (meson r_into_rtranclp rtranclp_trans)
qed

lemma one_client_per_service_witness: "(0 :: nat) = 0 \<longleftrightarrow> ''s'' = ''s''"
  using one_client_per_service [OF two_missed_reachable, of 0 "''s''" 0 two_missed 1 "''s''" 0] by (simp add: two_missed_def)

lemma grpc_no_leak_witness: "{c. c < lz_made two_missed \<and> c \<notin> lz_closed two_missed} = {0}"
proof -
  have "{c. c < lz_made two_missed \<and> c \<notin> lz_closed two_missed} = ran (lz_inst two_missed)"
    by (rule grpc_no_leak [OF two_missed_reachable]) (simp add: two_missed_def)
  then show ?thesis by (simp add: two_missed_def)
qed

end
