(* ===== verification/Obs_Path.thy ===== *)
theory Obs_Path
  imports Go_Strings
begin

text \<open>
  Paths of objects and of files: the helpers of \<open>obsx/tools.go\<close> and what \<open>obsx\<close> uses of the package
  \<open>path/filepath\<close> of Go on a system whose paths are separated by a slash.
\<close>

abbreviation slash :: char where "slash \<equiv> CHR 0x2F"
abbreviation DirSuffix :: string where "DirSuffix \<equiv> [slash]"

section \<open>Trimming and cutting\<close>

text \<open>\<open>strings.TrimRight\<close> and \<open>strings.Trim\<close> with the cut set of one slash, \<open>strings.TrimPrefix\<close>, and
  \<open>strings.SplitN(s, sep, 2)\<close> as the part up to the first separator and the part after it, if there is one.\<close>

definition trim_right :: "string \<Rightarrow> string" where
  "trim_right s = rev (dropWhile (\<lambda>c. c = slash) (rev s))"

definition trim_slashes :: "string \<Rightarrow> string" where
  "trim_slashes s = trim_right (dropWhile (\<lambda>c. c = slash) s)"

definition trim_prefix :: "string \<Rightarrow> string \<Rightarrow> string" where
  "trim_prefix s p = (if has_prefix s p then drop (length p) s else s)"

fun cut_at :: "string \<Rightarrow> string \<Rightarrow> (string \<times> string) option" where
  "cut_at sep [] = (if sep = [] then Some ([], []) else None)"
| "cut_at sep (x # xs) =
     (if has_prefix (x # xs) sep then Some ([], drop (length sep) (x # xs))
      else map_option (\<lambda>(a, b). (x # a, b)) (cut_at sep xs))"

text \<open>The key of a directory, \<open>strings.TrimRight(prefix, DirSuffix) + DirSuffix\<close>.\<close>

definition dir_key :: "string \<Rightarrow> string" where
  "dir_key prefix = trim_right prefix @ DirSuffix"

section \<open>The helpers for object paths\<close>

definition scheme_sep :: string where "scheme_sep = '':'' @ [slash, slash]"

definition ParseOBSPath :: "string \<Rightarrow> string \<times> string \<times> string" where
  "ParseOBSPath path =
     (case cut_at scheme_sep (trim_slashes path) of
        None \<Rightarrow> ([], [], [])
      | Some (protocol, rest) \<Rightarrow>
          (case cut_at [slash] rest of
             None \<Rightarrow> (protocol, rest, [])
           | Some (bucket, key) \<Rightarrow>
               (protocol, bucket,
                if key = [] then [] else if has_suffix key [slash] then key else key @ [slash])))"

definition SpliceOBSContentKey :: "string \<Rightarrow> string \<Rightarrow> string" where
  "SpliceOBSContentKey prefix suffix =
     (if suffix = [] \<or> suffix = [slash] then prefix
      else trim_slashes prefix @ [slash] @ trim_slashes suffix @ [slash])"

definition SpliceOBSFileKey :: "string \<Rightarrow> string \<Rightarrow> string" where
  "SpliceOBSFileKey prefix fileName = trim_slashes prefix @ [slash] @ fileName"

definition SpliceOBSFileKeyBySlice :: "string list \<Rightarrow> string" where
  "SpliceOBSFileKeyBySlice contents = join [slash] contents @ [slash]"

definition TrimOBSKeyByPrefix :: "string \<Rightarrow> string \<Rightarrow> string" where
  "TrimOBSKeyByPrefix key contentPrefix =
     trim_prefix (trim_prefix (trim_prefix key [slash]) (trim_prefix contentPrefix [slash])) [slash]"

definition StandardizeOBSPath :: "string \<Rightarrow> string" where
  "StandardizeOBSPath path =
     (if path = [] then path
      else if \<not> contains path scheme_sep then []
      else trim_suffix path [slash] @ [slash])"

section \<open>File names\<close>

text \<open>
  \<open>filepath.Clean\<close> goes through the parts of a path with a stack; a path is rooted when it starts
  with a slash. \<open>clean_parts\<close> is the stack at the end.
\<close>

definition dots :: string where "dots = ''..''"

definition rooted :: "string \<Rightarrow> bool" where
  "rooted p \<longleftrightarrow> has_prefix p [slash]"

definition clean_step :: "bool \<Rightarrow> string list \<Rightarrow> string \<Rightarrow> string list" where
  "clean_step root stack part =
     (if part = [] \<or> part = ''.'' then stack
      else if part = dots then
        (if stack \<noteq> [] \<and> last stack \<noteq> dots then butlast stack
         else if root then stack
         else stack @ [dots])
      else stack @ [part])"

definition clean_parts :: "string \<Rightarrow> string list" where
  "clean_parts p = foldl (clean_step (rooted p)) [] (split_char slash p)"

definition from_parts :: "bool \<Rightarrow> string list \<Rightarrow> string" where
  "from_parts root parts =
     (if root then slash # join [slash] parts else if parts = [] then ''.'' else join [slash] parts)"

definition Clean :: "string \<Rightarrow> string" where
  "Clean p = from_parts (rooted p) (clean_parts p)"

text \<open>\<open>filepath.Join\<close> of two parts leaves out an empty one in front.\<close>

definition Join :: "string \<Rightarrow> string \<Rightarrow> string" where
  "Join a b = (if a \<noteq> [] then Clean (a @ [slash] @ b) else if b \<noteq> [] then Clean b else [])"

text \<open>\<open>filepath.Rel\<close>: \<open>None\<close> is its error.\<close>

fun strip_common :: "string list \<Rightarrow> string list \<Rightarrow> string list \<times> string list" where
  "strip_common (x # xs) (y # ys) = (if x = y then strip_common xs ys else (x # xs, y # ys))"
| "strip_common xs ys = (xs, ys)"

definition Rel :: "string \<Rightarrow> string \<Rightarrow> string option" where
  "Rel base targ =
     (if rooted (Clean base) \<noteq> rooted (Clean targ) then None
      else case strip_common (clean_parts base) (clean_parts targ) of
             ([], []) \<Rightarrow> Some ''.''
           | (b # bs, rest) \<Rightarrow>
               if b = dots then None
               else Some (join [slash] (map (\<lambda>_. dots) (b # bs) @ rest))
           | ([], rest) \<Rightarrow> Some (join [slash] rest))"

definition IsLocal :: "string \<Rightarrow> bool" where
  "IsLocal path \<longleftrightarrow>
     \<not> rooted path \<and> path \<noteq> [] \<and>
     (let p = (if ''.'' \<in> set (split_char slash path) \<or> dots \<in> set (split_char slash path)
               then Clean path else path)
      in p \<noteq> dots \<and> \<not> has_prefix p (dots @ [slash]))"

text \<open>\<open>filepath.Dir\<close>: everything up to the last slash, cleaned.\<close>

definition Dir :: "string \<Rightarrow> string" where
  "Dir path = Clean (rev (dropWhile (\<lambda>c. c \<noteq> slash) (rev path)))"

text \<open>A path lies inside a directory: the parts of the directory, and then others that do not lead out of it.\<close>

definition inside :: "string \<Rightarrow> string \<Rightarrow> bool" where
  "inside dir p \<longleftrightarrow>
     (rooted p \<longleftrightarrow> rooted dir) \<and> (\<exists>rest. clean_parts p = clean_parts dir @ rest \<and> dots \<notin> set rest)"


section \<open>Cutting and trimming\<close>

lemma trim_prefix_append [simp]: "trim_prefix (p @ s) p = s"
  by (simp add: trim_prefix_def)

lemma trim_prefix_has: "has_prefix s p \<Longrightarrow> p @ trim_prefix s p = s"
  by (auto simp: has_prefix_iff)

lemma trim_right_append: "t \<noteq> [] \<Longrightarrow> last t \<noteq> slash \<Longrightarrow> trim_right (s @ t) = s @ t"
  by (cases t rule: rev_cases) (simp_all add: trim_right_def)

lemma trim_right_slashes: "trim_right (s @ replicate n slash) = trim_right s"
  by (induction n) (simp_all add: trim_right_def dropWhile_append)

lemma trim_right_end: "trim_right s = [] \<or> last (trim_right s) \<noteq> slash"
proof (cases "dropWhile (\<lambda>c. c = slash) (rev s)")
  case Nil
  then show ?thesis by (simp add: trim_right_def)
next
  case (Cons c cs)
  then have "c \<noteq> slash" by (simp add: dropWhile_eq_Cons_conv)
  then show ?thesis by (simp add: trim_right_def Cons)
qed

lemma dir_key_suffix [simp]: "has_suffix (dir_key p) DirSuffix"
  by (auto simp: dir_key_def has_suffix_iff)

lemma trim_right_trimmed: "s = [] \<or> last s \<noteq> slash \<Longrightarrow> trim_right s = s"
  by (cases s rule: rev_cases) (simp_all add: trim_right_def)

lemma dir_key_idem [simp]: "dir_key (dir_key p) = dir_key p"
  using trim_right_slashes [of "trim_right p" "Suc 0"] trim_right_trimmed [OF trim_right_end [of p]]
  by (simp add: dir_key_def)

lemma cut_at_first: "sep = c # cs \<Longrightarrow> c \<notin> set a \<Longrightarrow> cut_at sep (a @ sep @ b) = Some (a, b)"
  by (induction a) auto

lemma cut_at_none: "c \<notin> set a \<Longrightarrow> cut_at (c # cs) a = None"
  by (induction a) auto

section \<open>Cleaned paths\<close>

definition cleaned :: "bool \<Rightarrow> string list \<Rightarrow> bool" where
  "cleaned root ps \<longleftrightarrow>
     (\<forall>p\<in>set ps. p \<noteq> [] \<and> p \<noteq> ''.'' \<and> slash \<notin> set p) \<and>
     dots \<notin> set (dropWhile (\<lambda>p. p = dots) ps) \<and> (root \<longrightarrow> dots \<notin> set ps)"

lemma cleaned_Nil [simp]: "cleaned root []"
  by (simp add: cleaned_def)

lemma dots_not_in_rest: "dots \<notin> set (dropWhile (\<lambda>p. p = dots) (xs @ [y])) \<longleftrightarrow>
    dots \<notin> set (dropWhile (\<lambda>p. p = dots) xs) \<and> (y = dots \<longrightarrow> (\<forall>x\<in>set xs. x = dots))"
  by (induction xs) auto

lemma cleaned_snoc: "cleaned root (ps @ [p]) \<longleftrightarrow>
    cleaned root ps \<and> p \<noteq> [] \<and> p \<noteq> ''.'' \<and> slash \<notin> set p \<and> (p = dots \<longrightarrow> \<not> root \<and> (\<forall>x\<in>set ps. x = dots))"
  by (auto simp: cleaned_def dots_not_in_rest)

lemma cleaned_last: "cleaned root ps \<Longrightarrow> ps = [] \<or> last ps = dots \<Longrightarrow> \<forall>x\<in>set ps. x = dots"
  by (cases ps rule: rev_cases) (auto simp: cleaned_snoc)

lemma dots_part: "dots \<noteq> []" "dots \<noteq> ''.''" "slash \<notin> set dots"
  by (simp_all add: dots_def)

lemma cleaned_step:
  assumes "cleaned root ps" and "slash \<notin> set p"
  shows "cleaned root (clean_step root ps p)"
proof (cases "p = dots \<and> (ps = [] \<or> last ps = dots) \<and> \<not> root")
  case True
  then have "\<forall>x\<in>set ps. x = dots" using cleaned_last [OF assms(1)] by blast
  then show ?thesis using True assms dots_part by (auto simp: clean_step_def cleaned_snoc)
next
  case False
  have "cleaned root (butlast ps)"
    using assms(1) by (cases ps rule: rev_cases) (auto simp: cleaned_snoc)
  then show ?thesis using False assms by (auto simp: clean_step_def cleaned_snoc)
qed

lemma cleaned_fold: "cleaned root ps \<Longrightarrow> (\<And>p. p \<in> set qs \<Longrightarrow> slash \<notin> set p) \<Longrightarrow>
    cleaned root (foldl (clean_step root) ps qs)"
  by (induction qs arbitrary: ps) (simp_all add: cleaned_step)

lemma cleaned_parts: "cleaned (rooted p) (clean_parts p)"
  unfolding clean_parts_def by (rule cleaned_fold [OF cleaned_Nil]) (rule set_split_char)

lemma clean_fold_id: "cleaned root ps \<Longrightarrow> foldl (clean_step root) [] ps = ps"
proof (induction ps rule: rev_induct)
  case Nil
  then show ?case by simp
next
  case (snoc p ps)
  then have step: "foldl (clean_step root) [] ps = ps" and rest: "p = dots \<longrightarrow> \<not> root \<and> (\<forall>x\<in>set ps. x = dots)"
    "p \<noteq> []" "p \<noteq> ''.''"
    by (simp_all add: cleaned_snoc)
  have "p = dots \<Longrightarrow> ps = [] \<or> last ps = dots"
    using rest by (cases ps rule: rev_cases) auto
  then have "clean_step root ps p = ps @ [p]"
    using rest by (auto simp: clean_step_def)
  then show ?case using step by simp
qed

lemma rooted_join: "ps \<noteq> [] \<Longrightarrow> hd ps \<noteq> [] \<Longrightarrow> \<forall>p\<in>set ps. slash \<notin> set p \<Longrightarrow> \<not> rooted (join [slash] ps)"
proof (cases ps)
  case (Cons p qs)
  assume "hd ps \<noteq> []" and no: "\<forall>p\<in>set ps. slash \<notin> set p"
  with Cons obtain c cs where p: "p = c # cs" by (cases p) auto
  with no Cons have "c \<noteq> slash" by auto
  then show ?thesis using Cons p by (cases qs) (simp_all add: rooted_def)
qed simp

lemma cleaned_rooted_join: "cleaned root ps \<Longrightarrow> \<not> rooted (join [slash] ps)"
  using rooted_join [of ps] by (cases ps) (auto simp: cleaned_def rooted_def)

lemma rooted_from_parts:
  assumes "cleaned root ps"
  shows "rooted (from_parts root ps) = root"
  using cleaned_rooted_join [OF assms] by (auto simp: from_parts_def rooted_def)

lemma split_from_parts: "cleaned root ps \<Longrightarrow> ps \<noteq> [] \<Longrightarrow> split_char slash (join [slash] ps) = ps"
  by (rule split_join) (auto simp: cleaned_def)

lemma clean_parts_from_parts:
  assumes "cleaned root ps"
  shows "clean_parts (from_parts root ps) = ps"
proof (cases "ps = []")
  case True
  then show ?thesis by (cases root) (simp_all add: from_parts_def clean_parts_def clean_step_def rooted_def)
next
  case False
  have split: "split_char slash (join [slash] ps) = ps"
    by (rule split_from_parts [OF assms False])
  have fold: "foldl (clean_step root) [] ps = ps" by (rule clean_fold_id [OF assms])
  show ?thesis
  proof (cases root)
    case True
    have "clean_step root [] [] = []" by (simp add: clean_step_def)
    then show ?thesis using True fold split rooted_from_parts [OF assms]
      by (simp add: clean_parts_def from_parts_def)
  next
    case r: False
    then show ?thesis using False fold split rooted_from_parts [OF assms]
      by (simp add: clean_parts_def from_parts_def)
  qed
qed

lemma rooted_Clean [simp]: "rooted (Clean p) = rooted p"
  unfolding Clean_def by (rule rooted_from_parts [OF cleaned_parts])

lemma clean_parts_Clean [simp]: "clean_parts (Clean p) = clean_parts p"
  unfolding Clean_def by (rule clean_parts_from_parts [OF cleaned_parts])

lemma Clean_idem: "Clean (Clean p) = Clean p"
  by (simp add: Clean_def [of "Clean p"]) (simp add: Clean_def)


section \<open>Going into a directory\<close>

lemma strip_common_prefix: "strip_common xs ys = ([], rest) \<Longrightarrow> ys = xs @ rest"
  by (induction xs ys rule: strip_common.induct) (auto split: if_splits)

lemma strip_common_parts:
  "strip_common xs ys = (b, rest) \<Longrightarrow> set b \<subseteq> set xs \<and> set rest \<subseteq> set ys"
  by (induction xs ys rule: strip_common.induct) (auto split: if_splits)

lemma dots_rest_not_dots: "dots \<notin> set (dropWhile (\<lambda>p. p = dots) (xs @ ys)) \<Longrightarrow> ys = [] \<or> hd ys \<noteq> dots \<Longrightarrow> dots \<notin> set ys"
  by (induction xs) (cases ys, auto split: if_splits)

text \<open>A step of the cleaning never takes a leading \<open>..\<close> away, unless the path is rooted.\<close>

lemma dots_stay: "hd ps = dots \<Longrightarrow> ps \<noteq> [] \<Longrightarrow> hd (foldl (clean_step False) ps qs) = dots \<and> foldl (clean_step False) ps qs \<noteq> []"
proof (induction qs arbitrary: ps)
  case (Cons q qs)
  have "clean_step False ps q \<noteq> [] \<and> hd (clean_step False ps q) = dots"
    using Cons.prems by (cases ps rule: rev_cases) (auto simp: clean_step_def hd_append)
  then show ?case using Cons.IH by simp
qed simp

lemma dots_not_local:
  assumes "\<forall>p\<in>set qs. slash \<notin> set p"
  shows "\<not> IsLocal (join [slash] (dots # qs))"
proof -
  let ?p = "join [slash] (dots # qs)"
  have split: "split_char slash ?p = dots # qs"
    by (rule split_join) (use assms dots_part in auto)
  have unrooted: "\<not> rooted ?p"
    using assms dots_part by (intro rooted_join) auto
  have "clean_parts ?p = foldl (clean_step False) [dots] qs"
    using unrooted split dots_part by (simp add: clean_parts_def clean_step_def)
  then obtain rs where parts: "clean_parts ?p = dots # rs"
    using dots_stay [of "[dots]" qs] by (metis list.collapse list.sel(1) not_Cons_self2)
  have "Clean ?p = dots \<or> has_prefix (Clean ?p) (dots @ [slash])"
    using parts unrooted by (cases rs) (simp_all add: Clean_def from_parts_def has_prefix_def)
  then show ?thesis using split by (auto simp: IsLocal_def Let_def)
qed

text \<open>
  What \<open>FGetDirectory\<close> asks of the path of a file: if the way from the directory to it is local, the file is inside
  the directory.
\<close>

lemma local_is_inside:
  assumes "Rel (Clean dir) p = Some r" and "IsLocal r"
  shows "inside dir p"
proof -
  have root: "rooted p = rooted dir"
    using assms(1) by (simp add: Rel_def split: if_splits)
  have clean: "cleaned (rooted p) (clean_parts p)"
    by (rule cleaned_parts)
  obtain b rest where common: "strip_common (clean_parts dir) (clean_parts p) = (b, rest)"
    by (cases "strip_common (clean_parts dir) (clean_parts p)") auto
  have no_slash: "\<forall>q\<in>set rest. slash \<notin> set q"
    using strip_common_parts [OF common] clean by (auto simp: cleaned_def)
  show ?thesis
  proof (cases b)
    case Nil
    then have parts: "clean_parts p = clean_parts dir @ rest"
      using common strip_common_prefix by simp
    have "rest = [] \<or> hd rest \<noteq> dots"
    proof (rule ccontr)
      assume bad: "\<not> ?thesis"
      then obtain qs where qs: "rest = dots # qs" by (cases rest) auto
      then have "r = join [slash] (dots # qs)"
        using assms(1) common Nil by (simp add: Rel_def split: if_splits)
      moreover have "\<not> IsLocal (join [slash] (dots # qs))"
        by (rule dots_not_local) (use no_slash qs in auto)
      ultimately show False using assms(2) by simp
    qed
    then have "dots \<notin> set rest"
      using clean unfolding parts cleaned_def by (elim conjE) (rule dots_rest_not_dots)
    then show ?thesis using root parts by (simp add: inside_def)
  next
    case (Cons x xs)
    then have "r = join [slash] (map (\<lambda>_. dots) (x # xs) @ rest)"
      using assms(1) common by (auto simp: Rel_def split: if_splits)
    moreover have "\<not> IsLocal (join [slash] (dots # (map (\<lambda>_. dots) xs @ rest)))"
      by (rule dots_not_local) (use no_slash dots_part in auto)
    ultimately show ?thesis using assms(2) by simp
  qed
qed

section \<open>Object paths\<close>

lemma trim_slashes_ends:
  "s \<noteq> [] \<Longrightarrow> hd s \<noteq> slash \<Longrightarrow> last s \<noteq> slash \<Longrightarrow> trim_slashes s = s"
  by (cases s) (simp_all add: trim_slashes_def trim_right_trimmed)

lemma trim_slashes_right:
  "s \<noteq> [] \<Longrightarrow> hd s \<noteq> slash \<Longrightarrow> last s \<noteq> slash \<Longrightarrow> trim_slashes (s @ replicate n slash) = s"
  using trim_right_slashes [of s n] trim_right_trimmed [of s] by (cases s) (simp_all add: trim_slashes_def)

text \<open>
  An object path is read back into its protocol, its bucket and its key, the key as that of a directory, however
  many slashes stand at its end and whether or not it was standardized first.
\<close>

theorem obs_path_roundtrip:
  assumes "protocol \<noteq> []" and "slash \<notin> set protocol" and "CHR '':'' \<notin> set protocol"
    and "bucket \<noteq> []" and "slash \<notin> set bucket" and "key \<noteq> []" and "last key \<noteq> slash"
  shows "ParseOBSPath (protocol @ scheme_sep @ bucket @ replicate m slash) = (protocol, bucket, []) \<and>
    ParseOBSPath (protocol @ scheme_sep @ bucket @ [slash] @ key @ replicate m slash) = (protocol, bucket, key @ [slash]) \<and>
    ParseOBSPath (StandardizeOBSPath (protocol @ scheme_sep @ bucket @ [slash] @ key)) = (protocol, bucket, key @ [slash])"
proof (intro conjI)
  have hd: "hd (protocol @ rest) \<noteq> slash" for rest
    using assms(1,2) by (cases protocol) auto
  have cut: "cut_at scheme_sep (protocol @ scheme_sep @ rest) = Some (protocol, rest)" for rest
    by (rule cut_at_first [OF _ assms(3)]) (simp add: scheme_sep_def)
  have bucket: "cut_at [slash] bucket = None" "cut_at [slash] (bucket @ [slash] @ key) = Some (bucket, key)"
    using cut_at_none [OF assms(5)] cut_at_first [OF refl assms(5)] by blast+
  have "last bucket \<noteq> slash" using assms(4,5) last_in_set by fastforce
  then have trim: "trim_slashes ((protocol @ scheme_sep @ bucket) @ replicate m slash) = protocol @ scheme_sep @ bucket"
    by (intro trim_slashes_right hd) (use assms in simp_all)
  show "ParseOBSPath (protocol @ scheme_sep @ bucket @ replicate m slash) = (protocol, bucket, [])"
    using trim cut [of bucket] bucket(1) by (simp add: ParseOBSPath_def)
  have whole: "ParseOBSPath (protocol @ scheme_sep @ bucket @ [slash] @ key @ replicate m slash) = (protocol, bucket, key @ [slash])" for m
  proof -
    have "trim_slashes ((protocol @ scheme_sep @ bucket @ [slash] @ key) @ replicate m slash) = protocol @ scheme_sep @ bucket @ [slash] @ key"
      by (intro trim_slashes_right hd) (use assms in simp_all)
    moreover have "\<not> has_suffix key [slash]" using assms(7) by (auto simp: has_suffix_iff)
    ultimately show ?thesis
      using cut [of "bucket @ [slash] @ key"] bucket(2) assms(6) by (simp add: ParseOBSPath_def)
  qed
  show "ParseOBSPath (protocol @ scheme_sep @ bucket @ [slash] @ key @ replicate m slash) = (protocol, bucket, key @ [slash])"
    by (rule whole)
  let ?p = "protocol @ scheme_sep @ bucket @ [slash] @ key"
  have "contains ?p scheme_sep" by (auto simp: contains_iff)
  moreover have "trim_suffix ?p [slash] = ?p"
    using assms(6,7) by (cases key rule: rev_cases) (auto simp: trim_suffix_def has_suffix_def)
  ultimately have "StandardizeOBSPath ?p = protocol @ scheme_sep @ bucket @ [slash] @ key @ replicate (Suc 0) slash"
    using assms(1) by (simp add: StandardizeOBSPath_def)
  then show "ParseOBSPath (StandardizeOBSPath ?p) = (protocol, bucket, key @ [slash])"
    by (simp only: whole)
qed

theorem obs_path_roundtrip_witness:
  "ParseOBSPath (''obs'' @ scheme_sep @ ''b'' @ [slash] @ ''a.csv'' @ replicate 2 slash) = (''obs'', ''b'', ''a.csv'' @ [slash])"
  using obs_path_roundtrip [of "''obs''" "''b''" "''a.csv''" 2] by simp

text \<open>The name of a file is what is left of its key when the prefix of the directory is taken away.\<close>

lemma splice_trim:
  assumes "trim_slashes prefix = prefix" and "\<not> has_prefix fileName [slash]"
  shows "TrimOBSKeyByPrefix (SpliceOBSFileKey prefix fileName) prefix = fileName"
proof (cases prefix)
  case Nil
  then show ?thesis using assms by (simp add: TrimOBSKeyByPrefix_def SpliceOBSFileKey_def trim_prefix_def)
next
  case (Cons c cs)
  have "c \<noteq> slash"
  proof
    assume "c = slash"
    then have "length (trim_slashes prefix) \<le> length (dropWhile (\<lambda>c. c = slash) cs)"
      using Cons by (simp add: trim_slashes_def trim_right_def) (metis length_dropWhile_le length_rev)
    moreover have "length (dropWhile (\<lambda>c. c = slash) cs) \<le> length cs" by (rule length_dropWhile_le)
    ultimately show False using assms(1) Cons by simp
  qed
  then have "trim_prefix (prefix @ [slash] @ fileName) [slash] = prefix @ [slash] @ fileName" "trim_prefix prefix [slash] = prefix"
    using Cons by (simp_all add: trim_prefix_def)
  then show ?thesis using assms by (simp add: TrimOBSKeyByPrefix_def SpliceOBSFileKey_def trim_prefix_append [of "[slash]" fileName, simplified])
qed

text \<open>The prefix is taken away byte by byte: of a longer first part a piece is left.\<close>

lemma trim_prefix_splits_name:
  "TrimOBSKeyByPrefix (''mazhen04'' @ [slash] @ ''a.py'') ''mazhen0'' = ''4'' @ [slash] @ ''a.py''"
  by code_simp

end
