(* ===== verification/Obs.thy ===== *)
theory Obs
  imports Obs_Path "HOL-Library.AList"
begin

text \<open>
  The package \<open>obsx\<close>: the configuration and the client of an object store, the operator that keeps several of them,
  and its operations on objects, directories and local files. The library of the vendor is an argument, the record
  \<open>minio\<close> of its calls over a state of any type; a call returns the state after it. What the operations need to know
  of it is the predicate \<open>lawful\<close>.
\<close>

section \<open>Errors and configuration\<close>

text \<open>An error of the library or of the system, and one with a text in front of another.\<close>

datatype obs_err =
    ErrConfigIsNil | ErrEndpointIsEmpty | ErrAccessKeyIsEmpty | ErrSecretKeyIsEmpty
  | ErrClientNotFound | ErrOperatorClosed | ErrBucketEmpty
  | Vendor string
  | Wrapped string obs_err
  | Escapes string string
  | CloseErrors "obs_err list"

record obs_config =
  oc_Name :: string
  oc_Endpoint :: string
  oc_Region :: string
  oc_AccessKey :: string
  oc_SecretKey :: string
  oc_Bucket :: string
  oc_InsecureSkipVerify :: bool
  oc_MaxRetries :: int
  oc_Timeout :: int

definition DefaultMaxRetries :: nat where "DefaultMaxRetries = 3"
definition DefaultTimeout :: int where "DefaultTimeout = 30"

definition obs_Validate :: "obs_config option \<Rightarrow> obs_err + obs_config" where
  "obs_Validate c =
     (case c of
        None \<Rightarrow> Inl ErrConfigIsNil
      | Some c \<Rightarrow>
          if oc_Endpoint c = [] then Inl ErrEndpointIsEmpty
          else if oc_AccessKey c = [] then Inl ErrAccessKeyIsEmpty
          else if oc_SecretKey c = [] then Inl ErrSecretKeyIsEmpty
          else Inr (c\<lparr>oc_MaxRetries := if oc_MaxRetries c \<le> 0 then int DefaultMaxRetries else oc_MaxRetries c,
                      oc_Timeout := if oc_Timeout c \<le> 0 then DefaultTimeout else oc_Timeout c,
                      oc_Name := if oc_Name c = [] then oc_Endpoint c else oc_Name c\<rparr>))"

section \<open>Clients\<close>

text \<open>What a listing delivers, and the bytes of an object with the error its body ends in, if it does.\<close>

record ObjectInfo =
  oi_Key :: string
  oi_Size :: int
  oi_LastModified :: int
  oi_ETag :: string
  oi_ContentType :: string
  oi_StorageClass :: string
  oi_IsDir :: bool
  oi_Err :: "obs_err option"

record BucketInfo =
  bi_Name :: string
  bi_CreationDate :: int

record ListOptions =
  lo_Prefix :: string
  lo_Recursive :: bool
  lo_MaxKeys :: int
  lo_StartAfter :: string

type_synonym obs_body = "string \<times> obs_err option"

text \<open>
  The calls of the library. A put is given the bytes the reader still has and returns how many of them it took.
  \<open>ctx_seen\<close> is not a call: it says after how many items a goroutine that passes items on sees the end of the
  context, and is \<open>None\<close> when the context does not end before the last of them.
\<close>

record 'w minio =
  sdk_BucketExists :: "string \<Rightarrow> 'w \<Rightarrow> 'w \<times> (obs_err + bool)"
  sdk_MakeBucket :: "string \<Rightarrow> string \<Rightarrow> 'w \<Rightarrow> 'w \<times> obs_err option"
  sdk_RemoveBucket :: "string \<Rightarrow> 'w \<Rightarrow> 'w \<times> obs_err option"
  sdk_ListBuckets :: "'w \<Rightarrow> 'w \<times> (obs_err + BucketInfo list)"
  sdk_PutObject :: "string \<Rightarrow> string \<Rightarrow> string \<Rightarrow> int \<Rightarrow> string \<Rightarrow> 'w \<Rightarrow> 'w \<times> nat \<times> obs_err option"
  sdk_GetObject :: "string \<Rightarrow> string \<Rightarrow> 'w \<Rightarrow> 'w \<times> (obs_err + obs_body \<times> (obs_err + ObjectInfo))"
  sdk_RemoveObject :: "string \<Rightarrow> string \<Rightarrow> 'w \<Rightarrow> 'w \<times> obs_err option"
  sdk_RemoveObjects :: "string \<Rightarrow> string list \<Rightarrow> 'w \<Rightarrow> 'w \<times> (string \<times> obs_err option) list"
  sdk_CopyObject :: "string \<Rightarrow> string \<Rightarrow> string \<Rightarrow> string \<Rightarrow> 'w \<Rightarrow> 'w \<times> obs_err option"
  sdk_StatObject :: "string \<Rightarrow> string \<Rightarrow> 'w \<Rightarrow> 'w \<times> (obs_err + ObjectInfo)"
  sdk_ListObjects :: "string \<Rightarrow> ListOptions \<Rightarrow> 'w \<Rightarrow> 'w \<times> ObjectInfo list"
  sdk_PresignedGetObject :: "string \<Rightarrow> string \<Rightarrow> int \<Rightarrow> 'w \<Rightarrow> 'w \<times> (obs_err + string)"
  sdk_PresignedPutObject :: "string \<Rightarrow> string \<Rightarrow> int \<Rightarrow> 'w \<Rightarrow> 'w \<times> (obs_err + string)"
  ctx_seen :: "'w \<Rightarrow> nat option"

text \<open>The interface \<open>Client\<close>, which the operator works with.\<close>

record 'w Client =
  cl_BucketExists :: "string \<Rightarrow> 'w \<Rightarrow> 'w \<times> (obs_err + bool)"
  cl_MakeBucket :: "string \<Rightarrow> string \<Rightarrow> 'w \<Rightarrow> 'w \<times> obs_err option"
  cl_RemoveBucket :: "string \<Rightarrow> 'w \<Rightarrow> 'w \<times> obs_err option"
  cl_ListBuckets :: "'w \<Rightarrow> 'w \<times> (obs_err + BucketInfo list)"
  cl_PutObject :: "string \<Rightarrow> string \<Rightarrow> string \<Rightarrow> int \<Rightarrow> string \<Rightarrow> 'w \<Rightarrow> 'w \<times> nat \<times> obs_err option"
  cl_GetObject :: "string \<Rightarrow> string \<Rightarrow> 'w \<Rightarrow> 'w \<times> (obs_err + obs_body \<times> ObjectInfo)"
  cl_RemoveObject :: "string \<Rightarrow> string \<Rightarrow> 'w \<Rightarrow> 'w \<times> obs_err option"
  cl_RemoveObjects :: "string \<Rightarrow> string list \<Rightarrow> 'w \<Rightarrow> 'w \<times> (string \<times> obs_err option) list"
  cl_CopyObject :: "string \<Rightarrow> string \<Rightarrow> string \<Rightarrow> string \<Rightarrow> 'w \<Rightarrow> 'w \<times> obs_err option"
  cl_StatObject :: "string \<Rightarrow> string \<Rightarrow> 'w \<Rightarrow> 'w \<times> (obs_err + ObjectInfo)"
  cl_ListObjects :: "string \<Rightarrow> ListOptions \<Rightarrow> 'w \<Rightarrow> 'w \<times> ObjectInfo list"
  cl_PresignedGetObject :: "string \<Rightarrow> string \<Rightarrow> int \<Rightarrow> 'w \<Rightarrow> 'w \<times> (obs_err + string)"
  cl_PresignedPutObject :: "string \<Rightarrow> string \<Rightarrow> int \<Rightarrow> 'w \<Rightarrow> 'w \<times> (obs_err + string)"
  cl_Close :: "'w \<Rightarrow> 'w \<times> obs_err option"

text \<open>
  The client over the library. The fields of an \<open>ObjectInfo\<close> are copied from the one of the library, except that a
  stat leaves \<open>IsDir\<close> unset and a listing sets it by the key. An item with an error has no other field set.
\<close>

definition plain_info :: "ObjectInfo \<Rightarrow> ObjectInfo" where
  "plain_info i = i\<lparr>oi_IsDir := False, oi_Err := None\<rparr>"

definition listed_info :: "ObjectInfo \<Rightarrow> ObjectInfo" where
  "listed_info i =
     (case oi_Err i of
        Some e \<Rightarrow> \<lparr>oi_Key = [], oi_Size = 0, oi_LastModified = 0, oi_ETag = [], oi_ContentType = [],
                   oi_StorageClass = [], oi_IsDir = False, oi_Err = Some e\<rparr>
      | None \<Rightarrow> i\<lparr>oi_IsDir := has_suffix (oi_Key i) DirSuffix\<rparr>)"

definition passed_on :: "nat option \<Rightarrow> 'a list \<Rightarrow> 'a list" where
  "passed_on seen xs = (case seen of None \<Rightarrow> xs | Some n \<Rightarrow> take n xs)"

definition minio_GetObject :: "'w minio \<Rightarrow> string \<Rightarrow> string \<Rightarrow> 'w \<Rightarrow> 'w \<times> (obs_err + obs_body \<times> ObjectInfo)" where
  "minio_GetObject m bucket key w =
     (case sdk_GetObject m bucket key w of
        (w', Inl e) \<Rightarrow> (w', Inl e)
      | (w', Inr (body, Inl e)) \<Rightarrow> (w', Inl e)
      | (w', Inr (body, Inr stat)) \<Rightarrow> (w', Inr (body, plain_info stat)))"

definition minio_RemoveObjects :: "'w minio \<Rightarrow> string \<Rightarrow> string list \<Rightarrow> 'w \<Rightarrow> 'w \<times> (string \<times> obs_err option) list" where
  "minio_RemoveObjects m bucket keys w = sdk_RemoveObjects m bucket (passed_on (ctx_seen m w) keys) w"

definition minio_StatObject :: "'w minio \<Rightarrow> string \<Rightarrow> string \<Rightarrow> 'w \<Rightarrow> 'w \<times> (obs_err + ObjectInfo)" where
  "minio_StatObject m bucket key w =
     (case sdk_StatObject m bucket key w of
        (w', Inl e) \<Rightarrow> (w', Inl e)
      | (w', Inr stat) \<Rightarrow> (w', Inr (plain_info stat)))"

definition minio_ListObjects :: "'w minio \<Rightarrow> string \<Rightarrow> ListOptions \<Rightarrow> 'w \<Rightarrow> 'w \<times> ObjectInfo list" where
  "minio_ListObjects m bucket opts w =
     (case sdk_ListObjects m bucket opts w of
        (w', items) \<Rightarrow> (w', passed_on (ctx_seen m w) (map listed_info items)))"

definition minioClient :: "'w minio \<Rightarrow> 'w Client" where
  "minioClient m =
     \<lparr>cl_BucketExists = sdk_BucketExists m, cl_MakeBucket = sdk_MakeBucket m, cl_RemoveBucket = sdk_RemoveBucket m,
      cl_ListBuckets = sdk_ListBuckets m, cl_PutObject = sdk_PutObject m, cl_GetObject = minio_GetObject m,
      cl_RemoveObject = sdk_RemoveObject m, cl_RemoveObjects = minio_RemoveObjects m, cl_CopyObject = sdk_CopyObject m,
      cl_StatObject = minio_StatObject m, cl_ListObjects = minio_ListObjects m,
      cl_PresignedGetObject = sdk_PresignedGetObject m, cl_PresignedPutObject = sdk_PresignedPutObject m,
      cl_Close = (\<lambda>w. (w, None))\<rparr>"

text \<open>
  The options a client of the library is made with. \<open>url_parse\<close> is \<open>url.Parse\<close>, its scheme and host, if it succeeds;
  the time-out is in seconds.
\<close>

record minio_options =
  mo_AccessKey :: string
  mo_SecretKey :: string
  mo_Region :: string
  mo_Secure :: bool
  mo_InsecureSkipVerify :: bool
  mo_ResponseHeaderTimeout :: int
  mo_MaxRetries :: int

definition minio_endpoint :: "(string \<Rightarrow> (string \<times> string) option) \<Rightarrow> string \<Rightarrow> string \<times> bool" where
  "minio_endpoint url_parse endpoint =
     (case url_parse endpoint of
        Some (scheme, host) \<Rightarrow>
          if scheme \<noteq> [] \<and> host \<noteq> [] then (host, scheme = ''https'') else (endpoint, False)
      | None \<Rightarrow> (endpoint, False))"

definition newMinioClient ::
    "(string \<Rightarrow> (string \<times> string) option) \<Rightarrow> (bool \<Rightarrow> obs_err option) \<Rightarrow> (string \<Rightarrow> minio_options \<Rightarrow> obs_err + 'w minio)
     \<Rightarrow> obs_config \<Rightarrow> obs_err + 'w Client" where
  "newMinioClient url_parse transport minio_New cfg =
     (let (endpoint, secure) = minio_endpoint url_parse (oc_Endpoint cfg)
      in case transport secure of
           Some e \<Rightarrow> Inl (Wrapped ''create minio transport'' e)
         | None \<Rightarrow>
             (case minio_New endpoint
                \<lparr>mo_AccessKey = oc_AccessKey cfg, mo_SecretKey = oc_SecretKey cfg, mo_Region = oc_Region cfg,
                 mo_Secure = secure, mo_InsecureSkipVerify = oc_InsecureSkipVerify cfg,
                 mo_ResponseHeaderTimeout = oc_Timeout cfg, mo_MaxRetries = oc_MaxRetries cfg\<rparr> of
                Inl e \<Rightarrow> Inl (Wrapped ''create minio client'' e)
              | Inr m \<Rightarrow> Inr (minioClient m)))"

section \<open>The operator\<close>

text \<open>
  The map of clients is an association list in the order Go ranges over it, which is any. The operations of the
  registry run under the lock of the operator, each as one step.
\<close>

record 'w Operator =
  op_clients :: "(string \<times> 'w Client) list"
  op_defaultName :: string
  op_closed :: bool

definition RegisterClient :: "(obs_config \<Rightarrow> obs_err + 'w Client) \<Rightarrow> obs_config option \<Rightarrow> 'w Operator \<Rightarrow> 'w Operator \<times> obs_err option" where
  "RegisterClient connect cfg op =
     (case obs_Validate cfg of
        Inl e \<Rightarrow> (op, Some e)
      | Inr cfg \<Rightarrow>
          (case connect cfg of
             Inl e \<Rightarrow> (op, Some (Wrapped (''create obs client ['' @ oc_Name cfg @ ''] failed'') e))
           | Inr c \<Rightarrow>
               (op\<lparr>op_defaultName := if op_defaultName op = [] then oc_Name cfg else op_defaultName op,
                  op_clients := AList.update (oc_Name cfg) c (op_clients op)\<rparr>, None)))"

definition NewOperator :: "(obs_config \<Rightarrow> obs_err + 'w Client) \<Rightarrow> obs_config option \<Rightarrow> obs_err + 'w Operator" where
  "NewOperator connect cfg =
     (case obs_Validate cfg of
        Inl e \<Rightarrow> Inl e
      | Inr cfg \<Rightarrow>
          (case RegisterClient connect (Some cfg) \<lparr>op_clients = [], op_defaultName = [], op_closed = False\<rparr> of
             (op, Some e) \<Rightarrow> Inl e
           | (op, None) \<Rightarrow> Inr op))"

definition GetClient :: "'w Operator \<Rightarrow> string \<Rightarrow> obs_err + 'w Client" where
  "GetClient op name =
     (if op_closed op then Inl ErrOperatorClosed
      else if name = [] then
        (case map_of (op_clients op) (op_defaultName op) of
           Some c \<Rightarrow> Inr c
         | None \<Rightarrow> (case op_clients op of [] \<Rightarrow> Inl ErrClientNotFound | (n, c) # rest \<Rightarrow> Inr c))
      else (case map_of (op_clients op) name of None \<Rightarrow> Inl ErrClientNotFound | Some c \<Rightarrow> Inr c))"

definition RemoveClient :: "string \<Rightarrow> 'w Operator \<Rightarrow> 'w \<Rightarrow> 'w Operator \<times> 'w \<times> obs_err option" where
  "RemoveClient name op w =
     (case map_of (op_clients op) name of
        None \<Rightarrow> (op, w, None)
      | Some c \<Rightarrow>
          (case cl_Close c w of (w', e) \<Rightarrow> (op\<lparr>op_clients := AList.delete name (op_clients op)\<rparr>, w', e)))"

fun close_clients :: "(string \<times> 'w Client) list \<Rightarrow> 'w \<Rightarrow> 'w \<times> obs_err list" where
  "close_clients [] w = (w, [])"
| "close_clients ((name, c) # cs) w =
     (case cl_Close c w of
        (w', e) \<Rightarrow>
          (case close_clients cs w' of
             (w'', errs) \<Rightarrow>
               (w'', (case e of None \<Rightarrow> errs | Some e \<Rightarrow> Wrapped (''close client ['' @ name @ '']'') e # errs))))"

definition obs_Close :: "'w Operator \<Rightarrow> 'w \<Rightarrow> 'w Operator \<times> 'w \<times> obs_err option" where
  "obs_Close op w =
     (if op_closed op then (op, w, None)
      else case close_clients (op_clients op) w of
        (w', errs) \<Rightarrow>
          (op\<lparr>op_clients := [], op_closed := True\<rparr>, w', if errs = [] then None else Some (CloseErrors errs)))"

text \<open>The default operator: made when the package is loaded, if the configuration of the application enables it. The outer \<open>None\<close> is the panic.\<close>

definition obs_init :: "(obs_config \<Rightarrow> obs_err + 'w Client) \<Rightarrow> bool \<Rightarrow> bool \<Rightarrow> obs_config \<Rightarrow> 'w Operator option option" where
  "obs_init connect enable strict cfg =
     (if \<not> enable then Some None
      else case NewOperator connect (Some (cfg\<lparr>oc_Name := if oc_Name cfg = [] then ''default'' else oc_Name cfg\<rparr>)) of
             Inr op \<Rightarrow> Some (Some op)
           | Inl e \<Rightarrow> if strict then None else Some None)"

section \<open>Retrying\<close>

text \<open>
  A call is tried three times, with waits of one and two seconds, which the end of the context cuts short: \<open>expired i\<close>
  is the error of the context when it ends in the wait after attempt \<open>i\<close>. The waits are part of the result.
\<close>

function retry_from ::
    "(nat \<Rightarrow> obs_err option) \<Rightarrow> ('s \<Rightarrow> 's \<times> obs_err option) \<Rightarrow> nat \<Rightarrow> obs_err option \<Rightarrow> 's \<Rightarrow> 's \<times> nat list \<times> obs_err option" where
  "retry_from expired fn i err s =
     (if i \<ge> DefaultMaxRetries then (s, [], err)
      else case fn s of
             (s', None) \<Rightarrow> (s', [], None)
           | (s', Some e) \<Rightarrow>
               if i < DefaultMaxRetries - 1 then
                 (case expired i of
                    Some e' \<Rightarrow> (s', [2 ^ i], Some e')
                  | None \<Rightarrow>
                      (case retry_from expired fn (i + 1) (Some e) s' of
                         (s'', waits, r) \<Rightarrow> (s'', 2 ^ i # waits, r)))
               else retry_from expired fn (i + 1) (Some e) s')"
  by pat_completeness auto
termination by (relation "measure (\<lambda>(expired, fn, i, err, s). DefaultMaxRetries - i)") auto

declare retry_from.simps [simp del]

definition retry :: "(nat \<Rightarrow> obs_err option) \<Rightarrow> ('s \<Rightarrow> 's \<times> obs_err option) \<Rightarrow> 's \<Rightarrow> 's \<times> nat list \<times> obs_err option" where
  "retry expired fn s = retry_from expired fn 0 None s"


section \<open>Operations on buckets and objects\<close>

text \<open>Every operation starts with looking its client up; \<open>no\<close> is what it returns when there is none.\<close>

definition with_client :: "'w Operator \<Rightarrow> string \<Rightarrow> (obs_err \<Rightarrow> 'r) \<Rightarrow> ('w Client \<Rightarrow> 'r) \<Rightarrow> 'r" where
  "with_client op name no yes = (case GetClient op name of Inl e \<Rightarrow> no e | Inr c \<Rightarrow> yes c)"

definition BucketExists :: "'w Operator \<Rightarrow> string \<Rightarrow> string \<Rightarrow> 'w \<Rightarrow> 'w \<times> (obs_err + bool)" where
  "BucketExists op name bucket w = with_client op name (\<lambda>e. (w, Inl e)) (\<lambda>c. cl_BucketExists c bucket w)"

definition MakeBucket :: "(nat \<Rightarrow> obs_err option) \<Rightarrow> 'w Operator \<Rightarrow> string \<Rightarrow> string \<Rightarrow> string \<Rightarrow> 'w \<Rightarrow> 'w \<times> obs_err option" where
  "MakeBucket expired op name bucket region w =
     with_client op name (\<lambda>e. (w, Some e))
       (\<lambda>c. case retry expired (cl_MakeBucket c bucket region) w of (w', waits, r) \<Rightarrow> (w', r))"

definition RemoveBucket :: "'w Operator \<Rightarrow> string \<Rightarrow> string \<Rightarrow> 'w \<Rightarrow> 'w \<times> obs_err option" where
  "RemoveBucket op name bucket w = with_client op name (\<lambda>e. (w, Some e)) (\<lambda>c. cl_RemoveBucket c bucket w)"

definition ListBuckets :: "'w Operator \<Rightarrow> string \<Rightarrow> 'w \<Rightarrow> 'w \<times> (obs_err + BucketInfo list)" where
  "ListBuckets op name w = with_client op name (\<lambda>e. (w, Inl e)) (\<lambda>c. cl_ListBuckets c w)"

text \<open>
  A reader: its bytes, its position, whether it can seek, how many seeks it has had and what error each of them ends in.
\<close>

record reader =
  rd_data :: string
  rd_pos :: nat
  rd_seeker :: bool
  rd_seeks :: nat
  rd_fault :: "nat \<Rightarrow> obs_err option"

definition rd_seek :: "nat \<Rightarrow> reader \<Rightarrow> reader \<times> obs_err option" where
  "rd_seek pos rd =
     (case rd_fault rd (rd_seeks rd) of
        Some e \<Rightarrow> (rd\<lparr>rd_seeks := rd_seeks rd + 1\<rparr>, Some e)
      | None \<Rightarrow> (rd\<lparr>rd_seeks := rd_seeks rd + 1, rd_pos := pos\<rparr>, None))"

definition put_reader :: "'w Client \<Rightarrow> string \<Rightarrow> string \<Rightarrow> int \<Rightarrow> string \<Rightarrow> reader \<times> 'w \<Rightarrow> (reader \<times> 'w) \<times> obs_err option" where
  "put_reader c bucket key len contentType = (\<lambda>(rd, w).
     (case cl_PutObject c bucket key (drop (rd_pos rd) (rd_data rd)) len contentType w of
        (w', n, r) \<Rightarrow> ((rd\<lparr>rd_pos := rd_pos rd + n\<rparr>, w'), r)))"

definition put_attempt :: "'w Client \<Rightarrow> string \<Rightarrow> string \<Rightarrow> int \<Rightarrow> string \<Rightarrow> nat \<Rightarrow> reader \<times> 'w \<Rightarrow> (reader \<times> 'w) \<times> obs_err option" where
  "put_attempt c bucket key len contentType start = (\<lambda>(rd, w).
     (case rd_seek start rd of
        (rd', Some e) \<Rightarrow> ((rd', w), Some e)
      | (rd', None) \<Rightarrow> put_reader c bucket key len contentType (rd', w)))"

definition PutObject ::
    "(nat \<Rightarrow> obs_err option) \<Rightarrow> 'w Operator \<Rightarrow> string \<Rightarrow> string \<Rightarrow> string \<Rightarrow> reader \<Rightarrow> int \<Rightarrow> string \<Rightarrow> 'w
     \<Rightarrow> (reader \<times> 'w) \<times> obs_err option" where
  "PutObject expired op name bucket key body len contentType w =
     with_client op name (\<lambda>e. ((body, w), Some e))
       (\<lambda>c. if \<not> rd_seeker body then put_reader c bucket key len contentType (body, w)
            else case rd_seek (rd_pos body) body of
                   (body', Some e) \<Rightarrow> put_reader c bucket key len contentType (body', w)
                 | (body', None) \<Rightarrow>
                     (case retry expired (put_attempt c bucket key len contentType (rd_pos body)) (body', w) of
                        (s, waits, r) \<Rightarrow> (s, r)))"

definition GetObject :: "'w Operator \<Rightarrow> string \<Rightarrow> string \<Rightarrow> string \<Rightarrow> 'w \<Rightarrow> 'w \<times> (obs_err + obs_body \<times> ObjectInfo)" where
  "GetObject op name bucket key w = with_client op name (\<lambda>e. (w, Inl e)) (\<lambda>c. cl_GetObject c bucket key w)"

definition RemoveObject :: "'w Operator \<Rightarrow> string \<Rightarrow> string \<Rightarrow> string \<Rightarrow> 'w \<Rightarrow> 'w \<times> obs_err option" where
  "RemoveObject op name bucket key w = with_client op name (\<lambda>e. (w, Some e)) (\<lambda>c. cl_RemoveObject c bucket key w)"

text \<open>The results of a batch are read to the end; the first error is the answer.\<close>

fun drainRemoveErrors :: "(string \<times> obs_err option) list \<Rightarrow> obs_err option" where
  "drainRemoveErrors [] = None"
| "drainRemoveErrors ((object, None) # es) = drainRemoveErrors es"
| "drainRemoveErrors ((object, Some e) # es) = Some (Wrapped (''remove '' @ object) e)"

definition remove_keys :: "'w Client \<Rightarrow> string \<Rightarrow> string list \<Rightarrow> 'w \<Rightarrow> 'w \<times> obs_err option" where
  "remove_keys c bucket keys w = (case cl_RemoveObjects c bucket keys w of (w', es) \<Rightarrow> (w', drainRemoveErrors es))"

definition RemoveObjects :: "'w Operator \<Rightarrow> string \<Rightarrow> string \<Rightarrow> string list \<Rightarrow> 'w \<Rightarrow> 'w \<times> obs_err option" where
  "RemoveObjects op name bucket keys w = with_client op name (\<lambda>e. (w, Some e)) (\<lambda>c. remove_keys c bucket keys w)"

definition CopyObject :: "'w Operator \<Rightarrow> string \<Rightarrow> string \<Rightarrow> string \<Rightarrow> string \<Rightarrow> string \<Rightarrow> 'w \<Rightarrow> 'w \<times> obs_err option" where
  "CopyObject op name srcBucket srcKey dstBucket dstKey w =
     with_client op name (\<lambda>e. (w, Some e)) (\<lambda>c. cl_CopyObject c srcBucket srcKey dstBucket dstKey w)"

definition StatObject :: "'w Operator \<Rightarrow> string \<Rightarrow> string \<Rightarrow> string \<Rightarrow> 'w \<Rightarrow> 'w \<times> (obs_err + ObjectInfo)" where
  "StatObject op name bucket key w = with_client op name (\<lambda>e. (w, Inl e)) (\<lambda>c. cl_StatObject c bucket key w)"

definition PresignedGetObject :: "'w Operator \<Rightarrow> string \<Rightarrow> string \<Rightarrow> string \<Rightarrow> int \<Rightarrow> 'w \<Rightarrow> 'w \<times> (obs_err + string)" where
  "PresignedGetObject op name bucket key expiry w =
     with_client op name (\<lambda>e. (w, Inl e)) (\<lambda>c. cl_PresignedGetObject c bucket key expiry w)"

definition PresignedPutObject :: "'w Operator \<Rightarrow> string \<Rightarrow> string \<Rightarrow> string \<Rightarrow> int \<Rightarrow> 'w \<Rightarrow> 'w \<times> (obs_err + string)" where
  "PresignedPutObject op name bucket key expiry w =
     with_client op name (\<lambda>e. (w, Inl e)) (\<lambda>c. cl_PresignedPutObject c bucket key expiry w)"

section \<open>Directories\<close>

definition recursive_list :: "string \<Rightarrow> int \<Rightarrow> ListOptions" where
  "recursive_list prefix maxKeys = \<lparr>lo_Prefix = prefix, lo_Recursive = True, lo_MaxKeys = maxKeys, lo_StartAfter = []\<rparr>"

text \<open>A listing is read to its end: the keys of its items, and the last of its errors.\<close>

fun read_listing :: "ObjectInfo list \<Rightarrow> ObjectInfo list \<times> obs_err option" where
  "read_listing [] = ([], None)"
| "read_listing (i # is) =
     (case read_listing is of
        (infos, err) \<Rightarrow>
          (case oi_Err i of
             None \<Rightarrow> (i # infos, err)
           | Some e \<Rightarrow> (infos, case err of None \<Rightarrow> Some e | Some e' \<Rightarrow> Some e')))"

definition delete_dir :: "'w Client \<Rightarrow> string \<Rightarrow> string \<Rightarrow> 'w \<Rightarrow> 'w \<times> obs_err option" where
  "delete_dir c bucket prefix w =
     (case cl_ListObjects c bucket (recursive_list (dir_key prefix) 0) w of
        (w', items) \<Rightarrow>
          (case read_listing items of
             (infos, Some e) \<Rightarrow> (w', Some (Wrapped (''list '' @ dir_key prefix) e))
           | (infos, None) \<Rightarrow>
               if infos = [] then (w', None) else remove_keys c bucket (map oi_Key infos) w'))"

definition DeleteDirectory :: "'w Operator \<Rightarrow> string \<Rightarrow> string \<Rightarrow> string \<Rightarrow> 'w \<Rightarrow> 'w \<times> obs_err option" where
  "DeleteDirectory op name bucket prefix w = with_client op name (\<lambda>e. (w, Some e)) (\<lambda>c. delete_dir c bucket prefix w)"

text \<open>
  The copies of a renaming. The items are those the listing delivers; an error among them ends the renaming before
  anything is deleted.
\<close>

fun copy_all :: "'w Client \<Rightarrow> string \<Rightarrow> string \<Rightarrow> string \<Rightarrow> ObjectInfo list \<Rightarrow> 'w \<Rightarrow> 'w \<times> obs_err option" where
  "copy_all c bucket srcKey dstKey [] w = (w, None)"
| "copy_all c bucket srcKey dstKey (i # is) w =
     (case oi_Err i of
        Some e \<Rightarrow> (w, Some (Wrapped (''list '' @ srcKey) e))
      | None \<Rightarrow>
          (let relKey = trim_prefix (oi_Key i) srcKey; newKey = trim_right dstKey @ DirSuffix @ relKey
           in if relKey = [] then copy_all c bucket srcKey dstKey is w
              else case cl_CopyObject c bucket (oi_Key i) bucket newKey w of
                     (w', Some e) \<Rightarrow> (w', Some (Wrapped (''copy '' @ oi_Key i @ '' -> '' @ newKey) e))
                   | (w', None) \<Rightarrow> copy_all c bucket srcKey dstKey is w'))"

definition RenameObject :: "'w Operator \<Rightarrow> string \<Rightarrow> string \<Rightarrow> string \<Rightarrow> string \<Rightarrow> 'w \<Rightarrow> 'w \<times> obs_err option" where
  "RenameObject op name bucket srcKey dstKey w =
     with_client op name (\<lambda>e. (w, Some e))
       (\<lambda>c. if has_suffix srcKey DirSuffix then
              (case cl_ListObjects c bucket (recursive_list srcKey 0) w of
                 (w', items) \<Rightarrow>
                   (case copy_all c bucket srcKey dstKey items w' of
                      (w'', Some e) \<Rightarrow> (w'', Some e)
                    | (w'', None) \<Rightarrow> DeleteDirectory op name bucket srcKey w''))
            else
              (case cl_CopyObject c bucket srcKey bucket dstKey w of
                 (w', Some e) \<Rightarrow> (w', Some e)
               | (w', None) \<Rightarrow> cl_RemoveObject c bucket srcKey w'))"

definition CreateDirectory :: "'w Operator \<Rightarrow> string \<Rightarrow> string \<Rightarrow> string \<Rightarrow> 'w \<Rightarrow> 'w \<times> obs_err option" where
  "CreateDirectory op name bucket prefix w =
     with_client op name (\<lambda>e. (w, Some e))
       (\<lambda>c. case cl_PutObject c bucket (dir_key prefix) [] 0 [] w of (w', n, r) \<Rightarrow> (w', r))"

definition ExistDirectory :: "'w Operator \<Rightarrow> string \<Rightarrow> string \<Rightarrow> string \<Rightarrow> 'w \<Rightarrow> 'w \<times> (obs_err + bool)" where
  "ExistDirectory op name bucket prefix w =
     with_client op name (\<lambda>e. (w, Inl e))
       (\<lambda>c. case cl_StatObject c bucket (dir_key prefix) w of
              (w', Inr info) \<Rightarrow> (w', Inr True)
            | (w', Inl e) \<Rightarrow>
                (case cl_ListObjects c bucket (recursive_list (dir_key prefix) 1) w' of
                   (w'', []) \<Rightarrow> (w'', Inr False)
                 | (w'', i # is) \<Rightarrow> (w'', case oi_Err i of Some e \<Rightarrow> Inl e | None \<Rightarrow> Inr True)))"

definition obs_ListObjects :: "'w Operator \<Rightarrow> string \<Rightarrow> string \<Rightarrow> ListOptions \<Rightarrow> 'w \<Rightarrow> 'w \<times> (obs_err + ObjectInfo list)" where
  "obs_ListObjects op name bucket opts w =
     with_client op name (\<lambda>e. (w, Inl e)) (\<lambda>c. case cl_ListObjects c bucket opts w of (w', items) \<Rightarrow> (w', Inr items))"

definition ListAllObjects :: "'w Operator \<Rightarrow> string \<Rightarrow> string \<Rightarrow> string \<Rightarrow> 'w \<Rightarrow> 'w \<times> ObjectInfo list \<times> obs_err option" where
  "ListAllObjects op name bucket prefix w =
     with_client op name (\<lambda>e. (w, [], Some e))
       (\<lambda>c. case cl_ListObjects c bucket (recursive_list prefix 0) w of
              (w', items) \<Rightarrow>
                (case read_listing items of
                   (infos, err) \<Rightarrow> (w', infos, map_option (Wrapped (''list '' @ prefix)) err)))"

section \<open>Local files\<close>

text \<open>
  The files of the system by their paths. \<open>fault\<close> says in which error an operation of the system ends in a state, if in
  any, and how many bytes a write got through before it.
\<close>

datatype fs_op =
    Op_MkdirAll string | Op_Open string | Op_Stat string | Op_Create string | Op_Write string | Op_Close string
  | Op_CreateTemp | Op_ZipCreate string | Op_ZipWrite string | Op_ZipClose | Op_Remove string

type_synonym files = "string \<Rightarrow> string option"
type_synonym fs_fault = "fs_op \<Rightarrow> files \<Rightarrow> (nat \<times> obs_err) option"

text \<open>Writing a body into a file that was just made, \<open>io.Copy\<close> and then \<open>Close\<close>: the first error of the two.\<close>

definition write_and_close :: "fs_fault \<Rightarrow> string \<Rightarrow> obs_body \<Rightarrow> files \<Rightarrow> files \<times> obs_err option" where
  "write_and_close fault path body l =
     (let (l', copyErr) =
        (case fault (Op_Write path) l of
           Some (n, e) \<Rightarrow> (l(path \<mapsto> take n (fst body)), Some e)
         | None \<Rightarrow> (l(path \<mapsto> fst body), snd body))
      in (l', case copyErr of Some e \<Rightarrow> Some e | None \<Rightarrow> map_option snd (fault (Op_Close path) l')))"

definition FPutObject ::
    "fs_fault \<Rightarrow> 'w Operator \<Rightarrow> string \<Rightarrow> string \<Rightarrow> string \<Rightarrow> string \<Rightarrow> string \<Rightarrow> files \<Rightarrow> 'w \<Rightarrow> 'w \<times> obs_err option" where
  "FPutObject fault op name bucket key filePath contentType l w =
     with_client op name (\<lambda>e. (w, Some e))
       (\<lambda>c. case (fault (Op_Open filePath) l, l filePath) of
              (Some (n, e), _) \<Rightarrow> (w, Some (Wrapped (''open '' @ filePath) e))
            | (None, None) \<Rightarrow> (w, Some (Wrapped (''open '' @ filePath) (Vendor ''no such file or directory'')))
            | (None, Some content) \<Rightarrow>
                (case fault (Op_Stat filePath) l of
                   Some (n, e) \<Rightarrow> (w, Some e)
                 | None \<Rightarrow>
                     (case cl_PutObject c bucket key content (int (length content)) contentType w of
                        (w', n, r) \<Rightarrow> (w', r))))"

definition FGetObject ::
    "fs_fault \<Rightarrow> 'w Operator \<Rightarrow> string \<Rightarrow> string \<Rightarrow> string \<Rightarrow> string \<Rightarrow> files \<times> 'w \<Rightarrow> (files \<times> 'w) \<times> obs_err option" where
  "FGetObject fault op name bucket key filePath = (\<lambda>(l, w).
     with_client op name (\<lambda>e. ((l, w), Some e))
       (\<lambda>c. case fault (Op_MkdirAll (Dir filePath)) l of
              Some (n, e) \<Rightarrow> ((l, w), Some e)
            | None \<Rightarrow>
                (case cl_GetObject c bucket key w of
                   (w', Inl e) \<Rightarrow> ((l, w'), Some e)
                 | (w', Inr (body, info)) \<Rightarrow>
                     (case fault (Op_Create filePath) l of
                        Some (n, e) \<Rightarrow> ((l, w'), Some (Wrapped (''create '' @ filePath) e))
                      | None \<Rightarrow>
                          (case write_and_close fault filePath body (l(filePath \<mapsto> [])) of
                             (l', r) \<Rightarrow> ((l', w'), r))))))"

text \<open>One item of a directory that is downloaded, and all of them.\<close>

definition fetch_item ::
    "fs_fault \<Rightarrow> 'w Client \<Rightarrow> string \<Rightarrow> string \<Rightarrow> string \<Rightarrow> ObjectInfo \<Rightarrow> files \<times> 'w \<Rightarrow> (files \<times> 'w) \<times> obs_err option" where
  "fetch_item fault c bucket prefix localDir info = (\<lambda>(l, w).
     (let localPath = Join localDir (trim_prefix (oi_Key info) prefix)
      in if (case Rel (Clean localDir) localPath of None \<Rightarrow> True | Some rel \<Rightarrow> \<not> IsLocal rel)
         then ((l, w), Some (Escapes (oi_Key info) localDir))
         else case fault (Op_MkdirAll (Dir localPath)) l of
           Some (n, e) \<Rightarrow> ((l, w), Some e)
         | None \<Rightarrow>
             (case cl_GetObject c bucket (oi_Key info) w of
                (w', Inl e) \<Rightarrow> ((l, w'), Some (Wrapped (''get '' @ oi_Key info) e))
              | (w', Inr (body, _)) \<Rightarrow>
                  (case fault (Op_Create localPath) l of
                     Some (n, e) \<Rightarrow> ((l, w'), Some (Wrapped (''create '' @ localPath) e))
                   | None \<Rightarrow>
                       (case write_and_close fault localPath body (l(localPath \<mapsto> [])) of
                          (l', r) \<Rightarrow> ((l', w'), map_option (Wrapped (''write '' @ localPath)) r))))))"

fun fetch_all ::
    "fs_fault \<Rightarrow> 'w Client \<Rightarrow> string \<Rightarrow> string \<Rightarrow> string \<Rightarrow> ObjectInfo list \<Rightarrow> files \<times> 'w \<Rightarrow> (files \<times> 'w) \<times> obs_err option" where
  "fetch_all fault c bucket prefix localDir [] s = (s, None)"
| "fetch_all fault c bucket prefix localDir (i # is) s =
     (case oi_Err i of
        Some e \<Rightarrow> (s, Some (Wrapped (''list '' @ prefix) e))
      | None \<Rightarrow>
          if oi_IsDir i then fetch_all fault c bucket prefix localDir is s
          else case fetch_item fault c bucket prefix localDir i s of
                 (s', Some e) \<Rightarrow> (s', Some e)
               | (s', None) \<Rightarrow> fetch_all fault c bucket prefix localDir is s')"

definition FGetDirectory ::
    "fs_fault \<Rightarrow> 'w Operator \<Rightarrow> string \<Rightarrow> string \<Rightarrow> string \<Rightarrow> string \<Rightarrow> files \<times> 'w \<Rightarrow> (files \<times> 'w) \<times> obs_err option" where
  "FGetDirectory fault op name bucket prefix localDir = (\<lambda>(l, w).
     with_client op name (\<lambda>e. ((l, w), Some e))
       (\<lambda>c. case cl_ListObjects c bucket (recursive_list (dir_key prefix) 0) w of
              (w', items) \<Rightarrow> fetch_all fault c bucket (dir_key prefix) localDir items (l, w')))"

text \<open>
  The archive: its members so far. The temporary file has its content when the archive is closed; what it holds before
  is left open, as the file is gone after an error. \<open>encode\<close> is the format of the archive.
\<close>

fun zip_all ::
    "fs_fault \<Rightarrow> 'w Client \<Rightarrow> string \<Rightarrow> string \<Rightarrow> ObjectInfo list \<Rightarrow> files \<Rightarrow> (string \<times> string) list \<Rightarrow> 'w
     \<Rightarrow> (string \<times> string) list \<times> 'w \<times> obs_err option" where
  "zip_all fault c bucket prefix [] l members w = (members, w, None)"
| "zip_all fault c bucket prefix (i # is) l members w =
     (case oi_Err i of
        Some e \<Rightarrow> (members, w, Some (Wrapped (''list '' @ prefix) e))
      | None \<Rightarrow>
          if oi_IsDir i then zip_all fault c bucket prefix is l members w
          else case cl_GetObject c bucket (oi_Key i) w of
                 (w', Inl e) \<Rightarrow> (members, w', Some (Wrapped (''get '' @ oi_Key i) e))
               | (w', Inr ((data, err), _)) \<Rightarrow>
                   (let relPath = trim_prefix (oi_Key i) prefix
                    in case fault (Op_ZipCreate relPath) l of
                         Some (n, e) \<Rightarrow> (members, w', Some (Wrapped (''zip create '' @ relPath) e))
                       | None \<Rightarrow>
                           (case (map_option snd (fault (Op_ZipWrite relPath) l), err) of
                              (Some e, _) \<Rightarrow> (members, w', Some (Wrapped (''zip write '' @ relPath) e))
                            | (None, Some e) \<Rightarrow> (members, w', Some (Wrapped (''zip write '' @ relPath) e))
                            | (None, None) \<Rightarrow> zip_all fault c bucket prefix is l (members @ [(relPath, data)]) w')))"

definition zip_remove :: "fs_fault \<Rightarrow> string \<Rightarrow> files \<Rightarrow> files" where
  "zip_remove fault tmp l = (if fault (Op_Remove tmp) l = None then l(tmp := None) else l)"

definition FGetDirectoryAsZip ::
    "fs_fault \<Rightarrow> string \<Rightarrow> ((string \<times> string) list \<Rightarrow> string) \<Rightarrow> 'w Operator \<Rightarrow> string \<Rightarrow> string \<Rightarrow> string \<Rightarrow> files \<times> 'w
     \<Rightarrow> (files \<times> 'w) \<times> string \<times> obs_err option" where
  "FGetDirectoryAsZip fault tmp encode op name bucket prefix = (\<lambda>(l, w).
     with_client op name (\<lambda>e. ((l, w), [], Some e))
       (\<lambda>c. case fault Op_CreateTemp l of
              Some (n, e) \<Rightarrow> ((l, w), [], Some (Wrapped ''create temp file'' e))
            | None \<Rightarrow>
                (let l0 = l(tmp \<mapsto> []); failed = (\<lambda>l w e. ((zip_remove fault tmp l, w), [], Some e))
                 in case cl_ListObjects c bucket (recursive_list (dir_key prefix) 0) w of
                      (w', items) \<Rightarrow>
                        (case zip_all fault c bucket (dir_key prefix) items l0 [] w' of
                           (members, w'', Some e) \<Rightarrow> failed l0 w'' e
                         | (members, w'', None) \<Rightarrow>
                             (case fault Op_ZipClose l0 of
                                Some (n, e) \<Rightarrow> failed l0 w'' (Wrapped ''zip close'' e)
                              | None \<Rightarrow>
                                  (let l1 = l0(tmp \<mapsto> encode members)
                                   in case fault (Op_Close tmp) l1 of
                                        Some (n, e) \<Rightarrow> failed l1 w'' (Wrapped ''close temp file'' e)
                                      | None \<Rightarrow> ((l1, w''), tmp, None)))))))"

text \<open>
  Uploading a directory: \<open>filepath.Walk\<close> hands over what it visits, a path, whether it is a directory, or an error. The
  error of the relative path is dropped, and the path is then empty.
\<close>

type_synonym walked = "string \<times> bool \<times> obs_err option"

fun upload_all :: "fs_fault \<Rightarrow> 'w Client \<Rightarrow> string \<Rightarrow> string \<Rightarrow> string \<Rightarrow> files \<Rightarrow> walked list \<Rightarrow> 'w \<Rightarrow> 'w \<times> obs_err option" where
  "upload_all fault c bucket prefix localDir l [] w = (w, None)"
| "upload_all fault c bucket prefix localDir l ((path, isDir, walkErr) # rest) w =
     (case walkErr of
        Some e \<Rightarrow> (w, Some e)
      | None \<Rightarrow>
          if isDir then upload_all fault c bucket prefix localDir l rest w
          else
            (let key = prefix @ (case Rel localDir path of None \<Rightarrow> [] | Some r \<Rightarrow> r)
             in case (fault (Op_Open path) l, l path) of
                  (Some (n, e), _) \<Rightarrow> (w, Some e)
                | (None, None) \<Rightarrow> (w, Some (Vendor ''no such file or directory''))
                | (None, Some content) \<Rightarrow>
                    (case cl_PutObject c bucket key content (int (length content)) [] w of
                       (w', n, Some e) \<Rightarrow> (w', Some e)
                     | (w', n, None) \<Rightarrow> upload_all fault c bucket prefix localDir l rest w')))"

definition FPutDirectory ::
    "fs_fault \<Rightarrow> (string \<Rightarrow> files \<Rightarrow> walked list) \<Rightarrow> 'w Operator \<Rightarrow> string \<Rightarrow> string \<Rightarrow> string \<Rightarrow> string \<Rightarrow> files \<Rightarrow> 'w
     \<Rightarrow> 'w \<times> obs_err option" where
  "FPutDirectory fault walk op name bucket prefix localDir l w =
     with_client op name (\<lambda>e. (w, Some e))
       (\<lambda>c. upload_all fault c bucket (dir_key prefix) localDir l (walk localDir l) w)"


section \<open>What is relied on\<close>

text \<open>
  \<open>view\<close> is what the store holds, by bucket and key, \<open>ended\<close> whether the context has ended. A listing without an error
  delivers the keys with the prefix; a copy changes at most its destination, to the content of the source, and does so
  when it succeeds; a removal changes at most the objects it is given, which are gone when no error is reported. When
  the context has ended it stays so, and no call changes the store any more.
\<close>

definition listed ::
    "('w \<Rightarrow> string \<Rightarrow> string \<Rightarrow> 'o option) \<Rightarrow> ('w \<Rightarrow> bool) \<Rightarrow> nat option \<Rightarrow> string \<Rightarrow> ListOptions \<Rightarrow> 'w \<Rightarrow> 'w \<Rightarrow> ObjectInfo list \<Rightarrow> bool" where
  "listed view ended seen b opts w w' items \<longleftrightarrow>
     view w' = view w \<and> (ended w \<or> seen \<noteq> None \<longrightarrow> ended w') \<and>
     (opts = recursive_list (lo_Prefix opts) 0 \<longrightarrow> list_all (\<lambda>i. oi_Err i = None) items \<longrightarrow>
        oi_Key ` set items = {k. has_prefix k (lo_Prefix opts) \<and> view w b k \<noteq> None})"

definition copied ::
    "('w \<Rightarrow> string \<Rightarrow> string \<Rightarrow> 'o option) \<Rightarrow> ('w \<Rightarrow> bool) \<Rightarrow> string \<Rightarrow> string \<Rightarrow> string \<Rightarrow> string \<Rightarrow> 'w \<Rightarrow> 'w \<Rightarrow> obs_err option \<Rightarrow> bool" where
  "copied view ended sb sk db dk w w' r \<longleftrightarrow>
     (let there = (view w sb sk \<noteq> None \<and> view w' = (view w)(db := (view w db)(dk := view w sb sk)))
      in (view w' = view w \<or> there) \<and> (r = None \<longrightarrow> there) \<and> (ended w \<longrightarrow> ended w' \<and> view w' = view w))"

definition removed ::
    "('w \<Rightarrow> string \<Rightarrow> string \<Rightarrow> 'o option) \<Rightarrow> ('w \<Rightarrow> bool) \<Rightarrow> nat option \<Rightarrow> string \<Rightarrow> string list \<Rightarrow> 'w \<Rightarrow> 'w \<Rightarrow> obs_err option \<Rightarrow> bool" where
  "removed view ended seen b ks w w' r \<longleftrightarrow>
     (\<forall>b' k. view w' b' k = view w b' k \<or> b' = b \<and> k \<in> set ks \<and> view w' b' k = None) \<and>
     (r = None \<longrightarrow> (\<forall>k\<in>set ks. view w' b k = None)) \<and>
     (ended w \<or> seen \<noteq> None \<longrightarrow> ended w') \<and> (ended w \<longrightarrow> view w' = view w)"

definition lawful :: "('w \<Rightarrow> string \<Rightarrow> string \<Rightarrow> 'o option) \<Rightarrow> ('w \<Rightarrow> bool) \<Rightarrow> 'w minio \<Rightarrow> bool" where
  "lawful view ended m \<longleftrightarrow>
     (\<forall>w b opts. listed view ended (ctx_seen m w) b opts w (fst (sdk_ListObjects m b opts w)) (snd (sdk_ListObjects m b opts w))) \<and>
     (\<forall>w sb sk db dk. copied view ended sb sk db dk w (fst (sdk_CopyObject m sb sk db dk w)) (snd (sdk_CopyObject m sb sk db dk w))) \<and>
     (\<forall>w b ks. removed view ended (ctx_seen m w) b ks w (fst (sdk_RemoveObjects m b ks w))
        (drainRemoveErrors (snd (sdk_RemoveObjects m b ks w)))) \<and>
     (\<forall>w b k. removed view ended (ctx_seen m w) b [k] w (fst (sdk_RemoveObject m b k w)) (snd (sdk_RemoveObject m b k w)))"

lemma lawful_list:
  assumes "lawful view ended m" and "sdk_ListObjects m b opts w = (w', items)"
  shows "view w' = view w" and "ended w \<Longrightarrow> ended w'" and "ctx_seen m w \<noteq> None \<Longrightarrow> ended w'"
    and "opts = recursive_list p 0 \<Longrightarrow> list_all (\<lambda>i. oi_Err i = None) items \<Longrightarrow>
      oi_Key ` set items = {k. has_prefix k p \<and> view w b k \<noteq> None}"
proof -
  have "listed view ended (ctx_seen m w) b opts w w' items"
    using assms(1) spec [of _ opts] unfolding lawful_def by (metis assms(2) fst_conv snd_conv)
  then show "view w' = view w" and "ended w \<Longrightarrow> ended w'" and "ctx_seen m w \<noteq> None \<Longrightarrow> ended w'"
    and "opts = recursive_list p 0 \<Longrightarrow> list_all (\<lambda>i. oi_Err i = None) items \<Longrightarrow>
      oi_Key ` set items = {k. has_prefix k p \<and> view w b k \<noteq> None}"
    by (simp_all add: listed_def recursive_list_def)
qed

lemma lawful_copy:
  assumes "lawful view ended m" and "sdk_CopyObject m sb sk db dk w = (w', r)"
  shows "view w' = view w \<or> view w' = (view w)(db := (view w db)(dk := view w sb sk))"
    and "r = None \<Longrightarrow> view w' = (view w)(db := (view w db)(dk := view w sb sk))"
    and "r = None \<Longrightarrow> view w sb sk \<noteq> None"
    and "ended w \<Longrightarrow> ended w'" and "ended w \<Longrightarrow> view w' = view w"
proof -
  have "copied view ended sb sk db dk w w' r"
    using assms(1) unfolding lawful_def by (metis assms(2) fst_conv snd_conv)
  then show "view w' = view w \<or> view w' = (view w)(db := (view w db)(dk := view w sb sk))"
    and "r = None \<Longrightarrow> view w' = (view w)(db := (view w db)(dk := view w sb sk))"
    and "r = None \<Longrightarrow> view w sb sk \<noteq> None"
    and "ended w \<Longrightarrow> ended w'" and "ended w \<Longrightarrow> view w' = view w"
    by (auto simp: copied_def Let_def)
qed

lemma removed_facts:
  assumes "removed view ended seen b ks w w' r"
  shows "view w' b' k = view w b' k \<or> b' = b \<and> k \<in> set ks \<and> view w' b' k = None"
    and "r = None \<Longrightarrow> k \<in> set ks \<Longrightarrow> view w' b k = None"
    and "ended w \<Longrightarrow> ended w'" and "seen \<noteq> None \<Longrightarrow> ended w'" and "ended w \<Longrightarrow> view w' = view w"
  using assms unfolding removed_def by blast+

lemma lawful_remove:
  assumes "lawful view ended m"
  shows "sdk_RemoveObjects m b ks w = (w', es) \<Longrightarrow> removed view ended (ctx_seen m w) b ks w w' (drainRemoveErrors es)"
    and "sdk_RemoveObject m b k w = (w', r) \<Longrightarrow> removed view ended (ctx_seen m w) b [k] w w' r"
  using assms unfolding lawful_def by (metis fst_conv snd_conv)+

section \<open>Listings\<close>

lemma passed_on_set: "set (passed_on seen xs) \<subseteq> set xs"
  by (auto simp: passed_on_def dest: in_set_takeD split: option.splits)

lemma listed_info_simps [simp]:
  "oi_Err (listed_info i) = oi_Err i"
  "oi_Err i = None \<Longrightarrow> oi_Key (listed_info i) = oi_Key i"
  "oi_Err i = None \<Longrightarrow> oi_IsDir (listed_info i) = has_suffix (oi_Key i) DirSuffix"
  by (auto simp: listed_info_def split: option.splits)

lemma read_listing_fst: "fst (read_listing is) = filter (\<lambda>i. oi_Err i = None) is"
  by (induction "is") (auto split: prod.splits option.splits)

lemma read_listing_snd: "snd (read_listing is) = None \<longleftrightarrow> list_all (\<lambda>i. oi_Err i = None) is"
  by (induction "is") (auto split: prod.splits option.splits)

lemma read_listing_ok: "read_listing is = (infos, None) \<longleftrightarrow> list_all (\<lambda>i. oi_Err i = None) is \<and> infos = is"
  using read_listing_fst [of "is"] read_listing_snd [of "is"]
  by (cases "read_listing is") (auto simp: list_all_iff filter_id_conv)

lemma client_sel [simp]:
  "cl_ListObjects (minioClient m) = minio_ListObjects m"
  "cl_CopyObject (minioClient m) = sdk_CopyObject m"
  "cl_RemoveObject (minioClient m) = sdk_RemoveObject m"
  "cl_RemoveObjects (minioClient m) = minio_RemoveObjects m"
  "cl_GetObject (minioClient m) = minio_GetObject m"
  "cl_PutObject (minioClient m) = sdk_PutObject m"
  "cl_StatObject (minioClient m) = minio_StatObject m"
  "cl_Close (minioClient m) = (\<lambda>w. (w, None))"
  by (simp_all add: minioClient_def)

lemma minio_list:
  assumes "lawful view ended m" and "minio_ListObjects m b (recursive_list p 0) w = (w', items)"
  shows "view w' = view w" and "ended w \<Longrightarrow> ended w'"
    and "ended w' \<or> (list_all (\<lambda>i. oi_Err i = None) items \<longrightarrow>
      oi_Key ` set items = {k. has_prefix k p \<and> view w b k \<noteq> None})"
proof -
  obtain js where js: "sdk_ListObjects m b (recursive_list p 0) w = (w', js)"
    and items: "items = passed_on (ctx_seen m w) (map listed_info js)"
    using assms(2) by (auto simp: minio_ListObjects_def split: prod.splits)
  note facts = lawful_list [OF assms(1) js]
  show "view w' = view w" and "ended w \<Longrightarrow> ended w'" by (rule facts; assumption?)+
  show "ended w' \<or> (list_all (\<lambda>i. oi_Err i = None) items \<longrightarrow>
      oi_Key ` set items = {k. has_prefix k p \<and> view w b k \<noteq> None})"
  proof (cases "ctx_seen m w")
    case None
    then have "items = map listed_info js" by (simp add: items passed_on_def)
    moreover have "list_all (\<lambda>i. oi_Err i = None) js \<Longrightarrow> oi_Key ` listed_info ` set js = oi_Key ` set js"
      by (force simp: list_all_iff image_iff)
    ultimately show ?thesis using facts(4) [OF refl] by (auto simp: list_all_iff)
  qed (use facts(3) in auto)
qed

section \<open>Removing a directory\<close>

lemma remove_keys_facts:
  assumes "lawful view ended m" and "remove_keys (minioClient m) b ks w = (w', r)"
  shows "view w' b' k = view w b' k \<or> b' = b \<and> k \<in> set ks \<and> view w' b' k = None"
    and "r = None \<Longrightarrow> \<not> ended w' \<Longrightarrow> k \<in> set ks \<Longrightarrow> view w' b k = None"
    and "ended w \<Longrightarrow> ended w'" and "ended w \<Longrightarrow> view w' = view w"
proof -
  obtain es where es: "sdk_RemoveObjects m b (passed_on (ctx_seen m w) ks) w = (w', es)" and r: "r = drainRemoveErrors es"
    using assms(2) by (auto simp: remove_keys_def minio_RemoveObjects_def split: prod.splits)
  note facts = removed_facts [OF lawful_remove(1) [OF assms(1) es]]
  show "view w' b' k = view w b' k \<or> b' = b \<and> k \<in> set ks \<and> view w' b' k = None"
    using facts(1) [of b' k] passed_on_set by fastforce
  show "view w' b k = None" if "r = None" "\<not> ended w'" "k \<in> set ks"
  proof -
    have "ctx_seen m w = None" using facts(4) that(2) by blast
    then have "k \<in> set (passed_on (ctx_seen m w) ks)" using that(3) by (simp add: passed_on_def)
    then show ?thesis using facts(2) r that(1) by simp
  qed
  show "ended w \<Longrightarrow> ended w'" and "ended w \<Longrightarrow> view w' = view w"
    using facts(3,5) by blast+
qed

lemma delete_dir_facts:
  assumes "lawful view ended m" and "delete_dir (minioClient m) b prefix w = (w', r)"
  shows "view w' b' k = view w b' k \<or> b' = b \<and> has_prefix k (dir_key prefix) \<and> view w' b' k = None"
    and "r = None \<Longrightarrow> \<not> ended w' \<Longrightarrow> has_prefix k (dir_key prefix) \<Longrightarrow> view w' b k = None"
    and "ended w \<Longrightarrow> ended w'" and "ended w \<Longrightarrow> view w' = view w"
proof -
  obtain w1 items where ls: "minio_ListObjects m b (recursive_list (dir_key prefix) 0) w = (w1, items)"
    by (cases "minio_ListObjects m b (recursive_list (dir_key prefix) 0) w") auto
  note list = minio_list [OF assms(1) ls]
  obtain infos err where rd: "read_listing items = (infos, err)" by (cases "read_listing items") auto
  let ?goal1 = "\<forall>b' k. view w' b' k = view w b' k \<or> b' = b \<and> has_prefix k (dir_key prefix) \<and> view w' b' k = None"
  let ?goal2 = "r = None \<longrightarrow> \<not> ended w' \<longrightarrow> (\<forall>k. has_prefix k (dir_key prefix) \<longrightarrow> view w' b k = None)"
  let ?goal3 = "ended w \<longrightarrow> ended w' \<and> view w' = view w"
  have "?goal1 \<and> ?goal2 \<and> ?goal3"
  proof (cases err)
    case (Some e)
    then have "w' = w1" "r \<noteq> None"
      using assms(2) ls rd by (auto simp: delete_dir_def)
    then show ?thesis using list(1,2) by auto
  next
    case None
    then have ok: "list_all (\<lambda>i. oi_Err i = None) items" and infos: "infos = items"
      using rd read_listing_ok by blast+
    have keys: "ended w1 \<or> oi_Key ` set items = {k. has_prefix k (dir_key prefix) \<and> view w b k \<noteq> None}"
      using list(3) ok by blast
    show ?thesis
    proof (cases "items = []")
      case True
      then have "w' = w1" "r = None"
        using assms(2) ls rd None infos by (auto simp: delete_dir_def)
      then show ?thesis using list(1,2) keys True by auto
    next
      case False
      then have rm: "remove_keys (minioClient m) b (map oi_Key items) w1 = (w', r)"
        using assms(2) ls rd None infos by (auto simp: delete_dir_def)
      note removed = remove_keys_facts [OF assms(1) rm]
      show ?thesis
      proof (cases "ended w1")
        case True
        then show ?thesis using removed(3,4) list(1) by simp
      next
        case False
        then have set: "set (map oi_Key items) = {k. has_prefix k (dir_key prefix) \<and> view w b k \<noteq> None}"
          using keys by simp
        have "?goal1"
        proof (intro allI)
          fix b' k
          show "view w' b' k = view w b' k \<or> b' = b \<and> has_prefix k (dir_key prefix) \<and> view w' b' k = None"
            using removed(1) [of b' k] unfolding set list(1) by blast
        qed
        moreover have "?goal2"
        proof (intro impI allI)
          fix k
          assume "r = None" "\<not> ended w'" "has_prefix k (dir_key prefix)"
          then show "view w' b k = None"
            using removed(1) [of b k] removed(2) [of k] unfolding set list(1) by (cases "view w b k = None") auto
        qed
        ultimately show ?thesis using False list(2) by blast
      qed
    qed
  qed
  then show "view w' b' k = view w b' k \<or> b' = b \<and> has_prefix k (dir_key prefix) \<and> view w' b' k = None"
    and "r = None \<Longrightarrow> \<not> ended w' \<Longrightarrow> has_prefix k (dir_key prefix) \<Longrightarrow> view w' b k = None"
    and "ended w \<Longrightarrow> ended w'" and "ended w \<Longrightarrow> view w' = view w" by blast+
qed


section \<open>Renaming a directory\<close>

text \<open>Two directories, neither of them inside the other, have no key in common.\<close>

definition apart :: "string \<Rightarrow> string \<Rightarrow> bool" where
  "apart s d \<longleftrightarrow> \<not> has_prefix s d \<and> \<not> has_prefix d s"

lemma apart_keys: "apart s d \<Longrightarrow> \<not> has_prefix (s @ k) d"
  by (auto simp: apart_def has_prefix_iff append_eq_append_conv2)

lemma copy_all_facts:
  assumes "lawful view ended m"
  shows "\<lbrakk>copy_all (minioClient m) b src dst items w = (w', r); apart src (dir_key dst)\<rbrakk> \<Longrightarrow>
    (\<forall>b' k. view w' b' k \<noteq> view w b' k \<longrightarrow> b' = b \<and> has_prefix k (dir_key dst)) \<and>
    (ended w \<longrightarrow> ended w' \<and> view w' = view w) \<and>
    (r = None \<longrightarrow> list_all (\<lambda>i. oi_Err i = None) items \<and>
      (list_all (\<lambda>i. has_prefix (oi_Key i) src) items \<longrightarrow>
        (\<forall>k. view w' b (dir_key dst @ k) =
          (if k \<noteq> [] \<and> src @ k \<in> oi_Key ` set items then view w b (src @ k) else view w b (dir_key dst @ k)))))"
proof (induction items arbitrary: w)
  case Nil
  then show ?case by simp
next
  case (Cons i "is")
  note run = Cons.prems(1) and IH = Cons.IH [OF _ Cons.prems(2)]
  let ?rel = "trim_prefix (oi_Key i) src"
  show ?case
  proof (cases "oi_Err i")
    case (Some e)
    then show ?thesis using run by auto
  next
    case ok: None
    show ?thesis
    proof (cases "?rel = []")
      case True
      have run': "copy_all (minioClient m) b src dst is w = (w', r)"
        using run ok True by simp
      have "src @ k \<noteq> oi_Key i" if "k \<noteq> []" for k
        using True that trim_prefix_append [of src k] by metis
      then have "k \<noteq> [] \<and> src @ k \<in> oi_Key ` set (i # is) \<longleftrightarrow> k \<noteq> [] \<and> src @ k \<in> oi_Key ` set is" for k
        by auto
      then show ?thesis using IH [OF run'] ok by simp
    next
      case rel: False
      let ?new = "dir_key dst @ ?rel"
      obtain w1 r1 where copy: "sdk_CopyObject m b (oi_Key i) b ?new w = (w1, r1)" by fastforce
      note law = lawful_copy [OF assms copy]
      have first: "\<forall>b' k. view w1 b' k \<noteq> view w b' k \<longrightarrow> b' = b \<and> has_prefix k (dir_key dst)"
        using law(1) by (auto simp: fun_upd_def split: if_splits)
      show ?thesis
      proof (cases r1)
        case (Some e)
        then have "w' = w1" "r \<noteq> None"
          using run ok rel copy by (auto simp: dir_key_def Let_def)
        then show ?thesis using first law(4,5) by auto
      next
        case None
        have run': "copy_all (minioClient m) b src dst is w1 = (w', r)"
          using run ok rel copy None by (simp add: dir_key_def Let_def)
        note rest = IH [OF run']
        have frame: "\<forall>b' k. view w' b' k \<noteq> view w b' k \<longrightarrow> b' = b \<and> has_prefix k (dir_key dst)"
          using rest first by metis
        have stay: "ended w \<longrightarrow> ended w' \<and> view w' = view w"
          using rest law(4,5) by metis
        have "view w' b (dir_key dst @ k) =
            (if k \<noteq> [] \<and> src @ k \<in> oi_Key ` set (i # is) then view w b (src @ k) else view w b (dir_key dst @ k))"
          if "r = None" and keys: "list_all (\<lambda>i. has_prefix (oi_Key i) src) (i # is)" for k
        proof -
          have key: "oi_Key i = src @ ?rel" using keys by (simp add: trim_prefix_has)
          have src: "view w1 b (src @ k) = view w b (src @ k)" for k
            using first apart_keys [OF Cons.prems(2)] by blast
          have w1: "view w1 b (dir_key dst @ k) = (if k = ?rel then view w b (src @ k) else view w b (dir_key dst @ k))"
            using law(2) [OF None] key by auto
          have "view w' b (dir_key dst @ k) =
              (if k \<noteq> [] \<and> src @ k \<in> oi_Key ` set is then view w1 b (src @ k) else view w1 b (dir_key dst @ k))"
            using rest that by simp
          moreover have "src @ k = oi_Key i \<longleftrightarrow> k = ?rel" using key by (metis same_append_eq)
          ultimately show ?thesis using src w1 rel by auto
        qed
        moreover have "r = None \<longrightarrow> list_all (\<lambda>i. oi_Err i = None) (i # is)" using rest ok by simp
        ultimately show ?thesis using frame stay by blast
      qed
    qed
  qed
qed

text \<open>
  C10. Renaming a directory to one that is neither inside it nor around it: whatever fails, no object of the directory is
  lost, and nothing outside the two directories changes; without an error, and with a context that has not ended, the
  objects are exactly those of before under their new keys.
\<close>

theorem rename_directory_safe:
  assumes law: "lawful view ended m" and client: "GetClient op name = Inr (minioClient m)"
    and dir: "src = dir_key src" and apart: "apart src (dir_key dst)"
    and run: "RenameObject op name b src dst w = (w', r)"
  shows "(\<forall>k. k \<noteq> [] \<longrightarrow> view w' b (src @ k) = view w b (src @ k) \<or> view w' b (dir_key dst @ k) = view w b (src @ k)) \<and>
    (\<forall>b' k. b' = b \<and> (has_prefix k src \<or> has_prefix k (dir_key dst)) \<or> view w' b' k = view w b' k) \<and>
    (r = None \<longrightarrow> \<not> ended w' \<longrightarrow>
      (\<forall>k. view w' b (src @ k) = None \<and>
        view w' b (dir_key dst @ k) =
          (if k \<noteq> [] \<and> view w b (src @ k) \<noteq> None then view w b (src @ k) else view w b (dir_key dst @ k))))"
proof -
  have suffix: "has_suffix src DirSuffix" using dir dir_key_suffix by metis
  obtain w1 items where ls: "minio_ListObjects m b (recursive_list src 0) w = (w1, items)" by fastforce
  obtain w2 r2 where copy: "copy_all (minioClient m) b src dst items w1 = (w2, r2)" by fastforce
  note list = minio_list [OF law ls] and copies = copy_all_facts [OF law copy apart]
  have src2: "view w2 b (src @ k) = view w b (src @ k)" for k
    using copies list(1) apart_keys [OF apart] by metis
  show ?thesis
  proof (cases r2)
    case (Some e)
    then have "w' = w2" "r \<noteq> None"
      using run ls copy suffix client by (auto simp: RenameObject_def with_client_def)
    then show ?thesis using src2 copies list(1) by auto
  next
    case None
    then have del: "delete_dir (minioClient m) b src w2 = (w', r)"
      using run ls copy suffix client by (simp add: RenameObject_def with_client_def DeleteDirectory_def)
    note deleted = delete_dir_facts [OF law del, folded dir]
    have outside: "view w' b' k = view w2 b' k" if "\<not> (b' = b \<and> has_prefix k src)" for b' k
      using deleted(1) that by blast
    have frame: "\<forall>b' k. b' = b \<and> (has_prefix k src \<or> has_prefix k (dir_key dst)) \<or> view w' b' k = view w b' k"
      using outside copies list(1) by metis
    have apart': "apart (dir_key dst) src" using apart by (auto simp: apart_def)
    have dst2: "view w' b (dir_key dst @ k) = view w2 b (dir_key dst @ k)" for k
      using outside apart_keys [OF apart'] by blast
    show ?thesis
    proof (cases "ended w1")
      case True
      then have "ended w'" "view w' = view w"
        using copies deleted(3,4) list(1) by auto
      then show ?thesis by simp
    next
      case False
      then have keys: "oi_Key ` set items = {k. has_prefix k src \<and> view w b k \<noteq> None}"
        using list(3) copies None by simp
      then have "list_all (\<lambda>i. has_prefix (oi_Key i) src) items" by (auto simp: list_all_iff)
      then have moved: "view w' b (dir_key dst @ k) =
          (if k \<noteq> [] \<and> view w b (src @ k) \<noteq> None then view w b (src @ k) else view w b (dir_key dst @ k))" for k
        using copies None list(1) dst2 keys by simp
      have kept: "view w' b (src @ k) = view w b (src @ k) \<or> view w' b (dir_key dst @ k) = view w b (src @ k)" if "k \<noteq> []" for k
      proof (cases "view w b (src @ k) = None")
        case True
        then show ?thesis using deleted(1) [of b "src @ k"] src2 by auto
      qed (use moved that in simp)
      have gone: "r = None \<Longrightarrow> \<not> ended w' \<Longrightarrow> view w' b (src @ k) = None" for k
        using deleted(2) by simp
      show ?thesis using kept frame moved gone by blast
    qed
  qed
qed

text \<open>
  After a renaming without an error nothing is left under the directory it started from; when the new name lies inside
  it, the copies are gone too.
\<close>

lemma rename_into_itself:
  assumes law: "lawful view ended m" and client: "GetClient op name = Inr (minioClient m)"
    and suffix: "has_suffix src DirSuffix"
    and run: "RenameObject op name b src dst w = (w', None)" and "\<not> ended w'"
  shows "view w' b (dir_key src @ k) = None"
proof -
  obtain w2 where "delete_dir (minioClient m) b src w2 = (w', None)"
    using run client suffix
    by (auto simp: RenameObject_def with_client_def DeleteDirectory_def split: prod.splits option.splits)
  then show ?thesis using delete_dir_facts(2) [OF law] assms(5) by simp
qed

text \<open>A listing whose context ends on the way is cut off, and no error says so.\<close>

lemma listing_cut_silently:
  assumes "GetClient op name = Inr (minioClient m)" and "ctx_seen m w = Some n"
    and "sdk_ListObjects m b (recursive_list p 0) w = (w', items)" and "list_all (\<lambda>i. oi_Err i = None) items"
  shows "ListAllObjects op name b p w = (w', take n (map listed_info items), None)"
proof -
  have "read_listing (take n (map listed_info items)) = (take n (map listed_info items), None)"
    using assms(4) by (auto simp: read_listing_ok list_all_iff dest!: in_set_takeD)
  then show ?thesis
    using assms(1-3) by (simp add: ListAllObjects_def with_client_def minio_ListObjects_def passed_on_def)
qed


section \<open>A store\<close>

text \<open>A store that is an association list, whose calls never fail but on a missing object; it shows that \<open>lawful\<close> can hold.\<close>

type_synonym demo_store = "((string \<times> string) \<times> string) list"

definition demo_info :: "string \<Rightarrow> string \<Rightarrow> ObjectInfo" where
  "demo_info key content =
     \<lparr>oi_Key = key, oi_Size = int (length content), oi_LastModified = 0, oi_ETag = [], oi_ContentType = [],
      oi_StorageClass = [], oi_IsDir = False, oi_Err = None\<rparr>"

definition demo_minio :: "nat option \<Rightarrow> demo_store minio" where
  "demo_minio seen =
     \<lparr>sdk_BucketExists = \<lambda>b w. (w, Inr True),
      sdk_MakeBucket = \<lambda>b r w. (w, None),
      sdk_RemoveBucket = \<lambda>b w. (w, None),
      sdk_ListBuckets = \<lambda>w. (w, Inr []),
      sdk_PutObject = \<lambda>b k content n t w. (((b, k), content) # w, length content, None),
      sdk_GetObject = \<lambda>b k w. (w, case map_of w (b, k) of None \<Rightarrow> Inl (Vendor ''NoSuchKey'')
                                   | Some x \<Rightarrow> Inr ((x, None), Inr (demo_info k x))),
      sdk_RemoveObject = \<lambda>b k w. (filter (\<lambda>e. fst e \<noteq> (b, k)) w, None),
      sdk_RemoveObjects = \<lambda>b ks w. (filter (\<lambda>e. \<not> (fst (fst e) = b \<and> snd (fst e) \<in> set ks)) w, []),
      sdk_CopyObject = \<lambda>sb sk db dk w. (case map_of w (sb, sk) of None \<Rightarrow> (w, Some (Vendor ''NoSuchKey''))
                                         | Some x \<Rightarrow> (((db, dk), x) # w, None)),
      sdk_StatObject = \<lambda>b k w. (w, case map_of w (b, k) of None \<Rightarrow> Inl (Vendor ''NoSuchKey'') | Some x \<Rightarrow> Inr (demo_info k x)),
      sdk_ListObjects = \<lambda>b opts w.
        (w, map (\<lambda>e. demo_info (snd (fst e)) (snd e)) (filter (\<lambda>e. fst (fst e) = b \<and> has_prefix (snd (fst e)) (lo_Prefix opts)) w)),
      sdk_PresignedGetObject = \<lambda>b k t w. (w, Inr k),
      sdk_PresignedPutObject = \<lambda>b k t w. (w, Inr k),
      ctx_seen = \<lambda>w. seen\<rparr>"

definition demo_view :: "demo_store \<Rightarrow> string \<Rightarrow> string \<Rightarrow> string option" where
  "demo_view w b k = map_of w (b, k)"

definition demo_operator :: "nat option \<Rightarrow> demo_store Operator" where
  "demo_operator seen = \<lparr>op_clients = [(''default'', minioClient (demo_minio seen))], op_defaultName = ''default'', op_closed = False\<rparr>"

lemma demo_client: "GetClient (demo_operator seen) [] = Inr (minioClient (demo_minio seen))"
  by (simp add: GetClient_def demo_operator_def)

lemma map_of_filter_keys: "map_of (filter (\<lambda>e. P (fst e)) xs) k = (if P k then map_of xs k else None)"
  by (induction xs) auto

lemma demo_keys:
  "oi_Key ` (\<lambda>e. demo_info (snd (fst e)) (snd e)) ` set (filter (\<lambda>e. fst (fst e) = b \<and> has_prefix (snd (fst e)) p) w) =
     {k. has_prefix k p \<and> demo_view w b k \<noteq> None}"
  by (induction w) (auto simp: demo_view_def demo_info_def)

lemma demo_lawful: "lawful demo_view (\<lambda>w. False) (demo_minio None)"
proof -
  have "listed demo_view (\<lambda>w. False) None b opts w (fst (sdk_ListObjects (demo_minio None) b opts w))
      (snd (sdk_ListObjects (demo_minio None) b opts w))" for b opts w
    using demo_keys [of b "lo_Prefix opts" w] by (simp add: listed_def demo_minio_def)
  moreover have "copied demo_view (\<lambda>w. False) sb sk db dk w (fst (sdk_CopyObject (demo_minio None) sb sk db dk w))
      (snd (sdk_CopyObject (demo_minio None) sb sk db dk w))" for sb sk db dk w
    by (auto simp: copied_def demo_minio_def demo_view_def fun_eq_iff split: option.splits)
  moreover have "removed demo_view (\<lambda>w. False) None b ks w (fst (sdk_RemoveObjects (demo_minio None) b ks w))
      (drainRemoveErrors (snd (sdk_RemoveObjects (demo_minio None) b ks w)))" for b ks w
    using map_of_filter_keys [of "\<lambda>k. \<not> (fst k = b \<and> snd k \<in> set ks)" w]
    by (auto simp: removed_def demo_minio_def demo_view_def)
  moreover have "removed demo_view (\<lambda>w. False) None b [k] w (fst (sdk_RemoveObject (demo_minio None) b k w))
      (snd (sdk_RemoveObject (demo_minio None) b k w))" for b k w
    using map_of_filter_keys [of "\<lambda>k'. k' \<noteq> (b, k)" w] by (auto simp: removed_def demo_minio_def demo_view_def)
  moreover have "ctx_seen (demo_minio None) w = None" for w by (simp add: demo_minio_def)
  ultimately show ?thesis by (simp add: lawful_def)
qed

definition demo_objects :: demo_store where
  "demo_objects = [((''b'', ''a'' @ [slash] @ ''x''), ''1''), ((''b'', ''a'' @ [slash] @ ''y''), ''2''), ((''b'', ''z''), ''3'')]"

lemma demo_rename: "RenameObject (demo_operator None) [] ''b'' (''a'' @ [slash]) ''c'' demo_objects =
    ([((''b'', ''c'' @ [slash] @ ''y''), ''2''), ((''b'', ''c'' @ [slash] @ ''x''), ''1''), ((''b'', ''z''), ''3'')], None)"
  by code_simp

theorem rename_directory_safe_witness:
  "demo_view [((''b'', ''c'' @ [slash] @ ''y''), ''2''), ((''b'', ''c'' @ [slash] @ ''x''), ''1''), ((''b'', ''z''), ''3'')]
     ''b'' (dir_key ''c'' @ ''x'') = demo_view demo_objects ''b'' ((''a'' @ [slash]) @ ''x'')"
proof -
  have "''a'' @ [slash] = dir_key (''a'' @ [slash])" "apart (''a'' @ [slash]) (dir_key ''c'')" by code_simp+
  note moved = rename_directory_safe [OF demo_lawful demo_client this demo_rename]
  have "demo_view demo_objects ''b'' ((''a'' @ [slash]) @ ''x'') \<noteq> None" by code_simp
  then show ?thesis using moved by simp
qed

text \<open>The copies are lost with the directory when it is moved into itself, and so is what lies beside a key that ends in two slashes.\<close>

lemma rename_loses:
  "RenameObject (demo_operator None) [] ''b'' (''a'' @ [slash]) (''a'' @ [slash] @ ''old'') demo_objects = ([((''b'', ''z''), ''3'')], None)"
  "RenameObject (demo_operator None) [] ''b'' (''a'' @ [slash, slash]) ''c'' demo_objects = ([((''b'', ''z''), ''3'')], None)"
  by code_simp+


section \<open>Retries\<close>

lemma retry_unrolled:
  "retry expired fn s =
     (case fn s of (s1, None) \<Rightarrow> (s1, [], None)
      | (s1, Some e1) \<Rightarrow> (case expired 0 of Some e \<Rightarrow> (s1, [1], Some e) | None \<Rightarrow>
     (case fn s1 of (s2, None) \<Rightarrow> (s2, [1], None)
      | (s2, Some e2) \<Rightarrow> (case expired 1 of Some e \<Rightarrow> (s2, [1, 2], Some e) | None \<Rightarrow>
     (case fn s2 of (s3, r) \<Rightarrow> (s3, [1, 2], r))))))"
proof -
  have 3: "retry_from expired fn 3 err s = (s, [], err)" for err s
    by (simp add: retry_from.simps [of _ _ 3] DefaultMaxRetries_def)
  have 2: "retry_from expired fn 2 err s = (case fn s of (s3, r) \<Rightarrow> (s3, [], r))" for err s
    by (simp add: retry_from.simps [of _ _ 2] DefaultMaxRetries_def 3 split: prod.split option.split)
  have 1: "retry_from expired fn 1 err s =
     (case fn s of (s2, None) \<Rightarrow> (s2, [], None)
      | (s2, Some e2) \<Rightarrow> (case expired 1 of Some e \<Rightarrow> (s2, [2], Some e) | None \<Rightarrow>
     (case fn s2 of (s3, r) \<Rightarrow> (s3, [2], r))))" for err s
    by (subst retry_from.simps) (simp add: DefaultMaxRetries_def 2 [unfolded numeral_2_eq_2] split: prod.split option.split)
  show ?thesis
    by (simp add: retry_def retry_from.simps [of _ _ 0] DefaultMaxRetries_def 1 [unfolded One_nat_def] split: prod.split option.split)
qed

text \<open>Retrying commutes with a function on states that the calls respect.\<close>

lemma retry_simulation:
  assumes "\<And>s. I s \<Longrightarrow> I (fst (fn s)) \<and> f (fst (fn s)) = fst (gn (f s)) \<and> snd (fn s) = snd (gn (f s))" and "I s"
  shows "(case retry expired fn s of (s', waits, r) \<Rightarrow> (f s', waits, r)) = retry expired gn (f s)"
proof -
  obtain s1 r1 where 1: "fn s = (s1, r1)" by fastforce
  obtain s2 r2 where 2: "fn s1 = (s2, r2)" by fastforce
  obtain s3 r3 where 3: "fn s2 = (s3, r3)" by fastforce
  have i: "I s1" "I s2" using assms(1) [of s] assms(1) [of s1] assms(2) 1 2 by simp_all
  have g: "gn (f s) = (f s1, r1)" "gn (f s1) = (f s2, r2)" "gn (f s2) = (f s3, r3)"
    using assms(1) [of s] assms(1) [of s1] assms(1) [of s2] assms(2) i 1 2 3 by (simp_all add: prod_eq_iff)
  show ?thesis unfolding retry_unrolled 1 g by (simp add: 2 3 g split: option.splits)
qed

text \<open>
  A body that can be rewound is sent again from where it stood: the attempts are those of a put of the same bytes.
  One that cannot is sent once.
\<close>

theorem put_sends_same_bytes:
  assumes "GetClient op name = Inr c" and "rd_seeker body" and "\<forall>n. rd_fault body n = None"
  shows "\<exists>body'. PutObject expired op name bucket key body len contentType w =
    (case retry expired
       (\<lambda>w. case cl_PutObject c bucket key (drop (rd_pos body) (rd_data body)) len contentType w of (w', n, r) \<Rightarrow> (w', r)) w
     of (w', waits, r) \<Rightarrow> ((body', w'), r))"
proof -
  let ?I = "\<lambda>s. rd_data (fst s) = rd_data body \<and> rd_fault (fst s) = rd_fault body"
  let ?put = "\<lambda>w. case cl_PutObject c bucket key (drop (rd_pos body) (rd_data body)) len contentType w of (w', n, r) \<Rightarrow> (w', r)"
  let ?fn = "put_attempt c bucket key len contentType (rd_pos body)"
  have start: "rd_seek (rd_pos body) body = (body\<lparr>rd_seeks := rd_seeks body + 1, rd_pos := rd_pos body\<rparr>, None)"
    using assms(3) by (simp add: rd_seek_def)
  let ?body = "body\<lparr>rd_seeks := rd_seeks body + 1, rd_pos := rd_pos body\<rparr>"
  have "(case retry expired ?fn (?body, w) of (s', waits, r) \<Rightarrow> (snd s', waits, r)) = retry expired ?put (snd (?body, w))"
    by (rule retry_simulation [where I = ?I])
       (auto simp: put_attempt_def put_reader_def rd_seek_def assms(3) split: prod.splits)
  moreover obtain body' w' waits r where run: "retry expired ?fn (?body, w) = ((body', w'), waits, r)"
    by (metis prod.exhaust)
  ultimately have "retry expired ?put w = (w', waits, r)" by simp
  moreover have "PutObject expired op name bucket key body len contentType w = ((body', w'), r)"
    using assms(1,2) start run by (simp add: PutObject_def with_client_def)
  ultimately show ?thesis by simp
qed

lemma put_once:
  assumes "GetClient op name = Inr c" and "\<not> rd_seeker body"
  shows "PutObject expired op name bucket key body len contentType w =
    (case cl_PutObject c bucket key (drop (rd_pos body) (rd_data body)) len contentType w of
       (w', n, r) \<Rightarrow> ((body\<lparr>rd_pos := rd_pos body + n\<rparr>, w'), r))"
  using assms by (simp add: PutObject_def with_client_def put_reader_def)

theorem put_sends_same_bytes_witness:
  "\<exists>body'. PutObject (\<lambda>i. None) (demo_operator None) [] ''b'' ''k''
      \<lparr>rd_data = ''abc'', rd_pos = 1, rd_seeker = True, rd_seeks = 0, rd_fault = \<lambda>n. None\<rparr> 2 [] [] =
    ((body', [((''b'', ''k''), ''bc'')]), None)"
proof -
  let ?put = "\<lambda>w. case cl_PutObject (minioClient (demo_minio None)) ''b'' ''k'' (drop 1 ''abc'') 2 [] w of (w', n, r) \<Rightarrow> (w', r)"
  have "retry (\<lambda>i. None) ?put [] = ([((''b'', ''k''), ''bc'')], [], None)"
    by (simp add: retry_unrolled demo_minio_def)
  then show ?thesis
    using put_sends_same_bytes [OF demo_client [of None], of
        "\<lparr>rd_data = ''abc'', rd_pos = 1, rd_seeker = True, rd_seeks = 0, rd_fault = \<lambda>n. None\<rparr>" "\<lambda>i. None" "''b''" "''k''" 2 "[]" "[]"]
    by simp
qed

section \<open>Downloads\<close>

lemma write_and_close_frame: "write_and_close fault path body l = (l', r) \<Longrightarrow> p \<noteq> path \<Longrightarrow> l' p = l p"
  by (auto simp: write_and_close_def Let_def split: option.splits prod.splits)

lemma fetch_item_inside:
  assumes "fetch_item fault c bucket prefix dir i (l, w) = ((l', w'), r)" and "l' p \<noteq> l p"
  shows "inside dir p"
proof -
  let ?path = "Join dir (trim_prefix (oi_Key i) prefix)"
  have changed: "p = ?path" and "\<exists>rel. Rel (Clean dir) ?path = Some rel \<and> IsLocal rel"
    using assms
    by (auto simp: fetch_item_def Let_def split: if_splits option.splits prod.splits sum.splits
        dest!: write_and_close_frame [of fault ?path _ _ _ _ p])
  then show ?thesis using local_is_inside by blast
qed

text \<open>C27. Whatever keys the store has, downloading a directory changes no file outside the local directory.\<close>

theorem downloads_stay_inside:
  assumes "FGetDirectory fault op name bucket prefix localDir (l, w) = ((l', w'), r)" and "l' p \<noteq> l p"
  shows "inside localDir p"
proof -
  have step: "inside localDir p"
    if "fetch_all fault c bucket pre localDir items (l, w) = ((l', w'), r)" "l' p \<noteq> l p" for c pre items l w
    using that
  proof (induction items arbitrary: l w)
    case (Cons i "is")
    show ?case
    proof (cases "oi_Err i = None \<and> \<not> oi_IsDir i")
      case False
      then show ?thesis using Cons by (auto split: option.splits if_splits)
    next
      case True
      obtain l1 w1 r1 where item: "fetch_item fault c bucket pre localDir i (l, w) = ((l1, w1), r1)"
        by (metis prod.exhaust)
      show ?thesis
      proof (cases "l1 p = l p")
        case False
        then show ?thesis by (rule fetch_item_inside [OF item])
      next
        case same: True
        then show ?thesis using Cons True item by (cases r1) auto
      qed
    qed
  qed simp
  show ?thesis
    using assms step by (auto simp: FGetDirectory_def with_client_def split: sum.splits prod.splits)
qed

definition demo_download :: "(files \<times> demo_store) \<times> obs_err option" where
  "demo_download = FGetDirectory (\<lambda>q l. None) (demo_operator None) [] ''b'' ''a'' ''d'' (\<lambda>p. None, demo_objects)"

theorem downloads_stay_inside_witness: "inside ''d'' (''d'' @ [slash] @ ''x'')"
proof -
  have "fst (fst demo_download) (''d'' @ [slash] @ ''x'') \<noteq> None" by code_simp
  then show ?thesis
    using downloads_stay_inside [of "\<lambda>q l. None" "demo_operator None" "[]" "''b''" "''a''" "''d''" "\<lambda>p. None" demo_objects
        "fst (fst demo_download)" "snd (fst demo_download)" "snd demo_download" "''d'' @ [slash] @ ''x''"]
    by (simp add: demo_download_def)
qed

text \<open>A key that leads out of the directory ends the download with an error.\<close>

lemma download_refuses_dots:
  "snd (FGetDirectory (\<lambda>q l. None) (demo_operator None) [] ''b'' ''p'' ''d''
     (\<lambda>p. None, [((''b'', ''p'' @ [slash] @ dots @ [slash] @ dots @ [slash] @ ''evil''), ''1'')])) =
   Some (Escapes (''p'' @ [slash] @ dots @ [slash] @ dots @ [slash] @ ''evil'') ''d'')"
  by code_simp

text \<open>An archive that fails leaves no path and no temporary file; no other file changes either way.\<close>

lemma zip_facts:
  assumes "FGetDirectoryAsZip fault tmp encode op name bucket prefix (l, w) = ((l', w'), path, r)"
    and "l tmp = None" and "\<And>l. fault (Op_Remove tmp) l = None"
  shows "(p \<noteq> tmp \<longrightarrow> l' p = l p) \<and> (r \<noteq> None \<longrightarrow> path = [] \<and> l' tmp = None) \<and>
    (r = None \<longrightarrow> path = tmp \<and> (\<exists>members. l' tmp = Some (encode members)))"
  using assms
  by (auto simp: FGetDirectoryAsZip_def with_client_def zip_remove_def Let_def split: sum.splits option.splits prod.splits)

section \<open>The registry\<close>

lemma validated:
  assumes "obs_Validate c = Inr cfg"
  shows "oc_Name cfg \<noteq> [] \<and> obs_Validate (Some cfg) = Inr cfg"
proof -
  obtain c0 where c0: "c = Some c0" using assms by (cases c) (simp_all add: obs_Validate_def)
  have parts: "oc_Endpoint c0 \<noteq> []" "oc_AccessKey c0 \<noteq> []" "oc_SecretKey c0 \<noteq> []"
    using assms c0 by (simp_all add: obs_Validate_def split: if_splits)
  then have cfg: "cfg = c0\<lparr>oc_MaxRetries := if oc_MaxRetries c0 \<le> 0 then int DefaultMaxRetries else oc_MaxRetries c0,
      oc_Timeout := if oc_Timeout c0 \<le> 0 then DefaultTimeout else oc_Timeout c0,
      oc_Name := if oc_Name c0 = [] then oc_Endpoint c0 else oc_Name c0\<rparr>"
    using assms c0 by (simp add: obs_Validate_def)
  have "obs_Validate (Some cfg) = Inr (cfg\<lparr>oc_MaxRetries := oc_MaxRetries cfg, oc_Timeout := oc_Timeout cfg, oc_Name := oc_Name cfg\<rparr>)"
    using parts unfolding cfg obs_Validate_def by (simp add: DefaultMaxRetries_def DefaultTimeout_def)
  then show ?thesis using parts by (simp add: cfg)
qed

lemma RegisterClient_ok:
  assumes "RegisterClient connect cfg op = (op', None)"
  shows "\<exists>c n. map_of (op_clients op') = (map_of (op_clients op))(n \<mapsto> c) \<and> n \<noteq> [] \<and> op_closed op' = op_closed op \<and>
    op_defaultName op' = (if op_defaultName op = [] then n else op_defaultName op)"
proof -
  obtain cfg' where cfg': "obs_Validate cfg = Inr cfg'"
    using assms by (cases "obs_Validate cfg") (simp_all add: RegisterClient_def)
  then obtain c where "connect cfg' = Inr c"
    using assms by (cases "connect cfg'") (simp_all add: RegisterClient_def)
  then have "op' = op\<lparr>op_defaultName := if op_defaultName op = [] then oc_Name cfg' else op_defaultName op,
      op_clients := AList.update (oc_Name cfg') c (op_clients op)\<rparr>"
    using assms cfg' by (simp add: RegisterClient_def)
  then show ?thesis
    using validated [OF cfg'] by (intro exI [of _ c] exI [of _ "oc_Name cfg'"]) (simp add: update_conv')
qed

lemma RegisterClient_keeps:
  assumes "RegisterClient connect cfg op = (op', r)" and "op_defaultName op \<noteq> []" and "\<not> op_closed op"
    and "map_of (op_clients op) (op_defaultName op) \<noteq> None"
  shows "op_defaultName op' = op_defaultName op \<and> \<not> op_closed op' \<and> map_of (op_clients op') (op_defaultName op') \<noteq> None"
proof (cases r)
  case None
  then show ?thesis using RegisterClient_ok assms by fastforce
next
  case (Some e)
  then show ?thesis using assms by (auto simp: RegisterClient_def split: sum.splits)
qed

text \<open>The empty name stands for the client the operator was made with, whatever is registered after it.\<close>

lemma default_client:
  assumes "NewOperator connect cfg = Inr op"
  shows "let op' = fold (\<lambda>cfg op. fst (RegisterClient connect cfg op)) cfgs op
    in op_defaultName op' = op_defaultName op \<and> GetClient op' [] = GetClient op' (op_defaultName op) \<and> (\<exists>c. GetClient op' [] = Inr c)"
proof -
  let ?I = "\<lambda>op'. op_defaultName op' = op_defaultName op \<and> \<not> op_closed op' \<and> map_of (op_clients op') (op_defaultName op') \<noteq> None"
  obtain cfg' where cfg': "obs_Validate cfg = Inr cfg'"
    and reg: "RegisterClient connect (Some cfg') \<lparr>op_clients = [], op_defaultName = [], op_closed = False\<rparr> = (op, None)"
    using assms by (auto simp: NewOperator_def split: sum.splits prod.splits option.splits)
  have nonempty: "op_defaultName op \<noteq> []" and start: "?I op"
    using RegisterClient_ok [OF reg] by auto
  have "?I (fold (\<lambda>cfg op. fst (RegisterClient connect cfg op)) cfgs op')" if "?I op'" for op'
    using that
  proof (induction cfgs arbitrary: op')
    case (Cons cfg cfgs)
    obtain op1 r where reg: "RegisterClient connect cfg op' = (op1, r)" by fastforce
    have "?I op1"
      using RegisterClient_keeps [OF reg] Cons.prems nonempty by metis
    then show ?case using Cons.IH reg by simp
  next
    case Nil
    then show ?case unfolding fold_simps id_apply .
  qed
  from this [OF start] show ?thesis using nonempty by (auto simp: GetClient_def Let_def split: option.splits)
qed

text \<open>A closed operator takes new clients without a word: they cannot be used, and a second \<open>Close\<close> passes them over.\<close>

lemma register_after_close:
  assumes "op_closed op" and "RegisterClient connect cfg op = (op', None)"
  shows "op_clients op' \<noteq> [] \<and> GetClient op' name = Inl ErrOperatorClosed \<and> obs_Close op' w = (op', w, None)"
  using RegisterClient_ok [OF assms(2)] assms(1)
  by (auto simp: GetClient_def obs_Close_def fun_upd_def dest!: fun_cong split: if_splits)

end
