(* ===== verification/Mongo.thy ===== *)
theory Mongo
  imports Go_Strings Go_Words
begin

text \<open>
  The package \<open>mongo\<close>: the configuration with its defaults, the log text of an address, the global operator, the
  repositories and collections that are kept, and the operations of a repository. The driver is an argument: a record of
  its calls over a state of any type. \<open>'v\<close> are the values that go through BSON, \<open>'o\<close> the options of a call, \<open>'t\<close> the
  type of the documents of a repository.
\<close>

section \<open>Errors\<close>

text \<open>The errors of \<open>pingcap/errors\<close> that the package makes: a text, or a text around another error.\<close>

datatype merr = Driver string | ErrNoDocuments | Text string | Wrap string merr

fun merr_Cause :: "merr \<Rightarrow> merr" where
  "merr_Cause (Wrap msg e) = merr_Cause e"
| "merr_Cause e = e"

definition IsDuplicateKeyError :: "(merr \<Rightarrow> bool) \<Rightarrow> merr \<Rightarrow> bool" where
  "IsDuplicateKeyError driver_dup e = driver_dup (merr_Cause e)"

definition IsNotFoundError :: "merr \<Rightarrow> bool" where
  "IsNotFoundError e \<longleftrightarrow> merr_Cause e = ErrNoDocuments"

section \<open>The configuration\<close>

text \<open>
  The credentials are behind a pointer, which a configuration may share with a copy of it: the cells of the store are
  the \<open>AuthConfig\<close>s, and a configuration holds the number of one.
\<close>

record AuthConfig =
  au_Username :: string
  au_Password :: string
  au_AuthSource :: string
  au_AuthMechanism :: string

record mongo_config =
  mg_URI :: string
  mg_MaxPoolSize :: "64 word"
  mg_MinPoolSize :: "64 word"
  mg_MaxConnIdleTime :: "64 word"
  mg_ConnectTimeout :: "64 word"
  mg_SocketTimeout :: "64 word"
  mg_ServerSelectionTimeout :: "64 word"
  mg_HeartbeatInterval :: "64 word"
  mg_ReplicaSet :: string
  mg_Auth :: "nat option"

type_synonym auths = "AuthConfig list"

definition mongo_Validate :: "mongo_config \<Rightarrow> merr option" where
  "mongo_Validate c =
     (if mg_URI c = [] then Some (Text ''URI is required'')
      else if mg_MaxPoolSize c < mg_MinPoolSize c then
        Some (Text ''MaxPoolSize must be greater than or equal to MinPoolSize'')
      else if mg_MaxPoolSize c = 0 then Some (Text ''MaxPoolSize must be greater than 0'')
      else if mg_ConnectTimeout c \<le> 0 then Some (Text ''ConnectTimeout must be greater than 0'')
      else None)"

definition setIfZero :: "64 word \<Rightarrow> 64 word \<Rightarrow> 64 word" where
  "setIfZero value defaultValue = (if value = 0 then defaultValue else value)"

definition setIfEmpty :: "string \<Rightarrow> string \<Rightarrow> string" where
  "setIfEmpty value defaultValue = (if value = [] then defaultValue else value)"

definition default_config :: mongo_config where
  "default_config =
     \<lparr>mg_URI = [], mg_MaxPoolSize = 100, mg_MinPoolSize = 10, mg_MaxConnIdleTime = 30, mg_ConnectTimeout = 10,
      mg_SocketTimeout = 30, mg_ServerSelectionTimeout = 10, mg_HeartbeatInterval = 10, mg_ReplicaSet = [], mg_Auth = None\<rparr>"

text \<open>
  The defaults are those of the package at the time, \<open>d\<close>. The credentials are written field by field into those the
  copy points to, which are the caller's.
\<close>

definition defaulted :: "mongo_config \<Rightarrow> mongo_config \<Rightarrow> mongo_config" where
  "defaulted d c =
     \<lparr>mg_URI = mg_URI c,
      mg_MaxPoolSize = setIfZero (mg_MaxPoolSize c) (mg_MaxPoolSize d),
      mg_MinPoolSize = setIfZero (mg_MinPoolSize c) (mg_MinPoolSize d),
      mg_MaxConnIdleTime = setIfZero (mg_MaxConnIdleTime c) (mg_MaxConnIdleTime d),
      mg_ConnectTimeout = setIfZero (mg_ConnectTimeout c) (mg_ConnectTimeout d),
      mg_SocketTimeout = setIfZero (mg_SocketTimeout c) (mg_SocketTimeout d),
      mg_ServerSelectionTimeout = setIfZero (mg_ServerSelectionTimeout c) (mg_ServerSelectionTimeout d),
      mg_HeartbeatInterval = setIfZero (mg_HeartbeatInterval c) (mg_HeartbeatInterval d),
      mg_ReplicaSet = mg_ReplicaSet c, mg_Auth = mg_Auth c\<rparr>"

definition applyDefaultConfig :: "mongo_config \<Rightarrow> mongo_config \<Rightarrow> auths \<Rightarrow> mongo_config \<times> auths" where
  "applyDefaultConfig d c heap =
     (defaulted d c,
      case mg_Auth c of
        None \<Rightarrow> heap
      | Some a \<Rightarrow> heap[a := \<lparr>au_Username = au_Username (heap ! a), au_Password = au_Password (heap ! a),
                              au_AuthSource = setIfEmpty (au_AuthSource (heap ! a)) ''admin'',
                              au_AuthMechanism = au_AuthMechanism (heap ! a)\<rparr>])"

definition SetDefaultConfig :: "mongo_config option \<Rightarrow> mongo_config \<Rightarrow> mongo_config" where
  "SetDefaultConfig config d =
     (case config of
        None \<Rightarrow> d
      | Some c \<Rightarrow>
          d\<lparr>mg_MaxPoolSize := setIfZero (mg_MaxPoolSize c) (mg_MaxPoolSize d),
            mg_MinPoolSize := setIfZero (mg_MinPoolSize c) (mg_MinPoolSize d),
            mg_MaxConnIdleTime := setIfZero (mg_MaxConnIdleTime c) (mg_MaxConnIdleTime d),
            mg_ConnectTimeout := setIfZero (mg_ConnectTimeout c) (mg_ConnectTimeout d),
            mg_SocketTimeout := setIfZero (mg_SocketTimeout c) (mg_SocketTimeout d),
            mg_ServerSelectionTimeout := setIfZero (mg_ServerSelectionTimeout c) (mg_ServerSelectionTimeout d),
            mg_HeartbeatInterval := setIfZero (mg_HeartbeatInterval c) (mg_HeartbeatInterval d),
            mg_ReplicaSet := setIfEmpty (mg_ReplicaSet c) (mg_ReplicaSet d),
            mg_Auth := (case mg_Auth c of None \<Rightarrow> mg_Auth d | Some a \<Rightarrow> Some a)\<rparr>)"

text \<open>The copy that \<open>GetDefaultConfig\<close> returns has every field of the defaults, the pointer to the credentials too.\<close>

definition GetDefaultConfig :: "mongo_config \<Rightarrow> mongo_config" where
  "GetDefaultConfig d = d"

text \<open>What the driver is given. A number of seconds becomes a duration of 64 bits by a product that may wrap.\<close>

definition mongo_seconds :: "64 word \<Rightarrow> 64 word" where
  "mongo_seconds n = n * 1000000000"

record credential =
  cr_Username :: string
  cr_Password :: string
  cr_AuthSource :: string
  cr_AuthMechanism :: string

record client_options =
  co_URI :: string
  co_MaxPoolSize :: "64 word"
  co_MinPoolSize :: "64 word"
  co_MaxConnIdleTime :: "64 word"
  co_ConnectTimeout :: "64 word"
  co_SocketTimeout :: "64 word"
  co_ServerSelectionTimeout :: "64 word"
  co_HeartbeatInterval :: "64 word"
  co_ReadPrimary :: bool
  co_WriteMajority :: bool
  co_RetryWrites :: bool
  co_RetryReads :: bool
  co_ReplicaSet :: "string option"
  co_Auth :: "credential option"

definition buildClientOptions :: "mongo_config \<Rightarrow> auths \<Rightarrow> client_options" where
  "buildClientOptions c heap =
     \<lparr>co_URI = mg_URI c, co_MaxPoolSize = mg_MaxPoolSize c, co_MinPoolSize = mg_MinPoolSize c,
      co_MaxConnIdleTime = mongo_seconds (mg_MaxConnIdleTime c), co_ConnectTimeout = mongo_seconds (mg_ConnectTimeout c),
      co_SocketTimeout = mongo_seconds (mg_SocketTimeout c),
      co_ServerSelectionTimeout = mongo_seconds (mg_ServerSelectionTimeout c),
      co_HeartbeatInterval = mongo_seconds (mg_HeartbeatInterval c),
      co_ReadPrimary = True, co_WriteMajority = True, co_RetryWrites = True, co_RetryReads = True,
      co_ReplicaSet = (if mg_ReplicaSet c = [] then None else Some (mg_ReplicaSet c)),
      co_Auth =
        (case mg_Auth c of
           None \<Rightarrow> None
         | Some a \<Rightarrow>
             let au = heap ! a
             in if au_Username au = [] then None
                else Some \<lparr>cr_Username = au_Username au, cr_Password = au_Password au,
                           cr_AuthSource = au_AuthSource au, cr_AuthMechanism = au_AuthMechanism au\<rparr>)\<rparr>"

section \<open>The address in the log\<close>

definition uri_truncate :: "string \<Rightarrow> string" where
  "uri_truncate s = (if length s \<le> 50 then s else take 50 s @ ''...'')"

definition mongo_scheme :: string where "mongo_scheme = ''mongodb:'' @ [CHR 0x2F, CHR 0x2F]"
definition mongo_srv_scheme :: string where "mongo_srv_scheme = ''mongodb+srv:'' @ [CHR 0x2F, CHR 0x2F]"

definition protocol_end :: "string \<Rightarrow> nat option" where
  "protocol_end uri =
     (if length mongo_scheme < length uri \<and> has_prefix uri mongo_scheme then Some (length mongo_scheme)
      else if length mongo_srv_scheme < length uri \<and> has_prefix uri mongo_srv_scheme then Some (length mongo_srv_scheme)
      else None)"

text \<open>The loops that look for a character: its first position, if there is one.\<close>

fun index_of :: "char \<Rightarrow> string \<Rightarrow> nat option" where
  "index_of c [] = None"
| "index_of c (x # xs) = (if x = c then Some 0 else map_option Suc (index_of c xs))"

definition maskURI :: "string \<Rightarrow> string" where
  "maskURI uri =
     (if uri = [] then []
      else case protocol_end uri of
        None \<Rightarrow> uri_truncate uri
      | Some n \<Rightarrow>
          (case index_of (CHR ''@'') (drop n uri) of
             None \<Rightarrow> uri_truncate uri
           | Some i \<Rightarrow>
               (let userPass = take i (drop n uri); hostPart = drop i (drop n uri)
                in case index_of (CHR '':'') userPass of
                     None \<Rightarrow> uri_truncate uri
                   | Some j \<Rightarrow>
                       if j = 0 then uri_truncate uri
                       else uri_truncate (take n uri @ take j userPass @ '':****'' @ hostPart))))"

section \<open>The operator\<close>

text \<open>
  An operator is the number of its client. \<open>connect\<close>, \<open>ping\<close> and \<open>disconnect\<close> are the driver's, over a state of any type;
  the logger is left out. The global operator is set under its lock, each call one step.
\<close>

record ('c, 'w) mongo_driver =
  dr_Connect :: "client_options \<Rightarrow> 'w \<Rightarrow> 'w \<times> (merr + 'c)"
  dr_Ping :: "'c \<Rightarrow> 'w \<Rightarrow> 'w \<times> merr option"
  dr_Disconnect :: "'c \<Rightarrow> 'w \<Rightarrow> 'w \<times> merr option"

record 'c mongo_operator =
  mo_cli :: 'c
  mo_config :: mongo_config

definition NewMongoOperator ::
    "('c, 'w) mongo_driver \<Rightarrow> mongo_config \<Rightarrow> mongo_config option \<Rightarrow> auths \<times> 'w
     \<Rightarrow> (auths \<times> 'w) \<times> (merr + 'c mongo_operator)" where
  "NewMongoOperator dr d config = (\<lambda>(heap, w).
     (case config of
        None \<Rightarrow> ((heap, w), Inl (Text ''config is nil''))
      | Some c \<Rightarrow>
          (case applyDefaultConfig d c heap of
             (c, heap) \<Rightarrow>
               if mg_URI c = [] then ((heap, w), Inl (Text ''mongo URI is required''))
               else
                 (case dr_Connect dr (buildClientOptions c heap) w of
                    (w, Inl e) \<Rightarrow> ((heap, w), Inl (Wrap ''connect to mongo failed'' e))
                  | (w, Inr cli) \<Rightarrow> ((heap, w), Inr \<lparr>mo_cli = cli, mo_config = c\<rparr>)))))"

definition mongo_Ping :: "('c, 'w) mongo_driver \<Rightarrow> 'c mongo_operator \<Rightarrow> 'w \<Rightarrow> 'w \<times> merr option" where
  "mongo_Ping dr op w = dr_Ping dr (mo_cli op) w"

definition mongo_Close :: "('c, 'w) mongo_driver \<Rightarrow> 'c mongo_operator \<Rightarrow> 'w \<Rightarrow> 'w \<times> merr option" where
  "mongo_Close dr op w = dr_Disconnect dr (mo_cli op) w"

definition InitMongoOperator ::
    "('c, 'w) mongo_driver \<Rightarrow> mongo_config \<Rightarrow> mongo_config option \<Rightarrow> 'c mongo_operator option \<times> auths \<times> 'w
     \<Rightarrow> ('c mongo_operator option \<times> auths \<times> 'w) \<times> merr option" where
  "InitMongoOperator dr d config = (\<lambda>(operator, heap, w).
     (case operator of
        Some op \<Rightarrow> ((operator, heap, w), None)
      | None \<Rightarrow>
          (case NewMongoOperator dr d config (heap, w) of
             ((heap, w), Inl e) \<Rightarrow> ((None, heap, w), Some e)
           | ((heap, w), Inr op) \<Rightarrow>
               (case mongo_Ping dr op w of
                  (w, Some e) \<Rightarrow> ((None, heap, fst (mongo_Close dr op w)), Some e)
                | (w, None) \<Rightarrow> ((Some op, heap, w), None)))))"

text \<open>\<open>None\<close> is the panic of an operator that was not initialized.\<close>

definition GetOperator :: "'c mongo_operator option \<Rightarrow> 'c mongo_operator option" where
  "GetOperator operator = operator"

section \<open>Collections and repositories that are kept\<close>

text \<open>
  A collection is known by the names it was made for; the driver makes one from a client. The manager of collections
  keeps them under the two names with a dot between them.
\<close>

definition collection_key :: "string \<Rightarrow> string \<Rightarrow> string" where
  "collection_key dbName collName = dbName @ ''.'' @ collName"

type_synonym 'k collections = "string \<rightharpoonup> 'k"

definition GetCollection :: "(string \<Rightarrow> string \<Rightarrow> 'k) \<Rightarrow> string \<Rightarrow> string \<Rightarrow> 'k collections \<Rightarrow> 'k collections \<times> 'k" where
  "GetCollection mk dbName collName m =
     (case m (collection_key dbName collName) of
        Some c \<Rightarrow> (m, c)
      | None \<Rightarrow> (m(collection_key dbName collName \<mapsto> mk dbName collName), mk dbName collName))"

definition RemoveCollection :: "string \<Rightarrow> string \<Rightarrow> 'k collections \<Rightarrow> 'k collections" where
  "RemoveCollection dbName collName m = m(collection_key dbName collName := None)"

definition ClearAll :: "'k collections \<Rightarrow> 'k collections" where
  "ClearAll m = Map.empty"

definition CollectionStats ::
    "(string \<Rightarrow> string \<Rightarrow> 'k) \<Rightarrow> ('k \<Rightarrow> string \<times> string \<Rightarrow> 'w \<Rightarrow> 'w \<times> (merr + 'v)) \<Rightarrow> string \<Rightarrow> string \<Rightarrow> 'k collections \<times> 'w
     \<Rightarrow> ('k collections \<times> 'w) \<times> (merr + 'v)" where
  "CollectionStats mk run_command dbName collName = (\<lambda>(m, w).
     (case GetCollection mk dbName collName m of
        (m, coll) \<Rightarrow> (case run_command coll (''collStats'', collName) w of (w, r) \<Rightarrow> ((m, w), r))))"

text \<open>
  \<open>GetRepository\<close> looks a repository up, and makes and stores one if there is none. The \<open>sync.Once\<close> of the code is a
  local variable of the call: it holds up no other goroutine. A repository is the number it was made with.
\<close>

record repo_key =
  rk_DBName :: string
  rk_CollName :: string
  rk_TypeName :: string

datatype repo_pc = RIdle | RMissed repo_key | RMade repo_key nat | RGot repo_key nat

record repo_sys =
  rs_repos :: "repo_key \<rightharpoonup> nat"
  rs_pc :: "nat \<Rightarrow> repo_pc"
  rs_made :: "repo_key list"   \<comment> \<open>the keys of the repositories made so far, by their numbers\<close>

inductive repo_step :: "repo_sys \<Rightarrow> repo_sys \<Rightarrow> bool" where
  hit: "\<lbrakk>rs_pc s t = RIdle; rs_repos s key = Some r\<rbrakk> \<Longrightarrow> repo_step s (s\<lparr>rs_pc := (rs_pc s)(t := RGot key r)\<rparr>)"
| miss: "\<lbrakk>rs_pc s t = RIdle; rs_repos s key = None\<rbrakk> \<Longrightarrow> repo_step s (s\<lparr>rs_pc := (rs_pc s)(t := RMissed key)\<rparr>)"
| new: "rs_pc s t = RMissed key \<Longrightarrow>
    repo_step s (s\<lparr>rs_pc := (rs_pc s)(t := RMade key (length (rs_made s))), rs_made := rs_made s @ [key]\<rparr>)"
| store: "rs_pc s t = RMade key r \<Longrightarrow>
    repo_step s (s\<lparr>rs_pc := (rs_pc s)(t := RGot key r), rs_repos := (rs_repos s)(key \<mapsto> r)\<rparr>)"
| remove: "rs_pc s t = RIdle \<Longrightarrow> repo_step s (s\<lparr>rs_repos := (rs_repos s)(key := None)\<rparr>)"
| again: "rs_pc s t = RGot key r \<Longrightarrow> repo_step s (s\<lparr>rs_pc := (rs_pc s)(t := RIdle)\<rparr>)"

definition repo_start :: repo_sys where
  "repo_start = \<lparr>rs_repos = Map.empty, rs_pc = (\<lambda>t. RIdle), rs_made = []\<rparr>"

record 'o repository_builder =
  rb_dbName :: string
  rb_collName :: string
  rb_opts :: "'o list"

definition NewRepositoryBuilder :: "'o repository_builder" where
  "NewRepositoryBuilder = \<lparr>rb_dbName = [], rb_collName = [], rb_opts = []\<rparr>"

definition WithDatabase :: "string \<Rightarrow> 'o repository_builder \<Rightarrow> 'o repository_builder" where
  "WithDatabase dbName b = b\<lparr>rb_dbName := dbName\<rparr>"

definition WithCollection :: "string \<Rightarrow> 'o repository_builder \<Rightarrow> 'o repository_builder" where
  "WithCollection collName b = b\<lparr>rb_collName := collName\<rparr>"

definition WithOptions :: "'o list \<Rightarrow> 'o repository_builder \<Rightarrow> 'o repository_builder" where
  "WithOptions opts b = b\<lparr>rb_opts := rb_opts b @ opts\<rparr>"

text \<open>What a builder, or the names of a collection, ask of \<open>GetRepository\<close>: the key and the options.\<close>

definition repository_request :: "string \<Rightarrow> 'o repository_builder \<Rightarrow> repo_key \<times> 'o list" where
  "repository_request typeName b =
     (\<lparr>rk_DBName = rb_dbName b, rk_CollName = rb_collName b, rk_TypeName = typeName\<rparr>, rb_opts b)"


section \<open>The operations of a repository\<close>

text \<open>
  The calls of the driver for one collection and its database. A document is found as an answer that decodes to one, or
  is the error that there is none; a query answers a cursor, whose \<open>All\<close> decodes everything it delivers.
\<close>

datatype 'v inserted_id = ObjectID string | IdString string | IdOther 'v

record ('v, 'o, 'w) mcollection =
  dc_InsertOne :: "'v \<Rightarrow> 'o list \<Rightarrow> 'w \<Rightarrow> 'w \<times> (merr + 'v inserted_id)"
  dc_InsertMany :: "'v list \<Rightarrow> 'o list \<Rightarrow> 'w \<Rightarrow> 'w \<times> (merr + 'v inserted_id list)"
  dc_FindOne :: "'v \<Rightarrow> 'o list \<Rightarrow> 'w \<Rightarrow> 'w \<times> (merr + 'v)"
  dc_Find :: "'v \<Rightarrow> 'o list \<Rightarrow> 'w \<Rightarrow> 'w \<times> (merr + (merr + 'v list))"
  dc_Count :: "'v \<Rightarrow> 'o list \<Rightarrow> 'w \<Rightarrow> 'w \<times> (merr + 64 word)"
  dc_EstimatedCount :: "'o list \<Rightarrow> 'w \<Rightarrow> 'w \<times> (merr + 64 word)"
  dc_UpdateOne :: "'v \<Rightarrow> 'v \<Rightarrow> 'o list \<Rightarrow> 'w \<Rightarrow> 'w \<times> (merr + 'v)"
  dc_UpdateMany :: "'v \<Rightarrow> 'v \<Rightarrow> 'o list \<Rightarrow> 'w \<Rightarrow> 'w \<times> (merr + 'v)"
  dc_ReplaceOne :: "'v \<Rightarrow> 'v \<Rightarrow> 'o list \<Rightarrow> 'w \<Rightarrow> 'w \<times> (merr + 'v)"
  dc_DeleteOne :: "'v \<Rightarrow> 'o list \<Rightarrow> 'w \<Rightarrow> 'w \<times> (merr + 'v)"
  dc_DeleteMany :: "'v \<Rightarrow> 'o list \<Rightarrow> 'w \<Rightarrow> 'w \<times> (merr + 'v)"
  dc_FindOneAndUpdate :: "'v \<Rightarrow> 'v \<Rightarrow> 'o list \<Rightarrow> 'w \<Rightarrow> 'w \<times> (merr + 'v)"
  dc_FindOneAndReplace :: "'v \<Rightarrow> 'v \<Rightarrow> 'o list \<Rightarrow> 'w \<Rightarrow> 'w \<times> (merr + 'v)"
  dc_FindOneAndDelete :: "'v \<Rightarrow> 'o list \<Rightarrow> 'w \<Rightarrow> 'w \<times> (merr + 'v)"
  dc_BulkWrite :: "'v list \<Rightarrow> 'o list \<Rightarrow> 'w \<Rightarrow> 'w \<times> (merr + 'v)"
  dc_Distinct :: "string \<Rightarrow> 'v \<Rightarrow> 'o list \<Rightarrow> 'w \<Rightarrow> 'w \<times> (merr + 'v list)"
  dc_Aggregate :: "'v \<Rightarrow> 'o list \<Rightarrow> 'w \<Rightarrow> 'w \<times> (merr + (merr + 'v list))"
  dc_CreateIndex :: "'v \<Rightarrow> 'o list \<Rightarrow> 'w \<Rightarrow> 'w \<times> (merr + string)"
  dc_CreateIndexes :: "'v list \<Rightarrow> 'o list \<Rightarrow> 'w \<Rightarrow> 'w \<times> (merr + string list)"
  dc_DropIndex :: "string \<Rightarrow> 'o list \<Rightarrow> 'w \<Rightarrow> 'w \<times> (merr + 'v)"
  dc_DropAllIndexes :: "'o list \<Rightarrow> 'w \<Rightarrow> 'w \<times> (merr + 'v)"
  dc_ListIndexes :: "'o list \<Rightarrow> 'w \<Rightarrow> 'w \<times> (merr + 'v)"
  dc_Watch :: "'v \<Rightarrow> 'o list \<Rightarrow> 'w \<Rightarrow> 'w \<times> (merr + 'v)"
  dc_CreateCollection :: "'o list \<Rightarrow> 'w \<Rightarrow> 'w \<times> merr option"
  dc_DropCollection :: "'w \<Rightarrow> 'w \<times> merr option"
  dc_ListCollectionNames :: "'w \<Rightarrow> 'w \<times> (merr + string list)"
  dc_by_id :: "string \<Rightarrow> 'v"            \<comment> \<open>the filter \<open>bson.M{"_id": id}\<close>\<close>
  dc_from_hex :: "string \<Rightarrow> string option" \<comment> \<open>\<open>primitive.ObjectIDFromHex\<close>\<close>

text \<open>What the operations share: the text around an error of the driver.\<close>

definition wrapped :: "string \<Rightarrow> 'w \<times> (merr + 'r) \<Rightarrow> 'w \<times> (merr + 'r)" where
  "wrapped msg r = (case r of (w, Inl e) \<Rightarrow> (w, Inl (Wrap msg e)) | (w, Inr x) \<Rightarrow> (w, Inr x))"

definition wrapped_error :: "string \<Rightarrow> 'w \<times> merr option \<Rightarrow> 'w \<times> merr option" where
  "wrapped_error msg r = (case r of (w, e) \<Rightarrow> (w, map_option (Wrap msg) e))"

definition just_error :: "'w \<times> (merr + 'r) \<Rightarrow> 'w \<times> merr option" where
  "just_error r = (case r of (w, Inl e) \<Rightarrow> (w, Some e) | (w, Inr x) \<Rightarrow> (w, None))"

text \<open>One document: that there is none is no error but an empty answer. A document that does not decode is an error.\<close>

definition one_found :: "('v \<Rightarrow> merr + 't) \<Rightarrow> string \<Rightarrow> 'w \<times> (merr + 'v) \<Rightarrow> 'w \<times> (merr + 't option)" where
  "one_found decode msg r =
     (case r of
        (w, Inl e) \<Rightarrow> (w, if e = ErrNoDocuments then Inr None else Inl (Wrap msg e))
      | (w, Inr raw) \<Rightarrow>
          (w, case decode raw of
                Inl e \<Rightarrow> if e = ErrNoDocuments then Inr None else Inl (Wrap msg e)
              | Inr t \<Rightarrow> Inr (Some t)))"

fun decode_all :: "('v \<Rightarrow> merr + 't) \<Rightarrow> 'v list \<Rightarrow> merr + 't list" where
  "decode_all decode [] = Inr []"
| "decode_all decode (v # vs) =
     (case decode v of
        Inl e \<Rightarrow> Inl e
      | Inr t \<Rightarrow> (case decode_all decode vs of Inl e \<Rightarrow> Inl e | Inr ts \<Rightarrow> Inr (t # ts)))"

definition all_found ::
    "('v \<Rightarrow> merr + 't) \<Rightarrow> string \<Rightarrow> string \<Rightarrow> 'w \<times> (merr + (merr + 'v list)) \<Rightarrow> 'w \<times> (merr + 't list)" where
  "all_found decode query_msg decode_msg r =
     (case r of
        (w, Inl e) \<Rightarrow> (w, Inl (Wrap query_msg e))
      | (w, Inr (Inl e)) \<Rightarrow> (w, Inl (Wrap decode_msg e))
      | (w, Inr (Inr raws)) \<Rightarrow>
          (w, case decode_all decode raws of Inl e \<Rightarrow> Inl (Wrap decode_msg e) | Inr ts \<Rightarrow> Inr ts))"

definition NilObjectID :: string where "NilObjectID = replicate 12 (CHR 0x00)"

definition InsertOne :: "('v, 'o, 'w) mcollection \<Rightarrow> 'v \<Rightarrow> 'o list \<Rightarrow> 'w \<Rightarrow> 'w \<times> (merr + string)" where
  "InsertOne c doc opts w =
     (case wrapped ''insert failed'' (dc_InsertOne c doc opts w) of
        (w, Inl e) \<Rightarrow> (w, Inl e)
      | (w, Inr (ObjectID oid)) \<Rightarrow> (w, Inr oid)
      | (w, Inr (IdString v)) \<Rightarrow> (w, Inr (case dc_from_hex c v of Some oid \<Rightarrow> oid | None \<Rightarrow> NilObjectID))
      | (w, Inr (IdOther x)) \<Rightarrow> (w, Inr NilObjectID))"

definition object_ids :: "'v inserted_id list \<Rightarrow> string list" where
  "object_ids ids = concat (map (\<lambda>i. case i of ObjectID oid \<Rightarrow> [oid] | _ \<Rightarrow> []) ids)"

definition InsertMany :: "('v, 'o, 'w) mcollection \<Rightarrow> 'v list \<Rightarrow> 'o list \<Rightarrow> 'w \<Rightarrow> 'w \<times> (merr + string list)" where
  "InsertMany c docs opts w =
     (case wrapped ''insert many failed'' (dc_InsertMany c docs opts w) of
        (w, Inl e) \<Rightarrow> (w, Inl e)
      | (w, Inr ids) \<Rightarrow> (w, Inr (object_ids ids)))"

definition FindOne :: "('v \<Rightarrow> merr + 't) \<Rightarrow> ('v, 'o, 'w) mcollection \<Rightarrow> 'v \<Rightarrow> 'o list \<Rightarrow> 'w \<Rightarrow> 'w \<times> (merr + 't option)" where
  "FindOne decode c f opts w = one_found decode ''find one failed'' (dc_FindOne c f opts w)"

definition FindByID :: "('v \<Rightarrow> merr + 't) \<Rightarrow> ('v, 'o, 'w) mcollection \<Rightarrow> string \<Rightarrow> 'o list \<Rightarrow> 'w \<Rightarrow> 'w \<times> (merr + 't option)" where
  "FindByID decode c oid opts w = FindOne decode c (dc_by_id c oid) opts w"

definition Find :: "('v \<Rightarrow> merr + 't) \<Rightarrow> ('v, 'o, 'w) mcollection \<Rightarrow> 'v \<Rightarrow> 'o list \<Rightarrow> 'w \<Rightarrow> 'w \<times> (merr + 't list)" where
  "Find decode c f opts w = all_found decode ''find query failed'' ''decode results failed'' (dc_Find c f opts w)"

definition mongo_Count :: "('v, 'o, 'w) mcollection \<Rightarrow> 'v \<Rightarrow> 'o list \<Rightarrow> 'w \<Rightarrow> 'w \<times> (merr + 64 word)" where
  "mongo_Count c f opts w = wrapped ''count documents failed'' (dc_Count c f opts w)"

definition EstimatedCount :: "('v, 'o, 'w) mcollection \<Rightarrow> 'o list \<Rightarrow> 'w \<Rightarrow> 'w \<times> (merr + 64 word)" where
  "EstimatedCount c opts w = wrapped ''estimated document count failed'' (dc_EstimatedCount c opts w)"

definition UpdateOne :: "('v, 'o, 'w) mcollection \<Rightarrow> 'v \<Rightarrow> 'v \<Rightarrow> 'o list \<Rightarrow> 'w \<Rightarrow> 'w \<times> (merr + 'v)" where
  "UpdateOne c f update opts w = wrapped ''update one failed'' (dc_UpdateOne c f update opts w)"

definition UpdateByID :: "('v, 'o, 'w) mcollection \<Rightarrow> string \<Rightarrow> 'v \<Rightarrow> 'o list \<Rightarrow> 'w \<Rightarrow> 'w \<times> (merr + 'v)" where
  "UpdateByID c oid update opts w = UpdateOne c (dc_by_id c oid) update opts w"

definition UpdateMany :: "('v, 'o, 'w) mcollection \<Rightarrow> 'v \<Rightarrow> 'v \<Rightarrow> 'o list \<Rightarrow> 'w \<Rightarrow> 'w \<times> (merr + 'v)" where
  "UpdateMany c f update opts w = wrapped ''update many failed'' (dc_UpdateMany c f update opts w)"

definition ReplaceOne :: "('v, 'o, 'w) mcollection \<Rightarrow> 'v \<Rightarrow> 'v \<Rightarrow> 'o list \<Rightarrow> 'w \<Rightarrow> 'w \<times> (merr + 'v)" where
  "ReplaceOne c f replacement opts w = wrapped ''replace one failed'' (dc_ReplaceOne c f replacement opts w)"

definition DeleteOne :: "('v, 'o, 'w) mcollection \<Rightarrow> 'v \<Rightarrow> 'o list \<Rightarrow> 'w \<Rightarrow> 'w \<times> (merr + 'v)" where
  "DeleteOne c f opts w = wrapped ''delete one failed'' (dc_DeleteOne c f opts w)"

definition DeleteByID :: "('v, 'o, 'w) mcollection \<Rightarrow> string \<Rightarrow> 'o list \<Rightarrow> 'w \<Rightarrow> 'w \<times> (merr + 'v)" where
  "DeleteByID c oid opts w = DeleteOne c (dc_by_id c oid) opts w"

definition DeleteMany :: "('v, 'o, 'w) mcollection \<Rightarrow> 'v \<Rightarrow> 'o list \<Rightarrow> 'w \<Rightarrow> 'w \<times> (merr + 'v)" where
  "DeleteMany c f opts w = wrapped ''delete many failed'' (dc_DeleteMany c f opts w)"

definition FindOneAndUpdate ::
    "('v \<Rightarrow> merr + 't) \<Rightarrow> ('v, 'o, 'w) mcollection \<Rightarrow> 'v \<Rightarrow> 'v \<Rightarrow> 'o list \<Rightarrow> 'w \<Rightarrow> 'w \<times> (merr + 't option)" where
  "FindOneAndUpdate decode c f update opts w = one_found decode ''find one and update failed'' (dc_FindOneAndUpdate c f update opts w)"

definition FindOneAndReplace ::
    "('v \<Rightarrow> merr + 't) \<Rightarrow> ('v, 'o, 'w) mcollection \<Rightarrow> 'v \<Rightarrow> 'v \<Rightarrow> 'o list \<Rightarrow> 'w \<Rightarrow> 'w \<times> (merr + 't option)" where
  "FindOneAndReplace decode c f replacement opts w =
     one_found decode ''find one and replace failed'' (dc_FindOneAndReplace c f replacement opts w)"

definition FindOneAndDelete ::
    "('v \<Rightarrow> merr + 't) \<Rightarrow> ('v, 'o, 'w) mcollection \<Rightarrow> 'v \<Rightarrow> 'o list \<Rightarrow> 'w \<Rightarrow> 'w \<times> (merr + 't option)" where
  "FindOneAndDelete decode c f opts w = one_found decode ''find one and delete failed'' (dc_FindOneAndDelete c f opts w)"

definition BulkWrite :: "('v, 'o, 'w) mcollection \<Rightarrow> 'v list \<Rightarrow> 'o list \<Rightarrow> 'w \<Rightarrow> 'w \<times> (merr + 'v)" where
  "BulkWrite c models opts w = wrapped ''bulk write failed'' (dc_BulkWrite c models opts w)"

definition mongo_Distinct :: "('v, 'o, 'w) mcollection \<Rightarrow> string \<Rightarrow> 'v \<Rightarrow> 'o list \<Rightarrow> 'w \<Rightarrow> 'w \<times> (merr + 'v list)" where
  "mongo_Distinct c fieldName f opts w = wrapped ''distinct query failed'' (dc_Distinct c fieldName f opts w)"

definition Aggregate :: "('v \<Rightarrow> merr + 't) \<Rightarrow> ('v, 'o, 'w) mcollection \<Rightarrow> 'v \<Rightarrow> 'o list \<Rightarrow> 'w \<Rightarrow> 'w \<times> (merr + 't list)" where
  "Aggregate decode c pipeline opts w =
     all_found decode ''aggregate query failed'' ''decode aggregate results failed'' (dc_Aggregate c pipeline opts w)"

definition AggregateRaw :: "('v, 'o, 'w) mcollection \<Rightarrow> 'v \<Rightarrow> 'o list \<Rightarrow> 'w \<Rightarrow> 'w \<times> (merr + 'v list)" where
  "AggregateRaw c pipeline opts w =
     all_found Inr ''aggregate query failed'' ''decode raw results failed'' (dc_Aggregate c pipeline opts w)"

definition mongo_CreateIndex :: "('v, 'o, 'w) mcollection \<Rightarrow> 'v \<Rightarrow> 'o list \<Rightarrow> 'w \<Rightarrow> 'w \<times> (merr + string)" where
  "mongo_CreateIndex c model opts w = wrapped ''create index failed'' (dc_CreateIndex c model opts w)"

definition mongo_CreateIndexes :: "('v, 'o, 'w) mcollection \<Rightarrow> 'v list \<Rightarrow> 'o list \<Rightarrow> 'w \<Rightarrow> 'w \<times> (merr + string list)" where
  "mongo_CreateIndexes c models opts w = wrapped ''create indexes failed'' (dc_CreateIndexes c models opts w)"

definition DropIndex :: "('v, 'o, 'w) mcollection \<Rightarrow> string \<Rightarrow> 'o list \<Rightarrow> 'w \<Rightarrow> 'w \<times> merr option" where
  "DropIndex c name opts w = wrapped_error ''drop index failed'' (just_error (dc_DropIndex c name opts w))"

definition DropAllIndexes :: "('v, 'o, 'w) mcollection \<Rightarrow> 'o list \<Rightarrow> 'w \<Rightarrow> 'w \<times> merr option" where
  "DropAllIndexes c opts w = wrapped_error ''drop all indexes failed'' (just_error (dc_DropAllIndexes c opts w))"

definition ListIndexes :: "('v, 'o, 'w) mcollection \<Rightarrow> 'o list \<Rightarrow> 'w \<Rightarrow> 'w \<times> (merr + 'v)" where
  "ListIndexes c opts w = wrapped ''list indexes failed'' (dc_ListIndexes c opts w)"

definition Watch :: "('v, 'o, 'w) mcollection \<Rightarrow> 'v \<Rightarrow> 'o list \<Rightarrow> 'w \<Rightarrow> 'w \<times> (merr + 'v)" where
  "Watch c pipeline opts w = wrapped ''watch changes failed'' (dc_Watch c pipeline opts w)"

text \<open>\<open>lookup\<close> is the option that asks for whole documents and waits two seconds at most.\<close>

definition WatchChanges :: "'o \<Rightarrow> ('v, 'o, 'w) mcollection \<Rightarrow> 'v \<Rightarrow> 'w \<Rightarrow> 'w \<times> (merr + 'v)" where
  "WatchChanges lookup c pipeline w = Watch c pipeline [lookup] w"

definition CreateCollection :: "('v, 'o, 'w) mcollection \<Rightarrow> 'o list \<Rightarrow> 'w \<Rightarrow> 'w \<times> merr option" where
  "CreateCollection c opts w = wrapped_error ''create collection failed'' (dc_CreateCollection c opts w)"

definition DropCollection :: "('v, 'o, 'w) mcollection \<Rightarrow> 'w \<Rightarrow> 'w \<times> merr option" where
  "DropCollection c w = wrapped_error ''drop collection failed'' (dc_DropCollection c w)"

definition mongo_Exists :: "('v, 'o, 'w) mcollection \<Rightarrow> 'w \<Rightarrow> 'w \<times> (merr + bool)" where
  "mongo_Exists c w =
     (case wrapped ''check collection exists failed'' (dc_ListCollectionNames c w) of
        (w, Inl e) \<Rightarrow> (w, Inl e)
      | (w, Inr names) \<Rightarrow> (w, Inr (names \<noteq> [])))"

text \<open>
  A transaction: a session is started and ended whatever happens. \<open>tx\<close> is the driver's, which calls the function with
  the options, the defaults when the caller gives none.
\<close>

record ('s, 'x, 'v, 'w) msessions =
  ms_Start :: "'w \<Rightarrow> 'w \<times> (merr + 's)"
  ms_End :: "'s \<Rightarrow> 'w \<Rightarrow> 'w"
  ms_WithTransaction :: "'s \<Rightarrow> 'x \<Rightarrow> ('w \<Rightarrow> 'w \<times> (merr + 'v option)) \<Rightarrow> 'w \<Rightarrow> 'w \<times> (merr + 'v option)"
  ms_default :: 'x

definition Transaction ::
    "('s, 'x, 'v, 'w) msessions \<Rightarrow> ('s \<Rightarrow> 'w \<Rightarrow> 'w \<times> (merr + 'v option)) \<Rightarrow> 'x option \<Rightarrow> 'w \<Rightarrow> 'w \<times> (merr + 'v option)" where
  "Transaction ms fn opts w =
     (case ms_Start ms w of
        (w, Inl e) \<Rightarrow> (w, Inl (Wrap ''start session failed'' e))
      | (w, Inr s) \<Rightarrow>
          (case ms_WithTransaction ms s (case opts of None \<Rightarrow> ms_default ms | Some x \<Rightarrow> x) (fn s) w of
             (w, r) \<Rightarrow> (ms_End ms s w, r)))"

definition WithTransaction ::
    "('s, 'x, 'v, 'w) msessions \<Rightarrow> ('s \<Rightarrow> 'w \<Rightarrow> 'w \<times> merr option) \<Rightarrow> 'x option \<Rightarrow> 'w \<Rightarrow> 'w \<times> merr option" where
  "WithTransaction ms fn opts w =
     just_error (Transaction ms (\<lambda>s w. case fn s w of (w, Some e) \<Rightarrow> (w, Inl e) | (w, None) \<Rightarrow> (w, Inr None)) opts w)"

text \<open>
  The options of a query that paging is about. The driver merges a list of options field by field, the last one that
  sets a field deciding.
\<close>

record 'v find_options =
  fo_Skip :: "64 word option"
  fo_Limit :: "64 word option"
  fo_Sort :: "'v option"

definition page_options :: "64 word \<Rightarrow> 64 word \<Rightarrow> 'v option \<Rightarrow> 'v find_options" where
  "page_options pageNo pageSize order = \<lparr>fo_Skip = Some ((pageNo - 1) * pageSize), fo_Limit = Some pageSize, fo_Sort = order\<rparr>"

definition paged :: "64 word \<Rightarrow> 64 word \<Rightarrow> 'v option \<Rightarrow> 'v find_options \<Rightarrow> 'v find_options" where
  "paged pageNo pageSize order opt =
     opt\<lparr>fo_Skip := Some ((pageNo - 1) * pageSize), fo_Limit := Some pageSize,
         fo_Sort := (if order \<noteq> None \<and> fo_Sort opt = None then order else fo_Sort opt)\<rparr>"

definition Paginate ::
    "('v \<Rightarrow> merr + 't) \<Rightarrow> ('v, 'v find_options, 'w) mcollection \<Rightarrow> 'v \<Rightarrow> 64 word \<Rightarrow> 64 word \<Rightarrow> 'v option \<Rightarrow> 'v find_options list \<Rightarrow> 'w
     \<Rightarrow> 'w \<times> (merr + 't list \<times> 64 word)" where
  "Paginate decode c f pageNo pageSize order opts w =
     (case mongo_Count c f [] w of
        (w, Inl e) \<Rightarrow> (w, Inl e)
      | (w, Inr count) \<Rightarrow>
          (case Find decode c f (page_options pageNo pageSize order # map (paged pageNo pageSize order) opts) w of
             (w, Inl e) \<Rightarrow> (w, Inl e)
           | (w, Inr items) \<Rightarrow> (w, Inr (items, count))))"


section \<open>Properties of the configuration\<close>

lemma setIfZero_nonzero: "d \<noteq> 0 \<Longrightarrow> setIfZero v d \<noteq> 0"
  by (simp add: setIfZero_def)

lemma setIfZero_idem [simp]: "setIfZero (setIfZero v d) d' = (if v = 0 \<and> d = 0 then d' else setIfZero v d)"
  by (simp add: setIfZero_def)

text \<open>
  Applying the defaults leaves what the caller set and no number at zero, and a second time changes nothing; but the
  credentials of the caller are not copied, their source is filled in where the caller sees it.
\<close>

theorem defaults_applied:
  assumes "applyDefaultConfig default_config c heap = (c', heap')"
  shows "mg_URI c' = mg_URI c \<and> mg_ReplicaSet c' = mg_ReplicaSet c \<and> mg_Auth c' = mg_Auth c \<and>
    (\<forall>field \<in> {mg_MaxPoolSize, mg_MinPoolSize, mg_MaxConnIdleTime, mg_ConnectTimeout, mg_SocketTimeout,
       mg_ServerSelectionTimeout, mg_HeartbeatInterval}.
       field c' \<noteq> 0 \<and> (field c \<noteq> 0 \<longrightarrow> field c' = field c)) \<and>
    applyDefaultConfig default_config c' heap' = (c', heap')"
proof -
  have c': "c' = defaulted default_config c" and heap: "heap' = snd (applyDefaultConfig default_config c heap)"
    using assms by (simp_all add: applyDefaultConfig_def)
  have same: "mg_URI c' = mg_URI c \<and> mg_ReplicaSet c' = mg_ReplicaSet c \<and> mg_Auth c' = mg_Auth c"
    by (simp add: c' defaulted_def)
  have numbers: "\<forall>field \<in> {mg_MaxPoolSize, mg_MinPoolSize, mg_MaxConnIdleTime, mg_ConnectTimeout, mg_SocketTimeout,
       mg_ServerSelectionTimeout, mg_HeartbeatInterval}.
       field c' \<noteq> 0 \<and> (field c \<noteq> 0 \<longrightarrow> field c' = field c)"
    by (simp add: c' defaulted_def default_config_def setIfZero_def)
  have "defaulted default_config c' = c'"
    by (simp add: c' defaulted_def default_config_def)
  moreover have "snd (applyDefaultConfig default_config c' heap') = heap'"
  proof (cases "mg_Auth c")
    case None
    then show ?thesis using same by (simp add: applyDefaultConfig_def)
  next
    case (Some a)
    then show ?thesis using same
      by (cases "a < length heap") (simp_all add: heap applyDefaultConfig_def setIfEmpty_def list_update_beyond)
  qed
  ultimately have "applyDefaultConfig default_config c' heap' = (c', heap')"
    by (simp add: applyDefaultConfig_def)
  then show ?thesis using same numbers by blast
qed

definition demo_auth :: AuthConfig where
  "demo_auth = \<lparr>au_Username = ''u'', au_Password = ''p'', au_AuthSource = [], au_AuthMechanism = []\<rparr>"

definition demo_config :: mongo_config where
  "demo_config = default_config\<lparr>mg_URI := ''m'', mg_MinPoolSize := 200, mg_MaxPoolSize := 0, mg_Auth := Some 0\<rparr>"

lemma caller_credentials_changed:
  "applyDefaultConfig default_config demo_config [demo_auth] =
     (demo_config\<lparr>mg_MaxPoolSize := 100\<rparr>, [demo_auth\<lparr>au_AuthSource := ''admin''\<rparr>])"
  by (simp add: applyDefaultConfig_def defaulted_def demo_config_def demo_auth_def default_config_def setIfZero_def setIfEmpty_def)

theorem defaults_applied_witness:
  "applyDefaultConfig default_config (demo_config\<lparr>mg_MaxPoolSize := 100\<rparr>) [demo_auth\<lparr>au_AuthSource := ''admin''\<rparr>] =
     (demo_config\<lparr>mg_MaxPoolSize := 100\<rparr>, [demo_auth\<lparr>au_AuthSource := ''admin''\<rparr>])"
  using defaults_applied [OF caller_credentials_changed] by blast

text \<open>The configuration with its defaults need not be one that \<open>Validate\<close> accepts, and nothing asks it.\<close>

lemma invalid_after_defaults:
  "mongo_Validate (fst (applyDefaultConfig default_config demo_config [demo_auth])) \<noteq> None"
  unfolding caller_credentials_changed by (simp add: mongo_Validate_def demo_config_def default_config_def)

text \<open>A time-out of at most 9223372036 seconds is that many seconds for the driver.\<close>

lemma mongo_seconds_exact:
  assumes "uint n \<le> 9223372036"
  shows "sint (mongo_seconds n) = uint n * 1000000000"
proof -
  have "- (2 ^ 63) \<le> uint n"
    by (rule order_trans [of _ 0]) simp_all
  moreover have "uint n < 2 ^ 63" using assms by simp
  ultimately have "sint n = uint n"
    by (simp add: sint_uint signed_take_bit_int_eq_self)
  moreover have "- (2 ^ 63) \<le> uint n * 1000000000"
    by (rule order_trans [of _ 0]) simp_all
  ultimately show ?thesis
    using sint_mult_64 [of n 1000000000] assms by (simp add: mongo_seconds_def)
qed

section \<open>The address without its password\<close>

lemma index_of_append: "c \<notin> set xs \<Longrightarrow> index_of c (xs @ c # ys) = Some (length xs)"
  by (induction xs) auto

lemma protocol_end_scheme:
  "rest \<noteq> [] \<Longrightarrow> protocol_end (mongo_scheme @ rest) = Some (length mongo_scheme)"
  "rest \<noteq> [] \<Longrightarrow> protocol_end (mongo_srv_scheme @ rest) = Some (length mongo_srv_scheme)"
  by (simp_all add: protocol_end_def mongo_scheme_def mongo_srv_scheme_def)

text \<open>
  C33. The text for the log does not depend on the password: it is the address with four stars in its place, cut off after
  fifty bytes. A user name has no colon and no \<open>@\<close>, a password no \<open>@\<close>, as an address writes these as escapes.
\<close>

theorem mask_hides_password:
  assumes "scheme \<in> {mongo_scheme, mongo_srv_scheme}" and "user \<noteq> []"
    and "CHR '':'' \<notin> set user" and "CHR ''@'' \<notin> set user" and "CHR ''@'' \<notin> set password"
  shows "maskURI (scheme @ user @ '':'' @ password @ ''@'' @ host) = uri_truncate (scheme @ user @ '':****@'' @ host)"
proof -
  let ?rest = "user @ '':'' @ password @ ''@'' @ host"
  have proto: "protocol_end (scheme @ ?rest) = Some (length scheme)"
    using assms(1) protocol_end_scheme [of ?rest] by auto
  have at: "index_of (CHR ''@'') ?rest = Some (length (user @ '':'' @ password))"
    using index_of_append [of "CHR ''@''" "user @ '':'' @ password" host] assms(4,5) by simp
  have colon: "index_of (CHR '':'') (user @ '':'' @ password) = Some (length user)"
    using index_of_append [OF assms(3), of password] by simp
  have cut: "drop (length scheme) (scheme @ ?rest) = ?rest" "take (length scheme) (scheme @ ?rest) = scheme"
    "take (length (user @ '':'' @ password)) ?rest = user @ '':'' @ password"
    "drop (length (user @ '':'' @ password)) ?rest = ''@'' @ host" "take (length user) (user @ '':'' @ password) = user"
    by simp_all
  have "scheme @ ?rest \<noteq> []" "length user \<noteq> 0" using assms(2) by simp_all
  then have "maskURI (scheme @ ?rest) = uri_truncate (scheme @ user @ '':****'' @ ''@'' @ host)"
    unfolding maskURI_def by (simp only: proto option.case cut at colon Let_def if_False)
  then show ?thesis by simp
qed

theorem mask_hides_password_witness:
  "maskURI (mongo_scheme @ ''u'' @ '':'' @ ''pass'' @ ''@'' @ ''10.0.0.1:27017'') = mongo_scheme @ ''u:****@10.0.0.1:27017''"
  using mask_hides_password [of mongo_scheme "''u''" "''pass''" "''10.0.0.1:27017''"]
  by (simp add: uri_truncate_def mongo_scheme_def)

section \<open>The global operator\<close>

text \<open>
  The operator is set only to a client that was connected and answered, a failure leaves it unset and a connected
  client disconnected; once it is set a further call does nothing.
\<close>

theorem init_operator:
  assumes "InitMongoOperator dr d config (operator, heap, w) = ((operator', heap', w'), r)"
  shows "(operator \<noteq> None \<longrightarrow> operator' = operator \<and> heap' = heap \<and> w' = w \<and> r = None) \<and>
    (operator = None \<longrightarrow> (r = None \<longleftrightarrow> operator' \<noteq> None)) \<and>
    (operator = None \<and> operator' = None \<longrightarrow>
       (\<exists>e. NewMongoOperator dr d config (heap, w) = ((heap', w'), Inl e)) \<or>
       (\<exists>op w1 w2 e. NewMongoOperator dr d config (heap, w) = ((heap', w1), Inr op) \<and> mongo_Ping dr op w1 = (w2, Some e) \<and>
          w' = fst (mongo_Close dr op w2)))"
proof (cases operator)
  case (Some op)
  then show ?thesis using assms by (auto simp: InitMongoOperator_def)
next
  case None
  obtain heap1 w1 new where new: "NewMongoOperator dr d config (heap, w) = ((heap1, w1), new)" by (metis prod.exhaust)
  show ?thesis
  proof (cases new)
    case (Inl e)
    then show ?thesis using assms None new by (auto simp: InitMongoOperator_def)
  next
    case (Inr op)
    obtain w2 p where "mongo_Ping dr op w1 = (w2, p)" by fastforce
    then show ?thesis using assms None new Inr by (cases p) (auto simp: InitMongoOperator_def)
  qed
qed

definition demo_mongo :: "(nat, nat set) mongo_driver" where
  "demo_mongo =
     \<lparr>dr_Connect = \<lambda>opts w. (insert 0 w, Inr 0), dr_Ping = \<lambda>c w. (w, if c \<in> w then None else Some (Driver ''closed'')),
      dr_Disconnect = \<lambda>c w. (w - {c}, None)\<rparr>"

lemma demo_init: "InitMongoOperator demo_mongo default_config (Some demo_config) (None, [demo_auth], {}) =
    ((Some \<lparr>mo_cli = 0, mo_config = demo_config\<lparr>mg_MaxPoolSize := 100\<rparr>\<rparr>, [demo_auth\<lparr>au_AuthSource := ''admin''\<rparr>], {0}), None)"
  by (simp add: InitMongoOperator_def NewMongoOperator_def caller_credentials_changed mongo_Ping_def demo_mongo_def)
     (simp add: demo_config_def)

theorem init_operator_witness:
  "fst (fst (InitMongoOperator demo_mongo default_config (Some demo_config) (None, [demo_auth], {}))) \<noteq> None"
  using init_operator [OF demo_init] demo_init by simp

text \<open>A closed operator stays the global one: a further call returns no error and leaves a client that is not connected.\<close>

lemma closed_operator_stays:
  assumes "InitMongoOperator dr d config (None, heap, w) = ((Some op, heap', w'), None)"
  shows "InitMongoOperator dr d config' (Some op, heap', fst (mongo_Close dr op w')) =
    ((Some op, heap', fst (mongo_Close dr op w')), None)"
  by (simp add: InitMongoOperator_def)


section \<open>Collections\<close>

lemma collection_key_inj:
  assumes "CHR ''.'' \<notin> set db" and "CHR ''.'' \<notin> set db'" and "collection_key db coll = collection_key db' coll'"
  shows "db = db' \<and> coll = coll'"
proof -
  have "takeWhile (\<lambda>c. c \<noteq> CHR ''.'') (collection_key db coll) = db"
    using assms(1) by (simp add: collection_key_def takeWhile_append)
  moreover have "takeWhile (\<lambda>c. c \<noteq> CHR ''.'') (collection_key db' coll') = db'"
    using assms(2) by (simp add: collection_key_def takeWhile_append)
  ultimately show ?thesis using assms(3) by (simp add: collection_key_def)
qed

text \<open>Every collection that is kept was made for the names it is kept under.\<close>

definition collections_ok :: "(string \<Rightarrow> string \<Rightarrow> 'k) \<Rightarrow> 'k collections \<Rightarrow> bool" where
  "collections_ok mk m \<longleftrightarrow>
     (\<forall>db coll c. CHR ''.'' \<notin> set db \<longrightarrow> m (collection_key db coll) = Some c \<longrightarrow> c = mk db coll)"

datatype collection_call = Get string string | Remove string string | Clear

fun collection_step :: "(string \<Rightarrow> string \<Rightarrow> 'k) \<Rightarrow> collection_call \<Rightarrow> 'k collections \<Rightarrow> 'k collections" where
  "collection_step mk (Get db coll) m = fst (GetCollection mk db coll m)"
| "collection_step mk (Remove db coll) m = RemoveCollection db coll m"
| "collection_step mk Clear m = ClearAll m"

fun valid_call :: "collection_call \<Rightarrow> bool" where
  "valid_call (Get db coll) \<longleftrightarrow> CHR ''.'' \<notin> set db"
| "valid_call (Remove db coll) \<longleftrightarrow> True"
| "valid_call Clear \<longleftrightarrow> True"

lemma collections_okI:
  assumes "\<And>db coll c. CHR ''.'' \<notin> set db \<Longrightarrow> m (collection_key db coll) = Some c \<Longrightarrow> c = mk db coll"
  shows "collections_ok mk m"
  using assms unfolding collections_ok_def by blast

lemma collections_okD:
  "collections_ok mk m \<Longrightarrow> CHR ''.'' \<notin> set db \<Longrightarrow> m (collection_key db coll) = Some c \<Longrightarrow> c = mk db coll"
  unfolding collections_ok_def by blast

lemma GetCollection_snd:
  assumes "collections_ok mk m" and "CHR ''.'' \<notin> set db"
  shows "snd (GetCollection mk db coll m) = mk db coll"
  using collections_okD [OF assms] by (auto simp: GetCollection_def split: option.split)

lemma GetCollection_ok:
  assumes "collections_ok mk m" and "CHR ''.'' \<notin> set db"
  shows "collections_ok mk (fst (GetCollection mk db coll m))"
proof (cases "m (collection_key db coll)")
  case None
  show ?thesis
  proof (rule collections_okI)
    fix db' coll' c
    assume db': "CHR ''.'' \<notin> set db'"
      and here: "fst (GetCollection mk db coll m) (collection_key db' coll') = Some c"
    show "c = mk db' coll'"
    proof (cases "collection_key db' coll' = collection_key db coll")
      case True
      then show ?thesis
        using collection_key_inj [OF db' assms(2) True] here None by (simp add: GetCollection_def)
    next
      case False
      then have "m (collection_key db' coll') = Some c"
        using here None by (simp add: GetCollection_def)
      then show ?thesis by (rule collections_okD [OF assms(1) db'])
    qed
  qed
next
  case (Some c)
  then show ?thesis using assms(1) by (simp add: GetCollection_def)
qed

lemma collection_step_ok: "collections_ok mk m \<Longrightarrow> valid_call call \<Longrightarrow> collections_ok mk (collection_step mk call m)"
proof (cases call)
  case (Get db coll)
  assume "collections_ok mk m" "valid_call call"
  then show ?thesis using Get GetCollection_ok [of mk m db coll] by simp
next
  case (Remove db coll)
  assume "collections_ok mk m"
  then show ?thesis using Remove
    by (intro collections_okI) (auto simp: RemoveCollection_def dest: collections_okD split: if_splits)
next
  case Clear
  then show ?thesis by (intro collections_okI) (simp add: ClearAll_def)
qed

lemma collections_fold_ok:
  "\<forall>call\<in>set calls. valid_call call \<Longrightarrow> collections_ok mk m \<Longrightarrow> collections_ok mk (fold (collection_step mk) calls m)"
  by (induction calls arbitrary: m) (simp_all add: collection_step_ok)

text \<open>
  Whatever was asked for and removed before, the collection that is returned is the one of the names asked for, as the
  name of a database has no dot.
\<close>

theorem collection_of_its_names:
  assumes "\<forall>call\<in>set calls. valid_call call" and "CHR ''.'' \<notin> set db"
  shows "snd (GetCollection mk db coll (fold (collection_step mk) calls Map.empty)) = mk db coll"
  by (intro GetCollection_snd collections_fold_ok assms collections_okI) simp

theorem collection_of_its_names_witness:
  "snd (GetCollection Pair ''a'' ''b.c'' (fold (collection_step Pair) [Get ''ab'' ''c'', Remove ''x'' ''y'', Get ''a'' ''b.c''] Map.empty)) =
     (''a'', ''b.c'')"
  by (rule collection_of_its_names) simp_all

section \<open>Repositories\<close>

definition repo_inv :: "repo_sys \<Rightarrow> bool" where
  "repo_inv s \<longleftrightarrow>
     (\<forall>key r. rs_repos s key = Some r \<longrightarrow> r < length (rs_made s) \<and> rs_made s ! r = key) \<and>
     (\<forall>t key r. rs_pc s t = RMade key r \<or> rs_pc s t = RGot key r \<longrightarrow> r < length (rs_made s) \<and> rs_made s ! r = key)"

lemma repo_invI:
  assumes "\<And>key r. rs_repos s key = Some r \<Longrightarrow> r < length (rs_made s) \<and> rs_made s ! r = key"
    and "\<And>t key r. rs_pc s t = RMade key r \<or> rs_pc s t = RGot key r \<Longrightarrow> r < length (rs_made s) \<and> rs_made s ! r = key"
  shows "repo_inv s"
  using assms unfolding repo_inv_def by blast

lemma repo_inv_step: "repo_step s s' \<Longrightarrow> repo_inv s \<Longrightarrow> repo_inv s'"
proof (induction rule: repo_step.induct)
  case (new s t key)
  then show ?case by (auto simp: repo_inv_def nth_append less_SucI)
qed (auto simp: repo_inv_def split: if_splits)

text \<open>
  However the goroutines interleave, a repository that is handed out was made for the database, the collection and the
  type it is asked for.
\<close>

theorem repository_of_its_key:
  assumes "repo_step\<^sup>*\<^sup>* repo_start s" and "rs_pc s t = RGot key r"
  shows "r < length (rs_made s) \<and> rs_made s ! r = key"
proof -
  have "repo_inv repo_start" by (simp add: repo_inv_def repo_start_def)
  with assms(1) have "repo_inv s" by (induction rule: rtranclp_induct) (auto intro: repo_inv_step)
  then show ?thesis using assms(2) by (auto simp: repo_inv_def)
qed

text \<open>
  Two goroutines that both miss get two repositories for one key: the \<open>sync.Once\<close> of each call is its own, so there is
  no double check.
\<close>

definition two_keys :: repo_key where "two_keys = \<lparr>rk_DBName = ''d'', rk_CollName = ''c'', rk_TypeName = ''T''\<rparr>"

definition two_repos :: repo_sys where
  "two_repos = \<lparr>rs_repos = [two_keys \<mapsto> 1], rs_pc = (\<lambda>t. RIdle)(0 := RGot two_keys 0, 1 := RGot two_keys 1), rs_made = [two_keys, two_keys]\<rparr>"

lemma two_repositories: "repo_step\<^sup>*\<^sup>* repo_start two_repos"
proof -
  let ?s1 = "repo_start\<lparr>rs_pc := (\<lambda>t. RIdle)(0 := RMissed two_keys)\<rparr>"
  let ?s2 = "repo_start\<lparr>rs_pc := (\<lambda>t. RIdle)(0 := RMissed two_keys, 1 := RMissed two_keys)\<rparr>"
  let ?s3 = "?s2\<lparr>rs_pc := (\<lambda>t. RIdle)(0 := RMade two_keys 0, 1 := RMissed two_keys), rs_made := [two_keys]\<rparr>"
  let ?s4 = "?s2\<lparr>rs_pc := (\<lambda>t. RIdle)(0 := RMade two_keys 0, 1 := RMade two_keys 1), rs_made := [two_keys, two_keys]\<rparr>"
  let ?s5 = "?s4\<lparr>rs_pc := (\<lambda>t. RIdle)(0 := RGot two_keys 0, 1 := RMade two_keys 1), rs_repos := [two_keys \<mapsto> 0]\<rparr>"
  have 1: "repo_step repo_start ?s1"
    using repo_step.miss [of repo_start 0 two_keys] by (simp add: repo_start_def)
  have 2: "repo_step ?s1 ?s2"
    using repo_step.miss [of ?s1 1 two_keys] by (simp add: repo_start_def)
  have 3: "repo_step ?s2 ?s3"
    using repo_step.new [of ?s2 0 two_keys] by (simp add: repo_start_def fun_upd_twist)
  have 4: "repo_step ?s3 ?s4"
    using repo_step.new [of ?s3 1 two_keys] by (simp add: repo_start_def)
  have 5: "repo_step ?s4 ?s5"
    using repo_step.store [of ?s4 0 two_keys 0] by (simp add: repo_start_def fun_upd_twist)
  have 6: "repo_step ?s5 two_repos"
    using repo_step.store [of ?s5 1 two_keys 1] by (simp add: repo_start_def two_repos_def)
  show ?thesis
    by (rule rtranclp.rtrancl_into_rtrancl [where r = repo_step, OF _ 6],
        rule rtranclp.rtrancl_into_rtrancl [where r = repo_step, OF _ 5],
        rule rtranclp.rtrancl_into_rtrancl [where r = repo_step, OF _ 4],
        rule rtranclp.rtrancl_into_rtrancl [where r = repo_step, OF _ 3],
        rule rtranclp.rtrancl_into_rtrancl [where r = repo_step, OF _ 2],
        rule rtranclp.rtrancl_into_rtrancl [where r = repo_step, OF _ 1], rule rtranclp.rtrancl_refl)
qed

theorem repository_of_its_key_witness: "rs_made two_repos ! 1 = two_keys"
  using repository_of_its_key [OF two_repositories, of 1 two_keys 1] by (simp add: two_repos_def)

section \<open>Errors of the operations\<close>

text \<open>
  The texts around an error do not hide what it is; and an operation that looks for one document never has the error
  that there is none, unless the driver itself has it inside another.
\<close>

lemma duplicate_key_seen:
  "IsDuplicateKeyError dup (Wrap msg e) = IsDuplicateKeyError dup e" "IsNotFoundError (Wrap msg e) = IsNotFoundError e"
  by (simp_all add: IsDuplicateKeyError_def IsNotFoundError_def)

lemma one_found_error:
  "one_found decode msg (w, answer) = (w', Inl e) \<Longrightarrow> \<exists>e0. e = Wrap msg e0 \<and> e0 \<noteq> ErrNoDocuments"
  by (auto simp: one_found_def split: sum.splits if_splits)

definition plain :: "merr \<Rightarrow> bool" where
  "plain e \<longleftrightarrow> (\<forall>msg e'. e \<noteq> Wrap msg e')"

theorem find_one_not_found:
  assumes "FindOne decode c f opts w = (w', r)" and "dc_FindOne c f opts w = (w1, answer)"
    and "\<And>e. answer = Inl e \<Longrightarrow> plain e" and "\<And>raw e. decode raw = Inl e \<Longrightarrow> plain e"
  shows "w' = w1 \<and> (answer = Inl ErrNoDocuments \<longrightarrow> r = Inr None) \<and> (\<forall>e. r = Inl e \<longrightarrow> \<not> IsNotFoundError e)"
proof -
  have run: "one_found decode ''find one failed'' (w1, answer) = (w', r)"
    using assms(1,2) by (simp add: FindOne_def)
  have "\<not> IsNotFoundError e" if "r = Inl e" for e
  proof -
    have "\<exists>e0. e = Wrap ''find one failed'' e0 \<and> e0 \<noteq> ErrNoDocuments \<and> plain e0"
      using run that assms(3,4) by (auto simp: one_found_def split: sum.splits if_splits)
    then obtain e0 where "e = Wrap ''find one failed'' e0" "e0 \<noteq> ErrNoDocuments" and "plain e0"
      by blast
    then show ?thesis by (cases e0) (auto simp: IsNotFoundError_def plain_def)
  qed
  moreover have "w' = w1" "answer = Inl ErrNoDocuments \<longrightarrow> r = Inr None"
    using run by (auto simp: one_found_def split: sum.splits)
  ultimately show ?thesis by blast
qed

section \<open>Pages\<close>

lemma decode_all_map: "(\<And>v. v \<in> set vs \<Longrightarrow> decode v = Inr (g v)) \<Longrightarrow> decode_all decode vs = Inr (map g vs)"
  by (induction vs) simp_all

text \<open>
  What is relied on: a query with the options of a page answers the documents from the skip on, up to the limit, in an
  order that does not change, and so do the counts.
\<close>

definition serves_pages :: "('v, 'v find_options, 'w) mcollection \<Rightarrow> 'v \<Rightarrow> 'w \<Rightarrow> 'v list \<Rightarrow> bool" where
  "serves_pages c f w docs \<longleftrightarrow>
     dc_Count c f [] w = (w, Inr (of_nat (length docs))) \<and>
     (\<forall>skip limit order. 0 \<le> sint skip \<longrightarrow> 0 < sint limit \<longrightarrow>
        dc_Find c f [\<lparr>fo_Skip = Some skip, fo_Limit = Some limit, fo_Sort = order\<rparr>] w =
          (w, Inr (Inr (take (nat (sint limit)) (drop (nat (sint skip)) docs)))))"

definition page_of :: "nat \<Rightarrow> nat \<Rightarrow> 'a list \<Rightarrow> 'a list" where
  "page_of n pageSize xs = take pageSize (drop (n * pageSize) xs)"

lemma concat_pages: "concat (map (\<lambda>n. page_of n m xs) [0..<k]) = take (k * m) xs"
  by (induction k) (simp_all add: page_of_def take_add add.commute [of m])

text \<open>
  The pages of a listing are the documents one after the other: page \<open>n\<close> starts where the page in front of it ends, and
  the number of documents is that of all of them.
\<close>

theorem pages_cover:
  assumes "serves_pages c f w docs" and "\<And>v. v \<in> set docs \<Longrightarrow> decode v = Inr (g v)"
    and "1 \<le> sint pageNo" and "0 < sint pageSize" and "sint pageNo * sint pageSize < 2 ^ 63"
  shows "Paginate decode c f pageNo pageSize order [] w =
      (w, Inr (page_of (nat (sint pageNo - 1)) (nat (sint pageSize)) (map g docs), of_nat (length docs))) \<and>
    concat (map (\<lambda>n. page_of n (nat (sint pageSize)) (map g docs)) [0..<k]) = take (k * nat (sint pageSize)) (map g docs)"
proof
  have skip: "sint ((pageNo - 1) * pageSize) = (sint pageNo - 1) * sint pageSize"
    using sint_page_start assms(3-5) by simp
  let ?raws = "take (nat (sint pageSize)) (drop (nat ((sint pageNo - 1) * sint pageSize)) docs)"
  have "dc_Find c f [page_options pageNo pageSize order] w = (w, Inr (Inr ?raws))"
    using assms(1,3,4) skip by (simp add: serves_pages_def page_options_def)
  moreover have "decode_all decode ?raws = Inr (map g ?raws)"
    by (rule decode_all_map) (use assms(2) in \<open>auto dest!: in_set_takeD in_set_dropD\<close>)
  ultimately have "Find decode c f [page_options pageNo pageSize order] w = (w, Inr (map g ?raws))"
    by (simp add: Find_def all_found_def)
  moreover have "mongo_Count c f [] w = (w, Inr (of_nat (length docs)))"
    using assms(1) by (simp add: serves_pages_def mongo_Count_def wrapped_def)
  moreover have "nat ((sint pageNo - 1) * sint pageSize) = nat (sint pageNo - 1) * nat (sint pageSize)"
    using assms(3,4) by (simp add: nat_mult_distrib)
  ultimately show "Paginate decode c f pageNo pageSize order [] w =
      (w, Inr (page_of (nat (sint pageNo - 1)) (nat (sint pageSize)) (map g docs), of_nat (length docs)))"
    by (simp add: Paginate_def page_of_def take_map drop_map)
  show "concat (map (\<lambda>n. page_of n (nat (sint pageSize)) (map g docs)) [0..<k]) = take (k * nat (sint pageSize)) (map g docs)"
    by (rule concat_pages)
qed

definition demo_docs :: "nat list" where "demo_docs = [1, 2, 3, 4, 5]"

text \<open>A collection that serves the pages of five numbers, its documents; the other calls answer with an error.\<close>

definition demo_collection :: "(nat, nat find_options, unit) mcollection" where
  "demo_collection =
     \<lparr>dc_InsertOne = \<lambda>d opts w. (w, Inl (Driver [])), dc_InsertMany = \<lambda>ds opts w. (w, Inl (Driver [])),
      dc_FindOne = \<lambda>f opts w. (w, Inl ErrNoDocuments),
      dc_Find = \<lambda>f opts w. (w, case opts of
          [opt] \<Rightarrow> (case (fo_Skip opt, fo_Limit opt) of
            (Some skip, Some limit) \<Rightarrow> Inr (Inr (take (nat (sint limit)) (drop (nat (sint skip)) demo_docs)))
          | _ \<Rightarrow> Inr (Inr demo_docs))
        | _ \<Rightarrow> Inl (Driver [])),
      dc_Count = \<lambda>f opts w. (w, Inr 5), dc_EstimatedCount = \<lambda>opts w. (w, Inr 5),
      dc_UpdateOne = \<lambda>f u opts w. (w, Inl (Driver [])), dc_UpdateMany = \<lambda>f u opts w. (w, Inl (Driver [])),
      dc_ReplaceOne = \<lambda>f u opts w. (w, Inl (Driver [])), dc_DeleteOne = \<lambda>f opts w. (w, Inl (Driver [])),
      dc_DeleteMany = \<lambda>f opts w. (w, Inl (Driver [])), dc_FindOneAndUpdate = \<lambda>f u opts w. (w, Inl ErrNoDocuments),
      dc_FindOneAndReplace = \<lambda>f u opts w. (w, Inl ErrNoDocuments), dc_FindOneAndDelete = \<lambda>f opts w. (w, Inl ErrNoDocuments),
      dc_BulkWrite = \<lambda>ms opts w. (w, Inl (Driver [])), dc_Distinct = \<lambda>n f opts w. (w, Inl (Driver [])),
      dc_Aggregate = \<lambda>p opts w. (w, Inl (Driver [])), dc_CreateIndex = \<lambda>m opts w. (w, Inl (Driver [])),
      dc_CreateIndexes = \<lambda>ms opts w. (w, Inl (Driver [])), dc_DropIndex = \<lambda>n opts w. (w, Inl (Driver [])),
      dc_DropAllIndexes = \<lambda>opts w. (w, Inl (Driver [])), dc_ListIndexes = \<lambda>opts w. (w, Inl (Driver [])),
      dc_Watch = \<lambda>p opts w. (w, Inl (Driver [])), dc_CreateCollection = \<lambda>opts w. (w, None),
      dc_DropCollection = \<lambda>w. (w, None), dc_ListCollectionNames = \<lambda>w. (w, Inr []),
      dc_by_id = \<lambda>oid. 0, dc_from_hex = \<lambda>s. None\<rparr>"

lemma demo_serves: "serves_pages demo_collection 0 () demo_docs"
  by (simp add: serves_pages_def demo_collection_def demo_docs_def)

theorem pages_cover_witness: "Paginate Inr demo_collection 0 2 2 None [] () = ((), Inr ([3, 4], 5))"
proof -
  have "Paginate Inr demo_collection 0 2 2 None [] () =
      ((), Inr (page_of (nat (sint (2 :: 64 word) - 1)) (nat (sint (2 :: 64 word))) (map (\<lambda>v. v) demo_docs), of_nat (length demo_docs)))"
    using pages_cover [OF demo_serves, of Inr "\<lambda>v. v" 2 2 None] by simp
  then show ?thesis by (simp add: page_of_def demo_docs_def)
qed

theorem find_one_not_found_witness: "FindOne Inr demo_collection 0 [] () = ((), Inr None)"
proof -
  obtain w' r where run: "FindOne Inr demo_collection 0 [] () = (w', r)" by (metis prod.exhaust)
  have "dc_FindOne demo_collection 0 [] () = ((), Inl ErrNoDocuments)" by (simp add: demo_collection_def)
  from find_one_not_found [OF run this] have "r = Inr None" by (simp add: plain_def)
  then show ?thesis using run by simp
qed

end
