(* ===== verification/Configx.thy ===== *)
theory Configx
  imports Utils "HOL-Library.AList"
begin

text \<open>
  The package \<open>configx\<close>: the configuration of an application as it is read from a file, its ports and time-outs, the
  check of it, the choice of the file when the package is loaded, and the providers that answer keys. The libraries that
  read files and convert values are arguments; a value is of type \<open>'v\<close>, and \<open>None\<close> where the code has \<open>nil\<close>.
\<close>

section \<open>The configuration\<close>

record cfg_CryptoConfig =
  ccy_Type :: string
  ccy_Key :: string

record cfg_KafkaConfig =
  ckf_Enable :: bool
  ckf_Strict :: bool
  ckf_Topic :: "string list"
  ckf_GroupId :: string
  ckf_BootstrapServers :: "string list"
  ckf_SecurityProtocol :: string
  ckf_SaslMechanism :: string
  ckf_SaslUsername :: string
  ckf_SaslPassword :: string
  ckf_TLSCAFile :: string
  ckf_TLSCertFile :: string
  ckf_TLSKeyFile :: string
  ckf_TLSServerName :: string
  ckf_TLSInsecureSkipVerify :: bool
  ckf_MaxAttempts :: int
  ckf_RetryWaitTime :: int

record cfg_RocketMQConfig =
  crm_Enable :: bool
  crm_Strict :: bool
  crm_NameServers :: "string list"
  crm_GroupName :: string
  crm_AccessKey :: string
  crm_SecretKey :: string
  crm_Namespace :: string
  crm_RetryTimes :: int
  crm_RetryWaitTime :: int

record cfg_Connection =
  ccn_DSN :: string
  ccn_Host :: string
  ccn_Port :: int
  ccn_Username :: string
  ccn_Password :: string
  ccn_Database :: string
  ccn_Schema :: string

record cfg_ARG =
  carg_Name :: string
  carg_Value :: string

record cfg_DataSource =
  cds_Enable :: bool
  cds_Strict :: bool
  cds_DBType :: string
  cds_LogMode :: string
  cds_Connection :: cfg_Connection
  cds_Masters :: "cfg_Connection list"
  cds_Replicas :: "cfg_Connection list"
  cds_Args :: "cfg_ARG list"
  cds_Charset :: string
  cds_MaxIdleConn :: int
  cds_MaxOpenConn :: int
  cds_ConnMaxIdleTime :: int
  cds_ConnMaxLifeTime :: int

record cfg_RedisConfig =
  crd_Enable :: bool
  crd_Strict :: bool
  crd_Endpoints :: "string list"
  crd_Username :: string
  crd_Password :: string
  crd_ClientName :: string
  crd_MasterName :: string
  crd_IndexDB :: int
  crd_MinIdleConns :: int
  crd_MaxIdleConns :: int
  crd_MaxActiveConns :: int
  crd_MaxRetryTimes :: int
  crd_SentinelUsername :: string
  crd_SentinelPassword :: string

record cfg_Elasticsearch =
  ces_Enable :: bool
  ces_Strict :: bool
  ces_Endpoints :: "string list"
  ces_Username :: string
  ces_Password :: string
  ces_IsHttps :: bool
  ces_CloudId :: string
  ces_APIKey :: string
  ces_CACert :: string
  ces_InsecureSkipVerify :: bool

record cfg_MongodbConf =
  cmg_Enable :: bool
  cmg_Strict :: bool
  cmg_Host :: string
  cmg_Port :: int
  cmg_Username :: string
  cmg_Password :: string
  cmg_MaxPoolSize :: int
  cmg_ConnectTimeout :: int
  cmg_MaxConnIdleTime :: int

record cfg_LimitConf =
  clm_Enable :: bool
  clm_AttemptTimes :: int
  clm_RetryWaitTime :: int
  clm_PrefetchCount :: int
  clm_Timeout :: int
  clm_QueueLimit :: int

record cfg_RabbitMQConf =
  crb_Enable :: bool
  crb_Strict :: bool
  crb_Host :: string
  crb_Port :: int
  crb_ManagementPort :: int
  crb_VirtualHost :: string
  crb_Username :: string
  crb_Password :: string
  crb_LimitConf :: cfg_LimitConf

record cfg_OBSConfig =
  cob_Enable :: bool
  cob_Strict :: bool
  cob_Name :: string
  cob_Protocol :: string
  cob_Endpoint :: string
  cob_Region :: string
  cob_AccessKey :: string
  cob_SecretKey :: string
  cob_Bucket :: string
  cob_InsecureSkipVerify :: bool
  cob_MaxRetries :: int
  cob_Timeout :: int

record cfg_HTTPConfig =
  cht_Port :: int
  cht_ReadTimeout :: string
  cht_WriteTimeout :: string

record cfg_GRPCConfig =
  cgr_Port :: int
  cgr_MaxConcurrentStreams :: "32 word"

record cfg_ServerConfig =
  csv_HTTP :: cfg_HTTPConfig
  csv_GRPC :: cfg_GRPCConfig

record cfg_PrometheusConfig =
  cpr_Enable :: bool
  cpr_Path :: string
  cpr_ScrapeInterval :: string

record cfg_Pusher =
  cpu_Enable :: bool
  cpu_JobName :: string
  cpu_RemoteAddr :: string
  cpu_IntervalMs :: int
  cpu_BasicAuth :: string

record cfg_PProfConfig =
  cpp_Enable :: bool
  cpp_Port :: int
  cpp_EnabledEndpoints :: "string list"
  cpp_Pusher :: cfg_Pusher

record cfg_MonitorConfig =
  cmo_Prometheus :: cfg_PrometheusConfig
  cmo_PProf :: cfg_PProfConfig

record cfg_Application =
  cap_Host :: string
  cap_Name :: string
  cap_Port :: int
  cap_Debug :: bool
  cap_FileServer :: bool
  cap_Server :: cfg_ServerConfig
  cap_Monitor :: cfg_MonitorConfig

record app_config =
  cfg_Application :: cfg_Application
  cfg_DataSource :: cfg_DataSource
  cfg_Crypto :: "cfg_CryptoConfig list"
  cfg_Kafka :: cfg_KafkaConfig
  cfg_Rabbitmq :: cfg_RabbitMQConf
  cfg_RocketMQ :: cfg_RocketMQConfig
  cfg_Redis :: cfg_RedisConfig
  cfg_ES :: cfg_Elasticsearch
  cfg_Mongodb :: cfg_MongodbConf
  cfg_OBS :: cfg_OBSConfig

section \<open>Names, ports and time-outs\<close>

datatype config_err =
    NameRequired | InvalidHTTPPort int | InvalidGRPCPort int
  | TimeoutOverflow string | ParseFailure string
  | ConfigNotFound string | KeyNotFound string | ReadFailed string | CastFailed string

definition GetHTTPPort :: "app_config \<Rightarrow> int" where
  "GetHTTPPort c =
     (let port = cht_Port (csv_HTTP (cap_Server (cfg_Application c)))
      in if port > 0 then port else cap_Port (cfg_Application c))"

definition GetGRPCPort :: "app_config \<Rightarrow> int" where
  "GetGRPCPort c =
     (let port = cgr_Port (csv_GRPC (cap_Server (cfg_Application c))) in if port > 0 then port else 8631)"

definition GetName :: "app_config \<Rightarrow> string" where "GetName c = cap_Name (cfg_Application c)"
definition IsDebugMode :: "app_config \<Rightarrow> bool" where "IsDebugMode c = cap_Debug (cfg_Application c)"
definition GetPrometheusConfig :: "app_config \<Rightarrow> cfg_PrometheusConfig" where
  "GetPrometheusConfig c = cmo_Prometheus (cap_Monitor (cfg_Application c))"
definition GetPProfConfig :: "app_config \<Rightarrow> cfg_PProfConfig" where
  "GetPProfConfig c = cmo_PProf (cap_Monitor (cfg_Application c))"

text \<open>
  A text that is a number stands for milliseconds, and is refused when its nanoseconds do not fit in 64 bits; any other
  is left to \<open>time.ParseDuration\<close>, an argument. A duration is a word of 64 bits.
\<close>

definition parseTimeout :: "(string \<Rightarrow> config_err + 64 word) \<Rightarrow> string \<Rightarrow> config_err + 64 word" where
  "parseTimeout ParseDuration value =
     (case ParseInt 64 value of
        (ms, None) \<Rightarrow>
          if ms > (2 ^ 63 - 1) div 1000000 \<or> ms < - ((2 ^ 63) div 1000000) then Inl (TimeoutOverflow value)
          else Inr (word_of_int ms * 1000000)
      | (ms, Some e) \<Rightarrow> ParseDuration value)"

definition MaxDuration :: "64 word" where "MaxDuration = word_of_int (2 ^ 63 - 1)"

definition timeout_or_max :: "(string \<Rightarrow> config_err + 64 word) \<Rightarrow> string \<Rightarrow> 64 word" where
  "timeout_or_max ParseDuration value =
     (if value \<noteq> [] then (case parseTimeout ParseDuration value of Inl e \<Rightarrow> MaxDuration | Inr d \<Rightarrow> d) else MaxDuration)"

definition GetHTTPReadTimeout :: "(string \<Rightarrow> config_err + 64 word) \<Rightarrow> app_config \<Rightarrow> 64 word" where
  "GetHTTPReadTimeout ParseDuration c =
     timeout_or_max ParseDuration (cht_ReadTimeout (csv_HTTP (cap_Server (cfg_Application c))))"

definition GetHTTPWriteTimeout :: "(string \<Rightarrow> config_err + 64 word) \<Rightarrow> app_config \<Rightarrow> 64 word" where
  "GetHTTPWriteTimeout ParseDuration c =
     timeout_or_max ParseDuration (cht_WriteTimeout (csv_HTTP (cap_Server (cfg_Application c))))"

definition config_Validate :: "app_config \<Rightarrow> config_err option" where
  "config_Validate c =
     (if GetName c = [] then Some NameRequired
      else if GetHTTPPort c \<le> 0 \<or> GetHTTPPort c > 65535 then Some (InvalidHTTPPort (GetHTTPPort c))
      else if GetGRPCPort c \<le> 0 \<or> GetGRPCPort c > 65535 then Some (InvalidGRPCPort (GetGRPCPort c))
      else None)"

section \<open>Reading files\<close>

definition confPaths :: "string list" where
  "confPaths =
     (let conf = (\<lambda>name. ''.'' @ [CHR 0x2F] @ ''conf'' @ [CHR 0x2F] @ name)
      in [conf ''application.yaml'', conf ''server.yaml'', conf ''config.yaml'',
          conf ''application.ini'', conf ''server.ini'', conf ''config.ini'',
          conf ''application.ini'', conf ''server.ini'', conf ''config.ini''])"

text \<open>
  Reading into a structure: the library reads the file, and writes what it finds into the structure, which may have
  changed also when it fails.
\<close>

definition ParseConfigByViper :: "(string \<Rightarrow> config_err + 'v) \<Rightarrow> ('v \<Rightarrow> 'c \<Rightarrow> 'c \<times> config_err option) \<Rightarrow> string \<Rightarrow> 'c \<Rightarrow> 'c \<times> config_err option" where
  "ParseConfigByViper read unmarshal path dest =
     (case read path of Inl e \<Rightarrow> (dest, Some e) | Inr v \<Rightarrow> unmarshal v dest)"

text \<open>The readers of one format panic on any error: the result is \<open>None\<close> then.\<close>

definition load_or_panic :: "(string \<Rightarrow> config_err + 'v) \<Rightarrow> ('v \<Rightarrow> 'c \<Rightarrow> 'c \<times> config_err option) \<Rightarrow> string \<Rightarrow> 'c \<Rightarrow> 'c option" where
  "load_or_panic read decode path dest =
     (case read path of
        Inl e \<Rightarrow> None
      | Inr v \<Rightarrow> (case decode v dest of (dest', Some e) \<Rightarrow> None | (dest', None) \<Rightarrow> Some dest'))"

fun config_init :: "(string \<Rightarrow> bool) \<Rightarrow> (string \<Rightarrow> 'c \<Rightarrow> 'c \<times> config_err option) \<Rightarrow> string list \<Rightarrow> 'c \<Rightarrow> 'c \<times> bool" where
  "config_init exists parse [] dest = (dest, False)"
| "config_init exists parse (path # paths) dest =
     (if \<not> exists path then config_init exists parse paths dest
      else case parse path dest of
             (dest', Some e) \<Rightarrow> config_init exists parse paths dest'
           | (dest', None) \<Rightarrow> (dest', True))"

text \<open>The directory of the configuration: \<open>conf\<close>, or \<open>config\<close> when there is only that.\<close>

definition ConfDir :: "(string \<Rightarrow> bool) \<Rightarrow> string \<Rightarrow> string" where
  "ConfDir exists workDir =
     (let conf = workDir @ [CHR 0x2F] @ ''conf''; bak = workDir @ [CHR 0x2F] @ ''config''
      in if exists conf then conf else if exists bak then bak else conf)"

definition Store :: "string \<Rightarrow> 'v \<Rightarrow> (string \<rightharpoonup> 'v) \<Rightarrow> (string \<rightharpoonup> 'v)" where
  "Store key value m = m(key \<mapsto> value)"

definition LoadKey :: "string \<Rightarrow> (string \<rightharpoonup> 'v) \<Rightarrow> 'v option" where
  "LoadKey key m = m key"

section \<open>Providers\<close>

text \<open>The map of providers in the order Go ranges over it, which is any.\<close>

record 'v provider =
  pv_Get :: "string \<Rightarrow> 'v option"
  pv_IsExist :: "string \<Rightarrow> bool"

type_synonym 'v provider_map = "(string \<times> 'v provider) list"

definition AddProviders :: "string \<Rightarrow> 'v provider \<Rightarrow> 'v provider_map \<Rightarrow> 'v provider_map" where
  "AddProviders configName p pm = AList.update configName p pm"

definition pm_Get :: "'v provider_map \<Rightarrow> string \<Rightarrow> string \<Rightarrow> config_err + 'v" where
  "pm_Get pm configName key =
     (case map_of pm configName of
        None \<Rightarrow> Inl (ConfigNotFound configName)
      | Some p \<Rightarrow> (case pv_Get p key of None \<Rightarrow> Inl (KeyNotFound key) | Some v \<Rightarrow> Inr v))"

fun Search :: "'v provider_map \<Rightarrow> string \<Rightarrow> 'v option" where
  "Search [] key = None"
| "Search ((name, p) # pm) key = (if pv_IsExist p key then pv_Get p key else Search pm key)"

definition SearchE :: "'v provider_map \<Rightarrow> string \<Rightarrow> config_err + 'v" where
  "SearchE pm key = (case Search pm key of None \<Rightarrow> Inl (KeyNotFound key) | Some v \<Rightarrow> Inr v)"

definition config_GetE :: "'v provider_map \<Rightarrow> string \<Rightarrow> string \<Rightarrow> config_err + 'v" where
  "config_GetE pm configName key = pm_Get pm configName key"

definition config_Get :: "'v provider_map \<Rightarrow> string \<Rightarrow> string \<Rightarrow> 'v option" where
  "config_Get pm configName key = (case pm_Get pm configName key of Inl e \<Rightarrow> None | Inr v \<Rightarrow> Some v)"

text \<open>The typed values convert what \<open>Search\<close> finds, \<open>nil\<close> included; the library of the conversions is an argument.\<close>

definition SearchInt :: "('v option \<Rightarrow> 'a) \<Rightarrow> 'v provider_map \<Rightarrow> string \<Rightarrow> 'a" where
  "SearchInt cast pm key = cast (Search pm key)"

definition SearchInt32 :: "('v option \<Rightarrow> 'a) \<Rightarrow> 'v provider_map \<Rightarrow> string \<Rightarrow> 'a" where
  "SearchInt32 cast pm key = cast (Search pm key)"

definition SearchInt64 :: "('v option \<Rightarrow> 'a) \<Rightarrow> 'v provider_map \<Rightarrow> string \<Rightarrow> 'a" where
  "SearchInt64 cast pm key = cast (Search pm key)"

definition SearchString :: "('v option \<Rightarrow> 'a) \<Rightarrow> 'v provider_map \<Rightarrow> string \<Rightarrow> 'a" where
  "SearchString cast pm key = cast (Search pm key)"

definition SearchBool :: "('v option \<Rightarrow> 'a) \<Rightarrow> 'v provider_map \<Rightarrow> string \<Rightarrow> 'a" where
  "SearchBool cast pm key = cast (Search pm key)"

definition SearchIntSlice :: "('v option \<Rightarrow> 'a) \<Rightarrow> 'v provider_map \<Rightarrow> string \<Rightarrow> 'a" where
  "SearchIntSlice cast pm key = cast (Search pm key)"

definition SearchStringSlice :: "('v option \<Rightarrow> 'a) \<Rightarrow> 'v provider_map \<Rightarrow> string \<Rightarrow> 'a" where
  "SearchStringSlice cast pm key = cast (Search pm key)"

definition SearchStringMap :: "('v option \<Rightarrow> 'a) \<Rightarrow> 'v provider_map \<Rightarrow> string \<Rightarrow> 'a" where
  "SearchStringMap cast pm key = cast (Search pm key)"

definition SearchStringMapString :: "('v option \<Rightarrow> 'a) \<Rightarrow> 'v provider_map \<Rightarrow> string \<Rightarrow> 'a" where
  "SearchStringMapString cast pm key = cast (Search pm key)"

definition SearchIntE :: "('v option \<Rightarrow> config_err + 'a) \<Rightarrow> 'v provider_map \<Rightarrow> string \<Rightarrow> config_err + 'a" where
  "SearchIntE castE pm key = castE (Search pm key)"

definition SearchInt32E :: "('v option \<Rightarrow> config_err + 'a) \<Rightarrow> 'v provider_map \<Rightarrow> string \<Rightarrow> config_err + 'a" where
  "SearchInt32E castE pm key = castE (Search pm key)"

definition SearchInt64E :: "('v option \<Rightarrow> config_err + 'a) \<Rightarrow> 'v provider_map \<Rightarrow> string \<Rightarrow> config_err + 'a" where
  "SearchInt64E castE pm key = castE (Search pm key)"

definition SearchStringE :: "('v option \<Rightarrow> config_err + 'a) \<Rightarrow> 'v provider_map \<Rightarrow> string \<Rightarrow> config_err + 'a" where
  "SearchStringE castE pm key = castE (Search pm key)"

definition SearchBoolE :: "('v option \<Rightarrow> config_err + 'a) \<Rightarrow> 'v provider_map \<Rightarrow> string \<Rightarrow> config_err + 'a" where
  "SearchBoolE castE pm key = castE (Search pm key)"

definition SearchIntSliceE :: "('v option \<Rightarrow> config_err + 'a) \<Rightarrow> 'v provider_map \<Rightarrow> string \<Rightarrow> config_err + 'a" where
  "SearchIntSliceE castE pm key = castE (Search pm key)"

definition SearchStringSliceE :: "('v option \<Rightarrow> config_err + 'a) \<Rightarrow> 'v provider_map \<Rightarrow> string \<Rightarrow> config_err + 'a" where
  "SearchStringSliceE castE pm key = castE (Search pm key)"

definition SearchStringMapE :: "('v option \<Rightarrow> config_err + 'a) \<Rightarrow> 'v provider_map \<Rightarrow> string \<Rightarrow> config_err + 'a" where
  "SearchStringMapE castE pm key = castE (Search pm key)"

definition SearchStringMapStringE :: "('v option \<Rightarrow> config_err + 'a) \<Rightarrow> 'v provider_map \<Rightarrow> string \<Rightarrow> config_err + 'a" where
  "SearchStringMapStringE castE pm key = castE (Search pm key)"

text \<open>By the name of a configuration: the untyped value, and the typed ones, which return the error before the cast.\<close>

definition config_GetString :: "('v option \<Rightarrow> 'a) \<Rightarrow> 'v provider_map \<Rightarrow> string \<Rightarrow> string \<Rightarrow> 'a" where
  "config_GetString cast pm configName key = cast (config_Get pm configName key)"

definition config_GetStringE :: "('v \<Rightarrow> config_err + 'a) \<Rightarrow> 'v provider_map \<Rightarrow> string \<Rightarrow> string \<Rightarrow> config_err + 'a" where
  "config_GetStringE castE pm configName key =
     (case config_GetE pm configName key of Inl e \<Rightarrow> Inl e | Inr v \<Rightarrow> castE v)"

definition config_GetBool :: "('v option \<Rightarrow> 'a) \<Rightarrow> 'v provider_map \<Rightarrow> string \<Rightarrow> string \<Rightarrow> 'a" where
  "config_GetBool cast pm configName key = cast (config_Get pm configName key)"

definition config_GetBoolE :: "('v \<Rightarrow> config_err + 'a) \<Rightarrow> 'v provider_map \<Rightarrow> string \<Rightarrow> string \<Rightarrow> config_err + 'a" where
  "config_GetBoolE castE pm configName key =
     (case config_GetE pm configName key of Inl e \<Rightarrow> Inl e | Inr v \<Rightarrow> castE v)"

definition config_GetInt :: "('v option \<Rightarrow> 'a) \<Rightarrow> 'v provider_map \<Rightarrow> string \<Rightarrow> string \<Rightarrow> 'a" where
  "config_GetInt cast pm configName key = cast (config_Get pm configName key)"

definition config_GetIntE :: "('v \<Rightarrow> config_err + 'a) \<Rightarrow> 'v provider_map \<Rightarrow> string \<Rightarrow> string \<Rightarrow> config_err + 'a" where
  "config_GetIntE castE pm configName key =
     (case config_GetE pm configName key of Inl e \<Rightarrow> Inl e | Inr v \<Rightarrow> castE v)"

definition config_GetIntSlice :: "('v option \<Rightarrow> 'a) \<Rightarrow> 'v provider_map \<Rightarrow> string \<Rightarrow> string \<Rightarrow> 'a" where
  "config_GetIntSlice cast pm configName key = cast (config_Get pm configName key)"

definition config_GetIntSliceE :: "('v \<Rightarrow> config_err + 'a) \<Rightarrow> 'v provider_map \<Rightarrow> string \<Rightarrow> string \<Rightarrow> config_err + 'a" where
  "config_GetIntSliceE castE pm configName key =
     (case config_GetE pm configName key of Inl e \<Rightarrow> Inl e | Inr v \<Rightarrow> castE v)"

definition config_GetStringSlice :: "('v option \<Rightarrow> 'a) \<Rightarrow> 'v provider_map \<Rightarrow> string \<Rightarrow> string \<Rightarrow> 'a" where
  "config_GetStringSlice cast pm configName key = cast (config_Get pm configName key)"

definition config_GetStringSliceE :: "('v \<Rightarrow> config_err + 'a) \<Rightarrow> 'v provider_map \<Rightarrow> string \<Rightarrow> string \<Rightarrow> config_err + 'a" where
  "config_GetStringSliceE castE pm configName key =
     (case config_GetE pm configName key of Inl e \<Rightarrow> Inl e | Inr v \<Rightarrow> castE v)"

definition config_GetStringMap :: "('v option \<Rightarrow> 'a) \<Rightarrow> 'v provider_map \<Rightarrow> string \<Rightarrow> string \<Rightarrow> 'a" where
  "config_GetStringMap cast pm configName key = cast (config_Get pm configName key)"

definition config_GetStringMapE :: "('v \<Rightarrow> config_err + 'a) \<Rightarrow> 'v provider_map \<Rightarrow> string \<Rightarrow> string \<Rightarrow> config_err + 'a" where
  "config_GetStringMapE castE pm configName key =
     (case config_GetE pm configName key of Inl e \<Rightarrow> Inl e | Inr v \<Rightarrow> castE v)"

definition config_GetStringMapString :: "('v option \<Rightarrow> 'a) \<Rightarrow> 'v provider_map \<Rightarrow> string \<Rightarrow> string \<Rightarrow> 'a" where
  "config_GetStringMapString cast pm configName key = cast (config_Get pm configName key)"

definition config_GetStringMapStringE :: "('v \<Rightarrow> config_err + 'a) \<Rightarrow> 'v provider_map \<Rightarrow> string \<Rightarrow> string \<Rightarrow> config_err + 'a" where
  "config_GetStringMapStringE castE pm configName key =
     (case config_GetE pm configName key of Inl e \<Rightarrow> Inl e | Inr v \<Rightarrow> castE v)"

section \<open>Properties\<close>

text \<open>
  C34. A time-out in milliseconds is exact: whatever number is written, it becomes its nanoseconds or is refused, and the
  server then waits as long as it can; no product wraps around.
\<close>

theorem timeout_exact:
  assumes "ParseInt 64 value = (ms, None)"
  shows "(\<bar>ms\<bar> \<le> 9223372036854 \<longrightarrow>
      (\<exists>d. parseTimeout pd value = Inr d \<and> sint d = ms * 1000000 \<and> (value \<noteq> [] \<longrightarrow> timeout_or_max pd value = d))) \<and>
    (\<bar>ms\<bar> > 9223372036854 \<longrightarrow>
      parseTimeout pd value = Inl (TimeoutOverflow value) \<and> timeout_or_max pd value = MaxDuration)"
proof (cases "\<bar>ms\<bar> \<le> 9223372036854")
  case True
  then have range: "ms \<le> (2 ^ 63 - 1) div 1000000" "- ((2 ^ 63) div 1000000) \<le> ms" by simp_all
  then have parsed: "parseTimeout pd value = Inr (word_of_int ms * 1000000)"
    using assms by (simp add: parseTimeout_def)
  have "sint (word_of_int ms :: 64 word) = ms"
    using True by (simp add: sint_sbintrunc' signed_take_bit_int_eq_self)
  then have "sint (word_of_int ms * 1000000 :: 64 word) = ms * 1000000"
    using sint_mult_64 [of "word_of_int ms" 1000000] True by simp
  then show ?thesis using True parsed by (simp add: timeout_or_max_def)
next
  case False
  then have "ms > (2 ^ 63 - 1) div 1000000 \<or> ms < - ((2 ^ 63) div 1000000)" by auto
  then show ?thesis using assms False by (auto simp: parseTimeout_def timeout_or_max_def)
qed

theorem timeout_exact_witness:
  "\<exists>d. parseTimeout (\<lambda>s. Inl (ParseFailure s)) ''3000'' = Inr d \<and> sint d = 3000000000"
proof -
  have "ParseInt 64 ''3000'' = (3000, None)" by code_simp
  from timeout_exact [OF this, of "\<lambda>s. Inl (ParseFailure s)"] show ?thesis by auto
qed

text \<open>A configuration that is valid has a name and ports that are ports.\<close>

lemma valid_config:
  "config_Validate c = None \<longleftrightarrow> GetName c \<noteq> [] \<and> 0 < GetHTTPPort c \<and> GetHTTPPort c \<le> 65535 \<and> 0 < GetGRPCPort c \<and> GetGRPCPort c \<le> 65535"
  by (auto simp: config_Validate_def)

text \<open>The port of gRPC has a default, so that only one that is too large is refused.\<close>

lemma grpc_port_positive: "0 < GetGRPCPort c"
  by (simp add: GetGRPCPort_def Let_def)

text \<open>
  The configuration that is loaded is that of the first file which is there and can be read; those in front of it have
  failed, and what they left in the structure stays; those behind it are not opened.
\<close>

lemma config_init_append:
  "config_init exists parse front dest = (dest0, False) \<Longrightarrow>
   config_init exists parse (front @ rest) dest = config_init exists parse rest dest0"
  by (induction front arbitrary: dest) (auto split: if_splits prod.splits option.splits)

theorem config_init_first:
  "config_init exists parse paths dest = (dest', True) \<longleftrightarrow>
   (\<exists>front path rest dest0. paths = front @ path # rest \<and> exists path \<and>
      config_init exists parse front dest = (dest0, False) \<and> parse path dest0 = (dest', None))"
    (is "?loaded = ?found")
proof
  assume ?loaded
  then show ?found
  proof (induction paths arbitrary: dest)
    case (Cons p ps)
    show ?case
    proof (cases "exists p \<and> snd (parse p dest) = None")
      case True
      then have "parse p dest = (dest', None)" using Cons.prems by (cases "parse p dest") auto
      then show ?thesis using True by (intro exI [of _ "[]"] exI [of _ p] exI [of _ ps] exI [of _ dest]) simp
    next
      case False
      obtain dest1 where step: "config_init exists parse [p] dest = (dest1, False)"
        and rest: "config_init exists parse ps dest1 = (dest', True)"
      proof (cases "exists p")
        case False
        then show ?thesis using that Cons.prems by simp
      next
        case True
        with \<open>\<not> (exists p \<and> snd (parse p dest) = None)\<close> obtain dest1 e where "parse p dest = (dest1, Some e)"
          by (cases "parse p dest") auto
        then show ?thesis using that Cons.prems True by simp
      qed
      obtain front path rest dest0 where "ps = front @ path # rest" "exists path"
        "config_init exists parse front dest1 = (dest0, False)" "parse path dest0 = (dest', None)"
        using Cons.IH [OF rest] by blast
      then show ?thesis using config_init_append [OF step, of front]
        by (intro exI [of _ "p # front"] exI [of _ path] exI [of _ rest] exI [of _ dest0]) simp
    qed
  qed simp
next
  assume ?found
  then obtain front path rest dest0 where paths: "paths = front @ path # rest" and "exists path"
    and front: "config_init exists parse front dest = (dest0, False)" and "parse path dest0 = (dest', None)"
    by blast
  then show ?loaded by (simp add: config_init_append [OF front])
qed

lemma search_found: "\<exists>p\<in>snd ` set pm. pv_IsExist p key \<Longrightarrow> \<exists>p\<in>snd ` set pm. pv_IsExist p key \<and> Search pm key = pv_Get p key"
  by (induction pm key rule: Search.induct) auto

lemma search_missed: "\<not> (\<exists>p\<in>snd ` set pm. pv_IsExist p key) \<Longrightarrow> Search pm key = None"
  by (induction pm key rule: Search.induct) auto

text \<open>When the providers that have a key agree on its value, the order of the map makes no difference.\<close>

lemma search_order:
  assumes "\<And>p q. p \<in> snd ` set pm \<Longrightarrow> q \<in> snd ` set pm \<Longrightarrow> pv_IsExist p key \<Longrightarrow> pv_IsExist q key \<Longrightarrow> pv_Get p key = pv_Get q key"
    and "set pm' = set pm"
  shows "Search pm' key = Search pm key"
proof (cases "\<exists>p\<in>snd ` set pm. pv_IsExist p key")
  case True
  then have "\<exists>p\<in>snd ` set pm'. pv_IsExist p key" using assms(2) by simp
  then show ?thesis using True search_found assms by metis
next
  case False
  then have "\<not> (\<exists>p\<in>snd ` set pm'. pv_IsExist p key)" using assms(2) by simp
  then show ?thesis using False search_missed by metis
qed

text \<open>Two providers that do not agree: the answer is that of the one the map yields first.\<close>

lemma search_depends_on_order:
  "Search [(''a'', \<lparr>pv_Get = \<lambda>k. Some 1, pv_IsExist = \<lambda>k. True\<rparr>), (''b'', \<lparr>pv_Get = \<lambda>k. Some 2, pv_IsExist = \<lambda>k. True\<rparr>)] ''x'' = Some (1 :: nat)"
  "Search [(''b'', \<lparr>pv_Get = \<lambda>k. Some 2, pv_IsExist = \<lambda>k. True\<rparr>), (''a'', \<lparr>pv_Get = \<lambda>k. Some 1, pv_IsExist = \<lambda>k. True\<rparr>)] ''x'' = Some (2 :: nat)"
  by simp_all

text \<open>A provider that is added answers under its name.\<close>

lemma added_provider: "config_Get (AddProviders name p pm) name key = pv_Get p key"
  by (simp add: config_Get_def pm_Get_def AddProviders_def update_conv' split: option.split)

end
