(* ===== verification/Goredis_Variants.thy ===== *)
theory Goredis_Variants
  imports Goredis_Queue
begin

text \<open>
  The packages \<open>goredis/single\<close>, \<open>goredis/sentinel\<close> and \<open>goredis/cluster\<close>: earlier operators for one kind of client
  each, with delay queues of their own. They differ from \<open>goredis\<close> in the key of the delay set, which is a fixed
  template here. What the three share is written once with the template as an argument; the locale \<open>queue_variant\<close>
  says what it takes for such an operator to behave as the general one.
\<close>

section \<open>Delay queues over a template\<close>

definition variant_migrateSingleQueue :: "(string \<Rightarrow> string) \<Rightarrow> int \<Rightarrow> string option \<Rightarrow> string \<Rightarrow> operator_state \<Rightarrow> operator_state" where
  "variant_migrateSingleQueue template now fault delayKey op =
     op\<lparr>server := snd (migrateExpiredBody now fault (template delayKey) delayKey (server op))\<rparr>"

definition variant_migrateExpiredBatches :: "(string \<Rightarrow> string) \<Rightarrow> (string \<times> int \<times> string option) list \<Rightarrow> operator_state \<Rightarrow> operator_state" where
  "variant_migrateExpiredBatches template order op =
     fold (\<lambda>(q, now, fault). variant_migrateSingleQueue template now fault q) order op"

definition variant_PushDelayMessage ::
  "(string \<Rightarrow> string) \<Rightarrow> int \<Rightarrow> string option \<Rightarrow> string option \<Rightarrow> string \<Rightarrow> string \<Rightarrow> int \<Rightarrow> operator_state \<Rightarrow> string option \<times> operator_state" where
  "variant_PushDelayMessage template now sadd_fault zadd_fault queue msg delay op =
     (let key = template queue;
          push = (\<lambda>op. case zadd_fault of
                    Some e \<Rightarrow> (Some e, op)
                  | None \<Rightarrow> (None, op\<lparr>server := (server op)\<lparr>zsets := (zsets (server op))(key := zadd (now + delay) msg (zsets (server op) key))\<rparr>\<rparr>))
      in if queue \<in> delayQueues op then push op
         else
           let op1 = op\<lparr>delayQueues := insert queue (delayQueues op)\<rparr> in
           case SAdd sadd_fault CacheKeyWithDelayQueueKey queue (server op1) of
             (Some e, _) \<Rightarrow> (Some e, op1)
           | (None, r) \<Rightarrow> push (op1\<lparr>server := r\<rparr>))"

definition variant_daemon_step :: "(string \<Rightarrow> string) \<Rightarrow> daemon_event \<Rightarrow> daemon \<times> operator_state \<Rightarrow> daemon \<times> operator_state" where
  "variant_daemon_step template ev = (\<lambda>(st, op).
     (case st of
        Initialising retryBackoff \<Rightarrow>
          (case ev of
             RetryTimer (Inl e) \<Rightarrow>
               let b = retryBackoff * 2; b' = (if b > maxBackoff then maxBackoff else b)
               in (Initialising b', op)
           | RetryTimer (Inr ms) \<Rightarrow> (Polling, op\<lparr>delayQueues := delayQueues op \<union> set ms\<rparr>)
           | CtxDone \<Rightarrow> (Exited, op)
           | PollTick _ \<Rightarrow> (st, op))
      | Polling \<Rightarrow>
          (case ev of
             PollTick order \<Rightarrow> if closed op then (Exited, op) else (Polling, variant_migrateExpiredBatches template order op)
           | CtxDone \<Rightarrow> (Exited, op)
           | RetryTimer _ \<Rightarrow> (st, op))
      | Exited \<Rightarrow> (st, op)))"

text \<open>The constructor knows its kind of client; a failing ping closes the client again.\<close>

definition variant_NewRedisOperator :: "bool \<Rightarrow> string option \<Rightarrow> redis \<Rightarrow> string + daemon \<times> operator_state" where
  "variant_NewRedisOperator is_cluster ping srv =
     (case ping of
        Some e \<Rightarrow> Inl e
      | None \<Rightarrow> Inr (daemon_start, \<lparr>delayQueues = {}, closed = False, cluster = is_cluster, server = srv\<rparr>))"

section \<open>The package \<open>goredis/single\<close>\<close>

definition single_template :: "string \<Rightarrow> string" where
  "single_template queue = DelayQueueTimeoutPrefix @ queue"

definition single_migrateExpiredBody :: "int \<Rightarrow> string option \<Rightarrow> string \<Rightarrow> string \<Rightarrow> redis \<Rightarrow> string option \<times> redis" where
  "single_migrateExpiredBody = migrateExpiredBody"

definition single_migrateSingleQueue :: "int \<Rightarrow> string option \<Rightarrow> string \<Rightarrow> operator_state \<Rightarrow> operator_state" where
  "single_migrateSingleQueue = variant_migrateSingleQueue single_template"

definition single_migrateExpiredBatches :: "(string \<times> int \<times> string option) list \<Rightarrow> operator_state \<Rightarrow> operator_state" where
  "single_migrateExpiredBatches = variant_migrateExpiredBatches single_template"

definition single_PushDelayMessage ::
  "int \<Rightarrow> string option \<Rightarrow> string option \<Rightarrow> string \<Rightarrow> string \<Rightarrow> int \<Rightarrow> operator_state \<Rightarrow> string option \<times> operator_state" where
  "single_PushDelayMessage = variant_PushDelayMessage single_template"

definition single_PushMessage :: "string option \<Rightarrow> string \<Rightarrow> string \<Rightarrow> redis \<Rightarrow> string option \<times> redis" where
  "single_PushMessage = PushMessage"

definition single_GetMessage :: "string option \<Rightarrow> string \<Rightarrow> redis \<Rightarrow> (string + string) \<times> redis" where
  "single_GetMessage = GetMessage"

definition single_SAdd :: "string option \<Rightarrow> string \<Rightarrow> string \<Rightarrow> redis \<Rightarrow> string option \<times> redis" where
  "single_SAdd = SAdd"

definition single_daemon_step :: "daemon_event \<Rightarrow> daemon \<times> operator_state \<Rightarrow> daemon \<times> operator_state" where
  "single_daemon_step = variant_daemon_step single_template"

definition single_NewRedisOperator :: "string option \<Rightarrow> redis \<Rightarrow> string + daemon \<times> operator_state" where
  "single_NewRedisOperator = variant_NewRedisOperator False"

definition single_Close :: "string option \<Rightarrow> operator_state \<Rightarrow> string option \<times> operator_state" where
  "single_Close = redis_Close"

section \<open>The package \<open>goredis/sentinel\<close>\<close>

definition sentinel_template :: "string \<Rightarrow> string" where
  "sentinel_template queue = DelayQueueTimeoutPrefix @ queue"

definition sentinel_migrateExpiredBody :: "int \<Rightarrow> string option \<Rightarrow> string \<Rightarrow> string \<Rightarrow> redis \<Rightarrow> string option \<times> redis" where
  "sentinel_migrateExpiredBody = migrateExpiredBody"

definition sentinel_migrateSingleQueue :: "int \<Rightarrow> string option \<Rightarrow> string \<Rightarrow> operator_state \<Rightarrow> operator_state" where
  "sentinel_migrateSingleQueue = variant_migrateSingleQueue sentinel_template"

definition sentinel_migrateExpiredBatches :: "(string \<times> int \<times> string option) list \<Rightarrow> operator_state \<Rightarrow> operator_state" where
  "sentinel_migrateExpiredBatches = variant_migrateExpiredBatches sentinel_template"

definition sentinel_PushDelayMessage ::
  "int \<Rightarrow> string option \<Rightarrow> string option \<Rightarrow> string \<Rightarrow> string \<Rightarrow> int \<Rightarrow> operator_state \<Rightarrow> string option \<times> operator_state" where
  "sentinel_PushDelayMessage = variant_PushDelayMessage sentinel_template"

definition sentinel_PushMessage :: "string option \<Rightarrow> string \<Rightarrow> string \<Rightarrow> redis \<Rightarrow> string option \<times> redis" where
  "sentinel_PushMessage = PushMessage"

definition sentinel_GetMessage :: "string option \<Rightarrow> string \<Rightarrow> redis \<Rightarrow> (string + string) \<times> redis" where
  "sentinel_GetMessage = GetMessage"

definition sentinel_SAdd :: "string option \<Rightarrow> string \<Rightarrow> string \<Rightarrow> redis \<Rightarrow> string option \<times> redis" where
  "sentinel_SAdd = SAdd"

definition sentinel_daemon_step :: "daemon_event \<Rightarrow> daemon \<times> operator_state \<Rightarrow> daemon \<times> operator_state" where
  "sentinel_daemon_step = variant_daemon_step sentinel_template"

definition sentinel_NewRedisOperator :: "string option \<Rightarrow> redis \<Rightarrow> string + daemon \<times> operator_state" where
  "sentinel_NewRedisOperator = variant_NewRedisOperator False"

definition sentinel_Close :: "string option \<Rightarrow> operator_state \<Rightarrow> string option \<times> operator_state" where
  "sentinel_Close = redis_Close"

section \<open>The package \<open>goredis/cluster\<close>\<close>

definition cluster_template :: "string \<Rightarrow> string" where
  "cluster_template queue = DelayQueueTimeoutPrefix @ [lbr] @ queue @ [rbr]"

definition cluster_migrateExpiredBody :: "int \<Rightarrow> string option \<Rightarrow> string \<Rightarrow> string \<Rightarrow> redis \<Rightarrow> string option \<times> redis" where
  "cluster_migrateExpiredBody = migrateExpiredBody"

definition cluster_migrateSingleQueue :: "int \<Rightarrow> string option \<Rightarrow> string \<Rightarrow> operator_state \<Rightarrow> operator_state" where
  "cluster_migrateSingleQueue = variant_migrateSingleQueue cluster_template"

definition cluster_migrateExpiredBatches :: "(string \<times> int \<times> string option) list \<Rightarrow> operator_state \<Rightarrow> operator_state" where
  "cluster_migrateExpiredBatches = variant_migrateExpiredBatches cluster_template"

definition cluster_PushDelayMessage ::
  "int \<Rightarrow> string option \<Rightarrow> string option \<Rightarrow> string \<Rightarrow> string \<Rightarrow> int \<Rightarrow> operator_state \<Rightarrow> string option \<times> operator_state" where
  "cluster_PushDelayMessage = variant_PushDelayMessage cluster_template"

definition cluster_PushMessage :: "string option \<Rightarrow> string \<Rightarrow> string \<Rightarrow> redis \<Rightarrow> string option \<times> redis" where
  "cluster_PushMessage = PushMessage"

definition cluster_GetMessage :: "string option \<Rightarrow> string \<Rightarrow> redis \<Rightarrow> (string + string) \<times> redis" where
  "cluster_GetMessage = GetMessage"

definition cluster_SAdd :: "string option \<Rightarrow> string \<Rightarrow> string \<Rightarrow> redis \<Rightarrow> string option \<times> redis" where
  "cluster_SAdd = SAdd"

definition cluster_daemon_step :: "daemon_event \<Rightarrow> daemon \<times> operator_state \<Rightarrow> daemon \<times> operator_state" where
  "cluster_daemon_step = variant_daemon_step cluster_template"

definition cluster_NewRedisOperator :: "string option \<Rightarrow> redis \<Rightarrow> string + daemon \<times> operator_state" where
  "cluster_NewRedisOperator = variant_NewRedisOperator True"

definition cluster_Close :: "string option \<Rightarrow> operator_state \<Rightarrow> string option \<times> operator_state" where
  "cluster_Close = redis_Close"

section \<open>The variants and the general operator\<close>

text \<open>
  A call of an operator, by the client or by its daemon: a delayed push, or what the \<open>select\<close> of the daemon receives.
\<close>

datatype queue_call =
    Push int "string option" "string option" string string int
  | Event daemon_event
  | CloseOp "string option"

definition queue_step ::
  "(daemon_event \<Rightarrow> daemon \<times> operator_state \<Rightarrow> daemon \<times> operator_state)
   \<Rightarrow> (int \<Rightarrow> string option \<Rightarrow> string option \<Rightarrow> string \<Rightarrow> string \<Rightarrow> int \<Rightarrow> operator_state \<Rightarrow> string option \<times> operator_state)
   \<Rightarrow> queue_call \<Rightarrow> daemon \<times> operator_state \<Rightarrow> daemon \<times> operator_state" where
  "queue_step daemon push call = (\<lambda>(st, op).
     (case call of
        Push now f1 f2 queue msg delay \<Rightarrow> (st, snd (push now f1 f2 queue msg delay op))
      | Event ev \<Rightarrow> daemon ev (st, op)
      | CloseOp err \<Rightarrow> (st, snd (redis_Close err op))))"

definition general_calls :: "queue_call list \<Rightarrow> daemon \<times> operator_state \<Rightarrow> daemon \<times> operator_state" where
  "general_calls calls s = fold (queue_step daemon_step PushDelayMessage) calls s"

definition variant_calls :: "(string \<Rightarrow> string) \<Rightarrow> queue_call list \<Rightarrow> daemon \<times> operator_state \<Rightarrow> daemon \<times> operator_state" where
  "variant_calls template calls s = fold (queue_step (variant_daemon_step template) (variant_PushDelayMessage template)) calls s"

text \<open>No operation changes the kind of the client.\<close>

lemma cluster_single [simp]: "cluster (migrateSingleQueue now fault q op) = cluster op"
  by (simp add: migrateSingleQueue_def)

lemma cluster_batches [simp]: "cluster (migrateExpiredBatches order op) = cluster op"
  unfolding migrateExpiredBatches_def by (induction order arbitrary: op) (auto split: prod.split)

lemma cluster_push [simp]: "cluster (snd (PushDelayMessage now f1 f2 queue msg delay op)) = cluster op"
  by (simp add: PushDelayMessage_def Let_def split: option.split prod.split)

lemma cluster_daemon [simp]: "cluster (snd (daemon_step ev (st, op))) = cluster op"
  by (simp add: daemon_step_def Let_def split: daemon.split daemon_event.split sum.split)

lemma cluster_step [simp]: "cluster (snd (queue_step daemon_step PushDelayMessage call s)) = cluster (snd s)"
  by (cases s; cases call) (simp_all add: queue_step_def redis_Close_def)

locale queue_variant =
  fixes template :: "string \<Rightarrow> string" and is_cluster :: bool
  assumes template: "template queue = delayTimeoutKey is_cluster queue"
begin

lemma single_same: "cluster op = is_cluster \<Longrightarrow> variant_migrateSingleQueue template now fault q op = migrateSingleQueue now fault q op"
  by (simp add: variant_migrateSingleQueue_def migrateSingleQueue_def template)

lemma batches_same: "cluster op = is_cluster \<Longrightarrow> variant_migrateExpiredBatches template order op = migrateExpiredBatches order op"
  unfolding variant_migrateExpiredBatches_def migrateExpiredBatches_def
proof (induction order arbitrary: op)
  case (Cons x order)
  obtain q now fault where x: "x = (q, now, fault)" by (cases x)
  have "variant_migrateSingleQueue template now fault q op = migrateSingleQueue now fault q op"
    by (rule single_same [OF Cons.prems])
  moreover have "cluster (migrateSingleQueue now fault q op) = is_cluster" using Cons.prems by simp
  ultimately show ?case using Cons.IH x by simp
qed simp

lemma push_same: "cluster op = is_cluster \<Longrightarrow> variant_PushDelayMessage template now f1 f2 queue msg delay op = PushDelayMessage now f1 f2 queue msg delay op"
  by (simp add: variant_PushDelayMessage_def PushDelayMessage_def template)

lemma daemon_same: "cluster op = is_cluster \<Longrightarrow> variant_daemon_step template ev (st, op) = daemon_step ev (st, op)"
  by (simp add: variant_daemon_step_def daemon_step_def batches_same split: daemon.split daemon_event.split)

lemma step_same:
  assumes "cluster (snd s) = is_cluster"
  shows "queue_step (variant_daemon_step template) (variant_PushDelayMessage template) call s = queue_step daemon_step PushDelayMessage call s"
proof (cases s)
  case (Pair st op)
  then show ?thesis using assms push_same [of op] daemon_same [of op] by (cases call) (simp_all add: queue_step_def)
qed

lemma calls_same: "cluster (snd s) = is_cluster \<Longrightarrow> variant_calls template calls s = general_calls calls s"
  unfolding variant_calls_def general_calls_def
  by (induction calls arbitrary: s) (simp_all add: step_same)

end

interpretation single: queue_variant single_template False
  by unfold_locales (simp add: single_template_def delayTimeoutKey_def)

interpretation sentinel: queue_variant sentinel_template False
  by unfold_locales (simp add: sentinel_template_def delayTimeoutKey_def)

interpretation cluster: queue_variant cluster_template True
  by unfold_locales (simp add: cluster_template_def delayTimeoutKey_def)



text \<open>
  A queue that is moved from one server to a cluster is under another key there: what waits under the old one is not
  found any more.
\<close>

lemma templates_differ: "single_template queue \<noteq> cluster_template queue'" if "lbr \<notin> set queue"
  using that by (auto simp: single_template_def cluster_template_def)

end
