(* ===== verification/Pointer.thy ===== *)
theory Pointer
  imports Go_Words
begin

text \<open>
  The package \<open>pointer\<close>: between values and pointers to them, for single values, slices and maps of each basic type.
  The package repeats six functions for every type; here they are written once, over a store of cells, and each type
  has its own by its zero value. A pointer is the number of a cell, or \<open>None\<close> for \<open>nil\<close>; a slice of values is the
  numbers of its cells, so that a pointer into it and the slice itself share them.
\<close>

section \<open>Cells and pointers\<close>

type_synonym 'a store = "'a list"
type_synonym ptr = "nat option"

text \<open>The address of a parameter is a cell of its own.\<close>

definition new_cell :: "'a \<Rightarrow> 'a store \<Rightarrow> 'a store \<times> ptr" where
  "new_cell v s = (s @ [v], Some (length s))"

definition value_of :: "'a \<Rightarrow> 'a store \<Rightarrow> ptr \<Rightarrow> 'a" where
  "value_of zero s p = (case p of None \<Rightarrow> zero | Some a \<Rightarrow> s ! a)"

text \<open>\<open>&(src[i])\<close> is the cell of the slice.\<close>

definition slice_pointers :: "nat list \<Rightarrow> ptr list" where
  "slice_pointers src = map Some src"

definition slice_values :: "'a \<Rightarrow> 'a store \<Rightarrow> ptr list \<Rightarrow> 'a list" where
  "slice_values zero s src = map (value_of zero s) src"

text \<open>A map is a list of its entries in the order Go ranges over it. Each value is copied to a variable of its own.\<close>

fun map_pointers :: "(string \<times> 'a) list \<Rightarrow> 'a store \<Rightarrow> 'a store \<times> (string \<times> ptr) list" where
  "map_pointers [] s = (s, [])"
| "map_pointers ((k, v) # src) s =
     (case new_cell v s of (s, p) \<Rightarrow> (case map_pointers src s of (s, dst) \<Rightarrow> (s, (k, p) # dst)))"

text \<open>A nil pointer has no entry in the result.\<close>

fun map_values :: "'a store \<Rightarrow> (string \<times> ptr) list \<Rightarrow> (string \<times> 'a) list" where
  "map_values s [] = []"
| "map_values s ((k, None) # src) = map_values s src"
| "map_values s ((k, Some a) # src) = (k, s ! a) # map_values s src"

section \<open>The functions of each type\<close>

text \<open>The numbers with a fraction are values of a type variable, with their zero as an argument.\<close>

definition ptr_String :: "string \<Rightarrow> string store \<Rightarrow> string store \<times> ptr" where "ptr_String = new_cell"
definition ptr_StringValue :: "string store \<Rightarrow> ptr \<Rightarrow> string" where "ptr_StringValue = value_of []"
definition ptr_StringSlice :: "nat list \<Rightarrow> ptr list" where "ptr_StringSlice = slice_pointers"
definition ptr_StringValueSlice :: "string store \<Rightarrow> ptr list \<Rightarrow> string list" where "ptr_StringValueSlice = slice_values []"
definition ptr_StringMap :: "(string \<times> string) list \<Rightarrow> string store \<Rightarrow> string store \<times> (string \<times> ptr) list" where "ptr_StringMap = map_pointers"
definition ptr_StringValueMap :: "string store \<Rightarrow> (string \<times> ptr) list \<Rightarrow> (string \<times> string) list" where "ptr_StringValueMap = map_values"

definition ptr_Bool :: "bool \<Rightarrow> bool store \<Rightarrow> bool store \<times> ptr" where "ptr_Bool = new_cell"
definition ptr_BoolValue :: "bool store \<Rightarrow> ptr \<Rightarrow> bool" where "ptr_BoolValue = value_of False"
definition ptr_BoolSlice :: "nat list \<Rightarrow> ptr list" where "ptr_BoolSlice = slice_pointers"
definition ptr_BoolValueSlice :: "bool store \<Rightarrow> ptr list \<Rightarrow> bool list" where "ptr_BoolValueSlice = slice_values False"
definition ptr_BoolMap :: "(string \<times> bool) list \<Rightarrow> bool store \<Rightarrow> bool store \<times> (string \<times> ptr) list" where "ptr_BoolMap = map_pointers"
definition ptr_BoolValueMap :: "bool store \<Rightarrow> (string \<times> ptr) list \<Rightarrow> (string \<times> bool) list" where "ptr_BoolValueMap = map_values"

definition ptr_Int :: "64 word \<Rightarrow> (64 word) store \<Rightarrow> (64 word) store \<times> ptr" where "ptr_Int = new_cell"
definition ptr_IntValue :: "(64 word) store \<Rightarrow> ptr \<Rightarrow> 64 word" where "ptr_IntValue = value_of 0"
definition ptr_IntSlice :: "nat list \<Rightarrow> ptr list" where "ptr_IntSlice = slice_pointers"
definition ptr_IntValueSlice :: "(64 word) store \<Rightarrow> ptr list \<Rightarrow> (64 word) list" where "ptr_IntValueSlice = slice_values 0"
definition ptr_IntMap :: "(string \<times> 64 word) list \<Rightarrow> (64 word) store \<Rightarrow> (64 word) store \<times> (string \<times> ptr) list" where "ptr_IntMap = map_pointers"
definition ptr_IntValueMap :: "(64 word) store \<Rightarrow> (string \<times> ptr) list \<Rightarrow> (string \<times> 64 word) list" where "ptr_IntValueMap = map_values"

definition ptr_Uint :: "64 word \<Rightarrow> (64 word) store \<Rightarrow> (64 word) store \<times> ptr" where "ptr_Uint = new_cell"
definition ptr_UintValue :: "(64 word) store \<Rightarrow> ptr \<Rightarrow> 64 word" where "ptr_UintValue = value_of 0"
definition ptr_UintSlice :: "nat list \<Rightarrow> ptr list" where "ptr_UintSlice = slice_pointers"
definition ptr_UintValueSlice :: "(64 word) store \<Rightarrow> ptr list \<Rightarrow> (64 word) list" where "ptr_UintValueSlice = slice_values 0"
definition ptr_UintMap :: "(string \<times> 64 word) list \<Rightarrow> (64 word) store \<Rightarrow> (64 word) store \<times> (string \<times> ptr) list" where "ptr_UintMap = map_pointers"
definition ptr_UintValueMap :: "(64 word) store \<Rightarrow> (string \<times> ptr) list \<Rightarrow> (string \<times> 64 word) list" where "ptr_UintValueMap = map_values"

definition ptr_Int8 :: "8 word \<Rightarrow> (8 word) store \<Rightarrow> (8 word) store \<times> ptr" where "ptr_Int8 = new_cell"
definition ptr_Int8Value :: "(8 word) store \<Rightarrow> ptr \<Rightarrow> 8 word" where "ptr_Int8Value = value_of 0"
definition ptr_Int8Slice :: "nat list \<Rightarrow> ptr list" where "ptr_Int8Slice = slice_pointers"
definition ptr_Int8ValueSlice :: "(8 word) store \<Rightarrow> ptr list \<Rightarrow> (8 word) list" where "ptr_Int8ValueSlice = slice_values 0"
definition ptr_Int8Map :: "(string \<times> 8 word) list \<Rightarrow> (8 word) store \<Rightarrow> (8 word) store \<times> (string \<times> ptr) list" where "ptr_Int8Map = map_pointers"
definition ptr_Int8ValueMap :: "(8 word) store \<Rightarrow> (string \<times> ptr) list \<Rightarrow> (string \<times> 8 word) list" where "ptr_Int8ValueMap = map_values"

definition ptr_Int16 :: "16 word \<Rightarrow> (16 word) store \<Rightarrow> (16 word) store \<times> ptr" where "ptr_Int16 = new_cell"
definition ptr_Int16Value :: "(16 word) store \<Rightarrow> ptr \<Rightarrow> 16 word" where "ptr_Int16Value = value_of 0"
definition ptr_Int16Slice :: "nat list \<Rightarrow> ptr list" where "ptr_Int16Slice = slice_pointers"
definition ptr_Int16ValueSlice :: "(16 word) store \<Rightarrow> ptr list \<Rightarrow> (16 word) list" where "ptr_Int16ValueSlice = slice_values 0"
definition ptr_Int16Map :: "(string \<times> 16 word) list \<Rightarrow> (16 word) store \<Rightarrow> (16 word) store \<times> (string \<times> ptr) list" where "ptr_Int16Map = map_pointers"
definition ptr_Int16ValueMap :: "(16 word) store \<Rightarrow> (string \<times> ptr) list \<Rightarrow> (string \<times> 16 word) list" where "ptr_Int16ValueMap = map_values"

definition ptr_Int32 :: "32 word \<Rightarrow> (32 word) store \<Rightarrow> (32 word) store \<times> ptr" where "ptr_Int32 = new_cell"
definition ptr_Int32Value :: "(32 word) store \<Rightarrow> ptr \<Rightarrow> 32 word" where "ptr_Int32Value = value_of 0"
definition ptr_Int32Slice :: "nat list \<Rightarrow> ptr list" where "ptr_Int32Slice = slice_pointers"
definition ptr_Int32ValueSlice :: "(32 word) store \<Rightarrow> ptr list \<Rightarrow> (32 word) list" where "ptr_Int32ValueSlice = slice_values 0"
definition ptr_Int32Map :: "(string \<times> 32 word) list \<Rightarrow> (32 word) store \<Rightarrow> (32 word) store \<times> (string \<times> ptr) list" where "ptr_Int32Map = map_pointers"
definition ptr_Int32ValueMap :: "(32 word) store \<Rightarrow> (string \<times> ptr) list \<Rightarrow> (string \<times> 32 word) list" where "ptr_Int32ValueMap = map_values"

definition ptr_Int64 :: "64 word \<Rightarrow> (64 word) store \<Rightarrow> (64 word) store \<times> ptr" where "ptr_Int64 = new_cell"
definition ptr_Int64Value :: "(64 word) store \<Rightarrow> ptr \<Rightarrow> 64 word" where "ptr_Int64Value = value_of 0"
definition ptr_Int64Slice :: "nat list \<Rightarrow> ptr list" where "ptr_Int64Slice = slice_pointers"
definition ptr_Int64ValueSlice :: "(64 word) store \<Rightarrow> ptr list \<Rightarrow> (64 word) list" where "ptr_Int64ValueSlice = slice_values 0"
definition ptr_Int64Map :: "(string \<times> 64 word) list \<Rightarrow> (64 word) store \<Rightarrow> (64 word) store \<times> (string \<times> ptr) list" where "ptr_Int64Map = map_pointers"
definition ptr_Int64ValueMap :: "(64 word) store \<Rightarrow> (string \<times> ptr) list \<Rightarrow> (string \<times> 64 word) list" where "ptr_Int64ValueMap = map_values"

definition ptr_Uint8 :: "8 word \<Rightarrow> (8 word) store \<Rightarrow> (8 word) store \<times> ptr" where "ptr_Uint8 = new_cell"
definition ptr_Uint8Value :: "(8 word) store \<Rightarrow> ptr \<Rightarrow> 8 word" where "ptr_Uint8Value = value_of 0"
definition ptr_Uint8Slice :: "nat list \<Rightarrow> ptr list" where "ptr_Uint8Slice = slice_pointers"
definition ptr_Uint8ValueSlice :: "(8 word) store \<Rightarrow> ptr list \<Rightarrow> (8 word) list" where "ptr_Uint8ValueSlice = slice_values 0"
definition ptr_Uint8Map :: "(string \<times> 8 word) list \<Rightarrow> (8 word) store \<Rightarrow> (8 word) store \<times> (string \<times> ptr) list" where "ptr_Uint8Map = map_pointers"
definition ptr_Uint8ValueMap :: "(8 word) store \<Rightarrow> (string \<times> ptr) list \<Rightarrow> (string \<times> 8 word) list" where "ptr_Uint8ValueMap = map_values"

definition ptr_Uint16 :: "16 word \<Rightarrow> (16 word) store \<Rightarrow> (16 word) store \<times> ptr" where "ptr_Uint16 = new_cell"
definition ptr_Uint16Value :: "(16 word) store \<Rightarrow> ptr \<Rightarrow> 16 word" where "ptr_Uint16Value = value_of 0"
definition ptr_Uint16Slice :: "nat list \<Rightarrow> ptr list" where "ptr_Uint16Slice = slice_pointers"
definition ptr_Uint16ValueSlice :: "(16 word) store \<Rightarrow> ptr list \<Rightarrow> (16 word) list" where "ptr_Uint16ValueSlice = slice_values 0"
definition ptr_Uint16Map :: "(string \<times> 16 word) list \<Rightarrow> (16 word) store \<Rightarrow> (16 word) store \<times> (string \<times> ptr) list" where "ptr_Uint16Map = map_pointers"
definition ptr_Uint16ValueMap :: "(16 word) store \<Rightarrow> (string \<times> ptr) list \<Rightarrow> (string \<times> 16 word) list" where "ptr_Uint16ValueMap = map_values"

definition ptr_Uint32 :: "32 word \<Rightarrow> (32 word) store \<Rightarrow> (32 word) store \<times> ptr" where "ptr_Uint32 = new_cell"
definition ptr_Uint32Value :: "(32 word) store \<Rightarrow> ptr \<Rightarrow> 32 word" where "ptr_Uint32Value = value_of 0"
definition ptr_Uint32Slice :: "nat list \<Rightarrow> ptr list" where "ptr_Uint32Slice = slice_pointers"
definition ptr_Uint32ValueSlice :: "(32 word) store \<Rightarrow> ptr list \<Rightarrow> (32 word) list" where "ptr_Uint32ValueSlice = slice_values 0"
definition ptr_Uint32Map :: "(string \<times> 32 word) list \<Rightarrow> (32 word) store \<Rightarrow> (32 word) store \<times> (string \<times> ptr) list" where "ptr_Uint32Map = map_pointers"
definition ptr_Uint32ValueMap :: "(32 word) store \<Rightarrow> (string \<times> ptr) list \<Rightarrow> (string \<times> 32 word) list" where "ptr_Uint32ValueMap = map_values"

definition ptr_Uint64 :: "64 word \<Rightarrow> (64 word) store \<Rightarrow> (64 word) store \<times> ptr" where "ptr_Uint64 = new_cell"
definition ptr_Uint64Value :: "(64 word) store \<Rightarrow> ptr \<Rightarrow> 64 word" where "ptr_Uint64Value = value_of 0"
definition ptr_Uint64Slice :: "nat list \<Rightarrow> ptr list" where "ptr_Uint64Slice = slice_pointers"
definition ptr_Uint64ValueSlice :: "(64 word) store \<Rightarrow> ptr list \<Rightarrow> (64 word) list" where "ptr_Uint64ValueSlice = slice_values 0"
definition ptr_Uint64Map :: "(string \<times> 64 word) list \<Rightarrow> (64 word) store \<Rightarrow> (64 word) store \<times> (string \<times> ptr) list" where "ptr_Uint64Map = map_pointers"
definition ptr_Uint64ValueMap :: "(64 word) store \<Rightarrow> (string \<times> ptr) list \<Rightarrow> (string \<times> 64 word) list" where "ptr_Uint64ValueMap = map_values"

definition ptr_Float32 :: "'f \<Rightarrow> 'f store \<Rightarrow> 'f store \<times> ptr" where "ptr_Float32 = new_cell"
definition ptr_Float32Value :: "'f \<Rightarrow> 'f store \<Rightarrow> ptr \<Rightarrow> 'f" where "ptr_Float32Value = value_of"
definition ptr_Float32Slice :: "nat list \<Rightarrow> ptr list" where "ptr_Float32Slice = slice_pointers"
definition ptr_Float32ValueSlice :: "'f \<Rightarrow> 'f store \<Rightarrow> ptr list \<Rightarrow> 'f list" where "ptr_Float32ValueSlice = slice_values"
definition ptr_Float32Map :: "(string \<times> 'f) list \<Rightarrow> 'f store \<Rightarrow> 'f store \<times> (string \<times> ptr) list" where "ptr_Float32Map = map_pointers"
definition ptr_Float32ValueMap :: "'f store \<Rightarrow> (string \<times> ptr) list \<Rightarrow> (string \<times> 'f) list" where "ptr_Float32ValueMap = map_values"

definition ptr_Float64 :: "'f \<Rightarrow> 'f store \<Rightarrow> 'f store \<times> ptr" where "ptr_Float64 = new_cell"
definition ptr_Float64Value :: "'f \<Rightarrow> 'f store \<Rightarrow> ptr \<Rightarrow> 'f" where "ptr_Float64Value = value_of"
definition ptr_Float64Slice :: "nat list \<Rightarrow> ptr list" where "ptr_Float64Slice = slice_pointers"
definition ptr_Float64ValueSlice :: "'f \<Rightarrow> 'f store \<Rightarrow> ptr list \<Rightarrow> 'f list" where "ptr_Float64ValueSlice = slice_values"
definition ptr_Float64Map :: "(string \<times> 'f) list \<Rightarrow> 'f store \<Rightarrow> 'f store \<times> (string \<times> ptr) list" where "ptr_Float64Map = map_pointers"
definition ptr_Float64ValueMap :: "'f store \<Rightarrow> (string \<times> ptr) list \<Rightarrow> (string \<times> 'f) list" where "ptr_Float64ValueMap = map_values"

text \<open>A time is its nanoseconds since the beginning of 1970; the zero time is the beginning of the year 1.\<close>

definition zero_time :: int where "zero_time = - 62135596800 * 1000000000"

definition ptr_Time :: "int \<Rightarrow> int store \<Rightarrow> int store \<times> ptr" where "ptr_Time = new_cell"
definition ptr_TimeValue :: "int store \<Rightarrow> ptr \<Rightarrow> int" where "ptr_TimeValue = value_of zero_time"
definition ptr_TimeSlice :: "nat list \<Rightarrow> ptr list" where "ptr_TimeSlice = slice_pointers"
definition ptr_TimeValueSlice :: "int store \<Rightarrow> ptr list \<Rightarrow> int list" where "ptr_TimeValueSlice = slice_values zero_time"
definition ptr_TimeMap :: "(string \<times> int) list \<Rightarrow> int store \<Rightarrow> int store \<times> (string \<times> ptr) list" where "ptr_TimeMap = map_pointers"
definition ptr_TimeValueMap :: "int store \<Rightarrow> (string \<times> ptr) list \<Rightarrow> (string \<times> int) list" where "ptr_TimeValueMap = map_values"

text \<open>The product of milliseconds is one of 64 bits, and the division of Go truncates.\<close>

definition go_div :: "int \<Rightarrow> int \<Rightarrow> int" where
  "go_div a b = (if a < 0 then - ((- a) div b) else a div b)"

definition SecondsTimeValue :: "(64 word) option \<Rightarrow> int" where
  "SecondsTimeValue v = (case v of None \<Rightarrow> zero_time | Some n \<Rightarrow> go_div (sint n) 1000 * 1000000000)"

definition MillisecondsTimeValue :: "(64 word) option \<Rightarrow> int" where
  "MillisecondsTimeValue v = (case v of None \<Rightarrow> zero_time | Some n \<Rightarrow> sint (n * 1000000))"

text \<open>\<open>UnixNano\<close> is the number of nanoseconds at 64 bits.\<close>

definition TimeUnixMilli :: "int \<Rightarrow> int" where
  "TimeUnixMilli t = go_div (sint (word_of_int t :: 64 word)) 1000000"

section \<open>Properties\<close>

lemma map_pointers_eq:
  "map_pointers src s = (s @ map snd src, zip (map fst src) (map Some [length s..<length s + length src]))"
proof (induction src arbitrary: s)
  case (Cons e src)
  have "[length s..<length s + length (e # src)] = length s # [length (s @ [snd e])..<length (s @ [snd e]) + length src]"
    by (simp add: upt_conv_Cons del: upt_Suc)
  then show ?case using Cons [of "s @ [snd e]"] by (cases e) (simp add: new_cell_def del: upt_Suc)
qed simp

lemma map_values_zip:
  "length ks = length as \<Longrightarrow> map_values s (zip ks (map Some as)) = zip ks (map (\<lambda>a. s ! a) as)"
  by (induction ks as rule: list_induct2) simp_all

text \<open>
  From values to pointers and back nothing changes, for slices and for maps; the pointers of a slice are its own cells,
  so that what is stored through one is in the slice, while those of a map are new ones, and the values it was made from
  stay as they are.
\<close>

theorem pointers_roundtrip:
  assumes "\<forall>a\<in>set src. a < length s" and "map_pointers m s = (s', dst)"
  shows "slice_values zero s (slice_pointers src) = map (\<lambda>a. s ! a) src \<and>
    map_values s' dst = m \<and>
    (\<forall>i < length src. value_of zero (s[src ! i := v]) (slice_pointers src ! i) = v \<and> s[src ! i := v] ! (src ! i) = v) \<and>
    (\<forall>k a. (k, Some a) \<in> set dst \<longrightarrow> length s \<le> a \<and> (\<forall>b < length s. s'[a := v] ! b = s ! b)) \<and>
    distinct (map snd dst)"
proof -
  have s': "s' = s @ map snd m" using assms(2) by (simp add: map_pointers_eq)
  have dst: "dst = zip (map fst m) (map Some [length s..<length s + length m])" using assms(2) by (simp add: map_pointers_eq)
  have "map (\<lambda>a. s' ! a) [length s..<length s + length m] = map snd m"
    by (rule nth_equalityI) (simp_all add: s' nth_append)
  then have "map_values s' dst = m"
    by (simp add: dst map_values_zip zip_map_fst_snd)
  moreover have "distinct (map snd dst)"
    by (simp add: dst distinct_map)
  moreover have "length s \<le> a \<and> (\<forall>b < length s. s'[a := v] ! b = s ! b)" if "(k, Some a) \<in> set dst" for k a
  proof -
    have "length s \<le> a" using that by (auto simp: dst dest!: set_zip_rightD)
    then show ?thesis by (auto simp: s' nth_append nth_list_update)
  qed
  ultimately show ?thesis
    using assms(1) by (auto simp: slice_values_def slice_pointers_def value_of_def)
qed

theorem pointers_roundtrip_witness:
  "ptr_StringValueMap (fst (ptr_StringMap [(''k'', ''v'')] [''x''])) (snd (ptr_StringMap [(''k'', ''v'')] [''x''])) = [(''k'', ''v'')]"
proof -
  have "map_pointers [(''k'', ''v'')] [''x''] = ([''x'', ''v''], [(''k'', Some 1)])"
    by (simp add: new_cell_def)
  from pointers_roundtrip [of "[0]", OF _ this] show ?thesis
    unfolding ptr_StringMap_def ptr_StringValueMap_def by (simp add: new_cell_def)
qed

text \<open>A nil pointer becomes the zero value in a slice, which keeps its length, and is left out of a map.\<close>

lemma nil_pointers:
  "slice_values zero s (None # ps) = zero # slice_values zero s ps" "map_values s ((k, None) # m) = map_values s m"
  by (simp_all add: slice_values_def value_of_def)

text \<open>
  A number of milliseconds that fits in 64 bits of nanoseconds goes to a time and back; what is called seconds is
  divided by a thousand first.
\<close>

lemma millis_roundtrip:
  assumes "\<bar>sint n\<bar> \<le> 9223372036854"
  shows "TimeUnixMilli (MillisecondsTimeValue (Some n)) = sint n"
proof -
  have exact: "sint (n * 1000000) = sint n * 1000000"
    using sint_mult_64 [of n 1000000] assms by simp
  moreover have "- (sint n * 1000000) = (- sint n) * 1000000" by simp
  then have "- (sint n * 1000000) div 1000000 = - sint n" by (simp only: nonzero_mult_div_cancel_right)
  ultimately show ?thesis
    by (simp add: TimeUnixMilli_def MillisecondsTimeValue_def go_div_def)
qed

lemma seconds_are_divided:
  "SecondsTimeValue (Some 1700000000) = 1700000 * 1000000000"
  by (simp add: SecondsTimeValue_def go_div_def)

end
