(* ===== verification/Kube_Deployment.thy ===== *)
theory Kube_Deployment
  imports Go_Strings "HOL-Library.Word"
begin

text \<open>
  The package \<open>kube/deployment\<close>: a request to create a deployment, its check with the defaults it fills in, and the
  object of the Kubernetes API that is built from it. A quantity is what \<open>resource.ParseQuantity\<close> makes of a text,
  of type \<open>'q\<close>; \<open>None\<close> is its error, which \<open>resource.MustParse\<close> turns into a panic. The clientset is an argument:
  \<open>None\<close> if it cannot be made, which panics, else what it answers to an object. Labels are association lists where
  the code ranges over them.
\<close>

section \<open>Requests\<close>

record resource_info =
  ri_Limit :: string
  ri_Request :: string

record resource_config =
  rc_CPU :: "resource_info option"
  rc_Memory :: "resource_info option"

record env_var =
  ev_Name :: string
  ev_Value :: string

record mount_configmap =
  mc_FileName :: string
  mc_MountPath :: string
  mc_ConfigmapName :: string

record mount_pvc =
  mp_MountPath :: string
  mp_PvcName :: string

record mount_host_path =
  mh_MountPodPath :: string
  mh_MountHostPath :: string
  mh_Tag :: string

record container_info =
  ci_Name :: string
  ci_Image :: string
  ci_Command :: "string list"
  ci_Args :: "string list"
  ci_WorkingDir :: string
  ci_ContainerPorts :: "(32 word) list"
  ci_Env :: "env_var list"
  ci_Resources :: "resource_config option"
  ci_Stdin :: bool
  ci_StdinOnce :: bool
  ci_TTY :: bool
  ci_Configmaps :: "mount_configmap list"
  ci_Pvcs :: "mount_pvc list"
  ci_HostPaths :: "mount_host_path list"

record deployment_request =
  dr_Namespace :: string
  dr_DeploymentName :: string
  dr_DeploymentLabels :: "(string \<times> string) list"
  dr_Annotations :: "(string \<times> string) list"
  dr_RevisionHistoryLimit :: "32 word"
  dr_Replicas :: "32 word"
  dr_InitContainers :: "container_info list"
  dr_Containers :: "container_info list"

text \<open>What a container gets that does not say what it needs.\<close>

definition default_CPU :: resource_info where
  "default_CPU = \<lparr>ri_Limit = ''1'', ri_Request = ''0.5''\<rparr>"

definition default_Memory :: resource_info where
  "default_Memory = \<lparr>ri_Limit = ''1Gi'', ri_Request = ''500Mi''\<rparr>"

definition fill_resources :: "resource_config option \<Rightarrow> resource_config" where
  "fill_resources r =
     (case r of
        None \<Rightarrow> \<lparr>rc_CPU = Some default_CPU, rc_Memory = Some default_Memory\<rparr>
      | Some c \<Rightarrow>
          \<lparr>rc_CPU = (case rc_CPU c of None \<Rightarrow> Some default_CPU | Some i \<Rightarrow> Some i),
           rc_Memory = (case rc_Memory c of None \<Rightarrow> Some default_Memory | Some i \<Rightarrow> Some i)\<rparr>)"

text \<open>
  The loops over the two kinds of containers differ in the default of a name and in the text of the error. They write
  into the slice of the request, so the containers before the one that fails keep what was filled in, and that one its
  name.
\<close>

fun check_containers :: "string \<Rightarrow> string \<Rightarrow> nat \<Rightarrow> container_info list \<Rightarrow> string option \<times> container_info list" where
  "check_containers prefix err index [] = (None, [])"
| "check_containers prefix err index (c # cs) =
     (let c1 = (if ci_Name c = [] then c\<lparr>ci_Name := prefix @ itoa_nat index\<rparr> else c)
      in if ci_Image c1 = [] then (Some err, c1 # cs)
         else let c2 = c1\<lparr>ci_Resources := Some (fill_resources (ci_Resources c1))\<rparr>;
                  (e, cs') = check_containers prefix err (Suc index) cs
              in (e, c2 # cs'))"

definition init_prefix :: "string \<Rightarrow> string" where
  "init_prefix name = name @ ''-init-container-''"

definition container_prefix :: "string \<Rightarrow> string" where
  "container_prefix name = name @ ''-container-''"

definition deployment_checkParameters :: "deployment_request \<Rightarrow> string option \<times> deployment_request" where
  "deployment_checkParameters c =
     (if dr_Namespace c = [] then (Some ''namespace is required'', c)
      else if dr_DeploymentName c = [] then (Some ''deployment name is required'', c)
      else
        let c = (if dr_Replicas c = 0 then c\<lparr>dr_Replicas := 1\<rparr> else c);
            c = (if dr_RevisionHistoryLimit c = 0 then c\<lparr>dr_RevisionHistoryLimit := 3\<rparr> else c);
            (e, inits) = check_containers (init_prefix (dr_DeploymentName c)) ''init container's image is required'' 0 (dr_InitContainers c);
            c = c\<lparr>dr_InitContainers := inits\<rparr>
        in case e of
             Some err \<Rightarrow> (Some err, c)
           | None \<Rightarrow>
               let (e, cs) = check_containers (container_prefix (dr_DeploymentName c)) ''container's image is required'' 0 (dr_Containers c);
                   c = c\<lparr>dr_Containers := cs\<rparr>
               in case e of
                    Some err \<Rightarrow> (Some err, c)
                  | None \<Rightarrow>
                      (None, if dr_DeploymentLabels c = [] then c\<lparr>dr_DeploymentLabels := [(''app'', dr_DeploymentName c)]\<rparr> else c))"

section \<open>Volumes and mounts\<close>

record volume_mount =
  vm_Name :: string
  vm_MountPath :: string
  vm_SubPath :: string

datatype volume_source = ConfigMapSource string | ClaimSource string | HostPathSource string

record volume =
  vol_Name :: string
  vol_Source :: volume_source

definition configmap_volume :: "mount_configmap \<Rightarrow> string" where
  "configmap_volume m = mc_ConfigmapName m @ hd (split_char (CHR ''.'') (mc_FileName m))"

definition explainConfigmap :: "mount_configmap list \<Rightarrow> volume_mount list \<times> volume list" where
  "explainConfigmap ms =
     (map (\<lambda>m. \<lparr>vm_Name = configmap_volume m, vm_MountPath = mc_MountPath m @ ''/'' @ mc_FileName m, vm_SubPath = mc_FileName m\<rparr>) ms,
      map (\<lambda>m. \<lparr>vol_Name = configmap_volume m, vol_Source = ConfigMapSource (mc_ConfigmapName m)\<rparr>) ms)"

definition explainPvc :: "mount_pvc list \<Rightarrow> volume_mount list \<times> volume list" where
  "explainPvc ms =
     (map (\<lambda>m. \<lparr>vm_Name = mp_PvcName m, vm_MountPath = mp_MountPath m, vm_SubPath = []\<rparr>) ms,
      map (\<lambda>m. \<lparr>vol_Name = mp_PvcName m, vol_Source = ClaimSource (mp_PvcName m)\<rparr>) ms)"

definition explainHostPath :: "mount_host_path list \<Rightarrow> volume_mount list \<times> volume list" where
  "explainHostPath ms =
     (map (\<lambda>m. \<lparr>vm_Name = mh_Tag m, vm_MountPath = mh_MountPodPath m, vm_SubPath = []\<rparr>) ms,
      map (\<lambda>m. \<lparr>vol_Name = mh_Tag m, vol_Source = HostPathSource (mh_MountHostPath m)\<rparr>) ms)"

definition append_explained :: "'a list \<Rightarrow> ('a list \<Rightarrow> volume_mount list \<times> volume list) \<Rightarrow> volume_mount list \<times> volume list \<Rightarrow> volume_mount list \<times> volume list" where
  "append_explained ms explain acc =
     (if ms \<noteq> [] then let (mounts, volumes) = explain ms in (fst acc @ mounts, snd acc @ volumes) else acc)"

definition explainVolumeMounts ::
  "mount_configmap list \<Rightarrow> mount_pvc list \<Rightarrow> mount_host_path list \<Rightarrow> volume_mount list \<times> volume list" where
  "explainVolumeMounts configmaps pvcs hostPaths =
     append_explained hostPaths explainHostPath
       (append_explained pvcs explainPvc
         (append_explained configmaps explainConfigmap ([], [])))"

definition explainPort :: "(32 word) list \<Rightarrow> (32 word) list" where
  "explainPort ports = ports"

section \<open>The deployment\<close>

text \<open>The field \<open>WorkingDir\<close> of a container is not set by the code: it stays empty.\<close>

record 'q kube_container =
  kc_Name :: string
  kc_Command :: "string list"
  kc_Args :: "string list"
  kc_Env :: "env_var list"
  kc_Image :: string
  kc_ImagePullPolicy :: string
  kc_Ports :: "(32 word) list"
  kc_Limits :: "string \<rightharpoonup> 'q"
  kc_Requests :: "string \<rightharpoonup> 'q"
  kc_VolumeMounts :: "volume_mount list"
  kc_WorkingDir :: string
  kc_Stdin :: bool
  kc_StdinOnce :: bool
  kc_TTY :: bool

record 'q deployment =
  dp_Kind :: string
  dp_APIVersion :: string
  dp_Name :: string
  dp_Namespace :: string
  dp_Annotations :: "(string \<times> string) list"
  dp_Labels :: "string \<rightharpoonup> string"
  dp_Replicas :: "32 word"
  dp_RevisionHistoryLimit :: "32 word"
  dp_Selector :: "string \<rightharpoonup> string"
  dp_MinReadySeconds :: int
  dp_Strategy :: string
  dp_MaxSurge :: int
  dp_MaxUnavailable :: int
  dp_TemplateName :: string
  dp_TemplateNamespace :: string
  dp_TemplateLabels :: "string \<rightharpoonup> string"
  dp_Volumes :: "volume list"
  dp_InitContainers :: "'q kube_container list"
  dp_Containers :: "'q kube_container list"
  dp_HostNetwork :: bool
  dp_RestartPolicy :: string
  dp_DNSPolicy :: string

text \<open>The resources of a container: a nil pointer panics as a text does that is no quantity.\<close>

definition quantities :: "(string \<Rightarrow> 'q option) \<Rightarrow> container_info \<Rightarrow> ((string \<rightharpoonup> 'q) \<times> (string \<rightharpoonup> 'q)) option" where
  "quantities parse info =
     (case ci_Resources info of
        None \<Rightarrow> None
      | Some r \<Rightarrow>
          (case (rc_CPU r, rc_Memory r) of
             (Some c, Some m) \<Rightarrow>
               (case (parse (ri_Limit c), parse (ri_Limit m), parse (ri_Request c), parse (ri_Request m)) of
                  (Some lc, Some lm, Some rc, Some rm) \<Rightarrow>
                    Some ([''cpu'' \<mapsto> lc, ''memory'' \<mapsto> lm], [''cpu'' \<mapsto> rc, ''memory'' \<mapsto> rm])
                | _ \<Rightarrow> None)
           | _ \<Rightarrow> None))"

definition explain_container :: "(string \<Rightarrow> 'q option) \<Rightarrow> container_info \<Rightarrow> ('q kube_container \<times> volume list) option" where
  "explain_container parse info =
     (let ports = explainPort (ci_ContainerPorts info);
          (mounts, volumes) = explainVolumeMounts (ci_Configmaps info) (ci_Pvcs info) (ci_HostPaths info)
      in case quantities parse info of
           None \<Rightarrow> None
         | Some (limits, requests) \<Rightarrow>
             Some (\<lparr>kc_Name = ci_Name info, kc_Command = ci_Command info, kc_Args = ci_Args info, kc_Env = ci_Env info,
                    kc_Image = ci_Image info, kc_ImagePullPolicy = ''Always'', kc_Ports = ports,
                    kc_Limits = limits, kc_Requests = requests, kc_VolumeMounts = mounts, kc_WorkingDir = [],
                    kc_Stdin = ci_Stdin info, kc_StdinOnce = ci_StdinOnce info, kc_TTY = ci_TTY info\<rparr>,
                   volumes))"

fun explain_containers :: "(string \<Rightarrow> 'q option) \<Rightarrow> container_info list \<Rightarrow> ('q kube_container list \<times> volume list) option" where
  "explain_containers parse [] = Some ([], [])"
| "explain_containers parse (info # infos) =
     (case explain_container parse info of
        None \<Rightarrow> None
      | Some (c, vs) \<Rightarrow>
          (case explain_containers parse infos of
             None \<Rightarrow> None
           | Some (cs, vs') \<Rightarrow> Some (c # cs, vs @ vs')))"

definition set_labels :: "(string \<times> string) list \<Rightarrow> (string \<rightharpoonup> string) \<Rightarrow> string \<rightharpoonup> string" where
  "set_labels labels m = fold (\<lambda>(k, v) m. m(k \<mapsto> v)) labels m"

definition pod_labels :: "string \<Rightarrow> string \<rightharpoonup> string" where
  "pod_labels name = [''app'' \<mapsto> name, ''version'' \<mapsto> ''v1'']"

definition build_deployment :: "(string \<Rightarrow> 'q option) \<Rightarrow> deployment_request \<Rightarrow> 'q deployment option" where
  "build_deployment parse request =
     (case explain_containers parse (dr_InitContainers request) of
        None \<Rightarrow> None
      | Some (inits, vs1) \<Rightarrow>
          (case explain_containers parse (dr_Containers request) of
             None \<Rightarrow> None
           | Some (cs, vs2) \<Rightarrow>
               Some \<lparr>dp_Kind = ''Deployment'', dp_APIVersion = ''apps/v1'', dp_Name = dr_DeploymentName request,
                     dp_Namespace = dr_Namespace request, dp_Annotations = dr_Annotations request,
                     dp_Labels = set_labels (dr_DeploymentLabels request) Map.empty,
                     dp_Replicas = dr_Replicas request, dp_RevisionHistoryLimit = dr_RevisionHistoryLimit request,
                     dp_Selector = pod_labels (dr_DeploymentName request), dp_MinReadySeconds = 10,
                     dp_Strategy = ''RollingUpdate'', dp_MaxSurge = 1, dp_MaxUnavailable = 0,
                     dp_TemplateName = dr_DeploymentName request, dp_TemplateNamespace = dr_Namespace request,
                     dp_TemplateLabels = pod_labels (dr_DeploymentName request),
                     dp_Volumes = vs1 @ vs2, dp_InitContainers = inits, dp_Containers = cs, dp_HostNetwork = False,
                     dp_RestartPolicy = ''Always'', dp_DNSPolicy = ''ClusterFirstWithHostNet''\<rparr>))"

text \<open>
  How a call ends that creates an object: refused before anything is built, in a panic, or with what the server
  answered to the object that was sent.
\<close>

datatype ('obj, 'a) creation = Refused string | Panicked | Sent 'obj 'a

definition create_with :: "('obj \<Rightarrow> 'a) option \<Rightarrow> 'obj \<Rightarrow> ('obj, 'a) creation" where
  "create_with client obj = (case client of None \<Rightarrow> Panicked | Some create \<Rightarrow> Sent obj (create obj))"

definition CreateDeployment ::
  "(string \<Rightarrow> 'q option) \<Rightarrow> ('q deployment \<Rightarrow> 'a) option \<Rightarrow> deployment_request \<Rightarrow> ('q deployment, 'a) creation \<times> deployment_request" where
  "CreateDeployment parse client request =
     (let (err, request) = deployment_checkParameters request
      in case err of
           Some e \<Rightarrow> (Refused e, request)
         | None \<Rightarrow>
             (case build_deployment parse request of
                None \<Rightarrow> (Panicked, request)
              | Some d \<Rightarrow> (create_with client d, request)))"

section \<open>What the check leaves\<close>

text \<open>A container after the check: a name, an image, and both kinds of resources.\<close>

definition container_complete :: "container_info \<Rightarrow> bool" where
  "container_complete c \<longleftrightarrow>
     ci_Name c \<noteq> [] \<and> ci_Image c \<noteq> [] \<and>
     (case ci_Resources c of None \<Rightarrow> False | Some r \<Rightarrow> rc_CPU r \<noteq> None \<and> rc_Memory r \<noteq> None)"

lemma fill_resources_complete:
  "rc_CPU (fill_resources r) \<noteq> None" "rc_Memory (fill_resources r) \<noteq> None"
  by (auto simp: fill_resources_def split: option.split)

lemma fill_resources_again: "rc_CPU r \<noteq> None \<Longrightarrow> rc_Memory r \<noteq> None \<Longrightarrow> fill_resources (Some r) = r"
  by (auto simp: fill_resources_def)

lemma itoa_nat_text: "prefix @ itoa_nat n \<noteq> []"
  by simp

lemma check_containers_err:
  "fst (check_containers prefix err i cs) = (if list_all (\<lambda>c. ci_Image c \<noteq> []) cs then None else Some err)"
  by (induction prefix err i cs rule: check_containers.induct) (auto simp: Let_def split: prod.split)

lemma check_containers_complete:
  "check_containers prefix err i cs = (None, cs') \<Longrightarrow> list_all container_complete cs' \<and> length cs' = length cs"
proof (induction prefix err i cs arbitrary: cs' rule: check_containers.induct)
  case (2 prefix err i c cs)
  then show ?case
    by (auto simp: Let_def container_complete_def fill_resources_complete split: if_splits prod.splits)
qed simp

lemma complete_checked:
  assumes "container_complete c"
  shows "ci_Name c \<noteq> []" "ci_Image c \<noteq> []" "c\<lparr>ci_Resources := Some (fill_resources (ci_Resources c))\<rparr> = c"
proof -
  from assms obtain r where "ci_Resources c = Some r" "rc_CPU r \<noteq> None" "rc_Memory r \<noteq> None"
    by (auto simp: container_complete_def split: option.splits)
  then show "c\<lparr>ci_Resources := Some (fill_resources (ci_Resources c))\<rparr> = c"
    by (cases c) (simp add: fill_resources_again)
  show "ci_Name c \<noteq> []" "ci_Image c \<noteq> []" using assms by (simp_all add: container_complete_def)
qed

lemma check_containers_again:
  "list_all container_complete cs \<Longrightarrow> check_containers prefix err i cs = (None, cs)"
  by (induction cs arbitrary: i) (simp_all add: complete_checked)

lemma check_containers_named:
  "list_all (\<lambda>c. ci_Name c = []) cs \<Longrightarrow> list_all (\<lambda>c. ci_Image c \<noteq> []) cs \<Longrightarrow>
   map ci_Name (snd (check_containers prefix err i cs)) = map (\<lambda>n. prefix @ itoa_nat n) [i..<i + length cs]"
proof (induction cs arbitrary: i)
  case (Cons c cs)
  then have "map ci_Name (snd (check_containers prefix err (Suc i) cs)) = map (\<lambda>n. prefix @ itoa_nat n) [Suc i..<Suc i + length cs]"
    by simp
  moreover have "[i..<i + length (c # cs)] = i # [Suc i..<Suc i + length cs]"
    by (simp add: upt_conv_Cons del: upt_Suc)
  ultimately show ?case using Cons.prems by (auto simp: Let_def simp del: upt_Suc split: prod.split)
qed simp

section \<open>The check\<close>

definition images_given :: "deployment_request \<Rightarrow> bool" where
  "images_given r \<longleftrightarrow> list_all (\<lambda>c. ci_Image c \<noteq> []) (dr_InitContainers r @ dr_Containers r)"

definition request_complete :: "deployment_request \<Rightarrow> bool" where
  "request_complete r \<longleftrightarrow>
     dr_Namespace r \<noteq> [] \<and> dr_DeploymentName r \<noteq> [] \<and> dr_Replicas r \<noteq> 0 \<and> dr_RevisionHistoryLimit r \<noteq> 0 \<and>
     dr_DeploymentLabels r \<noteq> [] \<and> list_all container_complete (dr_InitContainers r @ dr_Containers r)"

lemma deployment_check_err:
  "fst (deployment_checkParameters r) = None \<longleftrightarrow> dr_Namespace r \<noteq> [] \<and> dr_DeploymentName r \<noteq> [] \<and> images_given r"
proof -
  have "(\<exists>cs'. check_containers p e i cs = (None, cs')) \<longleftrightarrow> list_all (\<lambda>c. ci_Image c \<noteq> []) cs" for p e i cs
    using check_containers_err [of p e i cs] by (cases "check_containers p e i cs") (auto split: if_splits)
  then show ?thesis
    unfolding deployment_checkParameters_def images_given_def
    by (auto simp: Let_def check_containers_err split: prod.splits option.splits if_splits
        dest: arg_cong [where f = fst])
qed

lemma deployment_check_complete:
  "deployment_checkParameters r = (None, r') \<Longrightarrow> request_complete r'"
  unfolding deployment_checkParameters_def request_complete_def
  by (auto simp: Let_def split: prod.splits option.splits if_splits dest!: check_containers_complete)

lemma complete_check_again: "request_complete r \<Longrightarrow> deployment_checkParameters r = (None, r)"
  by (simp add: request_complete_def deployment_checkParameters_def check_containers_again Let_def)

text \<open>
  The contract of a check that fills in defaults, for every kind of object: what has passed it passes it again and stays as
  it is. A call that builds its object from the checked request then does the same with the request as it was left.
\<close>

locale defaulting_check =
  fixes check :: "'r \<Rightarrow> string option \<times> 'r"
  assumes second: "check r = (None, r') \<Longrightarrow> check r' = (None, r')"
begin

lemma again:
  assumes "check r = (None, r')"
  shows "(case check r' of (Some e, q) \<Rightarrow> refuse e | (None, q) \<Rightarrow> build q) =
    (case check r of (Some e, q) \<Rightarrow> refuse e | (None, q) \<Rightarrow> build q)"
  using assms second [OF assms] by simp

end

interpretation dep: defaulting_check deployment_checkParameters
  by unfold_locales (rule complete_check_again [OF deployment_check_complete])

lemma check_keeps:
  "deployment_checkParameters r = (None, r') \<Longrightarrow>
   dr_Namespace r' = dr_Namespace r \<and> dr_DeploymentName r' = dr_DeploymentName r \<and>
   dr_InitContainers r' = snd (check_containers (init_prefix (dr_DeploymentName r)) ''init container's image is required'' 0 (dr_InitContainers r)) \<and>
   dr_Containers r' = snd (check_containers (container_prefix (dr_DeploymentName r)) ''container's image is required'' 0 (dr_Containers r))"
  unfolding deployment_checkParameters_def
  by (auto simp: Let_def split: prod.splits option.splits if_splits)

section \<open>What is sent\<close>

text \<open>
  What a Kubernetes server asks of a deployment that the code can get wrong: the selector selects the pods of the
  template, every container has a name and an image, and every mount names a volume of the pod.
\<close>

definition mounts_covered :: "volume list \<Rightarrow> 'q kube_container \<Rightarrow> bool" where
  "mounts_covered vs c \<longleftrightarrow> vm_Name ` set (kc_VolumeMounts c) \<subseteq> vol_Name ` set vs"

definition deployment_valid :: "'q deployment \<Rightarrow> bool" where
  "deployment_valid d \<longleftrightarrow>
     dp_Selector d \<subseteq>\<^sub>m dp_TemplateLabels d \<and> dp_Namespace d = dp_TemplateNamespace d \<and> dp_Namespace d \<noteq> [] \<and>
     dp_Name d \<noteq> [] \<and> dp_Replicas d \<noteq> 0 \<and>
     (\<forall>c \<in> set (dp_InitContainers d @ dp_Containers d).
        kc_Name c \<noteq> [] \<and> kc_Image c \<noteq> [] \<and> dom (kc_Limits c) = {''cpu'', ''memory''} \<and>
        dom (kc_Requests c) = {''cpu'', ''memory''} \<and> mounts_covered (dp_Volumes d) c)"

lemma explained_names:
  "explainVolumeMounts cms pvcs hps = (mounts, volumes) \<Longrightarrow> map vm_Name mounts = map vol_Name volumes"
  by (auto simp: explainVolumeMounts_def append_explained_def explainConfigmap_def explainPvc_def explainHostPath_def
      split: if_splits)

lemma explained_volumes:
  "map vol_Name (snd (explainVolumeMounts cms pvcs hps)) = map configmap_volume cms @ map mp_PvcName pvcs @ map mh_Tag hps"
  by (simp add: explainVolumeMounts_def append_explained_def explainConfigmap_def explainPvc_def explainHostPath_def)

definition quantity_texts :: "container_info \<Rightarrow> string list" where
  "quantity_texts info =
     (case ci_Resources info of
        None \<Rightarrow> []
      | Some r \<Rightarrow> concat (map (\<lambda>i. case i of None \<Rightarrow> [] | Some i \<Rightarrow> [ri_Limit i, ri_Request i]) [rc_CPU r, rc_Memory r]))"

lemma quantities_domains:
  "quantities parse info = Some (l, r) \<Longrightarrow> dom l = {''cpu'', ''memory''} \<and> dom r = {''cpu'', ''memory''}"
  by (auto simp: quantities_def split: option.splits if_splits)

lemma quantities_fail:
  "container_complete info \<Longrightarrow> quantities parse info = None \<longleftrightarrow> (\<exists>t \<in> set (quantity_texts info). parse t = None)"
  by (auto simp: quantities_def quantity_texts_def container_complete_def split: option.splits)

lemma explain_container_None: "explain_container parse info = None \<longleftrightarrow> quantities parse info = None"
  by (auto simp: explain_container_def Let_def split: option.split prod.split)

lemma explain_container_ok:
  assumes "explain_container parse info = Some (c, vs)" "container_complete info"
  shows "kc_Name c \<noteq> []" "kc_Image c \<noteq> []" "dom (kc_Limits c) = {''cpu'', ''memory''}"
    "dom (kc_Requests c) = {''cpu'', ''memory''}" "mounts_covered vs c"
    "map vol_Name vs = map configmap_volume (ci_Configmaps info) @ map mp_PvcName (ci_Pvcs info) @ map mh_Tag (ci_HostPaths info)"
proof -
  obtain mounts volumes where e: "explainVolumeMounts (ci_Configmaps info) (ci_Pvcs info) (ci_HostPaths info) = (mounts, volumes)"
    by (cases "explainVolumeMounts (ci_Configmaps info) (ci_Pvcs info) (ci_HostPaths info)")
  from assms(1) obtain l r where q: "quantities parse info = Some (l, r)" and vs: "vs = volumes"
    and c: "kc_Name c = ci_Name info" "kc_Image c = ci_Image info" "kc_Limits c = l" "kc_Requests c = r" "kc_VolumeMounts c = mounts"
    by (auto simp: explain_container_def e Let_def split: option.splits)
  show "kc_Name c \<noteq> []" "kc_Image c \<noteq> []" using assms(2) c by (simp_all add: container_complete_def)
  show "dom (kc_Limits c) = {''cpu'', ''memory''}" "dom (kc_Requests c) = {''cpu'', ''memory''}"
    using quantities_domains [OF q] c by simp_all
  have "set (map vm_Name mounts) = set (map vol_Name volumes)" by (simp only: explained_names [OF e])
  then show "mounts_covered vs c" by (simp add: mounts_covered_def c vs)
  show "map vol_Name vs = map configmap_volume (ci_Configmaps info) @ map mp_PvcName (ci_Pvcs info) @ map mh_Tag (ci_HostPaths info)"
    using explained_volumes [of "ci_Configmaps info" "ci_Pvcs info" "ci_HostPaths info"] by (simp add: e vs)
qed

lemma mounts_covered_mono: "mounts_covered vs c \<Longrightarrow> set vs \<subseteq> set vs' \<Longrightarrow> mounts_covered vs' c"
  by (auto simp: mounts_covered_def)

definition container_valid :: "volume list \<Rightarrow> 'q kube_container \<Rightarrow> bool" where
  "container_valid vs c \<longleftrightarrow>
     kc_Name c \<noteq> [] \<and> kc_Image c \<noteq> [] \<and> dom (kc_Limits c) = {''cpu'', ''memory''} \<and>
     dom (kc_Requests c) = {''cpu'', ''memory''} \<and> mounts_covered vs c"

lemma explain_containers_ok:
  "explain_containers parse infos = Some (cs, vs) \<Longrightarrow> list_all container_complete infos \<Longrightarrow>
   set vs \<subseteq> set vs' \<Longrightarrow> \<forall>c \<in> set cs. container_valid vs' c"
proof (induction infos arbitrary: cs vs)
  case (Cons info infos)
  then obtain c vs1 cs1 vs2 where e: "explain_container parse info = Some (c, vs1)"
    "explain_containers parse infos = Some (cs1, vs2)" "cs = c # cs1" "vs = vs1 @ vs2"
    by (auto split: option.splits)
  have "mounts_covered vs' c"
    using explain_container_ok(5) [OF e(1)] Cons.prems(2,3) e(4) by (auto intro: mounts_covered_mono)
  then have "container_valid vs' c"
    using explain_container_ok(1-4) [OF e(1)] Cons.prems(2) by (simp add: container_valid_def)
  moreover have "\<forall>c \<in> set cs1. container_valid vs' c"
    by (rule Cons.IH [OF e(2)]) (use Cons.prems(2,3) e(4) in auto)
  ultimately show ?case by (simp add: e(3))
qed simp

lemma explain_containers_volumes:
  "explain_containers parse infos = Some (cs, vs) \<Longrightarrow> list_all container_complete infos \<Longrightarrow>
   map vol_Name vs = concat (map (\<lambda>i. map configmap_volume (ci_Configmaps i) @ map mp_PvcName (ci_Pvcs i) @ map mh_Tag (ci_HostPaths i)) infos)"
proof (induction infos arbitrary: cs vs)
  case (Cons info infos)
  then obtain c vs1 cs1 vs2 where e: "explain_container parse info = Some (c, vs1)"
    "explain_containers parse infos = Some (cs1, vs2)" "vs = vs1 @ vs2"
    by (auto split: option.splits)
  show ?case
    using explain_container_ok(6) [OF e(1)] Cons.IH [OF e(2)] Cons.prems(2) by (simp add: e(3))
qed simp

lemma explain_containers_None:
  "list_all container_complete infos \<Longrightarrow>
   explain_containers parse infos = None \<longleftrightarrow> (\<exists>i \<in> set infos. \<exists>t \<in> set (quantity_texts i). parse t = None)"
proof (induction infos)
  case (Cons info infos)
  have "explain_container parse info = None \<longleftrightarrow> (\<exists>t \<in> set (quantity_texts info). parse t = None)"
    using Cons.prems by (simp add: explain_container_None quantities_fail)
  with Cons show ?case by (auto split: option.splits)
qed simp

lemma build_deployment_valid:
  assumes "build_deployment parse r = Some d" "request_complete r"
  shows "deployment_valid d"
proof -
  from assms(1) obtain ins vs1 cs vs2 where i: "explain_containers parse (dr_InitContainers r) = Some (ins, vs1)"
    and c: "explain_containers parse (dr_Containers r) = Some (cs, vs2)"
    and d: "dp_InitContainers d = ins" "dp_Containers d = cs" "dp_Volumes d = vs1 @ vs2"
      "dp_Selector d = pod_labels (dr_DeploymentName r)" "dp_TemplateLabels d = pod_labels (dr_DeploymentName r)"
      "dp_Namespace d = dr_Namespace r" "dp_TemplateNamespace d = dr_Namespace r" "dp_Name d = dr_DeploymentName r"
      "dp_Replicas d = dr_Replicas r"
    by (auto simp: build_deployment_def split: option.splits)
  have "\<forall>c \<in> set (ins @ cs). container_valid (vs1 @ vs2) c"
    using explain_containers_ok [OF i, of "vs1 @ vs2"] explain_containers_ok [OF c, of "vs1 @ vs2"] assms(2)
    by (auto simp: request_complete_def)
  then show ?thesis
    using assms(2) by (simp add: deployment_valid_def d request_complete_def container_valid_def)
qed

section \<open>Properties\<close>

text \<open>
  C37. A deployment that is sent comes from a request that passed the check and is valid; the check changes nothing the
  second time, and it passes exactly the requests with a namespace, a name and an image in each container. Once it
  has passed, the call panics exactly if there is no clientset or one of the quantities, given or filled in, is no
  quantity.
\<close>

theorem deployment_created:
  "(CreateDeployment parse client r = (Sent d a, r') \<longrightarrow>
      deployment_valid d \<and> (\<exists>create. client = Some create \<and> a = create d) \<and> deployment_checkParameters r' = (None, r')) \<and>
   ((\<exists>e. fst (CreateDeployment parse client r) = Refused e) \<longleftrightarrow>
      dr_Namespace r = [] \<or> dr_DeploymentName r = [] \<or> \<not> images_given r) \<and>
   (fst (CreateDeployment parse client r) = Panicked \<longleftrightarrow>
      dr_Namespace r \<noteq> [] \<and> dr_DeploymentName r \<noteq> [] \<and> images_given r \<and>
      (client = None \<or>
       (\<exists>i \<in> set (dr_InitContainers (snd (deployment_checkParameters r)) @ dr_Containers (snd (deployment_checkParameters r))).
          \<exists>t \<in> set (quantity_texts i). parse t = None)))"
proof -
  obtain err r1 where check: "deployment_checkParameters r = (err, r1)" by (cases "deployment_checkParameters r")
  show ?thesis
  proof (cases err)
    case (Some e)
    then show ?thesis
      using check deployment_check_err [of r] by (auto simp: CreateDeployment_def)
  next
    case None
    with check have complete: "request_complete r1" by (simp add: deployment_check_complete)
    have given: "dr_Namespace r \<noteq> []" "dr_DeploymentName r \<noteq> []" "images_given r"
      using deployment_check_err [of r] check None by auto
    have complete_lists: "list_all container_complete (dr_InitContainers r1)" "list_all container_complete (dr_Containers r1)"
      using complete by (simp_all add: request_complete_def)
    have none: "build_deployment parse r1 = None \<longleftrightarrow>
        (\<exists>i \<in> set (dr_InitContainers r1 @ dr_Containers r1). \<exists>t \<in> set (quantity_texts i). parse t = None)"
      using explain_containers_None [OF complete_lists(1), of parse] explain_containers_None [OF complete_lists(2), of parse]
      by (auto simp: build_deployment_def split: option.splits)
    show ?thesis
    proof (cases "build_deployment parse r1")
      case None': None
      then show ?thesis using none given check None by (simp add: CreateDeployment_def)
    next
      case (Some d1)
      have "deployment_valid d1" by (rule build_deployment_valid [OF Some complete])
      then show ?thesis
        using none given check None Some complete_check_again [OF complete]
        by (auto simp: CreateDeployment_def create_with_def split: option.split)
    qed
  qed
qed

definition demo_container :: container_info where
  "demo_container = \<lparr>ci_Name = [], ci_Image = ''img'', ci_Command = [], ci_Args = [], ci_WorkingDir = ''/srv'',
     ci_ContainerPorts = [80], ci_Env = [], ci_Resources = None, ci_Stdin = False, ci_StdinOnce = False, ci_TTY = False,
     ci_Configmaps = [], ci_Pvcs = [\<lparr>mp_MountPath = ''/data'', mp_PvcName = ''data''\<rparr>], ci_HostPaths = []\<rparr>"

definition demo_request :: deployment_request where
  "demo_request = \<lparr>dr_Namespace = ''ns'', dr_DeploymentName = ''app'', dr_DeploymentLabels = [], dr_Annotations = [],
     dr_RevisionHistoryLimit = 0, dr_Replicas = 0, dr_InitContainers = [], dr_Containers = [demo_container]\<rparr>"

definition demo_parse :: "string \<Rightarrow> string option" where
  "demo_parse t = (if t = [] then None else Some t)"

definition demo_deployment :: "string deployment" where
  "demo_deployment = the (build_deployment demo_parse (snd (deployment_checkParameters demo_request)))"

lemma demo_check: "fst (deployment_checkParameters demo_request) = None"
  by code_simp

lemma demo_built: "\<not> Option.is_none (build_deployment demo_parse (snd (deployment_checkParameters demo_request)))"
  by code_simp

lemma demo_created:
  "fst (CreateDeployment demo_parse (Some (\<lambda>d. ())) demo_request) = Sent demo_deployment ()"
proof -
  obtain r where r: "deployment_checkParameters demo_request = (None, r)"
    using demo_check by (metis prod.collapse)
  obtain d where "build_deployment demo_parse r = Some d"
    using demo_built r by (metis Option.is_none_def option.exhaust snd_conv)
  then show ?thesis
    unfolding CreateDeployment_def demo_deployment_def r Let_def by (simp add: create_with_def)
qed

theorem deployment_created_witness: "deployment_valid demo_deployment"
proof -
  obtain r' where "CreateDeployment demo_parse (Some (\<lambda>d. ())) demo_request = (Sent demo_deployment (), r')"
    using demo_created by (metis prod.collapse)
  from mp [OF conjunct1 [OF deployment_created] this] show ?thesis by (rule conjunct1)
qed

text \<open>
  A request that names the limit of a resource and leaves out what is requested passes the check, which fills in
  resources as a whole only; the empty text is then no quantity and the call panics.
\<close>

lemma half_resource_panics:
  assumes "parse [] = None" and "dr_Namespace r \<noteq> []" "dr_DeploymentName r \<noteq> []" "images_given r"
    and "dr_InitContainers r = []" "dr_Containers r = [c]"
    and "ci_Resources c = Some \<lparr>rc_CPU = Some \<lparr>ri_Limit = limit, ri_Request = []\<rparr>, rc_Memory = None\<rparr>"
  shows "fst (CreateDeployment parse client r) = Panicked"
proof -
  obtain r1 where r1: "deployment_checkParameters r = (None, r1)"
    using deployment_check_err [of r] assms(2-4) by (metis prod.collapse)
  have "ci_Image c \<noteq> []" using assms(4,6) by (simp add: images_given_def)
  then have "\<exists>i \<in> set (dr_Containers r1). [] \<in> set (quantity_texts i)"
    using check_keeps [OF r1] assms(5-7) by (simp add: fill_resources_def quantity_texts_def Let_def)
  then show ?thesis
    using assms(1-4) r1 deployment_check_complete [OF r1] explain_containers_None [of "dr_Containers r1" parse]
    by (auto simp: CreateDeployment_def build_deployment_def request_complete_def split: option.split)
qed

text \<open>
  The volumes of a pod are collected container by container and nothing is left out: two containers that mount the same
  claim, or one that mounts two files with the same stem of one config map, give the pod two volumes of one name,
  which the server refuses.
\<close>

lemma volume_names:
  assumes "build_deployment parse r = Some d" "request_complete r"
  shows "map vol_Name (dp_Volumes d) =
    concat (map (\<lambda>i. map configmap_volume (ci_Configmaps i) @ map mp_PvcName (ci_Pvcs i) @ map mh_Tag (ci_HostPaths i))
      (dr_InitContainers r @ dr_Containers r))"
proof -
  have c: "list_all container_complete (dr_InitContainers r)" "list_all container_complete (dr_Containers r)"
    using assms(2) by (simp_all add: request_complete_def)
  from assms(1) obtain ins vs1 cs vs2 where e: "explain_containers parse (dr_InitContainers r) = Some (ins, vs1)"
    "explain_containers parse (dr_Containers r) = Some (cs, vs2)" "dp_Volumes d = vs1 @ vs2"
    by (auto simp: build_deployment_def split: option.splits)
  show ?thesis
    using explain_containers_volumes [OF e(1) c(1)] explain_containers_volumes [OF e(2) c(2)] by (simp add: e(3))
qed

lemma shared_volume_twice:
  assumes "build_deployment parse r = Some d" "request_complete r"
    and "dr_Containers r = [c1, c2]" "p \<in> mp_PvcName ` set (ci_Pvcs c1)" "p \<in> mp_PvcName ` set (ci_Pvcs c2)"
  shows "\<not> distinct (map vol_Name (dp_Volumes d))"
  using assms(3-5) by (auto simp: volume_names [OF assms(1,2)])

lemma config_files_twice:
  assumes "build_deployment parse r = Some d" "request_complete r" "dr_Containers r = [c]"
    and "ci_Configmaps c = [m1, m2]" "mc_ConfigmapName m1 = mc_ConfigmapName m2"
    and "mc_FileName m1 = stem @ CHR ''.'' # e1" "mc_FileName m2 = stem @ CHR ''.'' # e2" "CHR ''.'' \<notin> set stem"
  shows "\<not> distinct (map vol_Name (dp_Volumes d))"
proof -
  have "hd (split_char (CHR ''.'') (stem @ CHR ''.'' # e)) = stem" for e
    using assms(8) by (simp add: split_char_append)
  then have "configmap_volume m1 = configmap_volume m2"
    using assms(5-7) by (simp add: configmap_volume_def)
  then show ?thesis using assms(3,4) by (simp add: volume_names [OF assms(1,2)])
qed

text \<open>Containers whose names are left out get different ones.\<close>

lemma container_names_distinct:
  assumes "deployment_checkParameters r = (None, r')"
    and "list_all (\<lambda>c. ci_Name c = []) (dr_InitContainers r @ dr_Containers r)"
  shows "distinct (map ci_Name (dr_InitContainers r' @ dr_Containers r'))"
proof -
  have "images_given r" using deployment_check_err [of r] assms(1) by auto
  then have names: "map ci_Name (dr_InitContainers r') = map (\<lambda>n. init_prefix (dr_DeploymentName r) @ itoa_nat n) [0..<length (dr_InitContainers r)]"
    "map ci_Name (dr_Containers r') = map (\<lambda>n. container_prefix (dr_DeploymentName r) @ itoa_nat n) [0..<length (dr_Containers r)]"
    using check_keeps [OF assms(1)] assms(2) by (simp_all add: images_given_def check_containers_named)
  have inj: "itoa_nat m = itoa_nat n \<Longrightarrow> m = n" for m n
    by (metis num_val_itoa_nat)
  show ?thesis
    unfolding map_append names
    by (auto simp: distinct_map inj_on_def init_prefix_def container_prefix_def dest: inj)
qed

end
