(* ===== verification/Kube_Objects.thy ===== *)
theory Kube_Objects
  imports Kube_Deployment
begin

text \<open>
  The other packages of \<open>kube\<close>: config maps, ingresses, services, persistent volumes, claims and storage classes, with
  the options of a listing. Fields of a request that the code only hands on have the type of the Kubernetes API as a
  type variable.
\<close>

section \<open>Options of a listing\<close>

record list_options =
  lo_LabelSelector :: string
  lo_FieldSelector :: string
  lo_Limit :: int
  lo_Continue :: string
  lo_Watch :: bool
  lo_ResourceVersion :: string
  lo_SendInitialEvents :: "bool option"

type_synonym list_option = "list_options \<Rightarrow> list_options"

definition WithLabelSelector :: "string \<Rightarrow> list_option" where "WithLabelSelector label opts = opts\<lparr>lo_LabelSelector := label\<rparr>"
definition WithFieldSelector :: "string \<Rightarrow> list_option" where "WithFieldSelector field opts = opts\<lparr>lo_FieldSelector := field\<rparr>"
definition WithLimitCount :: "int \<Rightarrow> list_option" where "WithLimitCount limit opts = opts\<lparr>lo_Limit := limit\<rparr>"
definition WithContinues :: "string \<Rightarrow> list_option" where "WithContinues continues opts = opts\<lparr>lo_Continue := continues\<rparr>"
definition WithWatch :: "bool \<Rightarrow> list_option" where "WithWatch w opts = opts\<lparr>lo_Watch := w\<rparr>"
definition WithResourceVersion :: "string \<Rightarrow> list_option" where "WithResourceVersion v opts = opts\<lparr>lo_ResourceVersion := v\<rparr>"
definition WithSendInitialEvents :: "bool \<Rightarrow> list_option" where "WithSendInitialEvents b opts = opts\<lparr>lo_SendInitialEvents := Some b\<rparr>"

definition empty_list_options :: list_options where
  "empty_list_options = \<lparr>lo_LabelSelector = [], lo_FieldSelector = [], lo_Limit = 0, lo_Continue = [], lo_Watch = False,
     lo_ResourceVersion = [], lo_SendInitialEvents = None\<rparr>"

text \<open>The listings and watches of all packages apply their options in order and hand the result to the client.\<close>

definition list_objects :: "('ns \<Rightarrow> list_options \<Rightarrow> 'a) option \<Rightarrow> 'ns \<Rightarrow> list_option list \<Rightarrow> 'a option" where
  "list_objects client ns opts =
     (let listOptions = fold (\<lambda>opt lo. opt lo) opts empty_list_options
      in case client of None \<Rightarrow> None | Some l \<Rightarrow> Some (l ns listOptions))"

section \<open>Labels\<close>

definition default_labels :: "string \<Rightarrow> string \<Rightarrow> (string \<times> string) list \<Rightarrow> (string \<times> string) list" where
  "default_labels key name labels = (if labels = [] then [(key, name)] else labels)"

section \<open>Config maps\<close>

record configmap_request =
  cm_Namespace :: string
  cm_ConfigmapName :: string
  cm_ConfigmapLabels :: "(string \<times> string) list"
  cm_Annotations :: "(string \<times> string) list"
  cm_Data :: "(string \<times> string) list"
  cm_BinaryData :: "(string \<times> string) list"

definition configmap_checkParameters :: "configmap_request \<Rightarrow> string option \<times> configmap_request" where
  "configmap_checkParameters c =
     (if cm_Namespace c = [] then (Some ''namespace is required'', c)
      else if cm_ConfigmapName c = [] then (Some ''configmap name is required'', c)
      else (None, c\<lparr>cm_ConfigmapLabels := default_labels ''configmap'' (cm_ConfigmapName c) (cm_ConfigmapLabels c)\<rparr>))"

record configmap =
  cfm_Kind :: string
  cfm_APIVersion :: string
  cfm_Name :: string
  cfm_Namespace :: string
  cfm_Annotations :: "(string \<times> string) list"
  cfm_Labels :: "string \<rightharpoonup> string"
  cfm_Data :: "(string \<times> string) list"
  cfm_BinaryData :: "(string \<times> string) list"

definition CreateConfigmap :: "(configmap \<Rightarrow> 'a) option \<Rightarrow> configmap_request \<Rightarrow> (configmap, 'a) creation" where
  "CreateConfigmap client request =
     (case configmap_checkParameters request of
        (Some e, _) \<Rightarrow> Refused e
      | (None, r) \<Rightarrow>
          create_with client \<lparr>cfm_Kind = ''ConfigMap'', cfm_APIVersion = ''v1'', cfm_Name = cm_ConfigmapName r,
            cfm_Namespace = cm_Namespace r, cfm_Annotations = cm_Annotations r,
            cfm_Labels = set_labels (cm_ConfigmapLabels r) Map.empty, cfm_Data = cm_Data r, cfm_BinaryData = cm_BinaryData r\<rparr>)"

section \<open>Ingresses\<close>

record ('backend, 'tls, 'rule) ingress_request =
  ir_Namespace :: string
  ir_IngressName :: string
  ir_IngressLabels :: "(string \<times> string) list"
  ir_Annotations :: "(string \<times> string) list"
  ir_DefaultBackend :: "'backend option"
  ir_IngressClassName :: "string option"
  ir_TLS :: "'tls list"
  ir_Rules :: "'rule list"

definition ingress_checkParameters ::
  "('b, 't, 'r) ingress_request \<Rightarrow> string option \<times> ('b, 't, 'r) ingress_request" where
  "ingress_checkParameters c =
     (if ir_Namespace c = [] then (Some ''namespace is required'', c)
      else if ir_IngressName c = [] then (Some ''ingress name is required'', c)
      else (None, c\<lparr>ir_IngressLabels := default_labels ''app'' (ir_IngressName c) (ir_IngressLabels c)\<rparr>))"

record ('backend, 'tls, 'rule) ingress =
  ing_Kind :: string
  ing_APIVersion :: string
  ing_Name :: string
  ing_Namespace :: string
  ing_Annotations :: "(string \<times> string) list"
  ing_Labels :: "string \<rightharpoonup> string"
  ing_IngressClassName :: "string option"
  ing_DefaultBackend :: "'backend option"
  ing_TLS :: "'tls list"
  ing_Rules :: "'rule list"

definition CreateIngress ::
  "(('b, 't, 'r) ingress \<Rightarrow> 'a) option \<Rightarrow> ('b, 't, 'r) ingress_request \<Rightarrow> (('b, 't, 'r) ingress, 'a) creation" where
  "CreateIngress client request =
     (case ingress_checkParameters request of
        (Some e, _) \<Rightarrow> Refused e
      | (None, r) \<Rightarrow>
          create_with client \<lparr>ing_Kind = ''Ingress'', ing_APIVersion = ''v1'', ing_Name = ir_IngressName r,
            ing_Namespace = ir_Namespace r, ing_Annotations = ir_Annotations r,
            ing_Labels = set_labels (ir_IngressLabels r) Map.empty, ing_IngressClassName = ir_IngressClassName r,
            ing_DefaultBackend = ir_DefaultBackend r, ing_TLS = ir_TLS r, ing_Rules = ir_Rules r\<rparr>)"

section \<open>Persistent volumes and claims\<close>

text \<open>
  Access modes are strings of the API; \<open>ReadWriteMany\<close> is the default. The text of the error of \<open>ParseQuantity\<close> is part
  of what the check reports, so \<open>parse\<close> gives it here.
\<close>

definition default_modes :: "string list \<Rightarrow> string list" where
  "default_modes modes = (if modes = [] then [''ReadWriteMany''] else modes)"

definition invalid_storage :: "string \<Rightarrow> string \<Rightarrow> string" where
  "invalid_storage s err = ''invalid storage '' @ quoted s @ '': '' @ err"

record 'source pv_request =
  pv_PvcName :: string
  pv_PvcLabels :: "(string \<times> string) list"
  pv_AccessModes :: "string list"
  pv_Storage :: string
  pv_StorageClassName :: string
  pv_Source :: 'source

definition pv_checkParameters :: "(string \<Rightarrow> string + 'q) \<Rightarrow> 's pv_request \<Rightarrow> string option \<times> 's pv_request" where
  "pv_checkParameters parse c =
     (if pv_PvcName c = [] then (Some ''pv name is required'', c)
      else
        let c = c\<lparr>pv_PvcLabels := default_labels ''pv'' (pv_PvcName c) (pv_PvcLabels c)\<rparr>;
            c = c\<lparr>pv_AccessModes := default_modes (pv_AccessModes c)\<rparr>
        in case parse (pv_Storage c) of Inl err \<Rightarrow> (Some (invalid_storage (pv_Storage c) err), c) | Inr _ \<Rightarrow> (None, c))"

record ('q, 'source) persistent_volume =
  pvol_Kind :: string
  pvol_APIVersion :: string
  pvol_Name :: string
  pvol_Labels :: "string \<rightharpoonup> string"
  pvol_AccessModes :: "string list"
  pvol_Capacity :: "string \<rightharpoonup> 'q"
  pvol_Source :: 'source
  pvol_StorageClassName :: string

definition CreatePV ::
  "(string \<Rightarrow> string + 'q) \<Rightarrow> (('q, 's) persistent_volume \<Rightarrow> 'a) option \<Rightarrow> 's pv_request \<Rightarrow> (('q, 's) persistent_volume, 'a) creation" where
  "CreatePV parse client request =
     (case pv_checkParameters parse request of
        (Some e, _) \<Rightarrow> Refused e
      | (None, r) \<Rightarrow>
          (case parse (pv_Storage r) of
             Inl _ \<Rightarrow> Panicked
           | Inr q \<Rightarrow>
               let pv = \<lparr>pvol_Kind = ''PersistentVolume'', pvol_APIVersion = ''v1'', pvol_Name = pv_PvcName r,
                         pvol_Labels = set_labels (pv_PvcLabels r) Map.empty, pvol_AccessModes = pv_AccessModes r,
                         pvol_Capacity = [''storage'' \<mapsto> q], pvol_Source = pv_Source r, pvol_StorageClassName = []\<rparr>;
                   pv = (if length (pv_StorageClassName r) \<noteq> 0 then pv\<lparr>pvol_StorageClassName := pv_StorageClassName r\<rparr> else pv)
               in create_with client pv))"

record pvc_request =
  pc_Namespace :: string
  pc_PvcName :: string
  pc_PvcLabels :: "(string \<times> string) list"
  pc_AccessModes :: "string list"
  pc_Storage :: string
  pc_StorageClassName :: string
  pc_VolumeName :: string
  pc_VolumeMode :: "string option"

definition pvc_checkParameters :: "(string \<Rightarrow> string + 'q) \<Rightarrow> pvc_request \<Rightarrow> string option \<times> pvc_request" where
  "pvc_checkParameters parse c =
     (if pc_Namespace c = [] then (Some ''namespace is required'', c)
      else if pc_PvcName c = [] then (Some ''pvc name is required'', c)
      else
        let c = c\<lparr>pc_PvcLabels := default_labels ''pvc'' (pc_PvcName c) (pc_PvcLabels c)\<rparr>;
            c = c\<lparr>pc_AccessModes := default_modes (pc_AccessModes c)\<rparr>
        in case parse (pc_Storage c) of Inl err \<Rightarrow> (Some (invalid_storage (pc_Storage c) err), c) | Inr _ \<Rightarrow> (None, c))"

record 'q volume_claim =
  vc_Kind :: string
  vc_APIVersion :: string
  vc_Name :: string
  vc_Labels :: "string \<rightharpoonup> string"
  vc_AccessModes :: "string list"
  vc_Requests :: "string \<rightharpoonup> 'q"
  vc_VolumeName :: string
  vc_VolumeMode :: "string option"
  vc_StorageClassName :: "string option"

text \<open>The client of claims is made for the namespace, which the object itself does not name.\<close>

definition CreatePVC ::
  "(string \<Rightarrow> string + 'q) \<Rightarrow> (string \<Rightarrow> 'q volume_claim \<Rightarrow> 'a) option \<Rightarrow> pvc_request \<Rightarrow> ('q volume_claim, 'a) creation" where
  "CreatePVC parse client request =
     (case pvc_checkParameters parse request of
        (Some e, _) \<Rightarrow> Refused e
      | (None, r) \<Rightarrow>
          (case parse (pc_Storage r) of
             Inl _ \<Rightarrow> Panicked
           | Inr q \<Rightarrow>
               let pvc = \<lparr>vc_Kind = ''PersistentVolumeClaim'', vc_APIVersion = ''v1'', vc_Name = pc_PvcName r,
                          vc_Labels = set_labels (pc_PvcLabels r) Map.empty, vc_AccessModes = pc_AccessModes r,
                          vc_Requests = [''storage'' \<mapsto> q], vc_VolumeName = pc_VolumeName r, vc_VolumeMode = pc_VolumeMode r,
                          vc_StorageClassName = None\<rparr>;
                   pvc = (if length (pc_StorageClassName r) \<noteq> 0 then pvc\<lparr>vc_StorageClassName := Some (pc_StorageClassName r)\<rparr> else pvc)
               in create_with (map_option (\<lambda>c. c (pc_Namespace r)) client) pvc))"

text \<open>A claim as the server knows it, and what is told of it; a quantity prints itself, the absent one as \<open>0\<close>.\<close>

record 'q known_claim =
  kn_Name :: string
  kn_Phase :: string
  kn_Requests :: "string \<rightharpoonup> 'q"

record pvc_info =
  pi_Name :: string
  pi_Status :: string
  pi_Capacity :: string

definition TransPVCInfo :: "('q \<Rightarrow> string) \<Rightarrow> 'q \<Rightarrow> 'q known_claim list \<Rightarrow> pvc_info list" where
  "TransPVCInfo print zero pvcs =
     map (\<lambda>pvc. \<lparr>pi_Name = kn_Name pvc, pi_Status = kn_Phase pvc,
                 pi_Capacity = print (case kn_Requests pvc ''storage'' of None \<Rightarrow> zero | Some q \<Rightarrow> q)\<rparr>) pvcs"

section \<open>Storage classes\<close>

record storage_class_request =
  sc_Name :: string
  sc_Labels :: "(string \<times> string) list"
  sc_AccessModes :: "string list"
  sc_Storage :: string
  sc_ReclaimPolicy :: "string option"
  sc_Provisioner :: string

definition storage_class_checkParameters :: "storage_class_request \<Rightarrow> string option \<times> storage_class_request" where
  "storage_class_checkParameters c =
     (if sc_Name c = [] then (Some ''storageClass name is required'', c)
      else if sc_Provisioner c = [] then (Some ''storageClass provisioner is required'', c)
      else
        let c = c\<lparr>sc_Labels := default_labels ''storage'' (sc_Name c) (sc_Labels c)\<rparr>
        in (None, c\<lparr>sc_AccessModes := default_modes (sc_AccessModes c)\<rparr>))"

record storage_class =
  stc_Kind :: string
  stc_APIVersion :: string
  stc_Name :: string
  stc_Labels :: "string \<rightharpoonup> string"
  stc_Provisioner :: string
  stc_ReclaimPolicy :: "string option"

definition CreateStorageClass ::
  "(storage_class \<Rightarrow> 'a) option \<Rightarrow> storage_class_request \<Rightarrow> (storage_class, 'a) creation" where
  "CreateStorageClass client request =
     (case storage_class_checkParameters request of
        (Some e, _) \<Rightarrow> Refused e
      | (None, r) \<Rightarrow>
          create_with client \<lparr>stc_Kind = ''StorageClass'', stc_APIVersion = ''v1'', stc_Name = sc_Name r,
            stc_Labels = set_labels (sc_Labels r) Map.empty, stc_Provisioner = sc_Provisioner r,
            stc_ReclaimPolicy = sc_ReclaimPolicy r\<rparr>)"

section \<open>Services\<close>

record ('port, 'affinity) service_request =
  sr_Namespace :: string
  sr_ServiceName :: string
  sr_ServiceLabels :: "(string \<times> string) list"
  sr_Annotations :: "(string \<times> string) list"
  sr_Selector :: "(string \<times> string) list"
  sr_Type :: string
  sr_ClusterIP :: string
  sr_ClusterIPs :: "string list"
  sr_Ports :: "'port list"
  sr_ExternalIPs :: "string list"
  sr_SessionAffinity :: string
  sr_LoadBalancerSourceRanges :: "string list"
  sr_ExternalName :: string
  sr_ExternalTrafficPolicy :: string
  sr_HealthCheckNodePort :: "32 word"
  sr_PublishNotReadyAddresses :: bool
  sr_SessionAffinityConfig :: "'affinity option"
  sr_IPFamilies :: "string list"
  sr_IPFamilyPolicy :: "string option"
  sr_AllocateLoadBalancerNodePorts :: "bool option"
  sr_LoadBalancerClass :: "string option"
  sr_InternalTrafficPolicy :: "string option"

definition service_checkParameters :: "('p, 'f) service_request \<Rightarrow> string option \<times> ('p, 'f) service_request" where
  "service_checkParameters c =
     (if sr_Namespace c = [] then (Some ''namespace is required'', c)
      else if sr_ServiceName c = [] then (Some ''service name is required'', c)
      else if sr_Type c = [] then (Some ''service type is required'', c)
      else
        let c = (if sr_ExternalTrafficPolicy c = [] then c\<lparr>sr_ExternalTrafficPolicy := ''Cluster''\<rparr> else c);
            c = c\<lparr>sr_ServiceLabels := default_labels ''app'' (sr_ServiceName c) (sr_ServiceLabels c)\<rparr>
        in (None, c\<lparr>sr_Selector := default_labels ''app'' (sr_ServiceName c) (sr_Selector c)\<rparr>))"

record ('port, 'affinity) service =
  svc_Kind :: string
  svc_APIVersion :: string
  svc_Name :: string
  svc_Namespace :: string
  svc_Annotations :: "(string \<times> string) list"
  svc_Labels :: "string \<rightharpoonup> string"
  svc_Type :: string
  svc_Ports :: "'port list"
  svc_Selector :: "(string \<times> string) list"
  svc_ClusterIP :: string
  svc_ClusterIPs :: "string list"
  svc_ExternalIPs :: "string list"
  svc_ExternalName :: string
  svc_ExternalTrafficPolicy :: string
  svc_LoadBalancerSourceRanges :: "string list"
  svc_HealthCheckNodePort :: "32 word"
  svc_PublishNotReadyAddresses :: bool
  svc_SessionAffinity :: string
  svc_SessionAffinityConfig :: "'affinity option"
  svc_IPFamilies :: "string list"
  svc_IPFamilyPolicy :: "string option"
  svc_AllocateLoadBalancerNodePorts :: "bool option"
  svc_LoadBalancerClass :: "string option"
  svc_InternalTrafficPolicy :: "string option"

text \<open>The field \<open>SessionAffinity\<close> of the specification is not set by the code: it stays empty.\<close>

definition CreateService ::
  "(('p, 'f) service \<Rightarrow> 'a) option \<Rightarrow> ('p, 'f) service_request \<Rightarrow> (('p, 'f) service, 'a) creation" where
  "CreateService client request =
     (case service_checkParameters request of
        (Some e, _) \<Rightarrow> Refused e
      | (None, r) \<Rightarrow>
          create_with client \<lparr>svc_Kind = ''Service'', svc_APIVersion = ''v1'', svc_Name = sr_ServiceName r,
            svc_Namespace = sr_Namespace r, svc_Annotations = sr_Annotations r,
            svc_Labels = set_labels (sr_ServiceLabels r) Map.empty, svc_Type = sr_Type r, svc_Ports = sr_Ports r,
            svc_Selector = sr_Selector r, svc_ClusterIP = sr_ClusterIP r, svc_ClusterIPs = sr_ClusterIPs r,
            svc_ExternalIPs = sr_ExternalIPs r, svc_ExternalName = sr_ExternalName r,
            svc_ExternalTrafficPolicy = sr_ExternalTrafficPolicy r,
            svc_LoadBalancerSourceRanges = sr_LoadBalancerSourceRanges r,
            svc_HealthCheckNodePort = sr_HealthCheckNodePort r,
            svc_PublishNotReadyAddresses = sr_PublishNotReadyAddresses r, svc_SessionAffinity = [],
            svc_SessionAffinityConfig = sr_SessionAffinityConfig r, svc_IPFamilies = sr_IPFamilies r,
            svc_IPFamilyPolicy = sr_IPFamilyPolicy r,
            svc_AllocateLoadBalancerNodePorts = sr_AllocateLoadBalancerNodePorts r,
            svc_LoadBalancerClass = sr_LoadBalancerClass r, svc_InternalTrafficPolicy = sr_InternalTrafficPolicy r\<rparr>)"

section \<open>Properties\<close>

lemma default_labels_idem [simp]: "default_labels k n (default_labels k n l) = default_labels k n l"
  by (simp add: default_labels_def)

lemma default_labels_nonempty [simp]: "default_labels k n l \<noteq> []"
  by (simp add: default_labels_def)

lemma default_modes_idem [simp]: "default_modes (default_modes m) = default_modes m"
  by (simp add: default_modes_def)

lemmas checkParameters_defs = configmap_checkParameters_def ingress_checkParameters_def pv_checkParameters_def
  pvc_checkParameters_def storage_class_checkParameters_def

text \<open>A request that passed its check passes it again, unchanged.\<close>

lemma checks_idempotent:
  "configmap_checkParameters cm = (None, cm') \<Longrightarrow> configmap_checkParameters cm' = (None, cm')"
  "ingress_checkParameters ing = (None, ing') \<Longrightarrow> ingress_checkParameters ing' = (None, ing')"
  "pv_checkParameters parse pv = (None, pv') \<Longrightarrow> pv_checkParameters parse pv' = (None, pv')"
  "pvc_checkParameters parse pvc = (None, pvc') \<Longrightarrow> pvc_checkParameters parse pvc' = (None, pvc')"
  "storage_class_checkParameters sc = (None, sc') \<Longrightarrow> storage_class_checkParameters sc' = (None, sc')"
  by (auto simp: checkParameters_defs Let_def split: if_splits sum.splits)

text \<open>So creating an object from the request that the check has left is creating it from the request.\<close>

interpretation cm: defaulting_check configmap_checkParameters
  by unfold_locales (rule checks_idempotent(1))

interpretation ing: defaulting_check ingress_checkParameters
  by unfold_locales (rule checks_idempotent(2))

interpretation pv: defaulting_check "pv_checkParameters parse" for parse
  by unfold_locales (rule checks_idempotent(3))

interpretation pvc: defaulting_check "pvc_checkParameters parse" for parse
  by unfold_locales (rule checks_idempotent(4))

interpretation sc: defaulting_check storage_class_checkParameters
  by unfold_locales (rule checks_idempotent(5))

lemma created_again:
  "configmap_checkParameters c = (None, c') \<Longrightarrow> CreateConfigmap client1 c' = CreateConfigmap client1 c"
  "ingress_checkParameters i = (None, i') \<Longrightarrow> CreateIngress client2 i' = CreateIngress client2 i"
  "pv_checkParameters parse p = (None, p') \<Longrightarrow> CreatePV parse client3 p' = CreatePV parse client3 p"
  "pvc_checkParameters parse q = (None, q') \<Longrightarrow> CreatePVC parse client4 q' = CreatePVC parse client4 q"
  "storage_class_checkParameters s = (None, s') \<Longrightarrow> CreateStorageClass client5 s' = CreateStorageClass client5 s"
  unfolding CreateConfigmap_def CreateIngress_def CreatePV_def CreatePVC_def CreateStorageClass_def
  by (erule cm.again ing.again pv.again pvc.again sc.again)+

text \<open>
  Volumes and claims are checked for their quantity first: with a clientset their creation never panics, and what is
  no quantity is refused before anything is sent.
\<close>

theorem storage_checked_first:
  "CreatePV parse (Some f) pv \<noteq> Panicked \<and> CreatePVC parse (Some g) pvc \<noteq> Panicked \<and>
   (parse (pv_Storage pv) = Inl e \<longrightarrow> (\<exists>t. CreatePV parse client pv = Refused t)) \<and>
   (parse (pc_Storage pvc) = Inl e \<longrightarrow> (\<exists>t. CreatePVC parse client' pvc = Refused t)) \<and>
   (CreatePV parse (Some f) pv = Sent v a \<longrightarrow>
      a = f v \<and> (\<exists>q. parse (pv_Storage pv) = Inr q \<and> pvol_Capacity v = [''storage'' \<mapsto> q]) \<and> pvol_AccessModes v \<noteq> []) \<and>
   (CreatePVC parse (Some g) pvc = Sent c b \<longrightarrow>
      b = g (pc_Namespace pvc) c \<and> (\<exists>q. parse (pc_Storage pvc) = Inr q \<and> vc_Requests c = [''storage'' \<mapsto> q]) \<and> vc_AccessModes c \<noteq> [])"
  by (auto simp: CreatePV_def CreatePVC_def pv_checkParameters_def pvc_checkParameters_def create_with_def Let_def
      default_modes_def split: sum.splits if_splits)

theorem storage_checked_first_witness:
  "CreatePV (\<lambda>t. Inl ''bad'' :: string + nat) (None :: ((nat, unit) persistent_volume \<Rightarrow> unit) option)
     \<lparr>pv_PvcName = ''pv'', pv_PvcLabels = [], pv_AccessModes = [], pv_Storage = ''1x'', pv_StorageClassName = [], pv_Source = ()\<rparr>
   \<noteq> Panicked"
proof -
  let ?pv = "\<lparr>pv_PvcName = ''pv'', pv_PvcLabels = [], pv_AccessModes = [], pv_Storage = ''1x'', pv_StorageClassName = [], pv_Source = ()\<rparr>"
  let ?parse = "\<lambda>t. Inl ''bad'' :: string + nat"
  have "\<exists>t. CreatePV ?parse (None :: ((nat, unit) persistent_volume \<Rightarrow> unit) option) ?pv = Refused t"
    by (rule mp [OF conjunct1 [OF conjunct2 [OF conjunct2 [OF storage_checked_first]]]]) simp
  then show ?thesis by auto
qed

lemma service_checked:
  assumes "service_checkParameters s = (None, s')"
  shows "sr_Namespace s' = sr_Namespace s" "sr_Selector s' = default_labels ''app'' (sr_ServiceName s) (sr_Selector s)"
proof -
  have "s' = snd (service_checkParameters s)" by (simp add: assms)
  then show "sr_Namespace s' = sr_Namespace s" "sr_Selector s' = default_labels ''app'' (sr_ServiceName s) (sr_Selector s)"
    using arg_cong [where f = fst, OF assms] by (simp_all add: service_checkParameters_def Let_def split: if_splits)
qed

text \<open>
  A service created without a selector selects the pods of the deployment of its name and namespace.
\<close>

theorem service_selects_deployment:
  assumes "CreateService client s = Sent svc a" and "sr_Selector s = []"
    and "CreateDeployment parse client' r = (Sent d b, r')"
    and "sr_ServiceName s = dr_DeploymentName r" and "sr_Namespace s = dr_Namespace r"
  shows "svc_Namespace svc = dp_TemplateNamespace d \<and> map_of (svc_Selector svc) \<subseteq>\<^sub>m dp_TemplateLabels d"
proof -
  obtain s1 where s1: "service_checkParameters s = (None, s1)"
    using assms(1) by (auto simp: CreateService_def split: prod.splits option.splits)
  have "svc_Namespace svc = sr_Namespace s1" "svc_Selector svc = sr_Selector s1"
    using assms(1) by (auto simp: CreateService_def s1 create_with_def split: option.splits)
  then have svc: "svc_Namespace svc = sr_Namespace s" "svc_Selector svc = [(''app'', sr_ServiceName s)]"
    using service_checked [OF s1] assms(2) by (simp_all add: default_labels_def)
  obtain r1 where "deployment_checkParameters r = (None, r1)" "build_deployment parse r1 = Some d"
    using assms(3) by (auto simp: CreateDeployment_def create_with_def split: prod.splits option.splits)
  then have "dp_TemplateLabels d = pod_labels (dr_DeploymentName r)" "dp_TemplateNamespace d = dr_Namespace r"
    using check_keeps [of r r1] by (auto simp: build_deployment_def split: option.splits)
  with svc assms(4,5) show ?thesis by (simp add: pod_labels_def map_le_def)
qed

text \<open>What the code takes and does not hand on: the session affinity of a service, and the size and the modes of a storage class.\<close>

lemma affinity_dropped: "CreateService client (s\<lparr>sr_SessionAffinity := x\<rparr>) = CreateService client s"
  by (simp add: CreateService_def service_checkParameters_def Let_def)

lemma storage_dropped: "CreateStorageClass client (s\<lparr>sc_Storage := x, sc_AccessModes := m\<rparr>) = CreateStorageClass client s"
  by (simp add: CreateStorageClass_def storage_class_checkParameters_def Let_def)

text \<open>A listing gets the last of several options of one kind, and what was not asked for is left empty.\<close>

lemma last_selector: "list_objects client ns (opts @ [WithLabelSelector a]) = list_objects client ns (opts @ [WithLabelSelector b, WithLabelSelector a])"
  by (simp add: list_objects_def WithLabelSelector_def)

definition demo_service :: "(nat, unit) service_request" where
  "demo_service = \<lparr>sr_Namespace = ''ns'', sr_ServiceName = ''app'', sr_ServiceLabels = [], sr_Annotations = [], sr_Selector = [],
     sr_Type = ''ClusterIP'', sr_ClusterIP = [], sr_ClusterIPs = [], sr_Ports = [80], sr_ExternalIPs = [],
     sr_SessionAffinity = [], sr_LoadBalancerSourceRanges = [], sr_ExternalName = [], sr_ExternalTrafficPolicy = [],
     sr_HealthCheckNodePort = 0, sr_PublishNotReadyAddresses = False, sr_SessionAffinityConfig = None, sr_IPFamilies = [],
     sr_IPFamilyPolicy = None, sr_AllocateLoadBalancerNodePorts = None, sr_LoadBalancerClass = None,
     sr_InternalTrafficPolicy = None\<rparr>"

lemma demo_service_sent: "\<exists>svc. CreateService (Some (\<lambda>s. ())) demo_service = Sent svc ()"
proof -
  have "fst (service_checkParameters demo_service) = None"
    by (simp add: service_checkParameters_def demo_service_def Let_def)
  then obtain s where s: "service_checkParameters demo_service = (None, s)" by (metis prod.collapse)
  show ?thesis unfolding CreateService_def s by (simp add: create_with_def)
qed

theorem service_selects_deployment_witness:
  "\<exists>svc. CreateService (Some (\<lambda>s. ())) demo_service = Sent svc () \<and>
     map_of (svc_Selector svc) \<subseteq>\<^sub>m dp_TemplateLabels demo_deployment"
proof -
  obtain svc where svc: "CreateService (Some (\<lambda>s. ())) demo_service = Sent svc ()" using demo_service_sent by blast
  obtain r' where d: "CreateDeployment demo_parse (Some (\<lambda>d. ())) demo_request = (Sent demo_deployment (), r')"
    using demo_created by (metis prod.collapse)
  have "sr_Selector demo_service = []" "sr_ServiceName demo_service = dr_DeploymentName demo_request"
    "sr_Namespace demo_service = dr_Namespace demo_request"
    by (simp_all add: demo_service_def demo_request_def)
  from service_selects_deployment [OF svc this(1) d this(2,3)] svc show ?thesis by blast
qed

end
