(* ===== verification/Middleware.thy ===== *)
theory Middleware
  imports Go_Strings
begin

text \<open>
  \<open>jwtx/jwt.go\<close> and the package \<open>middleware\<close>: tokens, the check of them in front of a handler, the values that are put
  into the context of a request, the copying of bodies for the log and the recovery from panics. The JWT library is
  an argument, of which a law is assumed: what it signed with a secret it opens again with that secret. The context of
  a request is a record; a handler that is passed the rest of the chain calls it or aborts.
\<close>

section \<open>Tokens\<close>

record user =
  u_ID :: string
  u_Name :: string
  u_Audience :: string
  u_ExtraInfo :: "(string \<times> string) list"

record std_claims =
  sc_Audience :: string
  sc_ExpiresAt :: int
  sc_Id :: string
  sc_IssuedAt :: int
  sc_Issuer :: string

record user_claims =
  uc_Standard :: std_claims
  uc_User :: "user option"

definition AppIss :: string where
  "AppIss = ''github.com/jasonlabz/potato''"

text \<open>
  The library: signing claims with HS256; opening a token with a function that has the key for the method named in its
  header, or refuses it; and the two comparisons of the standard claims.
\<close>

datatype signing_method = HMAC string | OtherMethod string

record jwt_library =
  jl_sign :: "string \<Rightarrow> user_claims \<Rightarrow> string + string"
  jl_open :: "(signing_method \<Rightarrow> string + string) \<Rightarrow> string \<Rightarrow> string + user_claims"
  jl_VerifyExpiresAt :: "std_claims \<Rightarrow> int \<Rightarrow> bool \<Rightarrow> bool"
  jl_VerifyIssuer :: "std_claims \<Rightarrow> string \<Rightarrow> bool \<Rightarrow> bool"

text \<open>\<open>Valid\<close>, which the library calls on claims it has opened.\<close>

definition claims_Valid :: "jwt_library \<Rightarrow> int \<Rightarrow> user_claims \<Rightarrow> string option" where
  "claims_Valid lib now c =
     (if \<not> jl_VerifyExpiresAt lib (uc_Standard c) now True then Some ''token is expired''
      else if \<not> jl_VerifyIssuer lib (uc_Standard c) AppIss True then Some ''token's issuer is wrong''
      else case uc_User c of
             None \<Rightarrow> Some ''invalid user in jwt''
           | Some u \<Rightarrow> if u_Audience u = [] then Some ''invalid user in jwt'' else None)"

text \<open>Times are in nanoseconds, \<open>Unix()\<close> gives seconds. A token that cannot be signed ends the process: \<open>None\<close>.\<close>

definition Unix :: "int \<Rightarrow> int" where
  "Unix t = t div 1000000000"

definition GenerateJWTToken :: "jwt_library \<Rightarrow> string \<Rightarrow> int \<Rightarrow> int \<Rightarrow> user \<Rightarrow> int \<Rightarrow> string option" where
  "GenerateJWTToken lib secretKey now now' m d =
     (let expireTime = now + d;
          stdClaims = \<lparr>sc_Audience = u_Audience m, sc_ExpiresAt = Unix expireTime, sc_Id = u_ID m,
                       sc_IssuedAt = Unix now', sc_Issuer = AppIss\<rparr>
      in case jl_sign lib secretKey \<lparr>uc_Standard = stdClaims, uc_User = Some m\<rparr> of
           Inl e \<Rightarrow> None
         | Inr t \<Rightarrow> Some t)"

definition key_for :: "string \<Rightarrow> signing_method \<Rightarrow> string + string" where
  "key_for secretKey m =
     (case m of OtherMethod alg \<Rightarrow> Inl (''unexpected signing method: '' @ alg) | HMAC alg \<Rightarrow> Inr secretKey)"

definition ParseJWTToken :: "jwt_library \<Rightarrow> string \<Rightarrow> int \<Rightarrow> string \<Rightarrow> string + user option" where
  "ParseJWTToken lib secretKey now tokenString =
     (if tokenString = [] then Inl ''no token is found in Authorization Bearer''
      else case jl_open lib (key_for secretKey) tokenString of
             Inl e \<Rightarrow> Inl e
           | Inr claims \<Rightarrow>
               (case claims_Valid lib (Unix now) claims of
                  Some e \<Rightarrow> Inl e
                | None \<Rightarrow> Inr (uc_User claims)))"

text \<open>
  What the documentation of the library promises: a token that was signed with a secret is not empty and opens to its
  claims if the function answers HMAC with that secret; a required expiry that is not set fails, one that is set holds
  until its second has passed; an issuer is compared for equality.
\<close>

definition lawful_jwt :: "jwt_library \<Rightarrow> bool" where
  "lawful_jwt lib \<longleftrightarrow>
     (\<forall>secret c t key. jl_sign lib secret c = Inr t \<and> (\<forall>alg. key (HMAC alg) = Inr secret) \<longrightarrow> t \<noteq> [] \<and> jl_open lib key t = Inr c) \<and>
     (\<forall>s now. jl_VerifyExpiresAt lib s now True \<longleftrightarrow> sc_ExpiresAt s \<noteq> 0 \<and> now \<le> sc_ExpiresAt s) \<and>
     (\<forall>s iss. jl_VerifyIssuer lib s iss True \<longleftrightarrow> sc_Issuer s = iss \<and> iss \<noteq> [])"

section \<open>The context of a request\<close>

record gin_context =
  gc_header :: "string \<Rightarrow> string"
  gc_keys :: "string \<rightharpoonup> string"
  gc_body :: "string \<times> string option"
  gc_response_header :: "string \<rightharpoonup> string"
  gc_aborted :: "int option"
  gc_errors :: "string list"
  gc_handled :: "string list"

type_synonym handler = "(gin_context \<Rightarrow> gin_context) \<Rightarrow> gin_context \<Rightarrow> gin_context"

text \<open>
  A chain of middleware in front of a handler. The library stops the chain at one that aborted; the middleware here
  then returns without calling the rest.
\<close>

definition handler_chain :: "handler list \<Rightarrow> (gin_context \<Rightarrow> gin_context) \<Rightarrow> gin_context \<Rightarrow> gin_context" where
  "handler_chain hs final = foldr (\<lambda>h next. h next) hs final"

definition set_key :: "string \<Rightarrow> string \<Rightarrow> gin_context \<Rightarrow> gin_context" where
  "set_key k v c = c\<lparr>gc_keys := (gc_keys c)(k \<mapsto> v)\<rparr>"

definition abort_with_error :: "int \<Rightarrow> string \<Rightarrow> gin_context \<Rightarrow> gin_context" where
  "abort_with_error code e c = c\<lparr>gc_aborted := Some code, gc_errors := gc_errors c @ [e]\<rparr>"

definition HeaderRequestID :: string where "HeaderRequestID = ''X-RequestID''"
definition HeaderAuthorization :: string where "HeaderAuthorization = ''X-Authorization''"
definition HeaderUserID :: string where "HeaderUserID = ''X-UserID''"
definition ContextLOGID :: string where "ContextLOGID = ''log_id''"
definition ContextTraceID :: string where "ContextTraceID = ''trace_id''"
definition ContextUserID :: string where "ContextUserID = ''user_id''"
definition ContextToken :: string where "ContextToken = ''token''"
definition ContextClientAddr :: string where "ContextClientAddr = ''client_ip''"

lemmas context_keys = ContextLOGID_def ContextTraceID_def ContextUserID_def ContextToken_def ContextClientAddr_def

section \<open>Authentication\<close>

definition AuthCheck :: "jwt_library \<Rightarrow> string \<Rightarrow> int \<Rightarrow> handler" where
  "AuthCheck lib secretKey now next ctx =
     (let tokenStr = gc_header ctx HeaderAuthorization
      in if tokenStr = [] then abort_with_error 401 ''missing authorization token'' ctx
         else case ParseJWTToken lib secretKey now tokenStr of
                Inl err \<Rightarrow> abort_with_error 401 err ctx
              | Inr None \<Rightarrow> next ctx
              | Inr (Some userInfo) \<Rightarrow>
                  next (fold (\<lambda>(key, val) c. set_key key val c) (u_ExtraInfo userInfo)
                         (set_key ContextUserID (u_ID userInfo) ctx)))"

section \<open>Values of the context\<close>

record set_options =
  so_headerMap :: "(string \<times> string) list"
  so_customFieldMap :: "(string \<times> (gin_context \<Rightarrow> string)) list"

definition WithHeaderField :: "(string \<times> string) list \<Rightarrow> set_options \<Rightarrow> set_options" where
  "WithHeaderField headerMap opts = opts\<lparr>so_headerMap := headerMap\<rparr>"

definition WithCustomField :: "(string \<times> (gin_context \<Rightarrow> string)) list \<Rightarrow> set_options \<Rightarrow> set_options" where
  "WithCustomField m opts = opts\<lparr>so_customFieldMap := m\<rparr>"

definition dashless :: "string \<Rightarrow> string" where
  "dashless uuid = replace_char (CHR ''-'') [] uuid"

text \<open>The two identifiers that are drawn and the client's address are arguments.\<close>

definition SetContext ::
  "string \<Rightarrow> string \<Rightarrow> string \<Rightarrow> (set_options \<Rightarrow> set_options) list \<Rightarrow> handler" where
  "SetContext uuid1 uuid2 clientIP opts next ctx =
     (let options = fold (\<lambda>opt o'. opt o') opts \<lparr>so_headerMap = [], so_customFieldMap = []\<rparr>;
          ctx = fold (\<lambda>(headerKey, contextKey) c.
                   if headerKey = [] \<or> contextKey = [] then c else set_key contextKey (gc_header c headerKey) c)
                 (so_headerMap options) ctx;
          ctx = fold (\<lambda>(contextKey, f) c. set_key contextKey (f c) c) (so_customFieldMap options) ctx;
          traceID = gc_header ctx HeaderRequestID;
          traceID = (if traceID = [] then dashless uuid1 else traceID);
          logID = dashless uuid2;
          userID = gc_header ctx HeaderUserID;
          authorization = gc_header ctx HeaderAuthorization
      in next (set_key ContextClientAddr clientIP (set_key ContextLOGID logID (set_key ContextTraceID traceID
                (set_key ContextUserID userID (set_key ContextToken authorization ctx))))))"

section \<open>Bodies for the log\<close>

definition requestBodyMaxLen :: nat where
  "requestBodyMaxLen = 204800"

definition logBytes :: "string \<Rightarrow> nat \<Rightarrow> string" where
  "logBytes src maxLen =
     (let srcLen = length src;
          len = (if maxLen > 0 \<and> srcLen > maxLen then maxLen else srcLen);
          out = take len src
      in if len < srcLen then out @ '' ......'' else out)"

text \<open>
  The body of a request is a reader: what it delivers and the error it ends with, if any. The middleware reads it to its
  end, does not look at the error, and puts a reader over what it got in its place.
\<close>

definition RequestMiddleware :: "handler" where
  "RequestMiddleware next c =
     (let traceID = (case gc_keys c ContextTraceID of None \<Rightarrow> [] | Some t \<Rightarrow> t);
          c = (if traceID \<noteq> [] then c\<lparr>gc_response_header := (gc_response_header c)(HeaderRequestID \<mapsto> traceID)\<rparr> else c);
          requestBodyBytes = fst (gc_body c)
      in next (c\<lparr>gc_body := (requestBodyBytes, None)\<rparr>))"

text \<open>The writer that keeps a copy: what the handler writes goes to the copy as a whole and to the client.\<close>

definition BodyLog_Write :: "(string \<Rightarrow> int \<times> string option) \<Rightarrow> string \<Rightarrow> string \<Rightarrow> string \<times> (int \<times> string option)" where
  "BodyLog_Write write body b = (body @ b, write b)"

section \<open>Recovery\<close>

text \<open>What a panic carries: a network error over a system call's, with its text, another error, or another value.\<close>

datatype panic_value = SyscallPanic string string | ErrorPanic string | OtherPanic string

definition brokenPipe :: "panic_value \<Rightarrow> bool" where
  "brokenPipe err =
     (case err of
        SyscallPanic se _ \<Rightarrow> contains (to_lower se) ''broken pipe'' \<or> contains (to_lower se) ''connection reset by peer''
      | _ \<Rightarrow> False)"

fun panic_text :: "panic_value \<Rightarrow> string" where
  "panic_text (SyscallPanic se t) = t" | "panic_text (ErrorPanic t) = t" | "panic_text (OtherPanic t) = t"

text \<open>Headers that are removed from what is logged.\<close>

definition secret_headers :: "string list" where
  "secret_headers = [''Authorization'', HeaderAuthorization, ''Cookie'']"

definition del_header :: "string \<Rightarrow> (string \<times> string list) list \<Rightarrow> (string \<times> string list) list" where
  "del_header k hs = filter (\<lambda>(k', vs). k' \<noteq> k) hs"

text \<open>
  The handler's outcome is a context and, if it panicked, the value. \<open>dump\<close> prints a request's headers; the result is
  the context and the texts that were logged.
\<close>

definition RecoveryLog ::
  "((string \<times> string list) list \<Rightarrow> string) \<Rightarrow> bool \<Rightarrow> string \<Rightarrow> string \<Rightarrow> (string \<times> string list) list \<Rightarrow>
   gin_context \<times> panic_value option \<Rightarrow> gin_context \<times> string list" where
  "RecoveryLog dump stack stack_text path headers outcome =
     (case outcome of
        (c, None) \<Rightarrow> (c, [])
      | (c, Some err) \<Rightarrow>
          let httpRequest = dump (fold del_header secret_headers headers) in
          if brokenPipe err
          then (c\<lparr>gc_errors := gc_errors c @ [panic_text err], gc_aborted := Some (-1)\<rparr>, [panic_text err, httpRequest, path])
          else if stack
          then (c\<lparr>gc_aborted := Some 500\<rparr>,
                [panic_text err, httpRequest, ''[Recovery from panic] -- stack'', stack_text])
          else (c\<lparr>gc_aborted := Some 500\<rparr>,
                [panic_text err, ''[Recovery from panic] -- request'', httpRequest]))"

section \<open>Properties of tokens\<close>

lemma key_for_HMAC: "\<forall>alg. key_for secret (HMAC alg) = Inr secret"
  by (simp add: key_for_def)

lemma jwt_parsed:
  assumes "lawful_jwt lib" and "GenerateJWTToken lib secret now now' m d = Some t"
  shows "ParseJWTToken lib secret at t =
    (if Unix (now + d) \<noteq> 0 \<and> Unix at \<le> Unix (now + d)
     then if u_Audience m = [] then Inl ''invalid user in jwt'' else Inr (Some m)
     else Inl ''token is expired'')"
proof -
  let ?c = "\<lparr>uc_Standard = \<lparr>sc_Audience = u_Audience m, sc_ExpiresAt = Unix (now + d), sc_Id = u_ID m,
    sc_IssuedAt = Unix now', sc_Issuer = AppIss\<rparr>, uc_User = Some m\<rparr>"
  have "jl_sign lib secret ?c = Inr t"
    using assms(2) by (simp add: GenerateJWTToken_def Let_def split: sum.splits)
  with assms(1) key_for_HMAC [of secret] have open_t: "t \<noteq> []" "jl_open lib (key_for secret) t = Inr ?c"
    unfolding lawful_jwt_def by blast+
  have "claims_Valid lib (Unix at) ?c =
      (if Unix (now + d) \<noteq> 0 \<and> Unix at \<le> Unix (now + d)
       then if u_Audience m = [] then Some ''invalid user in jwt'' else None else Some ''token is expired'')"
    using assms(1) by (simp add: claims_Valid_def lawful_jwt_def AppIss_def)
  then show ?thesis by (simp add: ParseJWTToken_def open_t)
qed

text \<open>
  A token gives back the user it was generated for until the second of its expiry has passed, if the user has an
  audience; a token for a user without one is generated and never accepted.
\<close>

theorem jwt_roundtrip:
  assumes "lawful_jwt lib" and "GenerateJWTToken lib secret now now' m d = Some t"
  shows "ParseJWTToken lib secret at t =
    (if Unix (now + d) \<noteq> 0 \<and> Unix at \<le> Unix (now + d)
     then if u_Audience m = [] then Inl ''invalid user in jwt'' else Inr (Some m)
     else Inl ''token is expired'')"
  by (rule jwt_parsed [OF assms])

text \<open>A library for the examples: a token is an \<open>s\<close>, and one secret is in use.\<close>

definition demo_user :: user where
  "demo_user = \<lparr>u_ID = ''7'', u_Name = ''ann'', u_Audience = ''web'', u_ExtraInfo = [(''role'', ''admin'')]\<rparr>"

definition demo_claims :: user_claims where
  "demo_claims = \<lparr>uc_Standard = \<lparr>sc_Audience = ''web'', sc_ExpiresAt = 20, sc_Id = ''7'', sc_IssuedAt = 10, sc_Issuer = AppIss\<rparr>,
     uc_User = Some demo_user\<rparr>"

definition demo_jwt :: jwt_library where
  "demo_jwt = \<lparr>jl_sign = (\<lambda>secret c. if secret = ''k'' \<and> c = demo_claims then Inr ''s'' else Inl ''no''),
     jl_open = (\<lambda>key t. if t = ''s'' \<and> key (HMAC ''HS256'') = Inr ''k'' then Inr demo_claims else Inl ''bad token''),
     jl_VerifyExpiresAt = (\<lambda>s now req. if sc_ExpiresAt s = 0 then \<not> req else now \<le> sc_ExpiresAt s),
     jl_VerifyIssuer = (\<lambda>s iss req. if sc_Issuer s = [] then \<not> req else sc_Issuer s = iss)\<rparr>"

lemma demo_jwt_lawful: "lawful_jwt demo_jwt"
  by (auto simp: lawful_jwt_def demo_jwt_def split: if_splits)

lemma demo_generated: "GenerateJWTToken demo_jwt ''k'' 10000000000 10000000000 demo_user 10000000000 = Some ''s''"
  by (simp add: GenerateJWTToken_def demo_jwt_def demo_claims_def Unix_def demo_user_def)

theorem jwt_roundtrip_witness: "ParseJWTToken demo_jwt ''k'' 15000000000 ''s'' = Inr (Some demo_user)"
  using jwt_roundtrip [OF demo_jwt_lawful demo_generated, of 15000000000] by (simp add: Unix_def demo_user_def)

section \<open>Properties of the middleware\<close>

definition with_user :: "user \<Rightarrow> gin_context \<Rightarrow> gin_context" where
  "with_user u ctx = fold (\<lambda>(key, val) c. set_key key val c) (u_ExtraInfo u) (set_key ContextUserID (u_ID u) ctx)"


lemma set_key_fields [simp]:
  "gc_header (set_key k v c) = gc_header c" "gc_keys (set_key k v c) = (gc_keys c)(k \<mapsto> v)"
  by (simp_all add: set_key_def)

lemma fold_set_keys: "gc_header (fold (\<lambda>(key, val) c. set_key key val c) kvs c) = gc_header c"
  by (induction kvs arbitrary: c) (auto split: prod.split)

lemma fold_set_keys_other:
  "k \<notin> fst ` set kvs \<Longrightarrow> gc_keys (fold (\<lambda>(key, val) c. set_key key val c) kvs c) k = gc_keys c k"
  by (induction kvs arbitrary: c) (auto split: prod.split)

lemma with_user_header [simp]: "gc_header (with_user u c) = gc_header c"
  by (simp add: with_user_def fold_set_keys)

lemma with_user_ID: "ContextUserID \<notin> fst ` set (u_ExtraInfo u) \<Longrightarrow> gc_keys (with_user u c) ContextUserID = Some (u_ID u)"
  by (simp add: with_user_def fold_set_keys_other)

lemma SetContext_next:
  "\<exists>c'. SetContext uuid1 uuid2 clientIP opts next c = next c' \<and> gc_header c' = gc_header c \<and>
     gc_keys c' ContextUserID = Some (gc_header c HeaderUserID)"
proof -
  have h1: "gc_header (fold (\<lambda>(headerKey, contextKey) c. if headerKey = [] \<or> contextKey = [] then c else set_key contextKey (gc_header c headerKey) c) hm c) = gc_header c"
    for hm c by (induction hm arbitrary: c) (auto split: prod.split)
  have h2: "gc_header (fold (\<lambda>(contextKey, f) c. set_key contextKey (f c) c) fm c) = gc_header c"
    for fm :: "(string \<times> (gin_context \<Rightarrow> string)) list" and c by (induction fm arbitrary: c) (auto split: prod.split)
  show ?thesis unfolding SetContext_def Let_def
    by (intro exI conjI, rule refl) (simp_all add: h1 h2 context_keys)
qed

text \<open>
  C40. The order of the two matters. Behind \<open>SetContext\<close> and then the check, a handler sees the user of the token; with the
  check first it sees whatever the client wrote into the header \<open>X-UserID\<close>.
\<close>

theorem user_in_context:
  assumes "lawful_jwt lib" and "GenerateJWTToken lib secret now now' m d = Some t"
    and "gc_header c HeaderAuthorization = t" and "u_Audience m \<noteq> []"
    and "Unix (now + d) \<noteq> 0" and "Unix at \<le> Unix (now + d)" and "ContextUserID \<notin> fst ` set (u_ExtraInfo m)"
  shows "(\<exists>c1. handler_chain [SetContext uuid1 uuid2 ip opts, AuthCheck lib secret at] final c = final c1 \<and>
            gc_keys c1 ContextUserID = Some (u_ID m)) \<and>
         (\<exists>c2. handler_chain [AuthCheck lib secret at, SetContext uuid1 uuid2 ip opts] final c = final c2 \<and>
            gc_keys c2 ContextUserID = Some (gc_header c HeaderUserID))"
proof -
  have t: "t \<noteq> []"
    using assms(1,2) key_for_HMAC [of secret]
    by (auto simp: GenerateJWTToken_def lawful_jwt_def Let_def split: sum.splits)
  have "ParseJWTToken lib secret at t = Inr (Some m)"
    using jwt_parsed [OF assms(1,2)] assms(4-6) by simp
  then have auth: "AuthCheck lib secret at nxt c' = nxt (with_user m c')" if "gc_header c' = gc_header c" for nxt c'
    using t assms(3) that by (simp add: AuthCheck_def with_user_def)
  obtain c' where c': "SetContext uuid1 uuid2 ip opts (AuthCheck lib secret at final) c = AuthCheck lib secret at final c'"
    "gc_header c' = gc_header c"
    using SetContext_next by blast
  obtain c2 where c2: "SetContext uuid1 uuid2 ip opts final (with_user m c) = final c2"
    "gc_keys c2 ContextUserID = Some (gc_header (with_user m c) HeaderUserID)"
    using SetContext_next by blast
  have "handler_chain [SetContext uuid1 uuid2 ip opts, AuthCheck lib secret at] final c = final (with_user m c')"
    using c' auth by (simp add: handler_chain_def)
  moreover have "handler_chain [AuthCheck lib secret at, SetContext uuid1 uuid2 ip opts] final c = final c2"
    using c2(1) auth [of c] by (simp add: handler_chain_def)
  ultimately show ?thesis using c2(2) with_user_ID [OF assms(7)] by auto
qed

definition demo_context :: gin_context where
  "demo_context = \<lparr>gc_header = (\<lambda>h. if h = HeaderAuthorization then ''s'' else if h = HeaderUserID then ''1'' else []),
     gc_keys = Map.empty, gc_body = ([], None), gc_response_header = Map.empty, gc_aborted = None, gc_errors = [], gc_handled = []\<rparr>"

theorem user_in_context_witness:
  "gc_keys (handler_chain [AuthCheck demo_jwt ''k'' 15000000000, SetContext ''a-1'' ''b-2'' ''ip'' []] (\<lambda>c. c) demo_context) ContextUserID = Some ''1'' \<and>
   gc_keys (handler_chain [SetContext ''a-1'' ''b-2'' ''ip'' [], AuthCheck demo_jwt ''k'' 15000000000] (\<lambda>c. c) demo_context) ContextUserID = Some ''7''"
proof -
  have "gc_header demo_context HeaderAuthorization = ''s''" "gc_header demo_context HeaderUserID = ''1''"
    "u_Audience demo_user \<noteq> []" "Unix (10000000000 + 10000000000) \<noteq> 0"
    "Unix 15000000000 \<le> Unix (10000000000 + 10000000000)" "ContextUserID \<notin> fst ` set (u_ExtraInfo demo_user)" "u_ID demo_user = ''7''"
    by (simp_all add: demo_context_def demo_user_def Unix_def ContextUserID_def HeaderAuthorization_def HeaderUserID_def)
  note facts = this
  show ?thesis
    using user_in_context [OF demo_jwt_lawful demo_generated facts(1,3-6), where final = "\<lambda>c. c"] facts(2,7) by metis
qed

text \<open>The extra values of a token may have the key of the user's identifier, and then take its place.\<close>

lemma extra_replaces_user:
  "u_ExtraInfo u = [(ContextUserID, x)] \<Longrightarrow> gc_keys (with_user u c) ContextUserID = Some x"
  by (simp add: with_user_def)

text \<open>What recovery logs does not depend on the secret headers.\<close>

lemma del_headers: "fold del_header ks hs = filter (\<lambda>(k, vs). k \<notin> set ks) hs"
proof (induction ks arbitrary: hs)
  case (Cons k ks)
  have "fold del_header (k # ks) hs = filter (\<lambda>(k', vs). k' \<notin> set ks) (filter (\<lambda>(k', vs). k' \<noteq> k) hs)"
    by (simp add: Cons del_header_def)
  also have "\<dots> = filter (\<lambda>(k', vs). k' \<notin> set (k # ks)) hs"
    unfolding filter_filter by (rule filter_cong) auto
  finally show ?case .
qed (simp add: filter_True)

theorem log_hides_secrets:
  assumes "filter (\<lambda>(k, vs). k \<notin> {''Authorization'', ''X-Authorization'', ''Cookie''}) hs =
    filter (\<lambda>(k, vs). k \<notin> {''Authorization'', ''X-Authorization'', ''Cookie''}) hs'"
  shows "RecoveryLog dump stack st path hs outcome = RecoveryLog dump stack st path hs' outcome"
proof -
  have "set secret_headers = {''Authorization'', ''X-Authorization'', ''Cookie''}"
    by (simp add: secret_headers_def HeaderAuthorization_def)
  then have eq: "fold del_header secret_headers hs = fold del_header secret_headers hs'"
    using assms by (simp only: del_headers)
  show ?thesis unfolding RecoveryLog_def eq by (rule refl)
qed

theorem log_hides_secrets_witness:
  "RecoveryLog (\<lambda>hs. concat (map fst hs)) False [] ''/p'' [(''Cookie'', [''x'']), (''Accept'', [''a''])] (demo_context, Some (ErrorPanic ''e'')) =
   RecoveryLog (\<lambda>hs. concat (map fst hs)) False [] ''/p'' [(''Accept'', [''a''])] (demo_context, Some (ErrorPanic ''e''))"
  by (rule log_hides_secrets) simp

text \<open>What is logged of a body is at most its limit and a mark, and a shorter one is logged as it is.\<close>

lemma logBytes_bounded:
  "maxLen > 0 \<Longrightarrow> length (logBytes src maxLen) \<le> maxLen + 7" "length src \<le> maxLen \<Longrightarrow> logBytes src maxLen = src"
  by (simp_all add: logBytes_def Let_def)

text \<open>
  A body whose reading fails reaches the handler cut short and without the error, as if it had ended there.
\<close>

lemma read_error_lost:
  "RequestMiddleware next (c\<lparr>gc_body := (b, Some e)\<rparr>) = RequestMiddleware next (c\<lparr>gc_body := (b, None)\<rparr>)"
  by (simp add: RequestMiddleware_def Let_def split: option.split)

end
