(* ===== verification/Ginx.thy ===== *)
theory Ginx
  imports Errors "HOL-Library.Word"
begin

text \<open>
  \<open>ginx/response.go\<close>: the JSON answers of a service and the download of files. The writer of a response is a record;
  the encoder of JSON, the clock, the table of media types and what the file system answers are arguments. Errors of
  files and readers are foreign, known by their texts.
\<close>

section \<open>The writer\<close>

text \<open>
  A status is written once, by the first body or answer; a later one is ignored. An answer as JSON names its media type
  only if none was named.
\<close>

record resp =
  rs_header :: "string \<rightharpoonup> string"
  rs_status :: "int option"
  rs_body :: string

definition put_header :: "string \<Rightarrow> string \<Rightarrow> resp \<Rightarrow> resp" where
  "put_header k v r = r\<lparr>rs_header := (rs_header r)(k \<mapsto> v)\<rparr>"

definition write_status :: "int \<Rightarrow> resp \<Rightarrow> resp" where
  "write_status code r = (if rs_status r = None then r\<lparr>rs_status := Some code\<rparr> else r)"

definition write_bytes :: "string \<Rightarrow> resp \<Rightarrow> resp" where
  "write_bytes b r = (let r = write_status 200 r in r\<lparr>rs_body := rs_body r @ b\<rparr>)"

section \<open>Answers\<close>

text \<open>What reflection tells of a value: no value, a nil pointer, a slice or array, a nil slice, anything else.\<close>

datatype 'x go_value = NilInterface | NilPointer | NilSlice | ListValue "'x list" | OneValue 'x

definition handleData :: "'x go_value \<Rightarrow> 'x go_value" where
  "handleData d =
     (case d of
        NilInterface \<Rightarrow> ListValue []
      | NilPointer \<Rightarrow> ListValue []
      | NilSlice \<Rightarrow> NilSlice
      | ListValue xs \<Rightarrow> ListValue xs
      | OneValue x \<Rightarrow> ListValue [x])"

record 'x response =
  rp_Code :: int
  rp_Message :: string
  rp_ErrTrace :: string
  rp_Version :: string
  rp_CurrentTime :: string
  rp_Data :: "'x go_value"

text \<open>The first error of the chain that has a code; a foreign one has no chain.\<close>

definition errors_As :: "go_error \<Rightarrow> go_error option" where
  "errors_As e = (case e of Error c m i \<Rightarrow> Some (Error c m i) | Foreign t \<Rightarrow> None)"

definition prepareResponse :: "string \<Rightarrow> string \<Rightarrow> 'x go_value \<Rightarrow> go_error option \<Rightarrow> int \<times> 'x response" where
  "prepareResponse now version data err =
     (let data = handleData data;
          (code, errCode, errMessage, errTrace) =
            (case err of
               None \<Rightarrow> (200, 0, [], [])
             | Some e \<Rightarrow>
                 (case errors_As e of
                    Some ex \<Rightarrow> (200, Code ex, Message ex, error_string ex)
                  | None \<Rightarrow> (500, 0, error_string e, error_string e)))
      in (code, \<lparr>rp_Code = errCode, rp_Message = errMessage, rp_ErrTrace = errTrace, rp_Version = version,
                 rp_CurrentTime = now, rp_Data = data\<rparr>))"

record pagination =
  pg_Page :: "64 word"
  pg_PageSize :: "64 word"
  pg_PageCount :: "64 word"
  pg_Total :: "64 word"

definition ginx_GetOffset :: "pagination \<Rightarrow> 64 word" where
  "ginx_GetOffset p = (pg_Page p - 1) * pg_PageSize p"

record 'x response_with_pagination =
  rwp_Response :: "'x response"
  rwp_Pagination :: "pagination option"

definition prepareResponseWithPagination ::
  "string \<Rightarrow> string \<Rightarrow> 'x go_value \<Rightarrow> go_error option \<Rightarrow> pagination option \<Rightarrow> int \<times> 'x response_with_pagination" where
  "prepareResponseWithPagination now version data err p =
     (let (code, r) = prepareResponse now version data err
      in (code, \<lparr>rwp_Response = r, rwp_Pagination = p\<rparr>))"

definition send_json :: "('r \<Rightarrow> string) \<Rightarrow> int \<times> 'r \<Rightarrow> resp \<Rightarrow> resp" where
  "send_json json a r =
     (let r = write_status (fst a) r;
          r = (if rs_header r ''Content-Type'' = None then put_header ''Content-Type'' ''application/json; charset=utf-8'' r else r)
      in write_bytes (json (snd a)) r)"

definition ResponseOK :: "('x response \<Rightarrow> string) \<Rightarrow> string \<Rightarrow> string \<Rightarrow> 'x go_value \<Rightarrow> resp \<Rightarrow> resp" where
  "ResponseOK json now version data = send_json json (prepareResponse now version data None)"

definition ResponseErr :: "('x response \<Rightarrow> string) \<Rightarrow> string \<Rightarrow> string \<Rightarrow> go_error option \<Rightarrow> resp \<Rightarrow> resp" where
  "ResponseErr json now version err = send_json json (prepareResponse now version NilInterface err)"

definition JsonResult :: "('x response \<Rightarrow> string) \<Rightarrow> string \<Rightarrow> string \<Rightarrow> 'x go_value \<Rightarrow> go_error option \<Rightarrow> resp \<Rightarrow> resp" where
  "JsonResult json now version data err = send_json json (prepareResponse now version data err)"

text \<open>The encoder that leaves HTML alone is another one, with the same way to write.\<close>

definition PureJsonResult :: "('x response \<Rightarrow> string) \<Rightarrow> string \<Rightarrow> string \<Rightarrow> 'x go_value \<Rightarrow> go_error option \<Rightarrow> resp \<Rightarrow> resp" where
  "PureJsonResult pure now version data err = send_json pure (prepareResponse now version data err)"

definition PaginationResult ::
  "('x response_with_pagination \<Rightarrow> string) \<Rightarrow> string \<Rightarrow> string \<Rightarrow> 'x go_value \<Rightarrow> go_error option \<Rightarrow> pagination option \<Rightarrow> resp \<Rightarrow> resp" where
  "PaginationResult json now version data err p = send_json json (prepareResponseWithPagination now version data err p)"

section \<open>Downloads\<close>

text \<open>
  A reader is what copying from it delivers to the client and the error it ends with. Content is given with the
  error of writing it.
\<close>

record download_config =
  dc_Filename :: string
  dc_Preview :: bool
  dc_ContentType :: string
  dc_Content :: "string option"
  dc_Reader :: "(string \<times> string option) option"
  dc_Filepath :: string
  dc_Disposition :: string
  dc_BufferSize :: int
  dc_DeleteAfter :: bool

definition path_base :: "string \<Rightarrow> string" where
  "path_base p =
     (if p = [] then ''.''
      else let t = dropWhile (\<lambda>c. c = CHR ''/'') (rev p)
           in if t = [] then ''/'' else rev (takeWhile (\<lambda>c. c \<noteq> CHR ''/'') t))"

definition path_ext :: "string \<Rightarrow> string" where
  "path_ext p =
     (let b = takeWhile (\<lambda>c. c \<noteq> CHR ''/'') (rev p)
      in if CHR ''.'' \<in> set b then CHR ''.'' # rev (takeWhile (\<lambda>c. c \<noteq> CHR ''.'') b) else [])"

definition getDownloadFilename :: "string \<Rightarrow> string" where
  "getDownloadFilename filename =
     (if filename = [] then ''download'' else replace_char (CHR 0x22) [] (quoted filename))"

definition download_defaults :: "download_config \<Rightarrow> download_config" where
  "download_defaults c =
     (let c = (if dc_ContentType c = [] then c\<lparr>dc_ContentType := ''application/octet-stream''\<rparr> else c);
          c = (if dc_Disposition c = [] then c\<lparr>dc_Disposition := ''attachment''\<rparr> else c);
          c = (if dc_BufferSize c \<le> 0 then c\<lparr>dc_BufferSize := 4096\<rparr> else c);
          c = (if dc_Preview c then c\<lparr>dc_Disposition := ''inline''\<rparr> else c)
      in if dc_Filename c = [] \<and> dc_Filepath c \<noteq> [] then c\<lparr>dc_Filename := path_base (dc_Filepath c)\<rparr> else c)"

text \<open>What the file system answers for the path, and whether the file is gone in the end.\<close>

record file_answers =
  fa_missing :: bool
  fa_open :: "string option"
  fa_info :: "string + nat"
  fa_copy :: "string \<times> string option"
  fa_remove :: "string option"

definition copy_bytes :: "string \<Rightarrow> resp \<Rightarrow> resp" where
  "copy_bytes b r = (if b = [] then r else write_bytes b r)"

definition download_err :: "('x response \<Rightarrow> string) \<Rightarrow> string \<Rightarrow> string \<Rightarrow> string \<Rightarrow> resp \<Rightarrow> resp" where
  "download_err json now version t = ResponseErr json now version (Some (Foreign t))"

definition handleFileDownloadFromPath ::
  "('x response \<Rightarrow> string) \<Rightarrow> string \<Rightarrow> string \<Rightarrow> file_answers \<Rightarrow> download_config \<Rightarrow> resp \<Rightarrow> resp \<times> bool" where
  "handleFileDownloadFromPath json now version fs config r =
     (if fa_missing fs then (download_err json now version (''file not found: '' @ dc_Filepath config) r, False)
      else case fa_open fs of
        Some e \<Rightarrow> (download_err json now version (''open file error: '' @ e) r, False)
      | None \<Rightarrow>
          (case fa_info fs of
             Inl e \<Rightarrow> (download_err json now version (''get file info error: '' @ e) r, False)
           | Inr n \<Rightarrow>
               let r = put_header ''Content-Length'' (itoa (int n)) r;
                   r = copy_bytes (fst (fa_copy fs)) r
               in case snd (fa_copy fs) of
                    Some e \<Rightarrow> (download_err json now version (''copy file error: '' @ e) r, False)
                  | None \<Rightarrow> (r, dc_DeleteAfter config \<and> fa_remove fs = None)))"

definition handleFileDownloadFromReader ::
  "('x response \<Rightarrow> string) \<Rightarrow> string \<Rightarrow> string \<Rightarrow> string \<times> string option \<Rightarrow> resp \<Rightarrow> resp" where
  "handleFileDownloadFromReader json now version reader r =
     (let r = copy_bytes (fst reader) r
      in case snd reader of
           Some e \<Rightarrow> download_err json now version (''download file error: '' @ e) r
         | None \<Rightarrow> r)"

definition handleFileDownloadFromContent ::
  "('x response \<Rightarrow> string) \<Rightarrow> string \<Rightarrow> string \<Rightarrow> string option \<Rightarrow> string \<Rightarrow> resp \<Rightarrow> resp" where
  "handleFileDownloadFromContent json now version werr content r =
     (let r = put_header ''Content-Length'' (itoa (int (length content))) r;
          r = write_bytes content r
      in case werr of
           Some e \<Rightarrow> download_err json now version (''download file error: '' @ e) r
         | None \<Rightarrow> r)"

definition download_headers :: "download_config \<Rightarrow> resp \<Rightarrow> resp" where
  "download_headers config r =
     (let filename = getDownloadFilename (dc_Filename config)
      in put_header ''Cache-Control'' ''no-cache'' (put_header ''Content-Transfer-Encoding'' ''binary''
           (put_header ''Content-Disposition'' (dc_Disposition config @ ''; filename='' @ filename)
             (put_header ''Content-Type'' (dc_ContentType config) r))))"

definition handleFileDownload ::
  "('x response \<Rightarrow> string) \<Rightarrow> string \<Rightarrow> string \<Rightarrow> file_answers \<Rightarrow> string option \<Rightarrow> download_config option \<Rightarrow> resp \<Rightarrow> resp \<times> bool" where
  "handleFileDownload json now version fs werr config r =
     (case config of
        None \<Rightarrow> (download_err json now version ''file download config is nil'' r, False)
      | Some c \<Rightarrow>
          let c = download_defaults c;
              r = download_headers c r
          in if dc_Filepath c \<noteq> [] then handleFileDownloadFromPath json now version fs c r
             else case dc_Reader c of
                    Some reader \<Rightarrow> (handleFileDownloadFromReader json now version reader r, False)
                  | None \<Rightarrow>
                      (case dc_Content c of
                         Some b \<Rightarrow> (handleFileDownloadFromContent json now version werr b r, False)
                       | None \<Rightarrow> (download_err json now version ''no file content provided'' r, False)))"

definition FileResultWithError ::
  "('x response \<Rightarrow> string) \<Rightarrow> string \<Rightarrow> string \<Rightarrow> file_answers \<Rightarrow> string option \<Rightarrow> download_config option \<Rightarrow> go_error option \<Rightarrow> resp \<Rightarrow> resp \<times> bool" where
  "FileResultWithError json now version fs werr config err r =
     (case err of
        Some e \<Rightarrow> (ResponseErr json now version (Some e) r, False)
      | None \<Rightarrow> handleFileDownload json now version fs werr config r)"

text \<open>The table of the system comes first.\<close>

definition content_types :: "(string \<times> string) list" where
  "content_types =
     [(''.pdf'', ''application/pdf''), (''.jpg'', ''image/jpeg''), (''.jpeg'', ''image/jpeg''), (''.png'', ''image/png''),
      (''.gif'', ''image/gif''), (''.txt'', ''text/plain''), (''.html'', ''text/html''), (''.htm'', ''text/html''),
      (''.json'', ''application/json''), (''.xml'', ''application/xml''), (''.csv'', ''text/csv''),
      (''.xlsx'', ''application/vnd.openxmlformats-officedocument.spreadsheetml.sheet''),
      (''.xls'', ''application/vnd.ms-excel''),
      (''.docx'', ''application/vnd.openxmlformats-officedocument.wordprocessingml.document''),
      (''.doc'', ''application/msword''), (''.zip'', ''application/zip''), (''.rar'', ''application/x-rar-compressed'')]"

definition getContentType :: "(string \<Rightarrow> string) \<Rightarrow> string \<Rightarrow> string" where
  "getContentType by_ext fileName =
     (if fileName = [] then ''application/octet-stream''
      else let t = by_ext (path_ext fileName)
           in if t \<noteq> [] then t
              else case map_of content_types (to_lower (path_ext fileName)) of
                     Some t \<Rightarrow> t
                   | None \<Rightarrow> ''application/octet-stream'')"

definition SimpleFileDownload ::
  "(string \<Rightarrow> string) \<Rightarrow> ('x response \<Rightarrow> string) \<Rightarrow> string \<Rightarrow> string \<Rightarrow> file_answers \<Rightarrow> string option \<Rightarrow> string \<Rightarrow> string \<Rightarrow> resp \<Rightarrow> resp \<times> bool" where
  "SimpleFileDownload by_ext json now version fs werr filePath fileName r =
     handleFileDownload json now version fs werr
       (Some \<lparr>dc_Filename = fileName, dc_Preview = False, dc_ContentType = getContentType by_ext filePath, dc_Content = None,
              dc_Reader = None, dc_Filepath = filePath, dc_Disposition = [], dc_BufferSize = 0, dc_DeleteAfter = False\<rparr>) r"

section \<open>Properties of answers\<close>

lemma handleData_idem: "handleData (handleData d) = handleData d"
  by (cases d) (simp_all add: handleData_def)

text \<open>
  An answer has the status 500 exactly for an error without a code; one with a code is told in the body of an answer of
  status 200. What the client reads of it is the code and the message of the outermost error and the whole chain.
\<close>

theorem answer_codes:
  "fst (prepareResponse now version d err) = (case err of Some (Foreign t) \<Rightarrow> 500 | _ \<Rightarrow> 200) \<and>
   rp_Code (snd (prepareResponse now version d err)) = (case err of None \<Rightarrow> 0 | Some e \<Rightarrow> Code e) \<and>
   rp_ErrTrace (snd (prepareResponse now version d err)) = (case err of None \<Rightarrow> [] | Some e \<Rightarrow> error_string e) \<and>
   rp_Data (snd (prepareResponse now version d err)) \<notin> {NilInterface, NilPointer} \<union> range OneValue"
  by (cases err; cases "the err"; cases d)
     (auto simp: prepareResponse_def errors_As_def handleData_def Let_def split: option.splits)

text \<open>A nil slice is the one empty answer that is not an empty list.\<close>

lemma nil_slice_stays: "rp_Data (snd (prepareResponse now version NilSlice None)) = NilSlice"
  by (simp add: prepareResponse_def handleData_def)

section \<open>The name of a download\<close>

text \<open>A byte that may be part of a header's value without ending it or the name.\<close>

definition header_byte :: "char \<Rightarrow> bool" where
  "header_byte c \<longleftrightarrow> 32 \<le> byte c \<and> byte c \<noteq> 127"

lemma header_byte_hex: "d < 16 \<Longrightarrow> header_byte (hex_char d)"
  by (auto simp: header_byte_def hex_char_def digit_char_def)

lemma header_byte_ascii [simp]: "header_byte (CHR 0x5C)" "header_byte (CHR 0x22)" "header_byte (CHR ''x'')"
  by (simp_all add: header_byte_def)

lemma valid_rune_bound: "valid_rune r \<Longrightarrow> r < 1114112"
  by (auto simp: valid_rune_def)

lemma encode_rune_header: "32 \<le> r \<Longrightarrow> r \<noteq> 127 \<Longrightarrow> list_all header_byte (encode_rune r)"
  unfolding encode_rune_def
  by (auto simp: header_byte_def rune_error_def dest: valid_rune_bound)

lemma quote_rune_header: "list_all header_byte (quote_rune r)"
proof (cases "32 \<le> r \<and> r \<noteq> 127")
  case True
  then show ?thesis by (auto simp: quote_rune_def encode_rune_header)
next
  case False
  then have r: "r < 32 \<or> r = 127" by auto
  have "header_byte (''abtnvfr'' ! (r - 7))" if "7 \<le> r" "r \<le> 13"
  proof -
    have "list_all header_byte ''abtnvfr''" by (simp add: header_byte_def)
    then have "\<And>i. i < length ''abtnvfr'' \<Longrightarrow> header_byte (''abtnvfr'' ! i)" unfolding list_all_length by blast
    moreover have "r - 7 < length ''abtnvfr''" using that by simp
    ultimately show ?thesis by blast
  qed
  moreover have "r div 16 < 16" "r mod 16 < 16" using r by auto
  ultimately show ?thesis
    using r by (auto simp: quote_rune_def header_byte_hex)
qed

lemma quote_runes_header: "list_all header_byte (quote_runes s)"
proof (induction s rule: measure_induct_rule [of length])
  case (less s)
  show ?case
  proof (cases s)
    case (Cons b bs)
    obtain r w where rw: "decode_rune (b # bs) = (r, w)" by (cases "decode_rune (b # bs)")
    have "byte b div 16 < 16" "byte b mod 16 < 16" using nat_of_char_less_256 [of b] by linarith+
    moreover have "list_all header_byte (quote_runes (drop (w - 1) bs))"
      by (rule less.IH) (simp add: Cons)
    ultimately show ?thesis
      by (simp add: Cons rw Let_def header_byte_hex quote_rune_header del: decode_rune.simps)
  qed simp
qed

text \<open>
  Whatever a file is called, what is put into the header has no byte that could end the line or the value: no control
  character and no quote.
\<close>

theorem filename_in_header:
  "list_all (\<lambda>c. header_byte c \<and> c \<noteq> CHR 0x22) (getDownloadFilename filename)"
proof -
  have "list_all (\<lambda>c. header_byte c \<and> c \<noteq> CHR 0x22) (replace_char (CHR 0x22) [] s)" if "list_all header_byte s" for s
    using that by (induction s) (simp_all add: replace_char_def)
  moreover have "list_all header_byte (quoted filename)"
    by (simp add: quoted_def quote_runes_header)
  ultimately show ?thesis
    by (auto simp: getDownloadFilename_def) (simp_all add: header_byte_def)
qed

text \<open>
  The name is not quoted in the header either: a blank or a semicolon in it ends the name for a reader of the header.
\<close>

definition plain_byte :: "char \<Rightarrow> bool" where
  "plain_byte c \<longleftrightarrow> 32 \<le> byte c \<and> byte c < 127 \<and> byte c \<noteq> 34 \<and> byte c \<noteq> 92"

lemma quote_runes_plain: "list_all plain_byte s \<Longrightarrow> quote_runes s = s"
  by (induction s) (simp_all add: plain_byte_def Let_def quote_rune_def rune_error_def)

lemma filename_not_quoted:
  assumes "list_all plain_byte name" and "name \<noteq> []"
  shows "getDownloadFilename name = name"
proof -
  have "replace_char (CHR 0x22) [] s = s" if "list_all plain_byte s" for s
    using that by (induction s) (auto simp: replace_char_def plain_byte_def)
  with assms show ?thesis
    by (simp add: getDownloadFilename_def quoted_def quote_runes_plain replace_char_def)
qed

section \<open>Downloads\<close>

lemma send_json_body: "\<exists>t. rs_body (send_json json a r) = rs_body r @ t"
  by (simp add: send_json_def write_bytes_def write_status_def put_header_def Let_def)

lemma download_err_spec:
  "rs_body (download_err json now version t r) = rs_body r @ json (snd (prepareResponse now version NilInterface (Some (Foreign t))))"
  "rs_status (download_err json now version t r) = (case rs_status r of None \<Rightarrow> Some 500 | Some s \<Rightarrow> Some s)"
  by (auto simp: download_err_def ResponseErr_def send_json_def write_bytes_def write_status_def put_header_def Let_def
      prepareResponse_def errors_As_def split: option.split)

text \<open>
  A file is removed only after all of it was handed to the client without an error, and only if that was asked for.
  A download from a path writes what was copied and, after a failure, an answer as JSON behind it, whose status does not
  count any more once bytes of the file were written.
\<close>

theorem download_from_path:
  assumes "handleFileDownload json now version fs werr (Some c) r = (r', removed)" and "dc_Filepath c \<noteq> []"
    and "rs_status r = None" and "rs_body r = []"
  shows "(removed \<longrightarrow> dc_DeleteAfter c \<and> rs_body r' = fst (fa_copy fs) \<and> snd (fa_copy fs) = None \<and>
            (\<exists>n. fa_info fs = Inr n \<and> rs_header r' ''Content-Length'' = Some (itoa (int n)))) \<and>
    (fa_missing fs \<or> fa_open fs \<noteq> None \<or> (\<exists>e. fa_info fs = Inl e) \<longrightarrow> \<not> removed \<and> rs_status r' = Some 500) \<and>
    (\<not> fa_missing fs \<and> fa_open fs = None \<and> fa_info fs = Inr n \<and> snd (fa_copy fs) = Some e \<longrightarrow>
       \<not> removed \<and> rs_status r' = Some (if fst (fa_copy fs) = [] then 500 else 200) \<and>
       rs_body r' = fst (fa_copy fs) @ json (snd (prepareResponse now version NilInterface (Some (Foreign (''copy file error: '' @ e))))))"
proof -
  define r0 where "r0 = download_headers (download_defaults c) r"
  have defaults: "dc_Filepath (download_defaults c) = dc_Filepath c" "dc_DeleteAfter (download_defaults c) = dc_DeleteAfter c"
    by (simp_all add: download_defaults_def Let_def)
  have r0: "rs_status r0 = None" "rs_body r0 = []"
    using assms(3,4) by (simp_all add: r0_def download_headers_def put_header_def Let_def)
  have "handleFileDownloadFromPath json now version fs (download_defaults c) r0 = (r', removed)"
    using assms(1,2) by (simp add: handleFileDownload_def defaults r0_def Let_def)
  then show ?thesis
    using r0 defaults(2)
    by (auto simp: handleFileDownloadFromPath_def download_err_spec copy_bytes_def write_bytes_def write_status_def
        put_header_def Let_def split: if_splits option.splits sum.splits)
qed

definition demo_files :: file_answers where
  "demo_files = \<lparr>fa_missing = False, fa_open = None, fa_info = Inr 5, fa_copy = (''ab'', Some ''cut''), fa_remove = None\<rparr>"

definition demo_download :: download_config where
  "demo_download = \<lparr>dc_Filename = [], dc_Preview = False, dc_ContentType = [], dc_Content = None, dc_Reader = None,
     dc_Filepath = ''/tmp/f.txt'', dc_Disposition = [], dc_BufferSize = 0, dc_DeleteAfter = True\<rparr>"

definition empty_resp :: resp where
  "empty_resp = \<lparr>rs_header = Map.empty, rs_status = None, rs_body = []\<rparr>"

theorem download_from_path_witness:
  "rs_status (fst (handleFileDownload (\<lambda>(a :: nat response). ''{}'') ''t'' ''v'' demo_files None (Some demo_download) empty_resp)) = Some 200 \<and>
   rs_body (fst (handleFileDownload (\<lambda>(a :: nat response). ''{}'') ''t'' ''v'' demo_files None (Some demo_download) empty_resp)) = ''ab{}''"
proof -
  obtain r' removed where e: "handleFileDownload (\<lambda>(a :: nat response). ''{}'') ''t'' ''v'' demo_files None (Some demo_download) empty_resp = (r', removed)"
    by fastforce
  have "dc_Filepath demo_download \<noteq> []" "rs_status empty_resp = None" "rs_body empty_resp = []"
    by (simp_all add: demo_download_def empty_resp_def)
  from conjunct2 [OF conjunct2 [OF download_from_path [OF e this, of 5 "''cut''"]]] show ?thesis
    unfolding e by (simp add: demo_files_def)
qed

text \<open>
  An error is answered behind the headers of the download, so the client stores the answer as the file.
\<close>

lemma download_err_header:
  "k \<noteq> ''Content-Type'' \<Longrightarrow> rs_header (download_err json now version t r) k = rs_header r k"
  by (simp add: download_err_def ResponseErr_def send_json_def write_bytes_def write_status_def put_header_def Let_def)

lemma download_headers_disposition:
  "rs_header (download_headers c r) ''Content-Disposition'' = Some (dc_Disposition c @ ''; filename='' @ getDownloadFilename (dc_Filename c))"
  by (simp add: download_headers_def put_header_def Let_def)

lemma error_as_attachment:
  assumes "dc_Disposition c = []" "\<not> dc_Preview c" "dc_Filepath c \<noteq> []" "fa_missing fs" "list_all plain_byte (dc_Filename c)" "dc_Filename c \<noteq> []"
  shows "rs_header (fst (handleFileDownload json now version fs werr (Some c) r)) ''Content-Disposition'' =
    Some (''attachment; filename='' @ dc_Filename c)"
proof -
  have d: "dc_Disposition (download_defaults c) = ''attachment''" "dc_Filename (download_defaults c) = dc_Filename c"
    "dc_Filepath (download_defaults c) \<noteq> []"
    using assms by (simp_all add: download_defaults_def Let_def)
  have k: "''Content-Disposition'' \<noteq> ''Content-Type''" by simp
  have "fst (handleFileDownload json now version fs werr (Some c) r) =
      download_err json now version (''file not found: '' @ dc_Filepath (download_defaults c)) (download_headers (download_defaults c) r)"
    using d(3) assms(4) by (simp add: handleFileDownload_def handleFileDownloadFromPath_def Let_def)
  then show ?thesis
    by (simp only: download_err_header [OF k] download_headers_disposition d(1,2) filename_not_quoted [OF assms(5,6)] append.simps)
qed

end
