(* ===== verification/Rabbit_Manage.thy ===== *)
theory Rabbit_Manage
  imports Rabbit_Conn
begin

text \<open>
  \<open>rabbitmqx/management.go\<close> and \<open>option.go\<close>: what is asked of the management API of a broker and what is made of its
  answers, and the options of the pool of channels. The HTTP client, the reading and writing of JSON and the printing of
  values are arguments. An operation returns its result with the requests it sent, so that properties can speak of them.
\<close>

section \<open>Requests\<close>

record mgmt_request =
  mr_Method :: string
  mr_URL :: string
  mr_Body :: "string option"
  mr_ContentType :: "string option"
  mr_Username :: string
  mr_Password :: string

datatype mgmt_error =
    MarshalFailed string
  | RequestFailed string
  | ApiFailed string string
  | ReadFailed string
  | ApiReturned string int string
  | ParseFailed string string

text \<open>
  The client: whether a request can be made of a method and a URL, and what a request is answered: an error, or a status
  with the body or the error of reading it.
\<close>

record mgmt_client =
  mc_new :: "string \<Rightarrow> string \<Rightarrow> string option"
  mc_do :: "mgmt_request \<Rightarrow> string + int \<times> (string + string)"

definition managementRequest ::
  "mgmt_client \<Rightarrow> MQConfig \<Rightarrow> string \<Rightarrow> string \<Rightarrow> string option \<Rightarrow> (mgmt_error + string) \<times> mgmt_request list" where
  "managementRequest client c meth path body =
     (let url = managementURL c path
      in case mc_new client meth url of
           Some e \<Rightarrow> (Inl (RequestFailed e), [])
         | None \<Rightarrow>
             let req = \<lparr>mr_Method = meth, mr_URL = url, mr_Body = body,
                        mr_ContentType = (if body \<noteq> None then Some ''application/json'' else None),
                        mr_Username = mq_Username c, mr_Password = mq_Password c\<rparr>
             in (case mc_do client req of
                   Inl e \<Rightarrow> Inl (ApiFailed url e)
                 | Inr (status, Inl e) \<Rightarrow> Inl (ReadFailed e)
                 | Inr (status, Inr b) \<Rightarrow> if status \<ge> 400 then Inl (ApiReturned url status b) else Inr b,
                 [req]))"

definition managementGet :: "mgmt_client \<Rightarrow> MQConfig \<Rightarrow> string \<Rightarrow> (mgmt_error + string) \<times> mgmt_request list" where
  "managementGet client c path = managementRequest client c ''GET'' path None"

definition managementPost ::
  "mgmt_client \<Rightarrow> MQConfig \<Rightarrow> ('p \<Rightarrow> string + string) \<Rightarrow> string \<Rightarrow> 'p \<Rightarrow> (mgmt_error + string) \<times> mgmt_request list" where
  "managementPost client c marshal path payload =
     (case marshal payload of
        Inl e \<Rightarrow> (Inl (MarshalFailed e), [])
      | Inr body \<Rightarrow> managementRequest client c ''POST'' path (Some body))"

section \<open>Queues and exchanges\<close>

definition ListQueues ::
  "mgmt_client \<Rightarrow> MQConfig \<Rightarrow> (string \<Rightarrow> string + string list) \<Rightarrow> (mgmt_error + string list) \<times> mgmt_request list" where
  "ListQueues client c parse =
     (case managementGet client c ''queues'' of
        (Inl e, rs) \<Rightarrow> (Inl e, rs)
      | (Inr body, rs) \<Rightarrow>
          (case parse body of Inl e \<Rightarrow> Inl (ParseFailed ''queues'' e) | Inr names \<Rightarrow> Inr names, rs))"

definition ListExchanges ::
  "mgmt_client \<Rightarrow> MQConfig \<Rightarrow> (string \<Rightarrow> string + string list) \<Rightarrow> (mgmt_error + string list) \<times> mgmt_request list" where
  "ListExchanges client c parse =
     (case managementGet client c ''exchanges'' of
        (Inl e, rs) \<Rightarrow> (Inl e, rs)
      | (Inr body, rs) \<Rightarrow>
          (case parse body of
             Inl e \<Rightarrow> Inl (ParseFailed ''exchanges'' e)
           | Inr names \<Rightarrow> Inr (filter (\<lambda>n. \<not> (n = [] \<or> has_prefix n ''amq.'')) names), rs))"

text \<open>What the JSON of a queue, of its bindings and of its messages is read into; a value that is no string is absent.\<close>

record raw_consumer =
  rwc_Tag :: string
  rwc_Channel :: string

record queue_stats =
  qs_Messages :: "64 word"
  qs_MessagesReady :: "64 word"
  qs_MessagesUnacknowledged :: "64 word"
  qs_ConsumerDetails :: "raw_consumer list"

record 'a raw_binding =
  rb_Source :: string
  rb_RoutingKey :: string
  rb_Arguments :: "(string \<times> 'a) list"
  rb_SourceType :: "string option"

record 'a queue_binding =
  qb_Exchange :: string
  qb_ExchangeType :: string
  qb_RoutingKey :: string
  qb_Arguments :: "(string \<times> 'a) list"

record 'a queue_info =
  qi_Messages :: "64 word"
  qi_MessagesReady :: "64 word"
  qi_MessagesUnacknowledged :: "64 word"
  qi_Bindings :: "'a queue_binding list"
  qi_Consumers :: "raw_consumer list"

definition binding_of :: "'a raw_binding \<Rightarrow> 'a queue_binding" where
  "binding_of rb = \<lparr>qb_Exchange = rb_Source rb, qb_ExchangeType = (case rb_SourceType rb of Some t \<Rightarrow> t | None \<Rightarrow> []),
     qb_RoutingKey = rb_RoutingKey rb, qb_Arguments = rb_Arguments rb\<rparr>"

definition GetQueueInfo ::
  "mgmt_client \<Rightarrow> MQConfig \<Rightarrow> (string \<Rightarrow> string + queue_stats) \<Rightarrow> (string \<Rightarrow> string + 'a raw_binding list) \<Rightarrow> string \<Rightarrow>
   (mgmt_error + 'a queue_info) \<times> mgmt_request list" where
  "GetQueueInfo client c parse_stats parse_bindings queue =
     (case managementGet client c (queuePath c queue []) of
        (Inl e, rs) \<Rightarrow> (Inl e, rs)
      | (Inr body, rs) \<Rightarrow>
          (case parse_stats body of
             Inl e \<Rightarrow> (Inl (ParseFailed ''queue stats'' e), rs)
           | Inr stats \<Rightarrow>
               let (second, rs') = managementGet client c (queuePath c queue ''bindings'');
                   bindings = (case second of
                       Inl e \<Rightarrow> Inr []
                     | Inr body \<Rightarrow>
                         (case parse_bindings body of
                            Inl e \<Rightarrow> Inl (ParseFailed ''queue bindings'' e)
                          | Inr raw \<Rightarrow> Inr (map binding_of raw)))
               in (case bindings of
                     Inl e \<Rightarrow> Inl e
                   | Inr bs \<Rightarrow>
                       Inr \<lparr>qi_Messages = qs_Messages stats, qi_MessagesReady = qs_MessagesReady stats,
                            qi_MessagesUnacknowledged = qs_MessagesUnacknowledged stats, qi_Bindings = bs,
                            qi_Consumers = qs_ConsumerDetails stats\<rparr>,
                   rs @ rs')))"

section \<open>Looking at messages\<close>

record preview_payload =
  pp_count :: int
  pp_ackmode :: string
  pp_encoding :: string
  pp_requeue :: bool

record 'a raw_message =
  rm_Payload :: string
  rm_PayloadRaw :: string
  rm_RoutingKey :: string
  rm_message_id :: "string option"
  rm_headers :: "(string \<times> 'a) list option"

record queue_message =
  qm_Payload :: string
  qm_PayloadRaw :: string
  qm_MessageID :: string
  qm_RoutingKey :: string
  qm_Headers :: "string \<rightharpoonup> string"

definition message_of :: "('a \<Rightarrow> string) \<Rightarrow> 'a raw_message \<Rightarrow> queue_message" where
  "message_of print item =
     \<lparr>qm_Payload = rm_Payload item, qm_PayloadRaw = rm_PayloadRaw item,
      qm_MessageID = (case rm_message_id item of Some i \<Rightarrow> i | None \<Rightarrow> []), qm_RoutingKey = rm_RoutingKey item,
      qm_Headers = (case rm_headers item of None \<Rightarrow> Map.empty | Some hs \<Rightarrow> fold (\<lambda>(k, v) m. m(k \<mapsto> print v)) hs Map.empty)\<rparr>"

definition preview_request :: "int \<Rightarrow> preview_payload" where
  "preview_request limit =
     \<lparr>pp_count = (if limit \<le> 0 then 10 else limit), pp_ackmode = ''ack_requeue_true'', pp_encoding = ''auto'', pp_requeue = True\<rparr>"

definition PreviewQueueMessages ::
  "mgmt_client \<Rightarrow> MQConfig \<Rightarrow> (preview_payload \<Rightarrow> string + string) \<Rightarrow> (string \<Rightarrow> string + 'a raw_message list) \<Rightarrow> ('a \<Rightarrow> string) \<Rightarrow>
   string \<Rightarrow> int \<Rightarrow> (mgmt_error + queue_message list) \<times> mgmt_request list" where
  "PreviewQueueMessages client c marshal parse print queue limit =
     (case managementPost client c marshal (queuePath c queue ''get'') (preview_request limit) of
        (Inl e, rs) \<Rightarrow> (Inl e, rs)
      | (Inr body, rs) \<Rightarrow>
          (case parse body of
             Inl e \<Rightarrow> Inl (ParseFailed ''preview messages'' e)
           | Inr items \<Rightarrow> Inr (map (message_of print) items), rs))"

section \<open>Options of the pool\<close>

record pool_config =
  po_LIFO :: bool
  po_MaxTotal :: int
  po_MaxIdle :: int
  po_MinIdle :: int
  po_TestOnCreate :: bool
  po_TestOnBorrow :: bool
  po_TestOnReturn :: bool
  po_TestWhileIdle :: bool
  po_BlockWhenExhausted :: bool
  po_MinEvictableIdleTime :: int
  po_SoftMinEvictableIdleTime :: int
  po_NumTestsPerEvictionRun :: int
  po_EvictionPolicyName :: string
  po_TimeBetweenEvictionRuns :: int

type_synonym conn_option = "pool_config \<Rightarrow> pool_config"

text \<open>What the package sets on top of the pool library's own defaults, which are an argument.\<close>

definition defaultOptionConfig :: "pool_config \<Rightarrow> pool_config" where
  "defaultOptionConfig library = library\<lparr>po_MinIdle := 20, po_MaxIdle := 20, po_MaxTotal := 500,
     po_MinEvictableIdleTime := 30 * 60 * 1000000000, po_TestOnReturn := True, po_TestOnBorrow := True\<rparr>"

definition WithMaxTotal :: "int \<Rightarrow> conn_option" where "WithMaxTotal n c = c\<lparr>po_MaxTotal := n\<rparr>"
definition WithLIFO :: "bool \<Rightarrow> conn_option" where "WithLIFO b c = c\<lparr>po_LIFO := b\<rparr>"
definition WithMaxIdle :: "int \<Rightarrow> conn_option" where "WithMaxIdle n c = c\<lparr>po_MaxIdle := n\<rparr>"
definition WithMinIdle :: "int \<Rightarrow> conn_option" where "WithMinIdle n c = c\<lparr>po_MinIdle := n\<rparr>"
definition WithTestOnCreate :: "bool \<Rightarrow> conn_option" where "WithTestOnCreate b c = c\<lparr>po_TestOnCreate := b\<rparr>"
definition WithTestOnBorrow :: "bool \<Rightarrow> conn_option" where "WithTestOnBorrow b c = c\<lparr>po_TestOnBorrow := b\<rparr>"
definition WithTestOnReturn :: "bool \<Rightarrow> conn_option" where "WithTestOnReturn b c = c\<lparr>po_TestOnReturn := b\<rparr>"
definition WithTestWhileIdle :: "bool \<Rightarrow> conn_option" where "WithTestWhileIdle b c = c\<lparr>po_TestWhileIdle := b\<rparr>"
definition WithBlockWhenExhausted :: "bool \<Rightarrow> conn_option" where "WithBlockWhenExhausted b c = c\<lparr>po_BlockWhenExhausted := b\<rparr>"
definition WithMinEvictableIdleTime :: "int \<Rightarrow> conn_option" where "WithMinEvictableIdleTime d c = c\<lparr>po_MinEvictableIdleTime := d\<rparr>"
definition WithSoftMinEvictableIdleTime :: "int \<Rightarrow> conn_option" where "WithSoftMinEvictableIdleTime d c = c\<lparr>po_SoftMinEvictableIdleTime := d\<rparr>"
definition WithNumTestsPerEvictionRun :: "int \<Rightarrow> conn_option" where "WithNumTestsPerEvictionRun n c = c\<lparr>po_NumTestsPerEvictionRun := n\<rparr>"
definition WithEvictionPolicyName :: "string \<Rightarrow> conn_option" where "WithEvictionPolicyName n c = c\<lparr>po_EvictionPolicyName := n\<rparr>"
definition WithTimeBetweenEvictionRuns :: "int \<Rightarrow> conn_option" where "WithTimeBetweenEvictionRuns d c = c\<lparr>po_TimeBetweenEvictionRuns := d\<rparr>"

definition pool_options :: "pool_config \<Rightarrow> conn_option list \<Rightarrow> pool_config" where
  "pool_options library opts = fold (\<lambda>opt c. opt c) opts (defaultOptionConfig library)"

section \<open>Properties\<close>

text \<open>
  The path of a request for a queue has the virtual host and the queue as one segment each, whatever bytes they have, so
  no name reaches another resource; the server reads both back.
\<close>

theorem management_path:
  assumes "CHR ''/'' \<notin> set suffix"
  shows "split_char (CHR ''/'') (queuePath c queue suffix) =
      [''queues'', PathEscape (virtualHost c), PathEscape queue] @ (if suffix = [] then [] else [suffix]) \<and>
    url_unescape PathSegment (PathEscape (virtualHost c)) = Some (virtualHost c) \<and>
    url_unescape PathSegment (PathEscape queue) = Some queue"
proof -
  have e: "CHR ''/'' \<notin> set (PathEscape s)" for s
    using url_escape_safe [of "CHR ''/''" PathSegment s] by (auto simp: PathEscape_def should_escape.simps is_alnum_def)
  have s: "split_char (CHR ''/'') (a @ CHR ''/'' # b) = a # split_char (CHR ''/'') b" if "CHR ''/'' \<notin> set a" for a b
    using that by (simp add: split_char_append)
  have "queuePath c queue suffix = ''queues'' @ CHR ''/'' # PathEscape (virtualHost c) @ CHR ''/'' # PathEscape queue @
      (if suffix = [] then [] else CHR ''/'' # suffix)"
    by (simp add: queuePath_def Let_def)
  then have "split_char (CHR ''/'') (queuePath c queue suffix) =
      [''queues'', PathEscape (virtualHost c), PathEscape queue] @ (if suffix = [] then [] else [suffix])"
    using assms e by (simp only: s) (simp add: s split_char_no_sep)
  then show ?thesis by (simp add: PathEscape_def url_unescape_escape)
qed

theorem management_path_witness:
  "split_char (CHR ''/'') (queuePath c ''a/b'' ''get'') = [''queues'', PathEscape (virtualHost c), PathEscape ''a/b'', ''get'']"
  using management_path [of "''get''" c "''a/b''"] by simp

lemma request_sent:
  "r \<in> set (snd (managementRequest client c meth path body)) \<Longrightarrow>
   mr_Method r = meth \<and> mr_URL r = managementURL c path \<and> mr_Body r = body \<and>
   mr_Username r = mq_Username c \<and> mr_Password r = mq_Password c"
  by (auto simp: managementRequest_def Let_def split: option.splits)

lemma request_answered:
  "fst (managementRequest client c meth path body) = Inr b \<Longrightarrow>
   \<exists>req status. snd (managementRequest client c meth path body) = [req] \<and> mc_do client req = Inr (status, Inr b) \<and> status < 400"
  by (auto simp: managementRequest_def Let_def split: option.splits sum.splits if_splits)

text \<open>
  Looking at the messages of a queue takes none away: the one request asks for at least one message and to put them
  back, and what is returned is what a status below 400 came with.
\<close>

theorem preview_requeues:
  "(\<forall>r \<in> set (snd (PreviewQueueMessages client c marshal parse print queue limit)).
      \<exists>body. marshal (preview_request limit) = Inr body \<and> mr_Body r = Some body \<and> mr_Method r = ''POST'' \<and>
        mr_URL r = managementURL c (queuePath c queue ''get'')) \<and>
   length (snd (PreviewQueueMessages client c marshal parse print queue limit)) \<le> 1 \<and>
   pp_requeue (preview_request limit) \<and> pp_ackmode (preview_request limit) = ''ack_requeue_true'' \<and>
   pp_count (preview_request limit) > 0 \<and>
   (fst (PreviewQueueMessages client c marshal parse print queue limit) = Inr ms \<longrightarrow>
      (\<exists>req status b items. snd (PreviewQueueMessages client c marshal parse print queue limit) = [req] \<and>
         mc_do client req = Inr (status, Inr b) \<and> status < 400 \<and> parse b = Inr items \<and> ms = map (message_of print) items))"
  (is "?sent \<and> ?one \<and> ?requeue \<and> ?ack \<and> ?count \<and> (?ok \<longrightarrow> ?result)")
proof (cases "marshal (preview_request limit)")
  case (Inl e)
  then show ?thesis by (simp add: PreviewQueueMessages_def managementPost_def preview_request_def)
next
  case (Inr body)
  let ?r = "managementRequest client c ''POST'' (queuePath c queue ''get'') (Some body)"
  have snd_eq: "snd (PreviewQueueMessages client c marshal parse print queue limit) = snd ?r"
    by (simp add: PreviewQueueMessages_def managementPost_def Inr split: prod.split sum.split)
  have ?sent unfolding snd_eq using request_sent [of _ client c "''POST''" "queuePath c queue ''get''" "Some body"] Inr by blast
  moreover have ?one unfolding snd_eq by (simp add: managementRequest_def Let_def split: option.split)
  moreover have ?requeue ?ack ?count by (simp_all add: preview_request_def)
  moreover have "?ok \<longrightarrow> ?result"
  proof
    assume ?ok
    then obtain b items where b: "fst ?r = Inr b" "parse b = Inr items" "ms = map (message_of print) items"
      by (auto simp: PreviewQueueMessages_def managementPost_def Inr split: prod.splits sum.splits)
    from request_answered [OF b(1)] b(2,3) show ?result unfolding snd_eq by blast
  qed
  ultimately show ?thesis by blast
qed

text \<open>An exchange of the broker's own is never listed; a queue's bindings that cannot be had are reported as none.\<close>

lemma no_own_exchanges: "fst (ListExchanges client c parse) = Inr names \<Longrightarrow> n \<in> set names \<Longrightarrow> n \<noteq> [] \<and> \<not> has_prefix n ''amq.''"
  by (auto simp: ListExchanges_def split: prod.splits sum.splits)

lemma bindings_failure_hidden:
  assumes "fst (managementGet client c (queuePath c queue [])) = Inr b" "parse_stats b = Inr stats"
    and "fst (managementGet client c (queuePath c queue ''bindings'')) = Inl e"
  shows "\<exists>info. fst (GetQueueInfo client c parse_stats parse_bindings queue) = Inr info \<and> qi_Bindings info = []"
proof -
  obtain rs rs' where g: "managementGet client c (queuePath c queue []) = (Inr b, rs)"
    "managementGet client c (queuePath c queue ''bindings'') = (Inl e, rs')"
    using assms(1,3) by (metis prod.collapse)
  show ?thesis unfolding GetQueueInfo_def g by (simp add: assms(2))
qed

text \<open>Options count in their order, over the defaults of the package; of two for one setting the last one counts.\<close>

lemma pool_defaults: "po_MaxTotal (pool_options lib []) = 500" "po_TestOnBorrow (pool_options lib [])"
  by (simp_all add: pool_options_def defaultOptionConfig_def)

lemma last_option: "pool_options lib (opts @ [WithMaxTotal a, WithMaxTotal b]) = pool_options lib (opts @ [WithMaxTotal b])"
  by (simp add: pool_options_def WithMaxTotal_def)

end
