(* ===== verification/Goredis_Commands.thy ===== *)
theory Goredis_Commands
  imports Main
begin

text \<open>
  The commands of the operators of \<open>goredis\<close>, \<open>goredis/single\<close>, \<open>goredis/sentinel\<close> and \<open>goredis/cluster\<close> that hand one
  call to the client. Which call an operation makes is one function, what it makes of the client's answer another; the
  client is an argument, over a state of its own. A value is of type \<open>'v\<close>, a number with a fraction of type \<open>'f\<close>, a time
  in nanoseconds. The client answers with a value, which is a zero value after an error, and the error.
\<close>

section \<open>Calls\<close>

datatype ('v, 'f) op_call =
    OpSet string 'v | OpSetWithExpiration string 'v int | OpGet string | OpGetWithExpiration string int
  | OpGetSet string string | OpIncr string | OpIncrBy string int | OpIncrByFloat string 'f | OpDecr string
  | OpDecrBy string int | OpDel string | OpExpire string int
  | OpLPush string "'v list" | OpRPush string "'v list" | OpLPop string | OpRPop string | OpLIndex string int
  | OpLLen string | OpLRange string int int | OpLRem string int 'v | OpLInsert string int 'v
  | OpSAdd string "'v list" | OpSCard string | OpSIsMember string 'v | OpSMembers string | OpSRem string "'v list"
  | OpSPopN string int
  | OpZAdd string "('f \<times> 'v) list" | OpZCard string | OpZAddArgs string "('f \<times> 'v) list" | OpZRangeWithScores string int int
  | OpZRem string "'v list"
  | OpHSet string string string | OpHGet string string | OpHMGet string "string list" | OpHGetAll string | OpHKeys string
  | OpHLen string | OpHMSet string "(string \<times> 'v) list" | OpHSetNX string string 'v | OpHDel string "string list"
  | OpHExists string string

text \<open>A call of the client: its command, the key, and what else it is given, in order.\<close>

datatype ('v, 'f) cmd_arg =
    AValue 'v | AText string | AInt int | AFloat 'f | ADuration int | AMember 'f 'v | AField string 'v

record ('v, 'f) client_call =
  cc_Command :: string
  cc_Key :: string
  cc_Args :: "('v, 'f) cmd_arg list"

datatype ('v, 'f) reply =
    RNone | RText string | RInt int | RFloat 'f | RBool bool | RTexts "string list" | RValues "'v list"
  | RFields "(string \<times> string) list" | RMembers "('f \<times> 'v) list"

definition call :: "string \<Rightarrow> string \<Rightarrow> ('v, 'f) cmd_arg list \<Rightarrow> ('v, 'f) client_call" where
  "call c k as = \<lparr>cc_Command = c, cc_Key = k, cc_Args = as\<rparr>"

section \<open>What an operation calls\<close>

text \<open>Setting without an expiration passes 0, which stands for none.\<close>

fun string_command :: "('v, 'f) op_call \<Rightarrow> ('v, 'f) client_call option" where
  "string_command (OpSet key v) = Some (call ''Set'' key [AValue v, ADuration 0])"
| "string_command (OpSetWithExpiration key v ex) = Some (call ''Set'' key [AValue v, ADuration ex])"
| "string_command (OpGet key) = Some (call ''Get'' key [])"
| "string_command (OpGetWithExpiration key ex) = Some (call ''GetEx'' key [ADuration ex])"
| "string_command (OpGetSet key v) = Some (call ''GetSet'' key [AText v])"
| "string_command (OpIncr key) = Some (call ''Incr'' key [])"
| "string_command (OpIncrBy key inc) = Some (call ''IncrBy'' key [AInt inc])"
| "string_command (OpIncrByFloat key inc) = Some (call ''IncrByFloat'' key [AFloat inc])"
| "string_command (OpDecr key) = Some (call ''Decr'' key [])"
| "string_command (OpDecrBy key inc) = Some (call ''DecrBy'' key [AInt inc])"
| "string_command (OpDel key) = Some (call ''Del'' key [])"
| "string_command (OpExpire key ex) = Some (call ''Expire'' key [ADuration ex])"
| "string_command _ = None"

fun list_command :: "('v, 'f) op_call \<Rightarrow> ('v, 'f) client_call option" where
  "list_command (OpLPush key vs) = Some (call ''LPush'' key (map AValue vs))"
| "list_command (OpRPush key vs) = Some (call ''RPush'' key (map AValue vs))"
| "list_command (OpLPop key) = Some (call ''LPop'' key [])"
| "list_command (OpRPop key) = Some (call ''RPop'' key [])"
| "list_command (OpLIndex key i) = Some (call ''LIndex'' key [AInt i])"
| "list_command (OpLLen key) = Some (call ''LLen'' key [])"
| "list_command (OpLRange key i j) = Some (call ''LRange'' key [AInt i, AInt j])"
| "list_command (OpLRem key n v) = Some (call ''LRem'' key [AInt n, AValue v])"
| "list_command (OpLInsert key pivot v) = Some (call ''LInsert'' key [AText ''after'', AInt pivot, AValue v])"
| "list_command _ = None"

text \<open>Removing members hands the client one argument, the slice of them, which the client takes apart.\<close>

fun set_command :: "('v, 'f) op_call \<Rightarrow> ('v, 'f) client_call option" where
  "set_command (OpSAdd key vs) = Some (call ''SAdd'' key (map AValue vs))"
| "set_command (OpSCard key) = Some (call ''SCard'' key [])"
| "set_command (OpSIsMember key v) = Some (call ''SIsMember'' key [AValue v])"
| "set_command (OpSMembers key) = Some (call ''SMembers'' key [])"
| "set_command (OpSRem key vs) = Some (call ''SRem'' key (map AValue vs))"
| "set_command (OpSPopN key n) = Some (call ''SPopN'' key [AInt n])"
| "set_command _ = None"

fun zset_command :: "('v, 'f) op_call \<Rightarrow> ('v, 'f) client_call option" where
  "zset_command (OpZAdd key ms) = Some (call ''ZAdd'' key (map (\<lambda>(s, v). AMember s v) ms))"
| "zset_command (OpZCard key) = Some (call ''ZCard'' key [])"
| "zset_command (OpZAddArgs key ms) = Some (call ''ZAddArgs'' key (map (\<lambda>(s, v). AMember s v) ms))"
| "zset_command (OpZRangeWithScores key i j) = Some (call ''ZRangeWithScores'' key [AInt i, AInt j])"
| "zset_command (OpZRem key vs) = Some (call ''ZRem'' key (map AValue vs))"
| "zset_command _ = None"

fun hash_command :: "('v, 'f) op_call \<Rightarrow> ('v, 'f) client_call option" where
  "hash_command (OpHSet key f v) = Some (call ''HSet'' key [AText f, AText v])"
| "hash_command (OpHGet key f) = Some (call ''HGet'' key [AText f])"
| "hash_command (OpHMGet key fs) = Some (call ''HMGet'' key (map AText fs))"
| "hash_command (OpHGetAll key) = Some (call ''HGetAll'' key [])"
| "hash_command (OpHKeys key) = Some (call ''HKeys'' key [])"
| "hash_command (OpHLen key) = Some (call ''HLen'' key [])"
| "hash_command (OpHMSet key kvs) = Some (call ''HMSet'' key (map (\<lambda>(f, v). AField f v) kvs))"
| "hash_command (OpHSetNX key f v) = Some (call ''HSetNX'' key [AText f, AValue v])"
| "hash_command (OpHDel key fs) = Some (call ''HDel'' key (map AText fs))"
| "hash_command (OpHExists key f) = Some (call ''HExists'' key [AText f])"
| "hash_command _ = None"

definition command_of :: "('v, 'f) op_call \<Rightarrow> ('v, 'f) client_call" where
  "command_of op' =
     the (case string_command op' of Some c \<Rightarrow> Some c
      | None \<Rightarrow> case list_command op' of Some c \<Rightarrow> Some c
      | None \<Rightarrow> case set_command op' of Some c \<Rightarrow> Some c
      | None \<Rightarrow> case zset_command op' of Some c \<Rightarrow> Some c
      | None \<Rightarrow> hash_command op')"

section \<open>What an operation returns\<close>

text \<open>
  Setting succeeds if the answer is \<open>OK\<close>, deleting if one key was deleted, both without an error only; removals and
  insertions drop the answer. Other operations return it, also with an error.
\<close>

definition set_succeeded :: "('v, 'f) reply \<times> string option \<Rightarrow> bool" where
  "set_succeeded a = (snd a = None \<and> (case fst a of RText t \<Rightarrow> t = ''OK'' | _ \<Rightarrow> False))"

definition del_succeeded :: "('v, 'f) reply \<times> string option \<Rightarrow> bool" where
  "del_succeeded a = (snd a = None \<and> (case fst a of RInt n \<Rightarrow> n = 1 | _ \<Rightarrow> False))"

fun op_result :: "('v, 'f) op_call \<Rightarrow> ('v, 'f) reply \<times> string option \<Rightarrow> ('v, 'f) reply" where
  "op_result (OpSet _ _) a = RBool (set_succeeded a)"
| "op_result (OpSetWithExpiration _ _ _) a = RBool (set_succeeded a)"
| "op_result (OpDel _) a = RBool (del_succeeded a)"
| "op_result (OpLRem _ _ _) a = RNone"
| "op_result (OpLInsert _ _ _) a = RNone"
| "op_result (OpSAdd _ _) a = RNone"
| "op_result (OpSRem _ _) a = RNone"
| "op_result (OpZAdd _ _) a = RNone"
| "op_result (OpHSet _ _ _) a = RNone"
| "op_result (OpHDel _ _) a = RNone"
| "op_result _ a = fst a"

type_synonym ('v, 'f, 's) redis_client = "('v, 'f) client_call \<Rightarrow> 's \<Rightarrow> (('v, 'f) reply \<times> string option) \<times> 's"

definition run_command :: "('v, 'f, 's) redis_client \<Rightarrow> ('v, 'f) op_call \<Rightarrow> 's \<Rightarrow> (('v, 'f) reply \<times> string option) \<times> 's" where
  "run_command client op' s =
     (let (a, s') = client (command_of op') s in ((op_result op' a, snd a), s'))"

text \<open>
  The three other packages have the same wrappers: keys and lists first, then sets, sorted sets and hashes.
\<close>

definition single_run_command :: "('v, 'f, 's) redis_client \<Rightarrow> ('v, 'f) op_call \<Rightarrow> 's \<Rightarrow> (('v, 'f) reply \<times> string option) \<times> 's" where
  "single_run_command = run_command"

definition single_set_commands :: "('v, 'f) op_call \<Rightarrow> ('v, 'f) client_call option" where
  "single_set_commands op' =
     (case set_command op' of Some c \<Rightarrow> Some c
      | None \<Rightarrow> case zset_command op' of Some c \<Rightarrow> Some c
      | None \<Rightarrow> hash_command op')"

definition sentinel_run_command :: "('v, 'f, 's) redis_client \<Rightarrow> ('v, 'f) op_call \<Rightarrow> 's \<Rightarrow> (('v, 'f) reply \<times> string option) \<times> 's" where
  "sentinel_run_command = run_command"

definition sentinel_set_commands :: "('v, 'f) op_call \<Rightarrow> ('v, 'f) client_call option" where
  "sentinel_set_commands op' =
     (case set_command op' of Some c \<Rightarrow> Some c
      | None \<Rightarrow> case zset_command op' of Some c \<Rightarrow> Some c
      | None \<Rightarrow> hash_command op')"

definition cluster_run_command :: "('v, 'f, 's) redis_client \<Rightarrow> ('v, 'f) op_call \<Rightarrow> 's \<Rightarrow> (('v, 'f) reply \<times> string option) \<times> 's" where
  "cluster_run_command = run_command"

definition cluster_set_commands :: "('v, 'f) op_call \<Rightarrow> ('v, 'f) client_call option" where
  "cluster_set_commands op' =
     (case set_command op' of Some c \<Rightarrow> Some c
      | None \<Rightarrow> case zset_command op' of Some c \<Rightarrow> Some c
      | None \<Rightarrow> hash_command op')"

section \<open>Properties\<close>

fun op_key :: "('v, 'f) op_call \<Rightarrow> string" where
  "op_key (OpSet k _) = k" | "op_key (OpSetWithExpiration k _ _) = k" | "op_key (OpGet k) = k"
| "op_key (OpGetWithExpiration k _) = k" | "op_key (OpGetSet k _) = k" | "op_key (OpIncr k) = k"
| "op_key (OpIncrBy k _) = k" | "op_key (OpIncrByFloat k _) = k" | "op_key (OpDecr k) = k" | "op_key (OpDecrBy k _) = k"
| "op_key (OpDel k) = k" | "op_key (OpExpire k _) = k" | "op_key (OpLPush k _) = k" | "op_key (OpRPush k _) = k"
| "op_key (OpLPop k) = k" | "op_key (OpRPop k) = k" | "op_key (OpLIndex k _) = k" | "op_key (OpLLen k) = k"
| "op_key (OpLRange k _ _) = k" | "op_key (OpLRem k _ _) = k" | "op_key (OpLInsert k _ _) = k" | "op_key (OpSAdd k _) = k"
| "op_key (OpSCard k) = k" | "op_key (OpSIsMember k _) = k" | "op_key (OpSMembers k) = k" | "op_key (OpSRem k _) = k"
| "op_key (OpSPopN k _) = k" | "op_key (OpZAdd k _) = k" | "op_key (OpZCard k) = k" | "op_key (OpZAddArgs k _) = k"
| "op_key (OpZRangeWithScores k _ _) = k" | "op_key (OpZRem k _) = k" | "op_key (OpHSet k _ _) = k" | "op_key (OpHGet k _) = k"
| "op_key (OpHMGet k _) = k" | "op_key (OpHGetAll k) = k" | "op_key (OpHKeys k) = k" | "op_key (OpHLen k) = k"
| "op_key (OpHMSet k _) = k" | "op_key (OpHSetNX k _ _) = k" | "op_key (OpHDel k _) = k" | "op_key (OpHExists k _) = k"

lemma command_key: "cc_Key (command_of op') = op_key op'"
  by (cases op') (simp_all add: command_of_def call_def)

text \<open>
  A server whose keys are independent of each other: an answer depends on the key's own value, and a call changes no
  other key.
\<close>

definition keys_independent :: "('v, 'f, string \<Rightarrow> 'x) redis_client \<Rightarrow> bool" where
  "keys_independent client \<longleftrightarrow>
     (\<forall>c s k. k \<noteq> cc_Key c \<longrightarrow> snd (client c s) k = s k) \<and>
     (\<forall>c s s'. s (cc_Key c) = s' (cc_Key c) \<longrightarrow>
        fst (client c s) = fst (client c s') \<and> snd (client c s) (cc_Key c) = snd (client c s') (cc_Key c))"

text \<open>
  On such a server operations on different keys do not see each other: in either order they return the same and leave the
  same.
\<close>

lemma run_command_simps:
  "fst (run_command client op' s) = (op_result op' (fst (client (command_of op') s)), snd (fst (client (command_of op') s)))"
  "snd (run_command client op' s) = snd (client (command_of op') s)"
  by (simp_all add: run_command_def split: prod.split)

theorem commands_commute:
  assumes "keys_independent client" and "op_key a \<noteq> op_key b"
  shows "fst (run_command client b (snd (run_command client a s))) = fst (run_command client b s) \<and>
    fst (run_command client a (snd (run_command client b s))) = fst (run_command client a s) \<and>
    snd (run_command client b (snd (run_command client a s))) = snd (run_command client a (snd (run_command client b s)))"
proof -
  let ?A = "command_of a" and ?B = "command_of b"
  have ne: "cc_Key ?A \<noteq> cc_Key ?B" using assms(2) by (simp add: command_key)
  have keep: "snd (client c s) k = s k" if "k \<noteq> cc_Key c" for c s k
    using assms(1) that by (simp add: keys_independent_def)
  have own: "fst (client c s) = fst (client c s') \<and> snd (client c s) (cc_Key c) = snd (client c s') (cc_Key c)"
    if "s (cc_Key c) = s' (cc_Key c)" for c s s'
    using assms(1) that unfolding keys_independent_def by blast
  have B: "fst (client ?B (snd (client ?A s))) = fst (client ?B s)"
      "snd (client ?B (snd (client ?A s))) (cc_Key ?B) = snd (client ?B s) (cc_Key ?B)"
    using own [of "snd (client ?A s)" ?B s] keep [of "cc_Key ?B" ?A s] ne by auto
  have A: "fst (client ?A (snd (client ?B s))) = fst (client ?A s)"
      "snd (client ?A (snd (client ?B s))) (cc_Key ?A) = snd (client ?A s) (cc_Key ?A)"
    using own [of "snd (client ?B s)" ?A s] keep [of "cc_Key ?A" ?B s] ne by auto
  have "snd (client ?B (snd (client ?A s))) = snd (client ?A (snd (client ?B s)))"
  proof
    fix k
    show "snd (client ?B (snd (client ?A s))) k = snd (client ?A (snd (client ?B s))) k"
      using A(2) B(2) keep ne by (cases "k = cc_Key ?A"; cases "k = cc_Key ?B") auto
  qed
  then show ?thesis by (simp add: run_command_simps A(1) B(1))
qed

text \<open>A server for the example keeps the texts that were set.\<close>

definition demo_server :: "(string, unit, string \<Rightarrow> string option) redis_client" where
  "demo_server c s =
     (case cc_Args c of
        [AValue v, ADuration d] \<Rightarrow> ((RText ''OK'', None), s(cc_Key c \<mapsto> v))
      | _ \<Rightarrow> (case s (cc_Key c) of None \<Rightarrow> ((RText [], Some ''nil''), s) | Some t \<Rightarrow> ((RText t, None), s)))"

lemma demo_server_independent: "keys_independent demo_server"
  by (auto simp: keys_independent_def demo_server_def split: list.split cmd_arg.split option.split)

theorem commands_commute_witness:
  "fst (run_command demo_server (OpGet ''b'') (snd (run_command demo_server (OpSet ''a'' ''1'') Map.empty))) =
   fst (run_command demo_server (OpGet ''b'') Map.empty)"
  using commands_commute [OF demo_server_independent, of "OpSet ''a'' ''1''" "OpGet ''b''" Map.empty] by simp

end
