(* ===== verification/Logging.thy ===== *)
theory Logging
  imports Utils Obs_Path Middleware
begin

text \<open>
  The packages \<open>log\<close> and \<open>slogx\<close> and the logger of \<open>gormx\<close>: where a setting of a logger comes from, which output gets a
  record of which level, what becomes of the values a caller hands in, and what is logged of an SQL statement. Whether a
  file exists, what reading a configuration leaves, the text of a value and the formatting of messages are arguments;
  encoding and writing are the libraries'.
\<close>

section \<open>Settings\<close>

record log_config =
  lc_Type :: string
  lc_Name :: string
  lc_Format :: string
  lc_LogLevel :: string
  lc_WriteFile :: bool
  lc_BasePath :: string
  lc_MaxSize :: int
  lc_MaxAge :: int
  lc_MaxBackups :: int
  lc_Compress :: bool

record log_options =
  lg_writeFile :: bool
  lg_logFormat :: string
  lg_name :: string
  lg_configPath :: string
  lg_keyList :: "string list"
  lg_logLevel :: string
  lg_basePath :: string
  lg_fileName :: string
  lg_maxSize :: int
  lg_maxAge :: int
  lg_maxBackups :: int
  lg_compress :: bool
  lg_logType :: string

datatype log_option =
    LogWriteFile bool | LogName string | LogLevel string | LogBasePath string | LogFileName string
  | LogField string | LogFields "string list" | LogConfigPath string | LogType string

fun apply_log_option :: "log_option \<Rightarrow> log_options \<Rightarrow> log_options" where
  "apply_log_option (LogWriteFile b) opts = opts\<lparr>lg_writeFile := b\<rparr>"
| "apply_log_option (LogName n) opts = opts\<lparr>lg_name := n\<rparr>"
| "apply_log_option (LogLevel l) opts = opts\<lparr>lg_logLevel := l\<rparr>"
| "apply_log_option (LogBasePath p) opts = opts\<lparr>lg_basePath := p\<rparr>"
| "apply_log_option (LogFileName f) opts = opts\<lparr>lg_fileName := f\<rparr>"
| "apply_log_option (LogField k) opts = opts\<lparr>lg_keyList := lg_keyList opts @ [k]\<rparr>"
| "apply_log_option (LogFields ks) opts = opts\<lparr>lg_keyList := lg_keyList opts @ ks\<rparr>"
| "apply_log_option (LogConfigPath p) opts = opts\<lparr>lg_configPath := p\<rparr>"
| "apply_log_option (LogType t) opts = opts\<lparr>lg_logType := t\<rparr>"

text \<open>The package \<open>slogx\<close> has the same options but for the last.\<close>

definition slog_apply_option :: "log_option \<Rightarrow> log_options \<Rightarrow> log_options" where
  "slog_apply_option opt opts = apply_log_option opt opts"

definition no_log_options :: log_options where
  "no_log_options = \<lparr>lg_writeFile = False, lg_logFormat = [], lg_name = [], lg_configPath = [], lg_keyList = [],
     lg_logLevel = [], lg_basePath = [], lg_fileName = [], lg_maxSize = 0, lg_maxAge = 0, lg_maxBackups = 0,
     lg_compress = False, lg_logType = []\<rparr>"

definition default_log_keys :: "string list" where
  "default_log_keys = [ContextLOGID, ContextTraceID, ContextUserID, ContextClientAddr]"

definition zap_defaults :: log_options where
  "zap_defaults = \<lparr>lg_writeFile = False, lg_logFormat = ''console'', lg_name = [], lg_configPath = ''./conf/log/service.yaml'',
     lg_keyList = default_log_keys, lg_logLevel = ''info'', lg_basePath = ''./log'', lg_fileName = ''app.log'',
     lg_maxSize = 15, lg_maxAge = 7, lg_maxBackups = 30, lg_compress = False, lg_logType = ''zap''\<rparr>"

definition slog_defaults :: log_options where
  "slog_defaults = \<lparr>lg_writeFile = False, lg_logFormat = ''console'', lg_name = [], lg_configPath = ''./conf/log/service.yaml'',
     lg_keyList = default_log_keys, lg_logLevel = ''info'', lg_basePath = ''./log'', lg_fileName = ''app.log'',
     lg_maxSize = 10, lg_maxAge = 28, lg_maxBackups = 100, lg_compress = False, lg_logType = []\<rparr>"

text \<open>Each setting in turn: the program's, else the file's, else the default; a value that is empty counts as not given.\<close>

definition setting :: "'a \<Rightarrow> 'a \<Rightarrow> 'a \<Rightarrow> 'a \<Rightarrow> 'a" where
  "setting none program file dflt = IsTrueOrNot (program = none) (IsTrueOrNot (file = none) dflt file) program"

definition load_conf :: "log_options \<Rightarrow> log_config \<Rightarrow> log_options \<Rightarrow> log_options" where
  "load_conf d c opts =
     (let name = setting [] (lg_name opts) (lc_Name c) (lg_name d);
          basePath = setting [] (lg_basePath opts) (lc_BasePath c) (lg_basePath d)
      in opts\<lparr>lg_name := name,
              lg_logLevel := setting [] (lg_logLevel opts) (lc_LogLevel c) (lg_logLevel d),
              lg_logFormat := setting [] (lg_logFormat opts) (lc_Format c) (lg_logFormat d),
              lg_writeFile := setting False (lg_writeFile opts) (lc_WriteFile c) (lg_writeFile d),
              lg_maxSize := setting 0 (lg_maxSize opts) (lc_MaxSize c) (lg_maxSize d),
              lg_maxAge := setting 0 (lg_maxAge opts) (lc_MaxAge c) (lg_maxAge d),
              lg_maxBackups := setting 0 (lg_maxBackups opts) (lc_MaxBackups c) (lg_maxBackups d),
              lg_compress := setting False (lg_compress opts) (lc_Compress c) (lg_compress d),
              lg_fileName := (if lg_fileName opts = [] then if name \<noteq> [] then name @ ''.log'' else lg_fileName d else lg_fileName opts),
              lg_keyList := (if lg_keyList opts = [] then lg_keyList d else lg_keyList opts),
              lg_basePath := (if name \<noteq> [] then Join basePath name else basePath)\<rparr>)"

definition zap_loadConf :: "log_config \<Rightarrow> log_options \<Rightarrow> log_options" where
  "zap_loadConf c opts =
     load_conf zap_defaults c (opts\<lparr>lg_logType := setting [] (lg_logType opts) (lc_Type c) (lg_logType zap_defaults)\<rparr>)"

definition slog_loadConf :: "log_config \<Rightarrow> log_options \<Rightarrow> log_options" where
  "slog_loadConf = load_conf slog_defaults"

definition zap_paths :: "string list" where
  "zap_paths = [''./conf/log/service.yaml'', ''./conf/logger.yaml'', ''./conf/zap.yaml'', ''./conf/log.yaml'',
     ''./logger.yaml'', ''./zap.yaml'', ''./log.yaml'']"

definition slog_paths :: "string list" where
  "slog_paths = [''./conf/log/service.yaml'', ''./conf/logger.yaml'', ''./conf/slog.yaml'', ''./conf/log.yaml'',
     ''./logger.yaml'', ''./slog.yaml'', ''./log.yaml'']"

text \<open>A file that the program names must exist; else the first that exists is taken, or none.\<close>

definition conf_path :: "(string \<Rightarrow> bool) \<Rightarrow> string list \<Rightarrow> log_options \<Rightarrow> log_options option" where
  "conf_path exists' paths opts =
     (if lg_configPath opts \<noteq> [] \<and> \<not> exists' (lg_configPath opts) then None
      else if lg_configPath opts \<noteq> [] then Some opts
      else case find exists' paths of None \<Rightarrow> Some opts | Some p \<Rightarrow> Some (opts\<lparr>lg_configPath := p\<rparr>))"

definition zap_NewLogger :: "(string \<Rightarrow> bool) \<Rightarrow> (string \<Rightarrow> log_config) \<Rightarrow> log_option list \<Rightarrow> log_options option" where
  "zap_NewLogger exists' read opts =
     (case conf_path exists' zap_paths (fold apply_log_option opts no_log_options) of
        None \<Rightarrow> None
      | Some options \<Rightarrow> Some (zap_loadConf (read (lg_configPath options)) options))"

definition slog_NewLogger :: "(string \<Rightarrow> bool) \<Rightarrow> (string \<Rightarrow> log_config) \<Rightarrow> log_option list \<Rightarrow> log_options option" where
  "slog_NewLogger exists' read opts =
     (case conf_path exists' slog_paths (fold slog_apply_option opts no_log_options) of
        None \<Rightarrow> None
      | Some options \<Rightarrow> Some (slog_loadConf (read (lg_configPath options)) options))"

section \<open>Levels and outputs\<close>

datatype log_level = DebugLevel | InfoLevel | WarnLevel | ErrorLevel | FatalLevel

fun level_rank :: "log_level \<Rightarrow> nat" where
  "level_rank DebugLevel = 0" | "level_rank InfoLevel = 1" | "level_rank WarnLevel = 2"
| "level_rank ErrorLevel = 3" | "level_rank FatalLevel = 4"

definition zap_level :: "log_options \<Rightarrow> log_level" where
  "zap_level opts =
     (if lg_logLevel opts = ''debug'' then DebugLevel
      else if lg_logLevel opts = ''info'' then InfoLevel
      else if lg_logLevel opts = ''warn'' then WarnLevel
      else if lg_logLevel opts = ''error'' then ErrorLevel
      else if lg_logLevel opts = ''fatal'' then FatalLevel
      else InfoLevel)"

definition slog_level :: "log_options \<Rightarrow> log_level" where
  "slog_level opts =
     (if lg_logLevel opts = ''debug'' then DebugLevel
      else if lg_logLevel opts = ''info'' then InfoLevel
      else if lg_logLevel opts = ''warn'' then WarnLevel
      else if lg_logLevel opts = ''error'' then ErrorLevel
      else InfoLevel)"

datatype log_sink = Stdout | LogFile string

definition zap_sinks :: "log_options \<Rightarrow> log_level \<Rightarrow> log_sink list" where
  "zap_sinks opts lev =
     (if level_rank (zap_level opts) \<le> level_rank lev
      then if lg_writeFile opts then [LogFile (Join (lg_basePath opts) (lg_fileName opts)), Stdout] else [Stdout]
      else []) @
     (if lg_writeFile opts \<and> level_rank WarnLevel \<le> level_rank lev
      then [LogFile (Join (lg_basePath opts) (lg_fileName opts @ ''.wf''))] else [])"

definition slog_sinks :: "log_options \<Rightarrow> log_level \<Rightarrow> log_sink list" where
  "slog_sinks opts lev =
     (if level_rank (slog_level opts) \<le> level_rank lev
      then if lg_writeFile opts then [LogFile (Join (lg_basePath opts) (lg_fileName opts)), Stdout] else [Stdout]
      else [])"

section \<open>Fields\<close>

text \<open>What a caller hands to a logger: a field of the library with its key and text, an error, anything else.\<close>

datatype log_arg = ZapField string string | ErrArg string | PlainArg string

fun collect_fields :: "log_arg list \<Rightarrow> (string \<times> string) list" where
  "collect_fields [] = []"
| "collect_fields (f # fs) = (case f of ZapField k v \<Rightarrow> (k, v) # collect_fields fs | _ \<Rightarrow> collect_fields fs)"

fun pair_fields :: "(log_arg \<Rightarrow> string) \<Rightarrow> log_arg list \<Rightarrow> (string \<times> string) list" where
  "pair_fields text [] = []"
| "pair_fields text [x] = [(''log_extra'', text x)]"
| "pair_fields text (k # v # fs) = (text k, text v) # pair_fields text fs"

definition checkFields :: "(log_arg \<Rightarrow> string) \<Rightarrow> log_arg list \<Rightarrow> (string \<times> string) list" where
  "checkFields text args =
     (case args of
        [] \<Rightarrow> []
      | ZapField k v # fs \<Rightarrow> collect_fields args
      | [ErrArg e] \<Rightarrow> [(''error'', e)]
      | [x] \<Rightarrow> [(''default'', text x)]
      | _ \<Rightarrow> pair_fields text args)"

definition zapField :: "(string \<Rightarrow> string) \<Rightarrow> string list \<Rightarrow> (string \<times> string) list" where
  "zapField ctx keys = concat (map (\<lambda>k. if ctx k = [] then [] else [(k, ctx k)]) keys)"

definition slogField :: "(string \<Rightarrow> string) \<Rightarrow> string list \<Rightarrow> (string \<times> string) list" where
  "slogField = zapField"

definition prepareFields :: "(log_arg \<Rightarrow> string) \<Rightarrow> (string \<Rightarrow> string) \<Rightarrow> string list \<Rightarrow> log_arg list \<Rightarrow> (string \<times> string) list" where
  "prepareFields text ctx keys args =
     (let field = zapField ctx keys; checked = checkFields text args
      in if length checked > 0 then field @ checked else field)"

text \<open>\<open>Sprintf\<close> and \<open>Sprint\<close> are arguments; an argument is a string, or another value.\<close>

definition getMessage :: "(string \<Rightarrow> (string + 'a) list \<Rightarrow> string) \<Rightarrow> ((string + 'a) list \<Rightarrow> string) \<Rightarrow> string \<Rightarrow> (string + 'a) list \<Rightarrow> string" where
  "getMessage sprintf sprint template args =
     (if args = [] then template
      else if template \<noteq> [] then sprintf template args
      else case args of [Inl s] \<Rightarrow> s | _ \<Rightarrow> sprint args)"

definition slog_getMessage :: "(string \<Rightarrow> (string + 'a) list \<Rightarrow> string) \<Rightarrow> ((string + 'a) list \<Rightarrow> string) \<Rightarrow> string \<Rightarrow> (string + 'a) list \<Rightarrow> string" where
  "slog_getMessage = getMessage"

section \<open>The logger of the databases\<close>

datatype gorm_level = GormSilent | GormError | GormWarn | GormInfo

fun gorm_rank :: "gorm_level \<Rightarrow> nat" where
  "gorm_rank GormSilent = 1" | "gorm_rank GormError = 2" | "gorm_rank GormWarn = 3" | "gorm_rank GormInfo = 4"

record gorm_config =
  gl_SlowThreshold :: int
  gl_LogLevel :: gorm_level
  gl_IgnoreRecordNotFound :: bool
  gl_Colorful :: bool
  gl_ParameterizedQueries :: bool

definition defaultGormLoggerConfig :: gorm_config where
  "defaultGormLoggerConfig = \<lparr>gl_SlowThreshold = 1000000000, gl_LogLevel = GormSilent, gl_IgnoreRecordNotFound = False,
     gl_Colorful = False, gl_ParameterizedQueries = False\<rparr>"

type_synonym gorm_option = "gorm_config \<Rightarrow> gorm_config"

definition gorm_WithLevel :: "gorm_level \<Rightarrow> gorm_option" where "gorm_WithLevel l c = c\<lparr>gl_LogLevel := l\<rparr>"
definition gorm_WithColorful :: "bool \<Rightarrow> gorm_option" where "gorm_WithColorful b c = c\<lparr>gl_Colorful := b\<rparr>"
definition gorm_WithIgnore :: "bool \<Rightarrow> gorm_option" where "gorm_WithIgnore b c = c\<lparr>gl_IgnoreRecordNotFound := b\<rparr>"
definition gorm_WithSlowThreshold :: "int \<Rightarrow> gorm_option" where "gorm_WithSlowThreshold d c = c\<lparr>gl_SlowThreshold := d\<rparr>"
definition gorm_WithParameterized :: "bool \<Rightarrow> gorm_option" where "gorm_WithParameterized b c = c\<lparr>gl_ParameterizedQueries := b\<rparr>"

definition gorm_adapter :: "gorm_option list \<Rightarrow> gorm_config" where
  "gorm_adapter opts = fold (\<lambda>opt c. opt c) opts defaultGormLoggerConfig"

definition LogMode :: "gorm_level \<Rightarrow> gorm_config \<Rightarrow> gorm_config" where
  "LogMode level c = c\<lparr>gl_LogLevel := level\<rparr>"

text \<open>What is printed, if anything: the level, and whether the message goes on to the logger.\<close>

definition gorm_Info :: "gorm_config \<Rightarrow> string \<Rightarrow> string list" where
  "gorm_Info c m = (if gorm_rank (gl_LogLevel c) \<ge> gorm_rank GormInfo then [m] else [])"

definition gorm_Warn :: "gorm_config \<Rightarrow> string \<Rightarrow> string list" where
  "gorm_Warn c m = (if gorm_rank (gl_LogLevel c) \<ge> gorm_rank GormWarn then [m] else [])"

definition gorm_Error :: "gorm_config \<Rightarrow> string \<Rightarrow> string list" where
  "gorm_Error c m = (if gorm_rank (gl_LogLevel c) \<ge> gorm_rank GormError then [m] else [])"

text \<open>
  An error is its text and whether it is that no record was found. The statement and the number of its rows are only asked for
  when they are printed.
\<close>

datatype trace_line = TraceError string int int string | TraceSlow int int int string | TraceInfo int int string

definition gorm_Trace :: "gorm_config \<Rightarrow> int \<Rightarrow> string \<times> int \<Rightarrow> (string \<times> bool) option \<Rightarrow> trace_line option" where
  "gorm_Trace c elapsed fc err =
     (let (sql, rows) = fc in
      if gorm_rank (gl_LogLevel c) \<le> gorm_rank GormSilent then None
      else if err \<noteq> None \<and> gorm_rank (gl_LogLevel c) \<ge> gorm_rank GormError \<and>
              (\<not> snd (the err) \<or> \<not> gl_IgnoreRecordNotFound c)
      then Some (TraceError (fst (the err)) elapsed rows sql)
      else if elapsed > gl_SlowThreshold c \<and> gl_SlowThreshold c \<noteq> 0 \<and> gorm_rank (gl_LogLevel c) \<ge> gorm_rank GormWarn
      then Some (TraceSlow (gl_SlowThreshold c) elapsed rows sql)
      else if gl_LogLevel c = GormInfo then Some (TraceInfo elapsed rows sql)
      else None)"

section \<open>Properties\<close>

lemma setting_cases:
  "setting none program file dflt = (if program \<noteq> none then program else if file \<noteq> none then file else dflt)"
  by (simp add: setting_def IsTrueOrNot_def)

lemma Clean_nonempty: "Clean p \<noteq> []"
proof -
  have "[] \<notin> set (clean_parts p)" using cleaned_parts [of p] by (auto simp: cleaned_def)
  then have "join [slash] (clean_parts p) \<noteq> []" if "clean_parts p \<noteq> []"
    using that by (auto simp: neq_Nil_conv) (metis append_is_Nil_conv join.simps(2,3) list.exhaust list.set_intros(1))
  then show ?thesis by (simp add: Clean_def from_parts_def)
qed

lemma Join_nonempty: "a \<noteq> [] \<Longrightarrow> Join a b \<noteq> []"
  by (simp add: Join_def Clean_nonempty)

text \<open>The settings one by one, as the assignments of \<open>loadConf\<close> leave them.\<close>

lemma load_conf_fields:
  "lg_name (load_conf d c o') = setting [] (lg_name o') (lc_Name c) (lg_name d)"
  "lg_logLevel (load_conf d c o') = setting [] (lg_logLevel o') (lc_LogLevel c) (lg_logLevel d)"
  "lg_logFormat (load_conf d c o') = setting [] (lg_logFormat o') (lc_Format c) (lg_logFormat d)"
  "lg_writeFile (load_conf d c o') = setting False (lg_writeFile o') (lc_WriteFile c) (lg_writeFile d)"
  "lg_maxSize (load_conf d c o') = setting 0 (lg_maxSize o') (lc_MaxSize c) (lg_maxSize d)"
  "lg_maxAge (load_conf d c o') = setting 0 (lg_maxAge o') (lc_MaxAge c) (lg_maxAge d)"
  "lg_maxBackups (load_conf d c o') = setting 0 (lg_maxBackups o') (lc_MaxBackups c) (lg_maxBackups d)"
  "lg_compress (load_conf d c o') = setting False (lg_compress o') (lc_Compress c) (lg_compress d)"
  "lg_keyList (load_conf d c o') = setting [] (lg_keyList o') [] (lg_keyList d)"
  by (simp_all add: load_conf_def Let_def setting_cases)

lemma load_conf_paths:
  "lg_fileName (load_conf d c o') = (if lg_fileName o' \<noteq> [] then lg_fileName o'
     else if lg_name (load_conf d c o') \<noteq> [] then lg_name (load_conf d c o') @ ''.log'' else lg_fileName d)"
  "lg_basePath (load_conf d c o') = (let p = setting [] (lg_basePath o') (lc_BasePath c) (lg_basePath d)
     in if lg_name (load_conf d c o') \<noteq> [] then Join p (lg_name (load_conf d c o')) else p)"
  by (simp_all add: load_conf_def Let_def)

text \<open>
  A logger is made unless the program names a configuration that is not there. What the program sets counts, then what the
  file has; the level, the format, the limits, the args and the path of the file are never left empty.
\<close>

theorem settings_complete:
  "(zap_NewLogger exists' read opts = None \<longleftrightarrow>
      lg_configPath (fold apply_log_option opts no_log_options) \<noteq> [] \<and>
      \<not> exists' (lg_configPath (fold apply_log_option opts no_log_options))) \<and>
   (zap_NewLogger exists' read opts = Some o' \<longrightarrow>
      (\<exists>path. let p = fold apply_log_option opts no_log_options; c = read path in
         (path = lg_configPath p \<or> lg_configPath p = [] \<and> path \<in> set zap_paths \<and> exists' path) \<and>
         lg_logLevel o' = (if lg_logLevel p \<noteq> [] then lg_logLevel p else if lc_LogLevel c \<noteq> [] then lc_LogLevel c else ''info'') \<and>
         lg_maxSize o' = (if lg_maxSize p \<noteq> 0 then lg_maxSize p else if lc_MaxSize c \<noteq> 0 then lc_MaxSize c else 15) \<and>
         lg_logFormat o' \<noteq> [] \<and> lg_maxAge o' \<noteq> 0 \<and> lg_maxBackups o' \<noteq> 0 \<and> lg_keyList o' \<noteq> [] \<and>
         lg_fileName o' \<noteq> [] \<and> lg_basePath o' \<noteq> []))"
proof -
  define p where "p = fold apply_log_option opts no_log_options"
  have none: "conf_path exists' zap_paths p = None \<longleftrightarrow> lg_configPath p \<noteq> [] \<and> \<not> exists' (lg_configPath p)"
    by (simp add: conf_path_def split: option.split)
  have some: "(q = p \<or> lg_configPath p = [] \<and> (\<exists>path \<in> set zap_paths. exists' path \<and> q = p\<lparr>lg_configPath := path\<rparr>))"
    if "conf_path exists' zap_paths p = Some q" for q
    using that by (auto simp: conf_path_def find_Some_iff set_conv_nth split: if_splits option.splits)
  have loaded: "lg_logLevel (zap_loadConf c q) = (if lg_logLevel q \<noteq> [] then lg_logLevel q else if lc_LogLevel c \<noteq> [] then lc_LogLevel c else ''info'')"
    "lg_maxSize (zap_loadConf c q) = (if lg_maxSize q \<noteq> 0 then lg_maxSize q else if lc_MaxSize c \<noteq> 0 then lc_MaxSize c else 15)"
    "lg_logFormat (zap_loadConf c q) \<noteq> []" "lg_maxAge (zap_loadConf c q) \<noteq> 0" "lg_maxBackups (zap_loadConf c q) \<noteq> 0"
    "lg_keyList (zap_loadConf c q) \<noteq> []" "lg_fileName (zap_loadConf c q) \<noteq> []" "lg_basePath (zap_loadConf c q) \<noteq> []" for c q
    by (simp_all add: zap_loadConf_def load_conf_fields load_conf_paths setting_cases zap_defaults_def default_log_keys_def
        Let_def Join_nonempty)
  have "(zap_NewLogger exists' read opts = None \<longleftrightarrow> lg_configPath p \<noteq> [] \<and> \<not> exists' (lg_configPath p))"
    unfolding zap_NewLogger_def p_def [symmetric] none [symmetric] by (simp split: option.split)
  moreover have "\<exists>path. let c = read path in
         (path = lg_configPath p \<or> lg_configPath p = [] \<and> path \<in> set zap_paths \<and> exists' path) \<and>
         lg_logLevel o' = (if lg_logLevel p \<noteq> [] then lg_logLevel p else if lc_LogLevel c \<noteq> [] then lc_LogLevel c else ''info'') \<and>
         lg_maxSize o' = (if lg_maxSize p \<noteq> 0 then lg_maxSize p else if lc_MaxSize c \<noteq> 0 then lc_MaxSize c else 15) \<and>
         lg_logFormat o' \<noteq> [] \<and> lg_maxAge o' \<noteq> 0 \<and> lg_maxBackups o' \<noteq> 0 \<and> lg_keyList o' \<noteq> [] \<and>
         lg_fileName o' \<noteq> [] \<and> lg_basePath o' \<noteq> []"
    if "zap_NewLogger exists' read opts = Some o'"
  proof -
    from that obtain q where q: "conf_path exists' zap_paths p = Some q" "o' = zap_loadConf (read (lg_configPath q)) q"
      unfolding zap_NewLogger_def p_def [symmetric] by (auto split: option.splits)
    have same: "lg_logLevel q = lg_logLevel p" "lg_maxSize q = lg_maxSize p"
      and path: "lg_configPath q = lg_configPath p \<or> lg_configPath p = [] \<and> lg_configPath q \<in> set zap_paths \<and> exists' (lg_configPath q)"
      using some [OF q(1)] by auto
    show ?thesis
      unfolding Let_def q(2)
      by (rule exI [where x = "lg_configPath q"]) (simp only: path loaded same not_False_eq_True simp_thms)
  qed
  ultimately show ?thesis unfolding p_def [symmetric] Let_def by blast
qed

definition demo_conf :: log_config where
  "demo_conf = \<lparr>lc_Type = [], lc_Name = [], lc_Format = [], lc_LogLevel = ''debug'', lc_WriteFile = False, lc_BasePath = [],
     lc_MaxSize = 0, lc_MaxAge = 0, lc_MaxBackups = 0, lc_Compress = False\<rparr>"

theorem settings_complete_witness:
  "\<exists>opts. zap_NewLogger (\<lambda>p. False) (\<lambda>p. demo_conf) [LogLevel ''warn''] = Some opts \<and> lg_logLevel opts = ''warn'' \<and> lg_fileName opts \<noteq> []"
proof -
  have level: "lg_logLevel (fold apply_log_option [LogLevel ''warn''] no_log_options) = ''warn''" by (simp add: no_log_options_def)
  have "\<not> (zap_NewLogger (\<lambda>p. False) (\<lambda>p. demo_conf) [LogLevel ''warn''] = None)"
    unfolding conjunct1 [OF settings_complete] by (simp add: no_log_options_def)
  then obtain opts where made: "zap_NewLogger (\<lambda>p. False) (\<lambda>p. demo_conf) [LogLevel ''warn''] = Some opts" by blast
  from mp [OF conjunct2 [OF settings_complete] made] level have "lg_logLevel opts = ''warn'' \<and> lg_fileName opts \<noteq> []"
    unfolding Let_def by (metis list.distinct(1))
  with made show ?thesis by blast
qed

text \<open>A setting that the program turns off counts as not given: the file turns it on.\<close>

lemma switch_not_turned_off:
  "lc_WriteFile c \<Longrightarrow> lg_writeFile (load_conf d c (apply_log_option (LogWriteFile False) o'))"
  by (simp add: load_conf_fields setting_cases)

text \<open>
  A record is printed exactly from the level that was set on, and written to the file with it; the file of warnings gets
  every record of that level on, also one that the level that was set keeps out of everything else.
\<close>

lemma printed_from_level: "Stdout \<in> set (zap_sinks opts lev) \<longleftrightarrow> level_rank (zap_level opts) \<le> level_rank lev"
  by (simp add: zap_sinks_def)

lemma warning_past_level:
  "lg_logLevel opts = ''error'' \<Longrightarrow> lg_writeFile opts \<Longrightarrow>
   zap_sinks opts WarnLevel = [LogFile (Join (lg_basePath opts) (lg_fileName opts @ ''.wf''))]"
  by (simp add: zap_sinks_def zap_level_def)

text \<open>
  Values handed to a logger all appear in what is logged, as a key or as a text, unless the first is a field of the
  library: then everything that is no such field is left out.
\<close>

lemma pair_fields_kept: "x \<in> set args \<Longrightarrow> text x \<in> fst ` set (pair_fields text args) \<union> snd ` set (pair_fields text args)"
  by (induction "text" args rule: pair_fields.induct) auto

theorem fields_kept:
  assumes "\<forall>e. text (ErrArg e) = e" and "x \<in> set args" and "\<forall>k v. hd args \<noteq> ZapField k v"
  shows "text x \<in> fst ` set (prepareFields text ctx keys args) \<union> snd ` set (prepareFields text ctx keys args)"
proof -
  have "text x \<in> fst ` set (checkFields text args) \<union> snd ` set (checkFields text args)"
  proof (cases args)
    case (Cons f fs)
    show ?thesis
    proof (cases fs)
      case Nil
      with Cons assms show ?thesis by (cases f) (simp_all add: checkFields_def)
    next
      case (Cons g gs)
      then have "checkFields text args = pair_fields text args"
        using \<open>args = f # fs\<close> assms(3) by (cases f) (simp_all add: checkFields_def)
      then show ?thesis using pair_fields_kept [OF assms(2)] by simp
    qed
  qed (use assms(2) in simp)
  then show ?thesis by (auto simp: prepareFields_def Let_def)
qed

definition demo_text :: "log_arg \<Rightarrow> string" where
  "demo_text x = (case x of ErrArg e \<Rightarrow> e | PlainArg t \<Rightarrow> t | ZapField k v \<Rightarrow> k)"

theorem fields_kept_witness:
  "''c'' \<in> fst ` set (prepareFields demo_text (\<lambda>k. []) [] [PlainArg ''a'', PlainArg ''b'', PlainArg ''c'']) \<union>
           snd ` set (prepareFields demo_text (\<lambda>k. []) [] [PlainArg ''a'', PlainArg ''b'', PlainArg ''c''])"
  using fields_kept [of demo_text "PlainArg ''c''" "[PlainArg ''a'', PlainArg ''b'', PlainArg ''c'']"] by (simp add: demo_text_def)

lemma plain_values_lost: "checkFields text [ZapField k v, PlainArg a, PlainArg b] = [(k, v)]"
  by (simp add: checkFields_def)

text \<open>
  Of an SQL statement at most one line is printed: an error at every level but silence, unless it is that no record was
  found and those are to be ignored; else that it was slow, from warnings on; else at the level of information.
\<close>

theorem trace_lines:
  "(gl_LogLevel c = GormSilent \<longrightarrow> gorm_Trace c elapsed (sql, rows) err = None) \<and>
   (gl_LogLevel c \<noteq> GormSilent \<and> err = Some (e, notFound) \<and> (notFound \<longrightarrow> \<not> gl_IgnoreRecordNotFound c) \<longrightarrow>
      gorm_Trace c elapsed (sql, rows) err = Some (TraceError e elapsed rows sql)) \<and>
   (gl_LogLevel c \<in> {GormWarn, GormInfo} \<and> (err = None \<or> err = Some (e, True) \<and> gl_IgnoreRecordNotFound c) \<longrightarrow>
      gorm_Trace c elapsed (sql, rows) err =
        (if gl_SlowThreshold c < elapsed \<and> gl_SlowThreshold c \<noteq> 0 then Some (TraceSlow (gl_SlowThreshold c) elapsed rows sql)
         else if gl_LogLevel c = GormInfo then Some (TraceInfo elapsed rows sql) else None))"
  by (cases "gl_LogLevel c") (auto simp: gorm_Trace_def)

theorem trace_lines_witness:
  "gorm_Trace (LogMode GormError defaultGormLoggerConfig) 5 (''select 1'', 0) (Some (''bad'', False)) = Some (TraceError ''bad'' 5 0 ''select 1'')"
  by (rule mp [OF conjunct1 [OF conjunct2 [OF trace_lines [where notFound = False]]]]) (simp add: LogMode_def)

end
