(* ===== verification/Charsets.thy ===== *)
theory Charsets
  imports Go_Strings "HOL-Library.Word"
begin

text \<open>
  \<open>stringutil/charset.go\<close> and \<open>idgen/generator.go\<close>: the conversion of texts between character sets, over a library of codecs
  that is an argument, and the settings of the generator of identifiers.
\<close>

section \<open>Character sets\<close>

text \<open>
  An encoder takes text in UTF-8 to the bytes of a character set, a decoder takes such bytes to text in UTF-8; a
  character set that is not known has neither.
\<close>

record codecs =
  co_encoder :: "string \<Rightarrow> (string \<Rightarrow> string) option"
  co_decoder :: "string \<Rightarrow> (string \<Rightarrow> string) option"

definition unsupported :: "string \<Rightarrow> string" where
  "unsupported charset = ''unsupport charset: '' @ charset"

definition GetBytes :: "codecs \<Rightarrow> string \<Rightarrow> string \<Rightarrow> string + string" where
  "GetBytes lib src charset =
     (case co_encoder lib charset of None \<Rightarrow> Inl (unsupported charset) | Some enc \<Rightarrow> Inr (enc src))"

definition NewString :: "codecs \<Rightarrow> string \<Rightarrow> string \<Rightarrow> string + string" where
  "NewString lib bytes charset =
     (case co_decoder lib charset of None \<Rightarrow> Inl (unsupported charset) | Some dec \<Rightarrow> Inr (dec bytes))"

definition ConvertCharset :: "codecs \<Rightarrow> string \<Rightarrow> string \<Rightarrow> string \<Rightarrow> string + string" where
  "ConvertCharset lib src srcCharset dstCharset =
     (case co_encoder lib srcCharset of
        None \<Rightarrow> Inl (unsupported srcCharset)
      | Some enc \<Rightarrow>
          (case co_decoder lib dstCharset of
             None \<Rightarrow> Inl (unsupported dstCharset)
           | Some dec \<Rightarrow> Inr (dec (enc src))))"

definition UTF_8 :: string where "UTF_8 = ''UTF-8''"

definition ToUTF8 :: "codecs \<Rightarrow> string \<Rightarrow> string \<Rightarrow> string + string" where
  "ToUTF8 lib srcCharset src = ConvertCharset lib src srcCharset UTF_8"

definition UTF8To :: "codecs \<Rightarrow> string \<Rightarrow> string \<Rightarrow> string + string" where
  "UTF8To lib dstCharset src = ConvertCharset lib src UTF_8 dstCharset"

text \<open>A character set that can be written and read back: decoding gives back a text that its characters suffice for.\<close>

definition lawful_charset :: "codecs \<Rightarrow> string \<Rightarrow> string \<Rightarrow> bool" where
  "lawful_charset lib charset t \<longleftrightarrow>
     (\<exists>enc dec. co_encoder lib charset = Some enc \<and> co_decoder lib charset = Some dec \<and> dec (enc t) = t)"

text \<open>A character set in which all bytes are text, so that decoding loses nothing.\<close>

definition lossless_charset :: "codecs \<Rightarrow> string \<Rightarrow> bool" where
  "lossless_charset lib charset \<longleftrightarrow>
     (\<exists>enc dec. co_encoder lib charset = Some enc \<and> co_decoder lib charset = Some dec \<and> (\<forall>bytes. enc (dec bytes) = bytes))"

text \<open>
  Bytes made for a character set are read back with it; and a text that was converted from one character set to another
  in which nothing is lost is converted back.
\<close>

theorem charset_roundtrip:
  assumes "lawful_charset lib a t" and "lossless_charset lib b"
  shows "(\<exists>bytes. GetBytes lib t a = Inr bytes \<and> NewString lib bytes a = Inr t) \<and>
    (\<exists>u. ConvertCharset lib t a b = Inr u \<and> ConvertCharset lib u b a = Inr t)"
  using assms by (auto simp: lawful_charset_def lossless_charset_def GetBytes_def NewString_def ConvertCharset_def)

text \<open>
  Latin-1 as an example: the code points below 256 as single bytes, others as question marks; and UTF-8, whose codecs
  replace what is no text.
\<close>

definition latin1_codecs :: codecs where
  "latin1_codecs =
     \<lparr>co_encoder = [''ISO_8859-1'' \<mapsto> (\<lambda>s. map (\<lambda>r. if r < 256 then char_of r else CHR ''?'') (runes s)), UTF_8 \<mapsto> (\<lambda>s. utf8 (runes s))],
      co_decoder = [''ISO_8859-1'' \<mapsto> (\<lambda>s. utf8 (map byte s)), UTF_8 \<mapsto> (\<lambda>s. utf8 (runes s))]\<rparr>"

lemma latin1_lawful:
  assumes "list_all (\<lambda>r. r < 256) rs"
  shows "lawful_charset latin1_codecs ''ISO_8859-1'' (utf8 rs)"
proof -
  have "list_all valid_rune rs" using assms by (auto simp: list_all_iff valid_rune_def)
  then have "runes (utf8 rs) = rs" by (rule runes_utf8)
  moreover have "map (byte \<circ> (\<lambda>r. if r < 256 then char_of r else CHR ''?'')) rs = rs"
    using assms by (induction rs) simp_all
  ultimately show ?thesis by (simp add: lawful_charset_def latin1_codecs_def UTF_8_def)
qed

lemma latin1_lossless: "lossless_charset latin1_codecs ''ISO_8859-1''"
proof -
  have "map (\<lambda>r. if r < 256 then char_of r else CHR ''?'') (runes (utf8 (map byte s))) = s" for s
  proof -
    have "list_all valid_rune (map byte s)"
      by (auto simp: list_all_iff valid_rune_def intro: less_trans [OF nat_of_char_less_256])
    then have "runes (utf8 (map byte s)) = map byte s" by (rule runes_utf8)
    then show ?thesis by (simp add: map_idI nat_of_char_less_256)
  qed
  then show ?thesis by (simp add: lossless_charset_def latin1_codecs_def UTF_8_def)
qed

lemma utf8_lawful: "list_all valid_rune rs \<Longrightarrow> lawful_charset latin1_codecs UTF_8 (utf8 rs)"
  by (simp add: lawful_charset_def latin1_codecs_def runes_utf8)

theorem charset_roundtrip_witness:
  "\<exists>u. UTF8To latin1_codecs ''ISO_8859-1'' (utf8 [0xE9]) = Inr u \<and> ToUTF8 latin1_codecs ''ISO_8859-1'' u = Inr (utf8 [0xE9])"
proof -
  have "list_all valid_rune [0xE9]" by (simp add: valid_rune_def)
  from conjunct2 [OF charset_roundtrip [OF utf8_lawful [OF this] latin1_lossless]]
  show ?thesis by (simp only: UTF8To_def ToUTF8_def)
qed

text \<open>
  A conversion encodes with the character set it is said to convert from, as if its argument were text in UTF-8, and decodes with
  the one it is said to convert to: it changes how the bytes of a text are read. So \<open>ToUTF8\<close> does not take bytes of another
  character set to UTF-8: it takes them for UTF-8 and loses them; and what \<open>UTF8To\<close> returns is still UTF-8.
\<close>

lemma question_mark: "char_of (63 :: nat) = CHR ''?''"
  using char_of_char [of "CHR ''?''", where 'a = nat] by simp

lemma to_utf8_loses_text:
  "ToUTF8 latin1_codecs ''ISO_8859-1'' [char_of (0xE9 :: nat)] = Inr ''?''"
  "NewString latin1_codecs [char_of (0xE9 :: nat)] ''ISO_8859-1'' = Inr (utf8 [0xE9])"
  by (simp_all add: ToUTF8_def NewString_def ConvertCharset_def latin1_codecs_def UTF_8_def rune_error_def question_mark)

lemma from_utf8_garbles:
  "UTF8To latin1_codecs ''ISO_8859-1'' (utf8 [0xE9]) = Inr (utf8 [0xC3, 0xA9])"
  "GetBytes latin1_codecs (utf8 [0xE9]) ''ISO_8859-1'' = Inr [char_of (0xE9 :: nat)]"
proof -
  have "runes (utf8 [0xE9]) = [0xE9]" by (rule runes_utf8) (simp add: valid_rune_def)
  moreover have "map byte (utf8 [0xE9]) = [0xC3, 0xA9]" by (simp add: encode_2)
  ultimately show "UTF8To latin1_codecs ''ISO_8859-1'' (utf8 [0xE9]) = Inr (utf8 [0xC3, 0xA9])"
    "GetBytes latin1_codecs (utf8 [0xE9]) ''ISO_8859-1'' = Inr [char_of (0xE9 :: nat)]"
    by (simp_all add: UTF8To_def GetBytes_def ConvertCharset_def latin1_codecs_def UTF_8_def)
qed

section \<open>Identifiers\<close>

text \<open>What the program sets of the generator, and the generator's options, which start as the library's defaults for a worker.\<close>

record gen_param =
  gp_workID :: "(16 word) option"
  gp_seqBitLength :: "(8 word) option"
  gp_baseTime :: "(64 word) option"
  gp_method :: "(16 word) option"
  gp_workerIdBitLength :: "(8 word) option"
  gp_maxSeqNumber :: "(32 word) option"
  gp_minSeqNumber :: "(32 word) option"
  gp_topOverCostCount :: "(32 word) option"

record generator_options =
  go_WorkerId :: "16 word"
  go_SeqBitLength :: "8 word"
  go_BaseTime :: "64 word"
  go_Method :: "16 word"
  go_WorkerIdBitLength :: "8 word"
  go_MaxSeqNumber :: "32 word"
  go_MinSeqNumber :: "32 word"
  go_TopOverCostCount :: "32 word"

type_synonym gen_option = "gen_param \<Rightarrow> gen_param"

definition WithWorkID :: "16 word \<Rightarrow> gen_option" where "WithWorkID w p = p\<lparr>gp_workID := Some w\<rparr>"
definition WithSeqBitLength :: "8 word \<Rightarrow> gen_option" where "WithSeqBitLength n p = p\<lparr>gp_seqBitLength := Some n\<rparr>"
definition WithBaseTime :: "64 word \<Rightarrow> gen_option" where "WithBaseTime t p = p\<lparr>gp_baseTime := Some t\<rparr>"
definition WithMethod :: "16 word \<Rightarrow> gen_option" where "WithMethod m p = p\<lparr>gp_method := Some m\<rparr>"
definition WithWorkerIdBitLength :: "8 word \<Rightarrow> gen_option" where "WithWorkerIdBitLength n p = p\<lparr>gp_workerIdBitLength := Some n\<rparr>"
definition WithMaxSeqNumber :: "32 word \<Rightarrow> gen_option" where "WithMaxSeqNumber n p = p\<lparr>gp_maxSeqNumber := Some n\<rparr>"
definition WithMinSeqNumber :: "32 word \<Rightarrow> gen_option" where "WithMinSeqNumber n p = p\<lparr>gp_minSeqNumber := Some n\<rparr>"
definition WithTopOverCostCount :: "32 word \<Rightarrow> gen_option" where "WithTopOverCostCount n p = p\<lparr>gp_topOverCostCount := Some n\<rparr>"

definition no_gen_param :: gen_param where
  "no_gen_param = \<lparr>gp_workID = None, gp_seqBitLength = None, gp_baseTime = None, gp_method = None, gp_workerIdBitLength = None,
     gp_maxSeqNumber = None, gp_minSeqNumber = None, gp_topOverCostCount = None\<rparr>"

definition given :: "'a option \<Rightarrow> 'a \<Rightarrow> 'a" where
  "given p d = (case p of None \<Rightarrow> d | Some v \<Rightarrow> v)"

text \<open>A worker that is not set is drawn, below 64.\<close>

definition SetIDGenerator :: "nat \<Rightarrow> (16 word \<Rightarrow> generator_options) \<Rightarrow> gen_option list \<Rightarrow> generator_options" where
  "SetIDGenerator drawn defaults opts =
     (let param = fold (\<lambda>option p. option p) opts no_gen_param;
          workID = (case gp_workID param of None \<Rightarrow> of_nat (drawn mod 64) | Some w \<Rightarrow> w);
          options = defaults workID
      in options\<lparr>go_BaseTime := given (gp_baseTime param) (go_BaseTime options),
                 go_SeqBitLength := given (gp_seqBitLength param) (go_SeqBitLength options),
                 go_Method := given (gp_method param) (go_Method options),
                 go_WorkerIdBitLength := given (gp_workerIdBitLength param) (go_WorkerIdBitLength options),
                 go_MaxSeqNumber := given (gp_maxSeqNumber param) (go_MaxSeqNumber options),
                 go_MinSeqNumber := given (gp_minSeqNumber param) (go_MinSeqNumber options),
                 go_TopOverCostCount := given (gp_topOverCostCount param) (go_TopOverCostCount options)\<rparr>)"

text \<open>
  Each instance that is left to draw its worker gets one of 64, so two of 65 instances share one, and with it identifiers
  are not unique between them.
\<close>

lemma drawn_worker_small:
  assumes "\<And>w. go_WorkerId (defaults w) = w"
  shows "unat (go_WorkerId (SetIDGenerator drawn defaults [])) < 64"
proof -
  have "drawn mod 64 < 2 ^ 16" by (rule less_trans [of _ 64]) simp_all
  then have "unat (of_nat (drawn mod 64) :: 16 word) = drawn mod 64" by (simp add: unat_of_nat)
  then show ?thesis using assms by (simp add: SetIDGenerator_def no_gen_param_def Let_def)
qed

lemma workers_collide:
  assumes "\<And>w. go_WorkerId (defaults w) = w" and "finite A" "card A > 64"
  shows "\<not> inj_on (\<lambda>i. go_WorkerId (SetIDGenerator (draw i) defaults [])) A"
proof
  let ?w = "\<lambda>i. unat (go_WorkerId (SetIDGenerator (draw i) defaults []))"
  assume "inj_on (\<lambda>i. go_WorkerId (SetIDGenerator (draw i) defaults [])) A"
  then have "inj_on ?w A" by (auto simp: inj_on_def word_unat_eq_iff)
  then have "card A = card (?w ` A)" by (simp add: card_image)
  also have "\<dots> \<le> card {..<64::nat}"
    using drawn_worker_small [OF assms(1)] by (intro card_mono) auto
  finally show False using assms(3) by simp
qed

end
