(* ===== verification/Spec2Isabelle.thy ===== *)
theory Spec2Isabelle
  imports Prelude Go_Url Gormx_Db Migrate_Run Jodatime Goredis_Queue Rabbit_Consume Streams Errors Once Kafka
    Rocketmq_Channel Cryptox Ginmetrics Cron Es Rpc Rpc_Clients Obs Mongo Configx Goredis_Variants Pointer Kube_Objects
    Middleware Ginx Rabbit_Manage Goredis_Commands Logging Charsets
begin

text \<open>
  A verification library for \<^emph>\<open>potato\<close>, a collection of Go packages that services are built from: access
  to databases and their migrations, Redis, RabbitMQ, Kafka and RocketMQ, Elasticsearch, MongoDB and object stores, calls
  between services over HTTP and gRPC, scheduling, streams, errors, time formats, configuration and logging.

  \<^bold>\<open>Parts and theories.\<close> Names in the theories are those of the source where HOL leaves them free.

  \<^item> \<open>Prelude\<close>, \<open>Go_Strings\<close>, \<open>Go_Url\<close>, \<open>Go_Words\<close>: how Go values are represented, and what the code uses of Go's library:
    UTF-8 and runes, \<open>strconv\<close>, \<open>strings\<close>, the escaping of \<open>net/url\<close>, products that do not leave 64 bits.
  \<^item> \<open>Gormx_Dsn\<close>, \<open>Gormx_Db\<close> (\<open>gormx/dsn.go\<close>, \<open>config.go\<close>, \<open>db.go\<close>): the templates of data source names with their
    optional segments, quoting for two drivers' grammars, the DSNs of masters and replicas, and the registry of
    databases that \<open>InitConfig\<close> and \<open>GetDB\<close> keep. The grammar a driver reads a DSN with is defined from its
    documentation, so that quoting is stated as a round trip.
  \<^item> \<open>Migrate_Files\<close>, \<open>Migrate_Dialect\<close>, \<open>Migrate_Ensure\<close>, \<open>Migrate_Lock\<close>, \<open>Migrate_Run\<close> (\<open>gormx/migrate\<close>): which files are
    migrations and in which order, the statements of each dialect, creating the database, the advisory
    lock and the table lock, and the run itself. \<open>Run\<close> takes a lock of \<open>Migrate_Lock\<close>, ensures the database
    with \<open>Migrate_Ensure\<close>, loads files with \<open>Migrate_Files\<close> and executes them; the database's answers are
    arguments.
  \<^item> \<open>Jodatime\<close> (\<open>jodatime\<close>): formatting times and translating layouts.
  \<^item> \<open>Goredis_Queue\<close> (\<open>goredis\<close>): the delay queue: what is pushed, the Lua script that migrates what is due, the
    daemon that runs it. The server is its sorted sets, lists and sets. \<open>Goredis_Variants\<close> (\<open>goredis/single\<close>, \<open>sentinel\<close>,
    \<open>cluster\<close>): the earlier operators as instances of the queue over a template of keys. \<open>Goredis_Commands\<close>: the
    operations of all four that hand one call to the client.
  \<^item> \<open>Rabbit_Body\<close>, \<open>Rabbit_Conn\<close>, \<open>Rabbit_Declare\<close>, \<open>Rabbit_Push\<close>, \<open>Rabbit_Consume\<close> (\<open>rabbitmqx\<close>): bodies and their
    validation; configuration, addresses, channels and reconnection; declarations with their cache; the four
    pushes with retries; consumers. A push of \<open>Rabbit_Push\<close> declares through \<open>Rabbit_Declare\<close> on a channel of
    \<open>Rabbit_Conn\<close> and sends the message \<open>Rabbit_Body\<close> validated. \<open>Rabbit_Manage\<close>: the management API and the pool's options.
  \<^item> \<open>Kafka\<close> (\<open>kafkax\<close>): configuration and security, writers and pushes, readers, the consumer and its commits,
    the registry of consumers, topics, groups and previews.
  \<^item> \<open>Rocketmq\<close>, \<open>Rocketmq_Channel\<close> (\<open>rocketmqx\<close>): messages, producers and pushes, the registry of consumers; and the channel
    that a consumer's handler sends on, under every interleaving of consuming, cancelling and closing.
  \<^item> \<open>Cryptox\<close> (\<open>cryptox\<close>): Base64, padding, CBC over a block cipher, AES and DES, RSA in chunks, digests. The ciphers are
    arguments with their laws as hypotheses.
  \<^item> \<open>Ginmetrics\<close> (\<open>ginmetrics\<close>, \<open>bloom\<close>): the Bloom filter, the registry of metrics, and what the middleware counts.
  \<^item> \<open>Cron\<close> (\<open>cron\<close>): builders of schedules, and the registry of jobs over the scheduler's entries.
  \<^item> \<open>Es\<close> (\<open>es\<close>): addresses, indices, the bulk payload, scrolling, queries and pages. \<open>scroll_loop\<close> takes as fuel the number of
    pages it may ask for; with a server that ends with an empty page, one more than its pages is enough, which
    \<open>scroll_complete\<close> shows.
  \<^item> \<open>Rpc\<close>, \<open>Rpc_Clients\<close> (\<open>httpx\<close>, \<open>grpcx\<close>, \<open>ral\<close>): configurations, requests with their queries and headers, calls by the
    name of a service; and the clients that are made when first asked for, shared under every interleaving.
  \<^item> \<open>Obs_Path\<close>, \<open>Obs\<close> (\<open>obsx\<close>): object paths, cleaned file paths, and the client: directories that are listed, copied, renamed,
    deleted and downloaded, uploads with their retries. A listing is a snapshot of the store at the call.
  \<^item> \<open>Mongo\<close> (\<open>mongo\<close>): configuration and its text for the log, the operator, collections and repositories with their
    caches, finding and listing by pages.
  \<^item> \<open>Utils\<close> (\<open>utils\<close>, \<open>bufferx\<close>, \<open>page\<close>, \<open>syncer\<close>) and \<open>Configx\<close> (\<open>configx\<close>): numbers, random strings, buffers, combined writers;
    the structure of the configuration, its time-outs, the choice of its file and the providers.
  \<^item> \<open>Kube_Deployment\<close>, \<open>Kube_Objects\<close> (\<open>kube\<close>): requests, their checks and defaults, and the objects of the Kubernetes API
    that are built from them.
  \<^item> \<open>Middleware\<close> (\<open>jwtx\<close>, \<open>middleware\<close>) and \<open>Ginx\<close> (\<open>ginx\<close>): tokens and what they guard, the values of a request's context,
    recovery; answers and downloads. \<open>Ginx\<close> answers with the errors of \<open>Errors\<close>.
  \<^item> \<open>Logging\<close> (\<open>log\<close>, \<open>slogx\<close>, \<open>gormx/log.go\<close>): settings, levels and outputs, fields, and the lines of SQL statements.
  \<^item> \<open>Streams\<close> (\<open>streams\<close>), \<open>Errors\<close> (\<open>errors\<close>), \<open>Once\<close> (\<open>bufferx/once.go\<close>), \<open>Pointer\<close> (\<open>pointer\<close>), \<open>Charsets\<close>
    (\<open>stringutil\<close>, \<open>idgen\<close>): the small packages with logic of their own.

  \<^bold>\<open>How state and effects are modelled.\<close> A struct is a record, an enumeration a datatype, a map a partial
  function, an error the left side of a sum and a panic the \<open>None\<close> of an option. What a library, a driver, a
  broker or a file answers is an argument, never a definition; what its documentation promises is a named
  hypothesis (\<open>lawful_jwt\<close>, the laws of an object store in \<open>Obs\<close>, of a cipher in \<open>Cryptox\<close>), with an instance in the
  witness. Sequential code is a function on the
  state; code in which goroutines or processes interleave (the table lock, the cached declarations, the
  workers of a stream, \<open>Once\<close>, the channels of RocketMQ, shared clients and repositories) is an inductive step relation
  over their program counters; loops driven by
  events from outside (the daemons and the consumers) are step functions folded over a list of events, so
  that a property of every list is a property of every run. Loops over attempts recurse on the attempts
  that are left; \<open>advisory_Lock\<close>, the loop of the daemon and scrolling take the number of rounds as fuel, and their
  theorems say for which rounds they return.

  \<^bold>\<open>What the lemmas show.\<close> Invariants of every interleaving (exclusion by the table lock, one declaration per
  key, one run of a \<open>Once\<close>, one client per service, no connection left behind, a channel open as long as its
  consumer is registered, conservation of delayed messages, commits behind deliveries); that a run of
  migrations refines its plan, is idempotent and records only what it executed; that pushes publish at
  most once per attempt and report success only then; that consumers hand over in order and end; that renaming a directory
  of objects loses none and a download leaves the local directory alone elsewhere; that requests without a valid
  token reach no handler and credentials no log; that objects sent to Kubernetes are valid; bounds of times and numbers; round
  trips of quoting, addresses, paths, queries, payloads, tokens, encryption and times; that the variants of an operator
  behave as the general one; and, by theorem, several places where the code does not do
  what it is meant to: those are listed with the findings of the manifest.

  \<^bold>\<open>Interfaces.\<close> \<open>Rabbit_Declare.cached_declaration\<close> is the contract of a declaration behind the cache, with
  the exchange, the queue and the binding as its interpretations; \<open>Rabbit_Push.push_body\<close> and \<open>push_core\<close> are those
  of a body and of an attempt to push it, interpreted by the four kinds of push; \<open>Goredis_Variants.queue_variant\<close> says when
  an operator over a template of keys behaves as the general one, and is interpreted by the three packages.
  \<open>Migrate_Lock.migration_lock\<close> is the contract of a lock that a run takes, interpreted by the advisory lock and the table lock;
  \<open>Kube_Deployment.defaulting_check\<close> is that of a check which fills in defaults, interpreted by the kinds of objects.

  \<^bold>\<open>Not modelled.\<close> \<open>jsonutil\<close>, \<open>poolx\<close>, \<open>gocache\<close> and \<open>times\<close>, which hand their arguments to one call of a library each;
  in the components above, the calls that do the same (reading, watching and deleting in \<open>kube\<close>, publishing and subscribing in
  \<open>goredis\<close>), encoders and files of logs, and numbers with a fraction. Time-outs are events, not durations, except in
  the locks, whose staleness is what their theorems are about. What is logged is left out everywhere but in \<open>Middleware\<close> and
  \<open>Logging\<close>.
\<close>

end
